(* ===== verification/Prelude.thy ===== *)
theory Prelude
  imports Main
begin

text \<open>
  Shared vocabulary of the development: the parts of Go's \<^verbatim>\<open>strings\<close> package that the
  modelled code calls (\<^verbatim>\<open>ToUpper\<close>, \<^verbatim>\<open>ToLower\<close>, \<^verbatim>\<open>TrimPrefix\<close>, \<^verbatim>\<open>HasPrefix\<close>,
  \<^verbatim>\<open>EqualFold\<close>), and generic list lemmas used by several components.  Strings are byte
  lists; case conversion is the ASCII one and leaves every other byte unchanged, which is what
  Go does on the ASCII state and option names the code compares.
\<close>

named_theorems go_eval "unfolding rules that let the simplifier evaluate Go string helpers"

section \<open>Go string helpers\<close>

definition lower_chars :: string where
  "lower_chars = ''abcdefghijklmnopqrstuvwxyz''"

definition upper_chars :: string where
  "upper_chars = ''ABCDEFGHIJKLMNOPQRSTUVWXYZ''"

definition to_upper_char :: "char \<Rightarrow> char" where
  "to_upper_char c = (case map_of (zip lower_chars upper_chars) c of Some d \<Rightarrow> d | None \<Rightarrow> c)"

definition to_lower_char :: "char \<Rightarrow> char" where
  "to_lower_char c = (case map_of (zip upper_chars lower_chars) c of Some d \<Rightarrow> d | None \<Rightarrow> c)"

definition ToUpper :: "string \<Rightarrow> string" where
  "ToUpper s = map to_upper_char s"

definition ToLower :: "string \<Rightarrow> string" where
  "ToLower s = map to_lower_char s"

definition HasPrefix :: "string \<Rightarrow> string \<Rightarrow> bool" where
  "HasPrefix s p \<longleftrightarrow> take (length p) s = p"

definition TrimPrefix :: "string \<Rightarrow> string \<Rightarrow> string" where
  "TrimPrefix s p = (if HasPrefix s p then drop (length p) s else s)"

definition EqualFold :: "string \<Rightarrow> string \<Rightarrow> bool" where
  "EqualFold s t \<longleftrightarrow> ToLower s = ToLower t"

lemmas [go_eval] =
  lower_chars_def upper_chars_def to_upper_char_def to_lower_char_def
  ToUpper_def ToLower_def HasPrefix_def TrimPrefix_def EqualFold_def

lemma length_case_chars: "length upper_chars = length lower_chars"
  by (simp add: upper_chars_def lower_chars_def)

lemma to_lower_char_not_upper: "to_lower_char c \<notin> set upper_chars"
proof (cases "map_of (zip upper_chars lower_chars) c")
  case None
  then have "c \<notin> set upper_chars"
    by (simp add: map_of_zip_is_None length_case_chars)
  with None show ?thesis by (simp add: to_lower_char_def)
next
  case (Some d)
  then have "d \<in> set lower_chars"
    by (meson map_of_SomeD set_zip_rightD)
  moreover have "set lower_chars \<inter> set upper_chars = {}"
    by (simp add: lower_chars_def upper_chars_def)
  ultimately show ?thesis using Some by (auto simp: to_lower_char_def)
qed

lemma to_lower_char_id: "c \<notin> set upper_chars \<Longrightarrow> to_lower_char c = c"
  by (cases "map_of (zip upper_chars lower_chars) c")
     (auto simp: to_lower_char_def dest: map_of_SomeD set_zip_leftD)

lemma to_lower_char_idem [simp]: "to_lower_char (to_lower_char c) = to_lower_char c"
  by (rule to_lower_char_id) (rule to_lower_char_not_upper)

lemma ToLower_idem [simp]: "ToLower (ToLower s) = ToLower s"
  by (simp add: ToLower_def)

lemma ToLower_Nil_iff [simp]: "ToLower s = [] \<longleftrightarrow> s = []"
  by (simp add: ToLower_def)

lemma ToLower_no_upper_prefix:
  assumes "c \<in> set upper_chars"
  shows "\<not> HasPrefix (ToLower s) (c # p)"
proof
  assume "HasPrefix (ToLower s) (c # p)"
  then obtain x xs where "s = x # xs" and "to_lower_char x = c"
    by (cases s) (auto simp: HasPrefix_def ToLower_def)
  with assms to_lower_char_not_upper [of x] show False by simp
qed

lemma TrimPrefix_ToLower [simp]: "TrimPrefix (ToLower s) ''STATE_'' = ToLower s"
  by (simp add: TrimPrefix_def ToLower_no_upper_prefix upper_chars_def)

section \<open>Lists and counting\<close>

lemma count_list_pos_iff [simp]: "0 < count_list xs x \<longleftrightarrow> x \<in> set xs"
  by (induction xs) auto

lemma count_list_eq_length: "count_list xs x = length xs \<longleftrightarrow> set xs \<subseteq> {x}"
proof (induction xs)
  case (Cons y ys)
  then show ?case using count_le_length [of ys x] by (auto simp: not_less_eq_eq)
qed simp

lemma count_list_add_eq_length:
  assumes "x \<noteq> y"
  shows "count_list xs x + count_list xs y = length xs \<longleftrightarrow> set xs \<subseteq> {x, y}"
proof -
  have le: "count_list zs x + count_list zs y \<le> length zs" for zs
    using assms by (induction zs) auto
  show ?thesis
  proof (induction xs)
    case (Cons z zs)
    then show ?case using assms le [of zs] by (auto simp: not_less_eq_eq)
  qed simp
qed

lemma find_None_iff_set: "find P xs = None \<longleftrightarrow> (\<forall>x\<in>set xs. \<not> P x)"
  by (induction xs) auto

lemma mem_image_conv: "x \<in> f ` A \<longleftrightarrow> (\<exists>a\<in>A. f a = x)"
  by auto

lemma image_eq_singleton_conv: "f ` A = {x} \<longleftrightarrow> A \<noteq> {} \<and> (\<forall>a\<in>A. f a = x)"
  by auto

text \<open>Rules for walking down a chain of conditionals without splitting it.\<close>

lemma if_fixI: "f x = x \<Longrightarrow> f y = y \<Longrightarrow> f (if b then x else y) = (if b then x else y)"
  by simp

lemma if_predI: "P x \<Longrightarrow> P y \<Longrightarrow> P (if b then x else y)"
  by simp

text \<open>The first element of a list that satisfies a predicate, or a default.\<close>

fun first_or :: "'a \<Rightarrow> ('a \<Rightarrow> bool) \<Rightarrow> 'a list \<Rightarrow> 'a" where
  "first_or d P [] = d"
| "first_or d P (x # xs) = (if P x then x else first_or d P xs)"

lemma first_or_cases: "first_or d P xs = d \<and> (\<forall>x\<in>set xs. \<not> P x) \<or>
    first_or d P xs \<in> set xs \<and> P (first_or d P xs)"
  by (induction xs) auto

lemma first_or_eqI:
  assumes "\<And>x. x \<in> set xs \<Longrightarrow> P x \<Longrightarrow> Q x"
    and "\<And>x. x \<in> set xs \<Longrightarrow> Q x \<Longrightarrow> first_or d Q xs = x \<Longrightarrow> P x"
  shows "first_or d P xs = first_or d Q xs"
  using assms
proof (induction xs)
  case (Cons y ys)
  show ?case
  proof (cases "Q y")
    case True
    with Cons.prems(2) [of y] show ?thesis by simp
  next
    case False
    with Cons.prems(1) [of y] have "\<not> P y" by auto
    moreover have "first_or d P ys = first_or d Q ys"
      using Cons.prems False by (intro Cons.IH) auto
    ultimately show ?thesis using False by simp
  qed
qed simp

lemma find_SomeD: "find P xs = Some x \<Longrightarrow> x \<in> set xs \<and> P x"
  by (induction xs) (auto split: if_splits)

end
