(* ===== verification/States.thy ===== *)
theory States
  imports Prelude
begin

text \<open>
  The state vocabulary of \<^verbatim>\<open>pkg/state\<close>: the apply and task state names, normalisation of the
  formats they arrive in (\<^verbatim>\<open>resolve.go\<close>, \<^verbatim>\<open>task.go\<close>, \<^verbatim>\<open>vitess.go\<close>), the metadata registry
  (\<^verbatim>\<open>metadata.go\<close>), and the derivation of an apply's state from its tasks and of a rollout's state
  from its child operations (\<^verbatim>\<open>apply.go\<close>).

  States are strings, as in the code.  The names Spirit and Vitess report are defined in those
  packages and not in this repository: they are the parameter \<^typ>\<open>string\<close> record
  \<open>engine_strings\<close>.
\<close>

section \<open>State names\<close>

abbreviation Apply_Pending :: string where "Apply_Pending \<equiv> ''pending''"
abbreviation Apply_Running :: string where "Apply_Running \<equiv> ''running''"
abbreviation Apply_RunningDegraded :: string where "Apply_RunningDegraded \<equiv> ''running_degraded''"
abbreviation Apply_Paused :: string where "Apply_Paused \<equiv> ''paused''"
abbreviation Apply_Resuming :: string where "Apply_Resuming \<equiv> ''resuming''"
abbreviation Apply_WaitingForDeploy :: string where "Apply_WaitingForDeploy \<equiv> ''waiting_for_deploy''"
abbreviation Apply_WaitingForCutover :: string where "Apply_WaitingForCutover \<equiv> ''waiting_for_cutover''"
abbreviation Apply_Recovering :: string where "Apply_Recovering \<equiv> ''recovering''"
abbreviation Apply_CuttingOver :: string where "Apply_CuttingOver \<equiv> ''cutting_over''"
abbreviation Apply_RevertWindow :: string where "Apply_RevertWindow \<equiv> ''revert_window''"
abbreviation Apply_SkippingRevert :: string where "Apply_SkippingRevert \<equiv> ''skipping_revert''"
abbreviation Apply_Reverting :: string where "Apply_Reverting \<equiv> ''reverting''"
abbreviation Apply_Completed :: string where "Apply_Completed \<equiv> ''completed''"
abbreviation Apply_Failed :: string where "Apply_Failed \<equiv> ''failed''"
abbreviation Apply_FailedRetryable :: string where "Apply_FailedRetryable \<equiv> ''failed_retryable''"
abbreviation Apply_Stopped :: string where "Apply_Stopped \<equiv> ''stopped''"
abbreviation Apply_Cancelled :: string where "Apply_Cancelled \<equiv> ''cancelled''"
abbreviation Apply_Reverted :: string where "Apply_Reverted \<equiv> ''reverted''"
abbreviation Apply_PreparingBranch :: string where "Apply_PreparingBranch \<equiv> ''preparing_branch''"
abbreviation Apply_ApplyingBranchChanges :: string where
  "Apply_ApplyingBranchChanges \<equiv> ''applying_branch_changes''"
abbreviation Apply_ValidatingBranch :: string where "Apply_ValidatingBranch \<equiv> ''validating_branch''"
abbreviation Apply_CreatingDeployRequest :: string where
  "Apply_CreatingDeployRequest \<equiv> ''creating_deploy_request''"
abbreviation Apply_ValidatingDeployRequest :: string where
  "Apply_ValidatingDeployRequest \<equiv> ''validating_deploy_request''"

text \<open>The values of the \<^verbatim>\<open>Apply\<close> struct, in field order.\<close>

definition Apply_states :: "string list" where
  "Apply_states =
    [Apply_Pending, Apply_Running, Apply_RunningDegraded, Apply_Paused, Apply_Resuming,
     Apply_WaitingForDeploy, Apply_WaitingForCutover, Apply_Recovering, Apply_CuttingOver,
     Apply_RevertWindow, Apply_SkippingRevert, Apply_Reverting, Apply_Completed, Apply_Failed,
     Apply_FailedRetryable, Apply_Stopped, Apply_Cancelled, Apply_Reverted,
     Apply_PreparingBranch, Apply_ApplyingBranchChanges, Apply_ValidatingBranch,
     Apply_CreatingDeployRequest, Apply_ValidatingDeployRequest]"

abbreviation Task_Pending :: string where "Task_Pending \<equiv> ''pending''"
abbreviation Task_Running :: string where "Task_Running \<equiv> ''running''"
abbreviation Task_Checksumming :: string where "Task_Checksumming \<equiv> ''checksumming''"
abbreviation Task_WaitingForDeploy :: string where "Task_WaitingForDeploy \<equiv> ''waiting_for_deploy''"
abbreviation Task_WaitingForCutover :: string where "Task_WaitingForCutover \<equiv> ''waiting_for_cutover''"
abbreviation Task_Recovering :: string where "Task_Recovering \<equiv> ''recovering''"
abbreviation Task_CuttingOver :: string where "Task_CuttingOver \<equiv> ''cutting_over''"
abbreviation Task_RevertWindow :: string where "Task_RevertWindow \<equiv> ''revert_window''"
abbreviation Task_Reverting :: string where "Task_Reverting \<equiv> ''reverting''"
abbreviation Task_Completed :: string where "Task_Completed \<equiv> ''completed''"
abbreviation Task_Failed :: string where "Task_Failed \<equiv> ''failed''"
abbreviation Task_FailedRetryable :: string where "Task_FailedRetryable \<equiv> ''failed_retryable''"
abbreviation Task_Stopped :: string where "Task_Stopped \<equiv> ''stopped''"
abbreviation Task_Reverted :: string where "Task_Reverted \<equiv> ''reverted''"
abbreviation Task_Cancelled :: string where "Task_Cancelled \<equiv> ''cancelled''"

text \<open>The values of the \<^verbatim>\<open>Task\<close> struct, in field order.\<close>

definition Task_states :: "string list" where
  "Task_states =
    [Task_Pending, Task_Running, Task_Checksumming, Task_WaitingForDeploy,
     Task_WaitingForCutover, Task_Recovering, Task_CuttingOver, Task_RevertWindow,
     Task_Reverting, Task_Completed, Task_Failed, Task_FailedRetryable, Task_Stopped,
     Task_Reverted, Task_Cancelled]"

definition NoActiveChange :: string where
  "NoActiveChange = ''no_active_change''"

section \<open>Normalisation and classification\<close>

definition NormalizeState :: "string \<Rightarrow> string" where
  "NormalizeState s0 =
    (let s = ToLower (TrimPrefix s0 ''STATE_'')
     in if s = [] then NoActiveChange
        else if s = ''recovering_cutover'' then Apply_Recovering
        else s)"

definition IsState :: "string \<Rightarrow> string list \<Rightarrow> bool" where
  "IsState s expected \<longleftrightarrow>
    (let norm = NormalizeState s in list_ex (\<lambda>exp. norm = NormalizeState exp) expected)"

record ApplyStateInfo =
  Label :: string
  Terminal :: bool
  SetupPhase :: bool

abbreviation state_info :: "string \<Rightarrow> bool \<Rightarrow> bool \<Rightarrow> ApplyStateInfo" where
  "state_info l t p \<equiv> \<lparr>Label = l, Terminal = t, SetupPhase = p\<rparr>"

definition applyMetadata :: "(string \<times> ApplyStateInfo) list" where
  "applyMetadata =
    [(Apply_Pending, state_info ''Pending'' False True),
     (Apply_Running, state_info ''Running'' False False),
     (Apply_RunningDegraded, state_info ''Running (degraded)'' False False),
     (Apply_Paused, state_info ''Paused'' False False),
     (Apply_Resuming, state_info ''Resuming'' False False),
     (Apply_WaitingForDeploy, state_info ''Waiting for deploy'' False True),
     (Apply_WaitingForCutover, state_info ''Waiting for cutover'' False False),
     (Apply_Recovering, state_info ''Recovering'' False False),
     (Apply_CuttingOver, state_info ''Cutting over'' False False),
     (Apply_RevertWindow, state_info ''Revert window'' False False),
     (Apply_SkippingRevert, state_info ''Skipping revert'' False False),
     (Apply_Reverting, state_info ''Reverting'' False False),
     (Apply_Completed, state_info ''Completed'' True False),
     (Apply_Failed, state_info ''Failed'' True False),
     (Apply_FailedRetryable, state_info ''Retrying'' False False),
     (Apply_Stopped, state_info ''Stopped'' True False),
     (Apply_Cancelled, state_info ''Cancelled'' True False),
     (Apply_Reverted, state_info ''Reverted'' True False),
     (Apply_PreparingBranch, state_info ''Preparing branch'' False True),
     (Apply_ApplyingBranchChanges, state_info ''Applying changes to branch'' False True),
     (Apply_ValidatingBranch, state_info ''Validating branch'' False True),
     (Apply_CreatingDeployRequest, state_info ''Creating deploy request'' False True),
     (Apply_ValidatingDeployRequest, state_info ''Validating deploy request'' False True)]"

definition LookupApply :: "string \<Rightarrow> ApplyStateInfo option" where
  "LookupApply s = map_of applyMetadata s"

definition LabelOf :: "string \<Rightarrow> string" where
  "LabelOf s = (case LookupApply s of Some info \<Rightarrow> Label info | None \<Rightarrow> s)"

definition IsTerminalApplyState :: "string \<Rightarrow> bool" where
  "IsTerminalApplyState s =
    (case LookupApply (NormalizeState s) of Some info \<Rightarrow> Terminal info | None \<Rightarrow> False)"

definition IsApplyOperationTerminal :: "string \<Rightarrow> bool" where
  "IsApplyOperationTerminal s = IsTerminalApplyState s"

definition IsRunningApplyState :: "string \<Rightarrow> bool" where
  "IsRunningApplyState s = IsState s [Apply_Running, Apply_RunningDegraded]"

definition IsSetupPhase :: "string \<Rightarrow> bool" where
  "IsSetupPhase s =
    (case LookupApply (NormalizeState s) of Some info \<Rightarrow> SetupPhase info | None \<Rightarrow> False)"

definition IsPlanetScaleEngine :: "string \<Rightarrow> bool" where
  "IsPlanetScaleEngine engine \<longleftrightarrow>
    EqualFold engine ''planetscale'' \<or> EqualFold engine ''ENGINE_PLANETSCALE''"

definition InitialActiveApplyState :: "string \<Rightarrow> string" where
  "InitialActiveApplyState engine =
    (if IsPlanetScaleEngine engine then Apply_PreparingBranch else Apply_Running)"

section \<open>Task states\<close>

definition TerminalTaskStates :: "string list" where
  "TerminalTaskStates = [Task_Completed, Task_Failed, Task_Reverted, Task_Cancelled]"

definition IsTerminalTaskState :: "string \<Rightarrow> bool" where
  "IsTerminalTaskState s \<longleftrightarrow>
    (if s \<in> {Task_Completed, Task_Failed, Task_Reverted, Task_Cancelled} then True else False)"

definition IsInFlightTaskState :: "string \<Rightarrow> bool" where
  "IsInFlightTaskState s \<longleftrightarrow>
    (if NormalizeState s \<in> {Task_Running, Task_Checksumming, Task_WaitingForCutover,
          Task_CuttingOver, Task_WaitingForDeploy, Task_Recovering, Task_Reverting}
     then True else False)"

text \<open>The names the engine packages export; they are not defined in this repository.\<close>

record engine_strings =
  spirit_Initial :: string
  spirit_CopyRows :: string
  spirit_WaitingOnSentinelTable :: string
  spirit_ApplyChangeset :: string
  spirit_RestoreSecondaryIndexes :: string
  spirit_AnalyzeTable :: string
  spirit_Checksum :: string
  spirit_PostChecksum :: string
  spirit_CutOver :: string
  spirit_Close :: string
  spirit_ErrCleanup :: string
  vitess_Requested :: string
  vitess_Cancelled :: string
  vitess_Queued :: string
  vitess_Ready :: string
  vitess_Running :: string
  vitess_Complete :: string
  vitess_Failed :: string

definition NormalizeTaskStatus :: "engine_strings \<Rightarrow> string \<Rightarrow> string" where
  "NormalizeTaskStatus es raw =
    (let s = TrimPrefix (TrimPrefix raw ''STATE_'') ''state_'' in
     if s \<in> {vitess_Complete es, spirit_Close es} then Task_Completed
     else if s = spirit_Checksum es then Task_Checksumming
     else if s \<in> {spirit_CopyRows es, spirit_Initial es, spirit_ApplyChangeset es,
                  spirit_RestoreSecondaryIndexes es, spirit_AnalyzeTable es,
                  spirit_PostChecksum es, spirit_ErrCleanup es} then Task_Running
     else if s = vitess_Running es then Task_Running
     else if s \<in> {spirit_WaitingOnSentinelTable es, ''ready_to_complete''}
       then Task_WaitingForCutover
     else if s = spirit_CutOver es then Task_CuttingOver
     else if s \<in> {vitess_Queued es, vitess_Ready es, vitess_Requested es} then Task_Pending
     else if s = vitess_Failed es then Task_Failed
     else if s = vitess_Cancelled es then Task_Cancelled
     else if s \<in> set Task_states then s
     else
       let normalized = NormalizeState s in
       if normalized = NormalizeState (vitess_Complete es) then Task_Completed
       else if normalized \<in> set Task_states then normalized
       else Task_Running)"

definition NormalizeShardStatus :: "engine_strings \<Rightarrow> string \<Rightarrow> string" where
  "NormalizeShardStatus es raw = NormalizeTaskStatus es raw"

definition IsTerminalVitessState :: "engine_strings \<Rightarrow> string \<Rightarrow> bool" where
  "IsTerminalVitessState es s \<longleftrightarrow>
    (if ToLower s \<in> {vitess_Complete es, vitess_Failed es, vitess_Cancelled es}
     then True else False)"

section \<open>Deriving the apply state\<close>

definition normalizeApplyState :: "string \<Rightarrow> string" where
  "normalizeApplyState raw =
    (let u = ToUpper raw in
     if u = ''PENDING'' then Apply_Pending
     else if u = ''RUNNING'' then Apply_Running
     else if u = ''CHECKSUMMING'' then Apply_Running
     else if u = ''RUNNING_DEGRADED'' then Apply_RunningDegraded
     else if u = ''PAUSED'' then Apply_Paused
     else if u = ''WAITING_FOR_DEPLOY'' then Apply_WaitingForDeploy
     else if u = ''WAITING_FOR_CUTOVER'' then Apply_WaitingForCutover
     else if u \<in> {''RECOVERING'', ''RECOVERING_CUTOVER''} then Apply_Recovering
     else if u = ''CUTTING_OVER'' then Apply_CuttingOver
     else if u = ''REVERT_WINDOW'' then Apply_RevertWindow
     else if u = ''REVERTING'' then Apply_Reverting
     else if u \<in> {''COMPLETED'', ''COMPLETE''} then Apply_Completed
     else if u = ''FAILED'' then Apply_Failed
     else if u = ''FAILED_RETRYABLE'' then Apply_FailedRetryable
     else if u = ''STOPPED'' then Apply_Stopped
     else if u = ''CANCELLED'' then Apply_Cancelled
     else if u = ''REVERTED'' then Apply_Reverted
     else if u = ''VALIDATING_BRANCH'' then Apply_ValidatingBranch
     else if u = ''VALIDATING_DEPLOY_REQUEST'' then Apply_ValidatingDeployRequest
     else Apply_Pending)"

text \<open>The Go map \<^verbatim>\<open>counts\<close> is the counting function of the normalised states.\<close>

definition DeriveApplyState :: "string list \<Rightarrow> string" where
  "DeriveApplyState taskStates =
    (if taskStates = [] then Apply_Pending
     else
       let counts = count_list (map normalizeApplyState taskStates);
           total = length taskStates in
       if 0 < counts Apply_Failed then Apply_Failed
       else if 0 < counts Apply_FailedRetryable then Apply_FailedRetryable
       else if 0 < counts Apply_Cancelled then Apply_Cancelled
       else if 0 < counts Apply_Stopped then Apply_Stopped
       else if 0 < counts Apply_Reverting then Apply_Reverting
       else if 0 < counts Apply_Reverted then Apply_Reverted
       else if counts Apply_Completed = total then Apply_Completed
       else if 0 < counts Apply_Recovering then Apply_Recovering
       else if 0 < counts Apply_CuttingOver then Apply_CuttingOver
       else
         let waitingOrCompleted = counts Apply_WaitingForCutover + counts Apply_Completed in
         if waitingOrCompleted = total \<and> 0 < counts Apply_WaitingForCutover
         then Apply_WaitingForCutover
         else
           let waitingDeployOrCompleted =
                 counts Apply_WaitingForDeploy + counts Apply_Completed in
           if waitingDeployOrCompleted = total \<and> 0 < counts Apply_WaitingForDeploy
           then Apply_WaitingForDeploy
           else if 0 < counts Apply_RevertWindow then Apply_RevertWindow
           else if 0 < counts Apply_Running then Apply_Running
           else Apply_Pending)"

section \<open>Deriving the rollout state\<close>

record RolloutChild =
  child_State :: string
  ContinueOnFailure :: bool
  PauseOnFailure :: bool

definition hasLaterNonTerminal :: "RolloutChild list \<Rightarrow> nat \<Rightarrow> bool" where
  "hasLaterNonTerminal children failedIndex \<longleftrightarrow>
    list_ex (\<lambda>c. \<not> IsTerminalApplyState (child_State c)) (drop (failedIndex + 1) children)"

text \<open>
  The loop of \<^verbatim>\<open>DeriveRolloutApplyState\<close>: \<open>i\<close> is the loop index, the last argument the children
  still to visit, and the result the three flags \<open>(allTerminal, hardFail, pausedHold)\<close>.
\<close>

fun rollout_scan ::
  "RolloutChild list \<Rightarrow> nat \<Rightarrow> bool \<times> bool \<times> bool \<Rightarrow> RolloutChild list \<Rightarrow> bool \<times> bool \<times> bool" where
  "rollout_scan children i flags [] = flags"
| "rollout_scan children i (allTerminal, hardFail, pausedHold) (c # cs) =
    (let allTerminal' = (if \<not> IsTerminalApplyState (child_State c) then False else allTerminal) in
     if \<not> IsState (child_State c) [Apply_Failed]
     then rollout_scan children (Suc i) (allTerminal', hardFail, pausedHold) cs
     else if ContinueOnFailure c \<and> PauseOnFailure c
     then rollout_scan children (Suc i) (allTerminal', True, pausedHold) cs
     else if ContinueOnFailure c
     then rollout_scan children (Suc i) (allTerminal', hardFail, pausedHold) cs
     else if PauseOnFailure c \<and> hasLaterNonTerminal children i
     then rollout_scan children (Suc i) (allTerminal', hardFail, True) cs
     else if PauseOnFailure c
     then rollout_scan children (Suc i) (allTerminal', hardFail, pausedHold) cs
     else rollout_scan children (Suc i) (allTerminal', True, pausedHold) cs)"

definition DeriveRolloutApplyState :: "RolloutChild list \<Rightarrow> string" where
  "DeriveRolloutApplyState children =
    (if children = [] then Apply_Pending
     else
       let base = DeriveApplyState (map child_State children) in
       if \<not> IsState base [Apply_Failed] then base
       else
         let (allTerminal, hardFail, pausedHold) =
               rollout_scan children 0 (True, False, False) children in
         if hardFail then Apply_Failed
         else if pausedHold then Apply_Paused
         else if allTerminal then Apply_Failed
         else Apply_RunningDegraded)"

section \<open>The derivation as a function of the set of states\<close>

text \<open>
  An abstract reading of \<^const>\<open>DeriveApplyState\<close>: only the set \<open>A\<close> of normalised states matters,
  and the result is the first state of a fixed order that answers for \<open>A\<close>.  A resting state
  (completed, or waiting) answers only when every task is in it or completed; any other state
  answers as soon as one task is in it.
\<close>

definition derive_order :: "string list" where
  "derive_order = [Apply_Failed, Apply_FailedRetryable, Apply_Cancelled, Apply_Stopped,
     Apply_Reverting, Apply_Reverted, Apply_Completed, Apply_Recovering, Apply_CuttingOver,
     Apply_WaitingForCutover, Apply_WaitingForDeploy, Apply_RevertWindow, Apply_Running]"

definition resting_states :: "string list" where
  "resting_states = [Apply_Completed, Apply_WaitingForCutover, Apply_WaitingForDeploy]"

definition answers :: "string set \<Rightarrow> string \<Rightarrow> bool" where
  "answers A x \<longleftrightarrow> x \<in> A \<and> (x \<in> set resting_states \<longrightarrow> A \<subseteq> {x, Apply_Completed})"

definition derive_spec :: "string set \<Rightarrow> string" where
  "derive_spec A = first_or Apply_Pending (answers A) derive_order"

lemma count_list_waiting:
  "count_list xs Apply_WaitingForCutover + count_list xs Apply_Completed = length xs \<longleftrightarrow>
     set xs \<subseteq> {Apply_WaitingForCutover, Apply_Completed}"
  "count_list xs Apply_WaitingForDeploy + count_list xs Apply_Completed = length xs \<longleftrightarrow>
     set xs \<subseteq> {Apply_WaitingForDeploy, Apply_Completed}"
  by (rule count_list_add_eq_length, simp)+

lemma answers_simps:
  "answers A Apply_Failed \<longleftrightarrow> Apply_Failed \<in> A"
  "answers A Apply_FailedRetryable \<longleftrightarrow> Apply_FailedRetryable \<in> A"
  "answers A Apply_Cancelled \<longleftrightarrow> Apply_Cancelled \<in> A"
  "answers A Apply_Stopped \<longleftrightarrow> Apply_Stopped \<in> A"
  "answers A Apply_Reverting \<longleftrightarrow> Apply_Reverting \<in> A"
  "answers A Apply_Reverted \<longleftrightarrow> Apply_Reverted \<in> A"
  "answers A Apply_Completed \<longleftrightarrow> A = {Apply_Completed}"
  "answers A Apply_Recovering \<longleftrightarrow> Apply_Recovering \<in> A"
  "answers A Apply_CuttingOver \<longleftrightarrow> Apply_CuttingOver \<in> A"
  "answers A Apply_WaitingForCutover \<longleftrightarrow>
     A \<subseteq> {Apply_WaitingForCutover, Apply_Completed} \<and> Apply_WaitingForCutover \<in> A"
  "answers A Apply_WaitingForDeploy \<longleftrightarrow>
     A \<subseteq> {Apply_WaitingForDeploy, Apply_Completed} \<and> Apply_WaitingForDeploy \<in> A"
  "answers A Apply_RevertWindow \<longleftrightarrow> Apply_RevertWindow \<in> A"
  "answers A Apply_Running \<longleftrightarrow> Apply_Running \<in> A"
  by (auto simp: answers_def resting_states_def)

lemma DeriveApplyState_spec:
  "DeriveApplyState ss = derive_spec (set (map normalizeApplyState ss))"
proof (cases "ss = []")
  case True
  then show ?thesis
    by (simp add: DeriveApplyState_def derive_spec_def derive_order_def answers_def)
next
  case False
  have len: "length ss = length (map normalizeApplyState ss)" by simp
  have ne: "(set (map normalizeApplyState ss) \<subseteq> {x}) = (set (map normalizeApplyState ss) = {x})" for x
    using False by (auto simp: subset_singleton_iff)
  show ?thesis
    unfolding DeriveApplyState_def derive_spec_def derive_order_def first_or.simps if_not_P [OF False]
      Let_def len count_list_pos_iff count_list_eq_length count_list_waiting ne answers_simps
    by (rule refl)
qed

lemma derive_spec_cases:
  obtains "derive_spec A = Apply_Pending" "\<forall>x\<in>set derive_order. \<not> answers A x"
  | "derive_spec A \<in> set derive_order" "answers A (derive_spec A)"
  using first_or_cases [of Apply_Pending "answers A" derive_order] by (auto simp: derive_spec_def)

lemma Pending_not_derived: "Apply_Pending \<notin> set derive_order"
  by (simp add: derive_order_def)

lemma derive_spec_answers: "x \<in> set derive_order \<Longrightarrow> derive_spec A = x \<Longrightarrow> answers A x"
  by (cases A rule: derive_spec_cases) (use Pending_not_derived in metis)+

lemma derive_order_normal:
  "list_all (\<lambda>x. normalizeApplyState x = x \<and> NormalizeState x = x) (Apply_Pending # derive_order)"
  by code_simp

lemma derive_spec_normal:
  "normalizeApplyState (derive_spec A) = derive_spec A \<and> NormalizeState (derive_spec A) = derive_spec A"
proof -
  have "derive_spec A \<in> set (Apply_Pending # derive_order)"
    by (cases A rule: derive_spec_cases) simp_all
  then show ?thesis using derive_order_normal by (simp only: list_all_iff)
qed

lemmas normalizeApplyState_derive_spec [simp] = derive_spec_normal [THEN conjunct1]
lemmas NormalizeState_derive_spec [simp] = derive_spec_normal [THEN conjunct2]

text \<open>
  Aggregating group by group and then over the groups gives the same answer as aggregating
  everything at once.
\<close>

lemma answers_derived:
  assumes ne: "\<And>A. A \<in> F \<Longrightarrow> A \<noteq> {}"
    and x: "x \<in> set derive_order" "answers (derive_spec ` F) x"
  shows "answers (\<Union>F) x"
proof -
  have mem: "y \<in> A" if "derive_spec A = y" "y \<in> set derive_order" for A y
    using derive_spec_answers [OF that(2,1)] by (simp add: answers_def)
  from x obtain A where "A \<in> F" "derive_spec A = x" by (auto simp: answers_def)
  with mem x(1) have "x \<in> \<Union>F" by blast
  moreover have "\<Union>F \<subseteq> {x, Apply_Completed}" if rest: "x \<in> set resting_states"
  proof -
    have compl: "Apply_Completed \<in> set resting_states" "Apply_Completed \<in> set derive_order"
      by (simp_all add: resting_states_def derive_order_def)
    have "A \<subseteq> {x, Apply_Completed}" if "A \<in> F" for A
    proof -
      from that rest x have "derive_spec A = x \<or> derive_spec A = Apply_Completed"
        by (auto simp: answers_def)
      then have "answers A x \<or> answers A Apply_Completed"
        using derive_spec_answers x(1) compl(2) by blast
      with rest compl(1) show ?thesis by (auto simp: answers_def)
    qed
    then show ?thesis by blast
  qed
  ultimately show ?thesis by (simp add: answers_def)
qed

lemma derive_spec_member:
  assumes x: "x \<in> set derive_order" "derive_spec U = x" and A: "A \<subseteq> U" "answers A x"
    and rest: "\<And>y. y \<in> set resting_states \<Longrightarrow> answers A y \<Longrightarrow> answers U y \<or> y = x"
  shows "derive_spec A = x"
proof -
  have U: "answers U x" using derive_spec_answers x by blast
  have "first_or Apply_Pending (answers A) derive_order =
      first_or Apply_Pending (answers U) derive_order"
  proof (rule first_or_eqI)
    fix y assume "y \<in> set derive_order" "answers A y"
    with A(1) rest [of y] U show "answers U y"
      by (cases "y \<in> set resting_states") (auto simp: answers_def)
  next
    fix y assume "first_or Apply_Pending (answers U) derive_order = y"
    with x A(2) show "answers A y" by (simp add: derive_spec_def)
  qed
  with x(2) show ?thesis by (simp add: derive_spec_def)
qed

lemma derive_spec_Union:
  assumes ne: "\<And>A. A \<in> F \<Longrightarrow> A \<noteq> {}"
  shows "derive_spec (derive_spec ` F) = derive_spec (\<Union>F)"
  unfolding derive_spec_def [of "derive_spec ` F"] derive_spec_def [of "\<Union>F"]
proof (rule first_or_eqI)
  fix x assume "x \<in> set derive_order" "answers (derive_spec ` F) x"
  then show "answers (\<Union>F) x" using answers_derived ne by blast
next
  fix x
  assume x: "x \<in> set derive_order" "answers (\<Union>F) x"
    "first_or Apply_Pending (answers (\<Union>F)) derive_order = x"
  then have U: "derive_spec (\<Union>F) = x" by (simp add: derive_spec_def)
  have all: "derive_spec A = x" if "A \<in> F" "x \<in> A" for A
  proof (rule derive_spec_member [OF x(1) U])
    show "A \<subseteq> \<Union>F" using that by blast
    show "answers A x" using x(2) that by (auto simp: answers_def)
    fix y assume y: "y \<in> set resting_states" "answers A y"
    then have "x = y \<or> x = Apply_Completed" using that(2) by (auto simp: answers_def)
    moreover have "y = Apply_Completed" if "x = Apply_Completed"
    proof -
      from that x(2) have "\<Union>F = {Apply_Completed}" by (simp only: answers_simps)
      moreover from y(2) have "y \<in> A" by (simp add: answers_def)
      ultimately show ?thesis using \<open>A \<in> F\<close> by blast
    qed
    ultimately show "answers (\<Union>F) y \<or> y = x" by blast
  qed
  have compl: "derive_spec A = Apply_Completed" if "A \<in> F" "x \<notin> A" "x \<in> set resting_states" for A
  proof -
    from that x(2) ne [OF that(1)] have "A = {Apply_Completed}" by (auto simp: answers_def)
    then show ?thesis by (simp add: derive_spec_def derive_order_def answers_simps)
  qed
  from x(2) obtain A where "A \<in> F" "x \<in> A" by (auto simp: answers_def)
  then have "x \<in> derive_spec ` F" using all by (metis imageI)
  moreover have "derive_spec ` F \<subseteq> {x, Apply_Completed}" if "x \<in> set resting_states"
    using all compl that by blast
  ultimately show "answers (derive_spec ` F) x" by (simp add: answers_def)
qed

lemma DeriveApplyState_concat:
  assumes "\<And>g. g \<in> set gs \<Longrightarrow> g \<noteq> []"
  shows "DeriveApplyState (map DeriveApplyState gs) = DeriveApplyState (concat gs)"
proof -
  let ?N = "\<lambda>g. set (map normalizeApplyState g)"
  have "DeriveApplyState (map DeriveApplyState gs) =
      derive_spec (derive_spec ` ?N ` set gs)"
    by (simp add: DeriveApplyState_spec image_image)
  also have "\<dots> = derive_spec (\<Union> (?N ` set gs))"
    by (rule derive_spec_Union) (use assms in auto)
  also have "\<Union> (?N ` set gs) = ?N (concat gs)" by auto
  finally show ?thesis by (simp add: DeriveApplyState_spec)
qed

section \<open>The rollout projection, declaratively\<close>

definition child_failed :: "RolloutChild \<Rightarrow> bool" where
  "child_failed c \<longleftrightarrow> IsState (child_State c) [Apply_Failed]"

definition child_terminal :: "RolloutChild \<Rightarrow> bool" where
  "child_terminal c \<longleftrightarrow> IsTerminalApplyState (child_State c)"

text \<open>A failure that decides the rollout at once: no policy flag, or (invalid) both.\<close>

definition hard_failure :: "RolloutChild \<Rightarrow> bool" where
  "hard_failure c \<longleftrightarrow> child_failed c \<and> ContinueOnFailure c = PauseOnFailure c"

text \<open>An unreleased pause failure at position \<open>i\<close> with work after it that is not yet terminal.\<close>

definition held_at :: "RolloutChild list \<Rightarrow> nat \<Rightarrow> RolloutChild \<Rightarrow> bool" where
  "held_at children i c \<longleftrightarrow> child_failed c \<and> PauseOnFailure c \<and> \<not> ContinueOnFailure c \<and>
     (\<exists>d\<in>set (drop (i + 1) children). \<not> child_terminal d)"

lemma rollout_scan_eq:
  "rollout_scan children i (a, h, p) cs =
    (a \<and> (\<forall>c\<in>set cs. child_terminal c),
     h \<or> (\<exists>c\<in>set cs. hard_failure c),
     p \<or> (\<exists>k<length cs. held_at children (i + k) (cs ! k)))"
proof (induction cs arbitrary: i a h p)
  case (Cons c cs)
  have later: "(\<exists>k<length (c # cs). held_at children (i + k) ((c # cs) ! k)) \<longleftrightarrow>
      held_at children i c \<or> (\<exists>k<length cs. held_at children (Suc i + k) (cs ! k))"
    by (simp add: Ex_less_Suc2)
  show ?case
    unfolding later rollout_scan.simps Let_def Cons.IH
    by (simp add: held_at_def hard_failure_def child_failed_def child_terminal_def
        hasLaterNonTerminal_def list_ex_iff)
qed simp

lemma IsState_DeriveApplyState:
  "IsState (DeriveApplyState ss) [Apply_Failed] \<longleftrightarrow> DeriveApplyState ss = Apply_Failed"
  by (simp add: IsState_def DeriveApplyState_spec NormalizeState_derive_spec)
     (simp add: NormalizeState_def go_eval)

lemma DeriveRolloutApplyState_eq:
  "DeriveRolloutApplyState children =
    (let base = DeriveApplyState (map child_State children) in
     if base \<noteq> Apply_Failed then base
     else if \<exists>c\<in>set children. hard_failure c then Apply_Failed
     else if \<exists>i<length children. held_at children i (children ! i) then Apply_Paused
     else if \<forall>c\<in>set children. child_terminal c then Apply_Failed
     else Apply_RunningDegraded)"
proof (cases "children = []")
  case True
  then show ?thesis by (simp add: DeriveRolloutApplyState_def DeriveApplyState_def)
next
  case False
  then show ?thesis
    by (simp add: DeriveRolloutApplyState_def IsState_DeriveApplyState rollout_scan_eq Let_def)
qed

lemma derive_spec_Failed_iff: "derive_spec A = Apply_Failed \<longleftrightarrow> Apply_Failed \<in> A"
  using derive_spec_answers [of Apply_Failed A]
  by (auto simp: derive_spec_def derive_order_def answers_simps)

lemma derive_spec_Completed_iff: "derive_spec A = Apply_Completed \<longleftrightarrow> A = {Apply_Completed}"
proof
  assume "derive_spec A = Apply_Completed"
  then have "answers A Apply_Completed"
    by (intro derive_spec_answers) (simp_all add: derive_order_def)
  then show "A = {Apply_Completed}" by (simp only: answers_simps)
qed (simp add: derive_spec_def derive_order_def answers_simps)

lemma DeriveApplyState_Failed_iff:
  "DeriveApplyState ss = Apply_Failed \<longleftrightarrow> (\<exists>s\<in>set ss. normalizeApplyState s = Apply_Failed)"
  by (simp only: DeriveApplyState_spec derive_spec_Failed_iff set_map mem_image_conv)

lemma DeriveApplyState_Completed_iff:
  "DeriveApplyState ss = Apply_Completed \<longleftrightarrow>
     ss \<noteq> [] \<and> (\<forall>s\<in>set ss. normalizeApplyState s = Apply_Completed)"
  by (simp only: DeriveApplyState_spec derive_spec_Completed_iff set_map image_eq_singleton_conv
      set_empty)

text \<open>A released pause is treated like continue (\<^verbatim>\<open>RolloutChild\<close>'s contract).\<close>

definition release_child :: "RolloutChild \<Rightarrow> RolloutChild" where
  "release_child c =
    c\<lparr>ContinueOnFailure := ContinueOnFailure c \<or> PauseOnFailure c, PauseOnFailure := False\<rparr>"

lemma release_child_simps [simp]:
  "child_State (release_child c) = child_State c"
  "PauseOnFailure (release_child c) = False"
  "ContinueOnFailure (release_child c) = (ContinueOnFailure c \<or> PauseOnFailure c)"
  by (simp_all add: release_child_def)

lemma map_release_states [simp]:
  "map child_State (map release_child cs) = map child_State cs"
  by (simp add: comp_def)

lemma held_somewhere_iff_nonterminal:
  "held_at cs i c \<Longrightarrow> \<exists>d\<in>set cs. \<not> child_terminal d"
  by (auto simp: held_at_def dest: in_set_dropD)

section \<open>Task status normalisation\<close>

lemma NormalizeState_idem: "NormalizeState (NormalizeState s) = NormalizeState s"
proof -
  define t where "t = ToLower (TrimPrefix s ''STATE_'')"
  have "NormalizeState NoActiveChange = NoActiveChange" "NormalizeState Apply_Recovering = Apply_Recovering"
    by (simp_all add: NormalizeState_def NoActiveChange_def go_eval)
  moreover have "NormalizeState t = t" if "t \<noteq> []" "t \<noteq> ''recovering_cutover''"
    using that by (simp add: NormalizeState_def t_def)
  ultimately show ?thesis
    by (simp add: NormalizeState_def [of s] Let_def flip: t_def)
qed

lemma NormalizeTaskStatus_closed: "NormalizeTaskStatus es raw \<in> set Task_states"
proof -
  have names: "Task_Completed \<in> set Task_states" "Task_Checksumming \<in> set Task_states"
    "Task_Running \<in> set Task_states" "Task_WaitingForCutover \<in> set Task_states"
    "Task_CuttingOver \<in> set Task_states" "Task_Pending \<in> set Task_states"
    "Task_Failed \<in> set Task_states" "Task_Cancelled \<in> set Task_states"
    by (simp_all add: Task_states_def)
  show ?thesis
    unfolding NormalizeTaskStatus_def Let_def using names by (simp only: if_True split: if_split) simp
qed

text \<open>
  What the code relies on about the engine packages' names: Spirit's phase names and Vitess's
  queue and completion names are not themselves canonical task states, and Vitess's
  \<^verbatim>\<open>running\<close>, \<^verbatim>\<open>failed\<close> and \<^verbatim>\<open>cancelled\<close> are spelled like the task states they map to.
\<close>

definition engine_strings_ok :: "engine_strings \<Rightarrow> bool" where
  "engine_strings_ok es \<longleftrightarrow>
    (\<forall>s \<in> set [spirit_Initial es, spirit_CopyRows es, spirit_WaitingOnSentinelTable es,
        spirit_ApplyChangeset es, spirit_RestoreSecondaryIndexes es, spirit_AnalyzeTable es,
        spirit_Checksum es, spirit_PostChecksum es, spirit_CutOver es, spirit_Close es,
        spirit_ErrCleanup es, vitess_Requested es, vitess_Queued es, vitess_Ready es,
        vitess_Complete es]. s \<notin> set Task_states) \<and>
    vitess_Running es = Task_Running \<and> vitess_Failed es = Task_Failed \<and>
    vitess_Cancelled es = Task_Cancelled"

text \<open>The names as \<^verbatim>\<open>pkg/state/README.md\<close> lists them.\<close>

definition documented_engine_strings :: engine_strings where
  "documented_engine_strings =
    \<lparr>spirit_Initial = ''initial'', spirit_CopyRows = ''copyRows'',
     spirit_WaitingOnSentinelTable = ''waitingOnSentinelTable'',
     spirit_ApplyChangeset = ''applyChangeset'',
     spirit_RestoreSecondaryIndexes = ''restoreSecondaryIndexes'',
     spirit_AnalyzeTable = ''analyzeTable'', spirit_Checksum = ''checksum'',
     spirit_PostChecksum = ''postChecksum'', spirit_CutOver = ''cutOver'',
     spirit_Close = ''close'', spirit_ErrCleanup = ''errCleanup'',
     vitess_Requested = ''requested'', vitess_Cancelled = ''cancelled'',
     vitess_Queued = ''queued'', vitess_Ready = ''ready'', vitess_Running = ''running'',
     vitess_Complete = ''complete'', vitess_Failed = ''failed''\<rparr>"

lemma documented_engine_strings_ok: "engine_strings_ok documented_engine_strings"
  by (simp add: engine_strings_ok_def documented_engine_strings_def Task_states_def)

lemma TrimPrefix_task_state:
  "s \<in> set Task_states \<Longrightarrow> TrimPrefix (TrimPrefix s ''STATE_'') ''state_'' = s"
  by (auto simp: Task_states_def TrimPrefix_def HasPrefix_def)

lemma NormalizeTaskStatus_canonical:
  assumes "engine_strings_ok es" "s \<in> set Task_states"
  shows "NormalizeTaskStatus es s = s"
proof -
  have ne: "s \<noteq> e" if "e \<notin> set Task_states" for e
    using assms(2) that by auto
  have ready: "''ready_to_complete'' \<notin> set Task_states"
    by (simp add: Task_states_def)
  show ?thesis
    using assms ne [OF ready] ne
    unfolding NormalizeTaskStatus_def Let_def engine_strings_ok_def list.set ball_simps
    by (simp only: TrimPrefix_task_state insert_iff empty_iff if_True if_False
        simp_thms split: if_split) simp
qed

section \<open>Properties\<close>

text \<open>
  Further fact (hierarchical aggregation).  An apply's state may be derived in two stages: from the
  tasks of each operation to a state per operation, and from those to the apply.  For non-empty
  operations the two-stage answer of \<^verbatim>\<open>DeriveApplyState\<close> is the answer on all tasks at once, which
  is what lets \<^verbatim>\<open>apply_operation.go\<close> reuse the aggregator for operation rows.
\<close>

theorem apply_state_hierarchical:
  assumes "\<And>g. g \<in> set gs \<Longrightarrow> g \<noteq> []"
  shows "DeriveApplyState (map DeriveApplyState gs) = DeriveApplyState (concat gs)"
  using assms by (rule DeriveApplyState_concat)

theorem apply_state_hierarchical_witness:
  "DeriveApplyState (map DeriveApplyState [[''COMPLETED'', ''waiting_for_cutover''], [''completed'']]) =
     DeriveApplyState (concat [[''COMPLETED'', ''waiting_for_cutover''], [''completed'']])"
  by (rule apply_state_hierarchical) auto

text \<open>
  Further fact (policy-aware rollout verdict).  The loop of \<^verbatim>\<open>DeriveRolloutApplyState\<close> computes the
  documented verdict: a base state other than failed is returned unchanged; otherwise any failed
  child without exactly one policy flag makes the rollout failed, else a failed pause child with
  later unfinished work holds it paused, else it is failed once every child is terminal and
  running_degraded before that.
\<close>

theorem rollout_verdict:
  "DeriveRolloutApplyState children =
    (let base = DeriveApplyState (map child_State children) in
     if base \<noteq> Apply_Failed then base
     else if \<exists>c\<in>set children. hard_failure c then Apply_Failed
     else if \<exists>i<length children. held_at children i (children ! i) then Apply_Paused
     else if \<forall>c\<in>set children. child_terminal c then Apply_Failed
     else Apply_RunningDegraded)"
  by (rule DeriveRolloutApplyState_eq)

theorem rollout_verdict_witness:
  "DeriveRolloutApplyState
    [\<lparr>child_State = ''completed'', ContinueOnFailure = False, PauseOnFailure = False\<rparr>] = Apply_Completed"
  using rollout_verdict
    [of "[\<lparr>child_State = ''completed'', ContinueOnFailure = False, PauseOnFailure = False\<rparr>]"]
  by (simp add: DeriveApplyState_def normalizeApplyState_def ToUpper_def to_upper_char_def upper_chars_def lower_chars_def)

text \<open>
  Further fact (no premature success).  A rollout is reported completed exactly when it has
  operations and every one of them is completed, whatever its failure policies are.
\<close>

theorem rollout_completed_iff:
  "DeriveRolloutApplyState children = Apply_Completed \<longleftrightarrow>
    children \<noteq> [] \<and> (\<forall>c\<in>set children. normalizeApplyState (child_State c) = Apply_Completed)"
proof (cases "DeriveApplyState (map child_State children) = Apply_Failed")
  case True
  then have "DeriveRolloutApplyState children \<noteq> Apply_Completed"
    by (simp add: DeriveRolloutApplyState_eq Let_def)
  moreover have "\<not> (map child_State children \<noteq> [] \<and>
      (\<forall>s\<in>set (map child_State children). normalizeApplyState s = Apply_Completed))"
    unfolding DeriveApplyState_Completed_iff [symmetric] True by simp
  ultimately show ?thesis by simp
next
  case False
  then have "DeriveRolloutApplyState children = DeriveApplyState (map child_State children)"
    by (simp add: DeriveRolloutApplyState_eq)
  then show ?thesis
    by (simp add: DeriveApplyState_Completed_iff)
qed

theorem rollout_completed_iff_witness:
  "DeriveRolloutApplyState
    [\<lparr>child_State = ''completed'', ContinueOnFailure = False, PauseOnFailure = False\<rparr>,
     \<lparr>child_State = ''Complete'', ContinueOnFailure = False, PauseOnFailure = False\<rparr>] = Apply_Completed"
  by (rule rollout_completed_iff [THEN iffD2]) code_simp

text \<open>
  Further fact (the verdict stays fail-closed).  Once every child is terminal, a rollout with a
  failed child is failed under every combination of policy flags: continue and released pauses
  only delay the verdict.
\<close>

theorem rollout_settles_failed:
  assumes "\<forall>c\<in>set children. IsTerminalApplyState (child_State c)"
    and "\<exists>c\<in>set children. normalizeApplyState (child_State c) = Apply_Failed"
  shows "DeriveRolloutApplyState children = Apply_Failed"
proof -
  have "DeriveApplyState (map child_State children) = Apply_Failed"
    using assms(2) unfolding DeriveApplyState_Failed_iff by (simp only: set_map bex_simps)
  moreover have "\<not> held_at children i c" for i c
    using assms(1) held_somewhere_iff_nonterminal [of children i c] by (auto simp: child_terminal_def)
  ultimately show ?thesis
    using assms(1) by (simp add: DeriveRolloutApplyState_eq child_terminal_def Let_def)
qed

theorem rollout_settles_failed_witness:
  "DeriveRolloutApplyState
    [\<lparr>child_State = ''failed'', ContinueOnFailure = True, PauseOnFailure = False\<rparr>,
     \<lparr>child_State = ''completed'', ContinueOnFailure = True, PauseOnFailure = False\<rparr>] = Apply_Failed"
proof (rule rollout_settles_failed)
qed (code_simp, code_simp)

text \<open>
  Further fact (a release resumes a held rollout).  Releasing a rollout that is held paused, that is
  treating every pause like continue, always gives running_degraded: it can neither stay held nor
  turn terminal by the release itself.
\<close>

theorem rollout_release_resumes:
  assumes "DeriveRolloutApplyState children = Apply_Paused"
  shows "DeriveRolloutApplyState (map release_child children) = Apply_RunningDegraded"
proof -
  let ?base = "DeriveApplyState (map child_State children)"
  have "?base \<noteq> Apply_Paused"
    by (simp add: DeriveApplyState_spec) (rule derive_spec_cases [of "normalizeApplyState ` child_State ` set children"];
      auto simp: derive_order_def image_image)
  with assms have base: "?base = Apply_Failed"
    and soft: "\<not> (\<exists>c\<in>set children. hard_failure c)"
    and held: "\<exists>i<length children. held_at children i (children ! i)"
    by (auto simp: DeriveRolloutApplyState_eq Let_def split: if_splits)
  have "\<not> hard_failure (release_child c)" if "c \<in> set children" for c
    using soft that by (auto simp: hard_failure_def child_failed_def)
  moreover have "\<not> held_at cs i (release_child c)" for cs i c
    by (simp add: held_at_def)
  moreover have "\<exists>c\<in>set children. \<not> child_terminal (release_child c)"
    using held held_somewhere_iff_nonterminal by (auto simp: child_terminal_def)
  ultimately show ?thesis
    using base unfolding DeriveRolloutApplyState_eq map_release_states
    by (auto simp: Let_def)
qed

theorem rollout_release_resumes_witness:
  "DeriveRolloutApplyState (map release_child
    [\<lparr>child_State = ''failed'', ContinueOnFailure = False, PauseOnFailure = True\<rparr>,
     \<lparr>child_State = ''pending'', ContinueOnFailure = False, PauseOnFailure = True\<rparr>]) =
   Apply_RunningDegraded"
  by (rule rollout_release_resumes) code_simp

text \<open>
  Further fact (task states are a normal form).  Whatever string an engine reports,
  \<^verbatim>\<open>NormalizeTaskStatus\<close> returns one of the canonical task states, leaves canonical states alone
  and is therefore idempotent.
\<close>

theorem task_status_normal_form:
  assumes "engine_strings_ok es"
  shows "NormalizeTaskStatus es raw \<in> set Task_states \<and>
    NormalizeTaskStatus es (NormalizeTaskStatus es raw) = NormalizeTaskStatus es raw \<and>
    (raw \<in> set Task_states \<longrightarrow> NormalizeTaskStatus es raw = raw)"
  using assms by (simp add: NormalizeTaskStatus_closed NormalizeTaskStatus_canonical)

theorem task_status_normal_form_witness:
  "engine_strings_ok documented_engine_strings \<and>
    NormalizeTaskStatus documented_engine_strings ''copyRows'' \<in> set Task_states"
  using task_status_normal_form [OF documented_engine_strings_ok, of "''copyRows''"]
    documented_engine_strings_ok by blast

text \<open>
  Further fact (metadata registry).  Every apply state has an entry in the registry, exactly five
  states are terminal, and the terminal test gives the same answer for the canonical, the upper-case
  and the protobuf spelling of a state.
\<close>

theorem apply_metadata_total:
  assumes "s \<in> set Apply_states"
  shows "LookupApply s \<noteq> None \<and>
    (IsTerminalApplyState s \<longleftrightarrow>
      s \<in> {Apply_Completed, Apply_Failed, Apply_Stopped, Apply_Cancelled, Apply_Reverted}) \<and>
    IsTerminalApplyState (ToUpper s) = IsTerminalApplyState s \<and>
    IsTerminalApplyState (''STATE_'' @ ToUpper s) = IsTerminalApplyState s"
proof -
  have "list_all (\<lambda>s. LookupApply s \<noteq> None \<and>
      (IsTerminalApplyState s \<longleftrightarrow>
        s \<in> {Apply_Completed, Apply_Failed, Apply_Stopped, Apply_Cancelled, Apply_Reverted}) \<and>
      IsTerminalApplyState (ToUpper s) = IsTerminalApplyState s \<and>
      IsTerminalApplyState (''STATE_'' @ ToUpper s) = IsTerminalApplyState s) Apply_states"
    by code_simp
  from this [unfolded list_all_iff] assms show ?thesis by (rule bspec)
qed

theorem apply_metadata_total_witness:
  "LookupApply ''stopped'' \<noteq> None \<and> IsTerminalApplyState (''STATE_'' @ ToUpper ''stopped'')"
  using apply_metadata_total [of "''stopped''"] by (simp add: Apply_states_def)

end
