(* ===== verification/Task_Progress.thy ===== *)
theory Task_Progress
  imports States
begin

text \<open>
  How a progress poll reaches storage (\<^verbatim>\<open>pkg/tern/state_converters.go\<close> and the
  no-backward-progress rule of \<^verbatim>\<open>pkg/tern/local_client.go\<close>): the conversions between the engine's,
  the stored and the protobuf state, and the rule by which a poll may replace the stored state of a
  task.  The lemmas show which transitions of a stored task state any sequence of polls can cause.
\<close>

section \<open>State converters\<close>

text \<open>The states an engine reports (\<^verbatim>\<open>engine.State\<close> is a string type with these constants).\<close>

abbreviation engine_StatePending :: string where "engine_StatePending \<equiv> ''pending''"
abbreviation engine_StateRunning :: string where "engine_StateRunning \<equiv> ''running''"
abbreviation engine_StateWaitingForDeploy :: string where
  "engine_StateWaitingForDeploy \<equiv> ''waiting_for_deploy''"
abbreviation engine_StateWaitingForCutover :: string where
  "engine_StateWaitingForCutover \<equiv> ''waiting_for_cutover''"
abbreviation engine_StateCuttingOver :: string where "engine_StateCuttingOver \<equiv> ''cutting_over''"
abbreviation engine_StateRevertWindow :: string where "engine_StateRevertWindow \<equiv> ''revert_window''"
abbreviation engine_StateReverting :: string where "engine_StateReverting \<equiv> ''reverting''"
abbreviation engine_StateCompleted :: string where "engine_StateCompleted \<equiv> ''completed''"
abbreviation engine_StateFailed :: string where "engine_StateFailed \<equiv> ''failed''"
abbreviation engine_StateStopped :: string where "engine_StateStopped \<equiv> ''stopped''"
abbreviation engine_StateCancelled :: string where "engine_StateCancelled \<equiv> ''cancelled''"
abbreviation engine_StateReverted :: string where "engine_StateReverted \<equiv> ''reverted''"

definition engineStateToStorage :: "string \<Rightarrow> string" where
  "engineStateToStorage es =
    (if es = engine_StatePending then Task_Pending
     else if es = engine_StateRunning then Task_Running
     else if es = engine_StateWaitingForDeploy then Task_WaitingForDeploy
     else if es = engine_StateWaitingForCutover then Task_WaitingForCutover
     else if es = engine_StateCuttingOver then Task_CuttingOver
     else if es = engine_StateRevertWindow then Task_RevertWindow
     else if es = engine_StateReverting then Task_Reverting
     else if es = engine_StateCompleted then Task_Completed
     else if es = engine_StateFailed then Task_Failed
     else if es = engine_StateStopped then Task_Stopped
     else if es = engine_StateCancelled then Task_Cancelled
     else if es = engine_StateReverted then Task_Reverted
     else Task_Running)"

text \<open>The fields of \<^verbatim>\<open>engine.ProgressResult\<close> that the conversions read.\<close>

record ProgressResult =
  pr_State :: string
  pr_Message :: string
  pr_ErrorMessage :: string
  pr_Retryable :: bool

text \<open>A nil result is \<open>None\<close>.\<close>

definition taskStateFromProgressResult :: "ProgressResult option \<Rightarrow> string" where
  "taskStateFromProgressResult result =
    (case result of
       None \<Rightarrow> Task_Pending
     | Some r \<Rightarrow>
         if pr_State r = engine_StateFailed \<and> pr_Retryable r then Task_FailedRetryable
         else engineStateToStorage (pr_State r))"

definition progressFailureMessage :: "ProgressResult option \<Rightarrow> string" where
  "progressFailureMessage result =
    (case result of
       None \<Rightarrow> ''''
     | Some r \<Rightarrow> if pr_ErrorMessage r \<noteq> '''' then pr_ErrorMessage r else pr_Message r)"

text \<open>
  The protobuf enum \<^verbatim>\<open>ternv1.State\<close>.  Protobuf enums are open: a peer may send a number with no
  constant, which is \<open>STATE_unrecognized\<close>.
\<close>

datatype ternv1_State =
    STATE_NO_ACTIVE_CHANGE | STATE_PENDING | STATE_RUNNING | STATE_WAITING_FOR_CUTOVER
  | STATE_CUTTING_OVER | STATE_REVERT_WINDOW | STATE_COMPLETED | STATE_FAILED | STATE_STOPPED
  | STATE_REVERTED | STATE_CANCELLED | STATE_PREPARING_BRANCH | STATE_APPLYING_BRANCH_CHANGES
  | STATE_CREATING_DEPLOY_REQUEST | STATE_WAITING_FOR_DEPLOY | STATE_VALIDATING_DEPLOY_REQUEST
  | STATE_VALIDATING_BRANCH | STATE_RECOVERING | STATE_REVERTING | STATE_unrecognized int

definition storageStateToProto :: "string \<Rightarrow> ternv1_State" where
  "storageStateToProto ts0 =
    (let ts = NormalizeState ts0 in
     if ts = Task_Pending then STATE_PENDING
     else if ts = Task_Running then STATE_RUNNING
     else if ts = Task_WaitingForDeploy then STATE_WAITING_FOR_DEPLOY
     else if ts = Task_WaitingForCutover then STATE_WAITING_FOR_CUTOVER
     else if ts \<in> {Task_Recovering, Apply_Recovering} then STATE_RECOVERING
     else if ts = Task_CuttingOver then STATE_CUTTING_OVER
     else if ts = Task_RevertWindow then STATE_REVERT_WINDOW
     else if ts \<in> {Task_Reverting, Apply_Reverting} then STATE_REVERTING
     else if ts = Task_Completed then STATE_COMPLETED
     else if ts = Task_Failed then STATE_FAILED
     else if ts \<in> {Task_FailedRetryable, Apply_FailedRetryable} then STATE_FAILED
     else if ts = Task_Stopped then STATE_STOPPED
     else if ts = Task_Cancelled then STATE_CANCELLED
     else if ts = Task_Reverted then STATE_REVERTED
     else if ts = Apply_PreparingBranch then STATE_PREPARING_BRANCH
     else if ts = Apply_ApplyingBranchChanges then STATE_APPLYING_BRANCH_CHANGES
     else if ts = Apply_CreatingDeployRequest then STATE_CREATING_DEPLOY_REQUEST
     else if ts = Apply_ValidatingBranch then STATE_VALIDATING_BRANCH
     else if ts = Apply_ValidatingDeployRequest then STATE_VALIDATING_DEPLOY_REQUEST
     else STATE_PENDING)"

definition ProtoStateToStorage :: "ternv1_State \<Rightarrow> string" where
  "ProtoStateToStorage ps =
    (case ps of
       STATE_NO_ACTIVE_CHANGE \<Rightarrow> ''''
     | STATE_PENDING \<Rightarrow> Apply_Pending
     | STATE_RUNNING \<Rightarrow> Apply_Running
     | STATE_WAITING_FOR_DEPLOY \<Rightarrow> Apply_WaitingForDeploy
     | STATE_WAITING_FOR_CUTOVER \<Rightarrow> Apply_WaitingForCutover
     | STATE_RECOVERING \<Rightarrow> Apply_Recovering
     | STATE_CUTTING_OVER \<Rightarrow> Apply_CuttingOver
     | STATE_REVERT_WINDOW \<Rightarrow> Apply_RevertWindow
     | STATE_REVERTING \<Rightarrow> Apply_Reverting
     | STATE_COMPLETED \<Rightarrow> Apply_Completed
     | STATE_FAILED \<Rightarrow> Apply_Failed
     | STATE_STOPPED \<Rightarrow> Apply_Stopped
     | STATE_CANCELLED \<Rightarrow> Apply_Cancelled
     | STATE_REVERTED \<Rightarrow> Apply_Reverted
     | STATE_PREPARING_BRANCH \<Rightarrow> Apply_PreparingBranch
     | STATE_APPLYING_BRANCH_CHANGES \<Rightarrow> Apply_ApplyingBranchChanges
     | STATE_CREATING_DEPLOY_REQUEST \<Rightarrow> Apply_CreatingDeployRequest
     | STATE_VALIDATING_BRANCH \<Rightarrow> Apply_ValidatingBranch
     | STATE_VALIDATING_DEPLOY_REQUEST \<Rightarrow> Apply_ValidatingDeployRequest
     | STATE_unrecognized _ \<Rightarrow> '''')"

definition isTerminalProtoState :: "ternv1_State \<Rightarrow> bool" where
  "isTerminalProtoState ps =
    (case ps of
       STATE_COMPLETED \<Rightarrow> True
     | STATE_FAILED \<Rightarrow> True
     | STATE_STOPPED \<Rightarrow> True
     | STATE_CANCELLED \<Rightarrow> True
     | STATE_REVERTED \<Rightarrow> True
     | _ \<Rightarrow> False)"

section \<open>No backward progress\<close>

definition blocksActiveEngineProgress :: "string \<Rightarrow> bool" where
  "blocksActiveEngineProgress taskState \<longleftrightarrow>
    IsState taskState [Task_Stopped, Task_FailedRetryable]"

definition isRecoveryState :: "string \<Rightarrow> bool" where
  "isRecoveryState taskState \<longleftrightarrow> IsState taskState [Task_Recovering]"

definition recoveryCompleteWithEngineState :: "string \<Rightarrow> bool" where
  "recoveryCompleteWithEngineState taskState \<longleftrightarrow> IsState taskState [Task_WaitingForCutover]"

text \<open>The second component is the Go result \<^verbatim>\<open>ok\<close>.\<close>

definition activeTaskProgressRank :: "engine_strings \<Rightarrow> string \<Rightarrow> int \<times> bool" where
  "activeTaskProgressRank es taskState =
    (let s = NormalizeTaskStatus es taskState in
     if s = Task_Pending then (0, True)
     else if s = Task_WaitingForDeploy then (1, True)
     else if s = Task_Running then (2, True)
     else if s = Task_Checksumming then (3, True)
     else if s = Task_WaitingForCutover then (4, True)
     else if s = Task_CuttingOver then (5, True)
     else if s = Task_RevertWindow then (6, True)
     else if s = Task_Reverting then (7, True)
     else (0, False))"

definition taskStateWithNoBackwardProgress ::
  "engine_strings \<Rightarrow> string \<Rightarrow> string \<Rightarrow> string" where
  "taskStateWithNoBackwardProgress es storedTaskState0 engineTaskState0 =
    (let storedTaskState = NormalizeTaskStatus es storedTaskState0;
         engineTaskState = NormalizeTaskStatus es engineTaskState0 in
     if IsTerminalTaskState storedTaskState then storedTaskState
     else if IsTerminalTaskState engineTaskState \<or>
             IsState engineTaskState [Task_Stopped, Task_FailedRetryable] then engineTaskState
     else if isRecoveryState storedTaskState \<and> recoveryCompleteWithEngineState engineTaskState
     then engineTaskState
     else if IsState storedTaskState [Task_Running] \<and>
             IsState engineTaskState [Task_WaitingForDeploy] then engineTaskState
     else if blocksActiveEngineProgress storedTaskState then storedTaskState
     else
       let (engineProgressRank, engineProgressRanked) = activeTaskProgressRank es engineTaskState;
           (storedProgressRank, storedProgressRanked) = activeTaskProgressRank es storedTaskState in
       if \<not> engineProgressRanked \<or> \<not> storedProgressRanked then storedTaskState
       else if engineProgressRank < storedProgressRank then storedTaskState
       else engineTaskState)"

section \<open>The rule on canonical states\<close>

text \<open>
  On canonical states the engine names play no part: the rule is a fixed table, which the finite
  checks below evaluate.
\<close>

definition canonical_rank :: "string \<Rightarrow> int option" where
  "canonical_rank s = map_of
    [(Task_Pending, 0), (Task_WaitingForDeploy, 1), (Task_Running, 2), (Task_Checksumming, 3),
     (Task_WaitingForCutover, 4), (Task_CuttingOver, 5), (Task_RevertWindow, 6),
     (Task_Reverting, 7)] s"

definition canonical_poll :: "string \<Rightarrow> string \<Rightarrow> string" where
  "canonical_poll s e =
    (if IsTerminalTaskState s then s
     else if IsTerminalTaskState e \<or> IsState e [Task_Stopped, Task_FailedRetryable] then e
     else if isRecoveryState s \<and> recoveryCompleteWithEngineState e then e
     else if IsState s [Task_Running] \<and> IsState e [Task_WaitingForDeploy] then e
     else if blocksActiveEngineProgress s then s
     else case (canonical_rank e, canonical_rank s) of
       (Some er, Some sr) \<Rightarrow> if er < sr then s else e
     | _ \<Rightarrow> s)"

lemma activeTaskProgressRank_canonical:
  assumes "NormalizeTaskStatus es s = s"
  shows "activeTaskProgressRank es s =
    (case canonical_rank s of Some r \<Rightarrow> (r, True) | None \<Rightarrow> (0, False))"
  unfolding activeTaskProgressRank_def canonical_rank_def Let_def assms by simp

lemma taskStateWithNoBackwardProgress_canonical:
  assumes "engine_strings_ok es"
  shows "taskStateWithNoBackwardProgress es s e =
    canonical_poll (NormalizeTaskStatus es s) (NormalizeTaskStatus es e)"
proof -
  have idem: "NormalizeTaskStatus es (NormalizeTaskStatus es x) = NormalizeTaskStatus es x" for x
    by (intro NormalizeTaskStatus_canonical NormalizeTaskStatus_closed assms)
  show ?thesis
    unfolding taskStateWithNoBackwardProgress_def canonical_poll_def Let_def
      activeTaskProgressRank_canonical [OF idem]
    by (simp split: option.splits)
qed

text \<open>
  The transitions polls may cause, stated over the states alone: terminal states are final; an
  outcome (a terminal state, a stop, a retryable failure) is always taken from elsewhere; a
  recovering task otherwise only moves to waiting_for_cutover; a stopped or retryable task
  otherwise stays; the ordinary phases only move forward, with the one step from running to
  waiting_for_deploy.
\<close>

definition poll_outcomes :: "string list" where
  "poll_outcomes = TerminalTaskStates @ [Task_Stopped, Task_FailedRetryable]"

definition poll_allowed :: "string \<Rightarrow> string \<Rightarrow> bool" where
  "poll_allowed s t \<longleftrightarrow>
    s = t \<or>
    (s \<notin> set TerminalTaskStates \<and>
      (t \<in> set poll_outcomes \<or>
       (s = Task_Recovering \<and> t = Task_WaitingForCutover) \<or>
       (s = Task_Running \<and> t = Task_WaitingForDeploy) \<or>
       (case (canonical_rank s, canonical_rank t) of
          (Some sr, Some tr) \<Rightarrow> sr \<le> tr | _ \<Rightarrow> False)))"

lemma NormalizeState_apply_names:
  "\<forall>s\<in>set Apply_states. NormalizeState s = s"
proof -
  have "list_all (\<lambda>s. NormalizeState s = s) Apply_states" by code_simp
  then show ?thesis by (simp only: list_all_iff)
qed

lemmas NormalizeState_apply_name = NormalizeState_apply_names [unfolded Apply_states_def, simplified]

lemma NormalizeState_task_state: "s \<in> set Task_states \<Longrightarrow> NormalizeState s = s"
proof -
  assume "s \<in> set Task_states"
  moreover have "list_all (\<lambda>s. NormalizeState s = s) Task_states" by code_simp
  ultimately show ?thesis by (simp only: list_all_iff)
qed

lemma IsState_task_state:
  assumes "s \<in> set Task_states" and "set xs \<subseteq> set Task_states"
  shows "IsState s xs \<longleftrightarrow> s \<in> set xs"
proof -
  have "NormalizeState x = x" if "x \<in> set xs" for x
    using that assms(2) NormalizeState_task_state by blast
  then show ?thesis
    unfolding IsState_def Let_def NormalizeState_task_state [OF assms(1)] list_ex_iff
    by (metis (mono_tags, lifting))
qed

lemma outcome_names:
  "set [Task_Stopped, Task_FailedRetryable] \<subseteq> set Task_states"
  "set [Task_Recovering] \<subseteq> set Task_states"
  "set [Task_WaitingForCutover] \<subseteq> set Task_states"
  "set [Task_Running] \<subseteq> set Task_states"
  "set [Task_WaitingForDeploy] \<subseteq> set Task_states"
  by (simp_all add: Task_states_def)

lemma IsTerminalTaskState_iff: "IsTerminalTaskState s \<longleftrightarrow> s \<in> set TerminalTaskStates"
  by (simp add: IsTerminalTaskState_def TerminalTaskStates_def)

lemma canonical_rank_control:
  "s \<in> set [Task_Stopped, Task_FailedRetryable] \<Longrightarrow> canonical_rank s = None"
  by (auto simp: canonical_rank_def)

lemma poll_decision_eq:
  fixes rs re :: "int option"
  assumes "B \<Longrightarrow> rs = None"
  shows "(if T then s else if Te \<or> Out then e else if R then e else if D then e else if B then s
      else case (re, rs) of (Some er, Some sr) \<Rightarrow> if er < sr then s else e | _ \<Rightarrow> s) =
    (if s = e \<or> (\<not> T \<and> ((Te \<or> Out) \<or> R \<or> D \<or>
        (case (rs, re) of (Some sr, Some tr) \<Rightarrow> sr \<le> tr | _ \<Rightarrow> False))) then e else s)"
  using assms by (auto split: option.splits)

lemma canonical_poll_exact:
  assumes "s \<in> set Task_states" and "e \<in> set Task_states"
  shows "canonical_poll s e = (if poll_allowed s e then e else s)"
proof -
  note to_eq = IsState_task_state [OF assms(1)] IsState_task_state [OF assms(2)]
  have single: "x \<in> set [y] \<longleftrightarrow> x = y" for x y :: string by simp
  show ?thesis
    unfolding canonical_poll_def poll_allowed_def poll_outcomes_def blocksActiveEngineProgress_def
      isRecoveryState_def recoveryCompleteWithEngineState_def to_eq [OF outcome_names(1)]
      to_eq [OF outcome_names(2)] to_eq [OF outcome_names(3)] to_eq [OF outcome_names(4)]
      to_eq [OF outcome_names(5)] IsTerminalTaskState_iff set_append Un_iff single
    by (rule poll_decision_eq) (rule canonical_rank_control)
qed

lemma poll_exact:
  assumes "engine_strings_ok es" and "s \<in> set Task_states"
  shows "taskStateWithNoBackwardProgress es s e =
    (if poll_allowed s (NormalizeTaskStatus es e) then NormalizeTaskStatus es e else s)"
  by (simp only: taskStateWithNoBackwardProgress_canonical [OF assms(1)]
      NormalizeTaskStatus_canonical [OF assms] canonical_poll_exact [OF assms(2)]
      NormalizeTaskStatus_closed)








section \<open>Properties\<close>

text \<open>
  Further fact (exact transition rule of a poll).  For a stored canonical state, one poll either
  takes the engine's normalised state or keeps the stored one, and it takes the engine's state
  exactly when the transition is allowed: never out of a terminal state, always into an outcome,
  out of recovering only to waiting_for_cutover, never from stopped or failed_retryable to an
  active phase, and between active phases only forward or from running to waiting_for_deploy.
\<close>

theorem poll_transition_exact:
  assumes "engine_strings_ok es" and "stored \<in> set Task_states"
  shows "taskStateWithNoBackwardProgress es stored engine =
    (if poll_allowed stored (NormalizeTaskStatus es engine)
     then NormalizeTaskStatus es engine else stored)"
  using assms by (rule poll_exact)

theorem poll_transition_exact_witness:
  "taskStateWithNoBackwardProgress documented_engine_strings ''checksumming'' ''copyRows'' =
    (if poll_allowed ''checksumming'' (NormalizeTaskStatus documented_engine_strings ''copyRows'')
     then NormalizeTaskStatus documented_engine_strings ''copyRows'' else ''checksumming'')"
  by (rule poll_transition_exact [OF documented_engine_strings_ok]) (simp add: Task_states_def)



text \<open>
  Further fact (wire round trip).  Every state the protobuf enum has a constant for, except
  no_active_change, survives the trip into storage and back, and is terminal on the wire exactly
  when it is terminal in storage.  In the other direction the terminal test agrees for every stored
  apply state except failed_retryable, which the wire reports as the terminal STATE_FAILED.
\<close>

theorem proto_state_round_trip:
  "((\<forall>n. ps \<noteq> STATE_unrecognized n) \<and> ps \<noteq> STATE_NO_ACTIVE_CHANGE \<longrightarrow>
     storageStateToProto (ProtoStateToStorage ps) = ps \<and>
     isTerminalProtoState ps = IsTerminalApplyState (ProtoStateToStorage ps)) \<and>
   (s \<in> set Apply_states \<longrightarrow>
     isTerminalProtoState (storageStateToProto s) =
       (IsTerminalApplyState s \<or> s = Apply_FailedRetryable))"
proof (intro conjI [OF impI impI])
  assume "(\<forall>n. ps \<noteq> STATE_unrecognized n) \<and> ps \<noteq> STATE_NO_ACTIVE_CHANGE"
  then show "storageStateToProto (ProtoStateToStorage ps) = ps \<and>
      isTerminalProtoState ps = IsTerminalApplyState (ProtoStateToStorage ps)"
    by (cases ps)
      (simp_all add: storageStateToProto_def IsTerminalApplyState_def ProtoStateToStorage_def
        isTerminalProtoState_def NormalizeState_apply_name LookupApply_def applyMetadata_def)
next
  have "list_all (\<lambda>s. isTerminalProtoState (storageStateToProto s) =
      (IsTerminalApplyState s \<or> s = Apply_FailedRetryable)) Apply_states"
    by (simp add: Apply_states_def storageStateToProto_def IsTerminalApplyState_def
        isTerminalProtoState_def NormalizeState_apply_name LookupApply_def applyMetadata_def)
  moreover assume "s \<in> set Apply_states"
  ultimately show "isTerminalProtoState (storageStateToProto s) =
      (IsTerminalApplyState s \<or> s = Apply_FailedRetryable)"
    by (simp only: list_all_iff)
qed

theorem proto_state_round_trip_witness:
  "storageStateToProto (ProtoStateToStorage STATE_REVERTING) = STATE_REVERTING \<and>
   isTerminalProtoState (storageStateToProto ''failed_retryable'')"
  using proto_state_round_trip [of STATE_REVERTING "''failed_retryable''"]
  by (simp add: Apply_states_def)

end
