(* ===== verification/Storage_Types.thy ===== *)
theory Storage_Types
  imports States
begin

text \<open>
  The stored data of \<^verbatim>\<open>pkg/storage\<close>: the row types of the tables the modelled stores use
  (\<^verbatim>\<open>types.go\<close>), the leases (\<^verbatim>\<open>lease.go\<close>), the error values (\<^verbatim>\<open>errors.go\<close>) and the pure helper
  methods on them.

  A row is the Go struct its scan function builds.  A nullable text column is the empty string when
  it is NULL, which is what the scan functions read and what \<^verbatim>\<open>nullString\<close> writes; a nullable time
  is an option; a nullable id is 0 when it is NULL, as in \<^verbatim>\<open>scanCheckInto\<close>.  Times are seconds, the
  resolution of the DATETIME columns.
\<close>

section \<open>Errors\<close>

text \<open>
  Go error values.  \<open>MySQLError\<close> is the driver's error with its number and rendered text, \<open>Errorf\<close> an
  error made by \<^verbatim>\<open>fmt.Errorf\<close> without a wrapped cause, \<open>Wrapped\<close> one with \<^verbatim>\<open>%w\<close>.  The texts keep
  the constant part of the format string.
\<close>

datatype err =
    MySQLError nat string
  | ContextDone
  | DriverError string
  | ErrLockHeld | ErrLockNotFound | ErrLockNotOwned | ErrLockIntentChanged | ErrCheckNotFound
  | ErrSettingNotFound | ErrApplyNotFound | ErrApplyIDExists | ErrActiveApplyExists
  | ErrApplyNotReappliable | ErrApplyLeaseLost | ErrPlanNotFound | ErrPlanIDExists | ErrTaskNotFound
  | ErrApplyCommentNotFound | ErrApplyOperationNotFound | ErrApplyOperationExists
  | ErrEngineResumeStateNotFound | ErrWebhookEventNotFound | ErrWebhookEventLeaseLost
  | SourcePolicyError string string
  | Errorf string
  | Wrapped string err

text \<open>\<^verbatim>\<open>errors.Is\<close> against a sentinel: the chain of wrapped causes contains it.\<close>

fun errors_Is :: "err \<Rightarrow> err \<Rightarrow> bool" where
  "errors_Is (Wrapped m e) t \<longleftrightarrow> Wrapped m e = t \<or> errors_Is e t"
| "errors_Is e t \<longleftrightarrow> e = t"

text \<open>\<^verbatim>\<open>errors.As\<close> to \<^verbatim>\<open>*mysql.MySQLError\<close>: the number of the first driver error in the chain.\<close>

fun errors_As_MySQL :: "err \<Rightarrow> nat option" where
  "errors_As_MySQL (MySQLError n t) = Some n"
| "errors_As_MySQL (Wrapped m e) = errors_As_MySQL e"
| "errors_As_MySQL _ = None"

fun Error_text :: "err \<Rightarrow> string" where
  "Error_text (MySQLError n t) = t"
| "Error_text ContextDone = ''context canceled''"
| "Error_text (DriverError t) = t"
| "Error_text ErrLockHeld = ''lock is already held''"
| "Error_text ErrLockNotFound = ''lock not found''"
| "Error_text ErrLockNotOwned = ''lock not owned by caller''"
| "Error_text ErrLockIntentChanged = ''lock intent changed''"
| "Error_text ErrCheckNotFound = ''check not found''"
| "Error_text ErrSettingNotFound = ''setting not found''"
| "Error_text ErrApplyNotFound = ''apply not found''"
| "Error_text ErrApplyIDExists = ''apply already exists''"
| "Error_text ErrActiveApplyExists = ''active apply already exists''"
| "Error_text ErrApplyNotReappliable = ''apply is not reappliable''"
| "Error_text ErrPlanNotFound = ''plan not found''"
| "Error_text ErrPlanIDExists = ''plan already exists''"
| "Error_text ErrTaskNotFound = ''task not found''"
| "Error_text ErrApplyCommentNotFound = ''apply comment not found''"
| "Error_text ErrWebhookEventNotFound = ''webhook event not found''"
| "Error_text ErrWebhookEventLeaseLost = ''webhook event lease lost''"
| "Error_text ErrApplyLeaseLost = ''apply lease lost''"
| "Error_text ErrApplyOperationNotFound = ''apply operation not found''"
| "Error_text ErrApplyOperationExists = ''apply operation already exists''"
| "Error_text ErrEngineResumeStateNotFound = ''engine resume state not found''"
| "Error_text (SourcePolicyError reason message) = message"
| "Error_text (Errorf m) = m"
| "Error_text (Wrapped m e) = m @ '': '' @ Error_text e"

section \<open>Leases and the request context\<close>

record ApplyLease =
  al_ApplyID :: int
  al_Owner :: string
  al_Token :: string

definition ApplyLease_Valid :: "ApplyLease \<Rightarrow> bool" where
  "ApplyLease_Valid l \<longleftrightarrow> al_ApplyID l > 0 \<and> al_Token l \<noteq> ''''"

record OperationLease =
  ol_ApplyID :: int
  ol_OperationID :: int
  ol_Owner :: string
  ol_Token :: string

definition OperationLease_Valid :: "OperationLease \<Rightarrow> bool" where
  "OperationLease_Valid l \<longleftrightarrow> ol_ApplyID l > 0 \<and> ol_OperationID l > 0 \<and> ol_Token l \<noteq> ''''"

text \<open>What the storage methods read from \<^verbatim>\<open>context.Context\<close>: the two leases, when attached.\<close>

record ctx =
  ApplyLeaseFromContext :: "ApplyLease option"
  OperationLeaseFromContext :: "OperationLease option"

definition Background :: ctx where
  "Background = \<lparr>ApplyLeaseFromContext = None, OperationLeaseFromContext = None\<rparr>"

definition WithApplyLease :: "ctx \<Rightarrow> ApplyLease \<Rightarrow> ctx" where
  "WithApplyLease c lease = c\<lparr>ApplyLeaseFromContext := Some lease\<rparr>"

definition WithOperationLease :: "ctx \<Rightarrow> OperationLease \<Rightarrow> ctx" where
  "WithOperationLease c lease = c\<lparr>OperationLeaseFromContext := Some lease\<rparr>"

section \<open>Locks\<close>

record Lock =
  lock_ID :: int
  lock_DatabaseName :: string
  lock_DatabaseType :: string
  lock_Repository :: string
  lock_PullRequest :: int
  lock_Owner :: string
  lock_PendingPlanID :: string
  lock_CreatedAt :: int
  lock_UpdatedAt :: int

section \<open>Applies\<close>

record ApplyOptions =
  AllowUnsafe :: bool
  Branch :: string
  DeferCutover :: bool
  DeferDeploy :: bool
  SkipRevert :: bool
  Volume :: int
  Target :: string
  Rollback :: bool

definition empty_options :: ApplyOptions where
  "empty_options = \<lparr>AllowUnsafe = False, Branch = '''', DeferCutover = False, DeferDeploy = False,
     SkipRevert = False, Volume = 0, Target = '''', Rollback = False\<rparr>"

text \<open>
  A row of \<^verbatim>\<open>applies\<close>.  The JSON column \<^verbatim>\<open>options\<close> is the options value it encodes.  The two expected
  fields are no columns: they guard the creation of an apply.
\<close>

record Apply =
  apply_ID :: int
  apply_Identifier :: string
  apply_LockID :: int
  apply_ExpectedLockOwner :: string
  apply_ExpectedPendingPlanID :: string
  apply_PlanID :: int
  apply_Database :: string
  apply_DatabaseType :: string
  apply_Repository :: string
  apply_PullRequest :: int
  apply_Environment :: string
  apply_Deployment :: string
  apply_Caller :: string
  apply_InstallationID :: int
  apply_ExternalID :: string
  apply_IdempotencyKey :: string
  apply_Engine :: string
  apply_State :: string
  apply_ErrorMessage :: string
  apply_Options :: ApplyOptions
  apply_Attempt :: int
  apply_LeaseOwner :: string
  apply_LeaseToken :: string
  apply_LeaseAcquiredAt :: "int option"
  apply_CreatedAt :: int
  apply_StartedAt :: "int option"
  apply_CompletedAt :: "int option"
  apply_RevertSkippedAt :: "int option"
  apply_UpdatedAt :: int

text \<open>The zero value of the struct.\<close>

definition zero_apply :: Apply where
  "zero_apply = \<lparr>apply_ID = 0, apply_Identifier = '''', apply_LockID = 0, apply_ExpectedLockOwner = '''',
     apply_ExpectedPendingPlanID = '''', apply_PlanID = 0, apply_Database = '''', apply_DatabaseType = '''',
     apply_Repository = '''', apply_PullRequest = 0, apply_Environment = '''', apply_Deployment = '''',
     apply_Caller = '''', apply_InstallationID = 0, apply_ExternalID = '''', apply_IdempotencyKey = '''',
     apply_Engine = '''', apply_State = '''', apply_ErrorMessage = '''', apply_Options = empty_options,
     apply_Attempt = 0, apply_LeaseOwner = '''', apply_LeaseToken = '''', apply_LeaseAcquiredAt = None,
     apply_CreatedAt = 0, apply_StartedAt = None, apply_CompletedAt = None, apply_RevertSkippedAt = None,
     apply_UpdatedAt = 0\<rparr>"

definition Apply_Lease :: "Apply \<Rightarrow> ApplyLease" where
  "Apply_Lease a = \<lparr>al_ApplyID = apply_ID a, al_Owner = apply_LeaseOwner a,
     al_Token = apply_LeaseToken a\<rparr>"

definition IsRollback :: "Apply \<Rightarrow> bool" where
  "IsRollback a \<longleftrightarrow> Rollback (apply_Options a)"

section \<open>Apply operations\<close>

abbreviation CutoverPolicyRolling :: string where "CutoverPolicyRolling \<equiv> ''rolling''"
abbreviation CutoverPolicyBarrier :: string where "CutoverPolicyBarrier \<equiv> ''barrier''"
abbreviation CutoverPolicyParallel :: string where "CutoverPolicyParallel \<equiv> ''parallel''"

definition IsOrderedCutoverPolicy :: "string \<Rightarrow> bool" where
  "IsOrderedCutoverPolicy policy \<longleftrightarrow>
    policy = CutoverPolicyBarrier \<or> policy = CutoverPolicyParallel"

abbreviation OnFailureHalt :: string where "OnFailureHalt \<equiv> ''halt''"
abbreviation OnFailureContinue :: string where "OnFailureContinue \<equiv> ''continue''"
abbreviation OnFailurePause :: string where "OnFailurePause \<equiv> ''pause''"

abbreviation ApplyOperationKindWork :: string where "ApplyOperationKindWork \<equiv> ''work''"
abbreviation ApplyOperationKindGroupFinalizer :: string where
  "ApplyOperationKindGroupFinalizer \<equiv> ''group_finalizer''"

definition ShardOperationKey :: "string \<Rightarrow> string \<Rightarrow> string \<Rightarrow> string" where
  "ShardOperationKey namespace shard table = namespace @ ''/'' @ shard @ ''/'' @ table"

record ApplyOperation =
  op_ID :: int
  op_ApplyID :: int
  op_Deployment :: string
  op_OperationKey :: string
  op_OperationKind :: string
  op_Target :: string
  op_ExternalID :: string
  op_ExternalOperationID :: string
  op_State :: string
  op_ErrorMessage :: string
  op_CutoverPolicy :: string
  op_OnFailure :: string
  op_Attempt :: int
  op_StartedAt :: "int option"
  op_CompletedAt :: "int option"
  op_LeaseOwner :: string
  op_LeaseToken :: string
  op_LeaseAcquiredAt :: "int option"
  op_EngineResumeContext :: string
  op_EngineResumeMetadata :: string
  op_CreatedAt :: int
  op_UpdatedAt :: int

definition ApplyOperation_Lease :: "ApplyOperation \<Rightarrow> OperationLease" where
  "ApplyOperation_Lease r = \<lparr>ol_ApplyID = op_ApplyID r, ol_OperationID = op_ID r,
     ol_Owner = op_LeaseOwner r, ol_Token = op_LeaseToken r\<rparr>"

record EngineResumeState =
  ers_ApplyOperationID :: int
  ers_MigrationContext :: string
  ers_Metadata :: string

abbreviation MaxRecoveryAttempts :: int where "MaxRecoveryAttempts \<equiv> 10"

text \<open>\<^verbatim>\<open>time.Minute\<close>, in seconds.\<close>

abbreviation ApplyLeaseStaleAfter :: int where "ApplyLeaseStaleAfter \<equiv> 60"

section \<open>Control requests\<close>

abbreviation ControlOperationStart :: string where "ControlOperationStart \<equiv> ''start''"
abbreviation ControlOperationStop :: string where "ControlOperationStop \<equiv> ''stop''"
abbreviation ControlOperationCancel :: string where "ControlOperationCancel \<equiv> ''cancel''"
abbreviation ControlOperationCutover :: string where "ControlOperationCutover \<equiv> ''cutover''"
abbreviation ControlOperationRevert :: string where "ControlOperationRevert \<equiv> ''revert''"
abbreviation ControlOperationSkipRevert :: string where "ControlOperationSkipRevert \<equiv> ''skip_revert''"
abbreviation ControlOperationRelease :: string where "ControlOperationRelease \<equiv> ''release''"
abbreviation ControlOperationVolume :: string where "ControlOperationVolume \<equiv> ''volume''"

abbreviation ControlRequestPending :: string where "ControlRequestPending \<equiv> ''pending''"
abbreviation ControlRequestCompleted :: string where "ControlRequestCompleted \<equiv> ''completed''"
abbreviation ControlRequestFailed :: string where "ControlRequestFailed \<equiv> ''failed''"

record ApplyControlRequest =
  cr_ID :: int
  cr_ApplyID :: int
  cr_Operation :: string
  cr_Status :: string
  cr_RequestedBy :: string
  cr_ErrorMessage :: string
  cr_Metadata :: string
  cr_CompletedAt :: "int option"
  cr_CreatedAt :: int
  cr_UpdatedAt :: int

text \<open>A nil request is \<open>None\<close>.\<close>

definition ReleasesPausedRollout :: "ApplyControlRequest option \<Rightarrow> bool" where
  "ReleasesPausedRollout r =
    (case r of
       None \<Rightarrow> False
     | Some q \<Rightarrow> cr_Operation q = ControlOperationRelease \<and>
         (cr_Status q = ControlRequestPending \<or> cr_Status q = ControlRequestCompleted))"

section \<open>Checks\<close>

datatype PlanDriftState = PlanDriftNotEvaluated | PlanDriftClean | PlanDriftBlocked

abbreviation ReviewTimeDeploymentDriftBlockingReason :: string where
  "ReviewTimeDeploymentDriftBlockingReason \<equiv> ''review_time_deployment_drift''"

record Check =
  chk_ID :: int
  chk_Repository :: string
  chk_PullRequest :: int
  chk_HeadSHA :: string
  chk_Environment :: string
  chk_DatabaseType :: string
  chk_DatabaseName :: string
  chk_CheckRunID :: int
  chk_ApplyID :: int
  chk_HasChanges :: bool
  chk_Status :: string
  chk_Conclusion :: string
  chk_BlockingReason :: string
  chk_ErrorMessage :: string
  chk_ChangeSummary :: string
  chk_CreatedAt :: int
  chk_UpdatedAt :: int

section \<open>Tasks\<close>

text \<open>A task is one table's change; a NULL text column is the empty text.\<close>

record Task =
  task_ID :: int
  task_Identifier :: string
  task_ApplyID :: int
  task_ApplyOperationID :: "int option"
  task_PlanID :: int
  task_Database :: string
  task_DatabaseType :: string
  task_Engine :: string
  task_Repository :: string
  task_PullRequest :: int
  task_Environment :: string
  task_State :: string
  task_ErrorMessage :: string
  task_Options :: string
  task_Attempt :: int
  task_Namespace :: string
  task_TableName :: string
  task_Shard :: string
  task_DDL :: string
  task_DDLAction :: string
  task_RowsCopied :: int
  task_RowsTotal :: int
  task_ProgressPercent :: int
  task_ETASeconds :: int
  task_ChecksumRowsChecked :: int
  task_ChecksumRowsTotal :: int
  task_CutoverAttempts :: int
  task_IsInstant :: bool
  task_ReadyToComplete :: bool
  task_EngineMigrationID :: string
  task_CreatedAt :: int
  task_UpdatedAt :: int
  task_StartedAt :: "int option"
  task_CompletedAt :: "int option"

section \<open>Webhook events\<close>

abbreviation WebhookProviderGitHub :: string where "WebhookProviderGitHub \<equiv> ''github''"
abbreviation WebhookEventPending :: string where "WebhookEventPending \<equiv> ''pending''"
abbreviation WebhookEventProcessing :: string where "WebhookEventProcessing \<equiv> ''processing''"
abbreviation WebhookEventCompleted :: string where "WebhookEventCompleted \<equiv> ''completed''"
abbreviation WebhookEventFailedRetryable :: string where "WebhookEventFailedRetryable \<equiv> ''failed_retryable''"
abbreviation WebhookEventFailed :: string where "WebhookEventFailed \<equiv> ''failed''"

definition WebhookEventStatesAll :: "string list" where
  "WebhookEventStatesAll = [WebhookEventPending, WebhookEventProcessing, WebhookEventFailedRetryable,
     WebhookEventCompleted, WebhookEventFailed]"

definition MaxWebhookEventAttempts :: int where
  "MaxWebhookEventAttempts = 5"

text \<open>
  A delivery.  The lease expiry is in microseconds, the other times in seconds, as their columns.  A
  lease token that is NULL is \<open>None\<close>: unlike an empty text it matches no token.
\<close>

record WebhookEvent =
  we_ID :: int
  we_Provider :: string
  we_DeliveryID :: string
  we_Event :: string
  we_Action :: string
  we_Repository :: string
  we_PullRequest :: int
  we_HeadSHA :: string
  we_TenantID :: string
  we_Payload :: string
  we_State :: string
  we_Attempts :: int
  we_LeaseOwner :: string
  we_LeaseToken :: "string option"
  we_LeaseExpiresAt :: "int option"
  we_RetryAfter :: "int option"
  we_LastError :: string
  we_ReceivedAt :: int
  we_StartedAt :: "int option"
  we_CompletedAt :: "int option"
  we_CreatedAt :: int
  we_UpdatedAt :: int

section \<open>Plans\<close>

record TableChange =
  tc_Namespace :: string
  tc_Table :: string
  tc_DDL :: string
  tc_Operation :: string
  tc_IsUnsafe :: bool
  tc_UnsafeReason :: string

record ShardPlan =
  sp_Shard :: string
  sp_Namespace :: string
  sp_Changes :: "TableChange list"

text \<open>Maps of a stored plan are association lists with distinct keys.\<close>

record NamespacePlanData =
  npd_Tables :: "TableChange list"
  npd_Shards :: "ShardPlan list"
  npd_OriginalFiles :: "(string \<times> string) list"
  npd_OriginalFilesCaptured :: bool
  npd_Artifacts :: "(string \<times> string) list"

record Plan =
  plan_ID :: int
  plan_Identifier :: string
  plan_Database :: string
  plan_DatabaseType :: string
  plan_Deployment :: string
  plan_Target :: string
  plan_Repository :: string
  plan_PullRequest :: int
  plan_SchemaPath :: string
  plan_Environment :: string
  plan_SchemaFiles :: "(string \<times> (string \<times> string) list) list"
  plan_Namespaces :: "(string \<times> NamespacePlanData option) list"
  plan_Shards :: "ShardPlan list"
  plan_HeadSHA :: string
  plan_CreatedAt :: int

section \<open>Comments and settings\<close>

record ApplyComment =
  ac_ID :: int
  ac_ApplyID :: int
  ac_CommentState :: string
  ac_GitHubCommentID :: int
  ac_PostedVolume :: "int option"
  ac_PendingFreezeCommentID :: "int option"
  ac_EditCount :: int
  ac_LastEditedAt :: "int option"
  ac_SupersededAt :: "int option"
  ac_CreatedAt :: int
  ac_UpdatedAt :: int

record PlanComment =
  pc_ID :: int
  pc_Repository :: string
  pc_PullRequest :: int
  pc_DatabaseName :: string
  pc_DatabaseType :: string
  pc_EnvironmentScope :: string
  pc_HeadSHA :: string
  pc_GitHubCommentID :: int
  pc_GitHubNodeID :: string
  pc_MinimizedAt :: "int option"
  pc_CreatedAt :: int
  pc_UpdatedAt :: int

record Setting =
  set_ID :: int
  set_Key :: string
  set_Value :: string
  set_CreatedAt :: int
  set_UpdatedAt :: int

section \<open>Apply logs\<close>

record ApplyLog =
  log_ID :: int
  log_ApplyID :: int
  log_TaskID :: "int option"
  log_Level :: string
  log_EventType :: string
  log_Source :: string
  log_Message :: string
  log_OldState :: string
  log_NewState :: string
  log_Metadata :: string
  log_CreatedAt :: int

end
