(* ===== verification/Sql_Store.thy ===== *)
theory Sql_Store
  imports Storage_Types "HOL-Library.State_Monad"
begin

text \<open>
  The database as the stores of \<^verbatim>\<open>pkg/storage/mysqlstore\<close> see it.  A store method is a program in
  the state monad over a \<open>world\<close>: the committed tables, the undo log of the open transaction and
  a script of turns.  Every SQL statement takes one turn: first the other sessions act (an
  arbitrary function on the database), then the statement either fails with the turn's error and
  has no effect or runs atomically.  So a method's statements interleave with anything the other
  sessions do between them.  The theory also holds \<^verbatim>\<open>retry.go\<close>, \<^verbatim>\<open>sql_helpers.go\<close>, the apply
  lease helpers of \<^verbatim>\<open>applies.go\<close> and a small program logic for the stores' proofs.

  Writes of an open transaction are applied at once and undone by a rollback.  Steps of other
  sessions that fall between the last statement of a transaction and its commit are taken to
  happen after the commit, with which they commute because the written rows are locked.
\<close>

section \<open>The database\<close>

record db =
  now :: int
  locks :: "Lock list"
  locks_next :: int
  applies :: "Apply list"
  apply_operations :: "ApplyOperation list"
  apply_operations_next :: int
  control_requests :: "ApplyControlRequest list"
  control_requests_next :: int
  checks :: "Check list"
  checks_next :: int
  now_us :: int
  webhook_events :: "WebhookEvent list"
  webhook_events_next :: int
  applies_next :: int
  tasks :: "Task list"
  tasks_next :: int
  named_locks :: "string list"
  plans :: "Plan list"
  plans_next :: int
  apply_comments :: "ApplyComment list"
  apply_comments_next :: int
  plan_comments :: "PlanComment list"
  plan_comments_next :: int
  settings :: "Setting list"
  settings_next :: int
  apply_logs :: "ApplyLog list"
  apply_logs_next :: int

definition empty_db :: db where
  "empty_db = \<lparr>now = 100, locks = [], locks_next = 1, applies = [], apply_operations = [],
     apply_operations_next = 1, control_requests = [], control_requests_next = 1,
     checks = [], checks_next = 1, now_us = 0, webhook_events = [], webhook_events_next = 1,
     applies_next = 1, tasks = [], tasks_next = 1, named_locks = [], plans = [], plans_next = 1,
     apply_comments = [], apply_comments_next = 1, plan_comments = [], plan_comments_next = 1,
     settings = [], settings_next = 1, apply_logs = [], apply_logs_next = 1\<rparr>"

text \<open>\<^verbatim>\<open>NOW()\<close> is \<open>now\<close>, in seconds; \<^verbatim>\<open>NOW(6)\<close> also counts the microseconds of the second.\<close>

definition NOW6 :: "db \<Rightarrow> int" where
  "NOW6 d = now d * 1000000 + now_us d"

datatype turn = Turn (turn_env: "db \<Rightarrow> db") (turn_fault: "err option")

record world =
  w_db :: db
  w_undo :: "(db \<Rightarrow> db) list"
  w_turns :: "turn list"

type_synonym 'a prog = "(world, err + 'a) state"

definition next_turn :: "world \<Rightarrow> err option \<times> world" where
  "next_turn w =
    (case w_turns w of
       [] \<Rightarrow> (None, w)
     | t # ts \<Rightarrow> (turn_fault t, w\<lparr>w_db := turn_env t (w_db w), w_turns := ts\<rparr>))"

text \<open>\<^verbatim>\<open>db.QueryContext\<close> and \<^verbatim>\<open>db.QueryRowContext\<close>; the result of no row is the query's own \<open>None\<close>.\<close>

definition QueryContext :: "(db \<Rightarrow> 'a) \<Rightarrow> 'a prog" where
  "QueryContext q = State (\<lambda>w. case next_turn w of
     (Some e, w') \<Rightarrow> (Inl e, w')
   | (None, w') \<Rightarrow> (Inr (q (w_db w')), w'))"

text \<open>
  \<^verbatim>\<open>db.ExecContext\<close>: a statement gives an error, or the new tables and a number (the rows affected,
  or the inserted id).  The second form runs inside a transaction: it also logs how to undo the
  statement.
\<close>

type_synonym statement = "db \<Rightarrow> err + db \<times> int"

definition ExecContext :: "statement \<Rightarrow> int prog" where
  "ExecContext stm = State (\<lambda>w. case next_turn w of
     (Some e, w') \<Rightarrow> (Inl e, w')
   | (None, w') \<Rightarrow>
       (case stm (w_db w') of
          Inl e \<Rightarrow> (Inl e, w')
        | Inr (d, n) \<Rightarrow> (Inr n, w'\<lparr>w_db := d\<rparr>)))"

definition tx_ExecContext :: "(db \<Rightarrow> db \<Rightarrow> db) \<Rightarrow> statement \<Rightarrow> int prog" where
  "tx_ExecContext undo stm = State (\<lambda>w. case next_turn w of
     (Some e, w') \<Rightarrow> (Inl e, w')
   | (None, w') \<Rightarrow>
       (case stm (w_db w') of
          Inl e \<Rightarrow> (Inl e, w')
        | Inr (d, n) \<Rightarrow> (Inr n, w'\<lparr>w_db := d, w_undo := undo (w_db w') # w_undo w'\<rparr>)))"

definition BeginTx :: "unit prog" where
  "BeginTx = State (\<lambda>w. case next_turn w of
     (Some e, w') \<Rightarrow> (Inl e, w')
   | (None, w') \<Rightarrow> (Inr (), w'\<lparr>w_undo := []\<rparr>))"

text \<open>A commit can fail; the deferred \<^verbatim>\<open>rollbackTx\<close> then undoes the transaction.\<close>

definition Commit :: "unit prog" where
  "Commit = State (\<lambda>w. case w_turns w of
     [] \<Rightarrow> (Inr (), w\<lparr>w_undo := []\<rparr>)
   | t # ts \<Rightarrow>
       (case turn_fault t of
          Some e \<Rightarrow> (Inl e, w\<lparr>w_turns := ts\<rparr>)
        | None \<Rightarrow> (Inr (), w\<lparr>w_undo := [], w_turns := ts\<rparr>)))"

definition rollbackTx :: "world \<Rightarrow> world" where
  "rollbackTx w = w\<lparr>w_db := fold (\<lambda>u d. u d) (w_undo w) (w_db w), w_undo := []\<rparr>"

text \<open>\<^verbatim>\<open>defer rollbackTx(...)\<close>: runs after the body, and does nothing after a commit.\<close>

definition defer_rollback :: "'a prog \<Rightarrow> 'a prog" where
  "defer_rollback p = State (\<lambda>w. case run_state p w of (r, w') \<Rightarrow> (r, rollbackTx w'))"

section \<open>Sequencing\<close>

text \<open>Return on an error, wrapped or replaced.\<close>

definition or_fail :: "string \<Rightarrow> 'a prog \<Rightarrow> ('a \<Rightarrow> 'b prog) \<Rightarrow> 'b prog" where
  "or_fail msg p f = do { r \<leftarrow> p; case r of Inl e \<Rightarrow> State_Monad.return (Inl (Wrapped msg e)) | Inr x \<Rightarrow> f x }"

definition or_else :: "'a prog \<Rightarrow> 'b \<Rightarrow> ('a \<Rightarrow> (world, 'b) state) \<Rightarrow> (world, 'b) state" where
  "or_else p y f = do { r \<leftarrow> p; case r of Inl e \<Rightarrow> State_Monad.return y | Inr x \<Rightarrow> f x }"

section \<open>Rows\<close>

definition sql_update :: "('r \<Rightarrow> bool) \<Rightarrow> ('r \<Rightarrow> 'r) \<Rightarrow> 'r list \<Rightarrow> 'r list" where
  "sql_update P f rs = map (\<lambda>r. if P r then f r else r) rs"

text \<open>MySQL reports the rows an UPDATE changed, not the rows it matched.\<close>

definition rows_changed :: "('r \<Rightarrow> bool) \<Rightarrow> ('r \<Rightarrow> 'r) \<Rightarrow> 'r list \<Rightarrow> int" where
  "rows_changed P f rs = int (length (filter (\<lambda>r. P r \<and> f r \<noteq> r) rs))"

text \<open>A column with ON UPDATE CURRENT_TIMESTAMP is stamped when another column changes.\<close>

definition on_update :: "('r \<Rightarrow> 'r) \<Rightarrow> ('r \<Rightarrow> 'r) \<Rightarrow> 'r \<Rightarrow> 'r" where
  "on_update stamp f r = (let r' = f r in if r' = r then r else stamp r')"

definition COALESCE :: "'a option \<Rightarrow> 'a \<Rightarrow> 'a option" where
  "COALESCE x y = (case x of Some v \<Rightarrow> Some v | None \<Rightarrow> Some y)"

text \<open>\<^verbatim>\<open>COALESCE(NULLIF(new, ''), old)\<close> on text columns.\<close>

definition COALESCE_NULLIF :: "string \<Rightarrow> string \<Rightarrow> string" where
  "COALESCE_NULLIF new old = (if new = '''' then old else new)"

definition checkRowsAffected :: "int \<Rightarrow> err \<Rightarrow> err + unit" where
  "checkRowsAffected rowsAffected notFoundErr =
    (if rowsAffected = 0 then Inl notFoundErr else Inr ())"

definition nullJSON :: "string \<Rightarrow> string" where
  "nullJSON b = (if b = '''' then ''{}'' else b)"

section \<open>Error classification and retries\<close>

definition Contains :: "string \<Rightarrow> string \<Rightarrow> bool" where
  "Contains s t \<longleftrightarrow> list_ex (\<lambda>i. HasPrefix (drop i s) t) [0..<Suc (length s)]"

abbreviation mysqlErrDuplicate :: nat where "mysqlErrDuplicate \<equiv> 1062"
abbreviation mysqlErrDeadlock :: nat where "mysqlErrDeadlock \<equiv> 1213"
abbreviation mysqlErrLockWaitTimeout :: nat where "mysqlErrLockWaitTimeout \<equiv> 1205"

definition isDuplicateKeyError :: "err \<Rightarrow> bool" where
  "isDuplicateKeyError e \<longleftrightarrow>
    (if errors_As_MySQL e = Some mysqlErrDuplicate then True
     else Contains (Error_text e) ''Duplicate entry'')"

text \<open>The error of an INSERT that violates a unique key.\<close>

definition duplicate_entry :: err where
  "duplicate_entry = MySQLError mysqlErrDuplicate ''Duplicate entry''"

definition isRetryableLockError :: "err \<Rightarrow> bool" where
  "isRetryableLockError e \<longleftrightarrow>
    (case errors_As_MySQL e of
       None \<Rightarrow> False
     | Some n \<Rightarrow> n = mysqlErrDeadlock \<or> n = mysqlErrLockWaitTimeout)"

text \<open>The wait takes a turn, in which other sessions may act and the context may be cancelled.\<close>

definition sleepBackoff :: "unit prog" where
  "sleepBackoff = State (\<lambda>w. case next_turn w of
     (Some ContextDone, w') \<Rightarrow> (Inl ContextDone, w')
   | (_, w') \<Rightarrow> (Inr (), w'))"

definition lockRetryMaxAttempts :: nat where
  "lockRetryMaxAttempts = 5"

text \<open>The loop of \<^verbatim>\<open>withLockRetry\<close>: attempts left, attempts made, last error.\<close>

fun lock_retry_loop :: "string \<Rightarrow> 'a prog \<Rightarrow> nat \<Rightarrow> nat \<Rightarrow> err \<Rightarrow> 'a prog" where
  "lock_retry_loop opname fn 0 attempt lastErr =
    State_Monad.return (Inl (Wrapped (opname @ '' after 5 attempts'') lastErr))"
| "lock_retry_loop opname fn (Suc left) attempt lastErr =
    do {
      s \<leftarrow> (if attempt > 0 then sleepBackoff else State_Monad.return (Inr ()));
      case s of
        Inl e \<Rightarrow> State_Monad.return (Inl e)
      | Inr _ \<Rightarrow>
          do {
            r \<leftarrow> fn;
            case r of
              Inr x \<Rightarrow> State_Monad.return (Inr x)
            | Inl e \<Rightarrow>
                if \<not> isRetryableLockError e then State_Monad.return (Inl e)
                else lock_retry_loop opname fn left (Suc attempt) e
          }
    }"

definition withLockRetry :: "string \<Rightarrow> 'a prog \<Rightarrow> 'a prog" where
  "withLockRetry opname fn = lock_retry_loop opname fn lockRetryMaxAttempts 0 (Errorf '''')"

section \<open>Apply leases\<close>

definition applyLeaseFromContext :: "ctx \<Rightarrow> int \<Rightarrow> err + ApplyLease option" where
  "applyLeaseFromContext c applyID =
    (case ApplyLeaseFromContext c of
       None \<Rightarrow> Inr None
     | Some lease \<Rightarrow>
         if \<not> ApplyLease_Valid lease
         then Inl (Wrapped ''invalid apply lease for apply'' ErrApplyLeaseLost)
         else if al_ApplyID lease \<noteq> applyID
         then Inl (Wrapped ''apply lease cannot write apply'' ErrApplyLeaseLost)
         else Inr (Some lease))"

text \<open>The rows of \<^verbatim>\<open>applies\<close> that carry the lease's token.\<close>

definition lease_current :: "ApplyLease \<Rightarrow> db \<Rightarrow> bool" where
  "lease_current lease d \<longleftrightarrow>
    list_ex (\<lambda>a. apply_ID a = al_ApplyID lease \<and> apply_LeaseToken a = al_Token lease) (applies d)"

definition applyLeaseMatches :: "ApplyLease \<Rightarrow> bool prog" where
  "applyLeaseMatches lease =
    do {
      r \<leftarrow> QueryContext (lease_current lease);
      case r of
        Inl e \<Rightarrow> State_Monad.return (Inl (Wrapped ''verify apply lease for apply'' e))
      | Inr m \<Rightarrow> State_Monad.return (Inr m)
    }"

definition ensureApplyLeaseStillOwned :: "ApplyLease \<Rightarrow> unit prog" where
  "ensureApplyLeaseStillOwned lease =
    do {
      r \<leftarrow> applyLeaseMatches lease;
      case r of
        Inl e \<Rightarrow> State_Monad.return (Inl e)
      | Inr matches \<Rightarrow>
          if \<not> matches
          then State_Monad.return (Inl (Wrapped ''apply lease is no longer current'' ErrApplyLeaseLost))
          else State_Monad.return (Inr ())
    }"

definition confirmLeaseOnZeroRows :: "int \<Rightarrow> ApplyLease \<Rightarrow> int prog" where
  "confirmLeaseOnZeroRows rows lease =
    (if rows = 0 then
       do {
         r \<leftarrow> ensureApplyLeaseStillOwned lease;
         case r of
           Inl e \<Rightarrow> State_Monad.return (Inl e)
         | Inr _ \<Rightarrow> State_Monad.return (Inr rows)
       }
     else State_Monad.return (Inr rows))"

section \<open>Running programs\<close>

lemma run_bind_sum [simp]:
  "run_state (case r of Inl e \<Rightarrow> f e | Inr x \<Rightarrow> g x) w =
    (case r of Inl e \<Rightarrow> run_state (f e) w | Inr x \<Rightarrow> run_state (g x) w)"
  by (cases r) simp_all

text \<open>
  A world in which no other session acts and no statement fails, with the undo log of the open
  transaction; it is quiet outside a transaction.
\<close>

definition alone :: "db \<Rightarrow> (db \<Rightarrow> db) list \<Rightarrow> world" where
  "alone d us = \<lparr>w_db = d, w_undo = us, w_turns = []\<rparr>"

abbreviation quiet :: "db \<Rightarrow> world" where
  "quiet d \<equiv> alone d []"

lemma next_turn_alone [simp]: "next_turn (alone d us) = (None, alone d us)"
  by (simp add: next_turn_def alone_def)

lemma alone_simps [simp]:
  "w_db (alone d us) = d"
  "w_undo (alone d us) = us"
  "(alone d us)\<lparr>w_db := d'\<rparr> = alone d' us"
  "(alone d us)\<lparr>w_undo := us'\<rparr> = alone d us'"
  by (simp_all add: alone_def)

lemma quiet_inject: "quiet d = quiet d' \<longleftrightarrow> d = d'"
  by (simp add: alone_def)

lemma run_alone [simp]:
  "run_state (QueryContext q) (alone d us) = (Inr (q d), alone d us)"
  "run_state (ExecContext stm) (alone d us) =
    (case stm d of Inl e \<Rightarrow> (Inl e, alone d us) | Inr (d', n) \<Rightarrow> (Inr n, alone d' us))"
  "run_state (tx_ExecContext undo stm) (alone d us) =
    (case stm d of Inl e \<Rightarrow> (Inl e, alone d us) | Inr (d', n) \<Rightarrow> (Inr n, alone d' (undo d # us)))"
  "run_state BeginTx (alone d us) = (Inr (), quiet d)"
  "run_state Commit (alone d us) = (Inr (), quiet d)"
  by (simp_all add: QueryContext_def ExecContext_def tx_ExecContext_def BeginTx_def Commit_def
      split: sum.split prod.split) (simp add: alone_def)

lemma run_defer_rollback [simp]:
  "run_state (defer_rollback p) w = (case run_state p w of (r, w') \<Rightarrow> (r, rollbackTx w'))"
  by (simp add: defer_rollback_def)

lemma rollbackTx_quiet [simp]: "rollbackTx (quiet d) = quiet d"
  by (simp add: rollbackTx_def alone_def)

lemma run_retry_first:
  assumes "run_state fn w = (r, w')" and "\<And>e. r = Inl e \<Longrightarrow> \<not> isRetryableLockError e"
  shows "run_state (withLockRetry opname fn) w = (r, w')"
  using assms
  by (cases r) (simp_all add: withLockRetry_def lockRetryMaxAttempts_def eval_nat_numeral)

section \<open>A program logic for interfering sessions\<close>

text \<open>
  \<open>winv I w\<close>: the database satisfies \<open>I\<close> and every step of the other sessions keeps it.
\<close>

definition winv :: "(db \<Rightarrow> bool) \<Rightarrow> world \<Rightarrow> bool" where
  "winv I w \<longleftrightarrow> I (w_db w) \<and> (\<forall>t\<in>set (w_turns w). \<forall>d. I d \<longrightarrow> I (turn_env t d))"

definition hoare :: "(world \<Rightarrow> bool) \<Rightarrow> (world, 'a) state \<Rightarrow> ('a \<Rightarrow> world \<Rightarrow> bool) \<Rightarrow> bool" where
  "hoare P p Q \<longleftrightarrow> (\<forall>w. P w \<longrightarrow> (case run_state p w of (r, w') \<Rightarrow> Q r w'))"

lemma hoareD: "hoare P p Q \<Longrightarrow> P w \<Longrightarrow> run_state p w = (r, w') \<Longrightarrow> Q r w'"
  by (fastforce simp: hoare_def)

lemma hoareI: "(\<And>w r w'. P w \<Longrightarrow> run_state p w = (r, w') \<Longrightarrow> Q r w') \<Longrightarrow> hoare P p Q"
  by (auto simp: hoare_def)

lemma hoare_conseq:
  "hoare P p Q \<Longrightarrow> (\<And>w. P' w \<Longrightarrow> P w) \<Longrightarrow> (\<And>r w. Q r w \<Longrightarrow> Q' r w) \<Longrightarrow> hoare P' p Q'"
  by (fastforce simp: hoare_def)

lemma hoare_return: "(\<And>w. P w \<Longrightarrow> Q x w) \<Longrightarrow> hoare P (State_Monad.return x) Q"
  by (simp add: hoare_def)

lemma hoare_bind:
  assumes "hoare P m R" and "\<And>x. hoare (R x) (f x) Q"
  shows "hoare P (State_Monad.bind m f) Q"
proof (rule hoareI)
  fix w r w'
  assume "P w" and "run_state (State_Monad.bind m f) w = (r, w')"
  then obtain x w1 where "run_state m w = (x, w1)" and "run_state (f x) w1 = (r, w')"
    by (auto split: prod.splits)
  with assms \<open>P w\<close> show "Q r w'" by (blast dest: hoareD)
qed

lemma winv_next_turn:
  assumes "winv I w" and "next_turn w = (e, w')"
  shows "winv I w'"
  using assms by (cases "w_turns w") (auto simp: next_turn_def winv_def)

lemma hoare_if:
  "(c \<Longrightarrow> hoare P p Q) \<Longrightarrow> (\<not> c \<Longrightarrow> hoare P q Q) \<Longrightarrow> hoare P (if c then p else q) Q"
  by simp

lemma hoare_sum:
  assumes "\<And>e. r = Inl e \<Longrightarrow> hoare P (f e) Q" and "\<And>x. r = Inr x \<Longrightarrow> hoare P (g x) Q"
  shows "hoare P (case r of Inl e \<Rightarrow> f e | Inr x \<Rightarrow> g x) Q"
  using assms by (cases r) simp_all

lemma hoare_option:
  assumes "r = None \<Longrightarrow> hoare P f Q" and "\<And>x. r = Some x \<Longrightarrow> hoare P (g x) Q"
  shows "hoare P (case r of None \<Rightarrow> f | Some x \<Rightarrow> g x) Q"
  using assms by (cases r) simp_all

lemmas hoare_branch = hoare_if hoare_sum hoare_option hoare_return

lemma hoare_query:
  assumes "\<And>w. P w \<Longrightarrow> winv I w"
  shows "hoare P (QueryContext q) (\<lambda>r w. winv I w \<and> (\<forall>x. r = Inr x \<longrightarrow> x = q (w_db w)))"
  by (rule hoareI)
    (auto simp: QueryContext_def dest!: assms dest: winv_next_turn split: prod.splits option.splits)

lemma hoare_exec:
  assumes "\<And>w. P w \<Longrightarrow> winv I w"
    and keeps: "\<And>d d' n. I d \<Longrightarrow> stm d = Inr (d', n) \<Longrightarrow> I d'"
  shows "hoare P (ExecContext stm)
    (\<lambda>r w. winv I w \<and> (\<forall>n. r = Inr n \<longrightarrow> (\<exists>d. I d \<and> stm d = Inr (w_db w, n))))"
proof (rule hoareI)
  fix w r w'
  assume "P w" and run: "run_state (ExecContext stm) w = (r, w')"
  then have w: "winv I w" by (simp add: assms(1))
  obtain e w1 where turn: "next_turn w = (e, w1)" by fastforce
  with w have w1: "winv I w1" by (rule winv_next_turn)
  then show "winv I w' \<and> (\<forall>n. r = Inr n \<longrightarrow> (\<exists>d. I d \<and> stm d = Inr (w_db w', n)))"
    using run turn
    by (auto simp: ExecContext_def winv_def split: option.splits sum.splits dest: keeps)
qed

lemma hoare_sleepBackoff: "hoare (winv I) sleepBackoff (\<lambda>r. winv I)"
  by (rule hoareI) (auto simp: sleepBackoff_def dest: winv_next_turn
      split: prod.splits option.splits err.splits)

text \<open>
  Retries: whatever a single attempt guarantees on success under the invariant, the retried
  operation guarantees on success.
\<close>

lemma hoare_retry_loop:
  assumes attempt: "hoare (winv I) fn (\<lambda>r w. winv I w \<and> (\<forall>x. r = Inr x \<longrightarrow> Q x w))"
  shows "hoare (winv I) (lock_retry_loop opname fn left tries lastErr)
    (\<lambda>r w. winv I w \<and> (\<forall>x. r = Inr x \<longrightarrow> Q x w))"
proof (induction left arbitrary: tries lastErr)
  case 0
  then show ?case by (simp add: hoare_return)
next
  case (Suc left)
  have wait: "hoare (winv I) (if 0 < tries then sleepBackoff else State_Monad.return (Inr ()))
      (\<lambda>r. winv I)"
    using hoare_sleepBackoff by (auto intro: hoare_return)
  show ?case
    unfolding lock_retry_loop.simps
  proof (rule hoare_bind [OF wait])
    fix s :: "err + unit"
    let ?post = "\<lambda>r w. winv I w \<and> (\<forall>x. r = Inr x \<longrightarrow> Q x w)"
    have "hoare (?post r) (case r of Inr x \<Rightarrow> State_Monad.return (Inr x)
        | Inl e \<Rightarrow> if \<not> isRetryableLockError e then State_Monad.return (Inl e)
            else lock_retry_loop opname fn left (Suc tries) e) ?post" for r
      using hoare_conseq [OF Suc.IH] by (cases r) (auto intro: hoare_return)
    from hoare_bind [OF attempt this]
    show "hoare (winv I) (case s of Inl e \<Rightarrow> State_Monad.return (Inl e)
        | Inr _ \<Rightarrow> State_Monad.bind fn (\<lambda>r. case r of Inr x \<Rightarrow> State_Monad.return (Inr x)
            | Inl e \<Rightarrow> if \<not> isRetryableLockError e then State_Monad.return (Inl e)
                else lock_retry_loop opname fn left (Suc tries) e)) ?post"
      by (cases s) (auto intro: hoare_return)
  qed
qed

lemma hoare_withLockRetry:
  assumes "hoare (winv I) fn (\<lambda>r w. winv I w \<and> (\<forall>x. r = Inr x \<longrightarrow> Q x w))"
  shows "hoare (winv I) (withLockRetry opname fn)
    (\<lambda>r w. winv I w \<and> (\<forall>x. r = Inr x \<longrightarrow> Q x w))"
  unfolding withLockRetry_def using assms by (rule hoare_retry_loop)

section \<open>Keeping an invariant\<close>

text \<open>A program that keeps an invariant which the other sessions keep.\<close>

named_theorems keeps_intros "rules that reduce a program that keeps an invariant to its statements"

definition keeps :: "(db \<Rightarrow> bool) \<Rightarrow> (world, 'a) state \<Rightarrow> bool" where
  "keeps I p \<longleftrightarrow> hoare (winv I) p (\<lambda>r. winv I)"

lemma keepsD: "keeps I p \<Longrightarrow> winv I w \<Longrightarrow> run_state p w = (r, w') \<Longrightarrow> winv I w'"
  unfolding keeps_def by (rule hoareD)

lemma keeps_return [keeps_intros]: "keeps I (State_Monad.return x)"
  unfolding keeps_def by (rule hoare_return)

lemma keeps_bind [keeps_intros]: "keeps I m \<Longrightarrow> (\<And>x. keeps I (f x)) \<Longrightarrow> keeps I (State_Monad.bind m f)"
  unfolding keeps_def by (rule hoare_bind)

lemma keeps_if [keeps_intros]: "(c \<Longrightarrow> keeps I p) \<Longrightarrow> (\<not> c \<Longrightarrow> keeps I q) \<Longrightarrow> keeps I (if c then p else q)"
  by simp

lemma keeps_sum [keeps_intros]:
  "(\<And>e. r = Inl e \<Longrightarrow> keeps I (f e)) \<Longrightarrow> (\<And>x. r = Inr x \<Longrightarrow> keeps I (g x)) \<Longrightarrow> keeps I (case r of Inl e \<Rightarrow> f e | Inr x \<Rightarrow> g x)"
  by (cases r) simp_all

lemma keeps_option [keeps_intros]:
  "(r = None \<Longrightarrow> keeps I f) \<Longrightarrow> (\<And>x. r = Some x \<Longrightarrow> keeps I (g x)) \<Longrightarrow> keeps I (case r of None \<Rightarrow> f | Some x \<Rightarrow> g x)"
  by (cases r) simp_all

lemma keeps_query [keeps_intros]: "keeps I (QueryContext q)"
  unfolding keeps_def using hoare_query[of "winv I" I q] by (rule hoare_conseq) auto

lemma keeps_exec: "(\<And>d d' n. I d \<Longrightarrow> stm d = Inr (d', n) \<Longrightarrow> I d') \<Longrightarrow> keeps I (ExecContext stm)"
  unfolding keeps_def using hoare_exec[of "winv I" I stm] by (rule hoare_conseq) auto

lemma keeps_or_fail [keeps_intros]: "keeps I p \<Longrightarrow> (\<And>x. keeps I (f x)) \<Longrightarrow> keeps I (or_fail msg p f)"
  unfolding or_fail_def by (intro keeps_intros)

lemma keeps_or_else [keeps_intros]: "keeps I p \<Longrightarrow> (\<And>x. keeps I (f x)) \<Longrightarrow> keeps I (or_else p y f)"
  unfolding or_else_def by (intro keeps_intros)

lemma run_or_fail: "run_state (or_fail msg p f) w = (case run_state p w of (Inl e, w') \<Rightarrow> (Inl (Wrapped msg e), w') | (Inr x, w') \<Rightarrow> run_state (f x) w')"
  by (simp add: or_fail_def split: prod.splits sum.splits)

lemma keeps_lease [keeps_intros]: "keeps I (ensureApplyLeaseStillOwned l)" "keeps I (confirmLeaseOnZeroRows n l)"
  unfolding ensureApplyLeaseStillOwned_def confirmLeaseOnZeroRows_def applyLeaseMatches_def by (intro keeps_intros)+

section \<open>What a reading session can see\<close>

text \<open>
  \<open>moments w\<close>: the databases that the statements of a session without writes run on, one per turn.
\<close>

fun turn_dbs :: "turn list \<Rightarrow> db \<Rightarrow> db list" where
  "turn_dbs [] d = [d]"
| "turn_dbs (t # ts) d = turn_env t d # turn_dbs ts (turn_env t d)"

definition moments :: "world \<Rightarrow> db set" where
  "moments w = set (turn_dbs (w_turns w) (w_db w))"

lemma moments_alone [simp]: "moments (alone d us) = {d}"
  by (simp add: moments_def alone_def)

lemma moments_next_turn:
  assumes "next_turn w = (e, w')"
  shows "w_db w' \<in> moments w" and "moments w' \<subseteq> moments w"
  using assms by (cases "w_turns w"; auto simp: next_turn_def moments_def)+

lemma turns_next_turn: "next_turn w = (e, w') \<Longrightarrow> length (w_turns w) \<le> Suc (length (w_turns w'))"
  by (cases "w_turns w") (auto simp: next_turn_def)

lemma hoare_query_moment:
  "hoare (\<lambda>w. moments w \<subseteq> M) (QueryContext q) (\<lambda>r w. moments w \<subseteq> M \<and> (\<forall>x. r = Inr x \<longrightarrow> x \<in> q ` M))"
  by (rule hoareI) (auto simp: QueryContext_def dest: moments_next_turn split: prod.splits option.splits)

lemma hoare_sleep_moment: "hoare (\<lambda>w. moments w \<subseteq> M) sleepBackoff (\<lambda>r w. moments w \<subseteq> M)"
  by (rule hoareI) (auto simp: sleepBackoff_def dest: moments_next_turn split: prod.splits option.splits err.splits)

text \<open>A query and a wait take at most one turn each.\<close>

lemma hoare_query_turns:
  "hoare (\<lambda>w. n \<le> length (w_turns w) + k) (QueryContext q) (\<lambda>r w. n \<le> length (w_turns w) + Suc k)"
  by (rule hoareI) (auto simp: QueryContext_def dest!: turns_next_turn split: prod.splits option.splits)

lemma hoare_sleep_turns:
  "hoare (\<lambda>w. n \<le> length (w_turns w) + k) sleepBackoff (\<lambda>r w. n \<le> length (w_turns w) + Suc k)"
  by (rule hoareI) (auto simp: sleepBackoff_def dest!: turns_next_turn split: prod.splits option.splits err.splits)

lemma run_sleep_alone [simp]: "run_state sleepBackoff (alone d us) = (Inr (), alone d us)"
  by (simp add: sleepBackoff_def)

section \<open>Row lemmas\<close>

lemma rows_changed_pos_iff:
  "0 < rows_changed P f rs \<longleftrightarrow> (\<exists>r\<in>set rs. P r \<and> f r \<noteq> r)"
  by (auto simp: rows_changed_def filter_empty_conv)

lemma rows_changed_nonneg [simp]: "0 \<le> rows_changed P f rs"
  by (simp add: rows_changed_def)

lemma rows_changed_zero_iff:
  "rows_changed P f rs = 0 \<longleftrightarrow> (\<forall>r\<in>set rs. P r \<longrightarrow> f r = r)"
  by (auto simp: rows_changed_def filter_empty_conv)

lemma sql_update_zero:
  "rows_changed P f rs = 0 \<Longrightarrow> sql_update P f rs = rs"
  by (auto simp: rows_changed_zero_iff sql_update_def intro: map_idI)

lemma set_sql_update:
  "set (sql_update P f rs) = (\<lambda>r. if P r then f r else r) ` set rs"
  by (simp add: sql_update_def)

lemma map_key_sql_update:
  assumes "\<And>r. key (f r) = key r"
  shows "map key (sql_update P f rs) = map key rs"
  using assms by (simp add: sql_update_def comp_def)

text \<open>Looking a row up by a unique key.\<close>

lemma find_append_single:
  "find P (xs @ [x]) = (case find P xs of Some y \<Rightarrow> Some y | None \<Rightarrow> if P x then Some x else None)"
  by (induction xs) auto

lemma find_key_update:
  assumes "\<And>r. key (f r) = key r" and "distinct (map key rs)"
  shows "find (\<lambda>r. key r = k) (sql_update P f rs) =
    map_option (\<lambda>r. if P r then f r else r) (find (\<lambda>r. key r = k) rs)"
  using assms by (induction rs) (auto simp: sql_update_def)

lemma find_key_filter:
  assumes "distinct (map key rs)"
  shows "find (\<lambda>r. key r = k) (filter (\<lambda>r. \<not> P r) rs) =
    (case find (\<lambda>r. key r = k) rs of Some r \<Rightarrow> if P r then None else Some r | None \<Rightarrow> None)"
  using assms
proof (induction rs)
  case (Cons r rs)
  have "find (\<lambda>r. key r = k) rs = None" if "key r = k"
    using Cons.prems that by (auto simp: find_None_iff) (metis imageI)
  with Cons show ?case by (cases "key r = k") (auto split: option.splits)
qed simp

lemma find_key_unique:
  assumes "distinct (map key rs)" and "find (\<lambda>r. key r = k) rs = Some r"
    and "r' \<in> set rs" and "key r' = k"
  shows "r' = r"
  using find_SomeD [OF assms(2)] assms(1,3,4) by (auto simp: distinct_map inj_on_def)

end
