(* ===== verification/Apply_Operations.thy ===== *)
theory Apply_Operations
  imports Sql_Store
begin

text \<open>
  The operations of an apply (\<^verbatim>\<open>pkg/storage/mysqlstore/apply_operations.go\<close>): inserting and reading
  the rows, and the guarded writes with which a driver moves an operation it holds a lease for.
  Claiming is in \<open>Operation_Claims\<close>.
\<close>

section \<open>Statements\<close>

text \<open>An UPDATE of the table: \<^verbatim>\<open>updated_at\<close> is stamped on every row another column of which changes.\<close>

definition stamp_op :: "db \<Rightarrow> ApplyOperation \<Rightarrow> ApplyOperation" where
  "stamp_op d r = r\<lparr>op_UpdatedAt := now d\<rparr>"

definition update_ops ::
  "(db \<Rightarrow> ApplyOperation \<Rightarrow> bool) \<Rightarrow> (db \<Rightarrow> ApplyOperation \<Rightarrow> ApplyOperation) \<Rightarrow> statement" where
  "update_ops P f d =
    Inr (d\<lparr>apply_operations := sql_update (P d) (on_update (stamp_op d) (f d)) (apply_operations d)\<rparr>,
         rows_changed (P d) (on_update (stamp_op d) (f d)) (apply_operations d))"

definition delete_ops :: "(db \<Rightarrow> ApplyOperation \<Rightarrow> bool) \<Rightarrow> statement" where
  "delete_ops P d =
    Inr (d\<lparr>apply_operations := filter (\<lambda>r. \<not> P d r) (apply_operations d)\<rparr>,
         int (length (filter (P d) (apply_operations d))))"

definition op_unique_key ::
  "(string \<Rightarrow> string) \<Rightarrow> ApplyOperation \<Rightarrow> int \<times> string \<times> string" where
  "op_unique_key ci r = (op_ApplyID r, ci (op_Deployment r), ci (op_OperationKey r))"

definition insert_op :: "(string \<Rightarrow> string) \<Rightarrow> ApplyOperation \<Rightarrow> statement" where
  "insert_op ci row d =
    (if list_ex (\<lambda>r. op_unique_key ci r = op_unique_key ci row) (apply_operations d)
     then Inl duplicate_entry
     else Inr (d\<lparr>apply_operations := apply_operations d @
                  [row\<lparr>op_ID := apply_operations_next d, op_Attempt := 0, op_LeaseOwner := '''',
                       op_LeaseToken := '''', op_LeaseAcquiredAt := None,
                       op_CreatedAt := now d, op_UpdatedAt := now d\<rparr>],
                 apply_operations_next := apply_operations_next d + 1\<rparr>, apply_operations_next d))"

section \<open>Inserting and reading\<close>

text \<open>The defaults of \<^verbatim>\<open>insertApplyOperation\<close> for fields the caller left empty.\<close>

definition with_operation_defaults :: "ApplyOperation \<Rightarrow> ApplyOperation" where
  "with_operation_defaults ad = ad\<lparr>
     op_State := (if op_State ad = '''' then Apply_Pending else op_State ad),
     op_CutoverPolicy := (if op_CutoverPolicy ad = '''' then CutoverPolicyRolling else op_CutoverPolicy ad),
     op_OnFailure := (if op_OnFailure ad = '''' then OnFailureHalt else op_OnFailure ad),
     op_OperationKind := (if op_OperationKind ad = '''' then ApplyOperationKindWork else op_OperationKind ad)\<rparr>"

text \<open>
  \<open>exec\<close> is the connection or the transaction.  On success the result is the id and the caller's
  struct with id and defaults filled in.
\<close>

definition insertApplyOperation ::
  "(statement \<Rightarrow> int prog) \<Rightarrow> (string \<Rightarrow> string) \<Rightarrow> ApplyOperation \<Rightarrow> (int \<times> ApplyOperation) prog" where
  "insertApplyOperation exec ci ad =
    do {
      result \<leftarrow> exec (insert_op ci (with_operation_defaults ad));
      case result of
        Inl e \<Rightarrow>
          if isDuplicateKeyError e then State_Monad.return (Inl ErrApplyOperationExists)
          else State_Monad.return (Inl (Wrapped ''insert apply_operations'' e))
      | Inr i \<Rightarrow> State_Monad.return (Inr (i, (with_operation_defaults ad)\<lparr>op_ID := i\<rparr>))
    }"

definition op_Get :: "int \<Rightarrow> ApplyOperation option prog" where
  "op_Get i = QueryContext (\<lambda>d. find (\<lambda>r. op_ID r = i) (apply_operations d))"

definition GetByApplyDeploymentAndOperationKey ::
  "(string \<Rightarrow> string) \<Rightarrow> int \<Rightarrow> string \<Rightarrow> string \<Rightarrow> ApplyOperation option prog" where
  "GetByApplyDeploymentAndOperationKey ci applyID deployment operationKey = QueryContext (\<lambda>d.
     find (\<lambda>r. op_unique_key ci r = (applyID, ci deployment, ci operationKey)) (apply_operations d))"

definition GetByApplyAndDeployment ::
  "(string \<Rightarrow> string) \<Rightarrow> int \<Rightarrow> string \<Rightarrow> ApplyOperation option prog" where
  "GetByApplyAndDeployment ci applyID deployment =
     GetByApplyDeploymentAndOperationKey ci applyID deployment ''''"

text \<open>\<^verbatim>\<open>ORDER BY created_at, id\<close>, the deployment order.\<close>

definition op_before :: "ApplyOperation \<Rightarrow> ApplyOperation \<Rightarrow> bool" where
  "op_before a b \<longleftrightarrow>
    op_CreatedAt a < op_CreatedAt b \<or> (op_CreatedAt a = op_CreatedAt b \<and> op_ID a < op_ID b)"

fun insort_op :: "ApplyOperation \<Rightarrow> ApplyOperation list \<Rightarrow> ApplyOperation list" where
  "insort_op x [] = [x]"
| "insort_op x (y # ys) = (if op_before y x then y # insort_op x ys else x # y # ys)"

definition sort_ops :: "ApplyOperation list \<Rightarrow> ApplyOperation list" where
  "sort_ops rs = foldr insort_op rs []"

definition ListByApply :: "int \<Rightarrow> ApplyOperation list prog" where
  "ListByApply applyID =
    do {
      r \<leftarrow> QueryContext (\<lambda>d. sort_ops (filter (\<lambda>r. op_ApplyID r = applyID) (apply_operations d)));
      case r of
        Inl e \<Rightarrow> State_Monad.return (Inl (Wrapped ''query apply_operations for apply'' e))
      | Inr rs \<Rightarrow> State_Monad.return (Inr rs)
    }"

section \<open>Write guards\<close>

text \<open>
  \<^verbatim>\<open>operationWriteGuard\<close>: which lease, if any, authorizes a write.  \<open>guard_holds\<close> is the join and
  predicate it adds to an UPDATE.
\<close>

datatype operationWriteGuard =
    operationGuardNone
  | operationGuardApply ApplyLease
  | operationGuardOperation OperationLease

definition guard_holds :: "operationWriteGuard \<Rightarrow> db \<Rightarrow> ApplyOperation \<Rightarrow> bool" where
  "guard_holds guard d r =
    (case guard of
       operationGuardNone \<Rightarrow> True
     | operationGuardOperation lease \<Rightarrow> op_LeaseToken r = ol_Token lease
     | operationGuardApply lease \<Rightarrow>
         op_ApplyID r = al_ApplyID lease \<and>
         list_ex (\<lambda>a. apply_ID a = op_ApplyID r \<and> apply_LeaseToken a = al_Token lease) (applies d))"

definition operationWriteGuardFromContext :: "ctx \<Rightarrow> err + operationWriteGuard" where
  "operationWriteGuardFromContext c =
    (case OperationLeaseFromContext c of
       Some lease \<Rightarrow>
         if \<not> OperationLease_Valid lease
         then Inl (Wrapped ''invalid operation lease'' ErrApplyLeaseLost)
         else Inr (operationGuardOperation lease)
     | None \<Rightarrow>
         (case ApplyLeaseFromContext c of
            Some lease \<Rightarrow>
              if \<not> ApplyLease_Valid lease
              then Inl (Wrapped ''invalid apply_operation lease'' ErrApplyLeaseLost)
              else Inr (operationGuardApply lease)
          | None \<Rightarrow> Inr operationGuardNone))"

definition applyOperationMissingResult :: "bool \<Rightarrow> err + unit" where
  "applyOperationMissingResult missingOK =
    (if missingOK then Inr ()
     else Inl (Wrapped ''apply_operation not found'' ErrApplyOperationNotFound))"

definition applyOperationExists :: "int \<Rightarrow> bool prog" where
  "applyOperationExists i =
    do {
      r \<leftarrow> QueryContext (\<lambda>d. list_ex (\<lambda>r. op_ID r = i) (apply_operations d));
      case r of
        Inl e \<Rightarrow> State_Monad.return (Inl (Wrapped ''verify apply_operation exists'' e))
      | Inr b \<Rightarrow> State_Monad.return (Inr b)
    }"

definition operationLeaseOwnsRow :: "int \<Rightarrow> string \<Rightarrow> bool prog" where
  "operationLeaseOwnsRow i token =
    do {
      r \<leftarrow> QueryContext (\<lambda>d. list_ex (\<lambda>r. op_ID r = i \<and> op_LeaseToken r = token) (apply_operations d));
      case r of
        Inl e \<Rightarrow> State_Monad.return (Inl (Wrapped ''verify operation lease'' e))
      | Inr b \<Rightarrow> State_Monad.return (Inr b)
    }"

definition ensureOperationLeaseStillOwned :: "OperationLease \<Rightarrow> unit prog" where
  "ensureOperationLeaseStillOwned lease =
    do {
      r \<leftarrow> operationLeaseOwnsRow (ol_OperationID lease) (ol_Token lease);
      case r of
        Inl e \<Rightarrow> State_Monad.return (Inl e)
      | Inr owns \<Rightarrow>
          if \<not> owns
          then State_Monad.return (Inl (Wrapped ''operation lease is no longer current'' ErrApplyLeaseLost))
          else State_Monad.return (Inr ())
    }"

text \<open>The result of \<^verbatim>\<open>applyOperationLeaseMatch\<close>: \<open>(Exists, BelongsToLease)\<close>.\<close>

definition applyOperationLeaseMatch :: "int \<Rightarrow> ApplyLease \<Rightarrow> (bool \<times> bool) prog" where
  "applyOperationLeaseMatch i lease =
    do {
      r \<leftarrow> QueryContext (\<lambda>d. find (\<lambda>r. op_ID r = i) (apply_operations d));
      case r of
        Inl e \<Rightarrow> State_Monad.return (Inl (Wrapped ''verify apply_operation lease ownership'' e))
      | Inr row \<Rightarrow>
          (case row of
             None \<Rightarrow> State_Monad.return (Inr (False, False))
           | Some r \<Rightarrow> State_Monad.return (Inr (True, op_ApplyID r = al_ApplyID lease)))
    }"

definition checkUpdatedOrExists :: "int \<Rightarrow> int \<Rightarrow> operationWriteGuard \<Rightarrow> bool \<Rightarrow> unit prog" where
  "checkUpdatedOrExists rows i guard missingOK =
    (if rows > 0 then State_Monad.return (Inr ())
     else
       case guard of
         operationGuardOperation lease \<Rightarrow>
           do {
             o1 \<leftarrow> operationLeaseOwnsRow i (ol_Token lease);
             case o1 of
               Inl e \<Rightarrow> State_Monad.return (Inl e)
             | Inr ownsRow \<Rightarrow>
                 if ownsRow then State_Monad.return (Inr ())
                 else
                   do {
                     x \<leftarrow> applyOperationExists i;
                     case x of
                       Inl e \<Rightarrow> State_Monad.return (Inl e)
                     | Inr exists \<Rightarrow>
                         if \<not> exists then State_Monad.return (applyOperationMissingResult missingOK)
                         else State_Monad.return (Inl (Wrapped
                           ''apply_operation is no longer owned by its operation lease'' ErrApplyLeaseLost))
                   }
           }
       | operationGuardApply lease \<Rightarrow>
           do {
             o1 \<leftarrow> ensureApplyLeaseStillOwned lease;
             case o1 of
               Inl e \<Rightarrow> State_Monad.return (Inl e)
             | Inr _ \<Rightarrow>
                 do {
                   m \<leftarrow> applyOperationLeaseMatch i lease;
                   case m of
                     Inl e \<Rightarrow> State_Monad.return (Inl e)
                   | Inr eb \<Rightarrow>
                       if \<not> fst eb then State_Monad.return (applyOperationMissingResult missingOK)
                       else if \<not> snd eb
                       then State_Monad.return (Inl (Wrapped
                         ''apply_operation is not owned by apply lease'' ErrApplyLeaseLost))
                       else State_Monad.return (Inr ())
                 }
           }
       | operationGuardNone \<Rightarrow>
           do {
             x \<leftarrow> applyOperationExists i;
             case x of
               Inl e \<Rightarrow> State_Monad.return (Inl e)
             | Inr exists \<Rightarrow>
                 if \<not> exists then State_Monad.return (applyOperationMissingResult missingOK)
                 else State_Monad.return (Inr ())
           })"

section \<open>Guarded writes\<close>

text \<open>The UPDATE all guarded writes share, with the check of its result.\<close>

definition guarded_update ::
  "ctx \<Rightarrow> int \<Rightarrow> string \<Rightarrow> (db \<Rightarrow> ApplyOperation \<Rightarrow> ApplyOperation) \<Rightarrow> bool \<Rightarrow> unit prog" where
  "guarded_update c i errContext f missingOK =
    (case operationWriteGuardFromContext c of
       Inl e \<Rightarrow> State_Monad.return (Inl e)
     | Inr guard \<Rightarrow>
         do {
           result \<leftarrow> ExecContext (update_ops (\<lambda>d r. op_ID r = i \<and> guard_holds guard d r) f);
           case result of
             Inl e \<Rightarrow> State_Monad.return (Inl (Wrapped errContext e))
           | Inr rows \<Rightarrow> checkUpdatedOrExists rows i guard missingOK
         })"

definition execStateUpdate ::
  "ctx \<Rightarrow> int \<Rightarrow> string \<Rightarrow> (db \<Rightarrow> ApplyOperation \<Rightarrow> ApplyOperation) \<Rightarrow> unit prog" where
  "execStateUpdate c i errContext f = guarded_update c i errContext f False"

definition UpdateState :: "ctx \<Rightarrow> int \<Rightarrow> string \<Rightarrow> unit prog" where
  "UpdateState c i newState = execStateUpdate c i ''update apply_operations state''
     (\<lambda>d r. r\<lparr>op_State := newState\<rparr>)"

definition MarkStarted :: "ctx \<Rightarrow> int \<Rightarrow> unit prog" where
  "MarkStarted c i = execStateUpdate c i ''mark apply_operation started''
     (\<lambda>d r. r\<lparr>op_State := Apply_Running, op_StartedAt := COALESCE (op_StartedAt r) (now d)\<rparr>)"

definition MarkCompleted :: "ctx \<Rightarrow> int \<Rightarrow> unit prog" where
  "MarkCompleted c i = execStateUpdate c i ''mark apply_operation completed''
     (\<lambda>d r. r\<lparr>op_State := Apply_Completed, op_CompletedAt := COALESCE (op_CompletedAt r) (now d)\<rparr>)"

definition MarkFailed :: "ctx \<Rightarrow> int \<Rightarrow> string \<Rightarrow> unit prog" where
  "MarkFailed c i errMsg = execStateUpdate c i ''mark apply_operation failed''
     (\<lambda>d r. r\<lparr>op_State := Apply_Failed, op_ErrorMessage := errMsg,
              op_CompletedAt := COALESCE (op_CompletedAt r) (now d)\<rparr>)"

definition MarkTerminal :: "ctx \<Rightarrow> int \<Rightarrow> string \<Rightarrow> unit prog" where
  "MarkTerminal c i newState = execStateUpdate c i ''mark apply_operation terminal''
     (\<lambda>d r. r\<lparr>op_State := newState, op_CompletedAt := COALESCE (op_CompletedAt r) (now d)\<rparr>)"

definition SaveExternalOperationID :: "ctx \<Rightarrow> int \<Rightarrow> string \<Rightarrow> unit prog" where
  "SaveExternalOperationID c operationID externalOperationID =
    (if externalOperationID = ''''
     then State_Monad.return (Inl (Errorf ''external operation id is empty''))
     else guarded_update c operationID ''save external operation id''
       (\<lambda>d r. r\<lparr>op_ExternalOperationID := externalOperationID\<rparr>) False)"

definition SaveExternalID :: "ctx \<Rightarrow> int \<Rightarrow> string \<Rightarrow> unit prog" where
  "SaveExternalID c operationID externalID =
    (if externalID = '''' then State_Monad.return (Inl (Errorf ''external id is empty''))
     else guarded_update c operationID ''save external id''
       (\<lambda>d r. r\<lparr>op_ExternalID := externalID\<rparr>) False)"

definition SaveEngineResumeState :: "ctx \<Rightarrow> int \<Rightarrow> EngineResumeState option \<Rightarrow> unit prog" where
  "SaveEngineResumeState c operationID resumeState =
    (case resumeState of
       None \<Rightarrow> State_Monad.return (Inl (Errorf ''resume state is nil''))
     | Some rs \<Rightarrow>
         if ers_ApplyOperationID rs \<noteq> 0 \<and> ers_ApplyOperationID rs \<noteq> operationID
         then State_Monad.return (Inl (Errorf ''resume state belongs to another apply_operation''))
         else
           let metadata = (if ers_Metadata rs = '''' then ''{}'' else ers_Metadata rs) in
           guarded_update c operationID ''save engine resume state''
             (\<lambda>d r. r\<lparr>op_EngineResumeContext := ers_MigrationContext rs,
                      op_EngineResumeMetadata := metadata\<rparr>) False)"

definition GetEngineResumeState :: "int \<Rightarrow> EngineResumeState prog" where
  "GetEngineResumeState operationID =
    do {
      r \<leftarrow> op_Get operationID;
      case r of
        Inl e \<Rightarrow> State_Monad.return (Inl (Wrapped ''get engine resume state'' e))
      | Inr row \<Rightarrow>
          (case row of
             None \<Rightarrow> State_Monad.return (Inl ErrApplyOperationNotFound)
           | Some r \<Rightarrow>
               if op_EngineResumeMetadata r = ''''
               then State_Monad.return (Inl ErrEngineResumeStateNotFound)
               else State_Monad.return (Inr \<lparr>ers_ApplyOperationID = operationID,
                 ers_MigrationContext = op_EngineResumeContext r,
                 ers_Metadata = op_EngineResumeMetadata r\<rparr>))
    }"

definition op_Heartbeat :: "ctx \<Rightarrow> int \<Rightarrow> unit prog" where
  "op_Heartbeat c i = guarded_update c i ''heartbeat apply_operation'' (\<lambda>d r. r\<lparr>op_UpdatedAt := now d\<rparr>) True"

definition DeleteByApply :: "ctx \<Rightarrow> int \<Rightarrow> unit prog" where
  "DeleteByApply c applyID =
    (case applyLeaseFromContext c applyID of
       Inl e \<Rightarrow> State_Monad.return (Inl e)
     | Inr None \<Rightarrow>
         do {
           result \<leftarrow> ExecContext (delete_ops (\<lambda>d r. op_ApplyID r = applyID));
           case result of
             Inl e \<Rightarrow> State_Monad.return (Inl (Wrapped ''delete apply_operations'' e))
           | Inr _ \<Rightarrow> State_Monad.return (Inr ())
         }
     | Inr (Some lease) \<Rightarrow>
         do {
           result \<leftarrow> ExecContext (delete_ops (\<lambda>d r. op_ApplyID r = applyID \<and>
             list_ex (\<lambda>a. apply_ID a = op_ApplyID r \<and> apply_LeaseToken a = al_Token lease) (applies d)));
           case result of
             Inl e \<Rightarrow> State_Monad.return (Inl (Wrapped ''delete apply_operations'' e))
           | Inr rows \<Rightarrow>
               do {
                 z \<leftarrow> confirmLeaseOnZeroRows rows lease;
                 case z of
                   Inl e \<Rightarrow> State_Monad.return (Inl e)
                 | Inr _ \<Rightarrow> State_Monad.return (Inr ())
               }
         })"

text \<open>The rows \<^verbatim>\<open>MarkPendingStoppedByApply\<close> stops, under the condition its lease adds.\<close>

definition stop_pending_ops :: "int \<Rightarrow> (db \<Rightarrow> bool) \<Rightarrow> statement" where
  "stop_pending_ops applyID authorized = update_ops
     (\<lambda>d r. op_ApplyID r = applyID \<and> op_State r = Apply_Pending \<and> authorized d)
     (\<lambda>d r. r\<lparr>op_State := Apply_Stopped, op_UpdatedAt := now d\<rparr>)"

definition MarkPendingStoppedByApply :: "ctx \<Rightarrow> int \<Rightarrow> int prog" where
  "MarkPendingStoppedByApply c applyID =
    (case OperationLeaseFromContext c of
       Some opLease \<Rightarrow>
         if \<not> OperationLease_Valid opLease
         then State_Monad.return (Inl (Wrapped ''invalid operation lease'' ErrApplyLeaseLost))
         else if ol_ApplyID opLease \<noteq> applyID
         then State_Monad.return (Inl (Wrapped ''operation lease does not authorize stopping'' ErrApplyLeaseLost))
         else
           do {
             result \<leftarrow> ExecContext (stop_pending_ops applyID (\<lambda>d. list_ex
               (\<lambda>w. op_ApplyID w = applyID \<and> op_ID w = ol_OperationID opLease \<and>
                    op_LeaseToken w = ol_Token opLease) (apply_operations d)));
             case result of
               Inl e \<Rightarrow> State_Monad.return (Inl (Wrapped ''stop pending apply_operations'' e))
             | Inr rows \<Rightarrow>
                 if rows = 0 then
                   do {
                     z \<leftarrow> ensureOperationLeaseStillOwned opLease;
                     case z of
                       Inl e \<Rightarrow> State_Monad.return (Inl e)
                     | Inr _ \<Rightarrow> State_Monad.return (Inr rows)
                   }
                 else State_Monad.return (Inr rows)
           }
     | None \<Rightarrow>
         (case applyLeaseFromContext c applyID of
            Inl e \<Rightarrow> State_Monad.return (Inl e)
          | Inr None \<Rightarrow>
              do {
                result \<leftarrow> ExecContext (stop_pending_ops applyID (\<lambda>_. True));
                case result of
                  Inl e \<Rightarrow> State_Monad.return (Inl (Wrapped ''stop pending apply_operations'' e))
                | Inr rows \<Rightarrow> State_Monad.return (Inr rows)
              }
          | Inr (Some lease) \<Rightarrow>
              do {
                result \<leftarrow> ExecContext (stop_pending_ops applyID (\<lambda>d. list_ex
                  (\<lambda>a. apply_ID a = applyID \<and> apply_LeaseToken a = al_Token lease) (applies d)));
                case result of
                  Inl e \<Rightarrow> State_Monad.return (Inl (Wrapped ''stop pending apply_operations'' e))
                | Inr rows \<Rightarrow> confirmLeaseOnZeroRows rows lease
              }))"

section \<open>What a write leaves alone\<close>

text \<open>The columns that identify an operation and fix its place and policy in the rollout.\<close>

definition op_frame ::
  "ApplyOperation \<Rightarrow> int \<times> int \<times> string \<times> string \<times> string \<times> string \<times> string \<times> int" where
  "op_frame r = (op_ID r, op_ApplyID r, op_Deployment r, op_OperationKey r, op_OperationKind r,
     op_CutoverPolicy r, op_OnFailure r, op_CreatedAt r)"

lemma op_frameD:
  assumes "op_frame r = op_frame s"
  shows "op_ID r = op_ID s" "op_ApplyID r = op_ApplyID s" "op_Deployment r = op_Deployment s"
    "op_OperationKey r = op_OperationKey s" "op_OperationKind r = op_OperationKind s"
    "op_CutoverPolicy r = op_CutoverPolicy s" "op_OnFailure r = op_OnFailure s"
    "op_CreatedAt r = op_CreatedAt s"
  using assms by (simp_all add: op_frame_def)

lemma op_before_frame:
  "op_frame a = op_frame a' \<Longrightarrow> op_frame b = op_frame b' \<Longrightarrow> op_before a b = op_before a' b'"
  by (simp add: op_before_def op_frame_def)

lemma op_before_linear: "op_ID a \<noteq> op_ID b \<Longrightarrow> op_before a b \<or> op_before b a"
  by (auto simp: op_before_def)

lemma op_before_irrefl: "op_before a b \<Longrightarrow> \<not> op_before b a"
  by (auto simp: op_before_def)

lemma stamp_op_simps [simp]:
  "op_State (stamp_op d r) = op_State r" "op_LeaseToken (stamp_op d r) = op_LeaseToken r"
  "op_LeaseOwner (stamp_op d r) = op_LeaseOwner r" "op_frame (stamp_op d r) = op_frame r"
  "op_ID (stamp_op d r) = op_ID r"
  "op_EngineResumeContext (stamp_op d r) = op_EngineResumeContext r"
  "op_EngineResumeMetadata (stamp_op d r) = op_EngineResumeMetadata r"
  by (simp_all add: stamp_op_def op_frame_def)

lemma on_update_stamp [simp]:
  "op_State (on_update (stamp_op d) f r) = op_State (f r)"
  "op_LeaseToken (on_update (stamp_op d) f r) = op_LeaseToken (f r)"
  "op_LeaseOwner (on_update (stamp_op d) f r) = op_LeaseOwner (f r)"
  "op_frame (on_update (stamp_op d) f r) = op_frame (f r)"
  "op_ID (on_update (stamp_op d) f r) = op_ID (f r)"
  "op_EngineResumeContext (on_update (stamp_op d) f r) = op_EngineResumeContext (f r)"
  "op_EngineResumeMetadata (on_update (stamp_op d) f r) = op_EngineResumeMetadata (f r)"
  by (simp_all add: on_update_def Let_def)

lemma update_ops_result:
  assumes "update_ops P f d = Inr (d', n)"
  shows "d' = d\<lparr>apply_operations := apply_operations d'\<rparr>"
    and "apply_operations d' =
      map (\<lambda>r. if P d r then on_update (stamp_op d) (f d) r else r) (apply_operations d)"
    and "n = rows_changed (P d) (on_update (stamp_op d) (f d)) (apply_operations d)"
  using assms by (auto simp: update_ops_def sql_update_def)

lemma update_ops_zero: "update_ops P f d = Inr (d', 0) \<Longrightarrow> d' = d"
  by (auto simp: update_ops_def dest: sql_update_zero)

lemma update_ops_total: obtains d' n where "update_ops P f d = Inr (d', n)" and "0 \<le> n"
  by (simp add: update_ops_def)

lemma update_ops_changed:
  assumes "update_ops P f d = Inr (d', n)" and "n \<noteq> 0"
  obtains r where "r \<in> set (apply_operations d)" and "P d r"
    and "on_update (stamp_op d) (f d) r \<in> set (apply_operations d')"
proof -
  from assms have "0 < rows_changed (P d) (on_update (stamp_op d) (f d)) (apply_operations d)"
    using update_ops_result(3) [OF assms(1)] by (simp add: order_less_le)
  then show ?thesis
    using that update_ops_result(2) [OF assms(1)] by (auto simp: rows_changed_pos_iff)
qed

definition op_ids_distinct :: "db \<Rightarrow> bool" where
  "op_ids_distinct d \<longleftrightarrow> distinct (map op_ID (apply_operations d))"

lemma op_ids_distinctD:
  "op_ids_distinct d \<Longrightarrow> r \<in> set (apply_operations d) \<Longrightarrow> s \<in> set (apply_operations d) \<Longrightarrow>
    op_ID r = op_ID s \<Longrightarrow> r = s"
  by (auto simp: op_ids_distinct_def distinct_map inj_on_def)

section \<open>Guards\<close>

text \<open>The rows a guard rejects are untouched; with no row left the write reports the lost lease.\<close>

lemma guarded_update_lost:
  assumes "operationWriteGuardFromContext c = Inr (operationGuardOperation lease)"
    and "\<And>r. r \<in> set (apply_operations d) \<Longrightarrow> op_ID r = i \<Longrightarrow> op_LeaseToken r \<noteq> ol_Token lease"
    and "\<exists>r\<in>set (apply_operations d). op_ID r = i"
  shows "\<exists>e. run_state (guarded_update c i msg f missingOK) (quiet d) = (Inl e, quiet d) \<and>
    errors_Is e ErrApplyLeaseLost"
proof -
  let ?P = "\<lambda>d r. op_ID r = i \<and> guard_holds (operationGuardOperation lease) d r"
  obtain d' n where upd: "update_ops ?P f d = Inr (d', n)" by (rule update_ops_total)
  have "n = 0"
    using assms(2) by (auto simp: update_ops_result(3) [OF upd] rows_changed_zero_iff guard_holds_def)
  with upd have "d' = d" by (auto dest: update_ops_zero)
  moreover have "\<not> list_ex (\<lambda>r. op_ID r = i \<and> op_LeaseToken r = ol_Token lease) (apply_operations d)"
    using assms(2) by (auto simp: list_ex_iff)
  moreover have "list_ex (\<lambda>r. op_ID r = i) (apply_operations d)"
    using assms(3) by (auto simp: list_ex_iff)
  ultimately show ?thesis
    using upd \<open>n = 0\<close> by (simp add: guarded_update_def assms(1) checkUpdatedOrExists_def
        operationLeaseOwnsRow_def applyOperationExists_def)
qed

text \<open>The holder of the row's operation lease writes it, also when nothing changes.\<close>

lemma guarded_update_held:
  assumes "operationWriteGuardFromContext c = Inr (operationGuardOperation lease)"
    and "q \<in> set (apply_operations d)" and "op_ID q = i" and "op_LeaseToken q = ol_Token lease"
  shows "\<exists>d'. run_state (guarded_update c i msg f missingOK) (quiet d) = (Inr (), quiet d') \<and>
    on_update (stamp_op d) (f d) q \<in> set (apply_operations d')"
proof -
  let ?P = "\<lambda>d r. op_ID r = i \<and> guard_holds (operationGuardOperation lease) d r"
  obtain d' n where upd: "update_ops ?P f d = Inr (d', n)" and pos: "0 \<le> n" by (rule update_ops_total)
  have owns: "list_ex (\<lambda>r. op_ID r = i \<and> op_LeaseToken r = ol_Token lease) (apply_operations d)"
    using assms(2-4) by (auto simp: list_ex_iff)
  have "d' = d" if "n = 0" using upd that by (auto dest: update_ops_zero)
  with owns pos have "run_state (checkUpdatedOrExists n i (operationGuardOperation lease) missingOK) (quiet d') =
      (Inr (), quiet d')"
    by (cases "n = 0") (simp_all add: checkUpdatedOrExists_def operationLeaseOwnsRow_def)
  then have "run_state (guarded_update c i msg f missingOK) (quiet d) = (Inr (), quiet d')"
    using upd by (simp add: guarded_update_def assms(1))
  moreover have "on_update (stamp_op d) (f d) q \<in> set (apply_operations d')"
    using assms(2-4) by (auto simp: update_ops_result(2) [OF upd] guard_holds_def)
  ultimately show ?thesis by blast
qed

lemma guarded_update_ops:
  assumes "operationWriteGuardFromContext c = Inr guard"
  shows "\<exists>r. run_state (guarded_update c i msg f missingOK) (quiet d) =
    (r, quiet (d\<lparr>apply_operations := map (\<lambda>q. if op_ID q = i \<and> guard_holds guard d q
      then on_update (stamp_op d) (f d) q else q) (apply_operations d)\<rparr>))"
proof -
  let ?P = "\<lambda>d r. op_ID r = i \<and> guard_holds guard d r"
  obtain d' n where upd: "update_ops ?P f d = Inr (d', n)" by (rule update_ops_total)
  have "\<exists>r. run_state (checkUpdatedOrExists n i guard missingOK) (quiet d') = (r, quiet d')"
    by (cases guard) (auto simp: checkUpdatedOrExists_def operationLeaseOwnsRow_def
        applyOperationExists_def ensureApplyLeaseStillOwned_def applyLeaseMatches_def
        applyOperationLeaseMatch_def split: option.split)
  moreover have "d' = d\<lparr>apply_operations := map (\<lambda>q. if op_ID q = i \<and> guard_holds guard d q
      then on_update (stamp_op d) (f d) q else q) (apply_operations d)\<rparr>"
    using update_ops_result [OF upd] by metis
  ultimately show ?thesis using upd by (simp add: guarded_update_def assms)
qed

section \<open>Properties\<close>

definition example_op :: "int \<Rightarrow> string \<Rightarrow> string \<Rightarrow> ApplyOperation" where
  "example_op i deployment st = \<lparr>op_ID = i, op_ApplyID = 7, op_Deployment = deployment,
     op_OperationKey = '''', op_OperationKind = ''work'', op_Target = '''', op_ExternalID = '''',
     op_ExternalOperationID = '''', op_State = st, op_ErrorMessage = '''',
     op_CutoverPolicy = ''rolling'', op_OnFailure = ''halt'', op_Attempt = 0, op_StartedAt = None,
     op_CompletedAt = None, op_LeaseOwner = '''', op_LeaseToken = '''', op_LeaseAcquiredAt = None,
     op_EngineResumeContext = '''', op_EngineResumeMetadata = '''', op_CreatedAt = 0, op_UpdatedAt = 0\<rparr>"

text \<open>
  Further fact (engine state survives a driver).  Saving a resume state for an existing operation
  and reading it back returns the saved context, and the saved metadata with an empty value read
  back as an empty JSON object; the operation's lifecycle state is untouched.
\<close>

theorem engine_resume_round_trip:
  assumes "op_ids_distinct d" and "r \<in> set (apply_operations d)"
    and "ers_ApplyOperationID rs \<in> {0, op_ID r}"
  shows "\<exists>d'. run_state (SaveEngineResumeState Background (op_ID r) (Some rs)) (quiet d) = (Inr (), quiet d') \<and>
    run_state (GetEngineResumeState (op_ID r)) (quiet d') =
      (Inr \<lparr>ers_ApplyOperationID = op_ID r, ers_MigrationContext = ers_MigrationContext rs,
            ers_Metadata = (if ers_Metadata rs = '''' then ''{}'' else ers_Metadata rs)\<rparr>, quiet d') \<and>
    map op_State (apply_operations d') = map op_State (apply_operations d)"
proof -
  let ?m = "if ers_Metadata rs = '''' then ''{}'' else ers_Metadata rs"
  let ?f = "\<lambda>(d::db) r. r\<lparr>op_EngineResumeContext := ers_MigrationContext rs, op_EngineResumeMetadata := ?m\<rparr>"
  let ?P = "\<lambda>(d::db) q. op_ID q = op_ID r \<and> guard_holds operationGuardNone d q"
  obtain d' n where upd: "update_ops ?P ?f d = Inr (d', n)" by (rule update_ops_total)
  note res = update_ops_result [OF upd]
  have ids: "map op_ID (apply_operations d') = map op_ID (apply_operations d)"
    by (simp add: res(2) comp_def)
  have "op_ID r \<in> set (map op_ID (apply_operations d'))"
    using assms(2) unfolding ids by simp
  then have ex: "list_ex (\<lambda>q. op_ID q = op_ID r) (apply_operations d')"
    by (auto simp: list_ex_iff)
  have guard: "operationWriteGuardFromContext Background = Inr operationGuardNone"
    by (simp add: operationWriteGuardFromContext_def Background_def)
  have check: "run_state (checkUpdatedOrExists n (op_ID r) operationGuardNone False) (quiet d') = (Inr (), quiet d')"
    using ex by (simp add: checkUpdatedOrExists_def applyOperationExists_def)
  have mine: "\<not> (ers_ApplyOperationID rs \<noteq> 0 \<and> ers_ApplyOperationID rs \<noteq> op_ID r)"
    using assms(3) by auto
  have "SaveEngineResumeState Background (op_ID r) (Some rs) =
      guarded_update Background (op_ID r) ''save engine resume state'' ?f False"
    unfolding SaveEngineResumeState_def option.case if_not_P [OF mine] Let_def ..
  then have save: "run_state (SaveEngineResumeState Background (op_ID r) (Some rs)) (quiet d) = (Inr (), quiet d')"
    unfolding guarded_update_def guard by (simp only: sum.case run_state_bind run_alone upd prod.case check)
  obtain q where q: "find (\<lambda>q. op_ID q = op_ID r) (apply_operations d') = Some q"
    using ex by (cases "find (\<lambda>q. op_ID q = op_ID r) (apply_operations d')")
      (auto simp: list_ex_iff find_None_iff)
  from find_SomeD [OF q] obtain p where "p \<in> set (apply_operations d)"
    and p: "q = (if ?P d p then on_update (stamp_op d) (?f d) p else p)" and "op_ID q = op_ID r"
    unfolding res(2) set_map by blast
  then have "op_ID p = op_ID r" by (cases "?P d p") simp_all
  then have "q = on_update (stamp_op d) (?f d) p" by (simp add: p guard_holds_def)
  then have "op_EngineResumeContext q = ers_MigrationContext rs" "op_EngineResumeMetadata q = ?m"
    by simp_all
  moreover have "map op_State (apply_operations d') = map op_State (apply_operations d)"
    by (simp add: res(2) comp_def)
  moreover have "?m \<noteq> ''''" by simp
  ultimately show ?thesis
    using save q by (intro exI [of _ d'] conjI) (simp_all only: GetEngineResumeState_def op_Get_def
        run_state_bind run_alone prod.case sum.case option.case if_False run_state_return)
qed

theorem engine_resume_round_trip_witness:
  "\<exists>d'. run_state (SaveEngineResumeState Background 1
      (Some \<lparr>ers_ApplyOperationID = 0, ers_MigrationContext = ''ctx'', ers_Metadata = ''''\<rparr>))
      (quiet (empty_db\<lparr>apply_operations := [example_op 1 ''eu'' ''running'']\<rparr>)) = (Inr (), quiet d')"
  using engine_resume_round_trip [of "empty_db\<lparr>apply_operations := [example_op 1 ''eu'' ''running'']\<rparr>"
      "example_op 1 ''eu'' ''running''"
      "\<lparr>ers_ApplyOperationID = 0, ers_MigrationContext = ''ctx'', ers_Metadata = ''''\<rparr>"]
  by (auto simp: op_ids_distinct_def example_op_def)

text \<open>
  Further fact (insert and look up).  Inserting an operation whose apply, deployment and key are free
  stores it with the documented defaults (pending, rolling, halt, work), and the lookup by that key
  returns it; inserting it again reports that it exists and changes nothing.
\<close>

theorem insert_operation_lookup:
  assumes "find (\<lambda>r. op_unique_key ci r = op_unique_key ci ad) (apply_operations d) = None"
  shows "\<exists>i d' row. run_state (insertApplyOperation ExecContext ci ad) (quiet d) =
      (Inr (i, (with_operation_defaults ad)\<lparr>op_ID := i\<rparr>), quiet d') \<and>
    run_state (GetByApplyDeploymentAndOperationKey ci (op_ApplyID ad) (op_Deployment ad) (op_OperationKey ad))
      (quiet d') = (Inr (Some row), quiet d') \<and>
    op_ID row = i \<and> op_State row = (if op_State ad = '''' then Apply_Pending else op_State ad) \<and>
    op_CutoverPolicy row = (if op_CutoverPolicy ad = '''' then CutoverPolicyRolling else op_CutoverPolicy ad) \<and>
    op_OnFailure row = (if op_OnFailure ad = '''' then OnFailureHalt else op_OnFailure ad) \<and>
    op_LeaseToken row = '''' \<and>
    run_state (insertApplyOperation ExecContext ci ad) (quiet d') = (Inl ErrApplyOperationExists, quiet d')"
proof -
  let ?i = "apply_operations_next d"
  let ?row = "(with_operation_defaults ad)\<lparr>op_ID := ?i, op_Attempt := 0, op_LeaseOwner := '''',
     op_LeaseToken := '''', op_LeaseAcquiredAt := None, op_CreatedAt := now d, op_UpdatedAt := now d\<rparr>"
  let ?d = "d\<lparr>apply_operations := apply_operations d @ [?row], apply_operations_next := ?i + 1\<rparr>"
  have key: "op_unique_key ci (with_operation_defaults ad) = op_unique_key ci ad"
      "op_unique_key ci ?row = op_unique_key ci ad"
    by (simp_all add: op_unique_key_def with_operation_defaults_def)
  have ins: "insert_op ci (with_operation_defaults ad) d = Inr (?d, ?i)"
    using assms by (auto simp: insert_op_def key list_ex_iff find_None_iff)
  have dup: "insert_op ci (with_operation_defaults ad) ?d = Inl duplicate_entry"
    by (simp add: insert_op_def key)
  have "isDuplicateKeyError duplicate_entry"
    by (simp add: isDuplicateKeyError_def duplicate_entry_def)
  then have again: "run_state (insertApplyOperation ExecContext ci ad) (quiet ?d) = (Inl ErrApplyOperationExists, quiet ?d)"
    by (simp add: insertApplyOperation_def dup)
  have look: "find (\<lambda>r. op_unique_key ci r = (op_ApplyID ad, ci (op_Deployment ad), ci (op_OperationKey ad)))
      (apply_operations ?d) = Some ?row"
    using assms key(2) by (simp add: find_append_single op_unique_key_def)
  have first: "run_state (insertApplyOperation ExecContext ci ad) (quiet d) =
      (Inr (?i, (with_operation_defaults ad)\<lparr>op_ID := ?i\<rparr>), quiet ?d)"
    by (simp add: insertApplyOperation_def ins)
  have get: "run_state (GetByApplyDeploymentAndOperationKey ci (op_ApplyID ad) (op_Deployment ad)
      (op_OperationKey ad)) (quiet ?d) = (Inr (Some ?row), quiet ?d)"
    using look by (simp add: GetByApplyDeploymentAndOperationKey_def)
  have fields: "op_ID ?row = ?i" "op_State ?row = (if op_State ad = '''' then Apply_Pending else op_State ad)"
    "op_CutoverPolicy ?row = (if op_CutoverPolicy ad = '''' then CutoverPolicyRolling else op_CutoverPolicy ad)"
    "op_OnFailure ?row = (if op_OnFailure ad = '''' then OnFailureHalt else op_OnFailure ad)"
    "op_LeaseToken ?row = ''''"
    by (simp_all add: with_operation_defaults_def)
  show ?thesis
    by (rule exI [of _ ?i], rule exI [of _ ?d], rule exI [of _ ?row]) (intro conjI first get fields again)
qed

theorem insert_operation_lookup_witness:
  "\<exists>i d'. run_state (insertApplyOperation ExecContext ToLower (example_op 0 ''eu'' '''')) (quiet empty_db) =
      (Inr (i, (with_operation_defaults (example_op 0 ''eu'' ''''))\<lparr>op_ID := i\<rparr>), quiet d')"
  using insert_operation_lookup [of ToLower "example_op 0 ''eu'' ''''" empty_db]
  by (auto simp: empty_db_def)

end
