(* ===== verification/Control_Requests.thy ===== *)
theory Control_Requests
  imports Sql_Store
begin

text \<open>
  Durable control requests (\<^verbatim>\<open>pkg/storage/mysqlstore/control_requests.go\<close>): one row per apply and
  operation records what a user asked for (stop, start, release, ...) until the driver of the apply
  has acted on it.
\<close>

section \<open>The store\<close>

definition cr_row :: "int \<Rightarrow> string \<Rightarrow> ApplyControlRequest \<Rightarrow> bool" where
  "cr_row applyID operation r \<longleftrightarrow> cr_ApplyID r = applyID \<and> cr_Operation r = operation"

definition insert_cr :: "ApplyControlRequest \<Rightarrow> statement" where
  "insert_cr row d =
    (if list_ex (cr_row (cr_ApplyID row) (cr_Operation row)) (control_requests d)
     then Inl duplicate_entry
     else Inr (d\<lparr>control_requests := control_requests d @
                  [row\<lparr>cr_ID := control_requests_next d, cr_CompletedAt := None,
                       cr_CreatedAt := now d, cr_UpdatedAt := now d\<rparr>],
                 control_requests_next := control_requests_next d + 1\<rparr>, control_requests_next d))"

definition update_cr ::
  "(db \<Rightarrow> ApplyControlRequest \<Rightarrow> bool) \<Rightarrow> (db \<Rightarrow> ApplyControlRequest \<Rightarrow> ApplyControlRequest) \<Rightarrow>
   statement" where
  "update_cr P f d =
    Inr (d\<lparr>control_requests := sql_update (P d) (f d) (control_requests d)\<rparr>,
         rows_changed (P d) (f d) (control_requests d))"

text \<open>Rolling back: the row of an UPDATE gets its old image back, an inserted row goes.\<close>

definition undo_update_cr :: "int \<Rightarrow> db \<Rightarrow> db \<Rightarrow> db" where
  "undo_update_cr i old d =
    d\<lparr>control_requests := map (\<lambda>r. if cr_ID r = i
        then (case find (\<lambda>q. cr_ID q = i) (control_requests old) of Some q \<Rightarrow> q | None \<Rightarrow> r)
        else r) (control_requests d)\<rparr>"

definition undo_insert_cr :: "db \<Rightarrow> db \<Rightarrow> db" where
  "undo_insert_cr old d =
    d\<lparr>control_requests := filter (\<lambda>r. cr_ID r \<noteq> control_requests_next old) (control_requests d)\<rparr>"

definition getByIDForUpdate :: "int \<Rightarrow> ApplyControlRequest option prog" where
  "getByIDForUpdate i =
    do {
      r \<leftarrow> QueryContext (\<lambda>d. find (\<lambda>q. cr_ID q = i) (control_requests d));
      case r of
        Inl e \<Rightarrow> State_Monad.return (Inl (Wrapped ''get control request'' e))
      | Inr req \<Rightarrow> State_Monad.return (Inr req)
    }"

definition getByApplyOperationForUpdate :: "int \<Rightarrow> string \<Rightarrow> ApplyControlRequest option prog" where
  "getByApplyOperationForUpdate applyID operation =
    do {
      r \<leftarrow> QueryContext (\<lambda>d. find (cr_row applyID operation) (control_requests d));
      case r of
        Inl e \<Rightarrow> State_Monad.return (Inl (Wrapped ''get control request for apply'' e))
      | Inr req \<Rightarrow> State_Monad.return (Inr req)
    }"

text \<open>Reads the row back in the transaction and commits.\<close>

definition read_back_and_commit ::
  "string \<Rightarrow> int \<Rightarrow> (ApplyControlRequest option \<times> bool) prog" where
  "read_back_and_commit what i =
    do {
      r \<leftarrow> getByIDForUpdate i;
      case r of
        Inl e \<Rightarrow> State_Monad.return (Inl e)
      | Inr req \<Rightarrow>
          do {
            c \<leftarrow> Commit;
            case c of
              Inl e \<Rightarrow> State_Monad.return (Inl (Wrapped what e))
            | Inr _ \<Rightarrow> State_Monad.return (Inr (req, False))
          }
    }"

definition requestPending_tx :: "ApplyControlRequest \<Rightarrow> (ApplyControlRequest option \<times> bool) prog" where
  "requestPending_tx req =
    do {
      r \<leftarrow> getByApplyOperationForUpdate (cr_ApplyID req) (cr_Operation req);
      case r of
        Inl e \<Rightarrow> State_Monad.return (Inl e)
      | Inr existing \<Rightarrow>
          (case existing of
             Some ex \<Rightarrow>
               if cr_Status ex = ControlRequestPending then
                 do {
                   c \<leftarrow> Commit;
                   case c of
                     Inl e \<Rightarrow> State_Monad.return (Inl (Wrapped ''commit pending control request read'' e))
                   | Inr _ \<Rightarrow> State_Monad.return (Inr (Some ex, True))
                 }
               else
                 do {
                   u \<leftarrow> tx_ExecContext (undo_update_cr (cr_ID ex)) (update_cr
                     (\<lambda>d r. cr_ID r = cr_ID ex)
                     (\<lambda>d r. r\<lparr>cr_Status := ControlRequestPending, cr_RequestedBy := cr_RequestedBy req,
                              cr_ErrorMessage := '''', cr_Metadata := nullJSON (cr_Metadata req),
                              cr_CompletedAt := None, cr_UpdatedAt := now d\<rparr>));
                   case u of
                     Inl e \<Rightarrow> State_Monad.return (Inl (Wrapped ''reset control request to pending'' e))
                   | Inr _ \<Rightarrow> read_back_and_commit ''commit reset control request'' (cr_ID ex)
                 }
           | None \<Rightarrow>
               do {
                 u \<leftarrow> tx_ExecContext undo_insert_cr (insert_cr
                   (req\<lparr>cr_Status := ControlRequestPending, cr_Metadata := nullJSON (cr_Metadata req)\<rparr>));
                 case u of
                   Inl e \<Rightarrow> State_Monad.return (Inl (Wrapped ''create control request'' e))
                 | Inr i \<Rightarrow> read_back_and_commit ''commit control request'' i
               })
    }"

definition requestPending :: "ApplyControlRequest \<Rightarrow> (ApplyControlRequest option \<times> bool) prog" where
  "requestPending req =
    do {
      b \<leftarrow> BeginTx;
      case b of
        Inl e \<Rightarrow> State_Monad.return (Inl (Wrapped ''begin control request transaction'' e))
      | Inr _ \<Rightarrow> defer_rollback (requestPending_tx req)
    }"

definition RequestPending :: "ApplyControlRequest \<Rightarrow> (ApplyControlRequest option \<times> bool) prog" where
  "RequestPending req = withLockRetry ''request control request''
    (do {
       r \<leftarrow> requestPending req;
       case r of
         Inr x \<Rightarrow> State_Monad.return (Inr x)
       | Inl attemptErr \<Rightarrow>
           if \<not> isDuplicateKeyError attemptErr then State_Monad.return (Inl attemptErr)
           else
             do {
               r2 \<leftarrow> requestPending req;
               case r2 of
                 Inl e \<Rightarrow>
                   State_Monad.return (Inl (Wrapped ''retry control request after duplicate insert'' e))
               | Inr x \<Rightarrow> State_Monad.return (Inr x)
             }
     })"

definition GetPending :: "int \<Rightarrow> string \<Rightarrow> ApplyControlRequest option prog" where
  "GetPending applyID operation = QueryContext (\<lambda>d.
     find (\<lambda>r. cr_row applyID operation r \<and> cr_Status r = ControlRequestPending)
       (control_requests d))"

definition GetByOperation :: "int \<Rightarrow> string \<Rightarrow> ApplyControlRequest option prog" where
  "GetByOperation applyID operation =
    do {
      r \<leftarrow> QueryContext (\<lambda>d. find (cr_row applyID operation) (control_requests d));
      case r of
        Inl e \<Rightarrow> State_Monad.return (Inl (Wrapped ''get control request for apply'' e))
      | Inr req \<Rightarrow> State_Monad.return (Inr req)
    }"

text \<open>The join with \<^verbatim>\<open>applies\<close> that \<^verbatim>\<open>leaseJoin\<close> and \<^verbatim>\<open>leasePredicate\<close> add.\<close>

definition lease_joined :: "ApplyLease option \<Rightarrow> db \<Rightarrow> int \<Rightarrow> bool" where
  "lease_joined lease d applyID =
    (case lease of
       None \<Rightarrow> True
     | Some l \<Rightarrow> list_ex (\<lambda>a. apply_ID a = applyID \<and> apply_LeaseToken a = al_Token l) (applies d))"

definition settle_pending ::
  "ApplyLease option \<Rightarrow> int \<Rightarrow> string \<Rightarrow>
   (ApplyControlRequest \<Rightarrow> ApplyControlRequest) \<Rightarrow> statement" where
  "settle_pending lease applyID operation f = update_cr
     (\<lambda>d r. cr_row applyID operation r \<and> cr_Status r = ControlRequestPending \<and>
            lease_joined lease d (cr_ApplyID r))
     (\<lambda>d r. (f r)\<lparr>cr_CompletedAt := COALESCE (cr_CompletedAt r) (now d), cr_UpdatedAt := now d\<rparr>)"

definition CompletePending :: "ctx \<Rightarrow> int \<Rightarrow> string \<Rightarrow> unit prog" where
  "CompletePending c applyID operation =
    (case applyLeaseFromContext c applyID of
       Inl e \<Rightarrow> State_Monad.return (Inl e)
     | Inr lease \<Rightarrow>
         do {
           result \<leftarrow> ExecContext (settle_pending lease applyID operation
             (\<lambda>r. r\<lparr>cr_Status := ControlRequestCompleted\<rparr>));
           case result of
             Inl e \<Rightarrow> State_Monad.return (Inl (Wrapped ''complete pending control requests'' e))
           | Inr rows \<Rightarrow>
               (case lease of
                  None \<Rightarrow> State_Monad.return (Inr ())
                | Some l \<Rightarrow>
                    do {
                      z \<leftarrow> confirmLeaseOnZeroRows rows l;
                      case z of
                        Inl e \<Rightarrow> State_Monad.return (Inl e)
                      | Inr _ \<Rightarrow> State_Monad.return (Inr ())
                    })
         })"

definition FailPending :: "ctx \<Rightarrow> int \<Rightarrow> string \<Rightarrow> string \<Rightarrow> unit prog" where
  "FailPending c applyID operation errorMessage =
    (case applyLeaseFromContext c applyID of
       Inl e \<Rightarrow> State_Monad.return (Inl e)
     | Inr lease \<Rightarrow>
         do {
           result \<leftarrow> ExecContext (settle_pending lease applyID operation
             (\<lambda>r. r\<lparr>cr_Status := ControlRequestFailed, cr_ErrorMessage := errorMessage\<rparr>));
           case result of
             Inl e \<Rightarrow> State_Monad.return (Inl (Wrapped ''fail pending control requests'' e))
           | Inr rows \<Rightarrow>
               (case lease of
                  None \<Rightarrow> State_Monad.return (Inr ())
                | Some l \<Rightarrow>
                    do {
                      z \<leftarrow> confirmLeaseOnZeroRows rows l;
                      case z of
                        Inl e \<Rightarrow> State_Monad.return (Inl e)
                      | Inr _ \<Rightarrow> State_Monad.return (Inr ())
                    })
         })"

section \<open>The table as a map\<close>

definition cr_key :: "ApplyControlRequest \<Rightarrow> int \<times> string" where
  "cr_key r = (cr_ApplyID r, cr_Operation r)"

definition request_at :: "db \<Rightarrow> int \<times> string \<Rightarrow> ApplyControlRequest option" where
  "request_at d k = find (\<lambda>r. cr_key r = k) (control_requests d)"

text \<open>The two unique keys, and fresh ids.\<close>

definition cr_ok :: "db \<Rightarrow> bool" where
  "cr_ok d \<longleftrightarrow> distinct (map cr_key (control_requests d)) \<and>
    distinct (map cr_ID (control_requests d)) \<and>
    (\<forall>r\<in>set (control_requests d). cr_ID r < control_requests_next d)"

lemma cr_row_key: "cr_row applyID operation = (\<lambda>r. cr_key r = (applyID, operation))"
  by (auto simp: cr_row_def cr_key_def)

lemma cr_key_update [simp]:
  "cr_key (r\<lparr>cr_ID := i\<rparr>) = cr_key r"
  "cr_key (r\<lparr>cr_Status := s\<rparr>) = cr_key r"
  "cr_key (r\<lparr>cr_RequestedBy := s\<rparr>) = cr_key r"
  "cr_key (r\<lparr>cr_ErrorMessage := s\<rparr>) = cr_key r"
  "cr_key (r\<lparr>cr_Metadata := s\<rparr>) = cr_key r"
  "cr_key (r\<lparr>cr_CompletedAt := t\<rparr>) = cr_key r"
  "cr_key (r\<lparr>cr_CreatedAt := u\<rparr>) = cr_key r"
  "cr_key (r\<lparr>cr_UpdatedAt := u\<rparr>) = cr_key r"
  by (simp_all add: cr_key_def)

lemma request_at_SomeD:
  "request_at d k = Some r \<Longrightarrow> r \<in> set (control_requests d) \<and> cr_key r = k"
  unfolding request_at_def by (auto dest: find_SomeD)

lemma cr_ok_update:
  assumes "cr_ok d" and "\<And>r. cr_key (f d r) = cr_key r" and "\<And>r. cr_ID (f d r) = cr_ID r"
    and "update_cr P f d = Inr (d', n)"
  shows "cr_ok d'"
    and "request_at d' k = map_option (\<lambda>r. if P d r then f d r else r) (request_at d k)"
    and "find (\<lambda>r. cr_ID r = i) (control_requests d') =
      map_option (\<lambda>r. if P d r then f d r else r) (find (\<lambda>r. cr_ID r = i) (control_requests d))"
proof -
  from assms(4) have d': "d' = d\<lparr>control_requests := sql_update (P d) (f d) (control_requests d)\<rparr>"
    by (simp add: update_cr_def)
  show "cr_ok d'"
    using assms(1-3) map_key_sql_update [of cr_key "f d" "P d"] map_key_sql_update [of cr_ID "f d" "P d"]
    by (auto simp: d' cr_ok_def set_sql_update)
  show "request_at d' k = map_option (\<lambda>r. if P d r then f d r else r) (request_at d k)"
    using find_key_update [of cr_key "f d"] assms(1,2) by (simp add: d' request_at_def cr_ok_def)
  show "find (\<lambda>r. cr_ID r = i) (control_requests d') =
      map_option (\<lambda>r. if P d r then f d r else r) (find (\<lambda>r. cr_ID r = i) (control_requests d))"
    using find_key_update [of cr_ID "f d"] assms(1,3) by (simp add: d' cr_ok_def)
qed

lemma cr_ok_insert:
  assumes "cr_ok d" and "request_at d (cr_key row) = None"
  obtains d' i where "insert_cr row d = Inr (d', i)" and "cr_ok d'"
    and "request_at d' = (request_at d)(cr_key row \<mapsto>
      row\<lparr>cr_ID := i, cr_CompletedAt := None, cr_CreatedAt := now d, cr_UpdatedAt := now d\<rparr>)"
    and "find (\<lambda>r. cr_ID r = i) (control_requests d') =
      Some (row\<lparr>cr_ID := i, cr_CompletedAt := None, cr_CreatedAt := now d, cr_UpdatedAt := now d\<rparr>)"
proof -
  let ?i = "control_requests_next d"
  let ?row = "row\<lparr>cr_ID := ?i, cr_CompletedAt := None, cr_CreatedAt := now d, cr_UpdatedAt := now d\<rparr>"
  let ?d = "d\<lparr>control_requests := control_requests d @ [?row], control_requests_next := ?i + 1\<rparr>"
  have new: "\<forall>r\<in>set (control_requests d). cr_key r \<noteq> cr_key row"
    using assms(2) by (auto simp: request_at_def find_None_iff)
  then have "insert_cr row d = Inr (?d, ?i)"
    by (auto simp: insert_cr_def list_ex_iff cr_row_def cr_key_def)
  moreover have "cr_ok ?d"
    using assms(1) new by (fastforce simp: cr_ok_def)
  moreover have "request_at ?d k = ((request_at d)(cr_key row \<mapsto> ?row)) k" for k
    using assms(2) by (cases "k = cr_key row")
      (auto simp: request_at_def find_append_single split: option.splits)
  moreover have "find (\<lambda>r. cr_ID r = ?i) (control_requests ?d) = Some ?row"
    using assms(1) by (auto simp: cr_ok_def find_append_single split: option.split dest!: find_SomeD)
  ultimately show ?thesis by (intro that) auto
qed

section \<open>Requests without interference\<close>

lemma read_back_alone:
  "run_state (read_back_and_commit what i) (alone d us) =
    (Inr (find (\<lambda>q. cr_ID q = i) (control_requests d), False), quiet d)"
  by (simp add: read_back_and_commit_def getByIDForUpdate_def)

lemma requestPending_quiet:
  assumes "cr_ok d" and key: "key = (cr_ApplyID req, cr_Operation req)"
  obtains row d' where "run_state (requestPending req) (quiet d) =
      (Inr (Some row, request_at d key = Some row), quiet d')"
    and "cr_ok d'" and "request_at d' = (request_at d)(key \<mapsto> row)"
    and "cr_Status row = ControlRequestPending"
    and "request_at d key = Some row \<longleftrightarrow>
      (\<exists>ex. request_at d key = Some ex \<and> cr_Status ex = ControlRequestPending)"
    and "request_at d key \<noteq> Some row \<longrightarrow> cr_RequestedBy row = cr_RequestedBy req \<and>
      cr_Metadata row = nullJSON (cr_Metadata req) \<and> cr_CompletedAt row = None"
proof (cases "request_at d key")
  case None
  let ?new = "req\<lparr>cr_Status := ControlRequestPending, cr_Metadata := nullJSON (cr_Metadata req)\<rparr>"
  have "cr_key ?new = key" by (simp add: key cr_key_def)
  with None cr_ok_insert [OF assms(1), of ?new] obtain d' i where
    ins: "insert_cr ?new d = Inr (d', i)" and ok: "cr_ok d'"
    and tab: "request_at d' = (request_at d)(key \<mapsto>
      ?new\<lparr>cr_ID := i, cr_CompletedAt := None, cr_CreatedAt := now d, cr_UpdatedAt := now d\<rparr>)"
    and rb: "find (\<lambda>r. cr_ID r = i) (control_requests d') =
      Some (?new\<lparr>cr_ID := i, cr_CompletedAt := None, cr_CreatedAt := now d, cr_UpdatedAt := now d\<rparr>)"
    by metis
  show ?thesis
    by (rule that [OF _ ok tab]) (use None in \<open>simp_all add: requestPending_def requestPending_tx_def
      getByApplyOperationForUpdate_def cr_row_key ins read_back_alone rb
      request_at_def [symmetric] key [symmetric]\<close>)
next
  case (Some ex)
  show ?thesis
  proof (cases "cr_Status ex = ControlRequestPending")
    case True
    then show ?thesis
      by (intro that [of ex d]) (use Some assms(1) in \<open>auto simp: requestPending_def requestPending_tx_def
        getByApplyOperationForUpdate_def cr_row_key request_at_def [symmetric] key [symmetric]\<close>)
  next
    case False
    let ?f = "\<lambda>d r. r\<lparr>cr_Status := ControlRequestPending, cr_RequestedBy := cr_RequestedBy req,
       cr_ErrorMessage := '''', cr_Metadata := nullJSON (cr_Metadata req),
       cr_CompletedAt := None, cr_UpdatedAt := now d\<rparr>"
    let ?P = "\<lambda>d r. cr_ID r = cr_ID ex"
    obtain d' n where upd: "update_cr ?P ?f d = Inr (d', n)" by (simp add: update_cr_def)
    note u = cr_ok_update [OF assms(1) _ _ upd]
    have ex: "ex \<in> set (control_requests d)" "cr_key ex = key"
      using request_at_SomeD [OF Some] by auto
    have only: "r = ex" if "r \<in> set (control_requests d)" "cr_ID r = cr_ID ex" for r
      using assms(1) ex(1) that by (auto simp: cr_ok_def distinct_map inj_on_def)
    have rb: "find (\<lambda>q. cr_ID q = cr_ID ex) (control_requests d') = Some (?f d ex)"
    proof -
      obtain q where q: "find (\<lambda>q. cr_ID q = cr_ID ex) (control_requests d) = Some q"
        using ex(1) by (cases "find (\<lambda>q. cr_ID q = cr_ID ex) (control_requests d)")
          (auto simp: find_None_iff)
      with find_SomeD [OF q] only have "q = ex" by auto
      with q show ?thesis by (simp add: u(3))
    qed
    have tab: "request_at d' = (request_at d)(key \<mapsto> ?f d ex)"
    proof
      fix k
      have look: "request_at d' k = map_option (\<lambda>r. if ?P d r then ?f d r else r) (request_at d k)"
        by (rule u(2)) simp_all
      show "request_at d' k = ((request_at d)(key \<mapsto> ?f d ex)) k"
      proof (cases "k = key")
        case True
        then show ?thesis using Some look by simp
      next
        case False
        have "cr_ID r \<noteq> cr_ID ex" if "request_at d k = Some r" for r
          using request_at_SomeD [OF that] only [of r] ex(2) False by auto
        with False look show ?thesis by (cases "request_at d k") simp_all
      qed
    qed
    have run: "run_state (requestPending req) (quiet d) = (Inr (Some (?f d ex), False), quiet d')"
      using Some False by (simp add: requestPending_def requestPending_tx_def
        getByApplyOperationForUpdate_def cr_row_key upd read_back_alone rb
        request_at_def [symmetric] key [symmetric])
    have ne: "ex \<noteq> ?f d ex"
    proof
      assume "ex = ?f d ex"
      from arg_cong [OF this, of cr_Status] False show False by simp
    qed
    have ok: "cr_ok d'" by (rule u(1)) simp_all
    show ?thesis
      by (rule that [OF _ ok tab]) (use Some False run ne in simp_all)
  qed
qed

lemma RequestPending_quiet:
  assumes "run_state (requestPending req) (quiet d) = (Inr x, w)"
  shows "run_state (RequestPending req) (quiet d) = (Inr x, w)"
  unfolding RequestPending_def by (rule run_retry_first) (simp_all add: assms)

section \<open>Settling a request\<close>

lemma settle_pending_at:
  assumes "cr_ok d" and "\<And>r. cr_key (f r) = cr_key r" and "\<And>r. cr_ID (f r) = cr_ID r"
    and "settle_pending lease applyID operation f d = Inr (d', n)"
  shows "cr_ok d'"
    and "request_at d' k = map_option (\<lambda>r.
      if cr_row applyID operation r \<and> cr_Status r = ControlRequestPending \<and>
         lease_joined lease d (cr_ApplyID r)
      then (f r)\<lparr>cr_CompletedAt := COALESCE (cr_CompletedAt r) (now d), cr_UpdatedAt := now d\<rparr>
      else r) (request_at d k)"
proof -
  note upd = assms(4) [unfolded settle_pending_def]
  show "cr_ok d'"
    by (rule cr_ok_update(1) [OF assms(1) _ _ upd]) (simp_all add: assms(2,3))
  show "request_at d' k = map_option (\<lambda>r.
      if cr_row applyID operation r \<and> cr_Status r = ControlRequestPending \<and>
         lease_joined lease d (cr_ApplyID r)
      then (f r)\<lparr>cr_CompletedAt := COALESCE (cr_CompletedAt r) (now d), cr_UpdatedAt := now d\<rparr>
      else r) (request_at d k)"
    by (rule cr_ok_update(2) [OF assms(1) _ _ upd]) (simp_all add: assms(2,3))
qed

lemma settle_pending_lost:
  assumes "\<not> lease_current lease d" and "al_ApplyID lease = applyID"
  shows "settle_pending (Some lease) applyID operation f d = Inr (d, 0)"
proof -
  have "(\<lambda>r. cr_row applyID operation r \<and> cr_Status r = ControlRequestPending \<and>
      lease_joined (Some lease) d (cr_ApplyID r)) = (\<lambda>_. False)"
    using assms by (auto simp: lease_joined_def lease_current_def list_ex_iff cr_row_def fun_eq_iff)
  then show ?thesis
    by (simp add: settle_pending_def update_cr_def sql_update_def rows_changed_def)
qed

lemma settle_without_lease:
  assumes "cr_ok d"
    and "settle_pending None (fst k) (snd k) f d = Inr (d', n)"
    and "\<And>r. cr_key (f r) = cr_key r" and "\<And>r. cr_ID (f r) = cr_ID r"
  shows "cr_ok d'"
    and "(\<lambda>k'. map_option cr_Status (request_at d' k')) =
      (if map_option cr_Status (request_at d k) = Some ControlRequestPending
       then (\<lambda>k'. map_option cr_Status (request_at d k'))
         (k := map_option (\<lambda>r. cr_Status (f r)) (request_at d k))
       else (\<lambda>k'. map_option cr_Status (request_at d k')))"
proof -
  note u = settle_pending_at [OF assms(1,3,4) assms(2)]
  show "cr_ok d'" by (rule u(1))
  show "(\<lambda>k'. map_option cr_Status (request_at d' k')) =
      (if map_option cr_Status (request_at d k) = Some ControlRequestPending
       then (\<lambda>k'. map_option cr_Status (request_at d k'))
         (k := map_option (\<lambda>r. cr_Status (f r)) (request_at d k))
       else (\<lambda>k'. map_option cr_Status (request_at d k')))"
  proof
    fix k'
    show "map_option cr_Status (request_at d' k') =
      (if map_option cr_Status (request_at d k) = Some ControlRequestPending
       then (\<lambda>k'. map_option cr_Status (request_at d k'))
         (k := map_option (\<lambda>r. cr_Status (f r)) (request_at d k))
       else (\<lambda>k'. map_option cr_Status (request_at d k'))) k'"
    proof (cases "request_at d k'")
      case (Some r)
      with request_at_SomeD [OF Some] show ?thesis
        by (cases "k' = k") (simp_all add: u(2) cr_row_key lease_joined_def)
    next
      case None
      then show ?thesis by (cases "k' = k") (simp_all add: u(2))
    qed
  qed
qed

section \<open>The interface drivers rely on\<close>

text \<open>
  A store of user intent: a status per apply and operation, recorded by \<open>request\<close> (whose result says
  whether the same request was pending already) and settled once by the driver.
\<close>

locale control_intent =
  fixes request :: "ApplyControlRequest \<Rightarrow> 's \<Rightarrow> bool \<times> 's"
    and settle :: "bool \<Rightarrow> int \<times> string \<Rightarrow> 's \<Rightarrow> 's"
    and status :: "'s \<Rightarrow> int \<times> string \<Rightarrow> string option"
    and inv :: "'s \<Rightarrow> bool"
  assumes request_status: "inv s \<Longrightarrow> request q s = (already, s') \<Longrightarrow>
      inv s' \<and> status s' = (status s)(cr_key q \<mapsto> ControlRequestPending) \<and>
      (already \<longleftrightarrow> status s (cr_key q) = Some ControlRequestPending)"
    and settle_status: "inv s \<Longrightarrow> inv (settle good k s) \<and> status (settle good k s) =
      (if status s k = Some ControlRequestPending
       then (status s)(k \<mapsto> if good then ControlRequestCompleted else ControlRequestFailed)
       else status s)"
begin

lemma request_idempotent:
  assumes "inv s" and "request q s = (a, s1)" and "request q' s1 = (b, s2)" and "cr_key q' = cr_key q"
  shows "b \<and> status s2 = status s1"
proof -
  from request_status [OF assms(1,2)] have "inv s1" and "status s1 (cr_key q) = Some ControlRequestPending"
    by auto
  with request_status [OF \<open>inv s1\<close> assms(3)] assms(4) show ?thesis by auto
qed

definition latched :: "int \<Rightarrow> 's \<Rightarrow> bool" where
  "latched applyID s \<longleftrightarrow> status s (applyID, ControlOperationRelease) \<in>
     {Some ControlRequestPending, Some ControlRequestCompleted}"

lemma latched_request:
  assumes "inv s" and "latched a s"
  shows "inv (snd (request q s)) \<and> latched a (snd (request q s))"
  using request_status [OF assms(1), of q "fst (request q s)" "snd (request q s)"] assms(2)
  by (auto simp: latched_def)

lemma latched_settle:
  assumes "inv s" and "latched a s" and "good \<or> k \<noteq> (a, ControlOperationRelease)"
  shows "inv (settle good k s) \<and> latched a (settle good k s)"
  using settle_status [OF assms(1), of good k] assms(2,3) by (auto simp: latched_def)

end

definition request_on :: "ApplyControlRequest \<Rightarrow> db \<Rightarrow> bool \<times> db" where
  "request_on q d = (case run_state (RequestPending q) (quiet d) of
     (Inr (_, already), w) \<Rightarrow> (already, w_db w) | (Inl _, w) \<Rightarrow> (False, w_db w))"

definition settle_on :: "bool \<Rightarrow> int \<times> string \<Rightarrow> db \<Rightarrow> db" where
  "settle_on good k d = w_db (snd (run_state
     (if good then CompletePending Background (fst k) (snd k)
      else FailPending Background (fst k) (snd k) ''failed'') (quiet d)))"

definition status_on :: "db \<Rightarrow> int \<times> string \<Rightarrow> string option" where
  "status_on d k = map_option cr_Status (request_at d k)"

lemma request_on_status:
  assumes "cr_ok d" and "request_on q d = (already, d')"
  shows "cr_ok d' \<and> status_on d' = (status_on d)(cr_key q \<mapsto> ControlRequestPending) \<and>
    (already \<longleftrightarrow> status_on d (cr_key q) = Some ControlRequestPending)"
proof (rule requestPending_quiet [OF assms(1) cr_key_def [of q]])
  fix row d1
  assume run: "run_state (requestPending q) (quiet d) =
      (Inr (Some row, request_at d (cr_key q) = Some row), quiet d1)"
    and ok: "cr_ok d1" and tab: "request_at d1 = (request_at d)(cr_key q \<mapsto> row)"
    and st: "cr_Status row = ControlRequestPending"
    and al: "request_at d (cr_key q) = Some row \<longleftrightarrow>
      (\<exists>ex. request_at d (cr_key q) = Some ex \<and> cr_Status ex = ControlRequestPending)"
  from RequestPending_quiet [OF run] assms(2)
  have "already \<longleftrightarrow> request_at d (cr_key q) = Some row" and "d' = d1"
    by (auto simp: request_on_def)
  with ok tab st al show ?thesis by (auto simp: status_on_def fun_eq_iff)
qed

lemma settle_on_status:
  assumes "cr_ok d"
  shows "cr_ok (settle_on good k d) \<and> status_on (settle_on good k d) =
      (if status_on d k = Some ControlRequestPending
       then (status_on d)(k \<mapsto> if good then ControlRequestCompleted else ControlRequestFailed)
       else status_on d)"
proof -
  let ?f = "\<lambda>r. if good then r\<lparr>cr_Status := ControlRequestCompleted\<rparr>
    else r\<lparr>cr_Status := ControlRequestFailed, cr_ErrorMessage := ''failed''\<rparr>"
  obtain d' n where s: "settle_pending None (fst k) (snd k) ?f d = Inr (d', n)"
    by (simp add: settle_pending_def update_cr_def)
  have "settle_on good k d = d'"
    using s by (cases good) (simp_all add: settle_on_def CompletePending_def FailPending_def
        applyLeaseFromContext_def Background_def)
  moreover have keep: "cr_key (?f r) = cr_key r" "cr_ID (?f r) = cr_ID r" for r by simp_all
  from settle_without_lease [OF assms s keep]
  have "cr_ok d'" and "status_on d' = (if status_on d k = Some ControlRequestPending
       then (status_on d)(k := map_option (\<lambda>r. cr_Status (?f r)) (request_at d k)) else status_on d)"
    by (simp_all only: status_on_def [abs_def])
  ultimately show ?thesis by (auto simp: status_on_def)
qed

interpretation control_store: control_intent request_on settle_on status_on cr_ok
  by unfold_locales (rule request_on_status settle_on_status; assumption)+

section \<open>Properties\<close>

definition example_request :: "string \<Rightarrow> string \<Rightarrow> ApplyControlRequest" where
  "example_request operation by = \<lparr>cr_ID = 0, cr_ApplyID = 7, cr_Operation = operation, cr_Status = '''',
     cr_RequestedBy = by, cr_ErrorMessage = '''', cr_Metadata = '''', cr_CompletedAt = None,
     cr_CreatedAt = 0, cr_UpdatedAt = 0\<rparr>"

text \<open>
  Further fact (a request is durable and unique).  Without interference \<^verbatim>\<open>RequestPending\<close> never fails:
  it returns the row of the apply and operation, which is pending in the table afterwards; the row
  is reported as already pending exactly when a pending row existed, which is then returned
  unchanged with its original requester; otherwise the row carries the new requester and metadata
  and no completion time; no other request changes and the unique keys are kept.
\<close>

theorem request_pending_exact:
  assumes "cr_ok d"
  shows "\<exists>row d'. run_state (RequestPending req) (quiet d) =
      (Inr (Some row, request_at d (cr_key req) = Some row), quiet d') \<and>
    cr_ok d' \<and> request_at d' = (request_at d)(cr_key req \<mapsto> row) \<and>
    cr_Status row = ControlRequestPending \<and>
    (request_at d (cr_key req) = Some row \<longleftrightarrow>
      (\<exists>ex. request_at d (cr_key req) = Some ex \<and> cr_Status ex = ControlRequestPending)) \<and>
    (request_at d (cr_key req) \<noteq> Some row \<longrightarrow> cr_RequestedBy row = cr_RequestedBy req \<and>
      cr_Metadata row = nullJSON (cr_Metadata req) \<and> cr_CompletedAt row = None)"
  by (rule requestPending_quiet [OF assms cr_key_def [of req]]) (use RequestPending_quiet in blast)

theorem request_pending_exact_witness:
  "\<exists>row d'. run_state (RequestPending (example_request ''stop'' ''alice'')) (quiet empty_db) =
      (Inr (Some row, request_at empty_db (7, ''stop'') = Some row), quiet d')"
proof -
  have "cr_ok empty_db" by (simp add: cr_ok_def empty_db_def)
  from request_pending_exact [OF this, of "example_request ''stop'' ''alice''"] show ?thesis
    by (auto simp: cr_key_def example_request_def)
qed

text \<open>
  Further fact (the insert race has one winner).  When another session commits its pending request
  for the same apply and operation between this session's read and its insert, this session's
  duplicate-key error is resolved by a second read: it returns the winner's row as already pending,
  and the table holds just the winner's row for the key.
\<close>

theorem request_race_returns_winner:
  assumes "cr_ok d" and "request_at d (cr_key req) = None" and "cr_key winner = cr_key req"
    and "cr_Status winner = ControlRequestPending"
  shows "run_state (RequestPending req)
      \<lparr>w_db = d, w_undo = [], w_turns = [Turn id None, Turn id None,
         Turn (\<lambda>d. d\<lparr>control_requests := control_requests d @ [winner]\<rparr>) None]\<rparr> =
    (Inr (Some winner, True), quiet (d\<lparr>control_requests := control_requests d @ [winner]\<rparr>))"
proof -
  let ?d = "d\<lparr>control_requests := control_requests d @ [winner]\<rparr>"
  let ?new = "req\<lparr>cr_Status := ControlRequestPending, cr_Metadata := nullJSON (cr_Metadata req)\<rparr>"
  have sel: "find (cr_row (cr_ApplyID req) (cr_Operation req)) (control_requests d) = None"
      "find (cr_row (cr_ApplyID req) (cr_Operation req)) (control_requests d @ [winner]) = Some winner"
    using assms(2,3) by (simp_all add: request_at_def cr_row_key cr_key_def find_append_single)
  have ins: "insert_cr ?new ?d = Inl duplicate_entry"
    using assms(3) by (simp add: insert_cr_def cr_row_key cr_key_def)
  have dup: "isDuplicateKeyError (Wrapped m duplicate_entry)" for m
    by (simp add: isDuplicateKeyError_def duplicate_entry_def)
  have turn: "next_turn \<lparr>w_db = d0, w_undo = u, w_turns = Turn f None # ts\<rparr> =
      (None, \<lparr>w_db = f d0, w_undo = u, w_turns = ts\<rparr>)" for d0 u f ts
    by (simp add: next_turn_def)
  have fin: "\<lparr>w_db = d0, w_undo = u, w_turns = []\<rparr> = alone d0 u" for d0 u
    by (simp add: alone_def)
  have one: "run_state (requestPending req) \<lparr>w_db = d, w_undo = [], w_turns = [Turn id None, Turn id None,
         Turn (\<lambda>d. d\<lparr>control_requests := control_requests d @ [winner]\<rparr>) None]\<rparr> =
      (Inl (Wrapped ''create control request'' duplicate_entry), quiet ?d)"
    by (simp add: requestPending_def requestPending_tx_def getByApplyOperationForUpdate_def BeginTx_def
        QueryContext_def tx_ExecContext_def turn sel ins fin)
  have two: "run_state (requestPending req) (quiet ?d) = (Inr (Some winner, True), quiet ?d)"
    using assms(4) by (simp add: requestPending_def requestPending_tx_def
        getByApplyOperationForUpdate_def sel)
  show ?thesis
    unfolding RequestPending_def by (rule run_retry_first) (simp_all add: one two dup)
qed

theorem request_race_returns_winner_witness:
  "run_state (RequestPending (example_request ''stop'' ''alice''))
      \<lparr>w_db = empty_db, w_undo = [], w_turns = [Turn id None, Turn id None,
         Turn (\<lambda>d. d\<lparr>control_requests := control_requests d @
           [(example_request ''stop'' ''bob'')\<lparr>cr_Status := ControlRequestPending\<rparr>]\<rparr>) None]\<rparr> =
    (Inr (Some ((example_request ''stop'' ''bob'')\<lparr>cr_Status := ControlRequestPending\<rparr>), True),
     quiet (empty_db\<lparr>control_requests := control_requests empty_db @
           [(example_request ''stop'' ''bob'')\<lparr>cr_Status := ControlRequestPending\<rparr>]\<rparr>))"
  by (rule request_race_returns_winner)
    (simp_all add: cr_ok_def empty_db_def request_at_def cr_key_def example_request_def)

datatype control_step = Requested ApplyControlRequest | Settled bool "int \<times> string"

fun control_run :: "control_step list \<Rightarrow> db \<Rightarrow> db" where
  "control_run [] d = d"
| "control_run (Requested q # ss) d = control_run ss (snd (request_on q d))"
| "control_run (Settled good k # ss) d = control_run ss (settle_on good k d)"

text \<open>
  Further fact (release is a one-way latch).  Once a release of an apply is pending or completed, it
  stays so over any sequence of further requests and settlements, of any operation, as long as the
  release itself is not failed; this is the latch \<^verbatim>\<open>ReleasesPausedRollout\<close> reads.
\<close>

theorem release_latch_persists:
  assumes "cr_ok d" and "ReleasesPausedRollout (request_at d (applyID, ControlOperationRelease))"
    and "Settled False (applyID, ControlOperationRelease) \<notin> set ss"
  shows "ReleasesPausedRollout (request_at (control_run ss d) (applyID, ControlOperationRelease))"
proof -
  have latch: "control_store.latched applyID d \<longleftrightarrow>
      ReleasesPausedRollout (request_at d (applyID, ControlOperationRelease))" for d
    using request_at_SomeD [of d "(applyID, ControlOperationRelease)"]
    by (auto simp: control_store.latched_def ReleasesPausedRollout_def status_on_def cr_key_def
        split: option.splits)
  have "cr_ok (control_run ss d) \<and> control_store.latched applyID (control_run ss d)"
    if "cr_ok d" "control_store.latched applyID d"
      "Settled False (applyID, ControlOperationRelease) \<notin> set ss" for d
    using that
  proof (induction ss d rule: control_run.induct)
    case (2 q ss d)
    with control_store.latched_request [OF 2(2,3), of q] show ?case by simp
  next
    case (3 good k ss d)
    with control_store.latched_settle [OF 3(2,3), of good k] show ?case by auto
  qed simp
  from this [OF assms(1)] assms(2,3) show ?thesis by (simp add: latch)
qed

theorem release_latch_persists_witness:
  "ReleasesPausedRollout (request_at (control_run
     [Requested (example_request ''stop'' ''bob''), Settled True (7, ''release'')]
     (empty_db\<lparr>control_requests := [(example_request ''release'' ''alice'')\<lparr>cr_Status := ControlRequestPending\<rparr>]\<rparr>))
     (7, ControlOperationRelease))"
  by (rule release_latch_persists)
    (simp_all add: cr_ok_def empty_db_def request_at_def cr_key_def example_request_def
      ReleasesPausedRollout_def)

text \<open>
  Property C39 (a displaced driver cannot settle requests).  With an apply lease in its context whose
  token is no longer the one stored on the apply, completing or failing a request changes nothing
  and reports ErrApplyLeaseLost.
\<close>

theorem settle_needs_current_lease:
  assumes "ApplyLeaseFromContext c = Some lease" and "ApplyLease_Valid lease"
    and "\<not> lease_current lease d"
  shows "(\<exists>e. run_state (CompletePending c (al_ApplyID lease) operation) (quiet d) = (Inl e, quiet d) \<and>
      errors_Is e ErrApplyLeaseLost) \<and>
    (\<exists>e. run_state (FailPending c (al_ApplyID lease) operation msg) (quiet d) = (Inl e, quiet d) \<and>
      errors_Is e ErrApplyLeaseLost)"
  using assms
  by (simp add: CompletePending_def FailPending_def applyLeaseFromContext_def settle_pending_lost
      confirmLeaseOnZeroRows_def ensureApplyLeaseStillOwned_def applyLeaseMatches_def)

theorem settle_needs_current_lease_witness:
  "\<exists>e. run_state (CompletePending
      (WithApplyLease Background \<lparr>al_ApplyID = 7, al_Owner = ''pod-1'', al_Token = ''t1''\<rparr>) 7 ''stop'')
      (quiet empty_db) = (Inl e, quiet empty_db) \<and> errors_Is e ErrApplyLeaseLost"
  using settle_needs_current_lease [of
      "WithApplyLease Background \<lparr>al_ApplyID = 7, al_Owner = ''pod-1'', al_Token = ''t1''\<rparr>"
      "\<lparr>al_ApplyID = 7, al_Owner = ''pod-1'', al_Token = ''t1''\<rparr>" empty_db "''stop''"]
  by (simp add: WithApplyLease_def ApplyLease_Valid_def lease_current_def empty_db_def)

end
