(* ===== verification/Operation_Claims.thy ===== *)
theory Operation_Claims
  imports Apply_Operations Control_Requests
begin

text \<open>
  Claiming operations (\<^verbatim>\<open>FindNextApplyOperation\<close> and \<^verbatim>\<open>FindNextApplyOperationCutover\<close> of
  \<^verbatim>\<open>pkg/storage/mysqlstore/apply_operations.go\<close>).  Each claim selects the first claimable row in
  deployment order, skipping rows other sessions have locked, and moves it to the claimer with a
  second statement in the same transaction.  Parameters of a claim are the collation \<open>ci\<close>, the rows
  \<open>locked\<close> by other sessions, the claimer, its new lease token and its clock.
\<close>

section \<open>The claim predicates\<close>

definition claimableApplyStates :: "string list" where
  "claimableApplyStates =
    [Apply_Running, Apply_RunningDegraded, Apply_Resuming, Apply_WaitingForDeploy,
     Apply_WaitingForCutover, Apply_Recovering, ''recovering_cutover'', Apply_CuttingOver,
     Apply_RevertWindow, Apply_Reverting, Apply_SkippingRevert, Apply_PreparingBranch,
     Apply_ApplyingBranchChanges, Apply_ValidatingBranch, Apply_CreatingDeployRequest,
     Apply_ValidatingDeployRequest]"

definition control_pending :: "db \<Rightarrow> int \<Rightarrow> string \<Rightarrow> bool" where
  "control_pending d applyID operation \<longleftrightarrow>
    list_ex (\<lambda>cr. cr_ApplyID cr = applyID \<and> cr_Operation cr = operation \<and>
                  cr_Status cr = ControlRequestPending) (control_requests d)"

text \<open>The condition under the NOT of \<^verbatim>\<open>releasedFailureExemptionSQL\<close>.\<close>

definition released_failure :: "db \<Rightarrow> ApplyOperation \<Rightarrow> ApplyOperation \<Rightarrow> bool" where
  "released_failure d r earlier \<longleftrightarrow>
    op_State earlier = Apply_Failed \<and>
    (op_OnFailure r = OnFailureContinue \<or>
     (op_OnFailure r = OnFailurePause \<and>
      list_ex (\<lambda>cr. cr_ApplyID cr = op_ApplyID r \<and> cr_Operation cr = ControlOperationRelease \<and>
                    cr_Status cr \<in> {ControlRequestPending, ControlRequestCompleted})
        (control_requests d)))"

text \<open>The sibling gate on starting ordinary work: an earlier deployment is in the way.\<close>

definition copy_blocked :: "(string \<Rightarrow> string) \<Rightarrow> db \<Rightarrow> ApplyOperation \<Rightarrow> bool" where
  "copy_blocked ci d r \<longleftrightarrow>
    list_ex (\<lambda>earlier.
      op_ApplyID earlier = op_ApplyID r \<and>
      ci (op_Deployment earlier) \<noteq> ci (op_Deployment r) \<and>
      op_before earlier r \<and>
      ((op_CutoverPolicy r = CutoverPolicyBarrier \<and>
        op_State earlier \<notin> {Apply_WaitingForCutover, Apply_CuttingOver, Apply_RevertWindow,
                             Apply_Completed}) \<or>
       (op_CutoverPolicy r \<notin> {CutoverPolicyBarrier, CutoverPolicyParallel} \<and>
        op_State earlier \<noteq> Apply_Completed)) \<and>
      \<not> released_failure d r earlier) (apply_operations d)"

text \<open>\<^verbatim>\<open>SUBSTRING_INDEX(key, '/', 1)\<close>: the namespace of an operation key.\<close>

definition key_namespace :: "string \<Rightarrow> string" where
  "key_namespace k = takeWhile (\<lambda>c. c \<noteq> CHR ''/'') k"

definition finalizer_blocked :: "(string \<Rightarrow> string) \<Rightarrow> db \<Rightarrow> ApplyOperation \<Rightarrow> bool" where
  "finalizer_blocked ci d r \<longleftrightarrow>
    list_ex (\<lambda>sibling.
      op_ApplyID sibling = op_ApplyID r \<and>
      ci (op_Deployment sibling) = ci (op_Deployment r) \<and>
      op_OperationKind sibling = ApplyOperationKindWork \<and>
      ci (key_namespace (op_OperationKey sibling)) = ci (key_namespace (op_OperationKey r)) \<and>
      op_State sibling \<noteq> Apply_Completed) (apply_operations d)"

definition pending_claimable :: "(string \<Rightarrow> string) \<Rightarrow> db \<Rightarrow> ApplyOperation \<Rightarrow> bool" where
  "pending_claimable ci d r \<longleftrightarrow>
    op_State r = Apply_Pending \<and>
    ((op_OperationKind r \<noteq> ApplyOperationKindGroupFinalizer \<and> \<not> copy_blocked ci d r) \<or>
     (op_OperationKind r = ApplyOperationKindGroupFinalizer \<and> \<not> finalizer_blocked ci d r)) \<and>
    \<not> control_pending d (op_ApplyID r) ControlOperationStop"

definition has_sibling :: "db \<Rightarrow> ApplyOperation \<Rightarrow> bool" where
  "has_sibling d r \<longleftrightarrow>
    list_ex (\<lambda>s. op_ApplyID s = op_ApplyID r \<and> op_ID s \<noteq> op_ID r) (apply_operations d)"

definition stale_claimable :: "db \<Rightarrow> ApplyOperation \<Rightarrow> bool" where
  "stale_claimable d r \<longleftrightarrow>
    op_State r \<in> set claimableApplyStates \<and>
    op_UpdatedAt r < now d - ApplyLeaseStaleAfter \<and>
    \<not> (op_State r = Apply_WaitingForCutover \<and>
       op_CutoverPolicy r \<in> {CutoverPolicyBarrier, CutoverPolicyParallel} \<and> has_sibling d r)"

definition resume_claimable :: "db \<Rightarrow> ApplyOperation \<Rightarrow> bool" where
  "resume_claimable d r \<longleftrightarrow>
    op_State r = Apply_Stopped \<and> control_pending d (op_ApplyID r) ControlOperationStart"

definition deferred_deploy_claimable :: "db \<Rightarrow> ApplyOperation \<Rightarrow> bool" where
  "deferred_deploy_claimable d r \<longleftrightarrow>
    op_State r \<in> set claimableApplyStates \<and>
    list_ex (\<lambda>a. apply_ID a = op_ApplyID r \<and> apply_State a = Apply_WaitingForDeploy) (applies d) \<and>
    list_ex (\<lambda>cr. cr_ApplyID cr = op_ApplyID r \<and> cr_Operation cr = ControlOperationStart \<and>
                  cr_Status cr = ControlRequestPending \<and>
                  (op_LeaseAcquiredAt r = None \<or>
                   (case op_LeaseAcquiredAt r of Some t \<Rightarrow> t < cr_UpdatedAt cr | None \<Rightarrow> False) \<or>
                   op_UpdatedAt r < now d - ApplyLeaseStaleAfter)) (control_requests d)"

definition retryableRecoveryFreshness :: int where
  "retryableRecoveryFreshness = 86400"

definition retry_claimable :: "db \<Rightarrow> ApplyOperation \<Rightarrow> bool" where
  "retry_claimable d r \<longleftrightarrow>
    op_State r = Apply_FailedRetryable \<and>
    list_ex (\<lambda>a. apply_ID a = op_ApplyID r \<and>
      ((apply_State a = Apply_FailedRetryable \<and> apply_Attempt a < MaxRecoveryAttempts \<and>
        apply_UpdatedAt a \<ge> now d - retryableRecoveryFreshness) \<or>
       (apply_State a \<in> set claimableApplyStates \<and>
        apply_UpdatedAt a < now d - ApplyLeaseStaleAfter))) (applies d)"

definition claimable :: "(string \<Rightarrow> string) \<Rightarrow> db \<Rightarrow> ApplyOperation \<Rightarrow> bool" where
  "claimable ci d r \<longleftrightarrow>
    pending_claimable ci d r \<or> stale_claimable d r \<or> resume_claimable d r \<or>
    deferred_deploy_claimable d r \<or> retry_claimable d r"

text \<open>\<^verbatim>\<open>ORDER BY created_at, id LIMIT 1 FOR UPDATE SKIP LOCKED\<close>.\<close>

fun first_op :: "ApplyOperation list \<Rightarrow> ApplyOperation option" where
  "first_op [] = None"
| "first_op (r # rs) =
    (case first_op rs of
       None \<Rightarrow> Some r
     | Some m \<Rightarrow> if op_before m r then Some m else Some r)"

definition select_op ::
  "(db \<Rightarrow> ApplyOperation \<Rightarrow> bool) \<Rightarrow> (int \<Rightarrow> bool) \<Rightarrow> db \<Rightarrow> ApplyOperation option" where
  "select_op P locked d =
    first_op (filter (\<lambda>r. P d r \<and> \<not> locked (op_ID r)) (apply_operations d))"

section \<open>Claiming work\<close>

definition undo_update_op :: "int \<Rightarrow> db \<Rightarrow> db \<Rightarrow> db" where
  "undo_update_op i old d =
    d\<lparr>apply_operations := map (\<lambda>r. if op_ID r = i
        then (case find (\<lambda>q. op_ID q = i) (apply_operations old) of Some q \<Rightarrow> q | None \<Rightarrow> r)
        else r) (apply_operations d)\<rparr>"

definition undo_update_apply :: "int \<Rightarrow> db \<Rightarrow> db \<Rightarrow> db" where
  "undo_update_apply i old d =
    d\<lparr>applies := map (\<lambda>a. if apply_ID a = i
        then (case find (\<lambda>q. apply_ID q = i) (applies old) of Some q \<Rightarrow> q | None \<Rightarrow> a)
        else a) (applies d)\<rparr>"

definition lease_op :: "string \<Rightarrow> string \<Rightarrow> db \<Rightarrow> ApplyOperation \<Rightarrow> ApplyOperation" where
  "lease_op owner leaseToken d r = r\<lparr>op_UpdatedAt := now d, op_LeaseOwner := owner,
     op_LeaseToken := leaseToken, op_LeaseAcquiredAt := Some (now d)\<rparr>"

text \<open>Commits and returns the row as selected, with the new lease.\<close>

definition commit_claim ::
  "string \<Rightarrow> string \<Rightarrow> int \<Rightarrow> ApplyOperation \<Rightarrow> ApplyOperation option prog" where
  "commit_claim owner leaseToken leaseAcquiredAt ad =
    do {
      c \<leftarrow> Commit;
      case c of
        Inl e \<Rightarrow> State_Monad.return (Inl (Wrapped ''commit claim apply_operation'' e))
      | Inr _ \<Rightarrow> State_Monad.return (Inr (Some (ad\<lparr>op_LeaseOwner := owner, op_LeaseToken := leaseToken,
          op_LeaseAcquiredAt := Some leaseAcquiredAt\<rparr>)))
    }"

definition start_statement :: "string \<Rightarrow> string \<Rightarrow> ApplyOperation \<Rightarrow> statement" where
  "start_statement owner leaseToken ad = update_ops
     (\<lambda>d r. op_ID r = op_ID ad \<and> op_State r = Apply_Pending \<and>
            \<not> control_pending d (op_ApplyID ad) ControlOperationStop)
     (\<lambda>d r. (lease_op owner leaseToken d r)\<lparr>op_State := Apply_Running,
              op_StartedAt := COALESCE (op_StartedAt r) (now d)\<rparr>)"

definition claim_pending ::
  "string \<Rightarrow> string \<Rightarrow> int \<Rightarrow> ApplyOperation \<Rightarrow> ApplyOperation option prog" where
  "claim_pending owner leaseToken leaseAcquiredAt ad =
    do {
      result \<leftarrow> tx_ExecContext (undo_update_op (op_ID ad)) (start_statement owner leaseToken ad);
      case result of
        Inl e \<Rightarrow> State_Monad.return (Inl (Wrapped ''claim pending apply_operation'' e))
      | Inr rows \<Rightarrow>
          if rows = 0 then State_Monad.return (Inr None)
          else commit_claim owner leaseToken leaseAcquiredAt ad
    }"

definition resume_statement :: "string \<Rightarrow> string \<Rightarrow> ApplyOperation \<Rightarrow> statement" where
  "resume_statement owner leaseToken ad = update_ops
     (\<lambda>d r. op_ID r = op_ID ad \<and> op_State r = Apply_Stopped)
     (\<lambda>d r. (lease_op owner leaseToken d r)\<lparr>op_State := Apply_Resuming\<rparr>)"

definition claim_stopped ::
  "string \<Rightarrow> string \<Rightarrow> int \<Rightarrow> ApplyOperation \<Rightarrow> ApplyOperation option prog" where
  "claim_stopped owner leaseToken leaseAcquiredAt ad =
    do {
      result \<leftarrow> tx_ExecContext (undo_update_op (op_ID ad)) (resume_statement owner leaseToken ad);
      case result of
        Inl e \<Rightarrow> State_Monad.return (Inl (Wrapped ''claim stopped apply_operation'' e))
      | Inr rows \<Rightarrow>
          if rows = 0 then State_Monad.return (Inr None)
          else commit_claim owner leaseToken leaseAcquiredAt ad
    }"

definition release_statement :: "string \<Rightarrow> string \<Rightarrow> ApplyOperation \<Rightarrow> statement" where
  "release_statement owner leaseToken ad = update_ops
     (\<lambda>d r. op_ID r = op_ID ad) (lease_op owner leaseToken)"

text \<open>The redispatch of a retry: the operation's own attempt, then the parent's budget.\<close>

definition attempt_statement :: "ApplyOperation \<Rightarrow> statement" where
  "attempt_statement ad = update_ops
     (\<lambda>d r. op_ID r = op_ID ad \<and>
            list_ex (\<lambda>a. apply_ID a = op_ApplyID r \<and> apply_State a = Apply_FailedRetryable) (applies d))
     (\<lambda>d r. r\<lparr>op_Attempt := op_Attempt r + 1\<rparr>)"

definition budget_statement :: "ApplyOperation \<Rightarrow> statement" where
  "budget_statement ad d =
    (let P = (\<lambda>a. apply_ID a = op_ApplyID ad \<and> apply_State a = Apply_FailedRetryable \<and>
                  apply_Attempt a < MaxRecoveryAttempts \<and>
                  list_ex (\<lambda>s. op_ApplyID s = apply_ID a \<and> op_ID s \<noteq> op_ID ad) (apply_operations d));
         f = (\<lambda>a. a\<lparr>apply_Attempt := apply_Attempt a + 1, apply_UpdatedAt := now d\<rparr>)
     in Inr (d\<lparr>applies := sql_update P f (applies d)\<rparr>, rows_changed P f (applies d)))"

definition claim_started ::
  "string \<Rightarrow> string \<Rightarrow> int \<Rightarrow> ApplyOperation \<Rightarrow> ApplyOperation option prog" where
  "claim_started owner leaseToken leaseAcquiredAt ad =
    do {
      result \<leftarrow> tx_ExecContext (undo_update_op (op_ID ad)) (release_statement owner leaseToken ad);
      case result of
        Inl e \<Rightarrow> State_Monad.return (Inl (Wrapped ''refresh heartbeat for claimed apply_operation'' e))
      | Inr _ \<Rightarrow>
          if op_State ad \<noteq> Apply_FailedRetryable then commit_claim owner leaseToken leaseAcquiredAt ad
          else
            do {
              res \<leftarrow> tx_ExecContext (undo_update_op (op_ID ad)) (attempt_statement ad);
              case res of
                Inl e \<Rightarrow> State_Monad.return (Inl (Wrapped ''advance attempt for apply_operation redispatch'' e))
              | Inr bumped \<Rightarrow>
                  do {
                    b \<leftarrow> tx_ExecContext (undo_update_apply (op_ApplyID ad)) (budget_statement ad);
                    case b of
                      Inl e \<Rightarrow> State_Monad.return (Inl (Wrapped ''consume retry budget'' e))
                    | Inr _ \<Rightarrow> commit_claim owner leaseToken leaseAcquiredAt
                        (if bumped > 0 then ad\<lparr>op_Attempt := op_Attempt ad + 1\<rparr> else ad)
                  }
            }
    }"

definition claim_tx ::
  "(string \<Rightarrow> string) \<Rightarrow> (int \<Rightarrow> bool) \<Rightarrow> string \<Rightarrow> string \<Rightarrow> int \<Rightarrow> ApplyOperation option prog" where
  "claim_tx ci locked owner leaseToken leaseAcquiredAt =
    do {
      q \<leftarrow> QueryContext (select_op (claimable ci) locked);
      case q of
        Inl e \<Rightarrow> State_Monad.return (Inl (Wrapped ''query next claimable apply_operation'' e))
      | Inr row \<Rightarrow>
          (case row of
             None \<Rightarrow> State_Monad.return (Inr None)
           | Some ad \<Rightarrow>
               if op_State ad = Apply_Pending then claim_pending owner leaseToken leaseAcquiredAt ad
               else if op_State ad = Apply_Stopped then claim_stopped owner leaseToken leaseAcquiredAt ad
               else claim_started owner leaseToken leaseAcquiredAt ad)
    }"

definition FindNextApplyOperation ::
  "(string \<Rightarrow> string) \<Rightarrow> (int \<Rightarrow> bool) \<Rightarrow> string \<Rightarrow> string \<Rightarrow> int \<Rightarrow> ApplyOperation option prog" where
  "FindNextApplyOperation ci locked owner leaseToken leaseAcquiredAt =
    (if owner = ''''
     then State_Monad.return (Inl (Wrapped ''operator owner is required'' ErrApplyLeaseLost))
     else
       do {
         b \<leftarrow> BeginTx;
         case b of
           Inl e \<Rightarrow> State_Monad.return (Inl (Wrapped ''begin claim apply_operation transaction'' e))
         | Inr _ \<Rightarrow> defer_rollback (claim_tx ci locked owner leaseToken leaseAcquiredAt)
       })"

section \<open>Claiming cutovers\<close>

definition cutover_blocked :: "db \<Rightarrow> ApplyOperation \<Rightarrow> bool" where
  "cutover_blocked d r \<longleftrightarrow>
    list_ex (\<lambda>earlier.
      op_ApplyID earlier = op_ApplyID r \<and> op_before earlier r \<and>
      op_State earlier \<noteq> Apply_Completed \<and> \<not> released_failure d r earlier) (apply_operations d)"

text \<open>The eligibility gate: ordered policy, several operations, no manual deferral.\<close>

definition cutover_eligible :: "db \<Rightarrow> ApplyOperation \<Rightarrow> bool" where
  "cutover_eligible d r \<longleftrightarrow>
    op_CutoverPolicy r \<in> {CutoverPolicyBarrier, CutoverPolicyParallel} \<and>
    has_sibling d r \<and>
    list_ex (\<lambda>a. apply_ID a = op_ApplyID r \<and> \<not> DeferCutover (apply_Options a)) (applies d)"

definition cutover_claimable :: "db \<Rightarrow> ApplyOperation \<Rightarrow> bool" where
  "cutover_claimable d r \<longleftrightarrow>
    cutover_eligible d r \<and>
    ((op_State r = Apply_WaitingForCutover \<and> \<not> cutover_blocked d r \<and>
      \<not> control_pending d (op_ApplyID r) ControlOperationStop) \<or>
     (op_State r \<in> {Apply_CuttingOver, Apply_RevertWindow} \<and>
      op_UpdatedAt r < now d - ApplyLeaseStaleAfter))"

definition cutover_statement :: "string \<Rightarrow> string \<Rightarrow> ApplyOperation \<Rightarrow> statement" where
  "cutover_statement owner leaseToken ad = update_ops
     (\<lambda>d r. op_ID r = op_ID ad \<and> op_State r = Apply_WaitingForCutover \<and>
            \<not> control_pending d (op_ApplyID ad) ControlOperationStop)
     (\<lambda>d r. (lease_op owner leaseToken d r)\<lparr>op_State := Apply_CuttingOver\<rparr>)"

definition cutover_claim_tx ::
  "(int \<Rightarrow> bool) \<Rightarrow> string \<Rightarrow> string \<Rightarrow> int \<Rightarrow> ApplyOperation option prog" where
  "cutover_claim_tx locked owner leaseToken leaseAcquiredAt =
    do {
      q \<leftarrow> QueryContext (select_op cutover_claimable locked);
      case q of
        Inl e \<Rightarrow> State_Monad.return (Inl (Wrapped ''query next claimable apply_operation cutover'' e))
      | Inr row \<Rightarrow>
          (case row of
             None \<Rightarrow> State_Monad.return (Inr None)
           | Some ad \<Rightarrow>
               if op_State ad = Apply_WaitingForCutover then
                 do {
                   result \<leftarrow> tx_ExecContext (undo_update_op (op_ID ad)) (cutover_statement owner leaseToken ad);
                   case result of
                     Inl e \<Rightarrow> State_Monad.return (Inl (Wrapped ''claim waiting_for_cutover apply_operation'' e))
                   | Inr rows \<Rightarrow>
                       if rows = 0 then State_Monad.return (Inr None)
                       else commit_claim owner leaseToken leaseAcquiredAt ad
                 }
               else
                 do {
                   result \<leftarrow> tx_ExecContext (undo_update_op (op_ID ad)) (release_statement owner leaseToken ad);
                   case result of
                     Inl e \<Rightarrow> State_Monad.return (Inl (Wrapped ''refresh heartbeat for recovered cutover'' e))
                   | Inr _ \<Rightarrow> commit_claim owner leaseToken leaseAcquiredAt ad
                 })
    }"

definition FindNextApplyOperationCutover ::
  "(int \<Rightarrow> bool) \<Rightarrow> string \<Rightarrow> string \<Rightarrow> int \<Rightarrow> ApplyOperation option prog" where
  "FindNextApplyOperationCutover locked owner leaseToken leaseAcquiredAt =
    (if owner = ''''
     then State_Monad.return (Inl (Wrapped ''operator owner is required'' ErrApplyLeaseLost))
     else
       do {
         b \<leftarrow> BeginTx;
         case b of
           Inl e \<Rightarrow> State_Monad.return (Inl (Wrapped ''begin claim apply_operation cutover transaction'' e))
         | Inr _ \<Rightarrow> defer_rollback (cutover_claim_tx locked owner leaseToken leaseAcquiredAt)
       })"

section \<open>Selecting a row\<close>

lemma op_before_trans': "op_before s x \<Longrightarrow> \<not> op_before m x \<Longrightarrow> op_before s m"
  by (auto simp: op_before_def)

lemma first_op_SomeD: "first_op rs = Some r \<Longrightarrow> r \<in> set rs \<and> (\<forall>s\<in>set rs. \<not> op_before s r)"
proof (induction rs arbitrary: r)
  case (Cons x xs)
  show ?case
  proof (cases "first_op xs")
    case None
    then have "xs = []" by (cases xs) (auto split: option.splits if_splits)
    with Cons.prems show ?thesis by (auto simp: op_before_def)
  next
    case (Some m)
    note m = Cons.IH [OF Some]
    show ?thesis
    proof (cases "op_before m x")
      case True
      with Some Cons.prems have "r = m" by simp
      with m op_before_irrefl [OF True] show ?thesis by simp
    next
      case False
      with Some Cons.prems have "r = x" by simp
      moreover have "\<not> op_before s x" if "s \<in> set xs" for s
        using m that False op_before_trans' [of s x m] by blast
      ultimately show ?thesis by (auto simp: op_before_def)
    qed
  qed
qed simp

lemma select_op_SomeD:
  "select_op P locked d = Some r \<Longrightarrow> r \<in> set (apply_operations d) \<and> P d r \<and> \<not> locked (op_ID r)"
  unfolding select_op_def by (auto dest: first_op_SomeD)

lemma lease_op_simps [simp]:
  "op_State (lease_op owner token d r) = op_State r"
  "op_LeaseToken (lease_op owner token d r) = token"
  "op_LeaseOwner (lease_op owner token d r) = owner"
  "op_frame (lease_op owner token d r) = op_frame r"
  "op_ID (lease_op owner token d r) = op_ID r"
  by (simp_all add: lease_op_def op_frame_def)

lemma op_frame_updates [simp]:
  "op_frame (r\<lparr>op_State := s\<rparr>) = op_frame r"
  "op_frame (r\<lparr>op_StartedAt := t\<rparr>) = op_frame r"
  "op_frame (r\<lparr>op_Attempt := n\<rparr>) = op_frame r"
  "op_frame (r\<lparr>op_LeaseOwner := o'\<rparr>) = op_frame r"
  "op_frame (r\<lparr>op_LeaseToken := o'\<rparr>) = op_frame r"
  "op_frame (r\<lparr>op_LeaseAcquiredAt := t\<rparr>) = op_frame r"
  by (simp_all add: op_frame_def)

lemma undo_same:
  assumes "op_ids_distinct d"
  shows "undo_update_op i d d = d"
proof -
  have "(case find (\<lambda>q. op_ID q = i) (apply_operations d) of Some q \<Rightarrow> q | None \<Rightarrow> r) = r"
    if "r \<in> set (apply_operations d)" "op_ID r = i" for r
  proof (cases "find (\<lambda>q. op_ID q = i) (apply_operations d)")
    case None
    then show ?thesis using that by simp
  next
    case (Some q)
    from find_SomeD [OF this] that have "q = r" by (intro op_ids_distinctD [OF assms]) auto
    with Some show ?thesis by simp
  qed
  then have "map (\<lambda>r. if op_ID r = i
        then (case find (\<lambda>q. op_ID q = i) (apply_operations d) of Some q \<Rightarrow> q | None \<Rightarrow> r)
        else r) (apply_operations d) = apply_operations d"
    by (intro map_idI) auto
  then show ?thesis by (simp add: undo_update_op_def)
qed

section \<open>Claims under interference\<close>

text \<open>
  What a successful claim establishes, whatever the other sessions did between its statements: the
  row was selectable when it was read, and the write happened on a row still in the selected state,
  with no stop pending.
\<close>

lemma run_commit_claim:
  assumes "run_state (commit_claim owner token clk ad) w = (Inr (Some r), w')"
  shows "w_db w' = w_db w" and "w_undo w' = []"
    and "r = ad\<lparr>op_LeaseOwner := owner, op_LeaseToken := token, op_LeaseAcquiredAt := Some clk\<rparr>"
  using assms by (auto simp: commit_claim_def Commit_def split: list.splits option.splits)

lemma run_tx_exec_cases:
  assumes "run_state (tx_ExecContext undo stm) w = (Inr n, w1)"
  obtains d d' where "stm d = Inr (d', n)" and "w_db w1 = d'"
  using assms by (auto simp: tx_ExecContext_def split: prod.splits option.splits sum.splits)

lemma run_bind_cases:
  assumes "run_state (State_Monad.bind m f) w = (r, w')"
  obtains x w1 where "run_state m w = (x, w1)" and "run_state (f x) w1 = (r, w')"
  using assms by (auto split: prod.splits)

lemma claim_pending_success:
  assumes "run_state (claim_pending owner token clk ad) w = (Inr (Some r), w')"
  shows "w_undo w' = [] \<and> op_frame r = op_frame ad \<and> op_State r = op_State ad \<and>
    \<not> control_pending (w_db w') (op_ApplyID ad) ControlOperationStop \<and>
    (\<exists>q\<in>set (apply_operations (w_db w')). op_ID q = op_ID ad \<and> op_State q = Apply_Running \<and>
      op_LeaseOwner q = owner \<and> op_LeaseToken q = token)"
proof -
  from assms obtain x w1 where ex: "run_state (tx_ExecContext (undo_update_op (op_ID ad))
      (start_statement owner token ad)) w = (x, w1)"
    and rest: "run_state (case x of
        Inl e \<Rightarrow> State_Monad.return (Inl (Wrapped ''claim pending apply_operation'' e))
      | Inr rows \<Rightarrow> if rows = 0 then State_Monad.return (Inr None)
          else commit_claim owner token clk ad) w1 = (Inr (Some r), w')"
    unfolding claim_pending_def by (rule run_bind_cases)
  from rest obtain n where x: "x = Inr n" "n \<noteq> 0"
    and com: "run_state (commit_claim owner token clk ad) w1 = (Inr (Some r), w')"
    by (auto split: sum.splits if_splits)
  from ex x(1) obtain d d' where stm: "start_statement owner token ad d = Inr (d', n)"
    and d': "w_db w1 = d'" by (auto elim: run_tx_exec_cases)
  note res = update_ops_result(1) [OF stm [unfolded start_statement_def]]
  have cr: "control_requests d' = control_requests d" using arg_cong [OF res, of control_requests] by simp
  from update_ops_changed [OF stm [unfolded start_statement_def] x(2)] obtain q
    where q: "op_ID q = op_ID ad" "\<not> control_pending d (op_ApplyID ad) ControlOperationStop"
      and mem: "on_update (stamp_op d) (\<lambda>r. (lease_op owner token d r)\<lparr>op_State := Apply_Running,
              op_StartedAt := COALESCE (op_StartedAt r) (now d)\<rparr>) q \<in> set (apply_operations d')"
    by auto
  note c = run_commit_claim [OF com]
  have "\<not> control_pending (w_db w') (op_ApplyID ad) ControlOperationStop"
    using q(2) cr by (simp add: c(1) d' control_pending_def)
  moreover have "\<exists>q\<in>set (apply_operations (w_db w')). op_ID q = op_ID ad \<and>
      op_State q = Apply_Running \<and> op_LeaseOwner q = owner \<and> op_LeaseToken q = token"
    unfolding c(1) d' by (rule bexI [OF _ mem]) (simp add: q(1) lease_op_def)
  ultimately show ?thesis by (simp add: c)
qed

text \<open>The database a claim selects from: after the turns of its BEGIN and its SELECT.\<close>

definition claim_reads :: "world \<Rightarrow> db" where
  "claim_reads w = w_db (snd (next_turn (snd (next_turn w))))"

lemma run_claim_select:
  assumes "run_state BeginTx w = (Inr (), w1)" and "run_state (QueryContext q) w1 = (Inr x, w3)"
  shows "x = q (claim_reads w)" and "w_db w3 = claim_reads w"
  using assms
  by (auto simp: BeginTx_def QueryContext_def claim_reads_def next_turn_def
      split: prod.splits option.splits list.splits)

lemma FindNext_pending_success:
  assumes "run_state (FindNextApplyOperation ci locked owner token clk) w = (Inr (Some r), w')"
    and "op_State r = Apply_Pending"
  shows "(\<exists>ad. select_op (claimable ci) locked (claim_reads w) = Some ad \<and>
      op_frame r = op_frame ad \<and> op_State ad = Apply_Pending) \<and>
    \<not> control_pending (w_db w') (op_ApplyID r) ControlOperationStop \<and>
    (\<exists>q\<in>set (apply_operations (w_db w')). op_ID q = op_ID r \<and> op_State q = Apply_Running \<and>
      op_LeaseOwner q = owner \<and> op_LeaseToken q = token)"
proof -
  from assms(1) obtain w1 w2 where beg: "run_state BeginTx w = (Inr (), w1)"
    and tx: "run_state (claim_tx ci locked owner token clk) w1 = (Inr (Some r), w2)"
    and w': "w' = rollbackTx w2"
    by (auto simp: FindNextApplyOperation_def split: if_splits sum.splits prod.splits)
  from tx obtain x w3 where q: "run_state (QueryContext (select_op (claimable ci) locked)) w1 = (x, w3)"
    and rest: "run_state (case x of
        Inl e \<Rightarrow> State_Monad.return (Inl (Wrapped ''query next claimable apply_operation'' e))
      | Inr row \<Rightarrow>
          (case row of
             None \<Rightarrow> State_Monad.return (Inr None)
           | Some ad \<Rightarrow>
               if op_State ad = Apply_Pending then claim_pending owner token clk ad
               else if op_State ad = Apply_Stopped then claim_stopped owner token clk ad
               else claim_started owner token clk ad)) w3 = (Inr (Some r), w2)"
    unfolding claim_tx_def by (rule run_bind_cases)
  from rest obtain ad where x: "x = Inr (Some ad)"
    and run: "run_state (if op_State ad = Apply_Pending then claim_pending owner token clk ad
               else if op_State ad = Apply_Stopped then claim_stopped owner token clk ad
               else claim_started owner token clk ad) w3 = (Inr (Some r), w2)"
    by (auto split: sum.splits option.splits)
  from run_claim_select(1) [OF beg q [unfolded x]]
  have sel: "select_op (claimable ci) locked (claim_reads w) = Some ad" ..
  have st: "op_State ad = Apply_Pending"
  proof (rule ccontr)
    assume ne: "op_State ad \<noteq> Apply_Pending"
    from run ne have "op_State r = op_State ad"
      by (auto simp: claim_stopped_def claim_started_def dest: run_commit_claim(3)
          split: if_splits sum.splits prod.splits)
    with ne assms(2) show False by simp
  qed
  from claim_pending_success [of owner token clk ad w3 r w2] run st
  have c: "w_undo w2 = []" "op_frame r = op_frame ad"
    "\<not> control_pending (w_db w2) (op_ApplyID ad) ControlOperationStop"
    "\<exists>q\<in>set (apply_operations (w_db w2)). op_ID q = op_ID ad \<and> op_State q = Apply_Running \<and>
      op_LeaseOwner q = owner \<and> op_LeaseToken q = token" by auto
  have "w_db w' = w_db w2" by (simp add: w' rollbackTx_def c(1))
  with c sel st op_frameD [OF c(2)] show ?thesis by metis
qed

section \<open>The rollout as a state machine\<close>

text \<open>
  \<open>moved T d d'\<close>: no operation is added, dropped or reordered, its identity and policy columns stay,
  and its state changes only as \<open>T\<close> allows; the options of the applies stay.
\<close>

definition moved :: "(ApplyOperation \<Rightarrow> string \<Rightarrow> bool) \<Rightarrow> db \<Rightarrow> db \<Rightarrow> bool" where
  "moved T d d' \<longleftrightarrow>
    (\<exists>g. apply_operations d' = map g (apply_operations d) \<and>
      (\<forall>r\<in>set (apply_operations d). op_frame (g r) = op_frame r \<and>
        (op_State (g r) = op_State r \<or> T r (op_State (g r))))) \<and>
    map (\<lambda>a. (apply_ID a, apply_Options a)) (applies d') =
      map (\<lambda>a. (apply_ID a, apply_Options a)) (applies d)"

lemma moved_refl: "moved T d d"
  unfolding moved_def by (intro conjI exI [of _ id]) auto

lemma moved_mono: "moved T d d' \<Longrightarrow> (\<And>r s. r \<in> set (apply_operations d) \<Longrightarrow> T r s \<Longrightarrow> T' r s) \<Longrightarrow> moved T' d d'"
  unfolding moved_def by blast

lemma moved_still:
  assumes "moved T d d1" and "moved (\<lambda>_ _. False) d1 d2"
  shows "moved T d d2"
proof -
  from assms(1) obtain g where g: "apply_operations d1 = map g (apply_operations d)"
    "\<forall>r\<in>set (apply_operations d). op_frame (g r) = op_frame r \<and>
        (op_State (g r) = op_State r \<or> T r (op_State (g r)))" unfolding moved_def by blast
  from assms(2) obtain h where h: "apply_operations d2 = map h (apply_operations d1)"
    "\<forall>r\<in>set (apply_operations d1). op_frame (h r) = op_frame r \<and> op_State (h r) = op_State r"
    unfolding moved_def by blast
  have "apply_operations d2 = map (h \<circ> g) (apply_operations d)" using g(1) h(1) by simp
  moreover have "\<forall>r\<in>set (apply_operations d). op_frame ((h \<circ> g) r) = op_frame r \<and>
        (op_State ((h \<circ> g) r) = op_State r \<or> T r (op_State ((h \<circ> g) r)))"
    using g h(2) by auto
  ultimately show ?thesis using assms unfolding moved_def by (metis (no_types, lifting))
qed

lemma moved_update:
  assumes "update_ops P f d = Inr (d', n)" and "\<And>r. op_frame (f d r) = op_frame r"
    and "\<And>r. r \<in> set (apply_operations d) \<Longrightarrow> P d r \<Longrightarrow> op_State (f d r) = op_State r \<or> T r (op_State (f d r))"
  shows "moved T d d'"
  unfolding moved_def
proof (intro conjI exI)
  show "apply_operations d' =
      map (\<lambda>r. if P d r then on_update (stamp_op d) (f d) r else r) (apply_operations d)"
    by (rule update_ops_result(2) [OF assms(1)])
  show "map (\<lambda>a. (apply_ID a, apply_Options a)) (applies d') =
      map (\<lambda>a. (apply_ID a, apply_Options a)) (applies d)"
    using arg_cong [OF update_ops_result(1) [OF assms(1)], of applies] by simp
qed (use assms(2,3) in auto)

lemma moved_budget: "budget_statement ad d = Inr (d', n) \<Longrightarrow> moved T d d'"
  unfolding moved_def budget_statement_def Let_def
  by (auto simp: sql_update_def intro: exI [of _ id])

text \<open>The state changes the claims make.\<close>

definition claim_moves :: "(string \<Rightarrow> string) \<Rightarrow> db \<Rightarrow> ApplyOperation \<Rightarrow> string \<Rightarrow> bool" where
  "claim_moves ci d r s \<longleftrightarrow>
    (pending_claimable ci d r \<and> s = Apply_Running) \<or>
    (op_State r = Apply_Stopped \<and> s = Apply_Resuming) \<or>
    (op_State r = Apply_WaitingForCutover \<and> cutover_claimable d r \<and> s = Apply_CuttingOver)"

lemma claimable_pending:
  "claimable ci d r \<Longrightarrow> op_State r = Apply_Pending \<Longrightarrow> pending_claimable ci d r"
  by (auto simp: claimable_def stale_claimable_def resume_claimable_def deferred_deploy_claimable_def
      retry_claimable_def claimableApplyStates_def)

lemma quiet_tx_update:
  assumes "op_ids_distinct d"
    and "run_state (State_Monad.bind (tx_ExecContext (undo_update_op i) (update_ops P f))
        (\<lambda>result. case result of
           Inl e \<Rightarrow> State_Monad.return (Inl (g e))
         | Inr rows \<Rightarrow> if rows = 0 then State_Monad.return (Inr None)
             else commit_claim owner token clk ad)) (quiet d) = (r, w)"
  obtains d' n where "update_ops P f d = Inr (d', n)" and "rollbackTx w = quiet d'"
proof -
  obtain d' n where upd: "update_ops P f d = Inr (d', n)" by (rule update_ops_total)
  have "rollbackTx w = quiet d'"
    using assms(2) upd update_ops_zero [of P f d d'] undo_same [OF assms(1), of i]
    by (auto simp: commit_claim_def rollbackTx_def split: if_splits)
  with upd show ?thesis by (rule that)
qed

lemma claim_tx_moves:
  assumes "op_ids_distinct d" and "run_state (claim_tx ci locked owner token clk) (quiet d) = (r, w)"
  obtains d' where "rollbackTx w = quiet d'" and "moved (claim_moves ci d) d d'"
proof (cases "select_op (claimable ci) locked d")
  case None
  with assms(2) show ?thesis
    by (intro that [of d]) (auto simp: claim_tx_def moved_refl)
next
  case (Some ad)
  note sel = select_op_SomeD [OF Some]
  consider (pending) "op_State ad = Apply_Pending" | (stopped) "op_State ad = Apply_Stopped"
    | (started) "op_State ad \<noteq> Apply_Pending" "op_State ad \<noteq> Apply_Stopped" by blast
  then show ?thesis
  proof cases
    case pending
    with assms(2) Some have "run_state (claim_pending owner token clk ad) (quiet d) = (r, w)"
      by (simp add: claim_tx_def)
    from quiet_tx_update [OF assms(1) this [unfolded claim_pending_def start_statement_def]]
    obtain d' n where upd: "start_statement owner token ad d = Inr (d', n)" and w: "rollbackTx w = quiet d'"
      unfolding start_statement_def .
    have "moved (claim_moves ci d) d d'"
    proof (rule moved_update [OF upd [unfolded start_statement_def]])
      fix q
      assume "q \<in> set (apply_operations d)" and "op_ID q = op_ID ad \<and> op_State q = Apply_Pending \<and>
            \<not> control_pending d (op_ApplyID ad) ControlOperationStop"
      with sel have "q = ad" by (intro op_ids_distinctD [OF assms(1)]) auto
      with sel pending claimable_pending show "op_State ((lease_op owner token d q)
          \<lparr>op_State := Apply_Running, op_StartedAt := COALESCE (op_StartedAt q) (now d)\<rparr>) = op_State q \<or>
        claim_moves ci d q (op_State ((lease_op owner token d q)
          \<lparr>op_State := Apply_Running, op_StartedAt := COALESCE (op_StartedAt q) (now d)\<rparr>))"
        by (auto simp: claim_moves_def)
    qed simp
    with w show ?thesis by (rule that)
  next
    case stopped
    with assms(2) Some have "run_state (claim_stopped owner token clk ad) (quiet d) = (r, w)"
      by (simp add: claim_tx_def)
    from quiet_tx_update [OF assms(1) this [unfolded claim_stopped_def resume_statement_def]]
    obtain d' n where upd: "resume_statement owner token ad d = Inr (d', n)" and w: "rollbackTx w = quiet d'"
      unfolding resume_statement_def .
    have "moved (claim_moves ci d) d d'"
      by (rule moved_update [OF upd [unfolded resume_statement_def]]) (auto simp: claim_moves_def)
    with w show ?thesis by (rule that)
  next
    case started
    with assms(2) Some have run: "run_state (claim_started owner token clk ad) (quiet d) = (r, w)"
      by (simp add: claim_tx_def)
    obtain d1 n1 where u1: "release_statement owner token ad d = Inr (d1, n1)"
      unfolding release_statement_def by (rule update_ops_total)
    obtain d2 n2 where u2: "attempt_statement ad d1 = Inr (d2, n2)"
      unfolding attempt_statement_def by (rule update_ops_total)
    obtain d3 n3 where u3: "budget_statement ad d2 = Inr (d3, n3)"
      by (simp add: budget_statement_def Let_def)
    have m1: "moved (\<lambda>_ _. False) d d1"
      by (rule moved_update [OF u1 [unfolded release_statement_def]]) simp_all
    have m2: "moved (\<lambda>_ _. False) d1 d2"
      by (rule moved_update [OF u2 [unfolded attempt_statement_def]]) simp_all
    have m3: "moved (\<lambda>_ _. False) d d3"
      by (rule moved_still [OF moved_still [OF m1 m2] moved_budget [OF u3]])
    from run u1 u2 u3 have "w = quiet d1 \<or> w = quiet d3"
      by (auto simp: claim_started_def commit_claim_def split: if_splits)
    with m1 m3 show ?thesis
      by (auto intro: that moved_mono)
  qed
qed

lemma cutover_claim_tx_moves:
  assumes "op_ids_distinct d" and "run_state (cutover_claim_tx locked owner token clk) (quiet d) = (r, w)"
  obtains d' where "rollbackTx w = quiet d'" and "moved (claim_moves ci d) d d'"
proof (cases "select_op cutover_claimable locked d")
  case None
  with assms(2) show ?thesis
    by (intro that [of d]) (auto simp: cutover_claim_tx_def moved_refl)
next
  case (Some ad)
  note sel = select_op_SomeD [OF Some]
  show ?thesis
  proof (cases "op_State ad = Apply_WaitingForCutover")
    case True
    with assms(2) Some have "run_state (State_Monad.bind
        (tx_ExecContext (undo_update_op (op_ID ad)) (cutover_statement owner token ad))
        (\<lambda>result. case result of
           Inl e \<Rightarrow> State_Monad.return (Inl (Wrapped ''claim waiting_for_cutover apply_operation'' e))
         | Inr rows \<Rightarrow> if rows = 0 then State_Monad.return (Inr None)
             else commit_claim owner token clk ad)) (quiet d) = (r, w)"
      by (simp add: cutover_claim_tx_def)
    from quiet_tx_update [OF assms(1) this [unfolded cutover_statement_def]]
    obtain d' n where upd: "cutover_statement owner token ad d = Inr (d', n)" and w: "rollbackTx w = quiet d'"
      unfolding cutover_statement_def .
    have "moved (claim_moves ci d) d d'"
    proof (rule moved_update [OF upd [unfolded cutover_statement_def]])
      fix q
      assume "q \<in> set (apply_operations d)" and "op_ID q = op_ID ad \<and>
        op_State q = Apply_WaitingForCutover \<and> \<not> control_pending d (op_ApplyID ad) ControlOperationStop"
      with sel have "q = ad" by (intro op_ids_distinctD [OF assms(1)]) auto
      with sel True show "op_State ((lease_op owner token d q)\<lparr>op_State := Apply_CuttingOver\<rparr>) = op_State q \<or>
        claim_moves ci d q (op_State ((lease_op owner token d q)\<lparr>op_State := Apply_CuttingOver\<rparr>))"
        by (simp add: claim_moves_def)
    qed simp
    with w show ?thesis by (rule that)
  next
    case False
    obtain d1 n1 where u1: "release_statement owner token ad d = Inr (d1, n1)"
      unfolding release_statement_def by (rule update_ops_total)
    have "moved (claim_moves ci d) d d1"
      by (rule moved_update [OF u1 [unfolded release_statement_def]]) simp_all
    moreover from assms(2) Some False u1 have "w = quiet d1"
      by (auto simp: cutover_claim_tx_def commit_claim_def)
    ultimately show ?thesis by (intro that [of d1]) simp_all
  qed
qed

lemma FindNext_moves:
  assumes "op_ids_distinct d"
    and "run_state (FindNextApplyOperation ci locked owner token clk) (quiet d) = (r, w)"
  shows "moved (claim_moves ci d) d (w_db w)"
proof (cases "owner = ''''")
  case True
  with assms(2) show ?thesis by (auto simp: FindNextApplyOperation_def moved_refl)
next
  case False
  then obtain r1 w1 where run: "run_state (claim_tx ci locked owner token clk) (quiet d) = (r1, w1)"
    and w: "w = rollbackTx w1"
    using assms(2) by (auto simp: FindNextApplyOperation_def split: prod.splits)
  from claim_tx_moves [OF assms(1) run] obtain d' where "rollbackTx w1 = quiet d'"
    and "moved (claim_moves ci d) d d'" .
  then show ?thesis by (simp add: w)
qed

lemma FindNextCutover_moves:
  assumes "op_ids_distinct d"
    and "run_state (FindNextApplyOperationCutover locked owner token clk) (quiet d) = (r, w)"
  shows "moved (claim_moves ci d) d (w_db w)"
proof (cases "owner = ''''")
  case True
  with assms(2) show ?thesis by (auto simp: FindNextApplyOperationCutover_def moved_refl)
next
  case False
  then obtain r1 w1 where run: "run_state (cutover_claim_tx locked owner token clk) (quiet d) = (r1, w1)"
    and w: "w = rollbackTx w1"
    using assms(2) by (auto simp: FindNextApplyOperationCutover_def split: prod.splits)
  from cutover_claim_tx_moves [OF assms(1) run, of ci] obtain d' where "rollbackTx w1 = quiet d'"
    and "moved (claim_moves ci d) d d'" .
  then show ?thesis by (simp add: w)
qed

text \<open>
  What a driver does with the operation it drives: it starts nothing by itself, leaves finished
  operations alone, and enters the cutover of an operation the cutover claim is responsible for only
  through that claim.
\<close>

abbreviation in_cutover :: "string \<Rightarrow> bool" where
  "in_cutover s \<equiv> s \<in> {Apply_CuttingOver, Apply_RevertWindow}"

definition driver_moves :: "db \<Rightarrow> ApplyOperation \<Rightarrow> string \<Rightarrow> bool" where
  "driver_moves d r s \<longleftrightarrow>
    op_State r \<notin> {Apply_Pending, Apply_Completed, Apply_Failed} \<and>
    (in_cutover s \<and> cutover_eligible d r \<longrightarrow> in_cutover (op_State r))"

text \<open>
  The steps of a rollout: the two claims, the driver's guarded state writes, and anything that
  leaves operations and applies alone (control requests, the passing of time, other tables).
\<close>

inductive rollout_step :: "(string \<Rightarrow> string) \<Rightarrow> db \<Rightarrow> db \<Rightarrow> bool" for ci where
  claim: "run_state (FindNextApplyOperation ci locked owner token clk) (quiet d) = (r, w) \<Longrightarrow>
    rollout_step ci d (w_db w)"
| cutover: "run_state (FindNextApplyOperationCutover locked owner token clk) (quiet d) = (r, w) \<Longrightarrow>
    rollout_step ci d (w_db w)"
| drive: "run_state (execStateUpdate c i msg f) (quiet d) = (r, w) \<Longrightarrow>
    (\<And>q. op_frame (f d q) = op_frame q) \<Longrightarrow>
    (\<And>q. q \<in> set (apply_operations d) \<Longrightarrow> op_ID q = i \<Longrightarrow>
      op_State (f d q) = op_State q \<or> driver_moves d q (op_State (f d q))) \<Longrightarrow>
    rollout_step ci d (w_db w)"
| elsewhere: "apply_operations d' = apply_operations d \<Longrightarrow> applies d' = applies d \<Longrightarrow>
    rollout_step ci d d'"


lemma execStateUpdate_moves:
  assumes "run_state (execStateUpdate c i msg f) (quiet d) = (r, w)"
    and "\<And>q. op_frame (f d q) = op_frame q"
    and "\<And>q. q \<in> set (apply_operations d) \<Longrightarrow> op_ID q = i \<Longrightarrow>
      op_State (f d q) = op_State q \<or> T q (op_State (f d q))"
  shows "moved T d (w_db w)"
proof (cases "operationWriteGuardFromContext c")
  case (Inl e)
  with assms(1) show ?thesis by (auto simp: execStateUpdate_def guarded_update_def moved_refl)
next
  case (Inr guard)
  from guarded_update_ops [OF Inr, of i msg f False d] assms(1)
  have w: "w_db w = d\<lparr>apply_operations := map (\<lambda>q. if op_ID q = i \<and> guard_holds guard d q
      then on_update (stamp_op d) (f d) q else q) (apply_operations d)\<rparr>"
    by (auto simp: execStateUpdate_def)
  show ?thesis
    unfolding moved_def
  proof (intro conjI exI)
    show "apply_operations (w_db w) = map (\<lambda>q. if op_ID q = i \<and> guard_holds guard d q
      then on_update (stamp_op d) (f d) q else q) (apply_operations d)" by (simp add: w)
  qed (use assms(2,3) in \<open>auto simp: w\<close>)
qed

lemma rollout_step_moved:
  assumes "rollout_step ci d d'" and "op_ids_distinct d"
  shows "moved (\<lambda>r s. claim_moves ci d r s \<or> driver_moves d r s) d d'"
  using assms(1)
proof (cases rule: rollout_step.cases)
  case (claim locked owner token clk r w)
  from FindNext_moves [OF assms(2) claim(2)] show ?thesis unfolding claim(1) by (rule moved_mono) simp
next
  case (cutover locked owner token clk r w)
  from FindNextCutover_moves [OF assms(2) cutover(2), of ci] show ?thesis
    unfolding cutover(1) by (rule moved_mono) simp
next
  case (drive c i msg f r w)
  have "moved (driver_moves d) d (w_db w)"
    by (rule execStateUpdate_moves [OF drive(2)]) (use drive(3,4) in auto)
  then show ?thesis unfolding drive(1) by (rule moved_mono) simp
next
  case elsewhere
  then show ?thesis unfolding moved_def by (intro conjI exI [of _ id]) auto
qed

section \<open>Order of deployments and cutovers\<close>

text \<open>An earlier operation no longer stands in the way of \<open>r\<close>.\<close>

definition settled_for :: "ApplyOperation \<Rightarrow> ApplyOperation \<Rightarrow> bool" where
  "settled_for r e \<longleftrightarrow>
    op_State e = Apply_Completed \<or> (op_State e = Apply_Failed \<and> op_OnFailure r \<noteq> OnFailureHalt)"

text \<open>
  Serial rollout: ordinary work under a policy other than barrier and parallel has started only
  after every earlier deployment settled.
\<close>

definition rolling_serial :: "(string \<Rightarrow> string) \<Rightarrow> db \<Rightarrow> bool" where
  "rolling_serial ci d \<longleftrightarrow>
    (\<forall>r\<in>set (apply_operations d).
      op_CutoverPolicy r \<notin> {CutoverPolicyBarrier, CutoverPolicyParallel} \<and>
      op_OperationKind r \<noteq> ApplyOperationKindGroupFinalizer \<and> op_State r \<noteq> Apply_Pending \<longrightarrow>
      (\<forall>e\<in>set (apply_operations d). op_ApplyID e = op_ApplyID r \<and>
        ci (op_Deployment e) \<noteq> ci (op_Deployment r) \<and> op_before e r \<longrightarrow> settled_for r e))"

definition cutover_serial :: "db \<Rightarrow> bool" where
  "cutover_serial d \<longleftrightarrow>
    (\<forall>r\<in>set (apply_operations d). cutover_eligible d r \<and> in_cutover (op_State r) \<longrightarrow>
      (\<forall>e\<in>set (apply_operations d). op_ApplyID e = op_ApplyID r \<and> op_before e r \<longrightarrow> settled_for r e))"

lemma released_failure_settled: "released_failure d r e \<Longrightarrow> settled_for r e"
  by (auto simp: released_failure_def settled_for_def)

lemma settled_for_frame:
  "op_frame r' = op_frame r \<Longrightarrow> op_State e' = op_State e \<Longrightarrow> settled_for r' e' = settled_for r e"
  by (simp add: settled_for_def op_frame_def)

lemma settled_stays:
  assumes "settled_for r e"
  shows "\<not> claim_moves ci d e s" and "\<not> driver_moves d e s"
  using assms by (auto simp: settled_for_def claim_moves_def pending_claimable_def driver_moves_def)

lemma pending_claimable_settled:
  assumes "pending_claimable ci d r" and "op_OperationKind r \<noteq> ApplyOperationKindGroupFinalizer"
    and "op_CutoverPolicy r \<notin> {CutoverPolicyBarrier, CutoverPolicyParallel}"
    and "e \<in> set (apply_operations d)" and "op_ApplyID e = op_ApplyID r"
    and "ci (op_Deployment e) \<noteq> ci (op_Deployment r)" and "op_before e r"
  shows "settled_for r e"
proof -
  from assms(1,2) have nb: "\<not> copy_blocked ci d r" by (simp add: pending_claimable_def)
  have "op_State e = Apply_Completed \<or> released_failure d r e"
    using nb assms(3-7) unfolding copy_blocked_def list_ex_iff by blast
  then show ?thesis using released_failure_settled by (auto simp: settled_for_def)
qed

lemma cutover_claimable_settled:
  assumes "cutover_claimable d r" and "op_State r = Apply_WaitingForCutover"
    and "e \<in> set (apply_operations d)" and "op_ApplyID e = op_ApplyID r" and "op_before e r"
  shows "settled_for r e"
proof -
  from assms(1,2) have nb: "\<not> cutover_blocked d r" by (simp add: cutover_claimable_def)
  have "op_State e = Apply_Completed \<or> released_failure d r e"
    using nb assms(3-5) unfolding cutover_blocked_def list_ex_iff by blast
  then show ?thesis using released_failure_settled by (auto simp: settled_for_def)
qed

lemma moved_cutover_eligible:
  assumes "apply_operations d' = map g (apply_operations d)"
    and "\<forall>r\<in>set (apply_operations d). op_frame (g r) = op_frame r"
    and "map (\<lambda>a. (apply_ID a, apply_Options a)) (applies d') =
      map (\<lambda>a. (apply_ID a, apply_Options a)) (applies d)"
    and "r \<in> set (apply_operations d)"
  shows "cutover_eligible d' (g r) = cutover_eligible d r"
proof -
  have opts: "list_ex (\<lambda>a. apply_ID a = i \<and> \<not> DeferCutover (apply_Options a)) as =
      list_ex (\<lambda>(j, opt). j = i \<and> \<not> DeferCutover opt) (map (\<lambda>a. (apply_ID a, apply_Options a)) as)"
    for i as by (induction as) auto
  have "has_sibling d' (g r) = has_sibling d r"
    using assms(2,4) by (auto simp: has_sibling_def assms(1) list_ex_iff op_frame_def)
  moreover have "op_ApplyID (g r) = op_ApplyID r" "op_CutoverPolicy (g r) = op_CutoverPolicy r"
    using assms(2,4) by (auto simp: op_frame_def)
  ultimately show ?thesis by (simp add: cutover_eligible_def opts assms(3))
qed

lemma rolling_serial_moved:
  assumes "moved (\<lambda>r s. claim_moves ci d r s \<or> driver_moves d r s) d d'" and "rolling_serial ci d"
  shows "rolling_serial ci d'"
proof -
  from assms(1) obtain g where g: "apply_operations d' = map g (apply_operations d)"
    and fr: "\<And>r. r \<in> set (apply_operations d) \<Longrightarrow> op_frame (g r) = op_frame r"
    and st: "\<And>r. r \<in> set (apply_operations d) \<Longrightarrow> op_State (g r) = op_State r \<or>
      claim_moves ci d r (op_State (g r)) \<or> driver_moves d r (op_State (g r))"
    unfolding moved_def by metis
  have "settled_for (g r) (g e)"
    if "r \<in> set (apply_operations d)" "e \<in> set (apply_operations d)"
      and pol: "op_CutoverPolicy (g r) \<notin> {CutoverPolicyBarrier, CutoverPolicyParallel}"
      and kind: "op_OperationKind (g r) \<noteq> ApplyOperationKindGroupFinalizer"
      and started: "op_State (g r) \<noteq> Apply_Pending"
      and rel: "op_ApplyID (g e) = op_ApplyID (g r)" "ci (op_Deployment (g e)) \<noteq> ci (op_Deployment (g r))"
        "op_before (g e) (g r)" for r e
  proof -
    note f = op_frameD [OF fr [OF that(1)]] op_frameD [OF fr [OF that(2)]]
    have b: "op_before e r" using rel(3) op_before_frame [OF fr [OF that(2)] fr [OF that(1)]] by simp
    have "settled_for r e"
    proof (cases "op_State r = Apply_Pending")
      case True
      with st [OF that(1)] started have "pending_claimable ci d r"
        by (auto simp: claim_moves_def driver_moves_def)
      from pending_claimable_settled [OF this _ _ that(2) _ _ b] show ?thesis
        using pol kind rel f by simp
    next
      case False
      with assms(2) that(1,2) pol kind rel f b show ?thesis by (simp add: rolling_serial_def)
    qed
    with st [OF that(2)] settled_stays [of r e] have "op_State (g e) = op_State e" by blast
    with \<open>settled_for r e\<close> settled_for_frame [OF fr [OF that(1)]] show ?thesis by simp
  qed
  then show ?thesis by (simp add: rolling_serial_def g)
qed

lemma cutover_serial_moved:
  assumes "moved (\<lambda>r s. claim_moves ci d r s \<or> driver_moves d r s) d d'" and "cutover_serial d"
  shows "cutover_serial d'"
proof -
  from assms(1) obtain g where g: "apply_operations d' = map g (apply_operations d)"
    and fr: "\<forall>r\<in>set (apply_operations d). op_frame (g r) = op_frame r"
    and st: "\<And>r. r \<in> set (apply_operations d) \<Longrightarrow> op_State (g r) = op_State r \<or>
      claim_moves ci d r (op_State (g r)) \<or> driver_moves d r (op_State (g r))"
    and opts: "map (\<lambda>a. (apply_ID a, apply_Options a)) (applies d') =
      map (\<lambda>a. (apply_ID a, apply_Options a)) (applies d)"
    unfolding moved_def by metis
  have "settled_for (g r) (g e)"
    if "r \<in> set (apply_operations d)" "e \<in> set (apply_operations d)"
      and el: "cutover_eligible d' (g r)" and cut: "in_cutover (op_State (g r))"
      and rel: "op_ApplyID (g e) = op_ApplyID (g r)" "op_before (g e) (g r)" for r e
  proof -
    have frr: "op_frame (g r) = op_frame r" and fre: "op_frame (g e) = op_frame e" using fr that(1,2) by auto
    note f = op_frameD [OF frr] op_frameD [OF fre]
    have b: "op_before e r" using rel(2) op_before_frame [OF fre frr] by simp
    have el': "cutover_eligible d r" using el moved_cutover_eligible [OF g fr opts that(1)] by simp
    have "settled_for r e"
    proof (cases "in_cutover (op_State r)")
      case True
      with assms(2) that(1,2) el' rel(1) f b show ?thesis by (simp add: cutover_serial_def)
    next
      case False
      with st [OF that(1)] cut el' have "op_State r = Apply_WaitingForCutover" "cutover_claimable d r"
        by (auto simp: claim_moves_def driver_moves_def)
      from cutover_claimable_settled [OF this(2,1) that(2) _ b] show ?thesis using rel(1) f by simp
    qed
    with st [OF that(2)] settled_stays [of r e] have "op_State (g e) = op_State e" by blast
    with \<open>settled_for r e\<close> settled_for_frame [OF frr] show ?thesis by simp
  qed
  then show ?thesis by (simp add: cutover_serial_def g)
qed

lemma op_ids_distinct_moved: "moved T d d' \<Longrightarrow> op_ids_distinct d \<Longrightarrow> op_ids_distinct d'"
  unfolding moved_def op_ids_distinct_def
  by (auto simp: comp_def op_frame_def cong: map_cong)

lemma rollout_invariant:
  assumes "(rollout_step ci)\<^sup>*\<^sup>* d d'" and "op_ids_distinct d" and "rolling_serial ci d" and "cutover_serial d"
  shows "op_ids_distinct d' \<and> rolling_serial ci d' \<and> cutover_serial d'"
  using assms(1)
proof (induction rule: rtranclp_induct)
  case (step d1 d2)
  from rollout_step_moved [OF step(2)] step(3) show ?case
    using rolling_serial_moved cutover_serial_moved op_ids_distinct_moved by blast
qed (use assms in simp)

section \<open>Properties\<close>

text \<open>The claim of a cutover, under interference.\<close>

lemma FindNextCutover_success:
  assumes "run_state (FindNextApplyOperationCutover locked owner token clk) w = (Inr (Some r), w')"
    and "op_State r = Apply_WaitingForCutover"
  shows "(\<exists>ad. select_op cutover_claimable locked (claim_reads w) = Some ad \<and>
      op_frame r = op_frame ad \<and> op_State ad = Apply_WaitingForCutover) \<and>
    \<not> control_pending (w_db w') (op_ApplyID r) ControlOperationStop \<and>
    (\<exists>q\<in>set (apply_operations (w_db w')). op_ID q = op_ID r \<and> op_State q = Apply_CuttingOver \<and>
      op_LeaseOwner q = owner \<and> op_LeaseToken q = token)"
proof -
  from assms(1) obtain w1 w2 where beg: "run_state BeginTx w = (Inr (), w1)" and
    tx: "run_state (cutover_claim_tx locked owner token clk) w1 = (Inr (Some r), w2)"
    and w': "w' = rollbackTx w2"
    by (auto simp: FindNextApplyOperationCutover_def split: if_splits sum.splits prod.splits)
  from tx obtain x w3 ad where q: "run_state (QueryContext (select_op cutover_claimable locked)) w1 = (x, w3)"
    and x: "x = Inr (Some ad)"
    and rest: "run_state (if op_State ad = Apply_WaitingForCutover then
        State_Monad.bind (tx_ExecContext (undo_update_op (op_ID ad)) (cutover_statement owner token ad))
          (\<lambda>result. case result of
             Inl e \<Rightarrow> State_Monad.return (Inl (Wrapped ''claim waiting_for_cutover apply_operation'' e))
           | Inr rows \<Rightarrow> if rows = 0 then State_Monad.return (Inr None)
               else commit_claim owner token clk ad)
      else State_Monad.bind (tx_ExecContext (undo_update_op (op_ID ad)) (release_statement owner token ad))
          (\<lambda>result. case result of
             Inl e \<Rightarrow> State_Monad.return (Inl (Wrapped ''refresh heartbeat for recovered cutover'' e))
           | Inr _ \<Rightarrow> commit_claim owner token clk ad)) w3 = (Inr (Some r), w2)"
    unfolding cutover_claim_tx_def
    by (elim run_bind_cases) (auto split: sum.splits option.splits)
  from run_claim_select(1) [OF beg q [unfolded x]]
  have sel: "select_op cutover_claimable locked (claim_reads w) = Some ad" ..
  have st: "op_State ad = Apply_WaitingForCutover"
  proof (rule ccontr)
    assume ne: "op_State ad \<noteq> Apply_WaitingForCutover"
    with rest have "op_State r = op_State ad"
      by (auto dest: run_commit_claim(3) split: sum.splits prod.splits)
    with ne assms(2) show False by simp
  qed
  with rest obtain n w4 where
    ex: "run_state (tx_ExecContext (undo_update_op (op_ID ad)) (cutover_statement owner token ad)) w3 = (Inr n, w4)"
    and n: "n \<noteq> 0" and com: "run_state (commit_claim owner token clk ad) w4 = (Inr (Some r), w2)"
    by (auto split: sum.splits prod.splits if_splits)
  from ex obtain d d' where stm: "cutover_statement owner token ad d = Inr (d', n)" and d': "w_db w4 = d'"
    by (rule run_tx_exec_cases)
  have cr: "control_requests d' = control_requests d"
    using arg_cong [OF update_ops_result(1) [OF stm [unfolded cutover_statement_def]], of control_requests]
    by simp
  from update_ops_changed [OF stm [unfolded cutover_statement_def] n] obtain q
    where q: "op_ID q = op_ID ad" "\<not> control_pending d (op_ApplyID ad) ControlOperationStop"
      and mem: "on_update (stamp_op d) (\<lambda>r. (lease_op owner token d r)\<lparr>op_State := Apply_CuttingOver\<rparr>) q
        \<in> set (apply_operations d')" by auto
  note c = run_commit_claim [OF com]
  have fin: "w_db w' = d'" by (simp add: w' rollbackTx_def c(1,2) d')
  have "\<not> control_pending (w_db w') (op_ApplyID r) ControlOperationStop"
    using q(2) cr by (simp add: fin c(3) control_pending_def)
  moreover have "\<exists>q\<in>set (apply_operations (w_db w')). op_ID q = op_ID r \<and>
      op_State q = Apply_CuttingOver \<and> op_LeaseOwner q = owner \<and> op_LeaseToken q = token"
    unfolding fin by (rule bexI [OF _ mem]) (simp add: q(1) lease_op_def c(3))
  moreover have "op_frame r = op_frame ad" by (simp add: c(3))
  ultimately show ?thesis using sel st by blast
qed

text \<open>A successful claim leaves the row under the claimer's token.\<close>

lemma claim_started_leases:
  assumes "ad \<in> set (apply_operations d)"
    and "run_state (claim_started owner token clk ad) (quiet d) = (Inr (Some r), w)"
  shows "\<exists>q\<in>set (apply_operations (w_db w)). op_ID q = op_ID ad \<and> op_LeaseToken q = token"
proof -
  obtain d1 n1 where u1: "release_statement owner token ad d = Inr (d1, n1)"
    unfolding release_statement_def by (rule update_ops_total)
  obtain d2 n2 where u2: "attempt_statement ad d1 = Inr (d2, n2)"
    unfolding attempt_statement_def by (rule update_ops_total)
  obtain d3 n3 where u3: "budget_statement ad d2 = Inr (d3, n3)"
    by (simp add: budget_statement_def Let_def)
  let ?leased = "\<lambda>d. \<exists>q\<in>set (apply_operations d). op_ID q = op_ID ad \<and> op_LeaseToken q = token"
  have "?leased d1"
    using assms(1) by (intro bexI [of _ "on_update (stamp_op d) (lease_op owner token d) ad"])
      (auto simp: update_ops_result(2) [OF u1 [unfolded release_statement_def]])
  then obtain q where q: "q \<in> set (apply_operations d1)" "op_ID q = op_ID ad" "op_LeaseToken q = token"
    by blast
  let ?g = "\<lambda>r. if op_ID r = op_ID ad \<and>
      list_ex (\<lambda>a. apply_ID a = op_ApplyID r \<and> apply_State a = Apply_FailedRetryable) (applies d1)
    then on_update (stamp_op d1) (\<lambda>r. r\<lparr>op_Attempt := op_Attempt r + 1\<rparr>) r else r"
  have "?g q \<in> set (apply_operations d2)"
    using q(1) by (auto simp: update_ops_result(2) [OF u2 [unfolded attempt_statement_def]])
  moreover have "op_ID (?g q) = op_ID ad" "op_LeaseToken (?g q) = token" using q(2,3) by auto
  ultimately have "?leased d2" by blast
  moreover have "apply_operations d3 = apply_operations d2"
    using u3 by (auto simp: budget_statement_def Let_def)
  moreover from assms(2) u1 u2 u3 have "w_db w = d1 \<or> w_db w = d3"
    by (auto simp: claim_started_def commit_claim_def split: if_splits)
  ultimately show ?thesis using \<open>?leased d1\<close> by metis
qed

lemma claim_stopped_leases:
  assumes "run_state (claim_stopped owner token clk ad) (quiet d) = (Inr (Some r), w)"
  shows "\<exists>q\<in>set (apply_operations (w_db w)). op_ID q = op_ID ad \<and> op_LeaseToken q = token"
proof -
  obtain d' n where upd: "resume_statement owner token ad d = Inr (d', n)"
    unfolding resume_statement_def by (rule update_ops_total)
  with assms have n: "n \<noteq> 0" and w: "w_db w = d'"
    by (auto simp: claim_stopped_def commit_claim_def split: if_splits)
  from update_ops_changed [OF upd [unfolded resume_statement_def] n] obtain q where
    "op_ID q = op_ID ad" and "on_update (stamp_op d)
      (\<lambda>r. (lease_op owner token d r)\<lparr>op_State := Apply_Resuming\<rparr>) q \<in> set (apply_operations d')" by auto
  then show ?thesis unfolding w by (intro bexI) simp_all
qed

lemma FindNext_leases:
  assumes "run_state (FindNextApplyOperation ci locked owner token clk) (quiet d) = (Inr (Some r), w)"
  obtains ad where "select_op (claimable ci) locked d = Some ad" and "op_frame r = op_frame ad"
    and "op_State r = op_State ad" and "op_LeaseToken r = token"
    and "\<exists>q\<in>set (apply_operations (w_db w)). op_ID q = op_ID r \<and> op_LeaseToken q = token"
proof -
  from assms obtain w2 where tx: "run_state (claim_tx ci locked owner token clk) (quiet d) = (Inr (Some r), w2)"
    and w: "w = rollbackTx w2"
    by (auto simp: FindNextApplyOperation_def split: if_splits prod.splits)
  from tx obtain ad where sel: "select_op (claimable ci) locked d = Some ad"
    and run: "run_state (if op_State ad = Apply_Pending then claim_pending owner token clk ad
               else if op_State ad = Apply_Stopped then claim_stopped owner token clk ad
               else claim_started owner token clk ad) (quiet d) = (Inr (Some r), w2)"
    by (auto simp: claim_tx_def split: option.splits)
  have com: "w_undo w2 = [] \<and> op_frame r = op_frame ad \<and> op_State r = op_State ad \<and> op_LeaseToken r = token"
    using run by (auto simp: claim_pending_def claim_stopped_def claim_started_def
        dest: run_commit_claim split: if_splits sum.splits prod.splits)
  have "\<exists>q\<in>set (apply_operations (w_db w2)). op_ID q = op_ID ad \<and> op_LeaseToken q = token"
    using run select_op_SomeD [OF sel]
    by (auto split: if_splits dest: claim_pending_success claim_stopped_leases claim_started_leases)
  moreover have "w_db w = w_db w2" using com by (simp add: w rollbackTx_def)
  ultimately show ?thesis using com op_frameD(1) [of r ad] by (intro that [OF sel]) simp_all
qed

lemma three_steps: "R x y \<Longrightarrow> R y z \<Longrightarrow> R z u \<Longrightarrow> R\<^sup>*\<^sup>* x u"
  by (auto intro: converse_rtranclp_into_rtranclp)

text \<open>Two deployments of one apply, the first in state \<open>s1\<close> and the second in state \<open>s2\<close>.\<close>

definition example_apply :: Apply where
  "example_apply = zero_apply\<lparr>apply_ID := 7, apply_Identifier := ''apply_7'', apply_Database := ''orders'',
     apply_DatabaseType := ''mysql'', apply_Repository := ''org/app'', apply_PullRequest := 1,
     apply_Environment := ''production'', apply_State := ''running''\<rparr>"

definition example_rollout :: "string \<Rightarrow> string \<Rightarrow> string \<Rightarrow> db" where
  "example_rollout policy s1 s2 = empty_db\<lparr>applies := [example_apply],
     apply_operations := [(example_op 1 ''eu'' s1)\<lparr>op_CutoverPolicy := policy\<rparr>,
                          (example_op 2 ''us'' s2)\<lparr>op_CutoverPolicy := policy\<rparr>]\<rparr>"

text \<open>
  Property C3 (a stop wins over starting work).  Under any interference between the statements of
  the claim: when \<^verbatim>\<open>FindNextApplyOperation\<close> hands out a pending operation, that operation was
  claimable when it was read (in particular not blocked by an earlier deployment), and at the moment
  of the claim the row is running under the claimer's new lease and no stop is pending for its
  apply.
\<close>

theorem claim_start_safe:
  assumes "run_state (FindNextApplyOperation ci locked owner token clk) w = (Inr (Some r), w')"
    and "op_State r = Apply_Pending"
  shows "(\<exists>ad\<in>set (apply_operations (claim_reads w)). pending_claimable ci (claim_reads w) ad \<and>
      \<not> locked (op_ID ad) \<and> op_frame r = op_frame ad) \<and>
    \<not> control_pending (w_db w') (op_ApplyID r) ControlOperationStop \<and>
    (\<exists>q\<in>set (apply_operations (w_db w')). op_ID q = op_ID r \<and> op_State q = Apply_Running \<and>
      op_LeaseOwner q = owner \<and> op_LeaseToken q = token)"
  using FindNext_pending_success [OF assms] claimable_pending select_op_SomeD by blast

theorem claim_start_safe_witness:
  "op_ID (the (projr (fst (run_state (FindNextApplyOperation ToLower (\<lambda>_. False) ''driver'' ''tok'' 100)
      (quiet (example_rollout ''rolling'' ''completed'' ''pending'')))))) = 2 \<and>
   \<not> control_pending (w_db (snd (run_state (FindNextApplyOperation ToLower (\<lambda>_. False) ''driver'' ''tok'' 100)
      (quiet (example_rollout ''rolling'' ''completed'' ''pending''))))) 7 ControlOperationStop"
proof -
  let ?run = "run_state (FindNextApplyOperation ToLower (\<lambda>_. False) ''driver'' ''tok'' 100)
      (quiet (example_rollout ''rolling'' ''completed'' ''pending''))"
  let ?r = "(example_op 2 ''us'' ''pending'')\<lparr>op_LeaseOwner := ''driver'', op_LeaseToken := ''tok'',
      op_LeaseAcquiredAt := Some 100\<rparr>"
  have run: "fst ?run = Inr (Some ?r)" by code_simp
  then have "?run = (Inr (Some ?r), snd ?run)" by (simp only: prod_eq_iff fst_conv snd_conv)
  from claim_start_safe [OF this] show ?thesis by (simp add: run example_op_def)
qed

text \<open>
  Further fact (a stop wins over starting a cutover).  Likewise a cutover is handed out only if it
  was eligible and its turn had come when it was read, and the row is cutting over under the new
  lease with no stop pending when the claim takes effect.
\<close>

theorem claim_cutover_safe:
  assumes "run_state (FindNextApplyOperationCutover locked owner token clk) w = (Inr (Some r), w')"
    and "op_State r = Apply_WaitingForCutover"
  shows "(\<exists>ad\<in>set (apply_operations (claim_reads w)). cutover_claimable (claim_reads w) ad \<and>
      \<not> cutover_blocked (claim_reads w) ad \<and> \<not> locked (op_ID ad) \<and> op_frame r = op_frame ad) \<and>
    \<not> control_pending (w_db w') (op_ApplyID r) ControlOperationStop \<and>
    (\<exists>q\<in>set (apply_operations (w_db w')). op_ID q = op_ID r \<and> op_State q = Apply_CuttingOver \<and>
      op_LeaseOwner q = owner \<and> op_LeaseToken q = token)"
proof -
  note s = FindNextCutover_success [OF assms]
  then obtain ad where sel: "select_op cutover_claimable locked (claim_reads w) = Some ad"
    and ad: "op_frame r = op_frame ad" "op_State ad = Apply_WaitingForCutover" by blast
  from select_op_SomeD [OF sel] ad(2) have "\<not> cutover_blocked (claim_reads w) ad"
    by (auto simp: cutover_claimable_def)
  with s ad(1) select_op_SomeD [OF sel] show ?thesis by blast
qed

theorem claim_cutover_safe_witness:
  "op_ID (the (projr (fst (run_state (FindNextApplyOperationCutover (\<lambda>_. False) ''driver'' ''tok'' 100)
      (quiet (example_rollout ''barrier'' ''completed'' ''waiting_for_cutover'')))))) = 2 \<and>
   \<not> control_pending (w_db (snd (run_state (FindNextApplyOperationCutover (\<lambda>_. False) ''driver'' ''tok'' 100)
      (quiet (example_rollout ''barrier'' ''completed'' ''waiting_for_cutover''))))) 7 ControlOperationStop"
proof -
  let ?run = "run_state (FindNextApplyOperationCutover (\<lambda>_. False) ''driver'' ''tok'' 100)
      (quiet (example_rollout ''barrier'' ''completed'' ''waiting_for_cutover''))"
  let ?r = "(example_op 2 ''us'' ''waiting_for_cutover'')\<lparr>op_CutoverPolicy := ''barrier'',
      op_LeaseOwner := ''driver'', op_LeaseToken := ''tok'', op_LeaseAcquiredAt := Some 100\<rparr>"
  have run: "fst ?run = Inr (Some ?r)" by code_simp
  then have "?run = (Inr (Some ?r), snd ?run)" by (simp only: prod_eq_iff fst_conv snd_conv)
  from claim_cutover_safe [OF this] show ?thesis by (simp add: run example_op_def)
qed

text \<open>
  Property C1 (rolling rollouts are serial).  Starting from operations that are all pending, in
  every state reachable by claims, driver writes and other steps: work under the rolling policy that
  has left pending has every operation of an earlier deployment completed, or failed under a policy
  other than halt.  Stopping operations that never started is not one of the steps: what it does to
  the order is shown at the end.
\<close>

theorem rolling_rollout_serial:
  assumes "op_ids_distinct d" and "\<forall>r\<in>set (apply_operations d). op_State r = Apply_Pending"
    and "(rollout_step ci)\<^sup>*\<^sup>* d d'"
    and "r \<in> set (apply_operations d')" and "op_CutoverPolicy r = CutoverPolicyRolling"
    and "op_OperationKind r = ApplyOperationKindWork" and "op_State r \<noteq> Apply_Pending"
    and "e \<in> set (apply_operations d')" and "op_ApplyID e = op_ApplyID r" and "op_before e r"
    and "ci (op_Deployment e) \<noteq> ci (op_Deployment r)"
  shows "op_State e = Apply_Completed \<or> (op_State e = Apply_Failed \<and> op_OnFailure r \<noteq> OnFailureHalt)"
proof -
  have "rolling_serial ci d" "cutover_serial d"
    using assms(2) by (auto simp: rolling_serial_def cutover_serial_def)
  with rollout_invariant [OF assms(3,1)] have "rolling_serial ci d'" by blast
  with assms(4-11) show ?thesis by (simp add: rolling_serial_def settled_for_def)
qed

theorem rolling_rollout_serial_witness:
  "\<exists>d'. (rollout_step ToLower)\<^sup>*\<^sup>* (example_rollout ''rolling'' ''pending'' ''pending'') d' \<and>
     op_State (apply_operations d' ! 1) = Apply_Running \<and>
     (op_State (apply_operations d' ! 0) = Apply_Completed \<or>
      (op_State (apply_operations d' ! 0) = Apply_Failed \<and> op_OnFailure (apply_operations d' ! 1) \<noteq> OnFailureHalt))"
proof -
  let ?claim = "FindNextApplyOperation ToLower (\<lambda>_. False) ''driver'' ''tok'' 100"
  let ?d = "example_rollout ''rolling'' ''pending'' ''pending''"
  let ?d1 = "w_db (snd (run_state ?claim (quiet ?d)))"
  let ?d2 = "w_db (snd (run_state (MarkCompleted Background 1) (quiet ?d1)))"
  let ?d3 = "w_db (snd (run_state ?claim (quiet ?d2)))"
  have s1: "rollout_step ToLower ?d ?d1" by (rule rollout_step.claim [OF prod.collapse [symmetric]])
  have s2: "rollout_step ToLower ?d1 ?d2"
    unfolding MarkCompleted_def
  proof (rule rollout_step.drive [OF prod.collapse [symmetric]])
    have "list_all (\<lambda>q. op_ID q = 1 \<longrightarrow> op_State q = Apply_Running) (apply_operations ?d1)" by code_simp
    then show "op_State (q\<lparr>op_State := Apply_Completed, op_CompletedAt := COALESCE (op_CompletedAt q) (now ?d1)\<rparr>) =
        op_State q \<or> driver_moves ?d1 q (op_State (q\<lparr>op_State := Apply_Completed,
          op_CompletedAt := COALESCE (op_CompletedAt q) (now ?d1)\<rparr>))"
      if "q \<in> set (apply_operations ?d1)" "op_ID q = 1" for q
      using that unfolding list_all_iff by (auto simp: driver_moves_def)
  qed (simp add: op_frame_def)
  have s3: "rollout_step ToLower ?d2 ?d3" by (rule rollout_step.claim [OF prod.collapse [symmetric]])
  have steps: "(rollout_step ToLower)\<^sup>*\<^sup>* ?d ?d3"
    by (rule three_steps [of "rollout_step ToLower", OF s1 s2 s3])
  have len: "length (apply_operations ?d3) = 2" by code_simp
  note mem = nth_mem [of _ "apply_operations ?d3", unfolded len]
  have running: "op_State (apply_operations ?d3 ! 1) = Apply_Running" by code_simp
  have "op_State (apply_operations ?d3 ! 0) = Apply_Completed \<or>
      (op_State (apply_operations ?d3 ! 0) = Apply_Failed \<and> op_OnFailure (apply_operations ?d3 ! 1) \<noteq> OnFailureHalt)"
  proof (rule rolling_rollout_serial [OF _ _ steps])
    show "op_ids_distinct ?d" unfolding op_ids_distinct_def by code_simp
    show "\<forall>r\<in>set (apply_operations ?d). op_State r = Apply_Pending" by code_simp
    show "apply_operations ?d3 ! 1 \<in> set (apply_operations ?d3)" by (rule mem) simp
    show "apply_operations ?d3 ! 0 \<in> set (apply_operations ?d3)" by (rule mem) simp
    show "op_State (apply_operations ?d3 ! 1) \<noteq> Apply_Pending" unfolding running by simp
  qed code_simp+
  with steps running show ?thesis by blast
qed

text \<open>
  Property C2 (cutovers never overlap).  In every state reachable from all-pending operations, two
  different operations of one apply that the cutover claim is responsible for (ordered policy,
  several operations, no manual deferral) are never both cutting over or in their revert window.
\<close>

theorem cutovers_never_overlap:
  assumes "op_ids_distinct d" and "\<forall>r\<in>set (apply_operations d). op_State r = Apply_Pending"
    and "(rollout_step ci)\<^sup>*\<^sup>* d d'"
    and "r \<in> set (apply_operations d')" and "e \<in> set (apply_operations d')"
    and "op_ApplyID e = op_ApplyID r" and "op_ID e \<noteq> op_ID r"
    and "cutover_eligible d' r" and "cutover_eligible d' e"
  shows "\<not> (in_cutover (op_State r) \<and> in_cutover (op_State e))"
proof
  assume both: "in_cutover (op_State r) \<and> in_cutover (op_State e)"
  have "rolling_serial ci d" "cutover_serial d"
    using assms(2) by (auto simp: rolling_serial_def cutover_serial_def)
  with rollout_invariant [OF assms(3,1)] have cs: "cutover_serial d'" by blast
  have "settled_for r e" if "op_before e r"
    using cs assms(4-8) both that by (auto simp: cutover_serial_def)
  moreover have "settled_for e r" if "op_before r e"
    using cs assms(4-9) both that by (auto simp: cutover_serial_def)
  ultimately show False
    using op_before_linear [OF assms(7)] both by (auto simp: settled_for_def)
qed

theorem cutovers_never_overlap_witness:
  "\<exists>d'. (rollout_step ToLower)\<^sup>*\<^sup>* (example_rollout ''barrier'' ''pending'' ''pending'') d' \<and>
     op_State (apply_operations d' ! 0) = Apply_CuttingOver \<and>
     \<not> (in_cutover (op_State (apply_operations d' ! 0)) \<and> in_cutover (op_State (apply_operations d' ! 1)))"
proof -
  let ?d = "example_rollout ''barrier'' ''pending'' ''pending''"
  let ?d1 = "w_db (snd (run_state (FindNextApplyOperation ToLower (\<lambda>_. False) ''driver'' ''tok'' 100) (quiet ?d)))"
  let ?d2 = "w_db (snd (run_state (UpdateState Background 1 Apply_WaitingForCutover) (quiet ?d1)))"
  let ?d3 = "w_db (snd (run_state (FindNextApplyOperationCutover (\<lambda>_. False) ''driver'' ''tok2'' 100) (quiet ?d2)))"
  have s1: "rollout_step ToLower ?d ?d1" by (rule rollout_step.claim [OF prod.collapse [symmetric]])
  have s2: "rollout_step ToLower ?d1 ?d2"
    unfolding UpdateState_def
  proof (rule rollout_step.drive [OF prod.collapse [symmetric]])
    have "list_all (\<lambda>q. op_ID q = 1 \<longrightarrow> op_State q = Apply_Running) (apply_operations ?d1)" by code_simp
    then show "op_State (q\<lparr>op_State := Apply_WaitingForCutover\<rparr>) = op_State q \<or>
        driver_moves ?d1 q (op_State (q\<lparr>op_State := Apply_WaitingForCutover\<rparr>))"
      if "q \<in> set (apply_operations ?d1)" "op_ID q = 1" for q
      using that unfolding list_all_iff by (auto simp: driver_moves_def)
  qed (simp add: op_frame_def)
  have s3: "rollout_step ToLower ?d2 ?d3" by (rule rollout_step.cutover [OF prod.collapse [symmetric]])
  have steps: "(rollout_step ToLower)\<^sup>*\<^sup>* ?d ?d3"
    by (rule three_steps [of "rollout_step ToLower", OF s1 s2 s3])
  have len: "length (apply_operations ?d3) = 2" by code_simp
  note mem = nth_mem [of _ "apply_operations ?d3", unfolded len]
  have cut: "op_State (apply_operations ?d3 ! 0) = Apply_CuttingOver" by code_simp
  have "\<not> (in_cutover (op_State (apply_operations ?d3 ! 0)) \<and> in_cutover (op_State (apply_operations ?d3 ! 1)))"
  proof (rule cutovers_never_overlap [OF _ _ steps])
    show "op_ids_distinct ?d" unfolding op_ids_distinct_def by code_simp
    show "\<forall>r\<in>set (apply_operations ?d). op_State r = Apply_Pending" by code_simp
    show "apply_operations ?d3 ! 0 \<in> set (apply_operations ?d3)" by (rule mem) simp
    show "apply_operations ?d3 ! 1 \<in> set (apply_operations ?d3)" by (rule mem) simp
  qed code_simp+
  with steps cut show ?thesis by blast
qed

text \<open>
  Property C4 (a displaced driver cannot write).  After a claim, the driver that holds the claimed
  row's new lease can write the operation, and every state write under another operation lease fails
  with ErrApplyLeaseLost and changes nothing, whatever the write.
\<close>

theorem displaced_driver_cannot_write:
  assumes "op_ids_distinct d" and "0 < op_ID r" and "0 < op_ApplyID r" and "token \<noteq> ''''"
    and claim: "run_state (FindNextApplyOperation ci locked owner token clk) (quiet d) = (Inr (Some r), w)"
    and "OperationLease_Valid old" and "ol_Token old \<noteq> token"
  shows "(\<exists>d'. run_state (execStateUpdate (WithOperationLease c (ApplyOperation_Lease r)) (op_ID r) msg f)
        (quiet (w_db w)) = (Inr (), quiet d')) \<and>
    (\<exists>e. run_state (execStateUpdate (WithOperationLease c old) (op_ID r) msg f)
        (quiet (w_db w)) = (Inl e, quiet (w_db w)) \<and> errors_Is e ErrApplyLeaseLost)"
proof -
  from claim obtain q where tok: "op_LeaseToken r = token"
    and q: "q \<in> set (apply_operations (w_db w))" "op_ID q = op_ID r" "op_LeaseToken q = token"
    by (rule FindNext_leases) blast
  have dist: "op_ids_distinct (w_db w)"
    by (rule op_ids_distinct_moved [OF FindNext_moves [OF assms(1) claim] assms(1)])
  have "OperationLease_Valid (ApplyOperation_Lease r)"
    using assms(2-4) tok by (simp add: OperationLease_Valid_def ApplyOperation_Lease_def)
  then have g: "operationWriteGuardFromContext (WithOperationLease c (ApplyOperation_Lease r)) =
      Inr (operationGuardOperation (ApplyOperation_Lease r))"
    by (simp add: operationWriteGuardFromContext_def WithOperationLease_def)
  have g': "operationWriteGuardFromContext (WithOperationLease c old) = Inr (operationGuardOperation old)"
    using assms(6) by (simp add: operationWriteGuardFromContext_def WithOperationLease_def)
  have "op_LeaseToken q = ol_Token (ApplyOperation_Lease r)" by (simp add: q(3) tok ApplyOperation_Lease_def)
  from guarded_update_held [OF g q(1,2) this, of msg f False] have "\<exists>d'. run_state (execStateUpdate
      (WithOperationLease c (ApplyOperation_Lease r)) (op_ID r) msg f) (quiet (w_db w)) = (Inr (), quiet d')"
    unfolding execStateUpdate_def by blast
  moreover have "op_LeaseToken p \<noteq> ol_Token old" if "p \<in> set (apply_operations (w_db w))" "op_ID p = op_ID r" for p
    using op_ids_distinctD [OF dist that(1) q(1)] that(2) q(2,3) assms(7) by auto
  ultimately show ?thesis
    using guarded_update_lost [OF g'] q(1,2) unfolding execStateUpdate_def by blast
qed

theorem displaced_driver_cannot_write_witness:
  "\<exists>e. run_state (UpdateState (WithOperationLease Background
       \<lparr>ol_ApplyID = 7, ol_OperationID = 2, ol_Owner = ''old'', ol_Token = ''stale''\<rparr>) 2 Apply_Failed)
     (quiet (w_db (snd (run_state (FindNextApplyOperation ToLower (\<lambda>_. False) ''driver'' ''tok'' 100)
        (quiet (example_rollout ''rolling'' ''completed'' ''pending'')))))) =
     (Inl e, quiet (w_db (snd (run_state (FindNextApplyOperation ToLower (\<lambda>_. False) ''driver'' ''tok'' 100)
        (quiet (example_rollout ''rolling'' ''completed'' ''pending'')))))) \<and> errors_Is e ErrApplyLeaseLost"
proof -
  let ?run = "run_state (FindNextApplyOperation ToLower (\<lambda>_. False) ''driver'' ''tok'' 100)
      (quiet (example_rollout ''rolling'' ''completed'' ''pending''))"
  let ?r = "(example_op 2 ''us'' ''pending'')\<lparr>op_LeaseOwner := ''driver'', op_LeaseToken := ''tok'',
      op_LeaseAcquiredAt := Some 100\<rparr>"
  let ?old = "\<lparr>ol_ApplyID = 7, ol_OperationID = 2, ol_Owner = ''old'', ol_Token = ''stale''\<rparr>"
  have "fst ?run = Inr (Some ?r)" by code_simp
  then have run: "?run = (Inr (Some ?r), snd ?run)" by (simp only: prod_eq_iff fst_conv snd_conv)
  have dist: "op_ids_distinct (example_rollout ''rolling'' ''completed'' ''pending'')"
    unfolding op_ids_distinct_def by code_simp
  have "op_ID ?r = 2" "op_ApplyID ?r = 7" by (simp_all add: example_op_def)
  with displaced_driver_cannot_write [OF dist _ _ _ run, of ?old] show ?thesis
    unfolding UpdateState_def by (simp add: OperationLease_Valid_def)
qed

lemma claim_started_pays:
  assumes ad: "ad \<in> set (apply_operations d)" "op_State ad = Apply_FailedRetryable" "has_sibling d ad"
    and a: "a \<in> set (applies d)" "apply_ID a = op_ApplyID ad" "apply_State a = Apply_FailedRetryable"
      "apply_Attempt a < MaxRecoveryAttempts"
    and "run_state (claim_started owner token clk ad) (quiet d) = (Inr (Some r), w)"
  shows "\<exists>a'\<in>set (applies (w_db w)). apply_ID a' = apply_ID a \<and> apply_Attempt a' = apply_Attempt a + 1"
proof -
  obtain d1 n1 where u1: "release_statement owner token ad d = Inr (d1, n1)"
    unfolding release_statement_def by (rule update_ops_total)
  obtain d2 n2 where u2: "attempt_statement ad d1 = Inr (d2, n2)"
    unfolding attempt_statement_def by (rule update_ops_total)
  obtain d3 n3 where u3: "budget_statement ad d2 = Inr (d3, n3)"
    by (simp add: budget_statement_def Let_def)
  have app: "applies d2 = applies d"
    using arg_cong [OF update_ops_result(1) [OF u1 [unfolded release_statement_def]], of applies]
      arg_cong [OF update_ops_result(1) [OF u2 [unfolded attempt_statement_def]], of applies] by simp
  have key: "map (\<lambda>q. (op_ID q, op_ApplyID q)) (apply_operations d2) =
      map (\<lambda>q. (op_ID q, op_ApplyID q)) (apply_operations d)"
  proof -
    have k: "op_ApplyID (on_update (stamp_op e) f q) = op_ApplyID q"
      if "op_frame (f q) = op_frame q" for e f and q :: ApplyOperation
      using op_frameD [of "on_update (stamp_op e) f q" q] that by simp
    have "map (\<lambda>q. (op_ID q, op_ApplyID q)) (apply_operations d1) =
        map (\<lambda>q. (op_ID q, op_ApplyID q)) (apply_operations d)"
      by (auto simp: update_ops_result(2) [OF u1 [unfolded release_statement_def]] k)
    moreover have "map (\<lambda>q. (op_ID q, op_ApplyID q)) (apply_operations d2) =
        map (\<lambda>q. (op_ID q, op_ApplyID q)) (apply_operations d1)"
      by (auto simp: update_ops_result(2) [OF u2 [unfolded attempt_statement_def]] k)
    ultimately show ?thesis by simp
  qed
  have sib: "list_ex (\<lambda>s. op_ApplyID s = i \<and> op_ID s \<noteq> j) rs =
      list_ex (\<lambda>(k, l). l = i \<and> k \<noteq> j) (map (\<lambda>q. (op_ID q, op_ApplyID q)) rs)" for i j rs
    by (induction rs) auto
  have "list_ex (\<lambda>s. op_ApplyID s = apply_ID a \<and> op_ID s \<noteq> op_ID ad) (apply_operations d2)"
    using ad(3) unfolding has_sibling_def sib key a(2) .
  then have "a\<lparr>apply_Attempt := apply_Attempt a + 1, apply_UpdatedAt := now d2\<rparr> \<in> set (applies d3)"
    using u3 a by (auto simp: budget_statement_def Let_def app set_sql_update image_iff intro!: bexI [of _ a])
  moreover from assms(8) u1 u2 u3 ad(2) have "w_db w = d3"
    by (auto simp: claim_started_def commit_claim_def split: if_splits)
  ultimately show ?thesis by (intro bexI) simp_all
qed

text \<open>
  Property C38 (a retry pays for itself).  When an operation is handed out for another attempt while
  its apply, with several operations, is waiting for a retry, the budget was not used up, the failure
  is recent enough, and the apply's attempt count goes up by exactly one; so such claims can happen
  at most MaxRecoveryAttempts times in a row.
\<close>

theorem retry_consumes_budget:
  assumes "distinct (map apply_ID (applies d))" and "a \<in> set (applies d)"
    and "apply_ID a = op_ApplyID r" and "apply_State a = Apply_FailedRetryable"
    and claim: "run_state (FindNextApplyOperation ci locked owner token clk) (quiet d) = (Inr (Some r), w)"
    and "op_State r = Apply_FailedRetryable" and "has_sibling d r"
  shows "apply_Attempt a < MaxRecoveryAttempts \<and> apply_UpdatedAt a \<ge> now d - retryableRecoveryFreshness \<and>
    (\<exists>a'\<in>set (applies (w_db w)). apply_ID a' = apply_ID a \<and> apply_Attempt a' = apply_Attempt a + 1)"
proof -
  from claim obtain w2 where tx: "run_state (claim_tx ci locked owner token clk) (quiet d) = (Inr (Some r), w2)"
    and w: "w = rollbackTx w2"
    by (auto simp: FindNextApplyOperation_def split: if_splits prod.splits)
  from claim obtain ad where sel: "select_op (claimable ci) locked d = Some ad"
    and fr: "op_frame r = op_frame ad" and st: "op_State r = op_State ad" by (rule FindNext_leases)
  note ad = select_op_SomeD [OF sel]
  have rt: "op_State ad = Apply_FailedRetryable" using assms(6) st by simp
  from ad rt have "retry_claimable d ad"
    by (auto simp: claimable_def pending_claimable_def stale_claimable_def resume_claimable_def
        deferred_deploy_claimable_def claimableApplyStates_def)
  then obtain b where b: "b \<in> set (applies d)" "apply_ID b = op_ApplyID ad"
    and budget: "(apply_State b = Apply_FailedRetryable \<and> apply_Attempt b < MaxRecoveryAttempts \<and>
        apply_UpdatedAt b \<ge> now d - retryableRecoveryFreshness) \<or> apply_State b \<in> set claimableApplyStates"
    unfolding retry_claimable_def list_ex_iff by blast
  have ids: "op_ApplyID ad = op_ApplyID r" "op_ID ad = op_ID r" using op_frameD [OF fr] by simp_all
  have "b = a" using assms(1-3) b ids by (auto simp: distinct_map inj_on_def)
  then have bud: "apply_Attempt a < MaxRecoveryAttempts" "apply_UpdatedAt a \<ge> now d - retryableRecoveryFreshness"
    using budget assms(4) by (auto simp: claimableApplyStates_def)
  have "has_sibling d ad" using assms(7) by (simp add: has_sibling_def ids)
  moreover from tx sel rt have run: "run_state (claim_started owner token clk ad) (quiet d) = (Inr (Some r), w2)"
    by (simp add: claim_tx_def)
  ultimately have "\<exists>a'\<in>set (applies (w_db w2)). apply_ID a' = apply_ID a \<and> apply_Attempt a' = apply_Attempt a + 1"
    using assms(2-4) ad rt bud ids by (intro claim_started_pays) simp_all
  moreover have "w_undo w2 = []"
    using run by (auto simp: claim_started_def dest: run_commit_claim split: if_splits sum.splits prod.splits)
  ultimately show ?thesis using bud by (simp add: w rollbackTx_def)
qed

theorem retry_consumes_budget_witness:
  "\<exists>a'\<in>set (applies (w_db (snd (run_state (FindNextApplyOperation ToLower (\<lambda>_. False) ''driver'' ''tok'' 100)
      (quiet ((example_rollout ''rolling'' ''failed_retryable'' ''pending'')
         \<lparr>applies := [example_apply\<lparr>apply_State := ''failed_retryable''\<rparr>]\<rparr>)))))). apply_Attempt a' = 1"
proof -
  let ?a = "example_apply\<lparr>apply_State := ''failed_retryable''\<rparr>"
  let ?d = "(example_rollout ''rolling'' ''failed_retryable'' ''pending'')\<lparr>applies := [?a]\<rparr>"
  let ?run = "run_state (FindNextApplyOperation ToLower (\<lambda>_. False) ''driver'' ''tok'' 100) (quiet ?d)"
  let ?r = "(example_op 1 ''eu'' ''failed_retryable'')\<lparr>op_LeaseOwner := ''driver'', op_LeaseToken := ''tok'',
      op_LeaseAcquiredAt := Some 100, op_Attempt := 1\<rparr>"
  have "fst ?run = Inr (Some ?r)" by code_simp
  then have run: "?run = (Inr (Some ?r), snd ?run)" by (simp only: prod_eq_iff fst_conv snd_conv)
  have sib: "has_sibling ?d ?r" by code_simp
  have "distinct (map apply_ID (applies ?d))" "?a \<in> set (applies ?d)" "apply_ID ?a = op_ApplyID ?r"
    "apply_State ?a = Apply_FailedRetryable" "op_State ?r = Apply_FailedRetryable" "apply_Attempt ?a = 0"
    by (simp_all add: example_apply_def zero_apply_def example_op_def)
  with retry_consumes_budget [of ?d ?a ?r, OF _ _ _ _ run _ sib] show ?thesis by force
qed

definition resume_example :: "db \<Rightarrow> db" where
  "resume_example d =
    (let d0 = w_db (snd (run_state (op_Heartbeat Background 1) (quiet d)));
         d1 = w_db (snd (run_state (MarkPendingStoppedByApply Background 7) (quiet d0)));
         d2 = w_db (snd (run_state (RequestPending \<lparr>cr_ID = 0, cr_ApplyID = 7, cr_Operation = ControlOperationStart,
            cr_Status = '''', cr_RequestedBy = ''me'', cr_ErrorMessage = '''', cr_Metadata = '''',
            cr_CompletedAt = None, cr_CreatedAt = 0, cr_UpdatedAt = 0\<rparr>) (quiet d1)))
     in d2)"

text \<open>
  Further fact (the order of resumed work).  The clause that hands out stopped operations has no
  deployment-order gate, on the ground that such a row already ran.  But
  \<^verbatim>\<open>MarkPendingStoppedByApply\<close> also stops operations that never started.  In the example the first
  of two rolling deployments is running with a fresh heartbeat and the second pending; a stop reaches the second, a start is
  requested, and the claim then hands out the second deployment, which never started, while the first
  has not completed.  Before the stop it was not claimable.
\<close>

theorem resume_skips_deployment_order:
  "\<not> claimable ToLower (example_rollout ''rolling'' ''running'' ''pending'')
       (example_op 2 ''us'' ''pending'') \<and>
   map op_StartedAt (apply_operations (resume_example (example_rollout ''rolling'' ''running'' ''pending''))) =
     [None, None] \<and>
   (case fst (run_state (FindNextApplyOperation ToLower (\<lambda>_. False) ''driver'' ''tok'' 100)
      (quiet (resume_example (example_rollout ''rolling'' ''running'' ''pending'')))) of
      Inr (Some r) \<Rightarrow> op_ID r = 2 \<and> op_State r = Apply_Stopped | _ \<Rightarrow> False) \<and>
   map op_State (apply_operations (w_db (snd (run_state
      (FindNextApplyOperation ToLower (\<lambda>_. False) ''driver'' ''tok'' 100)
      (quiet (resume_example (example_rollout ''rolling'' ''running'' ''pending''))))))) =
     [Apply_Running, Apply_Resuming]"
  by (intro conjI; code_simp)

end
