(* ===== verification/Task_Store.thy ===== *)
theory Task_Store
  imports Apply_Operations
begin

text \<open>
  The task store (\<^verbatim>\<open>pkg/storage/mysqlstore/tasks.go\<close>): one row per table change of an apply, and the
  per-shard progress rows a driver writes under its lease.
\<close>

section \<open>Statements\<close>

definition update_tasks :: "(db \<Rightarrow> Task \<Rightarrow> bool) \<Rightarrow> (db \<Rightarrow> Task \<Rightarrow> Task) \<Rightarrow> statement" where
  "update_tasks P f d =
    Inr (d\<lparr>tasks := sql_update (P d) (f d) (tasks d)\<rparr>, rows_changed (P d) (f d) (tasks d))"

text \<open>An INSERT of the task when \<open>guard\<close> holds; the number is the id of the row, or zero for no row.\<close>

definition insert_task :: "(string \<Rightarrow> string) \<Rightarrow> (db \<Rightarrow> bool) \<Rightarrow> Task \<Rightarrow> statement" where
  "insert_task ci guard task d =
    (if \<not> guard d then Inr (d, 0)
     else if list_ex (\<lambda>t. ci (task_Identifier t) = ci (task_Identifier task)) (tasks d) then Inl duplicate_entry
     else Inr (d\<lparr>tasks := tasks d @ [task\<lparr>task_ID := tasks_next d, task_Options := nullJSON (task_Options task)\<rparr>],
                 tasks_next := tasks_next d + 1\<rparr>, tasks_next d))"

section \<open>Operations\<close>

definition insertTask :: "(statement \<Rightarrow> int prog) \<Rightarrow> (string \<Rightarrow> string) \<Rightarrow> Task \<Rightarrow> int prog" where
  "insertTask exec ci task = exec (insert_task ci (\<lambda>_. True) task)"

definition Task_Create :: "(string \<Rightarrow> string) \<Rightarrow> Task \<Rightarrow> int prog" where
  "Task_Create ci task = insertTask ExecContext ci task"

definition Task_Get :: "(string \<Rightarrow> string) \<Rightarrow> string \<Rightarrow> Task option prog" where
  "Task_Get ci taskIdentifier = QueryContext (\<lambda>d. find (\<lambda>t. ci (task_Identifier t) = ci taskIdentifier) (tasks d))"

text \<open>The columns that an update writes.\<close>

definition write_task :: "Task \<Rightarrow> db \<Rightarrow> Task \<Rightarrow> Task" where
  "write_task task d r = r\<lparr>task_State := task_State task, task_ErrorMessage := task_ErrorMessage task,
     task_Options := nullJSON (task_Options task), task_Attempt := task_Attempt task,
     task_RowsCopied := task_RowsCopied task, task_RowsTotal := task_RowsTotal task,
     task_ProgressPercent := task_ProgressPercent task, task_ETASeconds := task_ETASeconds task,
     task_ChecksumRowsChecked := task_ChecksumRowsChecked task, task_ChecksumRowsTotal := task_ChecksumRowsTotal task,
     task_CutoverAttempts := task_CutoverAttempts task, task_IsInstant := task_IsInstant task,
     task_ReadyToComplete := task_ReadyToComplete task, task_EngineMigrationID := task_EngineMigrationID task,
     task_StartedAt := task_StartedAt task, task_CompletedAt := task_CompletedAt task, task_UpdatedAt := now d\<rparr>"

definition operation_lease_current :: "OperationLease \<Rightarrow> db \<Rightarrow> bool" where
  "operation_lease_current lease d \<longleftrightarrow>
    list_ex (\<lambda>r. op_ID r = ol_OperationID lease \<and> op_LeaseToken r = ol_Token lease) (apply_operations d)"

text \<open>An UPDATE under a lease: no changed row means that the lease has to be verified.\<close>

definition leased_task_write :: "statement \<Rightarrow> unit prog \<Rightarrow> unit prog" where
  "leased_task_write stm verifyLeaseStillOwned =
    do {
      r \<leftarrow> ExecContext stm;
      case r of
        Inl e \<Rightarrow> State_Monad.return (Inl e)
      | Inr rows \<Rightarrow> if rows = 0 then verifyLeaseStillOwned else State_Monad.return (Inr ())
    }"

definition Task_Update :: "ctx \<Rightarrow> Task \<Rightarrow> unit prog" where
  "Task_Update c task =
    (case OperationLeaseFromContext c of
       Some opLease \<Rightarrow>
         if \<not> OperationLease_Valid opLease
         then State_Monad.return (Inl (Wrapped ''invalid operation lease for task'' ErrApplyLeaseLost))
         else leased_task_write
           (update_tasks (\<lambda>d r. task_ID r = task_ID task \<and> task_ApplyOperationID r = Some (ol_OperationID opLease) \<and>
              operation_lease_current opLease d) (write_task task))
           (ensureOperationLeaseStillOwned opLease)
     | None \<Rightarrow>
         (case applyLeaseFromContext c (task_ApplyID task) of
            Inl e \<Rightarrow> State_Monad.return (Inl e)
          | Inr (Some lease) \<Rightarrow>
              leased_task_write
                (update_tasks (\<lambda>d r. task_ID r = task_ID task \<and>
                   list_ex (\<lambda>a. apply_ID a = task_ApplyID r \<and> apply_LeaseToken a = al_Token lease) (applies d))
                   (write_task task))
                (ensureApplyLeaseStillOwned lease)
          | Inr None \<Rightarrow>
              do {
                r \<leftarrow> ExecContext (update_tasks (\<lambda>d r. task_ID r = task_ID task) (write_task task));
                case r of
                  Inl e \<Rightarrow> State_Monad.return (Inl e)
                | Inr _ \<Rightarrow> State_Monad.return (Inr ())
              }))"

section \<open>Progress of shards\<close>

definition shard_key :: "(string \<Rightarrow> string) \<Rightarrow> Task \<Rightarrow> int option \<times> string \<times> string \<times> string" where
  "shard_key ci t = (task_ApplyOperationID t, ci (task_Namespace t), ci (task_TableName t), ci (task_Shard t))"

definition verifyOperationBelongsToApply :: "int \<Rightarrow> int \<Rightarrow> unit prog" where
  "verifyOperationBelongsToApply operationID applyID =
    do {
      r \<leftarrow> QueryContext (\<lambda>d. map_option op_ApplyID (find (\<lambda>r. op_ID r = operationID) (apply_operations d)));
      case r of
        Inl e \<Rightarrow> State_Monad.return (Inl (Wrapped ''verify apply_operation belongs to apply'' e))
      | Inr None \<Rightarrow> State_Monad.return (Inl (Errorf ''shard progress references apply_operation that does not exist''))
      | Inr (Some opApplyID) \<Rightarrow>
          if opApplyID \<noteq> applyID
          then State_Monad.return (Inl (Errorf ''shard progress apply_operation belongs to another apply''))
          else State_Monad.return (Inr ())
    }"

definition insertShardTaskGuarded :: "(string \<Rightarrow> string) \<Rightarrow> Task \<Rightarrow> OperationLease \<Rightarrow> unit prog" where
  "insertShardTaskGuarded ci task opLease =
    do {
      r \<leftarrow> ExecContext (insert_task ci (operation_lease_current opLease) task);
      case r of
        Inl e \<Rightarrow> State_Monad.return (Inl (Wrapped ''insert shard task for operation'' e))
      | Inr newID \<Rightarrow>
          if newID = 0 then ensureOperationLeaseStillOwned opLease else State_Monad.return (Inr ())
    }"

definition insertShardTaskGuardedByApply :: "(string \<Rightarrow> string) \<Rightarrow> Task \<Rightarrow> ApplyLease \<Rightarrow> unit prog" where
  "insertShardTaskGuardedByApply ci task lease =
    do {
      r \<leftarrow> ExecContext (insert_task ci (lease_current lease) task);
      case r of
        Inl e \<Rightarrow> State_Monad.return (Inl (Wrapped ''insert shard task for apply'' e))
      | Inr newID \<Rightarrow>
          if newID = 0 then ensureApplyLeaseStillOwned lease else State_Monad.return (Inr ())
    }"

text \<open>The lookup and the write, once the arguments are checked.\<close>

definition upsert_shard ::
  "(string \<Rightarrow> string) \<Rightarrow> ctx \<Rightarrow> Task \<Rightarrow> int \<Rightarrow> OperationLease option \<Rightarrow> ApplyLease option \<Rightarrow> unit prog" where
  "upsert_shard ci c task operationID opLease applyLease =
    do {
      q \<leftarrow> QueryContext (\<lambda>d. map_option task_ID (find (\<lambda>t. shard_key ci t = shard_key ci task) (tasks d)));
      case q of
        Inl e \<Rightarrow> State_Monad.return (Inl (Wrapped ''look up shard task'' e))
      | Inr (Some i) \<Rightarrow> Task_Update c (task\<lparr>task_ID := i\<rparr>)
      | Inr None \<Rightarrow>
          do {
            v \<leftarrow> verifyOperationBelongsToApply operationID (task_ApplyID task);
            case v of
              Inl e \<Rightarrow> State_Monad.return (Inl e)
            | Inr _ \<Rightarrow>
                (case opLease of
                   Some lease \<Rightarrow> insertShardTaskGuarded ci task lease
                 | None \<Rightarrow> insertShardTaskGuardedByApply ci task
                     (case applyLease of Some lease \<Rightarrow> lease | None \<Rightarrow> \<lparr>al_ApplyID = 0, al_Owner = '''', al_Token = ''''\<rparr>))
          }
    }"

definition UpsertShardProgress :: "(string \<Rightarrow> string) \<Rightarrow> ctx \<Rightarrow> Task \<Rightarrow> unit prog" where
  "UpsertShardProgress ci c task =
    (case task_ApplyOperationID task of
       None \<Rightarrow> State_Monad.return (Inl (Errorf ''upsert shard progress requires apply_operation_id''))
     | Some operationID \<Rightarrow>
         let opLease = OperationLeaseFromContext c in
         if opLease \<noteq> None \<and> \<not> OperationLease_Valid (the opLease)
         then State_Monad.return (Inl (Wrapped ''invalid operation lease for shard progress'' ErrApplyLeaseLost))
         else if opLease \<noteq> None \<and> operationID \<noteq> ol_OperationID (the opLease)
         then State_Monad.return (Inl (Errorf ''upsert shard progress targets another operation than the held lease''))
         else
           (case applyLeaseFromContext c (task_ApplyID task) of
              Inl e \<Rightarrow> State_Monad.return (Inl e)
            | Inr applyLease \<Rightarrow>
                if opLease = None \<and> applyLease = None
                then State_Monad.return (Inl (Errorf ''upsert shard progress requires an operation or apply lease''))
                else if task_TableName task = ''''
                then State_Monad.return (Inl (Errorf ''upsert shard progress requires a table name''))
                else if task_Shard task = ''''
                then State_Monad.return (Inl (Errorf ''upsert shard progress requires a non-empty shard''))
                else upsert_shard ci c task operationID opLease applyLease))"

section \<open>Reading\<close>

text \<open>A row that a drive of the operation loads: unsharded, or the row the operation's key names.\<close>

definition drive_task :: "(string \<Rightarrow> string) \<Rightarrow> ApplyOperation option \<Rightarrow> Task \<Rightarrow> bool" where
  "drive_task ci ao t \<longleftrightarrow>
    task_Shard t = '''' \<or>
    (case ao of
       None \<Rightarrow> False
     | Some r \<Rightarrow> op_OperationKind r = ApplyOperationKindWork \<and>
         ci (op_OperationKey r) = ci (ShardOperationKey (task_Namespace t) (task_Shard t) (task_TableName t)))"

definition newest_first :: "Task list \<Rightarrow> Task list" where
  "newest_first ts = sort_key (\<lambda>t. - task_CreatedAt t) ts"

definition GetByApplyID :: "(string \<Rightarrow> string) \<Rightarrow> int \<Rightarrow> Task list prog" where
  "GetByApplyID ci applyID = QueryContext (\<lambda>d. newest_first (filter (\<lambda>t. task_ApplyID t = applyID \<and>
     drive_task ci (find (\<lambda>r. Some (op_ID r) = task_ApplyOperationID t \<and> op_ApplyID r = task_ApplyID t) (apply_operations d)) t)
     (tasks d)))"

definition CountByApplyID :: "int \<Rightarrow> int prog" where
  "CountByApplyID applyID = QueryContext (\<lambda>d. int (length (filter (\<lambda>t. task_ApplyID t = applyID) (tasks d))))"

definition GetByApplyOperationID :: "(string \<Rightarrow> string) \<Rightarrow> int \<Rightarrow> Task list prog" where
  "GetByApplyOperationID ci applyOperationID = QueryContext (\<lambda>d.
     case find (\<lambda>r. op_ID r = applyOperationID) (apply_operations d) of
       None \<Rightarrow> []
     | Some ao \<Rightarrow> newest_first (sort_key (\<lambda>t. - task_ID t) (filter (\<lambda>t. task_ApplyOperationID t = Some applyOperationID \<and>
         drive_task ci (Some ao) t) (tasks d))))"

text \<open>\<open>order\<close> sorts by namespace, table and shard under the collation.\<close>

definition GetShardProgressByApplyOperationID :: "(Task list \<Rightarrow> Task list) \<Rightarrow> int \<Rightarrow> Task list prog" where
  "GetShardProgressByApplyOperationID order applyOperationID = QueryContext (\<lambda>d.
     order (filter (\<lambda>t. task_ApplyOperationID t = Some applyOperationID \<and> task_Shard t \<noteq> '''') (tasks d)))"

definition Task_GetByDatabase :: "(string \<Rightarrow> string) \<Rightarrow> string \<Rightarrow> Task list prog" where
  "Task_GetByDatabase ci database = QueryContext (\<lambda>d.
     newest_first (sort_key (\<lambda>t. - task_ID t) (filter (\<lambda>t. ci (task_Database t) = ci database) (tasks d))))"

definition GetActive :: "Task list prog" where
  "GetActive = QueryContext (\<lambda>d. newest_first (filter (\<lambda>t. task_State t \<notin> set TerminalTaskStates) (tasks d)))"

definition Task_GetByPR :: "(string \<Rightarrow> string) \<Rightarrow> string \<Rightarrow> int \<Rightarrow> Task list prog" where
  "Task_GetByPR ci repo pr = QueryContext (\<lambda>d.
     newest_first (filter (\<lambda>t. ci (task_Repository t) = ci repo \<and> task_PullRequest t = pr) (tasks d)))"

record TaskFilter =
  tf_Repository :: string
  tf_PullRequest :: int
  tf_IncludeCompleted :: bool
  tf_Since :: int

definition Task_List :: "(string \<Rightarrow> string) \<Rightarrow> TaskFilter \<Rightarrow> Task list prog" where
  "Task_List ci filt = QueryContext (\<lambda>d. newest_first (filter (\<lambda>t.
     (tf_Repository filt \<noteq> '''' \<longrightarrow> ci (task_Repository t) = ci (tf_Repository filt) \<and>
        (tf_PullRequest filt > 0 \<longrightarrow> task_PullRequest t = tf_PullRequest filt)) \<and>
     (\<not> tf_IncludeCompleted filt \<longrightarrow> task_State t \<notin> set TerminalTaskStates) \<and>
     (tf_Since filt \<noteq> 0 \<longrightarrow> (case task_StartedAt t of None \<Rightarrow> False | Some s \<Rightarrow> s \<ge> tf_Since filt)))
     (tasks d)))"

section \<open>A displaced driver cannot report\<close>

lemma update_tasks_none:
  assumes "\<And>t. \<not> P d t"
  shows "update_tasks P f d = Inr (d, 0)"
  using assms by (simp add: update_tasks_def sql_update_def rows_changed_def)

text \<open>
  Property C31 (safety).  Once the token of an operation's lease is no longer the row's, neither a task
  update nor a shard progress report under that lease changes anything; the task update says that
  the lease is lost.
\<close>

theorem displaced_driver_cannot_report:
  assumes "OperationLeaseFromContext c = Some lease" and "\<not> operation_lease_current lease d"
  shows "(\<exists>e. run_state (Task_Update c task) (quiet d) = (Inl e, quiet d) \<and> errors_Is e ErrApplyLeaseLost) \<and>
    (\<exists>e. run_state (UpsertShardProgress ci c task) (quiet d) = (Inl e, quiet d))"
proof -
  have lost: "run_state (ensureOperationLeaseStillOwned lease) (quiet d) =
      (Inl (Wrapped ''operation lease is no longer current'' ErrApplyLeaseLost), quiet d)"
    using assms(2) by (simp add: ensureOperationLeaseStillOwned_def operationLeaseOwnsRow_def operation_lease_current_def)
  have upd: "\<exists>e. run_state (Task_Update c t) (quiet d) = (Inl e, quiet d) \<and> errors_Is e ErrApplyLeaseLost" for t
    using assms by (simp add: Task_Update_def leased_task_write_def update_tasks_none lost)
  have ins: "\<exists>e. run_state (insertShardTaskGuarded ci t lease) (quiet d) = (Inl e, quiet d)" for t
    using assms by (simp add: insertShardTaskGuarded_def insert_task_def lost)
  have ver: "\<exists>r. run_state (verifyOperationBelongsToApply i j) (quiet d) = (r, quiet d)" for i j
    by (simp add: verifyOperationBelongsToApply_def split: option.splits)
  have "\<exists>e. run_state (upsert_shard ci c task i (Some lease) al) (quiet d) = (Inl e, quiet d)" for i al
    using upd ins ver[of i "task_ApplyID task"] by (auto simp: upsert_shard_def split: option.splits sum.splits)
  then have "\<exists>e. run_state (UpsertShardProgress ci c task) (quiet d) = (Inl e, quiet d)"
    using assms(1) by (auto simp: UpsertShardProgress_def Let_def split: option.splits sum.splits)
  with upd show ?thesis by blast
qed

definition example_task :: Task where
  "example_task = \<lparr>task_ID = 3, task_Identifier = ''task_3'', task_ApplyID = 7, task_ApplyOperationID = Some 1,
     task_PlanID = 1, task_Database = ''orders'', task_DatabaseType = ''mysql'', task_Engine = ''spirit'', task_Repository = ''acme/shop'',
     task_PullRequest = 5, task_Environment = ''staging'', task_State = Task_Running, task_ErrorMessage = '''', task_Options = '''',
     task_Attempt = 0, task_Namespace = ''orders'', task_TableName = ''items'', task_Shard = ''-80'', task_DDL = '''', task_DDLAction = '''',
     task_RowsCopied = 10, task_RowsTotal = 100, task_ProgressPercent = 10, task_ETASeconds = 9, task_ChecksumRowsChecked = 0,
     task_ChecksumRowsTotal = 0, task_CutoverAttempts = 0, task_IsInstant = False, task_ReadyToComplete = False,
     task_EngineMigrationID = '''', task_CreatedAt = 1, task_UpdatedAt = 1, task_StartedAt = None, task_CompletedAt = None\<rparr>"

theorem displaced_driver_cannot_report_witness:
  "\<exists>e. run_state (Task_Update (WithOperationLease Background \<lparr>ol_ApplyID = 7, ol_OperationID = 1, ol_Owner = ''driver-0'', ol_Token = ''old''\<rparr>)
        (example_task\<lparr>task_RowsCopied := 20\<rparr>))
      (quiet (empty_db\<lparr>apply_operations := [(example_op 1 ''eu'' ''running'')\<lparr>op_LeaseToken := ''new''\<rparr>], tasks := [example_task]\<rparr>)) =
    (Inl e, quiet (empty_db\<lparr>apply_operations := [(example_op 1 ''eu'' ''running'')\<lparr>op_LeaseToken := ''new''\<rparr>], tasks := [example_task]\<rparr>))"
proof -
  let ?l = "\<lparr>ol_ApplyID = 7, ol_OperationID = 1, ol_Owner = ''driver-0'', ol_Token = ''old''\<rparr>"
  let ?d = "empty_db\<lparr>apply_operations := [(example_op 1 ''eu'' ''running'')\<lparr>op_LeaseToken := ''new''\<rparr>], tasks := [example_task]\<rparr>"
  have "OperationLeaseFromContext (WithOperationLease Background ?l) = Some ?l" by (simp add: WithOperationLease_def)
  moreover have "\<not> operation_lease_current ?l ?d" by (simp add: operation_lease_current_def)
  ultimately show ?thesis using displaced_driver_cannot_report by blast
qed

end
