(* ===== verification/Apply_Store.thy ===== *)
theory Apply_Store
  imports Operation_Claims Task_Store
begin

text \<open>
  The apply store (\<^verbatim>\<open>pkg/storage/mysqlstore/applies.go\<close>).  An apply is active until its state is
  terminal; it reserves its deployment and the deployments of its operations.  Every write that makes
  an apply active holds the named lock of the target and re-checks that no other active apply
  reserves one of the deployments.
\<close>

section \<open>States and targets\<close>

definition terminalApplyStates :: "string list" where
  "terminalApplyStates = [Apply_Completed, Apply_Failed, Apply_Stopped, Apply_Cancelled, Apply_Reverted]"

definition isActiveApplyState :: "string \<Rightarrow> bool" where
  "isActiveApplyState applyState \<longleftrightarrow> \<not> IsTerminalApplyState applyState"

definition hasApplyTarget :: "string \<Rightarrow> string \<Rightarrow> string \<Rightarrow> bool" where
  "hasApplyTarget database dbType environment \<longleftrightarrow> database \<noteq> '''' \<and> dbType \<noteq> '''' \<and> environment \<noteq> ''''"

text \<open>The duplicates are dropped; the sorting only orders the placeholders of the query.\<close>

definition dedupeDeployments :: "string list \<Rightarrow> string list" where
  "dedupeDeployments deployments = remdups deployments"

section \<open>Statements\<close>

definition update_applies :: "(db \<Rightarrow> Apply \<Rightarrow> bool) \<Rightarrow> (db \<Rightarrow> Apply \<Rightarrow> Apply) \<Rightarrow> statement" where
  "update_applies P f d =
    Inr (d\<lparr>applies := sql_update (P d) (f d) (applies d)\<rparr>, rows_changed (P d) (f d) (applies d))"

text \<open>The unique keys are the identifier and the idempotency key, which is NULL when empty.\<close>

definition apply_conflict :: "(string \<Rightarrow> string) \<Rightarrow> Apply \<Rightarrow> Apply \<Rightarrow> bool" where
  "apply_conflict ci row a \<longleftrightarrow>
    ci (apply_Identifier a) = ci (apply_Identifier row) \<or>
    (apply_IdempotencyKey row \<noteq> '''' \<and> apply_IdempotencyKey a \<noteq> '''' \<and>
     ci (apply_IdempotencyKey a) = ci (apply_IdempotencyKey row))"

definition inserted_apply :: "Apply \<Rightarrow> db \<Rightarrow> Apply" where
  "inserted_apply apply d = apply\<lparr>apply_ID := applies_next d, apply_ExpectedLockOwner := '''',
     apply_ExpectedPendingPlanID := '''', apply_LeaseOwner := '''', apply_LeaseToken := '''',
     apply_LeaseAcquiredAt := None, apply_StartedAt := None, apply_CompletedAt := None,
     apply_RevertSkippedAt := None, apply_CreatedAt := now d, apply_UpdatedAt := now d\<rparr>"

definition insert_apply :: "(string \<Rightarrow> string) \<Rightarrow> Apply \<Rightarrow> statement" where
  "insert_apply ci apply d =
    (if list_ex (apply_conflict ci apply) (applies d) then Inl duplicate_entry
     else Inr (d\<lparr>applies := applies d @ [inserted_apply apply d], applies_next := applies_next d + 1\<rparr>, applies_next d))"

text \<open>Undoing statements of a transaction.\<close>

definition undo_insert_apply :: "db \<Rightarrow> db \<Rightarrow> db" where
  "undo_insert_apply old d = d\<lparr>applies := filter (\<lambda>a. apply_ID a \<noteq> applies_next old) (applies d)\<rparr>"

definition undo_insert_op :: "db \<Rightarrow> db \<Rightarrow> db" where
  "undo_insert_op old d =
    d\<lparr>apply_operations := filter (\<lambda>r. op_ID r \<noteq> apply_operations_next old) (apply_operations d)\<rparr>"

definition undo_insert_task :: "db \<Rightarrow> db \<Rightarrow> db" where
  "undo_insert_task old d = d\<lparr>tasks := filter (\<lambda>t. task_ID t \<noteq> tasks_next old) (tasks d)\<rparr>"

definition restore_rows :: "('r \<Rightarrow> int) \<Rightarrow> ('r \<Rightarrow> bool) \<Rightarrow> 'r list \<Rightarrow> 'r list \<Rightarrow> 'r list" where
  "restore_rows key P old rs =
    map (\<lambda>r. case find (\<lambda>q. key q = key r \<and> P q) old of Some q \<Rightarrow> q | None \<Rightarrow> r) rs"

definition undo_applies :: "(Apply \<Rightarrow> bool) \<Rightarrow> db \<Rightarrow> db \<Rightarrow> db" where
  "undo_applies P old d = d\<lparr>applies := restore_rows apply_ID P (applies old) (applies d)\<rparr>"

definition undo_ops :: "(ApplyOperation \<Rightarrow> bool) \<Rightarrow> db \<Rightarrow> db \<Rightarrow> db" where
  "undo_ops P old d =
    d\<lparr>apply_operations := restore_rows op_ID P (apply_operations old) (apply_operations d)\<rparr>"

definition undo_tasks :: "(Task \<Rightarrow> bool) \<Rightarrow> db \<Rightarrow> db \<Rightarrow> db" where
  "undo_tasks P old d = d\<lparr>tasks := restore_rows task_ID P (tasks old) (tasks d)\<rparr>"

definition undo_delete_applies :: "(Apply \<Rightarrow> bool) \<Rightarrow> db \<Rightarrow> db \<Rightarrow> db" where
  "undo_delete_applies P old d = d\<lparr>applies := applies d @ filter P (applies old)\<rparr>"

definition undo_delete_ops :: "(ApplyOperation \<Rightarrow> bool) \<Rightarrow> db \<Rightarrow> db \<Rightarrow> db" where
  "undo_delete_ops P old d = d\<lparr>apply_operations := apply_operations d @ filter P (apply_operations old)\<rparr>"

definition undo_requests :: "int \<Rightarrow> db \<Rightarrow> db \<Rightarrow> db" where
  "undo_requests applyID old d = d\<lparr>control_requests :=
     restore_rows cr_ID (\<lambda>q. cr_ApplyID q = applyID) (control_requests old) (control_requests d)\<rparr>"

section \<open>The target lock\<close>

text \<open>
  \<^verbatim>\<open>GET_LOCK\<close> takes a named lock that no session holds, and answers 0 when the wait times out.  The
  name of a lock is a hash of the target; which hash is a parameter \<open>sha\<close>.
\<close>

definition applyTargetLockName :: "(string \<Rightarrow> string) \<Rightarrow> string \<Rightarrow> string \<Rightarrow> string \<Rightarrow> string" where
  "applyTargetLockName sha database dbType environment =
    ''schemabot_apply_'' @ sha (database @ [CHR 0x00] @ dbType @ [CHR 0x00] @ environment)"

definition GET_LOCK :: "string \<Rightarrow> statement" where
  "GET_LOCK name d =
    (if name \<in> set (named_locks d) then Inr (d, 0) else Inr (d\<lparr>named_locks := name # named_locks d\<rparr>, 1))"

definition RELEASE_LOCK :: "string \<Rightarrow> db \<Rightarrow> db" where
  "RELEASE_LOCK name d = d\<lparr>named_locks := remove1 name (named_locks d)\<rparr>"

definition acquireApplyTargetLockConn :: "(string \<Rightarrow> string) \<Rightarrow> string \<Rightarrow> string \<Rightarrow> string \<Rightarrow> string prog" where
  "acquireApplyTargetLockConn sha database dbType environment =
    (if \<not> hasApplyTarget database dbType environment
     then State_Monad.return (Inl (Errorf ''active apply target is required''))
     else
       do {
         r \<leftarrow> ExecContext (GET_LOCK (applyTargetLockName sha database dbType environment));
         case r of
           Inl e \<Rightarrow> State_Monad.return (Inl (Wrapped ''acquire apply target lock'' e))
         | Inr got \<Rightarrow>
             if got \<noteq> 1 then State_Monad.return (Inl (Errorf ''timed out waiting for apply target lock''))
             else State_Monad.return (Inr (applyTargetLockName sha database dbType environment))
       })"

text \<open>
  \<^verbatim>\<open>releaseApplyTargetLockConn\<close>, deferred: the lock goes when it is released, or with the connection that
  is discarded when the release fails.
\<close>

definition defer_release :: "string \<Rightarrow> 'a prog \<Rightarrow> 'a prog" where
  "defer_release name p = State (\<lambda>w. case run_state p w of (r, w') \<Rightarrow> (r, w'\<lparr>w_db := RELEASE_LOCK name (w_db w')\<rparr>))"

text \<open>
  \<^verbatim>\<open>beginApplyWriteTx\<close> and \<^verbatim>\<open>beginApplyTargetWriteTx\<close> with the deferred \<^verbatim>\<open>close\<close> of the caller: the body
  runs in a transaction that is rolled back unless it committed, under the target lock if one is
  asked for.
\<close>

definition with_write_tx :: "string \<Rightarrow> 'a prog \<Rightarrow> 'a prog" where
  "with_write_tx operation body =
    do {
      b \<leftarrow> BeginTx;
      case b of
        Inl e \<Rightarrow> State_Monad.return (Inl (Wrapped (''begin '' @ operation @ '' transaction'') e))
      | Inr _ \<Rightarrow> defer_rollback body
    }"

definition with_target_tx :: "(string \<Rightarrow> string) \<Rightarrow> string \<Rightarrow> string \<Rightarrow> string \<Rightarrow> string \<Rightarrow> 'a prog \<Rightarrow> 'a prog" where
  "with_target_tx sha operation database dbType environment body =
    do {
      l \<leftarrow> acquireApplyTargetLockConn sha database dbType environment;
      case l of
        Inl e \<Rightarrow> State_Monad.return (Inl e)
      | Inr name \<Rightarrow> defer_release name (with_write_tx operation body)
    }"

section \<open>The overlap check\<close>

definition operationDeploymentsForApply :: "int \<Rightarrow> string list prog" where
  "operationDeploymentsForApply applyID =
    do {
      r \<leftarrow> QueryContext (\<lambda>d. map op_Deployment (filter (\<lambda>r. op_ApplyID r = applyID) (apply_operations d)));
      case r of
        Inl e \<Rightarrow> State_Monad.return (Inl (Wrapped ''list operation deployments for apply'' e))
      | Inr deployments \<Rightarrow> State_Monad.return (Inr deployments)
    }"

text \<open>The row \<open>a\<close> is an active apply of the target that reserves one of the deployments.\<close>

definition reserves :: "(string \<Rightarrow> string) \<Rightarrow> db \<Rightarrow> string \<Rightarrow> string \<Rightarrow> string \<Rightarrow> string list \<Rightarrow> Apply \<Rightarrow> bool" where
  "reserves ci d database dbType environment deployments a \<longleftrightarrow>
    ci (apply_Database a) = ci database \<and> ci (apply_DatabaseType a) = ci dbType \<and>
    ci (apply_Environment a) = ci environment \<and> apply_State a \<notin> set terminalApplyStates \<and>
    (list_ex (\<lambda>dep. ci (apply_Deployment a) = ci dep) deployments \<or>
     list_ex (\<lambda>r. op_ApplyID r = apply_ID a \<and> list_ex (\<lambda>dep. ci (op_Deployment r) = ci dep) deployments)
       (apply_operations d))"

definition checkNoActiveApplyForTargets ::
  "(string \<Rightarrow> string) \<Rightarrow> string \<Rightarrow> string \<Rightarrow> string \<Rightarrow> string list \<Rightarrow> int \<Rightarrow> unit prog" where
  "checkNoActiveApplyForTargets ci database dbType environment allDeployments excludeApplyID =
    (let deployments = dedupeDeployments allDeployments in
     if deployments = []
     then State_Monad.return (Inl (Errorf ''active apply target requires at least one deployment''))
     else
       do {
         r \<leftarrow> QueryContext (\<lambda>d. list_ex (\<lambda>a. reserves ci d database dbType environment deployments a \<and>
           (excludeApplyID > 0 \<longrightarrow> apply_ID a \<noteq> excludeApplyID)) (applies d));
         case r of
           Inl e \<Rightarrow> State_Monad.return (Inl (Wrapped ''check active applies'' e))
         | Inr exists \<Rightarrow>
             if exists then State_Monad.return (Inl (Wrapped ''active apply exists'' ErrActiveApplyExists))
             else State_Monad.return (Inr ())
       })"

definition applyTargetForUpdate :: "Apply \<Rightarrow> (string \<times> string \<times> string \<times> string) prog" where
  "applyTargetForUpdate apply =
    (if hasApplyTarget (apply_Database apply) (apply_DatabaseType apply) (apply_Environment apply) \<and>
        apply_Deployment apply \<noteq> ''''
     then State_Monad.return (Inr (apply_Database apply, apply_DatabaseType apply, apply_Environment apply, apply_Deployment apply))
     else
       do {
         r \<leftarrow> QueryContext (\<lambda>d. find (\<lambda>a. apply_ID a = apply_ID apply) (applies d));
         case r of
           Inl e \<Rightarrow> State_Monad.return (Inl (Wrapped ''load apply target for update'' e))
         | Inr None \<Rightarrow> State_Monad.return (Inr ('''', '''', '''', ''''))
         | Inr (Some a) \<Rightarrow> State_Monad.return (Inr (apply_Database a, apply_DatabaseType a, apply_Environment a, apply_Deployment a))
       })"


section \<open>Creating applies\<close>

text \<open>On success the apply with the id of the lock it was created under.\<close>

definition verifyExpectedLockIntent :: "(string \<Rightarrow> string) \<Rightarrow> Apply \<Rightarrow> Apply prog" where
  "verifyExpectedLockIntent ci apply =
    (if apply_ExpectedLockOwner apply = '''' then
       (if apply_ExpectedPendingPlanID apply \<noteq> ''''
        then State_Monad.return (Inl (Errorf ''expected pending plan ID set without an expected lock owner''))
        else State_Monad.return (Inr apply))
     else
       do {
         r \<leftarrow> QueryContext (\<lambda>d. find (\<lambda>l. ci (lock_DatabaseName l) = ci (apply_Database apply) \<and>
           ci (lock_DatabaseType l) = ci (apply_DatabaseType apply) \<and> ci (lock_Owner l) = ci (apply_ExpectedLockOwner apply) \<and>
           ci (lock_PendingPlanID l) = ci (apply_ExpectedPendingPlanID apply)) (locks d));
         case r of
           Inl e \<Rightarrow> State_Monad.return (Inl (Wrapped ''verify lock intent'' e))
         | Inr None \<Rightarrow> State_Monad.return (Inl ErrLockIntentChanged)
         | Inr (Some l) \<Rightarrow> State_Monad.return (Inr (apply\<lparr>apply_LockID := lock_ID l\<rparr>))
       })"

definition tx_insert_op :: "statement \<Rightarrow> int prog" where
  "tx_insert_op = tx_ExecContext undo_insert_op"

definition tx_insert_task :: "statement \<Rightarrow> int prog" where
  "tx_insert_task = tx_ExecContext undo_insert_task"

fun insert_operations :: "(string \<Rightarrow> string) \<Rightarrow> int \<Rightarrow> ApplyOperation list \<Rightarrow> ApplyOperation list prog" where
  "insert_operations ci applyID [] = State_Monad.return (Inr [])"
| "insert_operations ci applyID (op # ops) =
    do {
      r \<leftarrow> insertApplyOperation tx_insert_op ci (op\<lparr>op_ApplyID := applyID\<rparr>);
      case r of
        Inl e \<Rightarrow> State_Monad.return (Inl (Wrapped ''insert apply_operation'' e))
      | Inr (i, op') \<Rightarrow>
          do {
            rest \<leftarrow> insert_operations ci applyID ops;
            case rest of
              Inl e \<Rightarrow> State_Monad.return (Inl e)
            | Inr ops' \<Rightarrow> State_Monad.return (Inr (op' # ops'))
          }
    }"

fun insert_tasks :: "(string \<Rightarrow> string) \<Rightarrow> int \<Rightarrow> Task list \<Rightarrow> unit prog" where
  "insert_tasks ci applyID [] = State_Monad.return (Inr ())"
| "insert_tasks ci applyID (task # ts) =
    do {
      r \<leftarrow> insertTask tx_insert_task ci (task\<lparr>task_ApplyID := applyID\<rparr>);
      case r of
        Inl e \<Rightarrow> State_Monad.return (Inl (Wrapped ''insert task'' e))
      | Inr _ \<Rightarrow> insert_tasks ci applyID ts
    }"

text \<open>
  The link of a task to its operation: with one operation it is the default, with none a link is an
  error, with several a missing link is an error; a link has to name an inserted operation.
\<close>

definition link_task :: "ApplyOperation list \<Rightarrow> Task \<Rightarrow> err + Task" where
  "link_task operations task =
    (case (operations, task_ApplyOperationID task) of
       ([], None) \<Rightarrow> Inr task
     | ([], Some _) \<Rightarrow> Inl (Errorf ''task has apply_operation_id but apply has no operations'')
     | ([op], None) \<Rightarrow> Inr (task\<lparr>task_ApplyOperationID := Some (op_ID op)\<rparr>)
     | (_, None) \<Rightarrow> Inl (Errorf ''task missing apply_operation_id'')
     | (ops, Some i) \<Rightarrow>
         if list_ex (\<lambda>op. op_ID op = i) ops then Inr task
         else Inl (Errorf ''task apply_operation_id does not match any inserted operation for this apply''))"

fun link_tasks :: "ApplyOperation list \<Rightarrow> Task list \<Rightarrow> err + Task list" where
  "link_tasks operations [] = Inr []"
| "link_tasks operations (task # ts) =
    (case link_task operations task of
       Inl e \<Rightarrow> Inl e
     | Inr t \<Rightarrow> (case link_tasks operations ts of Inl e \<Rightarrow> Inl e | Inr ts' \<Rightarrow> Inr (t # ts')))"

definition insertApplyTasksAndOperations ::
  "(string \<Rightarrow> string) \<Rightarrow> Task list \<Rightarrow> ApplyOperation list \<Rightarrow> int \<Rightarrow> unit prog" where
  "insertApplyTasksAndOperations ci newTasks operations applyID =
    do {
      r \<leftarrow> insert_operations ci applyID operations;
      case r of
        Inl e \<Rightarrow> State_Monad.return (Inl e)
      | Inr inserted \<Rightarrow>
          (case link_tasks inserted newTasks of
             Inl e \<Rightarrow> State_Monad.return (Inl e)
           | Inr linked \<Rightarrow> insert_tasks ci applyID linked)
    }"

text \<open>Groups and tasks may be nil pointers.\<close>

record ApplyOperationWithTasks =
  grp_Operation :: "ApplyOperation option"
  grp_Tasks :: "Task option list"
  grp_AllowTaskless :: bool

fun insert_group_tasks :: "(string \<Rightarrow> string) \<Rightarrow> int \<Rightarrow> int \<Rightarrow> Task option list \<Rightarrow> unit prog" where
  "insert_group_tasks ci applyID operationID [] = State_Monad.return (Inr ())"
| "insert_group_tasks ci applyID operationID (None # ts) =
    State_Monad.return (Inl (Errorf ''grouped operation has a nil task''))"
| "insert_group_tasks ci applyID operationID (Some task # ts) =
    do {
      r \<leftarrow> insertTask tx_insert_task ci (task\<lparr>task_ApplyID := applyID, task_ApplyOperationID := Some operationID\<rparr>);
      case r of
        Inl e \<Rightarrow> State_Monad.return (Inl (Wrapped ''insert task'' e))
      | Inr _ \<Rightarrow> insert_group_tasks ci applyID operationID ts
    }"

fun insert_groups :: "(string \<Rightarrow> string) \<Rightarrow> ApplyOperationWithTasks option list \<Rightarrow> int \<Rightarrow> unit prog" where
  "insert_groups ci [] applyID = State_Monad.return (Inr ())"
| "insert_groups ci (None # gs) applyID = State_Monad.return (Inl (Errorf ''grouped operation is nil''))"
| "insert_groups ci (Some g # gs) applyID =
    (case grp_Operation g of
       None \<Rightarrow> State_Monad.return (Inl (Errorf ''grouped operation is missing its operation row''))
     | Some op \<Rightarrow>
         if grp_Tasks g = [] \<and> op_OperationKind op \<noteq> ApplyOperationKindGroupFinalizer \<and> \<not> grp_AllowTaskless g
         then State_Monad.return (Inl (Errorf ''grouped work operation has no tasks''))
         else
           do {
             r \<leftarrow> insertApplyOperation tx_insert_op ci (op\<lparr>op_ApplyID := applyID\<rparr>);
             case r of
               Inl e \<Rightarrow> State_Monad.return (Inl (Wrapped ''insert apply_operation'' e))
             | Inr (i, _) \<Rightarrow>
                 do {
                   t \<leftarrow> insert_group_tasks ci applyID i (grp_Tasks g);
                   case t of
                     Inl e \<Rightarrow> State_Monad.return (Inl e)
                   | Inr _ \<Rightarrow> insert_groups ci gs applyID
                 }
           })"

definition insertApplyGroupedOperations ::
  "(string \<Rightarrow> string) \<Rightarrow> ApplyOperationWithTasks option list \<Rightarrow> int \<Rightarrow> unit prog" where
  "insertApplyGroupedOperations ci groups applyID =
    (if groups = [] then State_Monad.return (Inl (Errorf ''grouped operations are empty''))
     else insert_groups ci groups applyID)"

text \<open>The transaction of a creation; \<open>writeRows\<close> inserts the children.\<close>

definition create_rows :: "(string \<Rightarrow> string) \<Rightarrow> string \<Rightarrow> Apply \<Rightarrow> (int \<Rightarrow> unit prog) \<Rightarrow> int prog" where
  "create_rows ci opName verified writeRows =
    do {
      r \<leftarrow> tx_ExecContext undo_insert_apply (insert_apply ci verified);
      case r of
        Inl e \<Rightarrow>
          if isDuplicateKeyError e then State_Monad.return (Inl (Wrapped ''create apply'' ErrApplyIDExists))
          else State_Monad.return (Inl (Wrapped ''insert apply'' e))
      | Inr i \<Rightarrow>
          do {
            wr \<leftarrow> writeRows i;
            case wr of
              Inl e \<Rightarrow> State_Monad.return (Inl e)
            | Inr _ \<Rightarrow>
                do {
                  c \<leftarrow> Commit;
                  case c of
                    Inl e \<Rightarrow> State_Monad.return (Inl (Wrapped (''commit '' @ opName) e))
                  | Inr _ \<Rightarrow> State_Monad.return (Inr i)
                }
          }
    }"

definition create_tx ::
  "(string \<Rightarrow> string) \<Rightarrow> string \<Rightarrow> Apply \<Rightarrow> bool \<Rightarrow> string list \<Rightarrow> (int \<Rightarrow> unit prog) \<Rightarrow> int prog" where
  "create_tx ci opName apply lockTarget newDeployments writeRows =
    do {
      v \<leftarrow> verifyExpectedLockIntent ci apply;
      case v of
        Inl e \<Rightarrow> State_Monad.return (Inl e)
      | Inr verified \<Rightarrow>
          do {
            k \<leftarrow> (if lockTarget
                   then checkNoActiveApplyForTargets ci (apply_Database apply) (apply_DatabaseType apply)
                     (apply_Environment apply) newDeployments 0
                   else State_Monad.return (Inr ()));
            case k of
              Inl e \<Rightarrow> State_Monad.return (Inl e)
            | Inr _ \<Rightarrow> create_rows ci opName verified writeRows
          }
    }"

definition createWithRows ::
  "(string \<Rightarrow> string) \<Rightarrow> (string \<Rightarrow> string) \<Rightarrow> string \<Rightarrow> Apply \<Rightarrow> string list \<Rightarrow> (int \<Rightarrow> unit prog) \<Rightarrow> int prog" where
  "createWithRows sha ci opName apply newDeployments writeRows =
    (let lockTarget = isActiveApplyState (apply_State apply);
         body = create_tx ci opName apply lockTarget newDeployments writeRows in
     if lockTarget
     then with_target_tx sha opName (apply_Database apply) (apply_DatabaseType apply) (apply_Environment apply) body
     else with_write_tx opName body)"

definition Apply_Create :: "(string \<Rightarrow> string) \<Rightarrow> (string \<Rightarrow> string) \<Rightarrow> Apply \<Rightarrow> int prog" where
  "Apply_Create sha ci apply =
    createWithRows sha ci ''create apply'' apply [apply_Deployment apply] (\<lambda>_. State_Monad.return (Inr ()))"

definition CreateWithTasksAndOperations ::
  "(string \<Rightarrow> string) \<Rightarrow> (string \<Rightarrow> string) \<Rightarrow> Apply \<Rightarrow> Task list \<Rightarrow> ApplyOperation list \<Rightarrow> int prog" where
  "CreateWithTasksAndOperations sha ci apply newTasks operations =
    createWithRows sha ci ''create apply with tasks'' apply (apply_Deployment apply # map op_Deployment operations)
      (insertApplyTasksAndOperations ci newTasks operations)"

definition CreateWithTasks :: "(string \<Rightarrow> string) \<Rightarrow> (string \<Rightarrow> string) \<Rightarrow> Apply \<Rightarrow> Task list \<Rightarrow> int prog" where
  "CreateWithTasks sha ci apply newTasks = CreateWithTasksAndOperations sha ci apply newTasks []"

definition group_deployments :: "ApplyOperationWithTasks option list \<Rightarrow> string list" where
  "group_deployments groups =
    concat (map (\<lambda>g. case g of None \<Rightarrow> [] | Some grp \<Rightarrow>
      (case grp_Operation grp of None \<Rightarrow> [] | Some op \<Rightarrow> [op_Deployment op])) groups)"

definition CreateWithGroupedOperations ::
  "(string \<Rightarrow> string) \<Rightarrow> (string \<Rightarrow> string) \<Rightarrow> Apply \<Rightarrow> ApplyOperationWithTasks option list \<Rightarrow> int prog" where
  "CreateWithGroupedOperations sha ci apply groups =
    createWithRows sha ci ''create apply with grouped operations'' apply (apply_Deployment apply # group_deployments groups)
      (insertApplyGroupedOperations ci groups)"


section \<open>Updating applies\<close>

definition Apply_Get :: "int \<Rightarrow> Apply option prog" where
  "Apply_Get i = QueryContext (\<lambda>d. find (\<lambda>a. apply_ID a = i) (applies d))"

text \<open>
  The columns of \<^verbatim>\<open>Update\<close>.  The options are kept when the caller's are empty, which the flag says.
\<close>

definition write_apply :: "Apply \<Rightarrow> bool \<Rightarrow> db \<Rightarrow> Apply \<Rightarrow> Apply" where
  "write_apply apply hasOptions d a = a\<lparr>apply_State := apply_State apply, apply_ErrorMessage := apply_ErrorMessage apply,
     apply_Attempt := apply_Attempt apply, apply_ExternalID := apply_ExternalID apply,
     apply_Options := (if hasOptions then apply_Options apply else apply_Options a),
     apply_StartedAt := apply_StartedAt apply, apply_CompletedAt := apply_CompletedAt apply, apply_UpdatedAt := now d\<rparr>"

definition update_tx ::
  "(string \<Rightarrow> string) \<Rightarrow> Apply \<Rightarrow> bool \<Rightarrow> ApplyLease option \<Rightarrow> bool \<Rightarrow> string \<times> string \<times> string \<times> string \<Rightarrow> unit prog" where
  "update_tx ci apply hasOptions lease shouldLockTarget target =
    (case target of (database, dbType, environment, deployment) \<Rightarrow>
    do {
      k \<leftarrow> (if shouldLockTarget then
               do {
                 r \<leftarrow> operationDeploymentsForApply (apply_ID apply);
                 case r of
                   Inl e \<Rightarrow> State_Monad.return (Inl e)
                 | Inr deployments \<Rightarrow>
                     checkNoActiveApplyForTargets ci database dbType environment (deployments @ [deployment]) (apply_ID apply)
               }
             else State_Monad.return (Inr ()));
      case k of
        Inl e \<Rightarrow> State_Monad.return (Inl e)
      | Inr _ \<Rightarrow>
          do {
            r \<leftarrow> tx_ExecContext (undo_applies (\<lambda>a. apply_ID a = apply_ID apply))
              (update_applies (\<lambda>d a. apply_ID a = apply_ID apply \<and>
                  (case lease of None \<Rightarrow> True | Some l \<Rightarrow> apply_LeaseToken a = al_Token l))
                (write_apply apply hasOptions));
            case r of
              Inl e \<Rightarrow> State_Monad.return (Inl (Wrapped ''update apply'' e))
            | Inr rows \<Rightarrow>
                do {
                  o' \<leftarrow> (case lease of
                           None \<Rightarrow> State_Monad.return (Inr ())
                         | Some l \<Rightarrow> if rows = 0 then ensureApplyLeaseStillOwned l else State_Monad.return (Inr ()));
                  case o' of
                    Inl e \<Rightarrow> State_Monad.return (Inl e)
                  | Inr _ \<Rightarrow>
                      do {
                        c \<leftarrow> Commit;
                        case c of
                          Inl e \<Rightarrow> State_Monad.return (Inl (Wrapped ''commit update apply'' e))
                        | Inr _ \<Rightarrow> State_Monad.return (Inr ())
                      }
                }
          }
    })"

definition update_on_target ::
  "(string \<Rightarrow> string) \<Rightarrow> (string \<Rightarrow> string) \<Rightarrow> Apply \<Rightarrow> bool \<Rightarrow> ApplyLease option \<Rightarrow> bool \<Rightarrow>
   string \<times> string \<times> string \<times> string \<Rightarrow> unit prog" where
  "update_on_target sha ci apply hasOptions lease lockTarget target =
    (case target of (database, dbType, environment, deployment) \<Rightarrow>
       if lockTarget \<and> hasApplyTarget database dbType environment
       then with_target_tx sha ''update apply'' database dbType environment (update_tx ci apply hasOptions lease True target)
       else with_write_tx ''update apply'' (update_tx ci apply hasOptions lease False target))"

definition operation_lease_only :: "ctx \<Rightarrow> bool" where
  "operation_lease_only c \<longleftrightarrow> OperationLeaseFromContext c \<noteq> None \<and> ApplyLeaseFromContext c = None"

definition Apply_Update :: "(string \<Rightarrow> string) \<Rightarrow> (string \<Rightarrow> string) \<Rightarrow> ctx \<Rightarrow> Apply \<Rightarrow> bool \<Rightarrow> unit prog" where
  "Apply_Update sha ci c apply hasOptions =
    (if operation_lease_only c
     then State_Monad.return (Inl (Wrapped ''operation lease does not authorize a direct update of apply'' ErrApplyLeaseLost))
     else
       (case applyLeaseFromContext c (apply_ID apply) of
          Inl e \<Rightarrow> State_Monad.return (Inl e)
        | Inr lease \<Rightarrow>
            let lockTarget = isActiveApplyState (apply_State apply) in
            if lockTarget \<and> (\<not> hasApplyTarget (apply_Database apply) (apply_DatabaseType apply) (apply_Environment apply) \<or>
                 apply_Deployment apply = '''')
            then
              do {
                t \<leftarrow> applyTargetForUpdate apply;
                case t of
                  Inl e \<Rightarrow> State_Monad.return (Inl e)
                | Inr target \<Rightarrow> update_on_target sha ci apply hasOptions lease lockTarget target
              }
            else update_on_target sha ci apply hasOptions lease lockTarget
              (apply_Database apply, apply_DatabaseType apply, apply_Environment apply, apply_Deployment apply)))"

section \<open>The rollout projection\<close>

text \<open>Which lease authorizes a projection write.\<close>

datatype derivedStateGuard = derivedUnguarded | derivedOperation OperationLease | derivedApply ApplyLease

definition derivedStateGuardForContext :: "ctx \<Rightarrow> int \<Rightarrow> err + derivedStateGuard" where
  "derivedStateGuardForContext c applyID =
    (case OperationLeaseFromContext c of
       Some opLease \<Rightarrow>
         if \<not> OperationLease_Valid opLease then Inl (Wrapped ''invalid operation lease for apply'' ErrApplyLeaseLost)
         else if ol_ApplyID opLease \<noteq> applyID
         then Inl (Wrapped ''operation lease cannot write derived state for apply'' ErrApplyLeaseLost)
         else Inr (derivedOperation opLease)
     | None \<Rightarrow>
         (case applyLeaseFromContext c applyID of
            Inl e \<Rightarrow> Inl e
          | Inr None \<Rightarrow> Inr derivedUnguarded
          | Inr (Some lease) \<Rightarrow> Inr (derivedApply lease)))"

definition operation_lease_owns :: "OperationLease \<Rightarrow> int \<Rightarrow> db \<Rightarrow> bool" where
  "operation_lease_owns lease applyID d \<longleftrightarrow>
    list_ex (\<lambda>r. op_ID r = ol_OperationID lease \<and> op_ApplyID r = applyID \<and> op_LeaseToken r = ol_Token lease)
      (apply_operations d)"

definition derived_predicate :: "derivedStateGuard \<Rightarrow> int \<Rightarrow> db \<Rightarrow> Apply \<Rightarrow> bool" where
  "derived_predicate guard applyID d a =
    (case guard of
       derivedUnguarded \<Rightarrow> True
     | derivedOperation lease \<Rightarrow> operation_lease_owns lease applyID d
     | derivedApply lease \<Rightarrow> apply_LeaseToken a = al_Token lease)"

definition ensureOperationLeaseOwnsApply :: "OperationLease \<Rightarrow> int \<Rightarrow> unit prog" where
  "ensureOperationLeaseOwnsApply lease applyID =
    do {
      r \<leftarrow> QueryContext (operation_lease_owns lease applyID);
      case r of
        Inl e \<Rightarrow> State_Monad.return (Inl (Wrapped ''verify operation lease'' e))
      | Inr m \<Rightarrow>
          if m then State_Monad.return (Inr ())
          else State_Monad.return (Inl (Wrapped ''operation lease is no longer current'' ErrApplyLeaseLost))
    }"

definition ensure_derived :: "derivedStateGuard \<Rightarrow> int \<Rightarrow> unit prog" where
  "ensure_derived guard applyID =
    (case guard of
       derivedUnguarded \<Rightarrow> State_Monad.return (Inr ())
     | derivedOperation lease \<Rightarrow> ensureOperationLeaseOwnsApply lease applyID
     | derivedApply lease \<Rightarrow> ensureApplyLeaseStillOwned lease)"

definition derive_apply :: "string \<Rightarrow> string \<Rightarrow> int option \<Rightarrow> int option \<Rightarrow> db \<Rightarrow> Apply \<Rightarrow> Apply" where
  "derive_apply newState errorMessage startedAt completedAt d a = a\<lparr>apply_State := newState,
     apply_ErrorMessage := errorMessage,
     apply_StartedAt := (case apply_StartedAt a of Some t \<Rightarrow> Some t | None \<Rightarrow> startedAt),
     apply_CompletedAt := completedAt, apply_UpdatedAt := now d\<rparr>"

definition UpdateDerivedState ::
  "ctx \<Rightarrow> int \<Rightarrow> string \<Rightarrow> string \<Rightarrow> string \<Rightarrow> int option \<Rightarrow> int option \<Rightarrow> bool prog" where
  "UpdateDerivedState c applyID expectedState newState errorMessage startedAt completedAt =
    (case derivedStateGuardForContext c applyID of
       Inl e \<Rightarrow> State_Monad.return (Inl e)
     | Inr guard \<Rightarrow>
         do {
           r \<leftarrow> ExecContext (update_applies
             (\<lambda>d a. apply_ID a = applyID \<and> apply_State a = expectedState \<and> derived_predicate guard applyID d a)
             (derive_apply newState errorMessage startedAt completedAt));
           case r of
             Inl e \<Rightarrow> State_Monad.return (Inl (Wrapped ''compare-and-swap derived apply state'' e))
           | Inr rows \<Rightarrow>
               if rows > 0 then State_Monad.return (Inr True)
               else
                 do {
                   z \<leftarrow> ensure_derived guard applyID;
                   case z of
                     Inl e \<Rightarrow> State_Monad.return (Inl e)
                   | Inr _ \<Rightarrow>
                       if \<not> IsState newState [expectedState] then State_Monad.return (Inr False)
                       else
                         do {
                           q \<leftarrow> QueryContext (\<lambda>d. map_option apply_State (find (\<lambda>a. apply_ID a = applyID) (applies d)));
                           case q of
                             Inl e \<Rightarrow> State_Monad.return (Inl (Wrapped ''re-read derived apply state'' e))
                           | Inr None \<Rightarrow> State_Monad.return (Inr False)
                           | Inr (Some currentState) \<Rightarrow> State_Monad.return (Inr (IsState currentState [expectedState]))
                         }
                 }
         })"


section \<open>Claiming applies\<close>

text \<open>The claim predicate that \<^verbatim>\<open>FindNextApply\<close> and \<^verbatim>\<open>ClaimApplyByID\<close> share.\<close>

definition apply_claimable :: "db \<Rightarrow> Apply \<Rightarrow> bool" where
  "apply_claimable d a \<longleftrightarrow>
    (apply_State a = Apply_Pending \<and>
       (list_ex (\<lambda>t. task_ApplyID t = apply_ID a) (tasks d) \<or>
        list_ex (\<lambda>r. op_ApplyID r = apply_ID a) (apply_operations d))) \<or>
    (apply_State a \<in> set claimableApplyStates \<and> apply_UpdatedAt a < now d - ApplyLeaseStaleAfter) \<or>
    (apply_State a = Apply_FailedRetryable \<and> apply_Attempt a < MaxRecoveryAttempts \<and>
       apply_UpdatedAt a \<ge> now d - retryableRecoveryFreshness) \<or>
    (apply_State a = Apply_Pending \<and> control_pending d (apply_ID a) ControlOperationStart) \<or>
    (apply_State a = Apply_Stopped \<and> control_pending d (apply_ID a) ControlOperationStart) \<or>
    (apply_State a = Apply_WaitingForDeploy \<and>
       list_ex (\<lambda>cr. cr_ApplyID cr = apply_ID a \<and> cr_Operation cr = ControlOperationStart \<and>
         cr_Status cr = ControlRequestPending \<and>
         (case apply_LeaseAcquiredAt a of
            None \<Rightarrow> True
          | Some t \<Rightarrow> t < cr_UpdatedAt cr \<or> apply_UpdatedAt a < now d - ApplyLeaseStaleAfter)) (control_requests d))"

text \<open>Stop reconciliation: a pending stop, a pending operation and no operation being driven.\<close>

definition stop_reconcilable :: "db \<Rightarrow> Apply \<Rightarrow> bool" where
  "stop_reconcilable d a \<longleftrightarrow>
    apply_State a \<in> set (Apply_Pending # Apply_Paused # claimableApplyStates) \<and>
    control_pending d (apply_ID a) ControlOperationStop \<and>
    list_ex (\<lambda>r. op_ApplyID r = apply_ID a \<and> op_State r = Apply_Pending) (apply_operations d) \<and>
    \<not> list_ex (\<lambda>r. op_ApplyID r = apply_ID a \<and> op_State r \<in> set claimableApplyStates) (apply_operations d)"

text \<open>\<^verbatim>\<open>ORDER BY created_at LIMIT 1 FOR UPDATE SKIP LOCKED\<close>; of equally old rows the first.\<close>

fun first_apply :: "Apply list \<Rightarrow> Apply option" where
  "first_apply [] = None"
| "first_apply (a # as) =
    (case first_apply as of
       None \<Rightarrow> Some a
     | Some m \<Rightarrow> if apply_CreatedAt m < apply_CreatedAt a then Some m else Some a)"

definition select_apply :: "(db \<Rightarrow> Apply \<Rightarrow> bool) \<Rightarrow> (int \<Rightarrow> bool) \<Rightarrow> db \<Rightarrow> Apply option" where
  "select_apply P locked d = first_apply (filter (\<lambda>a. P d a \<and> \<not> locked (apply_ID a)) (applies d))"

definition isStartingClaim :: "string \<Rightarrow> bool" where
  "isStartingClaim applyState = IsState applyState [Apply_Pending, Apply_Stopped, Apply_FailedRetryable]"

definition lease_apply :: "string \<Rightarrow> string \<Rightarrow> db \<Rightarrow> Apply \<Rightarrow> Apply" where
  "lease_apply owner leaseToken d a = a\<lparr>apply_UpdatedAt := now d, apply_LeaseOwner := owner,
     apply_LeaseToken := leaseToken, apply_LeaseAcquiredAt := Some (now d)\<rparr>"

definition claim_apply_row :: "Apply \<Rightarrow> string \<Rightarrow> string \<Rightarrow> string \<Rightarrow> db \<Rightarrow> Apply \<Rightarrow> Apply" where
  "claim_apply_row apply targetState owner leaseToken d a = (lease_apply owner leaseToken d a)\<lparr>
     apply_State := targetState,
     apply_Attempt := (if apply_State apply = Apply_FailedRetryable then apply_Attempt a + 1 else apply_Attempt a),
     apply_CompletedAt := None,
     apply_ErrorMessage := (if apply_State apply = Apply_FailedRetryable then '''' else apply_ErrorMessage a)\<rparr>"

text \<open>\<open>None\<close> is the lost race; otherwise the claimed apply as the caller sees it.\<close>

definition transitionClaimToState :: "Apply \<Rightarrow> string \<Rightarrow> string \<Rightarrow> string \<Rightarrow> Apply option prog" where
  "transitionClaimToState apply targetState owner leaseToken =
    do {
      r \<leftarrow> tx_ExecContext (undo_applies (\<lambda>a. apply_ID a = apply_ID apply))
        (update_applies (\<lambda>d a. apply_ID a = apply_ID apply \<and> apply_State a = apply_State apply)
          (claim_apply_row apply targetState owner leaseToken));
      case r of
        Inl e \<Rightarrow> State_Monad.return (Inl (Wrapped ''claim apply'' e))
      | Inr rows \<Rightarrow>
          if rows = 0 then State_Monad.return (Inr None)
          else State_Monad.return (Inr (Some
            (if IsState (apply_State apply) [Apply_FailedRetryable]
             then apply\<lparr>apply_Attempt := apply_Attempt apply + 1, apply_ErrorMessage := ''''\<rparr> else apply)))
    }"

definition failPendingStartControlRequestTx :: "int \<Rightarrow> string \<Rightarrow> unit prog" where
  "failPendingStartControlRequestTx applyID reason =
    do {
      r \<leftarrow> tx_ExecContext (undo_requests applyID)
        (update_cr (\<lambda>d q. cr_ApplyID q = applyID \<and> cr_Operation q = ControlOperationStart \<and> cr_Status q = ControlRequestPending)
          (\<lambda>d q. q\<lparr>cr_Status := ControlRequestFailed, cr_ErrorMessage := reason,
             cr_CompletedAt := COALESCE (cr_CompletedAt q) (now d), cr_UpdatedAt := now d\<rparr>));
      case r of
        Inl e \<Rightarrow> State_Monad.return (Inl (Wrapped ''update apply_control_requests for apply'' e))
      | Inr _ \<Rightarrow> State_Monad.return (Inr ())
    }"

datatype claimOutcome = claimLostRace | claimAcquired Apply | claimAcquiredCommitted Apply | claimRefusedActiveTarget

definition refuseStoppedClaimForActiveTarget :: "Apply \<Rightarrow> claimOutcome prog" where
  "refuseStoppedClaimForActiveTarget apply =
    do {
      f \<leftarrow> failPendingStartControlRequestTx (apply_ID apply) ''start refused: another active apply exists'';
      case f of
        Inl e \<Rightarrow> State_Monad.return (Inl (Wrapped ''fail pending start control request'' e))
      | Inr _ \<Rightarrow>
          do {
            c \<leftarrow> Commit;
            case c of
              Inl e \<Rightarrow> State_Monad.return (Inl (Wrapped ''commit refused stopped claim'' e))
            | Inr _ \<Rightarrow> State_Monad.return (Inr claimRefusedActiveTarget)
          }
    }"

text \<open>The part of \<^verbatim>\<open>claimStoppedApplyUnderTargetLock\<close> under the lock.\<close>

definition claim_stopped_locked ::
  "(string \<Rightarrow> string) \<Rightarrow> Apply \<Rightarrow> string \<Rightarrow> string \<Rightarrow> string \<times> string \<times> string \<times> string \<Rightarrow> claimOutcome prog" where
  "claim_stopped_locked ci apply owner leaseToken target =
    (case target of (database, dbType, environment, deployment) \<Rightarrow>
    do {
      l \<leftarrow> operationDeploymentsForApply (apply_ID apply);
      case l of
        Inl e \<Rightarrow> State_Monad.return (Inl e)
      | Inr deployments \<Rightarrow>
          do {
            k \<leftarrow> checkNoActiveApplyForTargets ci database dbType environment (deployments @ [deployment]) (apply_ID apply);
            case k of
              Inl e \<Rightarrow>
                if errors_Is e ErrActiveApplyExists then refuseStoppedClaimForActiveTarget apply
                else State_Monad.return (Inl e)
            | Inr _ \<Rightarrow>
                do {
                  t \<leftarrow> transitionClaimToState apply Apply_Resuming owner leaseToken;
                  case t of
                    Inl e \<Rightarrow> State_Monad.return (Inl e)
                  | Inr None \<Rightarrow> State_Monad.return (Inr claimLostRace)
                  | Inr (Some claimed) \<Rightarrow>
                      do {
                        c \<leftarrow> Commit;
                        case c of
                          Inl e \<Rightarrow> State_Monad.return (Inl (Wrapped ''commit claim stopped apply'' e))
                        | Inr _ \<Rightarrow> State_Monad.return (Inr (claimAcquiredCommitted claimed))
                      }
                }
          }
    })"

definition claimStoppedApplyUnderTargetLock ::
  "(string \<Rightarrow> string) \<Rightarrow> (string \<Rightarrow> string) \<Rightarrow> Apply \<Rightarrow> string \<Rightarrow> string \<Rightarrow> claimOutcome prog" where
  "claimStoppedApplyUnderTargetLock sha ci apply owner leaseToken =
    do {
      t \<leftarrow> applyTargetForUpdate apply;
      case t of
        Inl e \<Rightarrow> State_Monad.return (Inl e)
      | Inr (database, dbType, environment, deployment) \<Rightarrow>
          if \<not> hasApplyTarget database dbType environment
          then State_Monad.return (Inl (Errorf ''stopped apply is missing target metadata for claim re-check''))
          else
            do {
              l \<leftarrow> acquireApplyTargetLockConn sha database dbType environment;
              case l of
                Inl e \<Rightarrow> State_Monad.return (Inl e)
              | Inr name \<Rightarrow> defer_release name
                  (claim_stopped_locked ci apply owner leaseToken (database, dbType, environment, deployment))
            }
    }"

definition persistApplyClaim ::
  "(string \<Rightarrow> string) \<Rightarrow> (string \<Rightarrow> string) \<Rightarrow> Apply \<Rightarrow> string \<Rightarrow> string \<Rightarrow> int \<Rightarrow> claimOutcome prog" where
  "persistApplyClaim sha ci selected owner leaseToken leaseAcquiredAt =
    (let apply = selected\<lparr>apply_LeaseOwner := owner, apply_LeaseToken := leaseToken, apply_LeaseAcquiredAt := Some leaseAcquiredAt\<rparr> in
     if IsState (apply_State apply) [Apply_Stopped] then claimStoppedApplyUnderTargetLock sha ci apply owner leaseToken
     else if isStartingClaim (apply_State apply) then
       do {
         t \<leftarrow> transitionClaimToState apply Apply_Running owner leaseToken;
         case t of
           Inl e \<Rightarrow> State_Monad.return (Inl e)
         | Inr None \<Rightarrow> State_Monad.return (Inr claimLostRace)
         | Inr (Some claimed) \<Rightarrow> State_Monad.return (Inr (claimAcquired claimed))
       }
     else
       do {
         r \<leftarrow> tx_ExecContext (undo_applies (\<lambda>a. apply_ID a = apply_ID apply))
           (update_applies (\<lambda>d a. apply_ID a = apply_ID apply) (lease_apply owner leaseToken));
         case r of
           Inl e \<Rightarrow> State_Monad.return (Inl (Wrapped ''refresh heartbeat for claimed apply'' e))
         | Inr _ \<Rightarrow> State_Monad.return (Inr (claimAcquired apply))
       })"

text \<open>
  The claim transaction: \<open>commits\<close> says whether a claim of a stopped apply, which is already committed, is
  handed out (\<^verbatim>\<open>FindNextApply\<close>, \<^verbatim>\<open>ClaimApplyByID\<close>) or cannot occur (stop reconciliation).
\<close>

definition claim_apply_tx ::
  "(string \<Rightarrow> string) \<Rightarrow> (string \<Rightarrow> string) \<Rightarrow> (db \<Rightarrow> Apply option) \<Rightarrow> bool \<Rightarrow> string \<Rightarrow> string \<Rightarrow> int \<Rightarrow> Apply option prog" where
  "claim_apply_tx sha ci select commits owner leaseToken leaseAcquiredAt =
    do {
      q \<leftarrow> QueryContext select;
      case q of
        Inl e \<Rightarrow> State_Monad.return (Inl (Wrapped ''query claimable apply'' e))
      | Inr None \<Rightarrow> State_Monad.return (Inr None)
      | Inr (Some apply) \<Rightarrow>
          do {
            p \<leftarrow> persistApplyClaim sha ci apply owner leaseToken leaseAcquiredAt;
            case p of
              Inl e \<Rightarrow> State_Monad.return (Inl e)
            | Inr (claimAcquiredCommitted claimed) \<Rightarrow>
                State_Monad.return (Inr (if commits then Some claimed else None))
            | Inr (claimAcquired claimed) \<Rightarrow>
                do {
                  c \<leftarrow> Commit;
                  case c of
                    Inl e \<Rightarrow> State_Monad.return (Inl (Wrapped ''commit claim apply'' e))
                  | Inr _ \<Rightarrow> State_Monad.return (Inr (Some claimed))
                }
            | Inr _ \<Rightarrow> State_Monad.return (Inr None)
          }
    }"

definition claim_apply ::
  "(string \<Rightarrow> string) \<Rightarrow> (string \<Rightarrow> string) \<Rightarrow> (db \<Rightarrow> Apply option) \<Rightarrow> bool \<Rightarrow> string \<Rightarrow> string \<Rightarrow> int \<Rightarrow> Apply option prog" where
  "claim_apply sha ci select commits owner leaseToken leaseAcquiredAt =
    (if owner = '''' then State_Monad.return (Inl (Wrapped ''operator owner is required to claim apply'' ErrApplyLeaseLost))
     else
       do {
         b \<leftarrow> BeginTx;
         case b of
           Inl e \<Rightarrow> State_Monad.return (Inl (Wrapped ''begin claim apply transaction'' e))
         | Inr _ \<Rightarrow> defer_rollback (claim_apply_tx sha ci select commits owner leaseToken leaseAcquiredAt)
       })"

definition FindNextApply ::
  "(string \<Rightarrow> string) \<Rightarrow> (string \<Rightarrow> string) \<Rightarrow> (int \<Rightarrow> bool) \<Rightarrow> string \<Rightarrow> string \<Rightarrow> int \<Rightarrow> Apply option prog" where
  "FindNextApply sha ci locked owner leaseToken leaseAcquiredAt =
    claim_apply sha ci (select_apply apply_claimable locked) True owner leaseToken leaseAcquiredAt"

definition ClaimApplyByID ::
  "(string \<Rightarrow> string) \<Rightarrow> (string \<Rightarrow> string) \<Rightarrow> (int \<Rightarrow> bool) \<Rightarrow> int \<Rightarrow> string \<Rightarrow> string \<Rightarrow> int \<Rightarrow> Apply option prog" where
  "ClaimApplyByID sha ci locked applyID owner leaseToken leaseAcquiredAt =
    claim_apply sha ci (select_apply (\<lambda>d a. apply_ID a = applyID \<and> apply_claimable d a) locked) True owner leaseToken leaseAcquiredAt"

definition FindNextApplyForStopReconciliation ::
  "(string \<Rightarrow> string) \<Rightarrow> (string \<Rightarrow> string) \<Rightarrow> (int \<Rightarrow> bool) \<Rightarrow> string \<Rightarrow> string \<Rightarrow> int \<Rightarrow> Apply option prog" where
  "FindNextApplyForStopReconciliation sha ci locked owner leaseToken leaseAcquiredAt =
    claim_apply sha ci (select_apply stop_reconcilable locked) False owner leaseToken leaseAcquiredAt"


section \<open>Heartbeats, expiry and reapplying\<close>

definition SetRevertSkipped :: "int \<Rightarrow> int \<Rightarrow> unit prog" where
  "SetRevertSkipped applyID time =
    do {
      r \<leftarrow> ExecContext (update_applies (\<lambda>d a. apply_ID a = applyID) (\<lambda>d a. a\<lparr>apply_RevertSkippedAt := Some time\<rparr>));
      case r of
        Inl e \<Rightarrow> State_Monad.return (Inl (Wrapped ''set revert_skipped_at for apply'' e))
      | Inr _ \<Rightarrow> State_Monad.return (Inr ())
    }"

definition Apply_Heartbeat :: "ctx \<Rightarrow> int \<Rightarrow> unit prog" where
  "Apply_Heartbeat c applyID =
    (if operation_lease_only c
     then State_Monad.return (Inl (Wrapped ''operation lease does not authorize a heartbeat of apply'' ErrApplyLeaseLost))
     else
       (case applyLeaseFromContext c applyID of
          Inl e \<Rightarrow> State_Monad.return (Inl e)
        | Inr lease \<Rightarrow>
            do {
              r \<leftarrow> ExecContext (update_applies (\<lambda>d a. apply_ID a = applyID \<and>
                  (case lease of None \<Rightarrow> True | Some l \<Rightarrow> apply_LeaseToken a = al_Token l))
                (\<lambda>d a. a\<lparr>apply_UpdatedAt := now d\<rparr>));
              case r of
                Inl e \<Rightarrow> State_Monad.return (Inl (Wrapped ''heartbeat apply'' e))
              | Inr rows \<Rightarrow>
                  (case lease of
                     None \<Rightarrow> State_Monad.return (Inr ())
                   | Some l \<Rightarrow>
                       do {
                         z \<leftarrow> confirmLeaseOnZeroRows rows l;
                         case z of
                           Inl e \<Rightarrow> State_Monad.return (Inl e)
                         | Inr _ \<Rightarrow> State_Monad.return (Inr ())
                       })
            }))"

definition CheckLease :: "ApplyLease \<Rightarrow> unit prog" where
  "CheckLease lease =
    (if \<not> ApplyLease_Valid lease then State_Monad.return (Inl (Wrapped ''invalid apply lease for apply'' ErrApplyLeaseLost))
     else ensureApplyLeaseStillOwned lease)"

datatype RetryableExpirationReason = RetryableExpirationAttemptBudget | RetryableExpirationRecoveryWindow

definition retryableExpirationReason :: "Apply \<Rightarrow> RetryableExpirationReason" where
  "retryableExpirationReason apply =
    (if apply_Attempt apply \<ge> MaxRecoveryAttempts then RetryableExpirationAttemptBudget
     else RetryableExpirationRecoveryWindow)"

definition retryable_expired :: "db \<Rightarrow> Apply \<Rightarrow> bool" where
  "retryable_expired d a \<longleftrightarrow> apply_State a = Apply_FailedRetryable \<and>
    (apply_Attempt a \<ge> MaxRecoveryAttempts \<or> apply_UpdatedAt a < now d - retryableRecoveryFreshness)"

definition expire_tx :: "int \<Rightarrow> (Apply \<times> RetryableExpirationReason) list prog" where
  "expire_tx clock =
    do {
      q \<leftarrow> QueryContext (\<lambda>d. filter (retryable_expired d) (applies d));
      case q of
        Inl e \<Rightarrow> State_Monad.return (Inl (Wrapped ''query expired retryable applies'' e))
      | Inr expired \<Rightarrow>
          if expired = [] then
            do {
              c \<leftarrow> Commit;
              case c of
                Inl e \<Rightarrow> State_Monad.return (Inl (Wrapped ''commit empty expire retryable applies'' e))
              | Inr _ \<Rightarrow> State_Monad.return (Inr [])
            }
          else
            let ids = map apply_ID expired in
            do {
              t \<leftarrow> tx_ExecContext (undo_tasks (\<lambda>t. task_ApplyID t \<in> set ids))
                (update_tasks (\<lambda>d t. task_State t \<notin> set TerminalTaskStates \<and> task_ApplyID t \<in> set ids)
                  (\<lambda>d t. t\<lparr>task_State := Task_Failed, task_CompletedAt := COALESCE (task_CompletedAt t) (now d), task_UpdatedAt := now d\<rparr>));
              case t of
                Inl e \<Rightarrow> State_Monad.return (Inl (Wrapped ''expire retryable tasks'' e))
              | Inr _ \<Rightarrow>
                  do {
                    ops \<leftarrow> tx_ExecContext (undo_ops (\<lambda>r. op_ApplyID r \<in> set ids))
                      (update_ops (\<lambda>d r. op_State r = Apply_FailedRetryable \<and> op_ApplyID r \<in> set ids)
                        (\<lambda>d r. r\<lparr>op_State := Apply_Failed, op_CompletedAt := COALESCE (op_CompletedAt r) (now d), op_UpdatedAt := now d\<rparr>));
                    case ops of
                      Inl e \<Rightarrow> State_Monad.return (Inl (Wrapped ''expire retryable apply_operations'' e))
                    | Inr _ \<Rightarrow>
                        do {
                          a \<leftarrow> tx_ExecContext (undo_applies (\<lambda>a. apply_ID a \<in> set ids))
                            (update_applies (\<lambda>d a. apply_ID a \<in> set ids)
                              (\<lambda>d a. a\<lparr>apply_State := Apply_Failed, apply_CompletedAt := COALESCE (apply_CompletedAt a) (now d), apply_UpdatedAt := now d\<rparr>));
                          case a of
                            Inl e \<Rightarrow> State_Monad.return (Inl (Wrapped ''expire retryable applies'' e))
                          | Inr _ \<Rightarrow>
                              do {
                                c \<leftarrow> Commit;
                                case c of
                                  Inl e \<Rightarrow> State_Monad.return (Inl (Wrapped ''commit expire retryable applies'' e))
                                | Inr _ \<Rightarrow> State_Monad.return (Inr (map (\<lambda>a. (a\<lparr>apply_State := Apply_Failed,
                                    apply_CompletedAt := Some clock, apply_UpdatedAt := clock\<rparr>, retryableExpirationReason a)) expired))
                              }
                        }
                  }
            }
    }"

definition ExpireRetryable :: "int \<Rightarrow> (Apply \<times> RetryableExpirationReason) list prog" where
  "ExpireRetryable clock =
    do {
      b \<leftarrow> BeginTx;
      case b of
        Inl e \<Rightarrow> State_Monad.return (Inl (Wrapped ''begin expire retryable applies transaction'' e))
      | Inr _ \<Rightarrow> defer_rollback (expire_tx clock)
    }"

abbreviation ReapplyFailureFreshness :: int where "ReapplyFailureFreshness \<equiv> 86400"

definition rejectNonReappliableOperations :: "Apply \<Rightarrow> unit prog" where
  "rejectNonReappliableOperations apply =
    do {
      r \<leftarrow> QueryContext (\<lambda>d. list_ex (\<lambda>r. op_ApplyID r = apply_ID apply \<and>
        op_State r \<in> {Apply_Stopped, Apply_Cancelled, Apply_Reverted}) (apply_operations d));
      case r of
        Inl e \<Rightarrow> State_Monad.return (Inl (Wrapped ''check non-reappliable operations for apply'' e))
      | Inr found \<Rightarrow>
          if found then State_Monad.return (Inl (Wrapped ''apply has stopped, cancelled, or reverted operation(s)'' ErrApplyNotReappliable))
          else State_Monad.return (Inr ())
    }"

definition reapply_row :: "db \<Rightarrow> Apply \<Rightarrow> Apply" where
  "reapply_row d a = a\<lparr>apply_State := Apply_FailedRetryable, apply_ErrorMessage := '''', apply_Attempt := 0,
     apply_CompletedAt := None, apply_UpdatedAt := now d, apply_LeaseOwner := '''', apply_LeaseToken := '''',
     apply_LeaseAcquiredAt := None\<rparr>"

text \<open>A failed or cancelled task is retried with its operation, or when it has none.\<close>

definition reapply_task :: "Apply \<Rightarrow> db \<Rightarrow> Task \<Rightarrow> bool" where
  "reapply_task apply d t \<longleftrightarrow>
    task_ApplyID t = apply_ID apply \<and> task_State t \<in> {Task_Failed, Task_Cancelled} \<and>
    (case task_ApplyOperationID t of
       None \<Rightarrow> True
     | Some i \<Rightarrow> list_ex (\<lambda>r. op_ID r = i \<and> op_ApplyID r = task_ApplyID t \<and> op_State r = Apply_Failed) (apply_operations d))"

text \<open>The writes of \<^verbatim>\<open>ReapplyFailed\<close>, after all checks.\<close>

definition reapply_writes :: "int \<Rightarrow> Apply \<Rightarrow> Apply prog" where
  "reapply_writes clock apply =
    do {
      t \<leftarrow> tx_ExecContext (undo_tasks (\<lambda>t. task_ApplyID t = apply_ID apply))
        (update_tasks (reapply_task apply) (\<lambda>d t. t\<lparr>task_State := Task_FailedRetryable, task_ErrorMessage := '''',
           task_CompletedAt := None, task_UpdatedAt := now d\<rparr>));
      case t of
        Inl e \<Rightarrow> State_Monad.return (Inl (Wrapped ''mark failed tasks retryable for apply'' e))
      | Inr _ \<Rightarrow>
          do {
            ops \<leftarrow> tx_ExecContext (undo_ops (\<lambda>r. op_ApplyID r = apply_ID apply))
              (update_ops (\<lambda>d r. op_ApplyID r = apply_ID apply \<and> op_State r = Apply_Failed)
                (\<lambda>d r. r\<lparr>op_State := Apply_FailedRetryable, op_ErrorMessage := '''', op_CompletedAt := None, op_UpdatedAt := now d,
                   op_LeaseOwner := '''', op_LeaseToken := '''', op_LeaseAcquiredAt := None\<rparr>));
            case ops of
              Inl e \<Rightarrow> State_Monad.return (Inl (Wrapped ''mark failed operations retryable for apply'' e))
            | Inr _ \<Rightarrow>
                do {
                  a \<leftarrow> tx_ExecContext (undo_applies (\<lambda>a. apply_ID a = apply_ID apply))
                    (update_applies (\<lambda>d a. apply_ID a = apply_ID apply \<and> apply_State a = Apply_Failed) reapply_row);
                  case a of
                    Inl e \<Rightarrow> State_Monad.return (Inl (Wrapped ''mark apply retryable for reapply'' e))
                  | Inr rows \<Rightarrow>
                      if rows = 0 then State_Monad.return (Inl (Wrapped ''apply changed before reapply'' ErrApplyNotReappliable))
                      else
                        do {
                          c \<leftarrow> Commit;
                          case c of
                            Inl e \<Rightarrow> State_Monad.return (Inl (Wrapped ''commit reapply failed apply'' e))
                          | Inr _ \<Rightarrow> State_Monad.return (Inr (apply\<lparr>apply_State := Apply_FailedRetryable,
                              apply_ErrorMessage := '''', apply_Attempt := 0, apply_CompletedAt := None, apply_UpdatedAt := clock,
                              apply_LeaseOwner := '''', apply_LeaseToken := '''', apply_LeaseAcquiredAt := None\<rparr>))
                        }
                }
          }
    }"

definition reapply_locked ::
  "(string \<Rightarrow> string) \<Rightarrow> int \<Rightarrow> Apply \<Rightarrow> string \<times> string \<times> string \<times> string \<Rightarrow> Apply prog" where
  "reapply_locked ci clock apply target =
    (case target of (database, dbType, environment, deployment) \<Rightarrow>
    do {
      l \<leftarrow> operationDeploymentsForApply (apply_ID apply);
      case l of
        Inl e \<Rightarrow> State_Monad.return (Inl e)
      | Inr deployments \<Rightarrow>
          do {
            k \<leftarrow> checkNoActiveApplyForTargets ci database dbType environment (deployments @ [deployment]) (apply_ID apply);
            case k of
              Inl e \<Rightarrow> State_Monad.return (Inl e)
            | Inr _ \<Rightarrow>
                do {
                  n \<leftarrow> rejectNonReappliableOperations apply;
                  case n of
                    Inl e \<Rightarrow> State_Monad.return (Inl e)
                  | Inr _ \<Rightarrow> reapply_writes clock apply
                }
          }
    })"

definition reapply_tx :: "(string \<Rightarrow> string) \<Rightarrow> (string \<Rightarrow> string) \<Rightarrow> int \<Rightarrow> int \<Rightarrow> Apply prog" where
  "reapply_tx sha ci clock applyID =
    do {
      q \<leftarrow> Apply_Get applyID;
      case q of
        Inl e \<Rightarrow> State_Monad.return (Inl (Wrapped ''load apply for reapply'' e))
      | Inr None \<Rightarrow> State_Monad.return (Inl ErrApplyNotFound)
      | Inr (Some apply) \<Rightarrow>
          if \<not> IsState (apply_State apply) [Apply_Failed]
          then State_Monad.return (Inl (Wrapped ''only failed applies can be reapplied'' ErrApplyNotReappliable))
          else
            (case apply_CompletedAt apply of
               None \<Rightarrow> State_Monad.return (Inl (Wrapped ''apply has no failure completion time'' ErrApplyNotReappliable))
             | Some completed \<Rightarrow>
                 if completed < clock - ReapplyFailureFreshness
                 then State_Monad.return (Inl (Wrapped ''apply failed too long ago'' ErrApplyNotReappliable))
                 else
                   do {
                     t \<leftarrow> applyTargetForUpdate apply;
                     case t of
                       Inl e \<Rightarrow> State_Monad.return (Inl e)
                     | Inr (database, dbType, environment, deployment) \<Rightarrow>
                         if \<not> hasApplyTarget database dbType environment \<or> deployment = ''''
                         then State_Monad.return (Inl (Wrapped ''apply is missing target metadata for reapply'' ErrApplyNotReappliable))
                         else
                           do {
                             l \<leftarrow> acquireApplyTargetLockConn sha database dbType environment;
                             case l of
                               Inl e \<Rightarrow> State_Monad.return (Inl e)
                             | Inr name \<Rightarrow> defer_release name
                                 (reapply_locked ci clock apply (database, dbType, environment, deployment))
                           }
                   })
    }"

definition ReapplyFailed :: "(string \<Rightarrow> string) \<Rightarrow> (string \<Rightarrow> string) \<Rightarrow> int \<Rightarrow> int \<Rightarrow> Apply prog" where
  "ReapplyFailed sha ci clock applyID =
    do {
      b \<leftarrow> BeginTx;
      case b of
        Inl e \<Rightarrow> State_Monad.return (Inl (Wrapped ''begin reapply failed apply transaction'' e))
      | Inr _ \<Rightarrow> defer_rollback (reapply_tx sha ci clock applyID)
    }"

section \<open>Reading and deleting\<close>

definition newest_applies :: "Apply list \<Rightarrow> Apply list" where
  "newest_applies as = sort_key (\<lambda>a. - apply_CreatedAt a) as"

definition GetByApplyIdentifier :: "(string \<Rightarrow> string) \<Rightarrow> string \<Rightarrow> Apply option prog" where
  "GetByApplyIdentifier ci applyIdentifier = QueryContext (\<lambda>d. find (\<lambda>a. ci (apply_Identifier a) = ci applyIdentifier) (applies d))"

definition GetByIdempotencyKey :: "(string \<Rightarrow> string) \<Rightarrow> string \<Rightarrow> Apply option prog" where
  "GetByIdempotencyKey ci idempotencyKey =
    (if idempotencyKey = '''' then State_Monad.return (Inr None)
     else QueryContext (\<lambda>d. find (\<lambda>a. apply_IdempotencyKey a \<noteq> '''' \<and> ci (apply_IdempotencyKey a) = ci idempotencyKey) (applies d)))"

definition GetByPlan :: "int \<Rightarrow> Apply option prog" where
  "GetByPlan planID = QueryContext (\<lambda>d. find (\<lambda>a. apply_PlanID a = planID) (applies d))"

definition GetByLock :: "int \<Rightarrow> Apply list prog" where
  "GetByLock lockID = QueryContext (\<lambda>d. newest_applies (filter (\<lambda>a. apply_LockID a = lockID) (applies d)))"

definition GetInProgress :: "Apply list prog" where
  "GetInProgress = QueryContext (\<lambda>d. newest_applies (filter (\<lambda>a. apply_State a \<notin> set terminalApplyStates) (applies d)))"

record RecentAppliesFilter =
  raf_Environment :: string
  raf_Deployment :: string
  raf_States :: "string list"
  raf_Limit :: nat

definition GetRecent :: "(string \<Rightarrow> string) \<Rightarrow> RecentAppliesFilter \<Rightarrow> Apply list prog" where
  "GetRecent ci filt = QueryContext (\<lambda>d. take (raf_Limit filt) (newest_applies (sort_key (\<lambda>a. - apply_ID a) (filter (\<lambda>a.
     (raf_Environment filt \<noteq> '''' \<longrightarrow> ci (apply_Environment a) = ci (raf_Environment filt)) \<and>
     (raf_Deployment filt \<noteq> '''' \<longrightarrow> ci (apply_Deployment a) = ci (raf_Deployment filt) \<or>
        list_ex (\<lambda>r. op_ApplyID r = apply_ID a \<and> ci (op_Deployment r) = ci (raf_Deployment filt)) (apply_operations d)) \<and>
     (raf_States filt \<noteq> [] \<longrightarrow> apply_State a \<in> set (raf_States filt))) (applies d)))))"

definition Apply_GetByDatabase :: "(string \<Rightarrow> string) \<Rightarrow> string \<Rightarrow> string \<Rightarrow> string \<Rightarrow> Apply list prog" where
  "Apply_GetByDatabase ci database dbType environment =
    do {
      r \<leftarrow> QueryContext (\<lambda>d. newest_applies (filter (\<lambda>a. ci (apply_Database a) = ci database \<and>
        (dbType \<noteq> '''' \<longrightarrow> ci (apply_DatabaseType a) = ci dbType) \<and>
        (environment \<noteq> '''' \<longrightarrow> ci (apply_Environment a) = ci environment)) (applies d)));
      case r of
        Inl e \<Rightarrow> State_Monad.return (Inl (Wrapped ''query applies for database'' e))
      | Inr as \<Rightarrow> State_Monad.return (Inr as)
    }"

definition Apply_GetByPR :: "(string \<Rightarrow> string) \<Rightarrow> string \<Rightarrow> int \<Rightarrow> Apply list prog" where
  "Apply_GetByPR ci repo pr =
    do {
      r \<leftarrow> QueryContext (\<lambda>d. newest_applies (filter (\<lambda>a. ci (apply_Repository a) = ci repo \<and> apply_PullRequest a = pr) (applies d)));
      case r of
        Inl e \<Rightarrow> State_Monad.return (Inl (Wrapped ''query applies'' e))
      | Inr as \<Rightarrow> State_Monad.return (Inr as)
    }"

definition delete_applies :: "(Apply \<Rightarrow> bool) \<Rightarrow> statement" where
  "delete_applies P d =
    Inr (d\<lparr>applies := filter (\<lambda>a. \<not> P a) (applies d)\<rparr>, int (length (filter P (applies d))))"

definition delete_tx :: "(db \<Rightarrow> ApplyOperation \<Rightarrow> bool) \<Rightarrow> (Apply \<Rightarrow> bool) \<Rightarrow> bool \<Rightarrow> unit prog" where
  "delete_tx Q P required =
    do {
      r1 \<leftarrow> tx_ExecContext (\<lambda>old. undo_delete_ops (Q old) old) (delete_ops Q);
      case r1 of
        Inl e \<Rightarrow> State_Monad.return (Inl (Wrapped ''delete apply_operations'' e))
      | Inr _ \<Rightarrow>
          do {
            r2 \<leftarrow> tx_ExecContext (undo_delete_applies P) (delete_applies P);
            case r2 of
              Inl e \<Rightarrow> State_Monad.return (Inl (Wrapped ''delete apply'' e))
            | Inr rows \<Rightarrow>
                (case (if required then checkRowsAffected rows ErrApplyNotFound else Inr ()) of
                   Inl e \<Rightarrow> State_Monad.return (Inl e)
                 | Inr _ \<Rightarrow>
                     do {
                       c \<leftarrow> Commit;
                       case c of
                         Inl e \<Rightarrow> State_Monad.return (Inl (Wrapped ''commit delete apply'' e))
                       | Inr _ \<Rightarrow> State_Monad.return (Inr ())
                     })
          }
    }"

definition Apply_Delete :: "int \<Rightarrow> unit prog" where
  "Apply_Delete i = with_write_tx ''delete apply''
     (delete_tx (\<lambda>d r. op_ApplyID r = i) (\<lambda>a. apply_ID a = i) True)"

definition Apply_DeleteByPR :: "(string \<Rightarrow> string) \<Rightarrow> string \<Rightarrow> int \<Rightarrow> unit prog" where
  "Apply_DeleteByPR ci repo pr = with_write_tx ''delete applies by PR''
     (delete_tx
       (\<lambda>d r. list_ex (\<lambda>a. apply_ID a = op_ApplyID r \<and> ci (apply_Repository a) = ci repo \<and> apply_PullRequest a = pr) (applies d))
       (\<lambda>a. ci (apply_Repository a) = ci repo \<and> apply_PullRequest a = pr) False)"

end
