(* ===== verification/Apply_Exclusion.thy ===== *)
theory Apply_Exclusion
  imports Apply_Store
begin

text \<open>
  One active apply per deployment: no two active applies of a database, type and environment reserve
  the same deployment.  Creation keeps this under any interference that respects the named lock of
  the target; all operations of the apply store keep it, except a projection write that reopens a
  terminal apply.
\<close>

section \<open>Reservations\<close>

definition active :: "Apply \<Rightarrow> bool" where
  "active a \<longleftrightarrow> apply_State a \<notin> set terminalApplyStates"

definition target_key :: "(string \<Rightarrow> string) \<Rightarrow> Apply \<Rightarrow> string \<times> string \<times> string" where
  "target_key ci a = (ci (apply_Database a), ci (apply_DatabaseType a), ci (apply_Environment a))"

definition reserved :: "(string \<Rightarrow> string) \<Rightarrow> db \<Rightarrow> Apply \<Rightarrow> string set" where
  "reserved ci d a = ci ` insert (apply_Deployment a) (op_Deployment ` {r \<in> set (apply_operations d). op_ApplyID r = apply_ID a})"

definition exclusive :: "(string \<Rightarrow> string) \<Rightarrow> db \<Rightarrow> bool" where
  "exclusive ci d \<longleftrightarrow>
    (\<forall>a\<in>set (applies d). \<forall>b\<in>set (applies d). apply_ID a \<noteq> apply_ID b \<and> active a \<and> active b \<and> target_key ci a = target_key ci b \<longrightarrow>
       reserved ci d a \<inter> reserved ci d b = {})"

definition ids_ok :: "db \<Rightarrow> bool" where
  "ids_ok d \<longleftrightarrow> distinct (map apply_ID (applies d)) \<and> 0 < applies_next d \<and>
    (\<forall>a\<in>set (applies d). 0 < apply_ID a \<and> apply_ID a < applies_next d) \<and>
    (\<forall>r\<in>set (apply_operations d). op_ApplyID r < applies_next d)"

lemma exclusiveD:
  "exclusive ci d \<Longrightarrow> a \<in> set (applies d) \<Longrightarrow> b \<in> set (applies d) \<Longrightarrow> apply_ID a \<noteq> apply_ID b \<Longrightarrow> active a \<Longrightarrow> active b \<Longrightarrow>
    target_key ci a = target_key ci b \<Longrightarrow> reserved ci d a \<inter> reserved ci d b = {}"
  by (simp add: exclusive_def)

lemma reserved_iff:
  "x \<in> reserved ci d a \<longleftrightarrow> x = ci (apply_Deployment a) \<or>
    (\<exists>r\<in>set (apply_operations d). op_ApplyID r = apply_ID a \<and> x = ci (op_Deployment r))"
  by (auto simp: reserved_def)

lemma reserves_iff:
  "reserves ci d database dbType environment deployments a \<longleftrightarrow>
    target_key ci a = (ci database, ci dbType, ci environment) \<and> active a \<and>
    reserved ci d a \<inter> ci ` set deployments \<noteq> {}"
  by (auto simp: reserves_def target_key_def active_def reserved_def list_ex_iff)

section \<open>Creation under interference\<close>

text \<open>
  The invariant of a creation: the applies are exclusive, the lock of the target is held, and of the
  active applies of the target only those in \<open>own\<close> reserve one of the new deployments.
\<close>

definition held_target ::
  "(string \<Rightarrow> string) \<Rightarrow> string \<Rightarrow> string \<times> string \<times> string \<Rightarrow> string list \<Rightarrow> int set \<Rightarrow> db \<Rightarrow> bool" where
  "held_target ci name key deps own d \<longleftrightarrow>
    exclusive ci d \<and> ids_ok d \<and> name \<in> set (named_locks d) \<and> (\<forall>i\<in>own. i < applies_next d) \<and>
    (\<forall>a\<in>set (applies d). apply_ID a \<in> own \<longrightarrow> target_key ci a = key) \<and>
    (\<forall>a\<in>set (applies d). active a \<and> target_key ci a = key \<and> apply_ID a \<notin> own \<longrightarrow> reserved ci d a \<inter> ci ` set deps = {})"

text \<open>Other sessions keep the applies exclusive, and leave a target alone while its lock is held.\<close>

definition respects_lock :: "(string \<Rightarrow> string) \<Rightarrow> string \<Rightarrow> string \<times> string \<times> string \<Rightarrow> (db \<Rightarrow> db) \<Rightarrow> bool" where
  "respects_lock ci name key env \<longleftrightarrow>
    (\<forall>d. exclusive ci d \<and> ids_ok d \<longrightarrow> exclusive ci (env d) \<and> ids_ok (env d)) \<and>
    (\<forall>d. exclusive ci d \<and> ids_ok d \<and> name \<in> set (named_locks d) \<longrightarrow>
       name \<in> set (named_locks (env d)) \<and> applies_next d \<le> applies_next (env d) \<and>
       (\<forall>a\<in>set (applies (env d)). target_key ci a = key \<and> active a \<longrightarrow>
          (\<exists>b\<in>set (applies d). apply_ID b = apply_ID a \<and> target_key ci b = key \<and> active b \<and> reserved ci (env d) a \<subseteq> reserved ci d b)) \<and>
       (\<forall>a\<in>set (applies (env d)). apply_ID a < applies_next d \<longrightarrow>
          (\<exists>b\<in>set (applies d). apply_ID b = apply_ID a \<and> target_key ci b = target_key ci a)))"

lemma respects_held:
  assumes "respects_lock ci name key env" and "held_target ci name key deps own d"
  shows "held_target ci name key deps own (env d)"
proof -
  have base: "exclusive ci d \<and> ids_ok d \<and> name \<in> set (named_locks d)"
    using assms(2) by (simp add: held_target_def)
  have one: "exclusive ci (env d)" "ids_ok (env d)"
    using assms(1) base by (simp_all add: respects_lock_def)
  from assms(1) base have lock: "name \<in> set (named_locks (env d))" and le: "applies_next d \<le> applies_next (env d)"
    and act: "\<And>a. a \<in> set (applies (env d)) \<Longrightarrow> target_key ci a = key \<Longrightarrow> active a \<Longrightarrow>
      \<exists>b\<in>set (applies d). apply_ID b = apply_ID a \<and> target_key ci b = key \<and> active b \<and> reserved ci (env d) a \<subseteq> reserved ci d b"
    and old: "\<And>a. a \<in> set (applies (env d)) \<Longrightarrow> apply_ID a < applies_next d \<Longrightarrow>
      \<exists>b\<in>set (applies d). apply_ID b = apply_ID a \<and> target_key ci b = target_key ci a"
    by (simp_all add: respects_lock_def)
  have "\<forall>i\<in>own. i < applies_next (env d)" using assms(2) le by (auto simp: held_target_def)
  moreover have "target_key ci a = key" if "a \<in> set (applies (env d))" "apply_ID a \<in> own" for a
    using old[OF that(1)] assms(2) that(2) by (fastforce simp: held_target_def)
  moreover have "reserved ci (env d) a \<inter> ci ` set deps = {}"
    if "a \<in> set (applies (env d))" "active a" "target_key ci a = key" "apply_ID a \<notin> own" for a
    using act[OF that(1,3,2)] assms(2) that(4) by (fastforce simp: held_target_def)
  ultimately show ?thesis using one lock by (simp add: held_target_def)
qed

text \<open>
  Worlds whose other sessions respect the lock: outside the lock, under it, and in a transaction all
  undo steps of which keep the invariant.
\<close>

definition base_world :: "(string \<Rightarrow> string) \<Rightarrow> string \<Rightarrow> string \<times> string \<times> string \<Rightarrow> world \<Rightarrow> bool" where
  "base_world ci name key w \<longleftrightarrow> exclusive ci (w_db w) \<and> ids_ok (w_db w) \<and>
    (\<forall>t\<in>set (w_turns w). respects_lock ci name key (turn_env t))"

definition lock_world ::
  "(string \<Rightarrow> string) \<Rightarrow> string \<Rightarrow> string \<times> string \<times> string \<Rightarrow> string list \<Rightarrow> int set \<Rightarrow> world \<Rightarrow> bool" where
  "lock_world ci name key deps own w \<longleftrightarrow> held_target ci name key deps own (w_db w) \<and>
    (\<forall>t\<in>set (w_turns w). respects_lock ci name key (turn_env t))"

definition keeps_held :: "(string \<Rightarrow> string) \<Rightarrow> string \<Rightarrow> string \<times> string \<times> string \<Rightarrow> (db \<Rightarrow> db) \<Rightarrow> bool" where
  "keeps_held ci name key u \<longleftrightarrow> (\<forall>deps own d. held_target ci name key deps own d \<longrightarrow> held_target ci name key deps own (u d))"

definition tx_world ::
  "(string \<Rightarrow> string) \<Rightarrow> string \<Rightarrow> string \<times> string \<times> string \<Rightarrow> string list \<Rightarrow> int set \<Rightarrow> world \<Rightarrow> bool" where
  "tx_world ci name key deps own w \<longleftrightarrow> lock_world ci name key deps own w \<and> (\<forall>u\<in>set (w_undo w). keeps_held ci name key u)"

lemma next_turn_cases:
  assumes "next_turn w = (e, w')"
  shows "w_undo w' = w_undo w" and "set (w_turns w') \<subseteq> set (w_turns w)"
    and "w_db w' = w_db w \<or> (\<exists>t\<in>set (w_turns w). w_db w' = turn_env t (w_db w))"
  using assms by (cases "w_turns w"; auto simp: next_turn_def)+

lemma base_world_turn: "base_world ci name key w \<Longrightarrow> next_turn w = (e, w') \<Longrightarrow> base_world ci name key w'"
  using next_turn_cases[of w e w'] by (auto simp: base_world_def respects_lock_def)

lemma lock_world_turn: "lock_world ci name key deps own w \<Longrightarrow> next_turn w = (e, w') \<Longrightarrow> lock_world ci name key deps own w'"
  using next_turn_cases[of w e w'] respects_held unfolding lock_world_def by (metis subsetD)

lemma tx_world_turn: "tx_world ci name key deps own w \<Longrightarrow> next_turn w = (e, w') \<Longrightarrow> tx_world ci name key deps own w'"
  using lock_world_turn next_turn_cases(1) unfolding tx_world_def by metis

lemma hoare_tx_query:
  "hoare (tx_world ci name key deps own) (QueryContext q)
    (\<lambda>r w. tx_world ci name key deps own w \<and> (\<forall>x. r = Inr x \<longrightarrow> x = q (w_db w)))"
  by (rule hoareI) (auto simp: QueryContext_def dest: tx_world_turn split: prod.splits option.splits)

text \<open>A write of the transaction, after which \<open>own' n\<close> are the transaction's own applies.\<close>

lemma hoare_tx_write:
  assumes "\<And>d d' n. held_target ci name key deps own d \<Longrightarrow> stm d = Inr (d', n) \<Longrightarrow> held_target ci name key deps (own' n) d'"
    and "\<And>old. keeps_held ci name key (undo old)"
  shows "hoare (tx_world ci name key deps own) (tx_ExecContext undo stm)
    (\<lambda>r w. case r of Inl e \<Rightarrow> tx_world ci name key deps own w | Inr n \<Rightarrow> tx_world ci name key deps (own' n) w)"
proof (rule hoareI)
  fix w r w'
  assume "tx_world ci name key deps own w" and run: "run_state (tx_ExecContext undo stm) w = (r, w')"
  moreover obtain e w1 where turn: "next_turn w = (e, w1)" by fastforce
  ultimately have w1: "tx_world ci name key deps own w1" by (blast intro: tx_world_turn)
  show "case r of Inl e \<Rightarrow> tx_world ci name key deps own w' | Inr n \<Rightarrow> tx_world ci name key deps (own' n) w'"
  proof (cases e)
    case (Some x)
    with run turn w1 show ?thesis by (auto simp: tx_ExecContext_def)
  next
    case None
    show ?thesis
    proof (cases "stm (w_db w1)")
      case (Inl x)
      with run turn w1 None show ?thesis by (auto simp: tx_ExecContext_def)
    next
      case (Inr p)
      obtain d n where p: "p = (d, n)" by (cases p)
      with Inr w1 assms(1) have "held_target ci name key deps (own' n) d" by (auto simp: tx_world_def lock_world_def)
      with run turn w1 None Inr p assms(2) show ?thesis
        by (auto simp: tx_ExecContext_def tx_world_def lock_world_def)
    qed
  qed
qed

lemma hoare_tx_commit: "hoare (tx_world ci name key deps own) Commit (\<lambda>r. tx_world ci name key deps own)"
  by (rule hoareI) (auto simp: Commit_def tx_world_def lock_world_def split: list.splits option.splits)

lemma hoare_begin:
  "hoare (lock_world ci name key deps own) BeginTx
    (\<lambda>r w. case r of Inl e \<Rightarrow> lock_world ci name key deps own w | Inr _ \<Rightarrow> tx_world ci name key deps own w)"
proof (rule hoareI)
  fix w r w'
  assume "lock_world ci name key deps own w" and run: "run_state BeginTx w = (r, w')"
  moreover obtain e w1 where turn: "next_turn w = (e, w1)" by fastforce
  ultimately have "lock_world ci name key deps own w1" by (blast intro: lock_world_turn)
  with run turn show "case r of Inl e \<Rightarrow> lock_world ci name key deps own w' | Inr _ \<Rightarrow> tx_world ci name key deps own w'"
    by (auto simp: BeginTx_def tx_world_def lock_world_def split: option.splits)
qed

lemma held_fold: "\<forall>u\<in>set us. keeps_held ci name key u \<Longrightarrow> held_target ci name key deps own d \<Longrightarrow>
    held_target ci name key deps own (fold (\<lambda>u d. u d) us d)"
  by (induction us arbitrary: d) (auto simp: keeps_held_def)

lemma hoare_defer_rollback:
  assumes "hoare P p (\<lambda>r w. \<exists>deps own. tx_world ci name key deps own w)"
  shows "hoare P (defer_rollback p) (\<lambda>r w. \<exists>deps own. lock_world ci name key deps own w)"
proof (rule hoareI)
  fix w r w'
  assume "P w" and run: "run_state (defer_rollback p) w = (r, w')"
  then obtain w1 where "run_state p w = (r, w1)" and w': "w' = rollbackTx w1" by (auto split: prod.splits)
  with assms \<open>P w\<close> obtain deps own where "tx_world ci name key deps own w1" by (blast dest: hoareD)
  then have "lock_world ci name key deps own w'"
    unfolding w' rollbackTx_def tx_world_def lock_world_def by (simp add: held_fold)
  then show "\<exists>deps own. lock_world ci name key deps own w'" by blast
qed

lemma hoare_defer_release:
  assumes "hoare P p (\<lambda>r w. \<exists>deps own. lock_world ci name key deps own w)"
  shows "hoare P (defer_release l p) (\<lambda>r. base_world ci name key)"
proof (rule hoareI)
  fix w r w'
  assume "P w" and run: "run_state (defer_release l p) w = (r, w')"
  then obtain w1 where "run_state p w = (r, w1)" and w': "w' = w1\<lparr>w_db := RELEASE_LOCK l (w_db w1)\<rparr>"
    by (auto simp: defer_release_def split: prod.splits)
  with assms \<open>P w\<close> obtain deps own where "lock_world ci name key deps own w1" by (blast dest: hoareD)
  then show "base_world ci name key w'"
    by (simp add: w' lock_world_def base_world_def held_target_def RELEASE_LOCK_def exclusive_def ids_ok_def reserved_def)
qed


section \<open>The statements of a creation\<close>

lemma held_insert_apply:
  assumes "held_target ci name key deps {} d" and "insert_apply ci apply d = Inr (d', n)"
    and "target_key ci apply = key" and "apply_Deployment apply \<in> set deps"
  shows "held_target ci name key deps {n} d'"
proof -
  let ?row = "inserted_apply apply d"
  have d': "d' = d\<lparr>applies := applies d @ [?row], applies_next := applies_next d + 1\<rparr>" and n: "n = applies_next d"
    using assms(2) by (auto simp: insert_apply_def split: if_splits)
  have ids: "ids_ok d" and ex: "exclusive ci d" and lock: "name \<in> set (named_locks d)"
    and free: "\<And>a. a \<in> set (applies d) \<Longrightarrow> active a \<Longrightarrow> target_key ci a = key \<Longrightarrow> reserved ci d a \<inter> ci ` set deps = {}"
    using assms(1) by (auto simp: held_target_def)
  have row: "apply_ID ?row = n" "target_key ci ?row = key" using assms(3) by (simp_all add: inserted_apply_def target_key_def n)
  have same: "reserved ci d' a = reserved ci d a" for a by (simp add: reserved_def d')
  have "op_ApplyID r \<noteq> n" if "r \<in> set (apply_operations d)" for r using ids n that by (auto simp: ids_ok_def)
  then have only: "reserved ci d ?row = {ci (apply_Deployment apply)}"
    unfolding set_eq_iff reserved_iff row(1) by (auto simp: inserted_apply_def)
  have rows: "a = ?row \<or> (a \<in> set (applies d) \<and> apply_ID a < n)" if "a \<in> set (applies d')" for a
    using that ids n by (auto simp: d' ids_ok_def)
  have disj: "reserved ci d a \<inter> reserved ci d ?row = {}" if "a \<in> set (applies d)" "active a" "target_key ci a = key" for a
    using free[OF that] assms(4) by (auto simp: only)
  have "exclusive ci d'"
    unfolding exclusive_def same
  proof (intro ballI impI)
    fix a b
    assume "a \<in> set (applies d')" "b \<in> set (applies d')"
      and ab: "apply_ID a \<noteq> apply_ID b \<and> active a \<and> active b \<and> target_key ci a = target_key ci b"
    then consider "a = ?row" "b \<in> set (applies d)" | "b = ?row" "a \<in> set (applies d)" | "a \<in> set (applies d)" "b \<in> set (applies d)"
      using rows[of a] rows[of b] by blast
    then show "reserved ci d a \<inter> reserved ci d b = {}"
    proof cases
      case 1
      with ab row(2) disj[of b] show ?thesis by (simp add: Int_commute)
    next
      case 2
      with ab row(2) disj[of a] show ?thesis by simp
    next
      case 3
      with ab ex show ?thesis by (simp add: exclusive_def)
    qed
  qed
  moreover have "ids_ok d'" using ids n row by (auto simp: ids_ok_def d' inserted_apply_def)
  moreover have "name \<in> set (named_locks d')" using lock by (simp add: d')
  moreover have "target_key ci a = key" if "a \<in> set (applies d')" "apply_ID a = n" for a
    using rows[OF that(1)] that(2) row by auto
  moreover have "reserved ci d' a \<inter> ci ` set deps = {}"
    if "a \<in> set (applies d')" "active a" "target_key ci a = key" "apply_ID a \<noteq> n" for a
    using rows[OF that(1)] free that row(1) unfolding same by blast
  ultimately show ?thesis by (simp add: held_target_def d' n)
qed

lemma held_insert_op:
  assumes "held_target ci name key deps {i} d" and "insert_op ci row d = Inr (d', n)"
    and "op_ApplyID row = i" and "op_Deployment row \<in> set deps"
  shows "held_target ci name key deps {i} d'"
proof -
  let ?row = "row\<lparr>op_ID := apply_operations_next d, op_Attempt := 0, op_LeaseOwner := '''',
    op_LeaseToken := '''', op_LeaseAcquiredAt := None, op_CreatedAt := now d, op_UpdatedAt := now d\<rparr>"
  have d': "d' = d\<lparr>apply_operations := apply_operations d @ [?row], apply_operations_next := apply_operations_next d + 1\<rparr>"
    using assms(2) by (auto simp: insert_op_def split: if_splits)
  have other: "reserved ci d' a = reserved ci d a" if "apply_ID a \<noteq> i" for a
    using that assms(3) by (auto simp: set_eq_iff reserved_iff d')
  have own: "reserved ci d' a = insert (ci (op_Deployment row)) (reserved ci d a)" if "apply_ID a = i" for a
    using that assms(3) by (auto simp: set_eq_iff reserved_iff d')
  have key: "\<And>a. a \<in> set (applies d) \<Longrightarrow> apply_ID a = i \<Longrightarrow> target_key ci a = key"
    and free: "\<And>a. a \<in> set (applies d) \<Longrightarrow> active a \<Longrightarrow> target_key ci a = key \<Longrightarrow> apply_ID a \<noteq> i \<Longrightarrow>
      reserved ci d a \<inter> ci ` set deps = {}"
    and ex: "exclusive ci d"
    using assms(1) by (auto simp: held_target_def)
  have "exclusive ci d'"
    unfolding exclusive_def
  proof (intro ballI impI)
    fix a b
    assume ab: "a \<in> set (applies d')" "b \<in> set (applies d')"
      "apply_ID a \<noteq> apply_ID b \<and> active a \<and> active b \<and> target_key ci a = target_key ci b"
    then have old: "reserved ci d a \<inter> reserved ci d b = {}" using ex by (auto simp: exclusive_def d')
    have mem: "a \<in> set (applies d)" "b \<in> set (applies d)" using ab by (simp_all add: d')
    consider "apply_ID a = i" | "apply_ID b = i" | "apply_ID a \<noteq> i" "apply_ID b \<noteq> i" by blast
    then show "reserved ci d' a \<inter> reserved ci d' b = {}"
    proof cases
      case 1
      with ab key[OF mem(1)] free[OF mem(2)] assms(4) old show ?thesis by (auto simp: own other)
    next
      case 2
      with ab key[OF mem(2)] free[OF mem(1)] assms(4) old show ?thesis by (auto simp: own other)
    next
      case 3
      with old show ?thesis by (simp add: other)
    qed
  qed
  moreover have "ids_ok d'" using assms(1,3) by (auto simp: held_target_def ids_ok_def d')
  moreover have "reserved ci d' a \<inter> ci ` set deps = {}"
    if "a \<in> set (applies d')" "active a" "target_key ci a = key" "apply_ID a \<noteq> i" for a
    using free that other[OF that(4)] by (simp add: d')
  moreover have "applies d' = applies d" "applies_next d' = applies_next d" "named_locks d' = named_locks d"
    by (simp_all add: d')
  ultimately show ?thesis using assms(1) by (simp add: held_target_def)
qed

text \<open>Removing rows keeps the invariant, so a rollback of the inserts does.\<close>

lemma held_shrink:
  assumes "held_target ci name key deps own d" and "set (applies d') \<subseteq> set (applies d)" and "distinct (map apply_ID (applies d'))"
    and "set (apply_operations d') \<subseteq> set (apply_operations d)" and "applies_next d' = applies_next d" and "named_locks d' = named_locks d"
  shows "held_target ci name key deps own d'"
proof -
  have sub: "reserved ci d' a \<subseteq> reserved ci d a" for a using assms(4) by (auto simp: reserved_def)
  have "exclusive ci d'"
    unfolding exclusive_def
  proof (intro ballI impI)
    fix a b
    assume "a \<in> set (applies d')" "b \<in> set (applies d')"
      "apply_ID a \<noteq> apply_ID b \<and> active a \<and> active b \<and> target_key ci a = target_key ci b"
    with assms(1,2) have "reserved ci d a \<inter> reserved ci d b = {}" by (intro exclusiveD) (auto simp: held_target_def)
    with sub[of a] sub[of b] show "reserved ci d' a \<inter> reserved ci d' b = {}" by blast
  qed
  moreover have "ids_ok d'" using assms by (auto simp: held_target_def ids_ok_def)
  moreover have "reserved ci d' a \<inter> ci ` set deps = {}"
    if "a \<in> set (applies d')" "active a" "target_key ci a = key" "apply_ID a \<notin> own" for a
  proof -
    have "reserved ci d a \<inter> ci ` set deps = {}" using assms(1) subsetD[OF assms(2) that(1)] that(2-4) by (simp add: held_target_def)
    with sub[of a] show ?thesis by blast
  qed
  moreover have "target_key ci a = key" if "a \<in> set (applies d')" "apply_ID a \<in> own" for a
    using assms(1,2) that by (auto simp: held_target_def)
  ultimately show ?thesis using assms(1,5,6) by (simp add: held_target_def)
qed

lemma held_ids: "held_target ci name key deps own d \<Longrightarrow> distinct (map apply_ID (applies d))"
  by (simp add: held_target_def ids_ok_def)

lemma held_insert_task:
  assumes "held_target ci name key deps own d" and "insert_task ci guard task d = Inr (d', n)"
  shows "held_target ci name key deps own d'"
  using assms(2) held_ids[OF assms(1)]
  by (intro held_shrink[OF assms(1)]) (auto simp: insert_task_def split: if_splits)

lemma keeps_undo_inserts:
  "keeps_held ci name key (undo_insert_apply old)" "keeps_held ci name key (undo_insert_op old)"
  "keeps_held ci name key (undo_insert_task old)"
  unfolding keeps_held_def undo_insert_apply_def undo_insert_op_def undo_insert_task_def
  by ((intro allI impI)?, frule held_ids, erule held_shrink; auto intro: distinct_map_filter)+


section \<open>Creation\<close>

lemma hoare_assuming: "(A \<Longrightarrow> hoare P p Q) \<Longrightarrow> hoare (\<lambda>w. P w \<and> A) p Q"
  by (auto simp: hoare_def)

lemma hoare_intent:
  assumes "target_key ci apply = key" and "apply_Deployment apply \<in> set deps"
  shows "hoare (tx_world ci name key [] {}) (verifyExpectedLockIntent ci apply)
    (\<lambda>r w. tx_world ci name key [] {} w \<and> (\<forall>v. r = Inr v \<longrightarrow> target_key ci v = key \<and> apply_Deployment v \<in> set deps))"
  unfolding verifyExpectedLockIntent_def
  by (intro hoare_if hoare_bind[OF hoare_tx_query] hoare_sum hoare_option hoare_return)
    (use assms in \<open>simp_all add: target_key_def\<close>)

text \<open>A passed check: no active apply of the target reserves one of the deployments.\<close>

lemma held_checked:
  assumes "held_target ci name key [] {} d" and "key = (ci database, ci dbType, ci environment)"
    and "\<not> list_ex (reserves ci d database dbType environment (dedupeDeployments deps)) (applies d)"
  shows "held_target ci name key deps {} d"
  using assms by (auto simp: held_target_def list_ex_iff reserves_iff dedupeDeployments_def)

lemma hoare_overlap_check:
  assumes "key = (ci database, ci dbType, ci environment)"
  shows "hoare (tx_world ci name key [] {}) (checkNoActiveApplyForTargets ci database dbType environment deps 0)
    (\<lambda>r w. case r of Inl e \<Rightarrow> tx_world ci name key [] {} w | Inr _ \<Rightarrow> tx_world ci name key deps {} w)"
  unfolding checkNoActiveApplyForTargets_def Let_def
  by (intro hoare_if hoare_bind[OF hoare_tx_query] hoare_sum hoare_return)
    (use assms in \<open>auto simp: tx_world_def lock_world_def intro: held_checked\<close>)

text \<open>The lock of an apply's target.\<close>

definition lock_of :: "(string \<Rightarrow> string) \<Rightarrow> Apply \<Rightarrow> string" where
  "lock_of sha apply = applyTargetLockName sha (apply_Database apply) (apply_DatabaseType apply) (apply_Environment apply)"

lemma hoare_acquire:
  "hoare (base_world ci name key) (ExecContext (GET_LOCK name))
    (\<lambda>r w. base_world ci name key w \<and> (r = Inr 1 \<longrightarrow> lock_world ci name key [] {} w))"
proof (rule hoareI)
  fix w r w'
  assume "base_world ci name key w" and run: "run_state (ExecContext (GET_LOCK name)) w = (r, w')"
  moreover obtain e w1 where turn: "next_turn w = (e, w1)" by fastforce
  ultimately have w1: "base_world ci name key w1" by (blast intro: base_world_turn)
  have same: "exclusive ci (d\<lparr>named_locks := ns\<rparr>) = exclusive ci d" "ids_ok (d\<lparr>named_locks := ns\<rparr>) = ids_ok d" for d ns
    by (simp_all add: exclusive_def ids_ok_def reserved_def)
  show "base_world ci name key w' \<and> (r = Inr 1 \<longrightarrow> lock_world ci name key [] {} w')"
    using run turn w1
    by (auto simp: ExecContext_def GET_LOCK_def base_world_def lock_world_def held_target_def same split: option.splits if_splits)
qed

lemma hoare_with_target:
  assumes "hoare (tx_world ci (lock_of sha apply) key [] {}) body (\<lambda>r w. \<exists>deps own. tx_world ci (lock_of sha apply) key deps own w)"
  shows "hoare (base_world ci (lock_of sha apply) key)
    (with_target_tx sha opName (apply_Database apply) (apply_DatabaseType apply) (apply_Environment apply) body)
    (\<lambda>r. base_world ci (lock_of sha apply) key)"
proof -
  let ?name = "lock_of sha apply"
  have tx: "hoare (lock_world ci ?name key [] {}) (with_write_tx opName body) (\<lambda>r w. \<exists>deps own. lock_world ci ?name key deps own w)"
    unfolding with_write_tx_def
  proof (rule hoare_bind[OF hoare_begin], rule hoare_sum, goal_cases)
    case (1 r e)
    then show ?case by (intro hoare_return) auto
  next
    case (2 r u)
    then show ?case using hoare_defer_rollback[OF assms] by simp
  qed
  have lock: "hoare (base_world ci ?name key) (acquireApplyTargetLockConn sha (apply_Database apply) (apply_DatabaseType apply) (apply_Environment apply))
      (\<lambda>r w. base_world ci ?name key w \<and> (\<forall>l. r = Inr l \<longrightarrow> l = ?name \<and> lock_world ci ?name key [] {} w))"
    unfolding acquireApplyTargetLockConn_def lock_of_def[symmetric]
    by (intro hoare_if hoare_bind[OF hoare_acquire] hoare_sum hoare_return) auto
  show ?thesis
    unfolding with_target_tx_def
  proof (rule hoare_bind[OF lock], rule hoare_sum, goal_cases)
    case (1 r e)
    then show ?case by (intro hoare_return) auto
  next
    case (2 r l)
    have "hoare (lock_world ci ?name key [] {}) (defer_release l (with_write_tx opName body)) (\<lambda>r. base_world ci ?name key)"
      by (rule hoare_defer_release[OF tx])
    with 2 show ?case by (auto elim: hoare_conseq)
  qed
qed

text \<open>What a creation asks of the code that inserts the children: it writes for its own apply only.\<close>

locale apply_writer =
  fixes ci :: "string \<Rightarrow> string" and newDeployments :: "string list" and writeRows :: "int \<Rightarrow> unit prog"
  assumes writes_own: "\<And>name key i. hoare (tx_world ci name key newDeployments {i}) (writeRows i)
    (\<lambda>r. tx_world ci name key newDeployments {i})"
begin

lemma insert_keeps:
  assumes "target_key ci v = key" and "apply_Deployment v \<in> set newDeployments"
  shows "hoare (tx_world ci name key newDeployments {}) (tx_ExecContext undo_insert_apply (insert_apply ci v))
    (\<lambda>r w. case r of Inl e \<Rightarrow> tx_world ci name key newDeployments {} w | Inr i \<Rightarrow> tx_world ci name key newDeployments {i} w)"
  by (rule hoare_tx_write[where own' = "\<lambda>n. {n}"]) (use held_insert_apply[OF _ _ assms] keeps_undo_inserts in blast)+

lemma create_rows_keeps:
  assumes "target_key ci v = key" and "apply_Deployment v \<in> set newDeployments"
  shows "hoare (tx_world ci name key newDeployments {}) (create_rows ci opName v writeRows)
    (\<lambda>r w. \<exists>deps own. tx_world ci name key deps own w)"
  unfolding create_rows_def
proof (rule hoare_bind[OF insert_keeps[OF assms]], rule hoare_sum, goal_cases)
  case (1 r e)
  then show ?case by (intro hoare_if hoare_return) auto
next
  case (2 r i)
  then show ?case
    by (simp, intro hoare_bind[OF writes_own] hoare_bind[OF hoare_tx_commit] hoare_sum hoare_return) blast+
qed

lemma create_tx_keeps:
  assumes "target_key ci apply = key" and "apply_Deployment apply \<in> set newDeployments"
  shows "hoare (tx_world ci name key [] {}) (create_tx ci opName apply True newDeployments writeRows)
    (\<lambda>r w. \<exists>deps own. tx_world ci name key deps own w)"
  unfolding create_tx_def if_True
proof (rule hoare_bind[OF hoare_intent[OF assms]], rule hoare_sum, goal_cases)
  case (1 v e)
  then show ?case by (intro hoare_return) blast
next
  case (2 v verified)
  have key: "key = (ci (apply_Database apply), ci (apply_DatabaseType apply), ci (apply_Environment apply))"
    using assms(1) by (simp add: target_key_def)
  have "hoare (tx_world ci name key [] {})
      (do { k \<leftarrow> checkNoActiveApplyForTargets ci (apply_Database apply) (apply_DatabaseType apply) (apply_Environment apply) newDeployments 0;
            case k of Inl e \<Rightarrow> State_Monad.return (Inl e) | Inr _ \<Rightarrow> create_rows ci opName verified writeRows })
      (\<lambda>r w. \<exists>deps own. tx_world ci name key deps own w)"
    if "target_key ci verified = key" "apply_Deployment verified \<in> set newDeployments"
  proof (rule hoare_bind, rule hoare_overlap_check, rule key, rule hoare_sum, goal_cases)
    case (1 k e)
    then show ?case by (intro hoare_return) auto
  next
    case (2 k u)
    then show ?case using create_rows_keeps[OF that] by simp
  qed
  with 2 show ?case by (auto simp: hoare_def)
qed

lemma create_keeps:
  assumes "isActiveApplyState (apply_State apply)" and "apply_Deployment apply \<in> set newDeployments"
  shows "hoare (base_world ci (lock_of sha apply) (target_key ci apply)) (createWithRows sha ci opName apply newDeployments writeRows)
    (\<lambda>r. base_world ci (lock_of sha apply) (target_key ci apply))"
  unfolding createWithRows_def Let_def eqTrueI[OF assms(1)] if_True
  by (rule hoare_with_target) (rule create_tx_keeps[OF refl assms(2)])

end

section \<open>The writers of the store\<close>

interpretation no_children: apply_writer ci deps "\<lambda>_. State_Monad.return (Inr ())" for ci deps
  by unfold_locales (rule hoare_return)

lemma hoare_insert_op:
  assumes "op_ApplyID op = i" and "op_Deployment op \<in> set deps"
  shows "hoare (tx_world ci name key deps {i}) (insertApplyOperation tx_insert_op ci op) (\<lambda>r. tx_world ci name key deps {i})"
proof -
  have "hoare (tx_world ci name key deps {i}) (tx_insert_op (insert_op ci (with_operation_defaults op)))
      (\<lambda>r w. case r of Inl e \<Rightarrow> tx_world ci name key deps {i} w | Inr n \<Rightarrow> tx_world ci name key deps {i} w)"
    unfolding tx_insert_op_def
    by (rule hoare_tx_write[where own' = "\<lambda>n. {i}"])
      (erule held_insert_op, assumption, use assms keeps_undo_inserts in \<open>simp_all add: with_operation_defaults_def\<close>)
  then have "hoare (tx_world ci name key deps {i}) (tx_insert_op (insert_op ci (with_operation_defaults op)))
      (\<lambda>r. tx_world ci name key deps {i})"
    by (rule hoare_conseq) (auto split: sum.splits)
  then show ?thesis
    unfolding insertApplyOperation_def by (rule hoare_bind) (intro hoare_sum hoare_if hoare_return)
qed

lemma hoare_insert_task:
  "hoare (tx_world ci name key deps own) (insertTask tx_insert_task ci task) (\<lambda>r. tx_world ci name key deps own)"
proof -
  have "hoare (tx_world ci name key deps own) (insertTask tx_insert_task ci task)
      (\<lambda>r w. case r of Inl e \<Rightarrow> tx_world ci name key deps own w | Inr n \<Rightarrow> tx_world ci name key deps own w)"
    unfolding insertTask_def tx_insert_task_def
    by (rule hoare_tx_write[where own' = "\<lambda>n. own"]) (erule held_insert_task, assumption, rule keeps_undo_inserts)
  then show ?thesis by (rule hoare_conseq) (auto split: sum.splits)
qed

lemma hoare_insert_operations:
  "op_Deployment ` set ops \<subseteq> set deps \<Longrightarrow>
    hoare (tx_world ci name key deps {i}) (insert_operations ci i ops) (\<lambda>r. tx_world ci name key deps {i})"
proof (induction ops)
  case (Cons op ops)
  then have "hoare (tx_world ci name key deps {i}) (insertApplyOperation tx_insert_op ci (op\<lparr>op_ApplyID := i\<rparr>)) (\<lambda>r. tx_world ci name key deps {i})"
    by (intro hoare_insert_op) simp_all
  moreover have "hoare (tx_world ci name key deps {i}) (insert_operations ci i ops) (\<lambda>r. tx_world ci name key deps {i})"
    using Cons by simp
  ultimately show ?case
    unfolding insert_operations.simps
    by (elim hoare_bind) (intro hoare_sum hoare_return hoare_bind | clarsimp split: prod.splits)+
qed (simp add: hoare_return)

lemma hoare_insert_tasks:
  "hoare (tx_world ci name key deps own) (insert_tasks ci i ts) (\<lambda>r. tx_world ci name key deps own)"
  by (induction ts) (auto intro!: hoare_bind[OF hoare_insert_task] hoare_sum hoare_return)

interpretation children: apply_writer ci "dep # map op_Deployment ops" "insertApplyTasksAndOperations ci newTasks ops" for ci dep ops newTasks
  unfolding insertApplyTasksAndOperations_def
  by unfold_locales (intro hoare_bind[OF hoare_insert_operations] hoare_sum hoare_return hoare_insert_tasks, auto)

lemma hoare_insert_group_tasks:
  "hoare (tx_world ci name key deps own) (insert_group_tasks ci i j ts) (\<lambda>r. tx_world ci name key deps own)"
  by (induction ci i j ts rule: insert_group_tasks.induct)
    (auto intro!: hoare_bind[OF hoare_insert_task] hoare_sum hoare_return)

lemma hoare_insert_groups:
  "set (group_deployments groups) \<subseteq> set deps \<Longrightarrow>
    hoare (tx_world ci name key deps {i}) (insert_groups ci groups i) (\<lambda>r. tx_world ci name key deps {i})"
proof (induction ci groups i rule: insert_groups.induct)
  case (3 ci g gs i)
  show ?case
  proof (cases "grp_Operation g")
    case None
    then show ?thesis by (simp add: hoare_return)
  next
    case (Some op)
    have sub: "set (group_deployments gs) \<subseteq> set deps" "op_Deployment op \<in> set deps"
      using 3(2) Some by (auto simp: group_deployments_def)
    have op: "hoare (tx_world ci name key deps {i}) (insertApplyOperation tx_insert_op ci (op\<lparr>op_ApplyID := i\<rparr>)) (\<lambda>r. tx_world ci name key deps {i})"
      using sub by (intro hoare_insert_op) simp_all
    show ?thesis
    proof (cases "grp_Tasks g = [] \<and> op_OperationKind op \<noteq> ApplyOperationKindGroupFinalizer \<and> \<not> grp_AllowTaskless g")
      case True
      with Some show ?thesis by (simp add: hoare_return)
    next
      case False
      note rest = 3(1)[OF Some False sub(1)]
      show ?thesis
        unfolding insert_groups.simps Some option.case if_not_P[OF False]
        by (rule hoare_bind[OF op], rule hoare_sum)
          (auto intro!: hoare_bind[OF hoare_insert_group_tasks] hoare_sum hoare_return rest)
    qed
  qed
qed (simp_all add: hoare_return)

interpretation grouped: apply_writer ci "dep # group_deployments groups" "insertApplyGroupedOperations ci groups" for ci dep groups
  unfolding insertApplyGroupedOperations_def
  by unfold_locales (intro hoare_if hoare_return hoare_insert_groups, auto)

section \<open>Creations keep the applies exclusive\<close>

lemmas creation_keeps = no_children.create_keeps children.create_keeps grouped.create_keeps

text \<open>
  Property C8 (invariant).  Other sessions take any steps that keep the applies exclusive and leave the target alone while its
  lock is held; statements may fail at any point.  Then a creation of an active apply, with its
  operations and tasks, leaves the applies exclusive, whether it succeeds or fails.
\<close>

theorem create_exclusive:
  assumes "isActiveApplyState (apply_State apply)"
    and "p \<in> {Apply_Create sha ci apply, CreateWithTasksAndOperations sha ci apply newTasks ops,
      CreateWithGroupedOperations sha ci apply groups}"
    and "base_world ci (lock_of sha apply) (target_key ci apply) w" and "run_state p w = (r, w')"
  shows "exclusive ci (w_db w') \<and> ids_ok (w_db w')"
proof -
  let ?W = "base_world ci (lock_of sha apply) (target_key ci apply)"
  have "hoare ?W p (\<lambda>r. ?W)"
    using assms(2) creation_keeps[OF assms(1)]
    by (auto simp: Apply_Create_def CreateWithTasksAndOperations_def CreateWithGroupedOperations_def)
  with assms(3,4) have "?W w'" by (blast dest: hoareD)
  then show ?thesis by (simp add: base_world_def)
qed

text \<open>A session that completes every apply respects every lock.\<close>

definition finish_all :: "db \<Rightarrow> db" where
  "finish_all d = d\<lparr>applies := map (\<lambda>a. a\<lparr>apply_State := Apply_Completed\<rparr>) (applies d)\<rparr>"

lemma respects_finish_all: "respects_lock ci name key finish_all"
proof -
  have "\<not> active (a\<lparr>apply_State := Apply_Completed\<rparr>)" for a
    by (simp add: active_def terminalApplyStates_def)
  then have none: "\<not> active a" if "a \<in> set (applies (finish_all d))" for a d
    using that by (auto simp: finish_all_def)
  then have "exclusive ci (finish_all d)" for d by (auto simp: exclusive_def)
  moreover have "ids_ok (finish_all d) = ids_ok d" for d
    by (auto simp: ids_ok_def finish_all_def comp_def)
  moreover have "\<exists>b\<in>set (applies d). apply_ID b = apply_ID a \<and> target_key ci b = target_key ci a"
    if "a \<in> set (applies (finish_all d))" for a d
    using that by (auto simp: finish_all_def target_key_def)
  ultimately show ?thesis using none by (auto simp: respects_lock_def) (simp_all add: finish_all_def)
qed

definition new_apply :: "string \<Rightarrow> string \<Rightarrow> Apply" where
  "new_apply ident deployment = zero_apply\<lparr>apply_Identifier := ident, apply_Database := ''orders'', apply_DatabaseType := ''mysql'',
     apply_Environment := ''staging'', apply_Deployment := deployment, apply_State := Apply_Pending\<rparr>"

text \<open>An apply of the same deployment is completed while the creation waits for the lock.\<close>

definition busy_db :: db where
  "busy_db = empty_db\<lparr>applies := [(new_apply ''apply_1'' ''eu'')\<lparr>apply_ID := 1, apply_State := Apply_Running\<rparr>], applies_next := 2\<rparr>"

definition busy_world :: "turn list \<Rightarrow> world" where
  "busy_world ts = \<lparr>w_db = busy_db, w_undo = [], w_turns = ts\<rparr>"

theorem create_exclusive_witness:
  "let w = busy_world [Turn finish_all None]; p = Apply_Create id ToLower (new_apply ''apply_2'' ''eu'')
   in fst (run_state p w) = Inr 2 \<and> exclusive ToLower (w_db (snd (run_state p w)))"
proof -
  let ?a = "new_apply ''apply_2'' ''eu''" and ?w = "busy_world [Turn finish_all None]"
  have "base_world ToLower (lock_of id ?a) (target_key ToLower ?a) ?w"
    by (simp add: base_world_def busy_world_def respects_finish_all exclusive_def ids_ok_def busy_db_def empty_db_def)
  moreover have "isActiveApplyState (apply_State ?a)" by code_simp
  ultimately have "exclusive ToLower (w_db (snd (run_state (Apply_Create id ToLower ?a) ?w)))"
    using create_exclusive[of ?a "Apply_Create id ToLower ?a" id ToLower] by (cases "run_state (Apply_Create id ToLower ?a) ?w") auto
  moreover have "fst (run_state (Apply_Create id ToLower ?a) ?w) = Inr 2" by code_simp
  ultimately show ?thesis by simp
qed

text \<open>
  Further fact (functional correctness).  A creation that runs alone is refused exactly when an active
  apply of the target reserves its deployment; otherwise the row is inserted.  Either way the target
  lock is free again.
\<close>

theorem create_decides:
  assumes "isActiveApplyState (apply_State apply)" and "hasApplyTarget (apply_Database apply) (apply_DatabaseType apply) (apply_Environment apply)"
    and "apply_ExpectedLockOwner apply = ''''" and "apply_ExpectedPendingPlanID apply = ''''"
    and "lock_of sha apply \<notin> set (named_locks d)" and "\<not> list_ex (apply_conflict ci apply) (applies d)"
  shows "run_state (Apply_Create sha ci apply) (quiet d) =
    (if \<exists>a\<in>set (applies d). active a \<and> target_key ci a = target_key ci apply \<and> ci (apply_Deployment apply) \<in> reserved ci d a
     then (Inl (Wrapped ''active apply exists'' ErrActiveApplyExists), quiet d)
     else (Inr (applies_next d), quiet (d\<lparr>applies := applies d @ [inserted_apply apply d], applies_next := applies_next d + 1\<rparr>)))"
proof -
  let ?name = "applyTargetLockName sha (apply_Database apply) (apply_DatabaseType apply) (apply_Environment apply)"
  let ?d = "d\<lparr>named_locks := ?name # named_locks d\<rparr>"
  have free: "?name \<notin> set (named_locks d)" using assms(5) by (simp add: lock_of_def)
  have overlap: "list_ex (reserves ci ?d (apply_Database apply) (apply_DatabaseType apply) (apply_Environment apply) [apply_Deployment apply]) (applies ?d) \<longleftrightarrow>
      (\<exists>a\<in>set (applies d). active a \<and> target_key ci a = target_key ci apply \<and> ci (apply_Deployment apply) \<in> reserved ci d a)"
    by (auto simp: list_ex_iff reserves_iff target_key_def reserved_iff)
  have ins: "insert_apply ci apply ?d = Inr (?d\<lparr>applies := applies d @ [inserted_apply apply d], applies_next := applies_next d + 1\<rparr>, applies_next d)"
    using assms(6) by (simp add: insert_apply_def inserted_apply_def)
  have ded: "dedupeDeployments [apply_Deployment apply] = [apply_Deployment apply]" by (simp add: dedupeDeployments_def)
  have release: "RELEASE_LOCK ?name (d\<lparr>named_locks := ?name # named_locks d, applies := f, applies_next := n\<rparr>) = d\<lparr>applies := f, applies_next := n\<rparr>"
    "RELEASE_LOCK ?name ?d = d" for f n
    by (simp_all add: RELEASE_LOCK_def)
  show ?thesis
    using assms(1-4) free
    by (simp add: Apply_Create_def createWithRows_def with_target_tx_def acquireApplyTargetLockConn_def GET_LOCK_def defer_release_def
        with_write_tx_def create_tx_def verifyExpectedLockIntent_def checkNoActiveApplyForTargets_def create_rows_def ded overlap[simplified] ins release)
      blast
qed

theorem create_decides_witness:
  "run_state (Apply_Create id ToLower (new_apply ''apply_2'' ''EU'')) (quiet busy_db) =
    (Inl (Wrapped ''active apply exists'' ErrActiveApplyExists), quiet busy_db)"
proof -
  let ?a = "new_apply ''apply_2'' ''EU''"
  let ?b = "(new_apply ''apply_1'' ''eu'')\<lparr>apply_ID := 1, apply_State := Apply_Running\<rparr>"
  have "applies busy_db = [?b]" by (simp add: busy_db_def)
  moreover have "active ?b" by (simp add: active_def terminalApplyStates_def)
  moreover have "target_key ToLower ?b = target_key ToLower ?a" by (simp add: target_key_def new_apply_def)
  moreover have "ToLower (apply_Deployment ?a) \<in> reserved ToLower busy_db ?b"
    unfolding reserved_iff by (intro disjI1) code_simp
  ultimately have "\<exists>a\<in>set (applies busy_db). active a \<and> target_key ToLower a = target_key ToLower ?a \<and>
      ToLower (apply_Deployment ?a) \<in> reserved ToLower busy_db a"
    by simp
  moreover have "isActiveApplyState (apply_State ?a)" "hasApplyTarget (apply_Database ?a) (apply_DatabaseType ?a) (apply_Environment ?a)"
    "apply_ExpectedLockOwner ?a = ''''" "apply_ExpectedPendingPlanID ?a = ''''" "lock_of id ?a \<notin> set (named_locks busy_db)"
    "\<not> list_ex (apply_conflict ToLower ?a) (applies busy_db)"
    by code_simp+
  ultimately show ?thesis using create_decides[of ?a id busy_db ToLower] by simp
qed

end
