(* ===== verification/Plan_Store.thy ===== *)
theory Plan_Store
  imports Sql_Store "HOL-Library.Char_ord" "HOL-Library.List_Lexorder" "HOL-Library.Product_Lexorder" "HOL-Library.Multiset"
begin

text \<open>
  Plans and their store (\<^verbatim>\<open>pkg/storage/mysqlstore/plans.go\<close> and the methods of \<^verbatim>\<open>Plan\<close> in
  \<^verbatim>\<open>pkg/storage/types.go\<close>).  The \<^verbatim>\<open>plan_data\<close> column holds the JSON of the namespaces with the shard plans
  folded into them; the row keeps the decoded value.  Go iterates maps in an arbitrary order, here
  in the order of the association list; everything that leaves the store is sorted.
\<close>

section \<open>Changes of a plan\<close>

definition RequiresUnsafeOptIn :: "TableChange \<Rightarrow> bool" where
  "RequiresUnsafeOptIn tc \<longleftrightarrow> tc_IsUnsafe tc \<or> EqualFold (tc_Operation tc) ''drop''"

definition UnsafeOptInReason :: "TableChange \<Rightarrow> string" where
  "UnsafeOptInReason tc =
    (if tc_UnsafeReason tc \<noteq> '''' then tc_UnsafeReason tc
     else if EqualFold (tc_Operation tc) ''drop'' then ''DROP TABLE removes all data''
     else ''unsafe schema change requires explicit opt-in'')"

definition with_namespace :: "string \<Rightarrow> TableChange \<Rightarrow> TableChange" where
  "with_namespace k tc = (if tc_Namespace tc = '''' then tc\<lparr>tc_Namespace := k\<rparr> else tc)"

text \<open>A nil namespace would panic; plans are stored without them.\<close>

definition namespace_tables :: "NamespacePlanData option \<Rightarrow> TableChange list" where
  "namespace_tables nsData = (case nsData of None \<Rightarrow> [] | Some ns \<Rightarrow> npd_Tables ns)"

definition FlatDDLChanges :: "Plan \<Rightarrow> TableChange list" where
  "FlatDDLChanges p =
    concat (map (\<lambda>(k, nsData). map (with_namespace k) (namespace_tables nsData)) (sort_key fst (plan_Namespaces p)))"

definition UnsafeDDLChanges :: "Plan \<Rightarrow> TableChange list" where
  "UnsafeDDLChanges p =
    filter RequiresUnsafeOptIn (FlatDDLChanges p) @
    filter RequiresUnsafeOptIn
      (concat (map (\<lambda>shard. map (with_namespace (sp_Namespace shard)) (sp_Changes shard)) (plan_Shards p)))"

definition HasOriginalFilesCapture :: "Plan option \<Rightarrow> bool" where
  "HasOriginalFilesCapture plan =
    (case plan of
       None \<Rightarrow> False
     | Some p \<Rightarrow> plan_Namespaces p \<noteq> [] \<and>
         list_all (\<lambda>(k, nsData). case nsData of None \<Rightarrow> False | Some ns \<Rightarrow> npd_OriginalFilesCaptured ns) (plan_Namespaces p))"

abbreviation vSchemaArtifactName :: string where "vSchemaArtifactName \<equiv> ''vschema.json''"

definition has_vschema :: "NamespacePlanData option \<Rightarrow> bool" where
  "has_vschema nsData =
    (case nsData of
       None \<Rightarrow> False
     | Some ns \<Rightarrow> (case map_of (npd_Artifacts ns) vSchemaArtifactName of None \<Rightarrow> False | Some v \<Rightarrow> v \<noteq> ''''))"

definition vschemaFinalizerNamespaces :: "Plan \<Rightarrow> string list" where
  "vschemaFinalizerNamespaces plan = sort (map fst (filter (\<lambda>(k, nsData). has_vschema nsData) (plan_Namespaces plan)))"

section \<open>Folding shard plans into namespaces\<close>

definition planShardNamespace :: "string \<Rightarrow> string" where
  "planShardNamespace namespace = (if namespace = '''' then ''default'' else namespace)"

definition shard_key_of :: "ShardPlan \<Rightarrow> string \<times> string" where
  "shard_key_of shard = (sp_Namespace shard, sp_Shard shard)"

definition sortedShardPlans :: "ShardPlan list \<Rightarrow> ShardPlan list" where
  "sortedShardPlans shards = sort_key shard_key_of shards"

definition empty_namespace :: NamespacePlanData where
  "empty_namespace = \<lparr>npd_Tables = [], npd_Shards = [], npd_OriginalFiles = [], npd_OriginalFilesCaptured = False, npd_Artifacts = []\<rparr>"

fun add_shard :: "ShardPlan \<Rightarrow> (string \<times> NamespacePlanData option) list \<Rightarrow> (string \<times> NamespacePlanData option) list" where
  "add_shard shard [] = [(sp_Namespace shard, Some (empty_namespace\<lparr>npd_Shards := [shard]\<rparr>))]"
| "add_shard shard ((k, nsData) # rest) =
    (if k = sp_Namespace shard
     then (k, Some (case nsData of
         None \<Rightarrow> empty_namespace\<lparr>npd_Shards := [shard]\<rparr>
       | Some ns \<Rightarrow> ns\<lparr>npd_Shards := npd_Shards ns @ [shard]\<rparr>)) # rest
     else (k, nsData) # add_shard shard rest)"

text \<open>The flattened shards of the plan are authoritative when there are any.\<close>

definition kept_namespace :: "Plan \<Rightarrow> string \<times> NamespacePlanData option \<Rightarrow> string \<times> NamespacePlanData option" where
  "kept_namespace plan kv =
    (case kv of (k, nsData) \<Rightarrow>
      (k, map_option (\<lambda>ns. if plan_Shards plan \<noteq> [] then ns\<lparr>npd_Shards := []\<rparr> else ns) nsData))"

definition stored_shard :: "ShardPlan \<Rightarrow> ShardPlan" where
  "stored_shard shard = shard\<lparr>sp_Namespace := planShardNamespace (sp_Namespace shard)\<rparr>"

definition namespacesWithShardPlans :: "Plan \<Rightarrow> (string \<times> NamespacePlanData option) list" where
  "namespacesWithShardPlans plan =
    (if plan_Namespaces plan = [] \<and> plan_Shards plan = [] then plan_Namespaces plan
     else fold add_shard
       (map stored_shard (sortedShardPlans (plan_Shards plan)))
       (map (kept_namespace plan) (plan_Namespaces plan)))"

definition shard_of_namespace :: "string \<Rightarrow> ShardPlan \<Rightarrow> ShardPlan" where
  "shard_of_namespace namespace shard =
    (if sp_Namespace shard = '''' then shard\<lparr>sp_Namespace := planShardNamespace namespace\<rparr> else shard)"

definition namespace_shards :: "string \<times> NamespacePlanData option \<Rightarrow> ShardPlan list" where
  "namespace_shards kv =
    (case kv of (namespace, nsData) \<Rightarrow>
      (case nsData of None \<Rightarrow> [] | Some ns \<Rightarrow> map (shard_of_namespace namespace) (npd_Shards ns)))"

definition shardPlansFromNamespaces :: "(string \<times> NamespacePlanData option) list \<Rightarrow> ShardPlan list" where
  "shardPlansFromNamespaces namespaces = sortedShardPlans (concat (map namespace_shards namespaces))"

section \<open>The store\<close>

text \<open>The inserted row, and a row as it is scanned.\<close>

definition plan_row :: "Plan \<Rightarrow> db \<Rightarrow> Plan" where
  "plan_row plan d = plan\<lparr>plan_ID := plans_next d, plan_Namespaces := namespacesWithShardPlans plan, plan_Shards := []\<rparr>"

definition scanPlanInto :: "Plan \<Rightarrow> Plan" where
  "scanPlanInto row = row\<lparr>plan_Shards := shardPlansFromNamespaces (plan_Namespaces row)\<rparr>"

definition insert_plan :: "(string \<Rightarrow> string) \<Rightarrow> Plan \<Rightarrow> statement" where
  "insert_plan ci plan d =
    (if list_ex (\<lambda>p. ci (plan_Identifier p) = ci (plan_Identifier plan)) (plans d) then Inl duplicate_entry
     else Inr (d\<lparr>plans := plans d @ [plan_row plan d], plans_next := plans_next d + 1\<rparr>, plans_next d))"

definition Plan_Create :: "(string \<Rightarrow> string) \<Rightarrow> Plan \<Rightarrow> int prog" where
  "Plan_Create ci plan =
    do {
      r \<leftarrow> ExecContext (insert_plan ci plan);
      case r of
        Inl e \<Rightarrow>
          if isDuplicateKeyError e then State_Monad.return (Inl ErrPlanIDExists) else State_Monad.return (Inl e)
      | Inr i \<Rightarrow> State_Monad.return (Inr i)
    }"

definition Plan_Get :: "(string \<Rightarrow> string) \<Rightarrow> string \<Rightarrow> Plan option prog" where
  "Plan_Get ci planIdentifier =
    QueryContext (\<lambda>d. map_option scanPlanInto (find (\<lambda>p. ci (plan_Identifier p) = ci planIdentifier) (plans d)))"

definition Plan_GetByID :: "int \<Rightarrow> Plan option prog" where
  "Plan_GetByID i = QueryContext (\<lambda>d. map_option scanPlanInto (find (\<lambda>p. plan_ID p = i) (plans d)))"

definition Plan_GetByLock :: "int \<Rightarrow> Plan list prog" where
  "Plan_GetByLock lockID = State_Monad.return (Inr [])"

definition Plan_GetByPR :: "(string \<Rightarrow> string) \<Rightarrow> string \<Rightarrow> int \<Rightarrow> Plan list prog" where
  "Plan_GetByPR ci repo pr =
    do {
      r \<leftarrow> QueryContext (\<lambda>d. map scanPlanInto (sort_key (\<lambda>p. - plan_CreatedAt p) (sort_key (\<lambda>p. - plan_ID p)
        (filter (\<lambda>p. ci (plan_Repository p) = ci repo \<and> plan_PullRequest p = pr) (plans d)))));
      case r of
        Inl e \<Rightarrow> State_Monad.return (Inl (Wrapped ''query plans'' e))
      | Inr ps \<Rightarrow> State_Monad.return (Inr ps)
    }"

definition delete_plans :: "(Plan \<Rightarrow> bool) \<Rightarrow> statement" where
  "delete_plans P d = Inr (d\<lparr>plans := filter (\<lambda>p. \<not> P p) (plans d)\<rparr>, int (length (filter P (plans d))))"

definition Plan_Delete :: "int \<Rightarrow> unit prog" where
  "Plan_Delete i =
    do {
      r \<leftarrow> ExecContext (delete_plans (\<lambda>p. plan_ID p = i));
      case r of
        Inl e \<Rightarrow> State_Monad.return (Inl e)
      | Inr rows \<Rightarrow> State_Monad.return (checkRowsAffected rows ErrPlanNotFound)
    }"

definition Plan_DeleteByPR :: "(string \<Rightarrow> string) \<Rightarrow> string \<Rightarrow> int \<Rightarrow> unit prog" where
  "Plan_DeleteByPR ci repo pr =
    do {
      r \<leftarrow> ExecContext (delete_plans (\<lambda>p. ci (plan_Repository p) = ci repo \<and> plan_PullRequest p = pr));
      case r of
        Inl e \<Rightarrow> State_Monad.return (Inl e)
      | Inr _ \<Rightarrow> State_Monad.return (Inr ())
    }"

section \<open>A stored plan is read back\<close>

lemma stored_shard_namespace [simp]: "sp_Namespace (stored_shard s) \<noteq> ''''"
  by (simp add: stored_shard_def planShardNamespace_def)

lemma namespace_shards_add:
  "sp_Namespace s \<noteq> '''' \<Longrightarrow>
    mset (concat (map namespace_shards (add_shard s kvs))) = add_mset s (mset (concat (map namespace_shards kvs)))"
proof (induction s kvs rule: add_shard.induct)
  case (2 s k nsData rest)
  then show ?case by (cases nsData) (auto simp: namespace_shards_def shard_of_namespace_def empty_namespace_def)
qed (simp add: namespace_shards_def shard_of_namespace_def)

lemma namespace_shards_fold:
  "\<forall>s\<in>set ss. sp_Namespace s \<noteq> '''' \<Longrightarrow>
    mset (concat (map namespace_shards (fold add_shard ss kvs))) = mset ss + mset (concat (map namespace_shards kvs))"
  by (induction ss arbitrary: kvs) (simp_all add: namespace_shards_add)

lemma kept_no_shards: "plan_Shards plan \<noteq> [] \<Longrightarrow> concat (map namespace_shards (map (kept_namespace plan) kvs)) = []"
  by (auto simp: kept_namespace_def namespace_shards_def split: option.splits)

lemma shards_read_back:
  assumes "plan_Shards plan \<noteq> []" and "distinct (map (shard_key_of \<circ> stored_shard) (plan_Shards plan))"
  shows "shardPlansFromNamespaces (namespacesWithShardPlans plan) = sortedShardPlans (map stored_shard (plan_Shards plan))"
proof -
  let ?ss = "map stored_shard (sortedShardPlans (plan_Shards plan))"
  let ?all = "concat (map namespace_shards (namespacesWithShardPlans plan))"
  have "mset ?all = mset ?ss"
    using assms(1) kept_no_shards[OF assms(1), of "plan_Namespaces plan"]
    by (simp add: namespacesWithShardPlans_def namespace_shards_fold)
  also have "\<dots> = mset (map stored_shard (plan_Shards plan))" by (simp add: sortedShardPlans_def)
  finally have same: "mset ?all = mset (map stored_shard (plan_Shards plan))" .
  then have "set ?all = set (map stored_shard (plan_Shards plan))" by (rule mset_eq_setD)
  moreover have "inj_on shard_key_of (set (map stored_shard (plan_Shards plan)))"
    using assms(2) by (simp add: distinct_map flip: map_map)
  ultimately have "inj_on shard_key_of (set ?all)" by simp
  with same show ?thesis
    unfolding shardPlansFromNamespaces_def sortedShardPlans_def
    by (intro sort_key_inj_key_eq) simp_all
qed

text \<open>The table changes do not depend on the shard plans.\<close>

definition tables_of :: "string \<times> NamespacePlanData option \<Rightarrow> string \<times> TableChange list" where
  "tables_of kv = (fst kv, namespace_tables (snd kv))"

lemma insort_key_map: "map f (insort_key (\<lambda>x. k (f x)) x xs) = insort_key k (f x) (map f xs)"
  by (induction xs) auto

lemma sort_key_map: "map f (sort_key (\<lambda>x. k (f x)) xs) = sort_key k (map f xs)"
  by (induction xs) (simp_all add: insort_key_map)

lemma FlatDDLChanges_tables:
  "FlatDDLChanges p = concat (map (\<lambda>(k, ts). map (with_namespace k) ts)
    (sort_key fst (filter (\<lambda>kv. snd kv \<noteq> []) (map tables_of (plan_Namespaces p)))))"
proof -
  let ?g = "\<lambda>(k, ts). map (with_namespace k) ts"
  have drop: "concat (map ?g xs) = concat (map ?g (filter (\<lambda>kv. snd kv \<noteq> []) xs))" for xs
    by (induction xs) (auto split: prod.splits)
  have "FlatDDLChanges p = concat (map ?g (map tables_of (sort_key (\<lambda>kv. fst (tables_of kv)) (plan_Namespaces p))))"
    unfolding FlatDDLChanges_def by (simp add: tables_of_def comp_def split_def)
  also have "\<dots> = concat (map ?g (sort_key fst (map tables_of (plan_Namespaces p))))" by (simp only: sort_key_map)
  also have "\<dots> = concat (map ?g (filter (\<lambda>kv. snd kv \<noteq> []) (sort_key fst (map tables_of (plan_Namespaces p)))))" by (rule drop)
  finally show ?thesis by (simp only: filter_sort)
qed

lemma tables_add_shard:
  "filter (\<lambda>kv. snd kv \<noteq> []) (map tables_of (add_shard s kvs)) = filter (\<lambda>kv. snd kv \<noteq> []) (map tables_of kvs)"
proof (induction s kvs rule: add_shard.induct)
  case (2 s k nsData rest)
  then show ?case by (cases nsData) (auto simp: tables_of_def namespace_tables_def empty_namespace_def)
qed (simp add: tables_of_def namespace_tables_def empty_namespace_def)

lemma tables_stored:
  "filter (\<lambda>kv. snd kv \<noteq> []) (map tables_of (namespacesWithShardPlans plan)) =
    filter (\<lambda>kv. snd kv \<noteq> []) (map tables_of (plan_Namespaces plan))"
proof -
  have "filter (\<lambda>kv. snd kv \<noteq> []) (map tables_of (fold add_shard ss kvs)) = filter (\<lambda>kv. snd kv \<noteq> []) (map tables_of kvs)" for ss kvs
    by (induction ss arbitrary: kvs) (simp_all add: tables_add_shard)
  moreover have "tables_of \<circ> kept_namespace plan = tables_of"
    by (auto simp: tables_of_def kept_namespace_def namespace_tables_def fun_eq_iff split: option.splits)
  ultimately show ?thesis by (simp add: namespacesWithShardPlans_def)
qed

text \<open>
  Property C30 (round trip).  A stored plan is read back with the table changes it was stored with and
  with its shard plans, sorted and each under a named namespace; shard plans that its namespaces
  carried before are replaced.
\<close>

theorem plan_round_trip:
  assumes "\<not> list_ex (\<lambda>p. ci (plan_Identifier p) = ci (plan_Identifier plan)) (plans d)"
    and "list_all (\<lambda>p. plan_ID p < plans_next d) (plans d)"
    and "plan_Shards plan \<noteq> []" and "distinct (map (shard_key_of \<circ> stored_shard) (plan_Shards plan))"
  shows "\<exists>i d' p. run_state (Plan_Create ci plan) (quiet d) = (Inr i, quiet d') \<and>
    run_state (Plan_GetByID i) (quiet d') = (Inr (Some p), quiet d') \<and>
    plan_Shards p = sortedShardPlans (map stored_shard (plan_Shards plan)) \<and>
    FlatDDLChanges p = FlatDDLChanges plan \<and>
    p\<lparr>plan_ID := plan_ID plan, plan_Namespaces := plan_Namespaces plan, plan_Shards := plan_Shards plan\<rparr> = plan"
proof -
  let ?row = "plan_row plan d"
  let ?d = "d\<lparr>plans := plans d @ [?row], plans_next := plans_next d + 1\<rparr>"
  have "run_state (Plan_Create ci plan) (quiet d) = (Inr (plans_next d), quiet ?d)"
    using assms(1) by (simp add: Plan_Create_def insert_plan_def)
  moreover have "find (\<lambda>p. plan_ID p = plans_next d) (plans d) = None"
    using assms(2) by (auto simp: find_None_iff list_all_iff)
  then have "run_state (Plan_GetByID (plans_next d)) (quiet ?d) = (Inr (Some (scanPlanInto ?row)), quiet ?d)"
    by (simp add: Plan_GetByID_def find_append_single plan_row_def)
  moreover have "plan_Shards (scanPlanInto ?row) = sortedShardPlans (map stored_shard (plan_Shards plan))"
    using shards_read_back[OF assms(3,4)] by (simp add: scanPlanInto_def plan_row_def)
  moreover have "FlatDDLChanges (scanPlanInto ?row) = FlatDDLChanges plan"
    by (simp only: FlatDDLChanges_tables) (simp add: scanPlanInto_def plan_row_def tables_stored)
  ultimately show ?thesis
    by (intro exI[of _ "plans_next d"] exI[of _ ?d] exI[of _ "scanPlanInto ?row"]) (simp add: scanPlanInto_def plan_row_def)
qed

definition example_plan :: Plan where
  "example_plan = \<lparr>plan_ID = 0, plan_Identifier = ''plan_1'', plan_Database = ''orders'', plan_DatabaseType = ''vitess'',
     plan_Deployment = ''eu'', plan_Target = ''orders-eu'', plan_Repository = ''acme/shop'', plan_PullRequest = 5,
     plan_SchemaPath = ''schema/orders'', plan_Environment = ''staging'', plan_SchemaFiles = [],
     plan_Namespaces = [(''orders'', Some (empty_namespace\<lparr>npd_Tables :=
        [\<lparr>tc_Namespace = '''', tc_Table = ''items'', tc_DDL = ''ALTER TABLE items ADD x INT'', tc_Operation = ''alter'',
          tc_IsUnsafe = False, tc_UnsafeReason = ''''\<rparr>]\<rparr>))],
     plan_Shards = [\<lparr>sp_Shard = ''80-'', sp_Namespace = ''orders'', sp_Changes = []\<rparr>, \<lparr>sp_Shard = ''-80'', sp_Namespace = '''', sp_Changes = []\<rparr>],
     plan_HeadSHA = ''abc'', plan_CreatedAt = 1\<rparr>"

theorem plan_round_trip_witness:
  "\<exists>i d' p. run_state (Plan_Create ToLower example_plan) (quiet empty_db) = (Inr i, quiet d') \<and>
    run_state (Plan_GetByID i) (quiet d') = (Inr (Some p), quiet d') \<and>
    map shard_key_of (plan_Shards p) = [(''default'', ''-80''), (''orders'', ''80-'')]"
proof -
  have "\<not> list_ex (\<lambda>p. ToLower (plan_Identifier p) = ToLower (plan_Identifier example_plan)) (plans empty_db)"
    and "list_all (\<lambda>p. plan_ID p < plans_next empty_db) (plans empty_db)" by (simp_all add: empty_db_def)
  moreover have "plan_Shards example_plan \<noteq> []" "distinct (map (shard_key_of \<circ> stored_shard) (plan_Shards example_plan))"
    and "map shard_key_of (sortedShardPlans (map stored_shard (plan_Shards example_plan))) = [(''default'', ''-80''), (''orders'', ''80-'')]"
    by code_simp+
  ultimately show ?thesis using plan_round_trip[of ToLower example_plan empty_db] by metis
qed

end
