(* ===== verification/Comment_Store.thy ===== *)
theory Comment_Store
  imports Apply_Store Plan_Store
begin

text \<open>
  The comments SchemaBot keeps on pull requests (\<^verbatim>\<open>apply_comments.go\<close>, \<^verbatim>\<open>plan_comments.go\<close> of
  \<^verbatim>\<open>pkg/storage/mysqlstore\<close>), the settings (\<^verbatim>\<open>settings.go\<close>), and the queries of \<^verbatim>\<open>applies.go\<close> that join
  applies with comments and plans.  A summary is posted by whoever inserts the claim sentinel, a
  row with comment id 0.
\<close>

section \<open>Comments of an apply\<close>

abbreviation Comment_Progress :: string where "Comment_Progress \<equiv> ''progress''"
abbreviation Comment_Summary :: string where "Comment_Summary \<equiv> ''summary''"
abbreviation SummaryClaimStaleAfter :: int where "SummaryClaimStaleAfter \<equiv> 120"

definition comment_key :: "int \<Rightarrow> string \<Rightarrow> ApplyComment \<Rightarrow> bool" where
  "comment_key applyID commentState r \<longleftrightarrow> ac_ApplyID r = applyID \<and> ac_CommentState r = commentState"

definition stamp_comment :: "db \<Rightarrow> (ApplyComment \<Rightarrow> ApplyComment) \<Rightarrow> ApplyComment \<Rightarrow> ApplyComment" where
  "stamp_comment d f = on_update (\<lambda>r. r\<lparr>ac_UpdatedAt := now d\<rparr>) f"

definition update_comments :: "(db \<Rightarrow> ApplyComment \<Rightarrow> bool) \<Rightarrow> (db \<Rightarrow> ApplyComment \<Rightarrow> ApplyComment) \<Rightarrow> statement" where
  "update_comments P f d =
    Inr (d\<lparr>apply_comments := sql_update (P d) (stamp_comment d (f d)) (apply_comments d)\<rparr>,
      rows_changed (P d) (stamp_comment d (f d)) (apply_comments d))"

definition new_comment :: "ApplyComment \<Rightarrow> db \<Rightarrow> ApplyComment" where
  "new_comment comment d = comment\<lparr>ac_ID := apply_comments_next d, ac_EditCount := 0, ac_LastEditedAt := None,
     ac_SupersededAt := None, ac_CreatedAt := now d, ac_UpdatedAt := now d\<rparr>"

definition replace_comment :: "ApplyComment \<Rightarrow> ApplyComment \<Rightarrow> ApplyComment" where
  "replace_comment comment r = r\<lparr>ac_GitHubCommentID := ac_GitHubCommentID comment, ac_PostedVolume := ac_PostedVolume comment,
     ac_PendingFreezeCommentID := ac_PendingFreezeCommentID comment, ac_SupersededAt := None\<rparr>"

text \<open>
  INSERT ... ON DUPLICATE KEY UPDATE: 1 for an inserted row, 2 for a changed one, 0 for an unchanged
  one.  The guarded form selects no row when the lease is not current.
\<close>

definition upsert_comment :: "(db \<Rightarrow> bool) \<Rightarrow> ApplyComment \<Rightarrow> statement" where
  "upsert_comment guard comment d =
    (let key = comment_key (ac_ApplyID comment) (ac_CommentState comment) in
     if \<not> guard d then Inr (d, 0)
     else if list_ex key (apply_comments d)
     then Inr (d\<lparr>apply_comments := sql_update key (stamp_comment d (replace_comment comment)) (apply_comments d)\<rparr>,
            2 * rows_changed key (stamp_comment d (replace_comment comment)) (apply_comments d))
     else Inr (d\<lparr>apply_comments := apply_comments d @ [new_comment comment d], apply_comments_next := apply_comments_next d + 1\<rparr>, 1))"

text \<open>A write under an optional lease: no affected row means that the lease has to be verified.\<close>

definition leased_comment_write :: "ctx \<Rightarrow> int \<Rightarrow> (ApplyLease option \<Rightarrow> statement) \<Rightarrow> unit prog" where
  "leased_comment_write c applyID stm =
    (case applyLeaseFromContext c applyID of
       Inl e \<Rightarrow> State_Monad.return (Inl e)
     | Inr lease \<Rightarrow>
         do {
           r \<leftarrow> ExecContext (stm lease);
           case r of
             Inl e \<Rightarrow> State_Monad.return (Inl e)
           | Inr rows \<Rightarrow>
               (case lease of
                  None \<Rightarrow> State_Monad.return (Inr ())
                | Some l \<Rightarrow> if rows = 0 then ensureApplyLeaseStillOwned l else State_Monad.return (Inr ()))
         })"

definition leased :: "ApplyLease option \<Rightarrow> int \<Rightarrow> db \<Rightarrow> bool" where
  "leased lease applyID d =
    (case lease of
       None \<Rightarrow> True
     | Some l \<Rightarrow> list_ex (\<lambda>a. apply_ID a = applyID \<and> apply_LeaseToken a = al_Token l) (applies d))"

definition Comment_Upsert :: "ctx \<Rightarrow> ApplyComment \<Rightarrow> unit prog" where
  "Comment_Upsert c comment =
    leased_comment_write c (ac_ApplyID comment) (\<lambda>lease. upsert_comment (leased lease (ac_ApplyID comment)) comment)"

definition Comment_Get :: "int \<Rightarrow> string \<Rightarrow> ApplyComment option prog" where
  "Comment_Get applyID commentState = QueryContext (\<lambda>d. find (comment_key applyID commentState) (apply_comments d))"

definition Comment_ListByApply :: "int \<Rightarrow> ApplyComment list prog" where
  "Comment_ListByApply applyID =
    do {
      r \<leftarrow> QueryContext (\<lambda>d. sort_key ac_ID (filter (\<lambda>r. ac_ApplyID r = applyID) (apply_comments d)));
      case r of
        Inl e \<Rightarrow> State_Monad.return (Inl (Wrapped ''query apply comments for apply'' e))
      | Inr rs \<Rightarrow> State_Monad.return (Inr rs)
    }"

definition IncrementEditCount :: "ctx \<Rightarrow> int \<Rightarrow> string \<Rightarrow> unit prog" where
  "IncrementEditCount c applyID commentState =
    leased_comment_write c applyID (\<lambda>lease.
      update_comments (\<lambda>d r. comment_key applyID commentState r \<and> leased lease applyID d)
        (\<lambda>d r. r\<lparr>ac_EditCount := ac_EditCount r + 1, ac_LastEditedAt := Some (now d)\<rparr>))"

definition delete_comments :: "(ApplyComment \<Rightarrow> bool) \<Rightarrow> statement" where
  "delete_comments P d =
    Inr (d\<lparr>apply_comments := filter (\<lambda>r. \<not> P r) (apply_comments d)\<rparr>, int (length (filter P (apply_comments d))))"

definition Comment_DeleteByApply :: "int \<Rightarrow> unit prog" where
  "Comment_DeleteByApply applyID =
    do {
      r \<leftarrow> ExecContext (delete_comments (\<lambda>r. ac_ApplyID r = applyID));
      case r of Inl e \<Rightarrow> State_Monad.return (Inl e) | Inr _ \<Rightarrow> State_Monad.return (Inr ())
    }"

definition Supersede :: "ctx \<Rightarrow> int \<Rightarrow> string \<Rightarrow> unit prog" where
  "Supersede c applyID commentState =
    leased_comment_write c applyID (\<lambda>lease.
      update_comments (\<lambda>d r. comment_key applyID commentState r \<and> ac_SupersededAt r = None \<and> leased lease applyID d)
        (\<lambda>d r. r\<lparr>ac_SupersededAt := Some (now d)\<rparr>))"

definition ClearPendingFreeze :: "ctx \<Rightarrow> int \<Rightarrow> string \<Rightarrow> unit prog" where
  "ClearPendingFreeze c applyID commentState =
    leased_comment_write c applyID (\<lambda>lease.
      update_comments (\<lambda>d r. comment_key applyID commentState r \<and> ac_PendingFreezeCommentID r \<noteq> None \<and> leased lease applyID d)
        (\<lambda>d r. r\<lparr>ac_PendingFreezeCommentID := None\<rparr>))"

section \<open>The claim of the summary\<close>

definition sentinel :: "int \<Rightarrow> ApplyComment" where
  "sentinel applyID = \<lparr>ac_ID = 0, ac_ApplyID = applyID, ac_CommentState = Comment_Summary, ac_GitHubCommentID = 0,
     ac_PostedVolume = None, ac_PendingFreezeCommentID = None, ac_EditCount = 0, ac_LastEditedAt = None, ac_SupersededAt = None,
     ac_CreatedAt = 0, ac_UpdatedAt = 0\<rparr>"

text \<open>INSERT IGNORE.\<close>

definition insert_sentinel :: "int \<Rightarrow> statement" where
  "insert_sentinel applyID d =
    (if list_ex (comment_key applyID Comment_Summary) (apply_comments d) then Inr (d, 0)
     else Inr (d\<lparr>apply_comments := apply_comments d @ [new_comment (sentinel applyID) d], apply_comments_next := apply_comments_next d + 1\<rparr>, 1))"

definition ClaimSummaryComment :: "int \<Rightarrow> bool prog" where
  "ClaimSummaryComment applyID =
    do {
      r \<leftarrow> ExecContext (insert_sentinel applyID);
      case r of
        Inl e \<Rightarrow> State_Monad.return (Inl (Wrapped ''claim summary comment for apply'' e))
      | Inr rows \<Rightarrow> State_Monad.return (Inr (rows = 1))
    }"

definition stale_sentinel :: "int \<Rightarrow> db \<Rightarrow> ApplyComment \<Rightarrow> bool" where
  "stale_sentinel applyID d r \<longleftrightarrow> comment_key applyID Comment_Summary r \<and> ac_GitHubCommentID r = 0 \<and>
    ac_UpdatedAt r < now d - SummaryClaimStaleAfter"

definition ReclaimStaleSummaryClaim :: "int \<Rightarrow> bool prog" where
  "ReclaimStaleSummaryClaim applyID =
    do {
      r \<leftarrow> ExecContext (update_comments (stale_sentinel applyID) (\<lambda>d r. r\<lparr>ac_UpdatedAt := now d\<rparr>));
      case r of
        Inl e \<Rightarrow> State_Monad.return (Inl (Wrapped ''reclaim stale summary claim for apply'' e))
      | Inr rows \<Rightarrow> State_Monad.return (Inr (rows = 1))
    }"

definition ReleaseSummaryClaim :: "int \<Rightarrow> unit prog" where
  "ReleaseSummaryClaim applyID =
    do {
      r \<leftarrow> ExecContext (delete_comments (\<lambda>r. comment_key applyID Comment_Summary r \<and> ac_GitHubCommentID r = 0));
      case r of
        Inl e \<Rightarrow> State_Monad.return (Inl (Wrapped ''release summary claim for apply'' e))
      | Inr _ \<Rightarrow> State_Monad.return (Inr ())
    }"

section \<open>Applies joined with comments and plans\<close>

definition missing_summary :: "db \<Rightarrow> Apply \<Rightarrow> bool" where
  "missing_summary d a \<longleftrightarrow>
    list_ex (comment_key (apply_ID a) Comment_Progress) (apply_comments d) \<and>
    apply_Repository a \<noteq> '''' \<and> apply_PullRequest a > 0 \<and> apply_InstallationID a > 0 \<and>
    ((apply_State a \<in> {Apply_Completed, Apply_Failed, Apply_Reverted, Apply_Cancelled} \<and>
        (case apply_CompletedAt a of None \<Rightarrow> False | Some t \<Rightarrow> t > now d - 3600)) \<or>
     (apply_State a = Apply_Stopped \<and> apply_UpdatedAt a > now d - 3600)) \<and>
    (\<not> list_ex (comment_key (apply_ID a) Comment_Summary) (apply_comments d) \<or>
     list_ex (stale_sentinel (apply_ID a) d) (apply_comments d))"

definition FindMissingSummaryComment :: "Apply list prog" where
  "FindMissingSummaryComment = QueryContext (\<lambda>d. sort_key (\<lambda>a. - apply_UpdatedAt a) (filter (missing_summary d) (applies d)))"

definition ExistsForDatabaseHead :: "(string \<Rightarrow> string) \<Rightarrow> string \<Rightarrow> int \<Rightarrow> string \<Rightarrow> string \<Rightarrow> string \<Rightarrow> bool prog" where
  "ExistsForDatabaseHead ci repo pr database databaseType headSHA =
    do {
      r \<leftarrow> QueryContext (\<lambda>d. list_ex (\<lambda>a. ci (apply_Repository a) = ci repo \<and> apply_PullRequest a = pr \<and>
        ci (apply_Database a) = ci database \<and> ci (apply_DatabaseType a) = ci databaseType \<and>
        (case find (\<lambda>p. plan_ID p = apply_PlanID a) (plans d) of None \<Rightarrow> True | Some p \<Rightarrow> ci (plan_HeadSHA p) = ci headSHA)) (applies d));
      case r of
        Inl e \<Rightarrow> State_Monad.return (Inl (Wrapped ''check applies'' e))
      | Inr found \<Rightarrow> State_Monad.return (Inr found)
    }"

section \<open>Plan comments\<close>

text \<open>On success the comment with its id.\<close>

definition PlanComment_Insert :: "PlanComment \<Rightarrow> PlanComment prog" where
  "PlanComment_Insert comment =
    do {
      r \<leftarrow> ExecContext (\<lambda>d. Inr (d\<lparr>plan_comments := plan_comments d @ [comment\<lparr>pc_ID := plan_comments_next d, pc_MinimizedAt := None,
          pc_CreatedAt := now d, pc_UpdatedAt := now d\<rparr>], plan_comments_next := plan_comments_next d + 1\<rparr>, plan_comments_next d));
      case r of
        Inl e \<Rightarrow> State_Monad.return (Inl (Wrapped ''insert plan comment'' e))
      | Inr i \<Rightarrow> State_Monad.return (Inr (comment\<lparr>pc_ID := i\<rparr>))
    }"

definition ListUnminimizedForSlot :: "(string \<Rightarrow> string) \<Rightarrow> string \<Rightarrow> int \<Rightarrow> string \<Rightarrow> string \<Rightarrow> PlanComment list prog" where
  "ListUnminimizedForSlot ci repo pr database databaseType =
    do {
      r \<leftarrow> QueryContext (\<lambda>d. sort_key pc_ID (filter (\<lambda>r. ci (pc_Repository r) = ci repo \<and> pc_PullRequest r = pr \<and>
        ci (pc_DatabaseName r) = ci database \<and> ci (pc_DatabaseType r) = ci databaseType \<and> pc_MinimizedAt r = None) (plan_comments d)));
      case r of
        Inl e \<Rightarrow> State_Monad.return (Inl (Wrapped ''query unminimized plan comments'' e))
      | Inr rs \<Rightarrow> State_Monad.return (Inr rs)
    }"

definition MarkMinimized :: "int \<Rightarrow> unit prog" where
  "MarkMinimized i =
    do {
      r \<leftarrow> ExecContext (\<lambda>d. let P = (\<lambda>r. pc_ID r = i \<and> pc_MinimizedAt r = None);
          f = (\<lambda>r. r\<lparr>pc_MinimizedAt := Some (now d), pc_UpdatedAt := now d\<rparr>)
        in Inr (d\<lparr>plan_comments := sql_update P f (plan_comments d)\<rparr>, rows_changed P f (plan_comments d)));
      case r of
        Inl e \<Rightarrow> State_Monad.return (Inl (Wrapped ''mark plan comment minimized'' e))
      | Inr _ \<Rightarrow> State_Monad.return (Inr ())
    }"

section \<open>Settings\<close>

definition Settings_Get :: "(string \<Rightarrow> string) \<Rightarrow> string \<Rightarrow> Setting option prog" where
  "Settings_Get ci key = QueryContext (\<lambda>d. find (\<lambda>s. ci (set_Key s) = ci key) (settings d))"

definition upsert_setting :: "(string \<Rightarrow> string) \<Rightarrow> string \<Rightarrow> string \<Rightarrow> statement" where
  "upsert_setting ci key val d =
    (let P = (\<lambda>s. ci (set_Key s) = ci key); f = on_update (\<lambda>s. s\<lparr>set_UpdatedAt := now d\<rparr>) (\<lambda>s. s\<lparr>set_Value := val\<rparr>) in
     if list_ex P (settings d)
     then Inr (d\<lparr>settings := sql_update P f (settings d)\<rparr>, 2 * rows_changed P f (settings d))
     else Inr (d\<lparr>settings := settings d @ [\<lparr>set_ID = settings_next d, set_Key = key, set_Value = val,
              set_CreatedAt = now d, set_UpdatedAt = now d\<rparr>], settings_next := settings_next d + 1\<rparr>, 1))"

definition Settings_Set :: "(string \<Rightarrow> string) \<Rightarrow> string \<Rightarrow> string \<Rightarrow> unit prog" where
  "Settings_Set ci key val =
    do {
      r \<leftarrow> ExecContext (upsert_setting ci key val);
      case r of Inl e \<Rightarrow> State_Monad.return (Inl e) | Inr _ \<Rightarrow> State_Monad.return (Inr ())
    }"

definition Settings_List :: "(string \<Rightarrow> string) \<Rightarrow> Setting list prog" where
  "Settings_List ci = QueryContext (\<lambda>d. sort_key (\<lambda>s. ci (set_Key s)) (settings d))"

definition Settings_Delete :: "(string \<Rightarrow> string) \<Rightarrow> string \<Rightarrow> unit prog" where
  "Settings_Delete ci key =
    do {
      r \<leftarrow> ExecContext (\<lambda>d. Inr (d\<lparr>settings := filter (\<lambda>s. ci (set_Key s) \<noteq> ci key) (settings d)\<rparr>,
        int (length (filter (\<lambda>s. ci (set_Key s) = ci key) (settings d)))));
      case r of
        Inl e \<Rightarrow> State_Monad.return (Inl e)
      | Inr rows \<Rightarrow> State_Monad.return (checkRowsAffected rows ErrSettingNotFound)
    }"

section \<open>One publisher of the summary\<close>

text \<open>
  \<^verbatim>\<open>claimSummaryForReconciliation\<close> of \<^verbatim>\<open>pkg/webhook/handler.go\<close>: a fresh claim, or else the takeover of a stale one; an error
  is a lost claim.
\<close>

definition claimSummaryForReconciliation :: "int \<Rightarrow> (world, bool) state" where
  "claimSummaryForReconciliation applyID =
    do {
      won \<leftarrow> ClaimSummaryComment applyID;
      case won of
        Inl e \<Rightarrow> State_Monad.return False
      | Inr w \<Rightarrow>
          if w then State_Monad.return True
          else
            do {
              reclaimed \<leftarrow> ReclaimStaleSummaryClaim applyID;
              State_Monad.return (case reclaimed of Inl e \<Rightarrow> False | Inr r \<Rightarrow> r)
            }
    }"

text \<open>The marker of the apply's summary exists, and records a posted comment or is younger than the stale window.\<close>

definition summary_held :: "int \<Rightarrow> db \<Rightarrow> bool" where
  "summary_held applyID d \<longleftrightarrow> list_ex (comment_key applyID Comment_Summary) (apply_comments d) \<and>
    list_all (\<lambda>r. comment_key applyID Comment_Summary r \<longrightarrow>
      ac_GitHubCommentID r \<noteq> 0 \<or> now d - SummaryClaimStaleAfter \<le> ac_UpdatedAt r) (apply_comments d)"

lemma summary_held_iff:
  "summary_held applyID d \<longleftrightarrow> list_ex (comment_key applyID Comment_Summary) (apply_comments d) \<and>
    \<not> list_ex (stale_sentinel applyID d) (apply_comments d)"
  by (auto simp: summary_held_def stale_sentinel_def list_all_iff list_ex_iff not_less)

lemma stale_cong: "now d' = now d \<Longrightarrow> stale_sentinel i d' = stale_sentinel i d"
  by (rule ext) (simp add: stale_sentinel_def)

lemma held_insert:
  assumes "insert_sentinel i d = Inr (d', 1)"
  shows "summary_held i d'"
proof -
  let ?new = "new_comment (sentinel i) d"
  have none: "\<not> comment_key i Comment_Summary r" if "r \<in> set (apply_comments d)" for r
    using assms that by (auto simp: insert_sentinel_def list_ex_iff split: if_splits)
  have rows: "apply_comments d' = apply_comments d @ [?new]" "now d' = now d" using assms by (auto simp: insert_sentinel_def split: if_splits)
  have "comment_key i Comment_Summary ?new" "\<not> stale_sentinel i d ?new"
    by (simp_all add: comment_key_def new_comment_def sentinel_def stale_sentinel_def)
  then show ?thesis using none unfolding summary_held_iff stale_cong[OF rows(2)] rows(1) by (auto simp: list_ex_iff stale_sentinel_def)
qed

lemma held_reclaim:
  assumes "update_comments (stale_sentinel i) (\<lambda>d r. r\<lparr>ac_UpdatedAt := now d\<rparr>) d = Inr (d', 1)"
  shows "summary_held i d'"
proof -
  let ?f = "stamp_comment d (\<lambda>r. r\<lparr>ac_UpdatedAt := now d\<rparr>)"
  have d': "d' = d\<lparr>apply_comments := sql_update (stale_sentinel i d) ?f (apply_comments d)\<rparr>"
    and n: "rows_changed (stale_sentinel i d) ?f (apply_comments d) = 1"
    using assms by (simp_all add: update_comments_def)
  have f: "?f r = r\<lparr>ac_UpdatedAt := now d\<rparr>" for r by (simp add: stamp_comment_def on_update_def Let_def)
  have stale: "stale_sentinel i d' = stale_sentinel i d" by (rule stale_cong) (simp add: d')
  obtain r where r: "r \<in> set (apply_comments d)" "stale_sentinel i d r"
    using n rows_changed_pos_iff[of "stale_sentinel i d" ?f "apply_comments d"] by auto
  then have "?f r \<in> set (apply_comments d')" by (auto simp: d' sql_update_def)
  moreover have "comment_key i Comment_Summary (?f r)" using r(2) by (simp add: f stale_sentinel_def comment_key_def)
  moreover have "\<not> stale_sentinel i d x" if "x \<in> set (apply_comments d')" for x
    using that by (auto simp: d' sql_update_def f stale_sentinel_def split: if_splits)
  ultimately show ?thesis unfolding summary_held_iff stale by (auto simp: list_ex_iff)
qed

text \<open>Whoever wins holds the marker.\<close>

lemma claim_holds: "run_state (ClaimSummaryComment i) w = (Inr True, w1) \<Longrightarrow> summary_held i (w_db w1)"
  by (auto simp: ClaimSummaryComment_def ExecContext_def dest: held_insert split: prod.splits option.splits sum.splits)

lemma reclaim_holds: "run_state (ReclaimStaleSummaryClaim i) w = (Inr True, w1) \<Longrightarrow> summary_held i (w_db w1)"
  by (auto simp: ReclaimStaleSummaryClaim_def ExecContext_def dest: held_reclaim split: prod.splits option.splits sum.splits)

lemma reconciliation_holds:
  assumes "run_state (claimSummaryForReconciliation i) w = (True, w1)"
  shows "summary_held i (w_db w1)"
  using assms by (auto simp: claimSummaryForReconciliation_def dest: claim_holds reclaim_holds split: prod.splits sum.splits if_splits)

text \<open>While it is held, nobody wins.\<close>

lemma hoare_claim_loses:
  "hoare (winv (summary_held i)) (ClaimSummaryComment i) (\<lambda>r w. winv (summary_held i) w \<and> r \<noteq> Inr True)"
proof -
  have ex: "hoare (winv (summary_held i)) (ExecContext (insert_sentinel i))
      (\<lambda>r w. winv (summary_held i) w \<and> (\<forall>n. r = Inr n \<longrightarrow> (\<exists>d. summary_held i d \<and> insert_sentinel i d = Inr (w_db w, n))))"
    by (rule hoare_exec) (auto simp: insert_sentinel_def summary_held_iff split: if_splits)
  show ?thesis
    unfolding ClaimSummaryComment_def
    by (intro hoare_bind[OF ex] hoare_sum hoare_return) (auto simp: insert_sentinel_def summary_held_iff)
qed

lemma reclaim_held:
  assumes "summary_held i d" and "update_comments (stale_sentinel i) f d = Inr (d', n)"
  shows "d' = d \<and> n = 0"
proof -
  have "\<not> stale_sentinel i d r" if "r \<in> set (apply_comments d)" for r using assms(1) that by (auto simp: summary_held_iff list_ex_iff)
  then have "sql_update (stale_sentinel i d) g (apply_comments d) = apply_comments d"
    and "rows_changed (stale_sentinel i d) g (apply_comments d) = 0" for g
    by (auto simp: sql_update_def rows_changed_def map_idI filter_empty_conv)
  then show ?thesis using assms(2) by (simp add: update_comments_def)
qed

lemma hoare_reclaim_loses:
  "hoare (winv (summary_held i)) (ReclaimStaleSummaryClaim i) (\<lambda>r w. winv (summary_held i) w \<and> r \<noteq> Inr True)"
proof -
  let ?stm = "update_comments (stale_sentinel i) (\<lambda>d r. r\<lparr>ac_UpdatedAt := now d\<rparr>)"
  have ex: "hoare (winv (summary_held i)) (ExecContext ?stm)
      (\<lambda>r w. winv (summary_held i) w \<and> (\<forall>n. r = Inr n \<longrightarrow> (\<exists>d. summary_held i d \<and> ?stm d = Inr (w_db w, n))))"
    by (rule hoare_exec) (auto dest: reclaim_held)
  show ?thesis
    unfolding ReclaimStaleSummaryClaim_def
    by (intro hoare_bind[OF ex] hoare_sum hoare_return) (auto dest: reclaim_held)
qed

lemma hoare_reconciliation_loses:
  "hoare (winv (summary_held i)) (claimSummaryForReconciliation i) (\<lambda>r w. winv (summary_held i) w \<and> \<not> r)"
  unfolding claimSummaryForReconciliation_def
proof (rule hoare_bind[OF hoare_claim_loses])
  fix won
  show "hoare (\<lambda>w. winv (summary_held i) w \<and> won \<noteq> Inr True)
    (case won of Inl e \<Rightarrow> State_Monad.return False
     | Inr w \<Rightarrow> if w then State_Monad.return True
         else do { reclaimed \<leftarrow> ReclaimStaleSummaryClaim i; State_Monad.return (case reclaimed of Inl e \<Rightarrow> False | Inr r \<Rightarrow> r) })
    (\<lambda>r w. winv (summary_held i) w \<and> \<not> r)"
  proof (cases "won = Inr False")
    case True
    have answer: "hoare (\<lambda>w. winv (summary_held i) w \<and> r \<noteq> Inr True) (State_Monad.return (case r of Inl e \<Rightarrow> False | Inr r \<Rightarrow> r))
        (\<lambda>r w. winv (summary_held i) w \<and> \<not> r)" for r :: "err + bool"
      by (rule hoare_return) (auto split: sum.splits)
    have "hoare (winv (summary_held i))
        (do { reclaimed \<leftarrow> ReclaimStaleSummaryClaim i; State_Monad.return (case reclaimed of Inl e \<Rightarrow> False | Inr r \<Rightarrow> r) })
        (\<lambda>r w. winv (summary_held i) w \<and> \<not> r)"
      by (rule hoare_bind[OF hoare_reclaim_loses answer])
    then show ?thesis by (simp add: True)
  next
    case False
    then show ?thesis by (cases won) (auto intro!: hoare_return simp: hoare_def)
  qed
qed

text \<open>
  Property C29 (safety).  A publisher that wins the summary of an apply, by a fresh claim or by taking over a stale one,
  holds its marker.  As long as the other sessions leave the marker in place, and it records a posted
  comment or is younger than the window after which a claim is stale, nobody else wins: neither by a
  fresh claim nor by a takeover nor by the reconciliation that tries both, however the statements
  interleave and whichever of them fail.
\<close>

theorem summary_claimed_once:
  assumes "run_state (ClaimSummaryComment i) w = (Inr True, w1) \<or> run_state (ReclaimStaleSummaryClaim i) w = (Inr True, w1) \<or>
      run_state (claimSummaryForReconciliation i) w = (True, w1)"
    and "list_all (\<lambda>t. \<forall>d. summary_held i d \<longrightarrow> summary_held i (turn_env t d)) (w_turns w1)"
  shows "summary_held i (w_db w1) \<and> fst (run_state (ClaimSummaryComment i) w1) \<noteq> Inr True \<and>
    fst (run_state (ReclaimStaleSummaryClaim i) w1) \<noteq> Inr True \<and> \<not> fst (run_state (claimSummaryForReconciliation i) w1)"
proof -
  have held: "summary_held i (w_db w1)" using assms(1) claim_holds reclaim_holds reconciliation_holds by blast
  with assms(2) have inv: "winv (summary_held i) w1" by (auto simp: winv_def list_all_iff)
  show ?thesis
    using held hoareD[OF hoare_claim_loses inv] hoareD[OF hoare_reclaim_loses inv] hoareD[OF hoare_reconciliation_loses inv]
    by (metis prod.collapse)
qed

text \<open>
  A marker that a crashed publisher left 1000 seconds ago is taken over; then another session posts the
  summary under it.
\<close>

definition post_summary :: "int \<Rightarrow> db \<Rightarrow> db" where
  "post_summary i d = d\<lparr>apply_comments := sql_update (comment_key i Comment_Summary) (\<lambda>r. r\<lparr>ac_GitHubCommentID := 99\<rparr>) (apply_comments d)\<rparr>"

lemma held_post_summary: "summary_held i d \<Longrightarrow> summary_held i (post_summary i d)"
proof -
  assume held: "summary_held i d"
  let ?f = "\<lambda>r. r\<lparr>ac_GitHubCommentID := 99\<rparr>"
  have stale: "stale_sentinel i (post_summary i d) = stale_sentinel i d" by (rule stale_cong) (simp add: post_summary_def)
  obtain r where "r \<in> set (apply_comments d)" "comment_key i Comment_Summary r" using held by (auto simp: summary_held_iff list_ex_iff)
  then have "?f r \<in> set (apply_comments (post_summary i d))" "comment_key i Comment_Summary (?f r)"
    by (auto simp: post_summary_def sql_update_def comment_key_def)
  moreover have "\<not> stale_sentinel i d x" if "x \<in> set (apply_comments (post_summary i d))" for x
    using that held by (auto simp: post_summary_def sql_update_def summary_held_iff list_ex_iff stale_sentinel_def split: if_splits)
  ultimately show ?thesis unfolding summary_held_iff stale by (auto simp: list_ex_iff)
qed

definition abandoned_db :: db where
  "abandoned_db = empty_db\<lparr>now := 1000, apply_comments := [(sentinel 7)\<lparr>ac_ID := 1\<rparr>], apply_comments_next := 2\<rparr>"

theorem summary_claimed_once_witness:
  "let w = \<lparr>w_db = abandoned_db, w_undo = [], w_turns = [Turn id None, Turn id None, Turn (post_summary 7) None]\<rparr>;
       w1 = snd (run_state (claimSummaryForReconciliation 7) w)
   in fst (run_state (claimSummaryForReconciliation 7) w) \<and> \<not> fst (run_state (claimSummaryForReconciliation 7) w1)"
proof -
  let ?w = "\<lparr>w_db = abandoned_db, w_undo = [], w_turns = [Turn id None, Turn id None, Turn (post_summary 7) None]\<rparr>"
  let ?w1 = "snd (run_state (claimSummaryForReconciliation 7) ?w)"
  have win: "fst (run_state (claimSummaryForReconciliation 7) ?w)" by code_simp
  have turns: "w_turns ?w1 = [Turn (post_summary 7) None]"
    by (simp add: claimSummaryForReconciliation_def ClaimSummaryComment_def ReclaimStaleSummaryClaim_def ExecContext_def next_turn_def
        insert_sentinel_def update_comments_def abandoned_db_def sentinel_def comment_key_def)
  have keeps: "list_all (\<lambda>t. \<forall>d. summary_held 7 d \<longrightarrow> summary_held 7 (turn_env t d)) (w_turns ?w1)"
    unfolding turns by (simp add: held_post_summary)
  have "run_state (claimSummaryForReconciliation 7) ?w = (True, ?w1)" using win by (simp add: prod_eq_iff)
  from summary_claimed_once[OF disjI2[OF disjI2[OF this]] keeps] win show ?thesis unfolding Let_def by blast
qed

end
