(* ===== verification/Operator.thy ===== *)
theory Operator
  imports Apply_Exclusion Comment_Store
begin

text \<open>
  The operator (\<^verbatim>\<open>pkg/api/operator.go\<close>): a driver claims an operation, drives it through the engine, records
  the outcome of the operation from its own tasks and projects the operations onto the parent apply
  with a compare-and-swap.  Driving the engine is the parameter \<open>resume\<close>, the publication of a summary
  the parameter \<open>publish\<close>; the operation heartbeat, which only cancels a drive, is part of \<open>resume\<close>.
  Methods that log their errors return no error.
\<close>

section \<open>Recording the outcome of an operation\<close>

fun firstFailedTaskError :: "Task list \<Rightarrow> string" where
  "firstFailedTaskError [] = ''''"
| "firstFailedTaskError (t # ts) =
    (if IsState (task_State t) [Task_Failed] \<and> task_ErrorMessage t \<noteq> '''' then task_ErrorMessage t else firstFailedTaskError ts)"

fun firstFailedOperationMessage :: "ApplyOperation list \<Rightarrow> string" where
  "firstFailedOperationMessage [] = ''''"
| "firstFailedOperationMessage (op # ops) =
    (if IsState (op_State op) [Apply_Failed] \<and> op_ErrorMessage op \<noteq> ''''
     then ''deployment '' @ op_Deployment op @ '' failed: '' @ op_ErrorMessage op
     else firstFailedOperationMessage ops)"

definition persistOperationState :: "ctx \<Rightarrow> ApplyOperation \<Rightarrow> string \<Rightarrow> string \<Rightarrow> bool prog" where
  "persistOperationState c op derived errorMessage =
    (if IsState derived [Apply_Completed]
     then or_fail ''mark apply_operation completed'' (MarkCompleted c (op_ID op)) (\<lambda>_. State_Monad.return (Inr True))
     else if IsState derived [Apply_Failed]
     then or_fail ''mark apply_operation failed'' (MarkFailed c (op_ID op) errorMessage) (\<lambda>_. State_Monad.return (Inr True))
     else if IsState derived [Apply_Stopped]
     then or_fail ''update stopped apply_operation state'' (UpdateState c (op_ID op) derived) (\<lambda>_. State_Monad.return (Inr True))
     else if IsState derived [Apply_FailedRetryable]
     then or_fail ''update failed_retryable apply_operation state'' (UpdateState c (op_ID op) derived) (\<lambda>_. State_Monad.return (Inr True))
     else if IsState derived [Apply_WaitingForCutover]
     then or_fail ''update waiting_for_cutover apply_operation state'' (UpdateState c (op_ID op) derived) (\<lambda>_. State_Monad.return (Inr True))
     else if IsTerminalApplyState derived
     then or_fail ''mark terminal apply_operation state'' (MarkTerminal c (op_ID op) derived) (\<lambda>_. State_Monad.return (Inr True))
     else State_Monad.return (Inr False))"

definition markOperationFromApplyState :: "ctx \<Rightarrow> ApplyOperation \<Rightarrow> Apply \<Rightarrow> bool prog" where
  "markOperationFromApplyState c op apply = persistOperationState c op (apply_State apply) (apply_ErrorMessage apply)"

text \<open>A plan whose only work is a VSchema, on an operation without tasks.\<close>

definition vschema_only :: "ApplyOperation \<Rightarrow> Plan option \<Rightarrow> bool" where
  "vschema_only op plan =
    (case plan of
       None \<Rightarrow> False
     | Some p \<Rightarrow> op_OperationKind op = ApplyOperationKindWork \<and> op_OperationKey op = '''' \<and> FlatDDLChanges p = [] \<and>
         vschemaFinalizerNamespaces p \<noteq> [])"

definition persist_from_tasks :: "ctx \<Rightarrow> ApplyOperation \<Rightarrow> Task list \<Rightarrow> bool prog" where
  "persist_from_tasks c op ts = persistOperationState c op (DeriveApplyState (map task_State ts)) (firstFailedTaskError ts)"

definition markOperationFromOwnResult :: "(string \<Rightarrow> string) \<Rightarrow> ctx \<Rightarrow> ApplyOperation \<Rightarrow> bool prog" where
  "markOperationFromOwnResult ci c op =
    (if op_OperationKind op = ApplyOperationKindGroupFinalizer then State_Monad.return (Inr True)
     else
       or_fail ''load tasks for apply_operation'' (GetByApplyOperationID ci (op_ID op)) (\<lambda>ts.
         if ts \<noteq> [] then persist_from_tasks c op ts
         else
           or_fail ''load parent apply for task-less apply_operation'' (Apply_Get (op_ApplyID op)) (\<lambda>parent.
             case parent of
               None \<Rightarrow> State_Monad.return (Inl (Errorf ''parent apply not found for task-less apply_operation''))
             | Some apply \<Rightarrow>
                 or_fail ''load plan for task-less apply_operation'' (Plan_GetByID (apply_PlanID apply)) (\<lambda>plan.
                   if vschema_only op plan
                   then or_fail ''reload task-less apply_operation'' (op_Get (op_ID op)) (\<lambda>currentOp.
                     case currentOp of
                       Some cur \<Rightarrow>
                         if IsState (op_State cur) [Apply_Completed] then State_Monad.return (Inr True)
                         else persistOperationState c op (apply_State apply) (apply_ErrorMessage apply)
                     | None \<Rightarrow> persistOperationState c op (apply_State apply) (apply_ErrorMessage apply))
                   else persist_from_tasks c op ts))))"

section \<open>Projecting the operations onto the apply\<close>

datatype failedApplyReopenPolicy = rejectFailedApplyReopen | allowLeaseScopedFailedReopen

record applyProjectionResult =
  pr_Swapped :: bool
  pr_PreviousState :: string
  pr_DerivedState :: string
  pr_BecameTerminal :: bool
  pr_OperationCount :: nat

definition anyPauseOnFailure :: "ApplyOperation list \<Rightarrow> bool" where
  "anyPauseOnFailure ops = list_ex (\<lambda>op. op_OnFailure op = OnFailurePause) ops"

definition rollout_child :: "bool \<Rightarrow> ApplyOperation \<Rightarrow> RolloutChild" where
  "rollout_child released op = \<lparr>child_State = op_State op,
     ContinueOnFailure = (op_OnFailure op = OnFailureContinue \<or> (op_OnFailure op = OnFailurePause \<and> released)),
     PauseOnFailure = (op_OnFailure op = OnFailurePause \<and> \<not> released)\<rparr>"

text \<open>The release latch is read only when some operation pauses on failure.\<close>

definition released_rollout :: "int \<Rightarrow> ApplyOperation list \<Rightarrow> bool prog" where
  "released_rollout applyID ops =
    (if anyPauseOnFailure ops
     then or_fail ''load release latch for apply'' (GetByOperation applyID ControlOperationRelease)
       (\<lambda>req. State_Monad.return (Inr (ReleasesPausedRollout req)))
     else State_Monad.return (Inr False))"

definition reopens :: "failedApplyReopenPolicy \<Rightarrow> string \<Rightarrow> string \<Rightarrow> string \<Rightarrow> bool" where
  "reopens reopen current base derived \<longleftrightarrow>
    reopen = allowLeaseScopedFailedReopen \<and> IsState current [Apply_Failed] \<and> IsState base [Apply_Failed] \<and>
    IsState derived [Apply_RunningDegraded]"

definition projected_completed :: "int \<Rightarrow> Apply \<Rightarrow> string \<Rightarrow> int option" where
  "projected_completed clock apply derived =
    (if IsState derived [Apply_Stopped] then None
     else if IsTerminalApplyState derived
     then (case apply_CompletedAt apply of Some t \<Rightarrow> Some t | None \<Rightarrow> Some clock)
     else None)"

definition projected_error :: "Apply \<Rightarrow> string \<Rightarrow> ApplyOperation list \<Rightarrow> string" where
  "projected_error apply derived ops =
    (if IsState derived [Apply_Failed] \<and> firstFailedOperationMessage ops \<noteq> '''' then firstFailedOperationMessage ops
     else apply_ErrorMessage apply)"

definition unswapped :: "Apply \<Rightarrow> string \<Rightarrow> ApplyOperation list \<Rightarrow> applyProjectionResult" where
  "unswapped apply derived ops = \<lparr>pr_Swapped = False, pr_PreviousState = apply_State apply, pr_DerivedState = derived,
     pr_BecameTerminal = False, pr_OperationCount = length ops\<rparr>"

text \<open>The write of the projection, once the operations and the latch are read.\<close>

definition project_derived ::
  "ctx \<Rightarrow> int \<Rightarrow> failedApplyReopenPolicy \<Rightarrow> Apply \<Rightarrow> ApplyOperation list \<Rightarrow> bool \<Rightarrow> applyProjectionResult prog" where
  "project_derived c clock reopen apply ops released =
    (let base = DeriveApplyState (map op_State ops);
         derived = DeriveRolloutApplyState (map (rollout_child released) ops);
         startedAt = (if apply_StartedAt apply = None \<and> \<not> IsState derived [Apply_Pending] then Some clock else None) in
     if IsTerminalApplyState (apply_State apply) \<and> \<not> IsTerminalApplyState derived \<and> \<not> reopens reopen (apply_State apply) base derived
     then State_Monad.return (Inl (Errorf ''derive apply state for terminal apply: child operations derive non-terminal state''))
     else if IsState (apply_State apply) [derived] \<and> startedAt = None
     then State_Monad.return (Inr (unswapped apply derived ops))
     else or_fail ''update derived apply state''
       (UpdateDerivedState c (apply_ID apply) (apply_State apply) derived (projected_error apply derived ops) startedAt
          (projected_completed clock apply derived))
       (\<lambda>swapped. State_Monad.return (Inr
         (if swapped then (unswapped apply derived ops)\<lparr>pr_Swapped := True,
            pr_BecameTerminal := \<not> IsTerminalApplyState (apply_State apply) \<and> IsTerminalApplyState derived\<rparr>
          else unswapped apply derived ops))))"

definition updateApplyStateFromOperations :: "ctx \<Rightarrow> int \<Rightarrow> Apply \<Rightarrow> failedApplyReopenPolicy \<Rightarrow> applyProjectionResult prog" where
  "updateApplyStateFromOperations c clock apply reopen =
    or_fail ''list apply_operations for apply'' (ListByApply (apply_ID apply)) (\<lambda>ops.
      if ops = [] then State_Monad.return (Inl (Errorf ''derive apply state for apply: no apply_operations rows''))
      else
        do {
          l \<leftarrow> released_rollout (apply_ID apply) ops;
          case l of
            Inl e \<Rightarrow> State_Monad.return (Inl e)
          | Inr released \<Rightarrow> project_derived c clock reopen apply ops released
        })"

section \<open>Stop requests\<close>

definition markPendingOperationsStopped :: "ctx \<Rightarrow> Apply \<Rightarrow> unit prog" where
  "markPendingOperationsStopped c apply =
    or_fail ''stop pending apply_operations for apply'' (MarkPendingStoppedByApply c (apply_ID apply)) (\<lambda>_. State_Monad.return (Inr ()))"

definition stopPendingOperationsForPendingStop :: "ctx \<Rightarrow> Apply \<Rightarrow> unit prog" where
  "stopPendingOperationsForPendingStop c apply =
    or_fail ''load pending stop request for apply'' (GetPending (apply_ID apply) ControlOperationStop) (\<lambda>controlReq.
      if controlReq = None then State_Monad.return (Inr ()) else markPendingOperationsStopped c apply)"

definition completePendingStopIfApplyResolved :: "ctx \<Rightarrow> int \<Rightarrow> unit prog" where
  "completePendingStopIfApplyResolved c applyID =
    or_fail ''reload apply before completing pending stop'' (Apply_Get applyID) (\<lambda>found.
      case found of
        None \<Rightarrow> State_Monad.return (Inl (Wrapped ''reload apply before completing pending stop'' ErrApplyNotFound))
      | Some apply \<Rightarrow>
          if \<not> IsTerminalApplyState (apply_State apply) then State_Monad.return (Inr ())
          else or_fail ''load pending stop request for resolved apply'' (GetPending (apply_ID apply) ControlOperationStop) (\<lambda>controlReq.
            if controlReq = None then State_Monad.return (Inr ())
            else or_fail ''complete pending stop request for resolved apply''
              (CompletePending c (apply_ID apply) ControlOperationStop) (\<lambda>_. State_Monad.return (Inr ()))))"

section \<open>The terminal summary\<close>

text \<open>The result says whether \<open>publish\<close> was called.\<close>

definition publishTerminalSummaryIfWon ::
  "(string \<Rightarrow> string) \<Rightarrow> (Apply \<Rightarrow> Task list \<Rightarrow> unit prog) \<Rightarrow> Apply \<Rightarrow> applyProjectionResult \<Rightarrow> (world, bool) state" where
  "publishTerminalSummaryIfWon ci publish apply result =
    (if \<not> pr_BecameTerminal result then State_Monad.return False
     else or_else (Apply_Get (apply_ID apply)) False (\<lambda>found.
       case found of
         None \<Rightarrow> State_Monad.return False
       | Some terminalApply \<Rightarrow>
           if \<not> IsTerminalApplyState (apply_State terminalApply) then State_Monad.return False
           else or_else (GetByApplyID ci (apply_ID terminalApply)) False (\<lambda>ts.
             do { _ \<leftarrow> publish terminalApply ts; State_Monad.return True })))"

section \<open>Claims that cannot be driven\<close>

definition reconcileClaimedOperationFromTerminalParent :: "ctx \<Rightarrow> int \<Rightarrow> ApplyOperation \<Rightarrow> Apply \<Rightarrow> (world, unit) state" where
  "reconcileClaimedOperationFromTerminalParent c clock op parent =
    or_else (markOperationFromApplyState c op parent) () (\<lambda>marked.
      if \<not> marked then State_Monad.return ()
      else or_else (updateApplyStateFromOperations c clock parent rejectFailedApplyReopen) () (\<lambda>_. State_Monad.return ()))"

definition reconcileUnclaimableParent :: "ctx \<Rightarrow> int \<Rightarrow> ApplyOperation \<Rightarrow> (world, unit) state" where
  "reconcileUnclaimableParent c clock op =
    or_else (Apply_Get (op_ApplyID op)) () (\<lambda>found.
      case found of
        None \<Rightarrow> State_Monad.return ()
      | Some parent \<Rightarrow>
          if IsTerminalApplyState (apply_State parent) then reconcileClaimedOperationFromTerminalParent c clock op parent
          else State_Monad.return ())"

definition failOperationWithoutTasks ::
  "(string \<Rightarrow> string) \<Rightarrow> (Apply \<Rightarrow> Task list \<Rightarrow> unit prog) \<Rightarrow> ctx \<Rightarrow> ctx \<Rightarrow> int \<Rightarrow> ApplyOperation \<Rightarrow> Apply \<Rightarrow> (world, unit) state" where
  "failOperationWithoutTasks ci publish opCtx applyCtx clock op apply =
    or_else (MarkFailed opCtx (op_ID op) ''operation has no tasks; invalid or stale claim'') () (\<lambda>_.
      or_else (updateApplyStateFromOperations applyCtx clock apply allowLeaseScopedFailedReopen) () (\<lambda>result.
        do { _ \<leftarrow> publishTerminalSummaryIfWon ci publish apply result; State_Monad.return () }))"

section \<open>Driving a claimed operation\<close>

text \<open>How a drive of the engine ends.\<close>

datatype drive_outcome = DriveResumed | DriveNoTasks | DrivePanicked | DriveFailed

type_synonym engine_drive = "ctx \<Rightarrow> Apply \<Rightarrow> int \<Rightarrow> bool \<Rightarrow> (world, drive_outcome) state"

text \<open>The end of a drive: reload the apply, project, publish, settle a pending stop.\<close>

definition settle_parent ::
  "(string \<Rightarrow> string) \<Rightarrow> (Apply \<Rightarrow> Task list \<Rightarrow> unit prog) option \<Rightarrow> ctx \<Rightarrow> int \<Rightarrow> int \<Rightarrow> (world, unit) state" where
  "settle_parent ci publish c clock applyID =
    or_else (Apply_Get applyID) () (\<lambda>found.
      case found of
        None \<Rightarrow> State_Monad.return ()
      | Some finalApply \<Rightarrow>
          or_else (updateApplyStateFromOperations c clock finalApply allowLeaseScopedFailedReopen) () (\<lambda>result.
            do {
              _ \<leftarrow> (case publish of
                      None \<Rightarrow> State_Monad.return False
                    | Some pub \<Rightarrow> publishTerminalSummaryIfWon ci pub finalApply result);
              or_else (completePendingStopIfApplyResolved c (apply_ID finalApply)) () (\<lambda>_. State_Monad.return ())
            }))"

text \<open>Record the operation, stop pending siblings if a stop is requested, then settle the apply.\<close>

definition settle_operation ::
  "(string \<Rightarrow> string) \<Rightarrow> (Apply \<Rightarrow> Task list \<Rightarrow> unit prog) option \<Rightarrow> ctx \<Rightarrow> ctx \<Rightarrow> int \<Rightarrow> ApplyOperation \<Rightarrow> Apply \<Rightarrow> (world, unit) state" where
  "settle_operation ci publish opCtx applyCtx clock op apply =
    or_else (markOperationFromOwnResult ci opCtx op) () (\<lambda>marked.
      if \<not> marked then State_Monad.return ()
      else or_else (stopPendingOperationsForPendingStop applyCtx apply) () (\<lambda>_.
        settle_parent ci publish applyCtx clock (apply_ID apply)))"

definition driveClaimedMultiOperation ::
  "(string \<Rightarrow> string) \<Rightarrow> engine_drive \<Rightarrow> (Apply \<Rightarrow> Task list \<Rightarrow> unit prog) \<Rightarrow> ctx \<Rightarrow> int \<Rightarrow> ApplyOperation \<Rightarrow> OperationLease \<Rightarrow> bool \<Rightarrow> (world, unit) state" where
  "driveClaimedMultiOperation ci resume publish ctx0 clock op opLease cutover =
    (let c = WithOperationLease ctx0 opLease in
     or_else (Apply_Get (op_ApplyID op)) () (\<lambda>found.
       case found of
         None \<Rightarrow> State_Monad.return ()
       | Some apply \<Rightarrow>
           if IsTerminalApplyState (apply_State apply) then reconcileClaimedOperationFromTerminalParent c clock op apply
           else if op_Deployment op = '''' then State_Monad.return ()
           else or_else (updateApplyStateFromOperations c clock apply allowLeaseScopedFailedReopen) () (\<lambda>_.
             do {
               outcome \<leftarrow> resume c apply (op_ID op) cutover;
               if outcome = DriveNoTasks
               then
                 do {
                   reloaded \<leftarrow> Apply_Get (apply_ID apply);
                   failOperationWithoutTasks ci publish c c clock op (case reloaded of Inr (Some a) \<Rightarrow> a | _ \<Rightarrow> apply)
                 }
               else settle_operation ci (Some publish) c c clock op apply
             })))"

definition recoverSingleApplyOperation ::
  "(string \<Rightarrow> string) \<Rightarrow> (string \<Rightarrow> string) \<Rightarrow> engine_drive \<Rightarrow> (Apply \<Rightarrow> Task list \<Rightarrow> unit prog) \<Rightarrow> (int \<Rightarrow> bool) \<Rightarrow> ctx \<Rightarrow> int \<Rightarrow>
   string \<Rightarrow> string \<Rightarrow> ApplyOperation \<Rightarrow> OperationLease \<Rightarrow> (world, unit) state" where
  "recoverSingleApplyOperation sha ci resume publish locked ctx0 clock owner leaseToken op opLease =
    or_else (ClaimApplyByID sha ci locked (op_ApplyID op) owner leaseToken clock) () (\<lambda>claimed.
      case claimed of
        None \<Rightarrow> reconcileUnclaimableParent ctx0 clock op
      | Some apply \<Rightarrow>
          if \<not> ApplyLease_Valid (Apply_Lease apply) then State_Monad.return ()
          else if op_Deployment op = '''' then State_Monad.return ()
          else
            let applyCtx = WithApplyLease ctx0 (Apply_Lease apply); opCtx = WithOperationLease ctx0 opLease in
            do {
              outcome \<leftarrow> resume (WithOperationLease applyCtx opLease) apply (op_ID op) False;
              if outcome = DriveNoTasks then failOperationWithoutTasks ci publish opCtx applyCtx clock op apply
              else if outcome = DriveFailed then State_Monad.return ()
              else settle_operation ci None opCtx applyCtx clock op apply
            })"

definition recoverApplyOperation ::
  "(string \<Rightarrow> string) \<Rightarrow> (string \<Rightarrow> string) \<Rightarrow> engine_drive \<Rightarrow> (Apply \<Rightarrow> Task list \<Rightarrow> unit prog) \<Rightarrow> (int \<Rightarrow> bool) \<Rightarrow> ctx \<Rightarrow> int \<Rightarrow>
   string \<Rightarrow> string \<Rightarrow> string \<Rightarrow> (world, unit) state" where
  "recoverApplyOperation sha ci resume publish locked ctx0 clock owner opToken applyToken =
    or_else (FindNextApplyOperation ci locked owner opToken clock) () (\<lambda>claimed.
      case claimed of
        None \<Rightarrow> State_Monad.return ()
      | Some op \<Rightarrow>
          let opLease = ApplyOperation_Lease op in
          if \<not> OperationLease_Valid opLease then State_Monad.return ()
          else or_else (ListByApply (op_ApplyID op)) () (\<lambda>ops.
            if \<not> list_ex (\<lambda>r. op_ID r = op_ID op) ops then State_Monad.return ()
            else if length ops > 1 then driveClaimedMultiOperation ci resume publish ctx0 clock op opLease False
            else or_else (GetByApplyOperationID ci (op_ID op)) () (\<lambda>ts.
              if ts = [] then driveClaimedMultiOperation ci resume publish ctx0 clock op opLease False
              else recoverSingleApplyOperation sha ci resume publish locked ctx0 clock owner applyToken op opLease)))"

definition recoverApplyOperationCutover ::
  "(string \<Rightarrow> string) \<Rightarrow> engine_drive \<Rightarrow> (Apply \<Rightarrow> Task list \<Rightarrow> unit prog) \<Rightarrow> (int \<Rightarrow> bool) \<Rightarrow> ctx \<Rightarrow> int \<Rightarrow> string \<Rightarrow> string \<Rightarrow> (world, bool) state" where
  "recoverApplyOperationCutover ci resume publish locked ctx0 clock owner opToken =
    or_else (FindNextApplyOperationCutover locked owner opToken clock) True (\<lambda>claimed.
      case claimed of
        None \<Rightarrow> State_Monad.return False
      | Some op \<Rightarrow>
          let opLease = ApplyOperation_Lease op in
          if \<not> OperationLease_Valid opLease then State_Monad.return True
          else or_else (ListByApply (op_ApplyID op)) True (\<lambda>ops.
            if length ops \<le> 1 \<or> \<not> list_ex (\<lambda>r. op_ID r = op_ID op) ops then State_Monad.return True
            else
              do {
                _ \<leftarrow> driveClaimedMultiOperation ci resume publish ctx0 clock op opLease True;
                State_Monad.return True
              }))"

definition recoverApplyPendingStop ::
  "(string \<Rightarrow> string) \<Rightarrow> (string \<Rightarrow> string) \<Rightarrow> engine_drive \<Rightarrow> (Apply \<Rightarrow> Task list \<Rightarrow> unit prog) \<Rightarrow> (int \<Rightarrow> bool) \<Rightarrow> ctx \<Rightarrow> int \<Rightarrow>
   string \<Rightarrow> string \<Rightarrow> (world, bool) state" where
  "recoverApplyPendingStop sha ci resume publish locked ctx0 clock owner applyToken =
    or_else (FindNextApplyForStopReconciliation sha ci locked owner applyToken clock) True (\<lambda>claimed.
      case claimed of
        None \<Rightarrow> State_Monad.return False
      | Some apply \<Rightarrow>
          let c = WithApplyLease ctx0 (Apply_Lease apply) in
          if \<not> ApplyLease_Valid (Apply_Lease apply) then State_Monad.return True
          else
            do {
              outcome \<leftarrow> resume c apply 0 False;
              if outcome \<noteq> DriveResumed then State_Monad.return True
              else or_else (markPendingOperationsStopped c apply) True (\<lambda>_.
                do { _ \<leftarrow> settle_parent ci (Some publish) c clock (apply_ID apply); State_Monad.return True })
            })"

text \<open>A tick of a driver that claims operations, after the expiry of retryable applies.\<close>

definition recoverApplies ::
  "(string \<Rightarrow> string) \<Rightarrow> (string \<Rightarrow> string) \<Rightarrow> engine_drive \<Rightarrow> (Apply \<Rightarrow> Task list \<Rightarrow> unit prog) \<Rightarrow> (int \<Rightarrow> bool) \<Rightarrow> ctx \<Rightarrow> int \<Rightarrow> bool \<Rightarrow>
   string \<Rightarrow> string \<Rightarrow> string \<Rightarrow> (world, unit) state" where
  "recoverApplies sha ci resume publish locked ctx0 clock claimOperations owner opToken applyToken =
    do {
      _ \<leftarrow> ExpireRetryable clock;
      if claimOperations then
        do {
          stopped \<leftarrow> recoverApplyPendingStop sha ci resume publish locked ctx0 clock owner applyToken;
          if stopped then State_Monad.return ()
          else
            do {
              cut \<leftarrow> recoverApplyOperationCutover ci resume publish locked ctx0 clock owner opToken;
              if cut then State_Monad.return ()
              else recoverApplyOperation sha ci resume publish locked ctx0 clock owner opToken applyToken
            }
        }
      else or_else (FindNextApply sha ci locked owner applyToken clock) () (\<lambda>claimed.
        case claimed of
          None \<Rightarrow> State_Monad.return ()
        | Some apply \<Rightarrow>
            if \<not> ApplyLease_Valid (Apply_Lease apply) then State_Monad.return ()
            else do { _ \<leftarrow> resume (WithApplyLease ctx0 (Apply_Lease apply)) apply 0 False; State_Monad.return () })
    }"

section \<open>Reopening a failed rollout\<close>

text \<open>
  A rollout whose first deployment failed and whose second is parked at its cutover, driven under
  lease \<open>parked_lease\<close>; its retry budget is used up.
\<close>

definition parked_db :: db where
  "parked_db = busy_db\<lparr>applies := [(new_apply ''apply_1'' ''eu'')\<lparr>apply_ID := 1, apply_State := Apply_FailedRetryable,
       apply_Attempt := MaxRecoveryAttempts, apply_StartedAt := Some 50\<rparr>],
     apply_operations := [(example_op 1 ''eu'' Apply_FailedRetryable)\<lparr>op_ApplyID := 1, op_OnFailure := OnFailureContinue\<rparr>,
       (example_op 2 ''us'' Apply_WaitingForCutover)\<lparr>op_ApplyID := 1, op_OnFailure := OnFailureContinue, op_LeaseToken := ''t''\<rparr>],
     apply_operations_next := 3\<rparr>"

definition parked_lease :: OperationLease where
  "parked_lease = \<lparr>ol_ApplyID = 1, ol_OperationID = 2, ol_Owner = ''driver-0'', ol_Token = ''t''\<rparr>"

text \<open>
  The maintenance pass expires the apply, a new apply takes the free deployment, then the driver of
  the parked operation settles the old apply.
\<close>

definition reopen_run :: "(world, (err + int) \<times> unit) state" where
  "reopen_run =
    do {
      _ \<leftarrow> ExpireRetryable 100;
      created \<leftarrow> Apply_Create id ToLower (new_apply ''apply_2'' ''us'');
      u \<leftarrow> settle_parent ToLower None (WithOperationLease Background parked_lease) 100 1;
      State_Monad.return (created, u)
    }"

lemma reopen_applies:
  "fst (fst (run_state reopen_run (quiet parked_db))) = Inr 2 \<and>
   map (\<lambda>a. (apply_ID a, apply_State a, target_key ToLower a, apply_Deployment a)) (applies (w_db (snd (run_state reopen_run (quiet parked_db))))) =
     [(1, Apply_RunningDegraded, (''orders'', ''mysql'', ''staging''), ''eu''), (2, Apply_Pending, (''orders'', ''mysql'', ''staging''), ''us'')] \<and>
   map (\<lambda>r. (op_ApplyID r, op_Deployment r)) (apply_operations (w_db (snd (run_state reopen_run (quiet parked_db))))) = [(1, ''eu''), (1, ''us'')]"
  by code_simp

text \<open>
  Further fact (a limit of the exclusion).  The projection may reopen a failed apply without checking
  its target again: from a state in which the applies are exclusive, the expiry of an apply, the
  creation of a new apply on its deployment and the end of the old apply's last drive leave two active
  applies that reserve the same deployment.
\<close>

theorem reopen_breaks_exclusion:
  "exclusive ToLower parked_db \<and> fst (fst (run_state reopen_run (quiet parked_db))) = Inr 2 \<and>
   \<not> exclusive ToLower (w_db (snd (run_state reopen_run (quiet parked_db))))"
proof -
  define d where "d = w_db (snd (run_state reopen_run (quiet parked_db)))"
  note run = reopen_applies[folded d_def]
  then obtain a b where rows: "applies d = [a, b]"
    and ids: "apply_ID a = 1" "apply_ID b = 2" and st: "apply_State a = Apply_RunningDegraded" "apply_State b = Apply_Pending"
    and key: "target_key ToLower a = target_key ToLower b" and dep: "apply_Deployment b = ''us''"
    by (auto simp: map_eq_Cons_conv)
  from run obtain r s where "apply_operations d = [r, s]" "op_ApplyID s = 1" "op_Deployment s = ''us''"
    by (auto simp: map_eq_Cons_conv)
  with dep have "ToLower ''us'' \<in> reserved ToLower d a \<inter> reserved ToLower d b"
    by (simp add: reserved_iff ids)
  moreover have "active a" "active b" by (simp_all add: active_def st terminalApplyStates_def)
  ultimately have "\<not> exclusive ToLower d"
    using exclusiveD[of ToLower d a b] rows ids key by auto
  moreover have "exclusive ToLower parked_db" by (simp add: exclusive_def parked_db_def)
  ultimately show ?thesis using run by (simp add: d_def)
qed

section \<open>Terminal applies stay terminal\<close>

definition parent_terminal :: "int \<Rightarrow> db \<Rightarrow> bool" where
  "parent_terminal i d \<longleftrightarrow> (\<forall>a\<in>set (applies d). apply_ID a = i \<longrightarrow> IsTerminalApplyState (apply_State a))"

lemma keeps_operation_reads [keeps_intros]:
  "keeps I (operationLeaseOwnsRow j tok)" "keeps I (applyOperationExists j)" "keeps I (applyOperationLeaseMatch j l)"
  "keeps I (ensureOperationLeaseStillOwned ol)"
  unfolding ensureOperationLeaseStillOwned_def operationLeaseOwnsRow_def applyOperationExists_def applyOperationLeaseMatch_def
  by (intro keeps_intros)+

lemma keeps_guarded_update [keeps_intros]: "keeps (parent_terminal i) (guarded_update c j msg f ok)"
proof -
  have upd: "keeps (parent_terminal i) (ExecContext (update_ops P g))" for P g
    by (rule keeps_exec) (auto simp: update_ops_def parent_terminal_def)
  have check: "keeps (parent_terminal i) (checkUpdatedOrExists rows j guard ok)" for rows guard
    unfolding checkUpdatedOrExists_def by (cases guard) (simp_all, (intro conjI impI keeps_intros)+)
  show ?thesis unfolding guarded_update_def by (intro keeps_intros upd check)
qed

lemma keeps_persist [keeps_intros]: "keeps (parent_terminal i) (persistOperationState c op derived msg)"
  unfolding persistOperationState_def MarkCompleted_def MarkFailed_def UpdateState_def MarkTerminal_def execStateUpdate_def
  by (intro keeps_intros)

lemma keeps_derived:
  assumes "IsTerminalApplyState newState"
  shows "keeps (parent_terminal i) (UpdateDerivedState c j expected newState msg st ct)"
proof -
  have upd: "keeps (parent_terminal i) (ExecContext (update_applies P (derive_apply newState msg st ct)))" for P
    using assms by (intro keeps_exec) (auto simp: update_applies_def parent_terminal_def set_sql_update derive_apply_def)
  have own: "keeps (parent_terminal i) (ensure_derived guard j)" for guard
    unfolding ensure_derived_def ensureOperationLeaseOwnsApply_def by (cases guard) (simp_all, (intro keeps_intros)+)
  show ?thesis unfolding UpdateDerivedState_def by (intro keeps_intros upd own)
qed

lemma keeps_projection:
  assumes "IsTerminalApplyState (apply_State apply)"
  shows "keeps (parent_terminal i) (updateApplyStateFromOperations c clock apply rejectFailedApplyReopen)"
proof -
  have "keeps (parent_terminal i) (project_derived c clock rejectFailedApplyReopen apply ops released)" for ops released
  proof (cases "IsTerminalApplyState (DeriveRolloutApplyState (map (rollout_child released) ops))")
    case True
    then show ?thesis unfolding project_derived_def Let_def by (intro keeps_intros keeps_derived)
  next
    case False
    with assms show ?thesis by (simp add: project_derived_def Let_def reopens_def keeps_return)
  qed
  then show ?thesis
    unfolding updateApplyStateFromOperations_def ListByApply_def released_rollout_def GetByOperation_def by (intro keeps_intros)
qed

lemma keeps_reconcile: "keeps (parent_terminal i) (reconcileUnclaimableParent c clock op)"
  unfolding reconcileUnclaimableParent_def reconcileClaimedOperationFromTerminalParent_def markOperationFromApplyState_def Apply_Get_def
  by (intro keeps_intros keeps_projection)

text \<open>
  Property C10 (safety).  Reconciling an operation with an apply that its driver does not hold never
  revives a terminal apply: whatever the other sessions do, as long as they do not revive it
  themselves, the apply is terminal afterwards.
\<close>

theorem reconcile_never_revives:
  assumes "parent_terminal i (w_db w)"
    and "list_all (\<lambda>t. \<forall>d. parent_terminal i d \<longrightarrow> parent_terminal i (turn_env t d)) (w_turns w)"
    and "run_state (reconcileUnclaimableParent c clock op) w = (u, w')"
  shows "parent_terminal i (w_db w')"
  using assms keepsD[OF keeps_reconcile _ assms(3), of i] by (auto simp: winv_def list_all_iff)

section \<open>What a projection does\<close>

lemma IsState_single: "IsState s [t] \<longleftrightarrow> NormalizeState s = NormalizeState t"
  by (simp add: IsState_def)

lemma terminal_normal: "IsState s [t] \<Longrightarrow> IsTerminalApplyState s = IsTerminalApplyState t"
  by (simp add: IsState_single IsTerminalApplyState_def)

text \<open>A compare-and-swap on a row that is as expected, under a lease that is current.\<close>

lemma derived_owned:
  assumes "a \<in> set (applies d)" and "apply_ID a = i" and "derivedStateGuardForContext c i = Inr guard" and "derived_predicate guard i d a"
  shows "run_state (ensure_derived guard i) (quiet d) = (Inr (), quiet d)"
proof (cases guard)
  case (derivedApply l)
  with assms(3) have "al_ApplyID l = i"
    by (auto simp: derivedStateGuardForContext_def applyLeaseFromContext_def split: option.splits sum.splits if_splits)
  with derivedApply assms(1,2,4) have "lease_current l d" by (auto simp: lease_current_def derived_predicate_def list_ex_iff)
  with derivedApply show ?thesis by (simp add: ensure_derived_def ensureApplyLeaseStillOwned_def applyLeaseMatches_def)
qed (use assms(4) in \<open>simp_all add: ensure_derived_def ensureOperationLeaseOwnsApply_def derived_predicate_def\<close>)

lemma derived_swap:
  assumes "find (\<lambda>a. apply_ID a = i) (applies d) = Some a" and "distinct (map apply_ID (applies d))"
    and "derivedStateGuardForContext c i = Inr guard" and "derived_predicate guard i d a"
  shows "\<exists>d'. run_state (UpdateDerivedState c i (apply_State a) newState msg st ct) (quiet d) = (Inr True, quiet d') \<and>
    d' = d\<lparr>applies := map (\<lambda>b. if apply_ID b = i then derive_apply newState msg st ct d b else b) (applies d)\<rparr>"
proof -
  let ?P = "\<lambda>b. apply_ID b = i \<and> apply_State b = apply_State a \<and> derived_predicate guard i d b"
  let ?f = "derive_apply newState msg st ct d"
  have uniq: "b = a" if "b \<in> set (applies d)" "apply_ID b = i" for b
    using find_key_unique[OF assms(2,1) that] .
  have mem: "a \<in> set (applies d)" "apply_ID a = i" using find_SomeD[OF assms(1)] by auto
  have upd: "sql_update ?P ?f (applies d) = map (\<lambda>b. if apply_ID b = i then ?f b else b) (applies d)"
    unfolding sql_update_def using uniq assms(4) by (auto intro!: map_cong)
  show ?thesis
  proof (cases "?f a = a")
    case True
    then have same: "map (\<lambda>b. if apply_ID b = i then ?f b else b) (applies d) = applies d"
      using uniq by (auto intro!: map_idI)
    have "newState = apply_State (?f a)" by (simp add: derive_apply_def)
    then have new: "newState = apply_State a" using True by simp
    have zero: "rows_changed ?P ?f (applies d) = 0" unfolding rows_changed_zero_iff using uniq True by blast
    have own: "run_state (ensure_derived guard i) (quiet d) = (Inr (), quiet d)"
      using mem assms(3,4) by (rule derived_owned)
    have re: "IsState (apply_State a) [apply_State a]" by (simp add: IsState_single)
    show ?thesis
      using own re assms(1) zero upd same unfolding new by (simp add: UpdateDerivedState_def assms(3) update_applies_def)
  next
    case False
    then have "0 < rows_changed ?P ?f (applies d)" using mem assms(4) by (auto simp: rows_changed_pos_iff)
    then show ?thesis by (simp add: UpdateDerivedState_def assms(3) update_applies_def upd)
  qed
qed

lemma find_mapped:
  assumes "\<And>b. apply_ID (f b) = apply_ID b" and "find (\<lambda>a. apply_ID a = i) as = Some a"
  shows "find (\<lambda>a. apply_ID a = i) (map (\<lambda>b. if apply_ID b = i then f b else b) as) = Some (f a)"
  using assms(2) by (induction as) (auto simp: assms(1) split: if_splits)

text \<open>
  Property C9 (functional correctness).  The projection of an apply that is in memory as it is stored,
  under a current lease: unless it would revive a terminal apply, the apply ends in the state its
  operations derive under their failure policies, no other apply changes, and the result says
  that the apply became terminal exactly when it did.
\<close>

theorem projection_exact:
  assumes "find (\<lambda>a. apply_ID a = apply_ID apply) (applies d) = Some apply" and "distinct (map apply_ID (applies d))"
    and "derivedStateGuardForContext c (apply_ID apply) = Inr guard" and "derived_predicate guard (apply_ID apply) d apply"
    and "ops = sort_ops (filter (\<lambda>r. op_ApplyID r = apply_ID apply) (apply_operations d))" and "ops \<noteq> []"
    and "released \<longleftrightarrow> anyPauseOnFailure ops \<and> ReleasesPausedRollout (find (cr_row (apply_ID apply) ControlOperationRelease) (control_requests d))"
    and "derived = DeriveRolloutApplyState (map (rollout_child released) ops)"
    and "IsTerminalApplyState (apply_State apply) \<Longrightarrow> IsTerminalApplyState derived"
  shows "\<exists>res d' a. run_state (updateApplyStateFromOperations c clock apply reopen) (quiet d) = (Inr res, quiet d') \<and>
    find (\<lambda>a. apply_ID a = apply_ID apply) (applies d') = Some a \<and> IsState (apply_State a) [derived] \<and>
    filter (\<lambda>a. apply_ID a \<noteq> apply_ID apply) (applies d') = filter (\<lambda>a. apply_ID a \<noteq> apply_ID apply) (applies d) \<and>
    pr_DerivedState res = derived \<and>
    (pr_BecameTerminal res \<longleftrightarrow> \<not> IsTerminalApplyState (apply_State apply) \<and> IsTerminalApplyState (apply_State a))"
proof -
  have latch: "run_state (released_rollout (apply_ID apply) ops) (quiet d) = (Inr released, quiet d)"
    using assms(7) by (simp add: released_rollout_def run_or_fail GetByOperation_def)
  have whole: "run_state (updateApplyStateFromOperations c clock apply reopen) (quiet d) =
      run_state (project_derived c clock reopen apply ops released) (quiet d)"
    using assms(5,6) latch by (simp add: updateApplyStateFromOperations_def run_or_fail ListByApply_def)
  have refl: "IsState derived [derived]" by (simp add: IsState_single)
  let ?st = "if apply_StartedAt apply = None \<and> \<not> IsState derived [Apply_Pending] then Some clock else None"
  have not_forbidden: "\<not> (IsTerminalApplyState (apply_State apply) \<and> \<not> IsTerminalApplyState derived \<and> \<not> X)" for X
    using assms(9) by blast
  show ?thesis
  proof (cases "IsState (apply_State apply) [derived] \<and> ?st = None")
    case True
    then have "run_state (project_derived c clock reopen apply ops released) (quiet d) = (Inr (unswapped apply derived ops), quiet d)"
      unfolding project_derived_def Let_def assms(8)[symmetric] using not_forbidden by simp
    then show ?thesis
      using whole assms(1) True by (intro exI[of _ "unswapped apply derived ops"] exI[of _ d] exI[of _ "apply"]) (simp add: unswapped_def)
  next
    case False
    let ?msg = "projected_error apply derived ops" and ?ct = "projected_completed clock apply derived"
    let ?g = "derive_apply derived ?msg ?st ?ct d"
    let ?d = "d\<lparr>applies := map (\<lambda>b. if apply_ID b = apply_ID apply then ?g b else b) (applies d)\<rparr>"
    let ?res = "(unswapped apply derived ops)\<lparr>pr_Swapped := True,
      pr_BecameTerminal := \<not> IsTerminalApplyState (apply_State apply) \<and> IsTerminalApplyState derived\<rparr>"
    have swap: "run_state (UpdateDerivedState c (apply_ID apply) (apply_State apply) derived ?msg ?st ?ct) (quiet d) = (Inr True, quiet ?d)"
      using derived_swap[OF assms(1-4)] by blast
    have "run_state (project_derived c clock reopen apply ops released) (quiet d) = (Inr ?res, quiet ?d)"
      unfolding project_derived_def Let_def assms(8)[symmetric] if_not_P[OF not_forbidden] if_not_P[OF False]
      by (simp only: run_or_fail swap) simp
    moreover have "find (\<lambda>a. apply_ID a = apply_ID apply) (applies ?d) = Some (?g apply)"
      using find_mapped[OF _ assms(1), of ?g] by (simp add: derive_apply_def)
    moreover have "filter (\<lambda>a. apply_ID a \<noteq> apply_ID apply) (map (\<lambda>b. if apply_ID b = apply_ID apply then ?g b else b) as) =
        filter (\<lambda>a. apply_ID a \<noteq> apply_ID apply) as" for as
      by (induction as) (auto simp: derive_apply_def)
    moreover have "apply_State (?g apply) = derived" by (simp add: derive_apply_def)
    ultimately show ?thesis
      using whole refl by (intro exI[of _ ?res] exI[of _ ?d] exI[of _ "?g apply"]) (simp add: unswapped_def)
  qed
qed

definition done_db :: db where
  "done_db = busy_db\<lparr>apply_operations := [(example_op 1 ''eu'' Apply_Completed)\<lparr>op_ApplyID := 1\<rparr>,
     (example_op 2 ''us'' Apply_Completed)\<lparr>op_ApplyID := 1\<rparr>]\<rparr>"

theorem projection_exact_witness:
  "\<exists>res d' a. run_state (updateApplyStateFromOperations Background 100 (hd (applies done_db)) rejectFailedApplyReopen) (quiet done_db) =
      (Inr res, quiet d') \<and> find (\<lambda>a. apply_ID a = 1) (applies d') = Some a \<and> IsState (apply_State a) [Apply_Completed] \<and> pr_BecameTerminal res"
proof -
  let ?a = "hd (applies done_db)"
  let ?ops = "sort_ops (filter (\<lambda>r. op_ApplyID r = apply_ID ?a) (apply_operations done_db))"
  have rows: "apply_ID ?a = 1" by (simp add: done_db_def busy_db_def)
  have row: "find (\<lambda>a. apply_ID a = apply_ID ?a) (applies done_db) = Some ?a" "distinct (map apply_ID (applies done_db))"
    by (simp_all add: done_db_def busy_db_def)
  have old: "\<not> IsTerminalApplyState (apply_State ?a)" "?ops \<noteq> []" by code_simp+
  have new: "DeriveRolloutApplyState (map (rollout_child False) ?ops) = Apply_Completed" "\<not> anyPauseOnFailure ?ops" by code_simp+
  have "IsTerminalApplyState Apply_Completed" by code_simp
  then have fin: "IsTerminalApplyState s" if "IsState s [Apply_Completed]" for s
    using terminal_normal[OF that] by simp
  have guard: "derivedStateGuardForContext Background 1 = Inr derivedUnguarded" by code_simp
  have "\<exists>res d' a. run_state (updateApplyStateFromOperations Background 100 ?a rejectFailedApplyReopen) (quiet done_db) = (Inr res, quiet d') \<and>
    find (\<lambda>a. apply_ID a = apply_ID ?a) (applies d') = Some a \<and> IsState (apply_State a) [Apply_Completed] \<and>
    filter (\<lambda>a. apply_ID a \<noteq> apply_ID ?a) (applies d') = filter (\<lambda>a. apply_ID a \<noteq> apply_ID ?a) (applies done_db) \<and>
    pr_DerivedState res = Apply_Completed \<and>
    (pr_BecameTerminal res \<longleftrightarrow> \<not> IsTerminalApplyState (apply_State ?a) \<and> IsTerminalApplyState (apply_State a))"
    by (rule projection_exact[where ops = ?ops and released = False and guard = derivedUnguarded])
      (use row rows old new guard in \<open>simp_all add: derived_predicate_def\<close>)
  then show ?thesis using rows old(1) fin by metis
qed

theorem reconcile_never_revives_witness:
  "parent_terminal 1 (w_db (snd (run_state (reconcileUnclaimableParent Background 100 (hd (apply_operations done_db)))
     \<lparr>w_db = finish_all done_db, w_undo = [], w_turns = [Turn id None, Turn finish_all None]\<rparr>)))"
proof -
  let ?w = "\<lparr>w_db = finish_all done_db, w_undo = [], w_turns = [Turn id None, Turn finish_all None]\<rparr>"
  let ?p = "reconcileUnclaimableParent Background 100 (hd (apply_operations done_db))"
  have "IsTerminalApplyState Apply_Completed" by code_simp
  then have fin: "parent_terminal 1 (finish_all d)" for d by (auto simp: parent_terminal_def finish_all_def)
  then have "list_all (\<lambda>t. \<forall>d. parent_terminal 1 d \<longrightarrow> parent_terminal 1 (turn_env t d)) (w_turns ?w)" by simp
  moreover have "parent_terminal 1 (w_db ?w)" using fin by simp
  ultimately show ?thesis
    using reconcile_never_revives[of 1 ?w Background 100 "hd (apply_operations done_db)" "()" "snd (run_state ?p ?w)"]
    by (simp add: prod_eq_iff)
qed

end
