(* ===== verification/Check_Store.thy ===== *)
theory Check_Store
  imports Sql_Store "HOL-Library.Char_ord" "HOL-Library.List_Lexorder" "HOL-Library.Product_Lexorder"
begin

text \<open>
  Stored check state (\<^verbatim>\<open>pkg/storage/mysqlstore/checks.go\<close>): one row per pull request, environment
  and database, with the apply that owns it.  The rows decide whether a pull request may merge, so
  the writes are guarded: a plan result never takes a row away from a running apply, an apply
  completes only a row it still owns, and closing a pull request keeps the rows of applies that
  reached a database.  Names are compared under the collation \<open>ci\<close>, whose keys also give the order.
\<close>

section \<open>Statements\<close>

definition chk_key :: "(string \<Rightarrow> string) \<Rightarrow> Check \<Rightarrow> string \<times> int \<times> string \<times> string \<times> string" where
  "chk_key ci r = (ci (chk_Repository r), chk_PullRequest r, ci (chk_Environment r),
     ci (chk_DatabaseType r), ci (chk_DatabaseName r))"

definition stamp_check :: "db \<Rightarrow> Check \<Rightarrow> Check" where
  "stamp_check d r = r\<lparr>chk_UpdatedAt := now d\<rparr>"

definition update_checks :: "(db \<Rightarrow> Check \<Rightarrow> bool) \<Rightarrow> (Check \<Rightarrow> Check) \<Rightarrow> statement" where
  "update_checks P f d =
    Inr (d\<lparr>checks := sql_update (P d) (on_update (stamp_check d) f) (checks d)\<rparr>,
         rows_changed (P d) (on_update (stamp_check d) f) (checks d))"

definition delete_checks :: "(Check \<Rightarrow> bool) \<Rightarrow> statement" where
  "delete_checks P d =
    Inr (d\<lparr>checks := filter (\<lambda>r. \<not> P r) (checks d)\<rparr>, int (length (filter P (checks d))))"

definition insert_check :: "(string \<Rightarrow> string) \<Rightarrow> Check \<Rightarrow> statement" where
  "insert_check ci row d =
    (if list_ex (\<lambda>r. chk_key ci r = chk_key ci row) (checks d) then Inl duplicate_entry
     else Inr (d\<lparr>checks := checks d @
                  [row\<lparr>chk_ID := checks_next d, chk_CreatedAt := now d, chk_UpdatedAt := now d\<rparr>],
                 checks_next := checks_next d + 1\<rparr>, checks_next d))"

abbreviation checkStatusInProgress :: string where "checkStatusInProgress \<equiv> ''in_progress''"
abbreviation checkStatusCompleted :: string where "checkStatusCompleted \<equiv> ''completed''"
abbreviation checkConclusionSuccess :: string where "checkConclusionSuccess \<equiv> ''success''"

text \<open>The columns all writes set from the caller's check.\<close>

definition set_result :: "Check \<Rightarrow> Check \<Rightarrow> Check" where
  "set_result check r = r\<lparr>
     chk_HeadSHA := chk_HeadSHA check, chk_CheckRunID := chk_CheckRunID check,
     chk_HasChanges := chk_HasChanges check, chk_Status := chk_Status check,
     chk_Conclusion := chk_Conclusion check, chk_BlockingReason := chk_BlockingReason check,
     chk_ErrorMessage := chk_ErrorMessage check\<rparr>"

definition set_owned_result :: "Check \<Rightarrow> int \<Rightarrow> Check \<Rightarrow> Check" where
  "set_owned_result check applyID r = (set_result check r)\<lparr>chk_ApplyID := applyID,
     chk_ChangeSummary := COALESCE_NULLIF (chk_ChangeSummary check) (chk_ChangeSummary r)\<rparr>"

section \<open>Upserts\<close>

definition upsert_check :: "(string \<Rightarrow> string) \<Rightarrow> Check \<Rightarrow> statement" where
  "upsert_check ci check d =
    (if list_ex (\<lambda>r. chk_key ci r = chk_key ci check) (checks d)
     then update_checks (\<lambda>d r. chk_key ci r = chk_key ci check)
            (set_owned_result check (chk_ApplyID check)) d
     else insert_check ci check d)"

definition Check_Upsert :: "(string \<Rightarrow> string) \<Rightarrow> Check \<Rightarrow> unit prog" where
  "Check_Upsert ci check = withLockRetry ''upsert check result''
    (do {
       r \<leftarrow> ExecContext (upsert_check ci check);
       case r of Inl e \<Rightarrow> State_Monad.return (Inl e) | Inr _ \<Rightarrow> State_Monad.return (Inr ())
     })"

text \<open>A row an apply is working on.\<close>

definition apply_in_progress :: "Check \<Rightarrow> bool" where
  "apply_in_progress r \<longleftrightarrow> chk_Status r = checkStatusInProgress \<and> chk_ApplyID r \<noteq> 0"

text \<open>
  The assignments of a write that did not evaluate drift.  MySQL evaluates them from left to right,
  so the last two columns test the blocking reason that has just been assigned.
\<close>

definition set_not_evaluated :: "Check \<Rightarrow> Check \<Rightarrow> Check" where
  "set_not_evaluated check r =
    (let keep = (chk_BlockingReason r = ReviewTimeDeploymentDriftBlockingReason);
         reason = (if keep then chk_BlockingReason r else chk_BlockingReason check);
         keep' = (reason = ReviewTimeDeploymentDriftBlockingReason)
     in r\<lparr>chk_HeadSHA := chk_HeadSHA check, chk_CheckRunID := chk_CheckRunID check,
          chk_ApplyID := (if keep then chk_ApplyID r else 0),
          chk_HasChanges := (if keep then chk_HasChanges r else chk_HasChanges check),
          chk_Status := (if keep then chk_Status r else chk_Status check),
          chk_Conclusion := (if keep then chk_Conclusion r else chk_Conclusion check),
          chk_BlockingReason := reason,
          chk_ErrorMessage := (if keep' then chk_ErrorMessage r else chk_ErrorMessage check),
          chk_ChangeSummary := (if keep' then chk_ChangeSummary r else chk_ChangeSummary check)\<rparr>)"

definition set_evaluated :: "Check \<Rightarrow> Check \<Rightarrow> Check" where
  "set_evaluated check r = (set_result check r)\<lparr>chk_ApplyID := 0,
     chk_ChangeSummary := chk_ChangeSummary check\<rparr>"

definition plan_update :: "(string \<Rightarrow> string) \<Rightarrow> Check \<Rightarrow> PlanDriftState \<Rightarrow> statement" where
  "plan_update ci check drift = update_checks
     (\<lambda>d r. chk_key ci r = chk_key ci check \<and> \<not> apply_in_progress r)
     (if drift = PlanDriftNotEvaluated then set_not_evaluated check else set_evaluated check)"

definition upsert_plan_once :: "(string \<Rightarrow> string) \<Rightarrow> Check \<Rightarrow> PlanDriftState \<Rightarrow> unit prog" where
  "upsert_plan_once ci check drift =
    do {
      r \<leftarrow> ExecContext (insert_check ci (check\<lparr>chk_ApplyID := 0\<rparr>));
      case r of
        Inr _ \<Rightarrow> State_Monad.return (Inr ())
      | Inl e \<Rightarrow>
          if \<not> isDuplicateKeyError e then State_Monad.return (Inl e)
          else
            do {
              u \<leftarrow> ExecContext (plan_update ci check drift);
              case u of Inl e' \<Rightarrow> State_Monad.return (Inl e') | Inr _ \<Rightarrow> State_Monad.return (Inr ())
            }
    }"

definition UpsertPlanResult :: "(string \<Rightarrow> string) \<Rightarrow> Check \<Rightarrow> PlanDriftState \<Rightarrow> unit prog" where
  "UpsertPlanResult ci check drift =
    withLockRetry ''upsert plan check result'' (upsert_plan_once ci check drift)"

section \<open>Recovery and cleanup\<close>

text \<open>A nil check is \<open>None\<close>.\<close>

definition successfulNoOpPlanResult :: "Check option \<Rightarrow> bool" where
  "successfulNoOpPlanResult check =
    (case check of
       None \<Rightarrow> False
     | Some c \<Rightarrow> chk_Status c = checkStatusCompleted \<and> chk_Conclusion c = checkConclusionSuccess \<and>
         \<not> chk_HasChanges c)"

definition RecoverApplyOwnedCheckWithNoOpPlan :: "(string \<Rightarrow> string) \<Rightarrow> Check option \<Rightarrow> bool prog" where
  "RecoverApplyOwnedCheckWithNoOpPlan ci chk =
    (case chk of
       Some check \<Rightarrow>
         if \<not> successfulNoOpPlanResult (Some check) then State_Monad.return (Inr False)
         else
           do {
             r \<leftarrow> ExecContext (update_checks
               (\<lambda>d r. chk_key ci r = chk_key ci check \<and> chk_Status r = checkStatusInProgress \<and>
                      ci (chk_HeadSHA r) = ci (chk_HeadSHA check) \<and> chk_ApplyID r \<noteq> 0)
               (set_owned_result check 0));
             case r of
               Inl e \<Rightarrow> State_Monad.return (Inl e)
             | Inr rows \<Rightarrow> State_Monad.return (Inr (rows > 0))
           }
     | None \<Rightarrow> State_Monad.return (Inr False))"

definition isPlanOnlySuccessful :: "Check \<Rightarrow> bool" where
  "isPlanOnlySuccessful c \<longleftrightarrow>
    chk_Status c = checkStatusCompleted \<and> chk_Conclusion c = checkConclusionSuccess \<and>
    chk_ApplyID c = 0 \<and> \<not> chk_HasChanges c"

definition Check_Get ::
  "(string \<Rightarrow> string) \<Rightarrow> string \<Rightarrow> int \<Rightarrow> string \<Rightarrow> string \<Rightarrow> string \<Rightarrow> Check option prog" where
  "Check_Get ci repo pr environment dbType database = QueryContext (\<lambda>d.
     find (\<lambda>r. chk_key ci r = (ci repo, pr, ci environment, ci dbType, ci database)) (checks d))"

definition MarkStalePlanSuccessful :: "(string \<Rightarrow> string) \<Rightarrow> Check \<Rightarrow> bool prog" where
  "MarkStalePlanSuccessful ci check =
    do {
      r \<leftarrow> ExecContext (update_checks
        (\<lambda>d r. chk_key ci r = chk_key ci check \<and> chk_Status r \<noteq> checkStatusInProgress \<and> chk_ApplyID r = 0)
        (set_owned_result check 0));
      case r of
        Inl e \<Rightarrow> State_Monad.return (Inl (Wrapped ''mark stale plan check successful'' e))
      | Inr rows \<Rightarrow>
          if rows > 0 then State_Monad.return (Inr True)
          else
            do {
              c \<leftarrow> Check_Get ci (chk_Repository check) (chk_PullRequest check) (chk_Environment check)
                     (chk_DatabaseType check) (chk_DatabaseName check);
              case c of
                Inl e \<Rightarrow> State_Monad.return (Inl (Wrapped ''re-read stale plan check after no-op update'' e))
              | Inr current \<Rightarrow>
                  (case current of
                     None \<Rightarrow> State_Monad.return (Inl (Errorf ''stale plan check vanished after no-op update''))
                   | Some cur \<Rightarrow> State_Monad.return (Inr (isPlanOnlySuccessful cur)))
            }
    }"

definition ClearAggregateBlock :: "(string \<Rightarrow> string) \<Rightarrow> Check \<Rightarrow> bool prog" where
  "ClearAggregateBlock ci check =
    do {
      r \<leftarrow> ExecContext (update_checks
        (\<lambda>d r. chk_key ci r = chk_key ci check \<and> ci (chk_HeadSHA r) = ci (chk_HeadSHA check) \<and>
               ci (chk_BlockingReason r) = ci (chk_BlockingReason check))
        (\<lambda>r. r\<lparr>chk_BlockingReason := '''', chk_ErrorMessage := ''''\<rparr>));
      case r of
        Inl e \<Rightarrow> State_Monad.return (Inl (Wrapped ''clear aggregate blocking reason'' e))
      | Inr rows \<Rightarrow> State_Monad.return (Inr (rows > 0))
    }"

section \<open>Applies finishing\<close>

text \<open>The NOT EXISTS subquery: an apply newer than \<open>applyID\<close> for the row's target.\<close>

definition newer_apply :: "(string \<Rightarrow> string) \<Rightarrow> int \<Rightarrow> db \<Rightarrow> Check \<Rightarrow> bool" where
  "newer_apply ci applyID d r \<longleftrightarrow>
    list_ex (\<lambda>a. ci (apply_Repository a) = ci (chk_Repository r) \<and>
      apply_PullRequest a = chk_PullRequest r \<and> ci (apply_Environment a) = ci (chk_Environment r) \<and>
      ci (apply_DatabaseType a) = ci (chk_DatabaseType r) \<and>
      ci (apply_Database a) = ci (chk_DatabaseName r) \<and> apply_ID a > applyID) (applies d)"

text \<open>The lease predicate, added only when the apply carries a valid lease.\<close>

definition lease_predicate :: "Apply \<Rightarrow> db \<Rightarrow> bool" where
  "lease_predicate a d \<longleftrightarrow> ApplyLease_Valid (Apply_Lease a) \<longrightarrow> lease_current (Apply_Lease a) d"

definition updated_or_lease_lost :: "int \<Rightarrow> Apply \<Rightarrow> bool prog" where
  "updated_or_lease_lost rows a =
    (if rows = 0 \<and> ApplyLease_Valid (Apply_Lease a) then
       do {
         l \<leftarrow> ensureApplyLeaseStillOwned (Apply_Lease a);
         case l of
           Inl e \<Rightarrow> State_Monad.return (Inl e)
         | Inr _ \<Rightarrow> State_Monad.return (Inr False)
       }
     else State_Monad.return (Inr (rows > 0)))"

definition CompleteForApply :: "(string \<Rightarrow> string) \<Rightarrow> Check \<Rightarrow> Apply \<Rightarrow> bool prog" where
  "CompleteForApply ci check a =
    do {
      r \<leftarrow> ExecContext (update_checks
        (\<lambda>d r. chk_key ci r = chk_key ci check \<and> chk_Status r = checkStatusInProgress \<and>
               chk_ApplyID r = apply_ID a \<and> chk_ApplyID r \<noteq> 0 \<and>
               \<not> newer_apply ci (apply_ID a) d r \<and> lease_predicate a d)
        (set_owned_result check (apply_ID a)));
      case r of
        Inl e \<Rightarrow> State_Monad.return (Inl e)
      | Inr rows \<Rightarrow> updated_or_lease_lost rows a
    }"

definition MarkActionRequiredForApply :: "(string \<Rightarrow> string) \<Rightarrow> Check \<Rightarrow> Apply \<Rightarrow> bool prog" where
  "MarkActionRequiredForApply ci check a =
    do {
      r \<leftarrow> ExecContext (update_checks
        (\<lambda>d r. chk_key ci r = chk_key ci check \<and> (chk_ApplyID r = 0 \<or> chk_ApplyID r \<le> apply_ID a) \<and>
               \<not> newer_apply ci (apply_ID a) d r \<and> lease_predicate a d)
        (set_owned_result check 0));
      case r of
        Inl e \<Rightarrow> State_Monad.return (Inl e)
      | Inr rows \<Rightarrow> updated_or_lease_lost rows a
    }"

section \<open>Reading and deleting\<close>

definition GetByCheckRunID :: "int \<Rightarrow> Check option prog" where
  "GetByCheckRunID checkRunID = QueryContext (\<lambda>d.
     find (\<lambda>r. chk_CheckRunID r = checkRunID \<and> chk_CheckRunID r \<noteq> 0) (checks d))"

definition Check_GetByPR :: "(string \<Rightarrow> string) \<Rightarrow> string \<Rightarrow> int \<Rightarrow> Check list prog" where
  "Check_GetByPR ci repo pr =
    do {
      r \<leftarrow> QueryContext (\<lambda>d.
        sort_key (\<lambda>r. (ci (chk_Environment r), ci (chk_DatabaseType r), ci (chk_DatabaseName r)))
          (filter (\<lambda>r. ci (chk_Repository r) = ci repo \<and> chk_PullRequest r = pr) (checks d)));
      case r of
        Inl e \<Rightarrow> State_Monad.return (Inl (Wrapped ''query checks'' e))
      | Inr rs \<Rightarrow> State_Monad.return (Inr rs)
    }"

definition GetByDatabase ::
  "(string \<Rightarrow> string) \<Rightarrow> string \<Rightarrow> string \<Rightarrow> string \<Rightarrow> string \<Rightarrow> Check list prog" where
  "GetByDatabase ci repo environment dbType database =
    do {
      r \<leftarrow> QueryContext (\<lambda>d. sort_key chk_PullRequest
        (filter (\<lambda>r. ci (chk_Repository r) = ci repo \<and> ci (chk_Environment r) = ci environment \<and>
           ci (chk_DatabaseType r) = ci dbType \<and> ci (chk_DatabaseName r) = ci database) (checks d)));
      case r of
        Inl e \<Rightarrow> State_Monad.return (Inl (Wrapped ''query checks for database'' e))
      | Inr rs \<Rightarrow> State_Monad.return (Inr rs)
    }"

definition Check_Delete :: "int \<Rightarrow> unit prog" where
  "Check_Delete i =
    do {
      r \<leftarrow> ExecContext (delete_checks (\<lambda>r. chk_ID r = i));
      case r of
        Inl e \<Rightarrow> State_Monad.return (Inl e)
      | Inr rows \<Rightarrow> State_Monad.return (checkRowsAffected rows ErrCheckNotFound)
    }"

text \<open>The rows a closed pull request gives up.\<close>

definition close_deletes :: "(string \<Rightarrow> string) \<Rightarrow> string \<Rightarrow> int \<Rightarrow> bool \<Rightarrow> Check \<Rightarrow> bool" where
  "close_deletes ci repo pr merged r \<longleftrightarrow>
    ci (chk_Repository r) = ci repo \<and> chk_PullRequest r = pr \<and>
    (chk_ApplyID r = 0 \<or>
     (merged \<and> chk_Status r \<noteq> checkStatusInProgress \<and> chk_Conclusion r = checkConclusionSuccess))"

definition DeleteByPRRetainingBlockingApplyOwned ::
  "(string \<Rightarrow> string) \<Rightarrow> string \<Rightarrow> int \<Rightarrow> bool \<Rightarrow> unit prog" where
  "DeleteByPRRetainingBlockingApplyOwned ci repo pr merged =
    do {
      r \<leftarrow> ExecContext (delete_checks (close_deletes ci repo pr merged));
      case r of
        Inl e \<Rightarrow> State_Monad.return (Inl (Wrapped
          (if merged then ''delete checks for merged closed PR''
           else ''delete plan-only checks for unmerged closed PR'') e))
      | Inr _ \<Rightarrow> State_Monad.return (Inr ())
    }"


section \<open>What the statements keep\<close>

definition checks_unique :: "(string \<Rightarrow> string) \<Rightarrow> db \<Rightarrow> bool" where
  "checks_unique ci d \<longleftrightarrow> distinct (map (chk_key ci) (checks d))"

lemma chk_key_writes [simp]:
  "chk_key ci (set_result check r) = chk_key ci r"
  "chk_key ci (set_owned_result check i r) = chk_key ci r"
  "chk_key ci (set_not_evaluated check r) = chk_key ci r"
  "chk_key ci (set_evaluated check r) = chk_key ci r"
  "chk_key ci (stamp_check d r) = chk_key ci r"
  "chk_key ci (r\<lparr>chk_BlockingReason := s, chk_ErrorMessage := t\<rparr>) = chk_key ci r"
  "chk_key ci (r\<lparr>chk_ID := i, chk_CreatedAt := t', chk_UpdatedAt := u\<rparr>) = chk_key ci r"
  by (simp_all add: chk_key_def set_result_def set_owned_result_def set_not_evaluated_def
      set_evaluated_def stamp_check_def Let_def)

lemma chk_key_on_update:
  "chk_key ci (f r) = chk_key ci r \<Longrightarrow> chk_key ci (on_update (stamp_check d) f r) = chk_key ci r"
  by (simp add: on_update_def Let_def)

lemma update_checks_unique:
  assumes "update_checks P f d = Inr (d', n)" and "\<And>r. chk_key ci (f r) = chk_key ci r"
  shows "checks_unique ci d' = checks_unique ci d"
proof -
  from assms(1) have "checks d' = sql_update (P d) (on_update (stamp_check d) f) (checks d)"
    by (auto simp: update_checks_def)
  with map_key_sql_update [of "chk_key ci" "on_update (stamp_check d) f"]
  show ?thesis by (simp add: checks_unique_def chk_key_on_update assms(2))
qed

lemma insert_check_unique:
  "checks_unique ci d \<Longrightarrow> insert_check ci row d = Inr (d', n) \<Longrightarrow> checks_unique ci d'"
  by (auto simp: checks_unique_def insert_check_def list_ex_iff image_iff split: if_splits; blast)

text \<open>The lookup by key after a write.\<close>

lemma find_update_checks:
  assumes "checks_unique ci d" and "update_checks P f d = Inr (d', n)"
    and "\<And>r. chk_key ci (f r) = chk_key ci r"
  shows "find (\<lambda>r. chk_key ci r = k) (checks d') =
    map_option (\<lambda>r. if P d r then on_update (stamp_check d) f r else r) (find (\<lambda>r. chk_key ci r = k) (checks d))"
proof -
  from assms(2) have "checks d' = sql_update (P d) (on_update (stamp_check d) f) (checks d)"
    by (auto simp: update_checks_def)
  with find_key_update [of "chk_key ci" "on_update (stamp_check d) f" "checks d" k "P d"] assms(1,3)
  show ?thesis by (simp add: checks_unique_def chk_key_on_update)
qed

text \<open>
  A write that leaves a class of rows alone.  Such a write keeps every row of the class under any
  interference that keeps it.
\<close>

locale row_guard =
  fixes protect :: "Check \<Rightarrow> bool" and stm :: statement
  assumes leaves: "protect r \<Longrightarrow> r \<in> set (checks d) \<Longrightarrow> stm d = Inr (d', n) \<Longrightarrow> r \<in> set (checks d')"
begin

lemma exec_keeps:
  assumes "protect r"
  shows "hoare (winv (\<lambda>d. r \<in> set (checks d))) (ExecContext stm) (\<lambda>_. winv (\<lambda>d. r \<in> set (checks d)))"
  by (rule hoare_conseq [OF hoare_exec [where I = "\<lambda>d. r \<in> set (checks d)" and
        P = "winv (\<lambda>d. r \<in> set (checks d))"]]) (use leaves [OF assms] in auto)

lemma quiet_keeps:
  "protect r \<Longrightarrow> r \<in> set (checks d) \<Longrightarrow> stm d = Inr (d', n) \<Longrightarrow> r \<in> set (checks d')"
  by (rule leaves)

end

lemma row_guard_update:
  assumes "\<And>d r. protect r \<Longrightarrow> \<not> P d r"
  shows "row_guard protect (update_checks P f)"
  by unfold_locales (auto simp: update_checks_def set_sql_update dest: assms)

interpretation plan_insert: row_guard "\<lambda>_. True" "insert_check ci row"
  by unfold_locales (auto simp: insert_check_def split: if_splits)

interpretation plan_write: row_guard apply_in_progress "plan_update ci check drift"
  unfolding plan_update_def by (rule row_guard_update) simp

interpretation close_write: row_guard "\<lambda>r. \<not> close_deletes ci repo pr merged r"
  "delete_checks (close_deletes ci repo pr merged)"
  by unfold_locales (auto simp: delete_checks_def)

lemma hoare_upsert_plan_once:
  assumes "apply_in_progress r"
  shows "hoare (winv (\<lambda>d. r \<in> set (checks d))) (upsert_plan_once ci check drift)
    (\<lambda>_. winv (\<lambda>d. r \<in> set (checks d)))"
  unfolding upsert_plan_once_def
  by (intro hoare_branch hoare_bind [OF plan_insert.exec_keeps [OF TrueI]]
      hoare_bind [OF plan_write.exec_keeps [OF assms]]) auto

section \<open>Properties\<close>

definition example_check :: "string \<Rightarrow> string \<Rightarrow> string \<Rightarrow> int \<Rightarrow> Check" where
  "example_check sha st conclusion applyID = \<lparr>chk_ID = 1, chk_Repository = ''org/app'', chk_PullRequest = 7,
     chk_HeadSHA = sha, chk_Environment = ''staging'', chk_DatabaseType = ''mysql'',
     chk_DatabaseName = ''orders'', chk_CheckRunID = 0, chk_ApplyID = applyID, chk_HasChanges = conclusion \<noteq> ''success'',
     chk_Status = st, chk_Conclusion = conclusion, chk_BlockingReason = '''', chk_ErrorMessage = '''',
     chk_ChangeSummary = '''', chk_CreatedAt = 0, chk_UpdatedAt = 0\<rparr>"

definition check_apply :: "int \<Rightarrow> string \<Rightarrow> Apply" where
  "check_apply i st = zero_apply\<lparr>apply_ID := i, apply_Database := ''orders'',
     apply_DatabaseType := ''mysql'', apply_Repository := ''org/app'', apply_PullRequest := 7,
     apply_Environment := ''staging'', apply_State := st\<rparr>"

text \<open>
  Property C35 (plans never take a row from a running apply).  Whatever the other sessions do between
  its statements, as long as they keep the row, storing a plan result, whether it succeeds or
  fails, leaves a row that an apply is working on exactly as it is.
\<close>

theorem plan_result_spares_running_apply:
  assumes "apply_in_progress r" and "winv (\<lambda>d. r \<in> set (checks d)) w"
    and "run_state (UpsertPlanResult ci check drift) w = (x, w')"
  shows "r \<in> set (checks (w_db w'))"
proof -
  let ?I = "\<lambda>d. r \<in> set (checks d)"
  have "hoare (winv ?I) (UpsertPlanResult ci check drift) (\<lambda>x w. winv ?I w \<and> (\<forall>y. x = Inr y \<longrightarrow> True))"
    unfolding UpsertPlanResult_def
    by (rule hoare_withLockRetry, rule hoare_conseq [OF hoare_upsert_plan_once [OF assms(1)]]) auto
  from hoareD [OF this assms(2,3)] show ?thesis by (simp add: winv_def)
qed

theorem plan_result_spares_running_apply_witness:
  "example_check ''sha1'' ''in_progress'' '''' 9 \<in> set (checks (w_db (snd (run_state
     (UpsertPlanResult ToLower (example_check ''sha2'' ''completed'' ''success'' 0) PlanDriftClean)
     (quiet (empty_db\<lparr>checks := [example_check ''sha1'' ''in_progress'' '''' 9]\<rparr>))))))"
  by (rule plan_result_spares_running_apply [OF _ _ prod.collapse [symmetric]])
    (simp_all add: apply_in_progress_def example_check_def winv_def alone_def)

text \<open>
  Further fact (drift blocks are durable).  A plan write that did not evaluate drift changes nothing of
  a row blocked for drift but the commit, the check run and the time stamp; a write that did
  evaluate drift replaces the row's result and releases it from any apply.
\<close>

theorem drift_block_durable:
  assumes "checks_unique ci d" and "find (\<lambda>r. chk_key ci r = chk_key ci check) (checks d) = Some r"
    and "\<not> apply_in_progress r"
  shows "\<exists>d'. run_state (UpsertPlanResult ci check drift) (quiet d) = (Inr (), quiet d') \<and>
    find (\<lambda>r. chk_key ci r = chk_key ci check) (checks d') = Some (on_update (stamp_check d)
      (\<lambda>r. if drift = PlanDriftNotEvaluated \<and> chk_BlockingReason r = ReviewTimeDeploymentDriftBlockingReason
           then r\<lparr>chk_HeadSHA := chk_HeadSHA check, chk_CheckRunID := chk_CheckRunID check\<rparr>
           else if drift = PlanDriftNotEvaluated then set_not_evaluated check r
           else (set_result check r)\<lparr>chk_ApplyID := 0, chk_ChangeSummary := chk_ChangeSummary check\<rparr>) r)"
proof -
  obtain d' n where upd: "plan_update ci check drift d = Inr (d', n)"
    by (simp add: plan_update_def update_checks_def)
  have keys: "chk_key ci ((if drift = PlanDriftNotEvaluated then set_not_evaluated check
      else set_evaluated check) r) = chk_key ci r" for r by simp
  have key: "chk_key ci (check\<lparr>chk_ApplyID := 0\<rparr>) = chk_key ci check" by (simp add: chk_key_def)
  have "list_ex (\<lambda>r. chk_key ci r = chk_key ci check) (checks d)"
    using find_SomeD [OF assms(2)] by (auto simp: list_ex_iff)
  then have dup: "insert_check ci (check\<lparr>chk_ApplyID := 0\<rparr>) d = Inl duplicate_entry"
    by (simp add: insert_check_def key)
  have "isDuplicateKeyError duplicate_entry" by (simp add: isDuplicateKeyError_def duplicate_entry_def)
  then have "run_state (upsert_plan_once ci check drift) (quiet d) = (Inr (), quiet d')"
    by (simp add: upsert_plan_once_def dup upd)
  then have run: "run_state (UpsertPlanResult ci check drift) (quiet d) = (Inr (), quiet d')"
    unfolding UpsertPlanResult_def by (rule run_retry_first) simp
  have "find (\<lambda>r. chk_key ci r = chk_key ci check) (checks d') =
      Some (on_update (stamp_check d) (if drift = PlanDriftNotEvaluated then set_not_evaluated check
        else set_evaluated check) r)"
    using find_update_checks [OF assms(1) upd [unfolded plan_update_def] keys, of "chk_key ci check"]
      assms(2,3) find_SomeD [OF assms(2)] by simp
  moreover have "set_not_evaluated check r = r\<lparr>chk_HeadSHA := chk_HeadSHA check,
      chk_CheckRunID := chk_CheckRunID check\<rparr>"
    if "chk_BlockingReason r = ReviewTimeDeploymentDriftBlockingReason"
    using that by (simp add: set_not_evaluated_def)
  ultimately show ?thesis
    using run by (intro exI [of _ d'] conjI) (auto simp: on_update_def set_evaluated_def)
qed


theorem drift_block_durable_witness:
  "\<exists>d'. run_state (UpsertPlanResult ToLower (example_check ''sha2'' ''completed'' ''success'' 0) PlanDriftNotEvaluated)
      (quiet (empty_db\<lparr>checks := [(example_check ''sha1'' ''completed'' ''failure'' 0)
        \<lparr>chk_BlockingReason := ReviewTimeDeploymentDriftBlockingReason\<rparr>]\<rparr>)) = (Inr (), quiet d')"
proof -
  let ?r = "(example_check ''sha1'' ''completed'' ''failure'' 0)
    \<lparr>chk_BlockingReason := ReviewTimeDeploymentDriftBlockingReason\<rparr>"
  let ?c = "example_check ''sha2'' ''completed'' ''success'' 0"
  have "find (\<lambda>r. chk_key ToLower r = chk_key ToLower ?c) (checks (empty_db\<lparr>checks := [?r]\<rparr>)) = Some ?r"
    by (simp add: example_check_def chk_key_def)
  moreover have "checks_unique ToLower (empty_db\<lparr>checks := [?r]\<rparr>)" "\<not> apply_in_progress ?r"
    by (simp_all add: checks_unique_def apply_in_progress_def example_check_def)
  ultimately show ?thesis
    using drift_block_durable [of ToLower "empty_db\<lparr>checks := [?r]\<rparr>" ?c ?r PlanDriftNotEvaluated] by blast
qed

lemma updated_or_lease_lost_quiet:
  "run_state (updated_or_lease_lost rows a) (quiet d) =
    (if rows = 0 \<and> ApplyLease_Valid (Apply_Lease a) \<and> \<not> lease_current (Apply_Lease a) d
     then Inl (Wrapped ''apply lease is no longer current'' ErrApplyLeaseLost) else Inr (rows > 0), quiet d)"
  by (simp add: updated_or_lease_lost_def ensureApplyLeaseStillOwned_def applyLeaseMatches_def)

lemma update_checks_zero: "update_checks P f d = Inr (d', n) \<Longrightarrow> n \<le> 0 \<Longrightarrow> d' = d"
proof -
  assume u: "update_checks P f d = Inr (d', n)" and "n \<le> 0"
  then have "rows_changed (P d) (on_update (stamp_check d) f) (checks d) = 0"
    using rows_changed_nonneg [of "P d" "on_update (stamp_check d) f" "checks d"]
    by (simp add: update_checks_def)
  from sql_update_zero [OF this] u show "d' = d" by (auto simp: update_checks_def)
qed

lemma update_checks_positive:
  assumes "checks_unique ci d" and "update_checks P f d = Inr (d', n)" and "0 < n"
    and "\<And>d r. P d r \<Longrightarrow> chk_key ci r = k" and "\<And>r. chk_key ci (f r) = chk_key ci r"
  obtains r where "find (\<lambda>r. chk_key ci r = k) (checks d) = Some r" and "P d r"
    and "find (\<lambda>r. chk_key ci r = k) (checks d') = Some (stamp_check d (f r))"
proof -
  from assms(2,3) obtain r where r: "r \<in> set (checks d)" "P d r" "on_update (stamp_check d) f r \<noteq> r"
    by (auto simp: update_checks_def rows_changed_pos_iff)
  from r(1) assms(4) [OF r(2)] obtain q where q: "find (\<lambda>r. chk_key ci r = k) (checks d) = Some q"
    by (cases "find (\<lambda>r. chk_key ci r = k) (checks d)") (auto simp: find_None_iff)
  have rq: "r = q"
    using find_key_unique [of "chk_key ci", OF _ q r(1)] assms(1,4) r(2) by (simp add: checks_unique_def)
  have "on_update (stamp_check d) f q = stamp_check d (f q)"
    using r(3) rq by (auto simp: on_update_def Let_def split: if_splits)
  then have "find (\<lambda>r. chk_key ci r = k) (checks d') = Some (stamp_check d (f q))"
    using find_update_checks [OF assms(1,2,5), of k] q r(2) rq by simp
  with q r(2) rq show ?thesis by (intro that [of q]) simp_all
qed

text \<open>A guarded write of one row: reported as done exactly when the guard let it through.\<close>

lemma guarded_check_write:
  assumes "checks_unique ci d"
    and run: "run_state (State_Monad.bind (ExecContext (update_checks (\<lambda>d r. chk_key ci r = k \<and> Q d r) f)) (\<lambda>r. case r of
        Inl e \<Rightarrow> State_Monad.return (Inl e) | Inr rows \<Rightarrow> updated_or_lease_lost rows a)) (quiet d) = (res, w)"
    and keys: "\<And>r. chk_key ci (f r) = chk_key ci r"
  shows "res = Inr True \<Longrightarrow> \<exists>r. find (\<lambda>r. chk_key ci r = k) (checks d) = Some r \<and> Q d r \<and>
      find (\<lambda>r. chk_key ci r = k) (checks (w_db w)) = Some (stamp_check d (f r))"
    and "res \<noteq> Inr True \<Longrightarrow> w_db w = d" and "w = quiet (w_db w)"
proof -
  let ?P = "\<lambda>d r. chk_key ci r = k \<and> Q d r"
  obtain d' n where upd: "update_checks ?P f d = Inr (d', n)" by (simp add: update_checks_def)
  from run have w: "w = quiet d'" and res: "run_state (updated_or_lease_lost n a) (quiet d') = (res, quiet d')"
    by (auto simp: upd updated_or_lease_lost_quiet)
  show "\<exists>r. find (\<lambda>r. chk_key ci r = k) (checks d) = Some r \<and> Q d r \<and>
      find (\<lambda>r. chk_key ci r = k) (checks (w_db w)) = Some (stamp_check d (f r))" if "res = Inr True"
  proof -
    from res that have "0 < n" by (auto simp: updated_or_lease_lost_quiet split: if_splits)
    from update_checks_positive [OF assms(1) upd this conjunct1 keys] obtain r where
      "find (\<lambda>r. chk_key ci r = k) (checks d) = Some r" "?P d r"
      "find (\<lambda>r. chk_key ci r = k) (checks d') = Some (stamp_check d (f r))" .
    then show ?thesis by (simp add: w)
  qed
  show "w_db w = d" if "res \<noteq> Inr True"
  proof (cases "0 < n")
    case True
    with res that show ?thesis by (simp add: updated_or_lease_lost_quiet)
  next
    case False
    with update_checks_zero [OF upd] show ?thesis by (simp add: w)
  qed
  show "w = quiet (w_db w)" by (simp add: w)
qed

lemma rollback_write:
  assumes "checks_unique ci d" and "run_state (MarkActionRequiredForApply ci check a) (quiet d) = (res, w)"
  shows "res = Inr True \<Longrightarrow> \<exists>r. find (\<lambda>r. chk_key ci r = chk_key ci check) (checks d) = Some r \<and>
      (chk_ApplyID r = 0 \<or> chk_ApplyID r \<le> apply_ID a) \<and> \<not> newer_apply ci (apply_ID a) d r \<and>
      find (\<lambda>r. chk_key ci r = chk_key ci check) (checks (w_db w)) =
        Some (stamp_check d (set_owned_result check 0 r))"
    and "res \<noteq> Inr True \<Longrightarrow> w_db w = d"
proof -
  note wr = guarded_check_write [OF assms(1) assms(2) [unfolded MarkActionRequiredForApply_def]
      chk_key_writes(2)]
  show "res \<noteq> Inr True \<Longrightarrow> w_db w = d" by (rule wr(2))
  show "res = Inr True \<Longrightarrow> \<exists>r. find (\<lambda>r. chk_key ci r = chk_key ci check) (checks d) = Some r \<and>
      (chk_ApplyID r = 0 \<or> chk_ApplyID r \<le> apply_ID a) \<and> \<not> newer_apply ci (apply_ID a) d r \<and>
      find (\<lambda>r. chk_key ci r = chk_key ci check) (checks (w_db w)) =
        Some (stamp_check d (set_owned_result check 0 r))"
    using wr(1) by blast
qed

lemma complete_write:
  assumes "checks_unique ci d" and "run_state (CompleteForApply ci check a) (quiet d) = (res, w)"
  shows "res = Inr True \<Longrightarrow> \<exists>r. find (\<lambda>r. chk_key ci r = chk_key ci check) (checks d) = Some r \<and>
      apply_in_progress r \<and> chk_ApplyID r = apply_ID a \<and> \<not> newer_apply ci (apply_ID a) d r \<and>
      (ApplyLease_Valid (Apply_Lease a) \<longrightarrow> lease_current (Apply_Lease a) d) \<and>
      find (\<lambda>r. chk_key ci r = chk_key ci check) (checks (w_db w)) =
        Some (stamp_check d (set_owned_result check (apply_ID a) r))"
    and "res \<noteq> Inr True \<Longrightarrow> w_db w = d"
proof -
  note wr = guarded_check_write [OF assms(1) assms(2) [unfolded CompleteForApply_def] chk_key_writes(2)]
  show "res \<noteq> Inr True \<Longrightarrow> w_db w = d" by (rule wr(2))
  show "res = Inr True \<Longrightarrow> \<exists>r. find (\<lambda>r. chk_key ci r = chk_key ci check) (checks d) = Some r \<and>
      apply_in_progress r \<and> chk_ApplyID r = apply_ID a \<and> \<not> newer_apply ci (apply_ID a) d r \<and>
      (ApplyLease_Valid (Apply_Lease a) \<longrightarrow> lease_current (Apply_Lease a) d) \<and>
      find (\<lambda>r. chk_key ci r = chk_key ci check) (checks (w_db w)) =
        Some (stamp_check d (set_owned_result check (apply_ID a) r))"
    unfolding apply_in_progress_def using wr(1) unfolding lease_predicate_def by metis
qed

text \<open>
  Property C36 (only the owner completes a check).  Completing a check for an apply reports success
  only when the stored row was in progress and owned by that apply, no newer apply of the same
  target existed and the apply's lease was current; the row then holds the new result and keeps the
  owner.  In every other case nothing is written.
\<close>

theorem complete_only_owned:
  assumes "checks_unique ci d" and "run_state (CompleteForApply ci check a) (quiet d) = (res, w)"
  shows "(res = Inr True \<longrightarrow> (\<exists>r. find (\<lambda>r. chk_key ci r = chk_key ci check) (checks d) = Some r \<and>
        apply_in_progress r \<and> chk_ApplyID r = apply_ID a \<and> \<not> newer_apply ci (apply_ID a) d r \<and>
        (ApplyLease_Valid (Apply_Lease a) \<longrightarrow> lease_current (Apply_Lease a) d) \<and>
        find (\<lambda>r. chk_key ci r = chk_key ci check) (checks (w_db w)) =
          Some (stamp_check d (set_owned_result check (apply_ID a) r)))) \<and>
    (res \<noteq> Inr True \<longrightarrow> w_db w = d)"
  using complete_write [OF assms] by blast

theorem complete_only_owned_witness:
  "w_db (snd (run_state (CompleteForApply ToLower (example_check ''sha2'' ''completed'' ''success'' 0) (check_apply 8 ''completed''))
     (quiet (empty_db\<lparr>checks := [example_check ''sha1'' ''in_progress'' '''' 9]\<rparr>)))) =
   empty_db\<lparr>checks := [example_check ''sha1'' ''in_progress'' '''' 9]\<rparr>"
proof -
  let ?d = "empty_db\<lparr>checks := [example_check ''sha1'' ''in_progress'' '''' 9]\<rparr>"
  let ?run = "run_state (CompleteForApply ToLower (example_check ''sha2'' ''completed'' ''success'' 0)
    (check_apply 8 ''completed'')) (quiet ?d)"
  have res: "fst ?run = Inr False" by code_simp
  have "checks_unique ToLower ?d" by (simp add: checks_unique_def)
  from complete_only_owned [OF this prod.collapse [symmetric], THEN conjunct2, THEN mp] res show ?thesis by simp
qed

text \<open>
  Further fact (cleanup never passes a started apply).  Marking a plan-only row successful because its
  database left the pull request answers true exactly when no apply has started on the row, and the
  row is then plan-only successful; a row with a started apply is left as it is.
\<close>

theorem stale_cleanup_fail_closed:
  assumes "checks_unique ci d" and "find (\<lambda>r. chk_key ci r = chk_key ci check) (checks d) = Some r"
    and "successfulNoOpPlanResult (Some check)"
  shows "\<exists>d' q. run_state (MarkStalePlanSuccessful ci check) (quiet d) =
      (Inr (chk_Status r \<noteq> checkStatusInProgress \<and> chk_ApplyID r = 0), quiet d') \<and>
    find (\<lambda>r. chk_key ci r = chk_key ci check) (checks d') = Some q \<and>
    (if chk_Status r \<noteq> checkStatusInProgress \<and> chk_ApplyID r = 0 then isPlanOnlySuccessful q else d' = d \<and> q = r)"
proof -
  let ?P = "\<lambda>d r. chk_key ci r = chk_key ci check \<and> chk_Status r \<noteq> checkStatusInProgress \<and> chk_ApplyID r = 0"
  let ?f = "set_owned_result check 0"
  let ?q = "if ?P d r then on_update (stamp_check d) ?f r else r"
  obtain d' n where upd: "update_checks ?P ?f d = Inr (d', n)" by (simp add: update_checks_def)
  have key: "chk_key ci r = chk_key ci check" using find_SomeD [OF assms(2)] by simp
  have look: "find (\<lambda>r. chk_key ci r = chk_key ci check) (checks d') = Some ?q"
    using find_update_checks [OF assms(1) upd chk_key_writes(2), of "chk_key ci check"] assms(2) by simp
  have done': "isPlanOnlySuccessful (on_update (stamp_check d) ?f r)"
    using assms(3) by (auto simp: on_update_def Let_def isPlanOnlySuccessful_def successfulNoOpPlanResult_def
        set_owned_result_def set_result_def stamp_check_def dest: arg_cong [of _ _ isPlanOnlySuccessful])
  have get: "run_state (Check_Get ci (chk_Repository check) (chk_PullRequest check) (chk_Environment check)
      (chk_DatabaseType check) (chk_DatabaseName check)) (quiet d') = (Inr (Some ?q), quiet d')"
    using look unfolding chk_key_def [of ci check] by (simp add: Check_Get_def)
  show ?thesis
  proof (cases "0 < n")
    case True
    have match: "chk_key ci r = chk_key ci check" if "?P d r" for d r using that by (elim conjE)
    from update_checks_positive [OF assms(1) upd True match chk_key_writes(2)]
    obtain r' where "find (\<lambda>r. chk_key ci r = chk_key ci check) (checks d) = Some r'" "?P d r'" .
    with assms(2) have p: "?P d r" by simp
    with True have "run_state (MarkStalePlanSuccessful ci check) (quiet d) = (Inr True, quiet d')"
      by (simp add: MarkStalePlanSuccessful_def upd)
    with p look done' show ?thesis by (intro exI [of _ d'] exI [of _ ?q]) simp
  next
    case False
    with upd have same: "d' = d" by (auto dest: update_checks_zero)
    with look assms(2) have qr: "?q = r" by simp
    have "run_state (MarkStalePlanSuccessful ci check) (quiet d) = (Inr (isPlanOnlySuccessful r), quiet d')"
      using False get qr by (simp only: MarkStalePlanSuccessful_def run_state_bind run_alone upd prod.case sum.case
          if_False option.case run_state_return)
    moreover have "isPlanOnlySuccessful r = (chk_Status r \<noteq> checkStatusInProgress \<and> chk_ApplyID r = 0)"
    proof (cases "?P d r")
      case True
      with qr done' show ?thesis by simp
    next
      case False
      with key show ?thesis by (auto simp: isPlanOnlySuccessful_def)
    qed
    ultimately show ?thesis
      using look qr same assms(2) by (intro exI [of _ d'] exI [of _ r]) simp
  qed
qed


theorem stale_cleanup_fail_closed_witness:
  "\<exists>d' q. run_state (MarkStalePlanSuccessful ToLower (example_check ''sha2'' ''completed'' ''success'' 0))
      (quiet (empty_db\<lparr>checks := [example_check ''sha1'' ''completed'' ''failure'' 9]\<rparr>)) = (Inr False, quiet d') \<and>
    checks d' = [q] \<and> q = example_check ''sha1'' ''completed'' ''failure'' 9"
proof -
  let ?r = "example_check ''sha1'' ''completed'' ''failure'' 9"
  let ?c = "example_check ''sha2'' ''completed'' ''success'' 0"
  have "find (\<lambda>r. chk_key ToLower r = chk_key ToLower ?c) (checks (empty_db\<lparr>checks := [?r]\<rparr>)) = Some ?r"
    "checks_unique ToLower (empty_db\<lparr>checks := [?r]\<rparr>)" "successfulNoOpPlanResult (Some ?c)"
    "chk_ApplyID ?r \<noteq> 0"
    by (simp_all add: checks_unique_def successfulNoOpPlanResult_def example_check_def chk_key_def)
  with stale_cleanup_fail_closed [of ToLower "empty_db\<lparr>checks := [?r]\<rparr>" ?c ?r] show ?thesis by auto
qed

text \<open>
  Further fact (upsert and look up).  After storing a check, looking it up by pull request,
  environment and database finds a row with exactly the stored commit, check run, owner, status,
  conclusion and reason; other rows are not affected, and keys stay unique.
\<close>

theorem upsert_then_get:
  assumes "checks_unique ci d"
  shows "\<exists>d' r. run_state (Check_Upsert ci check) (quiet d) = (Inr (), quiet d') \<and>
    run_state (Check_Get ci (chk_Repository check) (chk_PullRequest check) (chk_Environment check)
      (chk_DatabaseType check) (chk_DatabaseName check)) (quiet d') = (Inr (Some r), quiet d') \<and>
    (chk_HeadSHA r, chk_CheckRunID r, chk_ApplyID r, chk_HasChanges r, chk_Status r, chk_Conclusion r,
     chk_BlockingReason r, chk_ErrorMessage r) =
    (chk_HeadSHA check, chk_CheckRunID check, chk_ApplyID check, chk_HasChanges check, chk_Status check,
     chk_Conclusion check, chk_BlockingReason check, chk_ErrorMessage check) \<and>
    filter (\<lambda>r. chk_key ci r \<noteq> chk_key ci check) (checks d') =
      filter (\<lambda>r. chk_key ci r \<noteq> chk_key ci check) (checks d) \<and> checks_unique ci d'"
proof -
  let ?key = "\<lambda>r. chk_key ci r = chk_key ci check"
  let ?f = "set_owned_result check (chk_ApplyID check)"
  define fields where "fields r = (chk_HeadSHA r, chk_CheckRunID r, chk_ApplyID r, chk_HasChanges r, chk_Status r,
     chk_Conclusion r, chk_BlockingReason r, chk_ErrorMessage r)" for r :: Check
  obtain d' n where stm: "upsert_check ci check d = Inr (d', n)"
    by (cases "list_ex ?key (checks d)") (simp_all add: upsert_check_def update_checks_def insert_check_def)
  have run: "run_state (Check_Upsert ci check) (quiet d) = (Inr (), quiet d')"
    unfolding Check_Upsert_def by (rule run_retry_first) (simp_all add: stm)
  have "\<exists>r. find ?key (checks d') = Some r \<and> fields r = fields check \<and>
    filter (\<lambda>r. \<not> ?key r) (checks d') = filter (\<lambda>r. \<not> ?key r) (checks d) \<and> checks_unique ci d'"
  proof (cases "list_ex ?key (checks d)")
    case True
    with stm have upd: "update_checks (\<lambda>d r. ?key r) ?f d = Inr (d', n)" by (simp add: upsert_check_def)
    from True obtain r where r: "find ?key (checks d) = Some r"
      by (cases "find ?key (checks d)") (auto simp: find_None_iff list_ex_iff)
    have "fields (?f r) = fields check"
      by (simp add: fields_def set_owned_result_def set_result_def)
    then have "fields (on_update (stamp_check d) ?f r) = fields check"
      by (auto simp: on_update_def Let_def fields_def stamp_check_def)
    moreover have "filter (\<lambda>r. \<not> ?key r) (sql_update ?key g rs) = filter (\<lambda>r. \<not> ?key r) rs"
      if "\<And>r. chk_key ci (g r) = chk_key ci r" for g rs
      using that by (induction rs) (auto simp: sql_update_def)
    then have "filter (\<lambda>r. \<not> ?key r) (checks d') = filter (\<lambda>r. \<not> ?key r) (checks d)"
      using upd by (auto simp: update_checks_def chk_key_on_update)
    moreover have "find ?key (checks d') = Some (on_update (stamp_check d) ?f r)"
      using find_update_checks [OF assms upd chk_key_writes(2), of "chk_key ci check"] r find_SomeD [OF r] by simp
    ultimately show ?thesis
      using update_checks_unique [OF upd chk_key_writes(2)] assms by simp
  next
    case False
    with stm have ins: "insert_check ci check d = Inr (d', n)" by (simp add: upsert_check_def)
    have "find ?key (checks d) = None" using False by (auto simp: find_None_iff list_ex_iff)
    with ins False show ?thesis
      using insert_check_unique [OF assms ins]
      by (auto simp: insert_check_def find_append_single fields_def)
  qed
  with run show ?thesis
    unfolding fields_def by (auto simp: Check_Get_def chk_key_def [of ci check, symmetric])
qed

theorem upsert_then_get_witness:
  "checks_unique ToLower empty_db \<and> (\<exists>d' r. run_state (Check_Upsert ToLower (example_check ''sha1'' ''completed'' ''failure'' 9))
      (quiet empty_db) = (Inr (), quiet d') \<and> checks_unique ToLower d')"
  using upsert_then_get [of ToLower empty_db "example_check ''sha1'' ''completed'' ''failure'' 9"]
  by (auto simp: checks_unique_def empty_db_def)

end
