(* ===== verification/Strconv.thy ===== *)
theory Strconv
  imports Storage_Types
begin

text \<open>
  Go's decimal conversions (\<^verbatim>\<open>strconv.Itoa\<close>, \<^verbatim>\<open>strconv.ParseInt\<close> in base 10) and the JSON text of a string, as the
  modelled code uses them.
\<close>

section \<open>Decimal numbers\<close>

definition digit :: "nat \<Rightarrow> char" where
  "digit n = char_of (48 + n)"

definition digit_value :: "char \<Rightarrow> nat" where
  "digit_value ch = of_char ch - 48"

definition is_digit :: "char \<Rightarrow> bool" where
  "is_digit ch \<longleftrightarrow> 48 \<le> (of_char ch :: nat) \<and> (of_char ch :: nat) \<le> 57"

fun digits :: "nat \<Rightarrow> string" where
  "digits n = (if n < 10 then [digit n] else digits (n div 10) @ [digit (n mod 10)])"

declare digits.simps [simp del]

definition Itoa :: "int \<Rightarrow> string" where
  "Itoa i = (if i < 0 then CHR ''-'' # digits (nat (- i)) else digits (nat i))"

definition decimal_value :: "string \<Rightarrow> nat" where
  "decimal_value s = foldl (\<lambda>v ch. 10 * v + digit_value ch) 0 s"

text \<open>\<^verbatim>\<open>strconv.ParseInt(s, 10, bits)\<close>: a sign, then at least one digit, in the range of the width.\<close>

definition ParseInt :: "nat \<Rightarrow> string \<Rightarrow> err + int" where
  "ParseInt bits s =
    (let signed = (s \<noteq> [] \<and> (hd s = CHR ''-'' \<or> hd s = CHR ''+''));
         body = (if signed then tl s else s);
         v = (if signed \<and> hd s = CHR ''-'' then - int (decimal_value body) else int (decimal_value body)) in
     if body = [] \<or> \<not> list_all is_digit body then Inl (Errorf ''invalid syntax'')
     else if v < - (2 ^ (bits - 1)) \<or> 2 ^ (bits - 1) \<le> v then Inl (Errorf ''value out of range'')
     else Inr v)"

definition Atoi :: "string \<Rightarrow> err + int" where
  "Atoi s = ParseInt 64 s"

lemma digit_digit: "n < 10 \<Longrightarrow> is_digit (digit n) \<and> digit_value (digit n) = n"
  by (simp add: is_digit_def digit_def digit_value_def)

lemma digits_ok: "list_all is_digit (digits n) \<and> digits n \<noteq> [] \<and> decimal_value (digits n) = n"
proof (induction n rule: digits.induct)
  case (1 n)
  then show ?case
    by (subst (1 2 3) digits.simps) (auto simp: decimal_value_def digit_digit)
qed

lemma digits_length: "n < 10 ^ Suc k \<Longrightarrow> length (digits n) \<le> Suc k"
proof (induction k arbitrary: n)
  case 0
  then show ?case by (simp add: digits.simps [of n])
next
  case (Suc k)
  then have "n div 10 < 10 ^ Suc k" by (simp add: less_mult_imp_div_less)
  from Suc.IH [OF this] show ?case by (subst digits.simps) simp
qed

lemma is_digit_not_sign: "is_digit ch \<Longrightarrow> ch \<noteq> CHR ''-'' \<and> ch \<noteq> CHR ''+''"
  by (auto simp: is_digit_def)

theorem ParseInt_Itoa:
  assumes "- (2 ^ (bits - 1)) \<le> i" and "i < 2 ^ (bits - 1)"
  shows "ParseInt bits (Itoa i) = Inr i"
proof (cases "i < 0")
  case True
  then show ?thesis using assms digits_ok[of "nat (- i)"] by (simp add: ParseInt_def Itoa_def Let_def)
next
  case False
  obtain ch s where s: "digits (nat i) = ch # s" using digits_ok[of "nat i"] by (cases "digits (nat i)") auto
  with digits_ok[of "nat i"] have "ch \<noteq> CHR ''-''" "ch \<noteq> CHR ''+''" using is_digit_not_sign[of ch] by auto
  then show ?thesis using False assms digits_ok[of "nat i"] s by (auto simp: ParseInt_def Itoa_def Let_def)
qed

section \<open>JSON text of a string\<close>

definition hex_digit :: "nat \<Rightarrow> char" where
  "hex_digit n = (if n < 10 then char_of (48 + n) else char_of (87 + n))"

text \<open>\<^verbatim>\<open>encoding/json\<close> escapes quotes, backslashes, control characters and the HTML characters.\<close>

definition json_char :: "char \<Rightarrow> string" where
  "json_char ch =
    (if ch = CHR 0x22 then [CHR 0x5C, CHR 0x22]
     else if ch = CHR 0x5C then [CHR 0x5C, CHR 0x5C]
     else if ch = CHR 0x08 then [CHR 0x5C, CHR ''b'']
     else if ch = CHR 0x0C then [CHR 0x5C, CHR ''f'']
     else if ch = CHR 0x0A then [CHR 0x5C, CHR ''n'']
     else if ch = CHR 0x0D then [CHR 0x5C, CHR ''r'']
     else if ch = CHR 0x09 then [CHR 0x5C, CHR ''t'']
     else if (of_char ch :: nat) < 32 \<or> ch = CHR ''<'' \<or> ch = CHR ''>'' \<or> ch = CHR ''&''
     then [CHR 0x5C, CHR ''u'', CHR ''0'', CHR ''0'', hex_digit (of_char ch div 16), hex_digit (of_char ch mod 16)]
     else [ch])"

definition json_string :: "string \<Rightarrow> string" where
  "json_string s = [CHR 0x22] @ concat (map json_char s) @ [CHR 0x22]"

end
