(* ===== verification/Server_Config.thy ===== *)
theory Server_Config
  imports Storage_Types "HOL-Library.Char_ord" "HOL-Library.List_Lexorder"
begin

text \<open>
  The server configuration (\<^verbatim>\<open>pkg/api/config.go\<close>, \<^verbatim>\<open>actor_authorization.go\<close>): the fields and the
  methods that the apply gates and the routing of rollouts read, with the validation of an
  environment's routing.  A Go map is an association list without duplicate keys; where the code
  ranges over a map the model takes the list's order, and no result depends on it.  A nil
  configuration is \<open>None\<close>; an optional bool is an option.  Strings are ordered bytewise.
\<close>

section \<open>Configuration data\<close>

record DSNFromConfig =
  dsn_ConfigRef :: string
  dsn_Host :: string
  dsn_Port :: string
  dsn_Database :: string
  dsn_Username :: string
  dsn_PasswordRef :: string

text \<open>\<open>env_Deployments\<close> maps deployments to targets; \<open>None\<close> is a map that was not configured at all.\<close>

record EnvironmentConfig =
  env_DSN :: string
  env_DSNFrom :: "DSNFromConfig option"
  env_Target :: string
  env_Deployment :: string
  env_Deployments :: "(string \<times> string) list option"
  env_DeploymentOrder :: "string list"
  env_CutoverPolicy :: string
  env_OnFailure :: string

record DatabaseConfig =
  dbc_Type :: string
  dbc_AllowedRepos :: "string list"
  dbc_AllowedDirs :: "string list"
  dbc_Environments :: "(string \<times> EnvironmentConfig) list"
  dbc_OperatorTeams :: "string list"
  dbc_OperatorUsers :: "string list"

record ExpectedTenant =
  et_Tenant :: string
  et_Paths :: "string list"
  et_CheckName :: string

record AggregateConfig =
  agg_Role :: string
  agg_ExpectedTenants :: "ExpectedTenant list"

text \<open>\<open>gh_Configured\<close> is whether the app's id and private key resolve to secrets that exist.\<close>

record GitHubConfig =
  gh_Configured :: bool
  gh_CheckName :: string
  gh_TrustedCheckAppSlugs :: "string list"

record RepoConfig =
  repo_EnableChecks :: "bool option"
  repo_RequireUpToDateWithBase :: bool
  repo_GitHubApp :: string
  repo_Aggregate :: "AggregateConfig option"
  repo_AdminTeams :: "string list"
  repo_AdminUsers :: "string list"

record PRCommandAuthorizationConfig =
  auth_Enabled :: bool
  auth_AdminTeams :: "string list"
  auth_AdminUsers :: "string list"

record ReviewPolicyConfig =
  review_Enabled :: bool
  review_AdminTeams :: "string list"
  review_AdminUsers :: "string list"
  review_IncludeDatabaseOperators :: "bool option"
  review_IncludeCodeowners :: bool

record ServerConfig =
  TernDeployments :: "(string \<times> (string \<times> string) list) list"
  Databases :: "(string \<times> DatabaseConfig) list"
  Repos :: "(string \<times> RepoConfig) list"
  PRCommandAuthorization :: PRCommandAuthorizationConfig
  ReviewPolicy :: ReviewPolicyConfig
  GitHub :: GitHubConfig
  Apps :: "(string \<times> GitHubConfig) list"
  AllowedEnvironments :: "string list"
  EnvironmentOrder :: "string list"
  Tenant :: string
  RequirePassingChecks :: "bool option"
  RequiredChecks :: "string list"
  RespondToUnscoped :: "bool option"
  OperatorClaimOperations :: "bool option"

section \<open>Lookups\<close>

definition Database :: "ServerConfig \<Rightarrow> string \<Rightarrow> DatabaseConfig option" where
  "Database c name = map_of (Databases c) name"

definition DatabaseEnvironment :: "ServerConfig \<Rightarrow> string \<Rightarrow> string \<Rightarrow> EnvironmentConfig option" where
  "DatabaseEnvironment c database environment =
    (case Database c database of
       None \<Rightarrow> None
     | Some dbc \<Rightarrow> map_of (dbc_Environments dbc) environment)"

definition CutoverPolicyFor :: "ServerConfig \<Rightarrow> string \<Rightarrow> string \<Rightarrow> string" where
  "CutoverPolicyFor c database environment =
    (case DatabaseEnvironment c database environment of
       None \<Rightarrow> CutoverPolicyRolling
     | Some env \<Rightarrow> if env_CutoverPolicy env = '''' then CutoverPolicyRolling else env_CutoverPolicy env)"

definition OnFailure :: "ServerConfig \<Rightarrow> string \<Rightarrow> string \<Rightarrow> string" where
  "OnFailure c database environment =
    (case DatabaseEnvironment c database environment of
       None \<Rightarrow> OnFailureHalt
     | Some env \<Rightarrow> if env_OnFailure env = '''' then OnFailureHalt else env_OnFailure env)"

definition RepoAdmins :: "ServerConfig \<Rightarrow> string \<Rightarrow> string list \<times> string list" where
  "RepoAdmins c repo =
    (case map_of (Repos c) repo of
       None \<Rightarrow> ([], [])
     | Some rc \<Rightarrow> (repo_AdminTeams rc, repo_AdminUsers rc))"

definition IsRepoAllowed :: "ServerConfig option \<Rightarrow> string \<Rightarrow> bool" where
  "IsRepoAllowed config repo =
    (case config of
       None \<Rightarrow> True
     | Some c \<Rightarrow> if Repos c = [] then True else map_of (Repos c) repo \<noteq> None)"

definition AreChecksEnabled :: "ServerConfig option \<Rightarrow> string \<Rightarrow> bool" where
  "AreChecksEnabled config repo =
    (case config of
       None \<Rightarrow> True
     | Some c \<Rightarrow>
         if Repos c = [] then True
         else (case map_of (Repos c) repo of
                 None \<Rightarrow> True
               | Some rc \<Rightarrow> (case repo_EnableChecks rc of None \<Rightarrow> True | Some b \<Rightarrow> b)))"

definition RequiresUpToDateWithBase :: "ServerConfig option \<Rightarrow> string \<Rightarrow> bool" where
  "RequiresUpToDateWithBase config repo =
    (case config of
       None \<Rightarrow> False
     | Some c \<Rightarrow> (case map_of (Repos c) repo of None \<Rightarrow> False | Some rc \<Rightarrow> repo_RequireUpToDateWithBase rc))"

text \<open>An optional setting that defaults to true, also without a configuration.\<close>

definition default_true :: "(ServerConfig \<Rightarrow> bool option) \<Rightarrow> ServerConfig option \<Rightarrow> bool" where
  "default_true field config =
    (case config of None \<Rightarrow> True | Some c \<Rightarrow> (case field c of None \<Rightarrow> True | Some b \<Rightarrow> b))"

definition ShouldRespondToUnscoped :: "ServerConfig option \<Rightarrow> bool" where
  "ShouldRespondToUnscoped = default_true RespondToUnscoped"

definition ShouldRequirePassingChecks :: "ServerConfig option \<Rightarrow> bool" where
  "ShouldRequirePassingChecks = default_true RequirePassingChecks"

definition ShouldClaimOperations :: "ServerConfig option \<Rightarrow> bool" where
  "ShouldClaimOperations = default_true OperatorClaimOperations"

definition ReviewPolicyIncludesDatabaseOperators :: "ServerConfig option \<Rightarrow> bool" where
  "ReviewPolicyIncludesDatabaseOperators = default_true (\<lambda>c. review_IncludeDatabaseOperators (ReviewPolicy c))"

definition PRCommandAuthorizationEnabled :: "ServerConfig option \<Rightarrow> bool" where
  "PRCommandAuthorizationEnabled config =
    (case config of None \<Rightarrow> False | Some c \<Rightarrow> auth_Enabled (PRCommandAuthorization c))"

definition ReviewPolicyEnabled :: "ServerConfig option \<Rightarrow> bool" where
  "ReviewPolicyEnabled config = (case config of None \<Rightarrow> False | Some c \<Rightarrow> review_Enabled (ReviewPolicy c))"

definition IsCheckRequired :: "ServerConfig option \<Rightarrow> string \<Rightarrow> bool" where
  "IsCheckRequired config name =
    (case config of
       None \<Rightarrow> True
     | Some c \<Rightarrow> if RequiredChecks c = [] then True else name \<in> set (RequiredChecks c))"

definition ShouldRespondToTenant :: "ServerConfig option \<Rightarrow> string \<Rightarrow> bool" where
  "ShouldRespondToTenant config tenant =
    (if tenant = '''' then True else (case config of None \<Rightarrow> False | Some c \<Rightarrow> Tenant c = tenant))"


section \<open>Environments\<close>

definition IsEnvironmentAllowed :: "ServerConfig option \<Rightarrow> string \<Rightarrow> bool" where
  "IsEnvironmentAllowed config env =
    (case config of
       None \<Rightarrow> True
     | Some c \<Rightarrow> if AllowedEnvironments c = [] then True else env \<in> set (AllowedEnvironments c))"

definition defaultEnvironmentOrder :: "string list" where
  "defaultEnvironmentOrder = [''staging'', ''production'']"

definition PromotionEnvironmentOrder :: "ServerConfig option \<Rightarrow> string list" where
  "PromotionEnvironmentOrder config =
    (case config of
       None \<Rightarrow> defaultEnvironmentOrder
     | Some c \<Rightarrow> if EnvironmentOrder c = [] then defaultEnvironmentOrder else EnvironmentOrder c)"

text \<open>The loop over the promotion order: what it appends, and what is left of the enabled set.\<close>

fun take_ordered :: "string list \<Rightarrow> string set \<Rightarrow> string list \<times> string set" where
  "take_ordered [] enabledSet = ([], enabledSet)"
| "take_ordered (env # order) enabledSet =
    (if env \<in> enabledSet
     then (case take_ordered order (enabledSet - {env}) of (ordered, rest) \<Rightarrow> (env # ordered, rest))
     else take_ordered order enabledSet)"

definition OrderedEnvironments :: "ServerConfig option \<Rightarrow> string list \<Rightarrow> string list" where
  "OrderedEnvironments config enabled =
    (case take_ordered (PromotionEnvironmentOrder config) (set (filter (\<lambda>env. env \<noteq> '''') enabled)) of
       (ordered, remaining) \<Rightarrow> ordered @ sorted_list_of_set remaining)"

definition KnownEnvironments :: "ServerConfig option \<Rightarrow> string list" where
  "KnownEnvironments config =
    (case config of
       None \<Rightarrow> []
     | Some c \<Rightarrow> sorted_list_of_set (set (filter (\<lambda>env. env \<noteq> '''')
         (AllowedEnvironments c @ PromotionEnvironmentOrder config @
          concat (map (\<lambda>(name, dbc). map fst (dbc_Environments dbc)) (Databases c))))))"

definition IsEnvironmentKnown :: "ServerConfig option \<Rightarrow> string \<Rightarrow> bool" where
  "IsEnvironmentKnown config env =
    (case config of
       None \<Rightarrow> False
     | Some c \<Rightarrow>
         if env = '''' then False
         else
           let order = (if EnvironmentOrder c = [] then defaultEnvironmentOrder else EnvironmentOrder c) in
           if env \<in> set (AllowedEnvironments c) \<or> env \<in> set order then True
           else list_ex (\<lambda>(name, dbc). map_of (dbc_Environments dbc) env \<noteq> None) (Databases c))"

definition DatabaseEnvironments :: "ServerConfig option \<Rightarrow> string \<Rightarrow> err + string list" where
  "DatabaseEnvironments config database =
    (case config of
       None \<Rightarrow> Inl (Errorf ''server config is nil'')
     | Some c \<Rightarrow>
         (case Database c database of
            None \<Rightarrow> Inl (Errorf ''database is not configured on this server'')
          | Some dbc \<Rightarrow> Inr (OrderedEnvironments config (map fst (dbc_Environments dbc)))))"

section \<open>Names and principals\<close>

text \<open>\<^verbatim>\<open>strings.TrimSpace\<close> on ASCII text.\<close>

definition is_space :: "char \<Rightarrow> bool" where
  "is_space ch \<longleftrightarrow> ch \<in> {CHR '' '', CHR 0x09, CHR 0x0A, CHR 0x0B, CHR 0x0C, CHR 0x0D}"

definition TrimSpace :: "string \<Rightarrow> string" where
  "TrimSpace s = rev (dropWhile is_space (rev (dropWhile is_space s)))"

text \<open>\<^verbatim>\<open>strings.Split(s, sep)\<close> for a separator of one byte.\<close>

fun Split :: "char \<Rightarrow> string \<Rightarrow> string list" where
  "Split sep [] = [[]]"
| "Split sep (ch # s) =
    (if ch = sep then [] # Split sep s
     else (case Split sep s of [] \<Rightarrow> [[ch]] | part # parts \<Rightarrow> (ch # part) # parts))"

text \<open>Walk a list with the keys seen so far; the first error wins.\<close>

fun validate_unique :: "('a \<Rightarrow> err option) \<Rightarrow> ('a \<Rightarrow> string) \<Rightarrow> err \<Rightarrow> string set \<Rightarrow> 'a list \<Rightarrow> err option" where
  "validate_unique check key dup seen [] = None"
| "validate_unique check key dup seen (x # xs) =
    (case check x of
       Some e \<Rightarrow> Some e
     | None \<Rightarrow> if key x \<in> seen then Some dup else validate_unique check key dup (insert (key x) seen) xs)"

definition validateUniqueNames :: "string list \<Rightarrow> err option" where
  "validateUniqueNames names = validate_unique
    (\<lambda>name. if name = '''' then Some (Errorf ''contains an empty value'')
            else if TrimSpace name \<noteq> name then Some (Errorf ''contains value with leading or trailing whitespace'')
            else None)
    (\<lambda>name. name) (Errorf ''contains duplicate value'') {} names"

definition ParseGitHubTeamPrincipal :: "string \<Rightarrow> err + string \<times> string" where
  "ParseGitHubTeamPrincipal v =
    (if TrimSpace v \<noteq> v then Inl (Errorf ''value has leading or trailing whitespace'')
     else
       (case Split (CHR ''/'') v of
          [org, slug] \<Rightarrow>
            if org = '''' \<or> slug = '''' then Inl (Errorf ''value must be in org/team-slug form'')
            else Inr (org, slug)
        | _ \<Rightarrow> Inl (Errorf ''value must be in org/team-slug form'')))"

definition validateGitHubTeamPrincipals :: "string list \<Rightarrow> err option" where
  "validateGitHubTeamPrincipals teams = validate_unique
    (\<lambda>team. case ParseGitHubTeamPrincipal team of Inl e \<Rightarrow> Some (Wrapped ''contains invalid team'' e) | Inr _ \<Rightarrow> None)
    ToLower (Errorf ''contains duplicate value'') {} teams"

definition validateGitHubUsers :: "string list \<Rightarrow> err option" where
  "validateGitHubUsers users = validate_unique
    (\<lambda>user. if TrimSpace user = '''' then Some (Errorf ''contains an empty value'')
            else if TrimSpace user \<noteq> user then Some (Errorf ''contains value with leading or trailing whitespace'')
            else if CHR ''/'' \<in> set user then Some (Errorf ''contains invalid user: users must not contain /'')
            else None)
    ToLower (Errorf ''contains duplicate value'') {} users"

text \<open>The principals a rejection comment lists, in the order the authorizer consults them.\<close>

fun add_principals :: "string set \<Rightarrow> string list \<Rightarrow> string list" where
  "add_principals seen [] = []"
| "add_principals seen (item # items) =
    (let display = TrimPrefix (TrimSpace item) ''@'' in
     if display = '''' \<or> ToLower display \<in> seen then add_principals seen items
     else display # add_principals (insert (ToLower display) seen) items)"

definition PRCommandAuthorizedPrincipals :: "ServerConfig option \<Rightarrow> string \<Rightarrow> string \<Rightarrow> string list" where
  "PRCommandAuthorizedPrincipals config repo database =
    (case config of
       None \<Rightarrow> []
     | Some c \<Rightarrow> add_principals {}
         (auth_AdminTeams (PRCommandAuthorization c) @ auth_AdminUsers (PRCommandAuthorization c) @
          fst (RepoAdmins c repo) @ snd (RepoAdmins c repo) @
          (case map_of (Databases c) database of
             None \<Rightarrow> []
           | Some dbc \<Rightarrow> dbc_OperatorTeams dbc @ dbc_OperatorUsers dbc)))"


section \<open>Routing\<close>

record ExecutionTarget =
  DatabaseType :: string
  Deployment :: string
  Target :: string

definition HasLocalDSN :: "EnvironmentConfig \<Rightarrow> bool" where
  "HasLocalDSN env \<longleftrightarrow> env_DSN env \<noteq> '''' \<or> env_DSNFrom env \<noteq> None"

definition configPaths :: "DSNFromConfig \<Rightarrow> DSNFromConfig" where
  "configPaths c = c\<lparr>dsn_Host := (if dsn_Host c = '''' then ''host'' else dsn_Host c),
     dsn_Port := (if dsn_Port c = '''' then ''port'' else dsn_Port c),
     dsn_Database := (if dsn_Database c = '''' then ''database'' else dsn_Database c)\<rparr>"

definition DSNFrom_Validate :: "DSNFromConfig \<Rightarrow> err option" where
  "DSNFrom_Validate c =
    (let paths = configPaths c in
     if dsn_ConfigRef c = '''' then Some (Errorf ''dsn_from missing config_ref'')
     else if dsn_Host paths = '''' then Some (Errorf ''dsn_from missing config_paths.host'')
     else if dsn_Database paths = '''' then Some (Errorf ''dsn_from missing config_paths.database'')
     else if dsn_Username c = '''' then Some (Errorf ''dsn_from missing username'')
     else if dsn_PasswordRef c = '''' then Some (Errorf ''dsn_from missing password_ref'')
     else None)"

definition validateLocalDSNConfig :: "EnvironmentConfig \<Rightarrow> err option" where
  "validateLocalDSNConfig env =
    (case env_DSNFrom env of
       None \<Rightarrow> None
     | Some from \<Rightarrow>
         if env_DSN env \<noteq> '''' then Some (Errorf ''cannot configure both dsn and dsn_from'')
         else DSNFrom_Validate from)"

fun validate_order_entries :: "(string \<times> string) list \<Rightarrow> string set \<Rightarrow> string list \<Rightarrow> err + string set" where
  "validate_order_entries deployments seen [] = Inr seen"
| "validate_order_entries deployments seen (deployment # order) =
    (if deployment = '''' then Inl (Errorf ''deployment_order has an empty entry'')
     else if deployment \<in> seen then Inl (Errorf ''deployment_order has duplicate entry'')
     else if map_of deployments deployment = None then Inl (Errorf ''deployment_order references unknown deployment'')
     else validate_order_entries deployments (insert deployment seen) order)"

definition validateDeploymentOrder :: "(string \<times> string) list \<Rightarrow> string list \<Rightarrow> err option" where
  "validateDeploymentOrder deployments order =
    (if '''' \<in> fst ` set deployments then Some (Errorf ''has a deployments map entry with an empty key'')
     else
       (case validate_order_entries deployments {} order of
          Inl e \<Rightarrow> Some e
        | Inr seen \<Rightarrow>
            if \<not> fst ` set deployments \<subseteq> seen then Some (Errorf ''deployment_order is missing deployment'')
            else None))"

definition orderedDeploymentKeys :: "(string \<times> string) list \<Rightarrow> string list \<Rightarrow> err + string list" where
  "orderedDeploymentKeys deployments order =
    (if '''' \<in> fst ` set deployments then Inl (Errorf ''has a deployments map entry with an empty key'')
     else if order = [] then Inr (sort (map fst deployments))
     else (case validateDeploymentOrder deployments order of Some e \<Rightarrow> Inl e | None \<Rightarrow> Inr order))"

fun resolve_deployments :: "string \<Rightarrow> (string \<times> string) list \<Rightarrow> string list \<Rightarrow> err + ExecutionTarget list" where
  "resolve_deployments dbType deployments [] = Inr []"
| "resolve_deployments dbType deployments (deployment # keys) =
    (case map_of deployments deployment of
       Some tgt \<Rightarrow>
         if tgt = '''' then Inl (Errorf ''deployment missing target'')
         else (case resolve_deployments dbType deployments keys of
                 Inl e \<Rightarrow> Inl e
               | Inr out \<Rightarrow> Inr (\<lparr>DatabaseType = dbType, Deployment = deployment, Target = tgt\<rparr> # out))
     | None \<Rightarrow> Inl (Errorf ''deployment missing target''))"

definition ResolveDatabaseTargets :: "ServerConfig option \<Rightarrow> string \<Rightarrow> string \<Rightarrow> err + ExecutionTarget list" where
  "ResolveDatabaseTargets config database environment =
    (case config of
       None \<Rightarrow> Inl (Errorf ''server config is nil'')
     | Some c \<Rightarrow>
       (case Database c database of
          None \<Rightarrow> Inl (Errorf ''database is not configured on this server'')
        | Some dbc \<Rightarrow>
          (case map_of (dbc_Environments dbc) environment of
             None \<Rightarrow> Inl (Errorf ''environment is not configured on this server'')
           | Some env \<Rightarrow>
             if HasLocalDSN env
             then Inr [\<lparr>DatabaseType = dbc_Type dbc, Deployment = database, Target = database\<rparr>]
             else
               (case env_Deployments env of
                  Some deployments \<Rightarrow>
                    if deployments = [] then Inl (Errorf ''deployments map is empty'')
                    else
                      (case orderedDeploymentKeys deployments (env_DeploymentOrder env) of
                         Inl e \<Rightarrow> Inl e
                       | Inr keys \<Rightarrow> resolve_deployments (dbc_Type dbc) deployments keys)
                | None \<Rightarrow>
                    if env_Target env = '''' then Inl (Errorf ''missing server-side target'')
                    else if env_Deployment env = '''' then Inl (Errorf ''missing server-side deployment'')
                    else Inr [\<lparr>DatabaseType = dbc_Type dbc, Deployment = env_Deployment env,
                               Target = env_Target env\<rparr>]))))"

definition ResolveDatabaseTarget :: "ServerConfig option \<Rightarrow> string \<Rightarrow> string \<Rightarrow> err + ExecutionTarget" where
  "ResolveDatabaseTarget config database environment =
    (case ResolveDatabaseTargets config database environment of
       Inl e \<Rightarrow> Inl e
     | Inr [target] \<Rightarrow> Inr target
     | Inr _ \<Rightarrow> Inl (Errorf ''resolves to several deployments; use ResolveDatabaseTargets''))"

definition ResolvePrimaryDatabaseTarget :: "ServerConfig option \<Rightarrow> string \<Rightarrow> string \<Rightarrow> err + ExecutionTarget" where
  "ResolvePrimaryDatabaseTarget config database environment =
    (case ResolveDatabaseTargets config database environment of
       Inl e \<Rightarrow> Inl e
     | Inr [] \<Rightarrow> Inl (Errorf ''resolved no deployments'')
     | Inr (target # _) \<Rightarrow> Inr target)"

text \<open>
  \<^verbatim>\<open>Validate\<close> for one environment of a database, after its revert window: the policies, the choice of one
  kind of routing, and the remote deployments it names.
\<close>

definition validate_endpoint :: "ServerConfig \<Rightarrow> string \<Rightarrow> string \<Rightarrow> err option" where
  "validate_endpoint c env deployment =
    (case map_of (TernDeployments c) deployment of
       None \<Rightarrow> Some (Errorf ''references unknown deployment'')
     | Some endpoints \<Rightarrow>
         (case map_of endpoints env of
            None \<Rightarrow> Some (Errorf ''deployment has no endpoint'')
          | Some endpoint \<Rightarrow> if endpoint = '''' then Some (Errorf ''deployment has no endpoint'') else None))"

fun validate_deployments :: "ServerConfig \<Rightarrow> string \<Rightarrow> (string \<times> string) list \<Rightarrow> err option" where
  "validate_deployments c env [] = None"
| "validate_deployments c env ((deployment, tgt) # deployments) =
    (if deployment = '''' then Some (Errorf ''has a deployments map entry with an empty key'')
     else if tgt = '''' then Some (Errorf ''deployment missing target'')
     else (case validate_endpoint c env deployment of
             Some e \<Rightarrow> Some e
           | None \<Rightarrow> validate_deployments c env deployments))"

definition validate_policies :: "EnvironmentConfig \<Rightarrow> err option" where
  "validate_policies envc =
    (if env_DeploymentOrder envc \<noteq> [] \<and> env_Deployments envc = None
     then Some (Errorf ''sets deployment_order without a deployments map'')
     else if env_CutoverPolicy envc \<noteq> '''' \<and> env_Deployments envc = None
     then Some (Errorf ''sets cutover_policy without a deployments map'')
     else if env_CutoverPolicy envc \<noteq> '''' \<and>
       env_CutoverPolicy envc \<notin> {CutoverPolicyRolling, CutoverPolicyBarrier, CutoverPolicyParallel}
     then Some (Errorf ''has invalid cutover_policy'')
     else if env_OnFailure envc \<noteq> '''' \<and> env_Deployments envc = None
     then Some (Errorf ''sets on_failure without a deployments map'')
     else if env_OnFailure envc \<noteq> '''' \<and> env_OnFailure envc \<notin> {OnFailureHalt, OnFailureContinue, OnFailurePause}
     then Some (Errorf ''has invalid on_failure'')
     else None)"

definition validate_environment :: "ServerConfig \<Rightarrow> string \<Rightarrow> EnvironmentConfig \<Rightarrow> err option" where
  "validate_environment c env envc =
    (let hasDSN = HasLocalDSN envc;
         hasScalarRouting = (env_Target envc \<noteq> '''' \<or> env_Deployment envc \<noteq> '''') in
     case validate_policies envc of
       Some e \<Rightarrow> Some e
     | None \<Rightarrow>
       (case env_Deployments envc of
          Some deployments \<Rightarrow>
            if hasDSN then Some (Errorf ''cannot configure both local DSN and target/deployment(s)'')
            else if hasScalarRouting
            then Some (Errorf ''cannot configure both scalar target/deployment and a deployments map'')
            else if deployments = [] then Some (Errorf ''deployments map is empty'')
            else
              (case (if env_DeploymentOrder envc \<noteq> []
                     then validateDeploymentOrder deployments (env_DeploymentOrder envc) else None) of
                 Some e \<Rightarrow> Some e
               | None \<Rightarrow> validate_deployments c env deployments)
        | None \<Rightarrow>
            if hasDSN \<and> hasScalarRouting
            then Some (Errorf ''cannot configure both local DSN and target/deployment(s)'')
            else if hasDSN then validateLocalDSNConfig envc
            else if \<not> hasScalarRouting then Some (Errorf ''missing local DSN or target/deployment(s)'')
            else if env_Target envc = '''' then Some (Errorf ''missing target'')
            else if env_Deployment envc = '''' then Some (Errorf ''missing deployment'')
            else validate_endpoint c env (env_Deployment envc)))"


section \<open>Lemmas\<close>

lemma take_ordered_distinct:
  "distinct order \<Longrightarrow> take_ordered order enabledSet = (filter (\<lambda>env. env \<in> enabledSet) order, enabledSet - set order)"
proof (induction order arbitrary: enabledSet)
  case (Cons env order)
  then have "filter (\<lambda>e. e \<in> enabledSet - {env}) order = filter (\<lambda>e. e \<in> enabledSet) order"
    by (intro filter_cong) auto
  with Cons show ?case by auto
qed simp

lemma take_ordered_set:
  "take_ordered order enabledSet = (ordered, rest) \<Longrightarrow>
    distinct ordered \<and> set ordered = enabledSet \<inter> set order \<and> rest = enabledSet - set order"
proof (induction order arbitrary: enabledSet ordered rest)
  case (Cons env order)
  show ?case
  proof (cases "env \<in> enabledSet")
    case True
    with Cons.prems obtain os where "take_ordered order (enabledSet - {env}) = (os, rest)" and "ordered = env # os"
      by (auto split: prod.splits)
    with Cons.IH [of "enabledSet - {env}" os rest] True show ?thesis by auto
  next
    case False
    with Cons.prems Cons.IH [of enabledSet ordered rest] show ?thesis by auto
  qed
qed auto

lemma OrderedEnvironments_set: "set (OrderedEnvironments config enabled) = set enabled - {''''}"
  and OrderedEnvironments_distinct: "distinct (OrderedEnvironments config enabled)"
proof -
  let ?E = "set (filter (\<lambda>env. env \<noteq> '''') enabled)"
  obtain ordered rest where run: "take_ordered (PromotionEnvironmentOrder config) ?E = (ordered, rest)" by (rule prod.exhaust)
  note parts = take_ordered_set [OF run]
  then have "finite rest" by auto
  have eq: "OrderedEnvironments config enabled = ordered @ sorted_list_of_set rest"
    unfolding OrderedEnvironments_def run by simp
  show "set (OrderedEnvironments config enabled) = set enabled - {''''}"
    unfolding eq using parts \<open>finite rest\<close> by auto
  show "distinct (OrderedEnvironments config enabled)"
    unfolding eq using parts \<open>finite rest\<close> by auto
qed

text \<open>What a sequence of checks with distinct keys accepts.\<close>

lemma validate_unique_None:
  "validate_unique check key dup seen xs = None \<longleftrightarrow>
    (\<forall>x\<in>set xs. check x = None \<and> key x \<notin> seen) \<and> distinct (map key xs)"
proof (induction xs arbitrary: seen)
  case (Cons x xs)
  show ?case
  proof (cases "check x")
    case None
    then show ?thesis by (auto simp: Cons.IH image_iff)
  qed auto
qed simp

lemma validateUniqueNames_distinct: "validateUniqueNames names = None \<Longrightarrow> distinct names \<and> '''' \<notin> set names"
  by (auto simp: validateUniqueNames_def validate_unique_None split: if_splits)

lemma validate_order_entries_ok:
  "validate_order_entries deployments seen order = Inr seen' \<longleftrightarrow>
    '''' \<notin> set order \<and> distinct order \<and> set order \<inter> seen = {} \<and> set order \<subseteq> fst ` set deployments \<and>
    seen' = set order \<union> seen"
  by (induction order arbitrary: seen) (auto simp: map_of_eq_None_iff)

lemma validateDeploymentOrder_ok:
  "validateDeploymentOrder deployments order = None \<longleftrightarrow>
    '''' \<notin> fst ` set deployments \<and> distinct order \<and> set order = fst ` set deployments"
proof (cases "validate_order_entries deployments {} order")
  case (Inl e)
  then have "\<not> ('''' \<notin> set order \<and> distinct order \<and> set order \<subseteq> fst ` set deployments)"
    using validate_order_entries_ok [of deployments "{}" order "set order"] by auto
  with Inl show ?thesis by (auto simp: validateDeploymentOrder_def)
next
  case (Inr seen)
  with validate_order_entries_ok [of deployments "{}" order seen] show ?thesis
    by (auto simp: validateDeploymentOrder_def)
qed

lemma resolve_deployments_ok:
  assumes "distinct (map fst deployments)" and "set keys \<subseteq> fst ` set deployments" and "'''' \<notin> snd ` set deployments"
  shows "\<exists>out. resolve_deployments dbType deployments keys = Inr out \<and> map Deployment out = keys \<and>
    (\<forall>t\<in>set out. DatabaseType t = dbType \<and> (Deployment t, Target t) \<in> set deployments)"
  using assms(2)
proof (induction keys)
  case (Cons k keys)
  then obtain tgt where "(k, tgt) \<in> set deployments" by auto
  with assms(1) have lookup: "map_of deployments k = Some tgt" by (rule map_of_is_SomeI)
  from \<open>(k, tgt) \<in> set deployments\<close> assms(3) have "tgt \<noteq> ''''" by (metis imageI snd_conv)
  moreover from Cons obtain out where "resolve_deployments dbType deployments keys = Inr out" and "map Deployment out = keys"
    and "\<forall>t\<in>set out. DatabaseType t = dbType \<and> (Deployment t, Target t) \<in> set deployments" by auto
  ultimately show ?case using lookup \<open>(k, tgt) \<in> set deployments\<close> by simp
qed simp

lemma validate_deployments_None:
  "validate_deployments c env deployments = None \<Longrightarrow> '''' \<notin> fst ` set deployments \<and> '''' \<notin> snd ` set deployments"
  by (induction deployments) (auto split: if_splits option.splits)

text \<open>A validated deployments map gives its keys in rollout order.\<close>

lemma orderedDeploymentKeys_ok:
  assumes "distinct (map fst deployments)" and "'''' \<notin> fst ` set deployments"
    and "order \<noteq> [] \<Longrightarrow> validateDeploymentOrder deployments order = None"
  shows "\<exists>keys. orderedDeploymentKeys deployments order = Inr keys \<and> distinct keys \<and>
    set keys = fst ` set deployments \<and> keys = (if order = [] then sort (map fst deployments) else order)"
proof (cases "order = []")
  case True
  with assms(1,2) show ?thesis by (simp add: orderedDeploymentKeys_def)
next
  case False
  note ok = assms(3) [OF False]
  with False assms(2) have "orderedDeploymentKeys deployments order = Inr order"
    by (simp add: orderedDeploymentKeys_def)
  with False ok show ?thesis by (simp add: validateDeploymentOrder_ok)
qed

section \<open>Properties\<close>

text \<open>
  Further fact (validation covers routing).  Whenever the validation accepts an environment of a
  database, resolving its targets succeeds: a local connection gives the database itself, scalar
  routing the configured pair, and a deployments map one target per entry, each deployment once, in the
  configured rollout order or alphabetically.
\<close>

theorem validated_environment_resolves:
  assumes "Database c database = Some dbc" and "map_of (dbc_Environments dbc) environment = Some envc"
    and "validate_environment c environment envc = None"
    and "\<And>ds. env_Deployments envc = Some ds \<Longrightarrow> distinct (map fst ds)"
  shows "\<exists>targets. ResolveDatabaseTargets (Some c) database environment = Inr targets \<and> targets \<noteq> [] \<and>
    (\<forall>t\<in>set targets. DatabaseType t = dbc_Type dbc) \<and>
    (case env_Deployments envc of
       None \<Rightarrow> map (\<lambda>t. (Deployment t, Target t)) targets =
         [if HasLocalDSN envc then (database, database) else (env_Deployment envc, env_Target envc)]
     | Some ds \<Rightarrow> set (map (\<lambda>t. (Deployment t, Target t)) targets) = set ds \<and>
         map Deployment targets =
           (if env_DeploymentOrder envc = [] then sort (map fst ds) else env_DeploymentOrder envc))"
proof (cases "env_Deployments envc")
  case None
  with assms(1-3) show ?thesis
    by (auto simp: ResolveDatabaseTargets_def validate_environment_def Let_def split: if_splits option.splits)
next
  case (Some ds)
  have dist: "distinct (map fst ds)" by (rule assms(4)) (rule Some)
  have valid: "\<not> HasLocalDSN envc" "ds \<noteq> []" "validate_deployments c environment ds = None"
    "env_DeploymentOrder envc \<noteq> [] \<Longrightarrow> validateDeploymentOrder ds (env_DeploymentOrder envc) = None"
    using assms(3) Some by (auto simp: validate_environment_def Let_def split: if_splits option.splits)
  from validate_deployments_None [OF valid(3)] have ne: "'''' \<notin> fst ` set ds" "'''' \<notin> snd ` set ds" by auto
  from orderedDeploymentKeys_ok [OF dist ne(1) valid(4)] obtain keys where
    keys: "orderedDeploymentKeys ds (env_DeploymentOrder envc) = Inr keys" "distinct keys" "set keys = fst ` set ds"
      "keys = (if env_DeploymentOrder envc = [] then sort (map fst ds) else env_DeploymentOrder envc)" by blast
  from resolve_deployments_ok [OF dist _ ne(2), of keys "dbc_Type dbc"] keys(3) obtain out where
    out: "resolve_deployments (dbc_Type dbc) ds keys = Inr out" "map Deployment out = keys"
      "\<forall>t\<in>set out. DatabaseType t = dbc_Type dbc \<and> (Deployment t, Target t) \<in> set ds" by auto
  have sub: "(d, tgt) \<in> (\<lambda>t. (Deployment t, Target t)) ` set out" if "(d, tgt) \<in> set ds" for d tgt
  proof -
    from that keys(3) out(2) have "d \<in> Deployment ` set out" by (metis fst_conv imageI set_map)
    then obtain t where t: "t \<in> set out" "Deployment t = d" by auto
    with out(3) dist that have "Target t = tgt" by (metis eq_key_imp_eq_value)
    with t show ?thesis by auto
  qed
  have "set (map (\<lambda>t. (Deployment t, Target t)) out) = set ds" using out(3) sub by auto
  moreover from keys(3) valid(2) out(2) have "out \<noteq> []" by auto
  moreover have "ResolveDatabaseTargets (Some c) database environment = Inr out"
    using assms(1,2) Some valid(1,2) keys(1) out(1) by (simp add: ResolveDatabaseTargets_def)
  ultimately show ?thesis using out(2,3) keys(4) Some by auto
qed


definition example_env :: EnvironmentConfig where
  "example_env = \<lparr>env_DSN = '''', env_DSNFrom = None, env_Target = '''', env_Deployment = '''',
     env_Deployments = Some [(''eu'', ''orders''), (''us'', ''orders'')], env_DeploymentOrder = [''us'', ''eu''],
     env_CutoverPolicy = CutoverPolicyRolling, env_OnFailure = OnFailureHalt\<rparr>"

definition example_database :: DatabaseConfig where
  "example_database = \<lparr>dbc_Type = ''mysql'', dbc_AllowedRepos = [''org/app''], dbc_AllowedDirs = [''schema/orders''],
     dbc_Environments = [(''production'', example_env)], dbc_OperatorTeams = [''org/dba''], dbc_OperatorUsers = [''carol'']\<rparr>"

definition example_config :: ServerConfig where
  "example_config = \<lparr>
     TernDeployments = [(''eu'', [(''production'', ''eu:1'')]), (''us'', [(''production'', ''us:1'')])],
     Databases = [(''orders'', example_database)], Repos = [],
     PRCommandAuthorization = \<lparr>auth_Enabled = True, auth_AdminTeams = [], auth_AdminUsers = [''root'']\<rparr>,
     ReviewPolicy = \<lparr>review_Enabled = True, review_AdminTeams = [], review_AdminUsers = [''root''],
       review_IncludeDatabaseOperators = None, review_IncludeCodeowners = False\<rparr>,
     GitHub = \<lparr>gh_Configured = True, gh_CheckName = '''', gh_TrustedCheckAppSlugs = [''schemabot-eu'']\<rparr>, Apps = [],
     AllowedEnvironments = [], EnvironmentOrder = [], Tenant = '''', RequirePassingChecks = None,
     RequiredChecks = [], RespondToUnscoped = None, OperatorClaimOperations = None\<rparr>"

theorem validated_environment_resolves_witness:
  "\<exists>targets. ResolveDatabaseTargets (Some example_config) ''orders'' ''production'' = Inr targets \<and>
    map Deployment targets = [''us'', ''eu'']"
proof -
  have "Database example_config ''orders'' = Some example_database"
    and "map_of (dbc_Environments example_database) ''production'' = Some example_env"
    by (simp_all add: Database_def example_config_def example_database_def)
  moreover have "validate_environment example_config ''production'' example_env = None" by code_simp
  moreover have "distinct (map fst ds)" if "env_Deployments example_env = Some ds" for ds
    using that by (auto simp: example_env_def)
  ultimately show ?thesis
    using validated_environment_resolves [of example_config "''orders''" example_database "''production''" example_env]
    by (auto simp: example_env_def)
qed

text \<open>
  Further fact (the environments a server knows).  The direct membership test of the command path agrees
  with the sorted list of known environments, which has no duplicates and never holds the empty name.
\<close>

theorem known_environments_agree:
  "(env \<in> set (KnownEnvironments config) \<longleftrightarrow> IsEnvironmentKnown config env) \<and>
   sorted (KnownEnvironments config) \<and> distinct (KnownEnvironments config)"
proof (cases config)
  case (Some c)
  have "map_of xs env \<noteq> None \<longleftrightarrow> env \<in> fst ` set xs" for xs :: "(string \<times> EnvironmentConfig) list"
    by (auto simp: map_of_eq_None_iff)
  then have dbs: "list_ex (\<lambda>(name, dbc). map_of (dbc_Environments dbc) env \<noteq> None) (Databases c) \<longleftrightarrow>
      env \<in> set (concat (map (\<lambda>(name, dbc). map fst (dbc_Environments dbc)) (Databases c)))"
    by (simp only: list_ex_iff) auto
  have "env \<in> set (KnownEnvironments config) \<longleftrightarrow> IsEnvironmentKnown config env"
    unfolding IsEnvironmentKnown_def KnownEnvironments_def PromotionEnvironmentOrder_def Some option.case Let_def dbs
    by (simp del: set_concat)
  then show ?thesis by (simp add: KnownEnvironments_def Some)
qed (simp add: KnownEnvironments_def IsEnvironmentKnown_def)

text \<open>
  Further fact (promotion order).  For a validated promotion order the enabled environments are listed
  exactly once: first the ones of the promotion order in that order, then the unknown ones
  alphabetically.
\<close>

theorem ordered_environments_exact:
  assumes "validateUniqueNames (PromotionEnvironmentOrder config) = None"
  shows "OrderedEnvironments config enabled =
    filter (\<lambda>env. env \<in> set enabled) (PromotionEnvironmentOrder config) @
    sorted_list_of_set (set enabled - {''''} - set (PromotionEnvironmentOrder config))"
proof -
  note order = validateUniqueNames_distinct [OF assms]
  then have "filter (\<lambda>env. env \<in> set (filter (\<lambda>e. e \<noteq> '''') enabled)) (PromotionEnvironmentOrder config) =
      filter (\<lambda>env. env \<in> set enabled) (PromotionEnvironmentOrder config)"
    by (intro filter_cong) auto
  moreover have "set (filter (\<lambda>e. e \<noteq> '''') enabled) = set enabled - {''''}" by auto
  ultimately show ?thesis
    using order by (simp add: OrderedEnvironments_def take_ordered_distinct del: set_filter)
qed

theorem ordered_environments_exact_witness:
  "OrderedEnvironments None [''production'', ''qa'', '''', ''dev'', ''staging''] = [''staging'', ''production'', ''dev'', ''qa'']"
proof -
  have "validateUniqueNames (PromotionEnvironmentOrder None) = None" by code_simp
  from ordered_environments_exact [OF this, of "[''production'', ''qa'', '''', ''dev'', ''staging'']"]
  show ?thesis
    by (simp only:) code_simp
qed

end
