(* ===== verification/Check_Aggregate.thy ===== *)
theory Check_Aggregate
  imports Check_Store Strconv Server_Config
begin

text \<open>
  The merge gate (\<^verbatim>\<open>pkg/webhook/check_aggregate.go\<close>, \<^verbatim>\<open>leader_participant_gate.go\<close> and the pure part of
  \<^verbatim>\<open>check_records.go\<close>): how the stored checks of a pull request, and the check runs of participant
  deployments, fold into one conclusion, and the text of the check run.  Strings are bytes, so a
  length is Go's \<^verbatim>\<open>len\<close>; the GitHub client's lookup of a check run is a parameter.
\<close>

section \<open>Constants\<close>

abbreviation checkStatusQueued :: string where "checkStatusQueued \<equiv> ''queued''"
abbreviation checkConclusionFailure :: string where "checkConclusionFailure \<equiv> ''failure''"
abbreviation checkConclusionActionRequired :: string where "checkConclusionActionRequired \<equiv> ''action_required''"
abbreviation checkConclusionNeutral :: string where "checkConclusionNeutral \<equiv> ''neutral''"
abbreviation aggregateSentinel :: string where "aggregateSentinel \<equiv> ''_aggregate''"
abbreviation maxCheckRunTextLength :: int where "maxCheckRunTextLength \<equiv> 65530"
abbreviation participantUnresolvedBlockingReason :: string where
  "participantUnresolvedBlockingReason \<equiv> ''participant_unresolved''"

record checkBlockReason =
  blockingReason :: string
  message :: string

definition schemaRemovedAfterApplyBlock :: checkBlockReason where
  "schemaRemovedAfterApplyBlock = \<lparr>blockingReason = ''schema_removed_after_apply_started'',
     message = ''The current PR no longer contains a schema change whose apply has already started; reconciliation is required before this check can pass.''\<rparr>"

definition rollbackCompletedBlock :: checkBlockReason where
  "rollbackCompletedBlock = \<lparr>blockingReason = ''rollback_completed'',
     message = ''Schema changes were rolled back in this environment; apply the PR schema changes again, or reconcile the PR and live schema before this check can pass.''\<rparr>"

section \<open>Rows\<close>

definition aggregateCheckNameForEnv :: "string \<Rightarrow> string \<Rightarrow> string" where
  "aggregateCheckNameForEnv baseName env = baseName @ '' ('' @ env @ '')''"

definition isAggregateCheck :: "Check \<Rightarrow> bool" where
  "isAggregateCheck c \<longleftrightarrow> chk_DatabaseType c = aggregateSentinel \<and> chk_DatabaseName c = aggregateSentinel"

fun filterChecksByEnvironment :: "Check list \<Rightarrow> string \<Rightarrow> Check list" where
  "filterChecksByEnvironment [] env = []"
| "filterChecksByEnvironment (c # cs) env =
    (if isAggregateCheck c then filterChecksByEnvironment cs env
     else if chk_Environment c = env then c # filterChecksByEnvironment cs env
     else filterChecksByEnvironment cs env)"

definition checkHasStartedApply :: "Check \<Rightarrow> bool" where
  "checkHasStartedApply c \<longleftrightarrow> chk_Status c = checkStatusInProgress \<or> chk_ApplyID c \<noteq> 0"

definition checkBlockedByRemovedSchemaAfterApply :: "Check \<Rightarrow> bool" where
  "checkBlockedByRemovedSchemaAfterApply c \<longleftrightarrow>
    chk_BlockingReason c = blockingReason schemaRemovedAfterApplyBlock"

definition checkBlocksPassingAggregate :: "Check \<Rightarrow> bool" where
  "checkBlocksPassingAggregate c =
    (if isAggregateCheck c then False
     else if checkHasStartedApply c then True
     else chk_Conclusion c = checkConclusionFailure \<or> chk_Conclusion c = checkConclusionActionRequired)"

fun hasBlockingCheckForEnvironment :: "Check list \<Rightarrow> string \<Rightarrow> bool" where
  "hasBlockingCheckForEnvironment [] environment = False"
| "hasBlockingCheckForEnvironment (c # cs) environment =
    (if environment \<noteq> aggregateSentinel \<and> chk_Environment c \<noteq> environment
     then hasBlockingCheckForEnvironment cs environment
     else if checkBlocksPassingAggregate c then True
     else hasBlockingCheckForEnvironment cs environment)"

section \<open>The fold\<close>

fun normalizeStaleContributions :: "Check list \<Rightarrow> string \<Rightarrow> Check list \<times> nat" where
  "normalizeStaleContributions [] headSHA = ([], 0)"
| "normalizeStaleContributions (c # cs) headSHA =
    (case normalizeStaleContributions cs headSHA of
       (contributions, staleCount) \<Rightarrow>
         if chk_HeadSHA c = headSHA then (c # contributions, staleCount)
         else (c\<lparr>chk_Status := checkStatusInProgress, chk_Conclusion := ''''\<rparr> # contributions, Suc staleCount))"

definition anyInProgressOnCommit :: "Check list \<Rightarrow> string \<Rightarrow> bool" where
  "anyInProgressOnCommit cs headSHA \<longleftrightarrow>
    list_ex (\<lambda>c. chk_HeadSHA c = headSHA \<and> chk_Status c = checkStatusInProgress) cs"

text \<open>The result is conclusion and status.\<close>

definition computeAggregate :: "Check list \<Rightarrow> string \<times> string" where
  "computeAggregate cs =
    (if list_ex (\<lambda>c. chk_Status c = checkStatusInProgress) cs then ('''', checkStatusInProgress)
     else if list_ex (\<lambda>c. chk_Conclusion c = checkConclusionFailure) cs
     then (checkConclusionFailure, checkStatusCompleted)
     else if list_ex (\<lambda>c. chk_Conclusion c = checkConclusionActionRequired) cs
     then (checkConclusionActionRequired, checkStatusCompleted)
     else (checkConclusionSuccess, checkStatusCompleted))"

section \<open>The text of the check run\<close>

definition isUnresolvedParticipantCheck :: "Check \<Rightarrow> bool" where
  "isUnresolvedParticipantCheck c \<longleftrightarrow> chk_BlockingReason c = participantUnresolvedBlockingReason"

definition isParticipantCheck :: "Check \<Rightarrow> bool" where
  "isParticipantCheck c \<longleftrightarrow> chk_DatabaseType c = aggregateSentinel \<and> chk_DatabaseName c \<noteq> aggregateSentinel"

text \<open>The em dash, in UTF-8.\<close>

definition em_dash :: string where
  "em_dash = [char_of (226::nat), char_of (128::nat), char_of (148::nat)]"

definition changeSummaryLabel :: "Check \<Rightarrow> string" where
  "changeSummaryLabel c = (if chk_ChangeSummary c = '''' then em_dash else chk_ChangeSummary c)"

definition conclusionEmoji :: "string \<Rightarrow> string \<Rightarrow> string" where
  "conclusionEmoji status conclusion =
    (if status = checkStatusInProgress then ''In progress''
     else if conclusion = checkConclusionSuccess then ''Applied''
     else if conclusion = checkConclusionFailure then ''Failed''
     else if conclusion = checkConclusionActionRequired then ''Pending''
     else if conclusion = checkConclusionNeutral then ''Cancelled''
     else conclusion)"

definition checkStatusLabel :: "Check \<Rightarrow> string" where
  "checkStatusLabel c =
    (if chk_Status c = checkStatusCompleted \<and> chk_Conclusion c = checkConclusionSuccess \<and> \<not> chk_HasChanges c
     then ''Up to date''
     else if isUnresolvedParticipantCheck c then
       (if chk_Status c = checkStatusInProgress then ''Waiting to report'' else ''Not reported'')
     else conclusionEmoji (chk_Status c) (chk_Conclusion c))"

definition hasMultipleEnvironments :: "Check list \<Rightarrow> bool" where
  "hasMultipleEnvironments cs \<longleftrightarrow> length (remdups (map chk_Environment cs)) > 1"

definition newline :: string where
  "newline = [char_of (10::nat)]"

definition backtick :: string where
  "backtick = [char_of (96::nat)]"

text \<open>
  The loop both tables share: append rows while they fit the budget, then say how many are left.
  \<open>acc\<close> is the builder's content.
\<close>

fun table_rows :: "(Check \<Rightarrow> string) \<Rightarrow> string \<Rightarrow> int \<Rightarrow> string \<Rightarrow> Check list \<Rightarrow> string" where
  "table_rows render what budget acc [] = acc"
| "table_rows render what budget acc (c # cs) =
    (if int (length acc) + int (length (render c)) > budget
     then acc @ newline @ ''... and '' @ digits (length (c # cs)) @ '' more '' @ what @ newline
     else table_rows render what budget (acc @ render c) cs)"

definition renderDatabaseSection :: "Check list \<Rightarrow> int \<Rightarrow> string" where
  "renderDatabaseSection dbChecks budget =
    (if dbChecks = [] then ''''
     else
       let showEnv = hasMultipleEnvironments dbChecks;
           header = (if showEnv
             then ''| Database | Environment | Type | Change | Status |'' @ newline @
                  ''|----------|-------------|------|--------|--------|'' @ newline
             else ''| Database | Type | Change | Status |'' @ newline @
                  ''|----------|------|--------|--------|'' @ newline);
           row = (\<lambda>c. ''| '' @ backtick @ chk_DatabaseName c @ backtick @ '' | '' @
             (if showEnv then chk_Environment c @ '' | '' else '''') @ chk_DatabaseType c @ '' | '' @
             changeSummaryLabel c @ '' | '' @ checkStatusLabel c @ '' |'' @ newline)
       in table_rows row ''check(s)'' budget header dbChecks)"

definition renderParticipantSection :: "Check list \<Rightarrow> string" where
  "renderParticipantSection participantChecks =
    (if participantChecks = [] then ''''
     else table_rows
       (\<lambda>c. ''| '' @ backtick @ chk_DatabaseName c @ backtick @ '' | '' @ checkStatusLabel c @ '' |'' @ newline)
       ''tenant(s)'' (maxCheckRunTextLength - 1000)
       (''**Tenant deployments**'' @ newline @ newline @ ''| Tenant | Status |'' @ newline @
        ''|--------|--------|'' @ newline) participantChecks)"

definition buildAggregateTable :: "Check list \<Rightarrow> string" where
  "buildAggregateTable cs =
    (let dbChecks = filter (\<lambda>c. \<not> isParticipantCheck c) cs;
         participantChecks = filter isParticipantCheck cs;
         tenantSection = renderParticipantSection participantChecks;
         dbSection = renderDatabaseSection dbChecks (maxCheckRunTextLength - 1000 - int (length tenantSection))
     in if tenantSection \<noteq> ''''
        then dbSection @ (if length dbSection > 0 then newline else '''') @ tenantSection
        else dbSection)"

definition allChecksAreUpToDate :: "Check list \<Rightarrow> bool" where
  "allChecksAreUpToDate cs \<longleftrightarrow> cs \<noteq> [] \<and>
    \<not> list_ex (\<lambda>c. chk_Status c \<noteq> checkStatusCompleted \<or> chk_Conclusion c \<noteq> checkConclusionSuccess \<or>
      chk_HasChanges c) cs"

definition aggregateTitle :: "Check list \<Rightarrow> string \<Rightarrow> string" where
  "aggregateTitle cs conclusion =
    (if conclusion = checkConclusionSuccess then
       (if allChecksAreUpToDate cs then ''Schema up to date'' else ''All applies complete'')
     else if conclusion = checkConclusionFailure then ''Apply failed''
     else if conclusion = checkConclusionActionRequired then
       (let blocking = filter (\<lambda>c. chk_Conclusion c = checkConclusionActionRequired) cs;
            pending = length blocking;
            unresolved = length (filter isUnresolvedParticipantCheck blocking)
        in if pending > 0 \<and> unresolved = pending then
             (if pending = 1 then ''1 participant deployment has not reported''
              else digits pending @ '' participant deployments have not reported'')
           else if pending = 1 then ''1 apply pending''
           else digits pending @ '' applies pending'')
     else
       (let running = filter (\<lambda>c. chk_Status c = checkStatusInProgress) cs;
            inProgress = length running;
            waiting = length (filter isUnresolvedParticipantCheck running)
        in if inProgress > 0 \<and> waiting = inProgress then
             (if waiting = 1 then ''Waiting for 1 participant deployment to report''
              else ''Waiting for '' @ digits waiting @ '' participant deployments to report'')
           else ''Apply in progress''))"

definition aggregateSummary :: "Check list \<Rightarrow> string \<Rightarrow> string \<times> string" where
  "aggregateSummary cs conclusion = (aggregateTitle cs conclusion, buildAggregateTable cs)"


section \<open>Participant deployments\<close>

record CheckRunResult =
  cr_run_ID :: int
  cr_run_Name :: string
  cr_run_Status :: string
  cr_run_Conclusion :: string

text \<open>
  \<^verbatim>\<open>FindCheckRunByName\<close> of the GitHub client, for a repository, a commit and a name: the newest run of
  a trusted app and the untrusted apps seen.
\<close>

type_synonym checkRunFinder = "string \<Rightarrow> string \<Rightarrow> string \<Rightarrow> err + CheckRunResult option \<times> string list"

record participantCheckOutcome =
  pco_tenant :: string
  pco_checkName :: string
  pco_status :: string
  pco_conclusion :: string
  pco_retriable :: bool

definition unresolved :: "participantCheckOutcome \<Rightarrow> bool" where
  "unresolved x \<longleftrightarrow> pco_retriable x \<and> pco_status x = checkStatusCompleted"

definition synthesizeParticipantCheck ::
  "participantCheckOutcome \<Rightarrow> string \<Rightarrow> int \<Rightarrow> string \<Rightarrow> string \<Rightarrow> bool \<Rightarrow> Check" where
  "synthesizeParticipantCheck outcome repo pr headSHA env retryPending =
    (let check = \<lparr>chk_ID = 0, chk_Repository = repo, chk_PullRequest = pr, chk_HeadSHA = headSHA,
           chk_Environment = env, chk_DatabaseType = aggregateSentinel, chk_DatabaseName = pco_tenant outcome,
           chk_CheckRunID = 0, chk_ApplyID = 0, chk_HasChanges = (pco_conclusion outcome \<noteq> checkConclusionSuccess),
           chk_Status = pco_status outcome, chk_Conclusion = pco_conclusion outcome, chk_BlockingReason = '''',
           chk_ErrorMessage = '''', chk_ChangeSummary = '''', chk_CreatedAt = 0, chk_UpdatedAt = 0\<rparr>
     in if unresolved outcome then
          (if retryPending
           then check\<lparr>chk_BlockingReason := participantUnresolvedBlockingReason,
                  chk_Status := checkStatusInProgress, chk_Conclusion := ''''\<rparr>
           else check\<lparr>chk_BlockingReason := participantUnresolvedBlockingReason\<rparr>)
        else check)"

definition blockedParticipantOutcome :: "string \<Rightarrow> string \<Rightarrow> bool \<Rightarrow> participantCheckOutcome" where
  "blockedParticipantOutcome tenant checkName retriable = \<lparr>pco_tenant = tenant, pco_checkName = checkName,
     pco_status = checkStatusCompleted, pco_conclusion = checkConclusionActionRequired, pco_retriable = retriable\<rparr>"

definition participantCheckName :: "string \<Rightarrow> string \<Rightarrow> string" where
  "participantCheckName base env =
    (if env = aggregateSentinel then base else aggregateCheckNameForEnv base env)"

definition resolveParticipantOutcome ::
  "checkRunFinder \<Rightarrow> string \<Rightarrow> string \<Rightarrow> string \<Rightarrow> ExpectedTenant \<Rightarrow> participantCheckOutcome" where
  "resolveParticipantOutcome finder repo env headSHA tenant =
    (if et_CheckName tenant = '''' then blockedParticipantOutcome (et_Tenant tenant) '''' False
     else
       let checkName = participantCheckName (et_CheckName tenant) env in
       case finder repo headSHA checkName of
         Inl e \<Rightarrow> blockedParticipantOutcome (et_Tenant tenant) checkName True
       | Inr (None, untrusted) \<Rightarrow>
           blockedParticipantOutcome (et_Tenant tenant) checkName (untrusted = [])
       | Inr (Some result, untrusted) \<Rightarrow>
           if cr_run_Status result \<noteq> checkStatusCompleted then
             \<lparr>pco_tenant = et_Tenant tenant, pco_checkName = checkName, pco_status = checkStatusInProgress,
              pco_conclusion = '''', pco_retriable = True\<rparr>
           else
             \<lparr>pco_tenant = et_Tenant tenant, pco_checkName = checkName, pco_status = checkStatusCompleted,
              pco_conclusion =
                (if cr_run_Conclusion result = checkConclusionSuccess then checkConclusionSuccess
                 else if cr_run_Conclusion result = checkConclusionActionRequired then checkConclusionActionRequired
                 else checkConclusionFailure),
              pco_retriable = False\<rparr>)"

definition participantCheckOutcomes ::
  "checkRunFinder \<Rightarrow> string \<Rightarrow> int \<Rightarrow> string \<Rightarrow> string \<Rightarrow> ExpectedTenant list \<Rightarrow> bool \<Rightarrow> Check list \<times> bool" where
  "participantCheckOutcomes finder repo pr env headSHA expected retryPending =
    (let outcomes = map (resolveParticipantOutcome finder repo env headSHA) expected
     in (map (\<lambda>x. synthesizeParticipantCheck x repo pr headSHA env retryPending) outcomes,
         list_ex pco_retriable outcomes))"

section \<open>Plans and finished applies\<close>

definition planCheckConclusion :: "bool \<Rightarrow> bool \<Rightarrow> bool \<Rightarrow> string" where
  "planCheckConclusion hasChanges hasPlanErrors driftBlocked =
    (if driftBlocked then checkConclusionFailure
     else if hasPlanErrors then checkConclusionFailure
     else if hasChanges then checkConclusionActionRequired
     else checkConclusionSuccess)"

definition isApplyNewer :: "Apply \<Rightarrow> Apply \<Rightarrow> bool" where
  "isApplyNewer candidate existing \<longleftrightarrow> apply_ID candidate > apply_ID existing"

definition applyCheckKey :: "Apply \<Rightarrow> string \<times> string \<times> string" where
  "applyCheckKey a = (apply_Environment a, apply_DatabaseType a, apply_Database a)"

fun latestApply_loop ::
  "(string \<times> string \<times> string \<rightharpoonup> Apply) \<Rightarrow> Apply list \<Rightarrow> (string \<times> string \<times> string \<rightharpoonup> Apply)" where
  "latestApply_loop latest [] = latest"
| "latestApply_loop latest (a # as) =
    (case latest (applyCheckKey a) of
       None \<Rightarrow> latestApply_loop (latest(applyCheckKey a \<mapsto> a)) as
     | Some existing \<Rightarrow>
         if isApplyNewer a existing then latestApply_loop (latest(applyCheckKey a \<mapsto> a)) as
         else latestApply_loop latest as)"

definition latestApplyByCheckKey :: "Apply list \<Rightarrow> (string \<times> string \<times> string \<rightharpoonup> Apply)" where
  "latestApplyByCheckKey as = latestApply_loop Map.empty as"

definition isCompletedRollback :: "Apply \<Rightarrow> bool" where
  "isCompletedRollback a \<longleftrightarrow> IsRollback a \<and> IsState (apply_State a) [Apply_Completed]"

definition checkNeedsTerminalReconcile :: "Check \<Rightarrow> Apply \<Rightarrow> bool" where
  "checkNeedsTerminalReconcile check a =
    (if \<not> IsTerminalApplyState (apply_State a) then False
     else if chk_Status check = checkStatusInProgress then True
     else chk_ApplyID check \<noteq> 0 \<and> chk_Conclusion check = checkConclusionSuccess \<and> isCompletedRollback a)"

section \<open>Lemmas on the fold\<close>

lemma normalize_contributions:
  "fst (normalizeStaleContributions cs headSHA) =
    map (\<lambda>c. if chk_HeadSHA c = headSHA then c
             else c\<lparr>chk_Status := checkStatusInProgress, chk_Conclusion := ''''\<rparr>) cs"
  "snd (normalizeStaleContributions cs headSHA) = length (filter (\<lambda>c. chk_HeadSHA c \<noteq> headSHA) cs)"
  by (induction cs) (auto split: prod.splits)

lemma computeAggregate_success:
  "computeAggregate cs = (checkConclusionSuccess, checkStatusCompleted) \<longleftrightarrow>
    (\<forall>c\<in>set cs. chk_Status c \<noteq> checkStatusInProgress \<and> chk_Conclusion c \<noteq> checkConclusionFailure \<and>
      chk_Conclusion c \<noteq> checkConclusionActionRequired)"
  by (auto simp: computeAggregate_def list_ex_iff)

lemma contribution_passes:
  "chk_Status (if chk_HeadSHA c = headSHA then c
       else c\<lparr>chk_Status := checkStatusInProgress, chk_Conclusion := ''''\<rparr>) \<noteq> checkStatusInProgress \<and>
    chk_Conclusion (if chk_HeadSHA c = headSHA then c
       else c\<lparr>chk_Status := checkStatusInProgress, chk_Conclusion := ''''\<rparr>) \<noteq> checkConclusionFailure \<and>
    chk_Conclusion (if chk_HeadSHA c = headSHA then c
       else c\<lparr>chk_Status := checkStatusInProgress, chk_Conclusion := ''''\<rparr>) \<noteq> checkConclusionActionRequired \<longleftrightarrow>
    chk_HeadSHA c = headSHA \<and> chk_Status c \<noteq> checkStatusInProgress \<and>
    chk_Conclusion c \<noteq> checkConclusionFailure \<and> chk_Conclusion c \<noteq> checkConclusionActionRequired"
  by (cases "chk_HeadSHA c = headSHA") simp_all

lemma aggregate_success_iff:
  "computeAggregate (fst (normalizeStaleContributions cs headSHA)) = (checkConclusionSuccess, checkStatusCompleted) \<longleftrightarrow>
    (\<forall>c\<in>set cs. chk_HeadSHA c = headSHA \<and> chk_Status c \<noteq> checkStatusInProgress \<and>
      chk_Conclusion c \<noteq> checkConclusionFailure \<and> chk_Conclusion c \<noteq> checkConclusionActionRequired)"
  by (simp only: normalize_contributions computeAggregate_success set_map ball_simps contribution_passes)

lemma hasBlocking_iff:
  "hasBlockingCheckForEnvironment cs environment \<longleftrightarrow>
    (\<exists>c\<in>set cs. (environment = aggregateSentinel \<or> chk_Environment c = environment) \<and>
      checkBlocksPassingAggregate c)"
  by (induction cs) auto

lemma participant_row_passes:
  assumes "chk_Status (synthesizeParticipantCheck (resolveParticipantOutcome finder repo env headSHA t)
      repo pr headSHA env rp) \<noteq> checkStatusInProgress"
    and "chk_Conclusion (synthesizeParticipantCheck (resolveParticipantOutcome finder repo env headSHA t)
      repo pr headSHA env rp) \<notin> {checkConclusionFailure, checkConclusionActionRequired}"
  shows "et_CheckName t \<noteq> '''' \<and> (\<exists>run untrusted.
      finder repo headSHA (participantCheckName (et_CheckName t) env) = Inr (Some run, untrusted) \<and>
      cr_run_Status run = checkStatusCompleted \<and> cr_run_Conclusion run = checkConclusionSuccess)"
  using assms
  by (auto simp: resolveParticipantOutcome_def synthesizeParticipantCheck_def blockedParticipantOutcome_def
      unresolved_def Let_def split: sum.splits option.splits if_splits)

lemma synthesize_head [simp]:
  "chk_HeadSHA (synthesizeParticipantCheck x repo pr headSHA env rp) = headSHA"
  by (simp add: synthesizeParticipantCheck_def Let_def)


section \<open>Lengths\<close>

lemma table_rows_length:
  assumes "length cs < 10 ^ 20"
  shows "int (length (table_rows render what budget acc cs)) \<le>
    max (int (length acc)) budget + 36 + int (length what)"
  using assms
proof (induction cs arbitrary: acc)
  case (Cons c cs)
  show ?case
  proof (cases "int (length acc) + int (length (render c)) > budget")
    case True
    have "length (digits (length (c # cs))) \<le> Suc 19" by (rule digits_length) (use Cons.prems in simp)
    with True show ?thesis by (simp add: newline_def)
  next
    case False
    with Cons.IH [of "acc @ render c"] Cons.prems show ?thesis by simp
  qed
qed simp

lemma renderParticipantSection_length:
  assumes "length cs < 10 ^ 20"
  shows "int (length (renderParticipantSection cs)) \<le> 64575"
proof (cases "cs = []")
  case False
  from table_rows_length [OF assms, of "\<lambda>c. ''| '' @ backtick @ chk_DatabaseName c @ backtick @ '' | '' @
      checkStatusLabel c @ '' |'' @ newline" "''tenant(s)''" "maxCheckRunTextLength - 1000"
      "''**Tenant deployments**'' @ newline @ newline @ ''| Tenant | Status |'' @ newline @
        ''|--------|--------|'' @ newline"] False
  show ?thesis by (simp add: renderParticipantSection_def newline_def)
qed (simp add: renderParticipantSection_def)

lemma renderDatabaseSection_length:
  assumes "length cs < 10 ^ 20"
  shows "int (length (renderDatabaseSection cs budget)) \<le> max 120 budget + 44"
proof (cases "cs = []")
  case False
  define header where "header = (if hasMultipleEnvironments cs
     then ''| Database | Environment | Type | Change | Status |'' @ newline @
          ''|----------|-------------|------|--------|--------|'' @ newline
     else ''| Database | Type | Change | Status |'' @ newline @
          ''|----------|------|--------|--------|'' @ newline)"
  define row where "row = (\<lambda>c. ''| '' @ backtick @ chk_DatabaseName c @ backtick @ '' | '' @
     (if hasMultipleEnvironments cs then chk_Environment c @ '' | '' else '''') @ chk_DatabaseType c @ '' | '' @
     changeSummaryLabel c @ '' | '' @ checkStatusLabel c @ '' |'' @ newline)"
  have "renderDatabaseSection cs budget = table_rows row ''check(s)'' budget header cs"
    using False by (simp only: renderDatabaseSection_def if_False Let_def header_def row_def)
  moreover have "int (length header) \<le> 120" by (simp add: header_def newline_def)
  ultimately show ?thesis
    using table_rows_length [OF assms, of row "''check(s)''" budget header] by simp
qed (simp add: renderDatabaseSection_def)

section \<open>Properties\<close>

text \<open>
  Property C19 (when the merge gate opens).  The aggregate published for a commit is a success exactly
  when every contributing row was recorded for that commit, none is in progress and none concluded
  failure or action required; in particular results of another commit never pass it.
\<close>

theorem aggregate_success_exact:
  "computeAggregate (fst (normalizeStaleContributions cs headSHA)) = (checkConclusionSuccess, checkStatusCompleted) \<longleftrightarrow>
    (\<forall>c\<in>set cs. chk_HeadSHA c = headSHA \<and> chk_Status c \<noteq> checkStatusInProgress \<and>
      chk_Conclusion c \<noteq> checkConclusionFailure \<and> chk_Conclusion c \<noteq> checkConclusionActionRequired)"
  by (rule aggregate_success_iff)

theorem aggregate_success_exact_witness:
  "computeAggregate (fst (normalizeStaleContributions [example_check ''sha1'' ''completed'' ''success'' 9] ''sha1'')) =
     (checkConclusionSuccess, checkStatusCompleted) \<and>
   computeAggregate (fst (normalizeStaleContributions [example_check ''sha1'' ''completed'' ''success'' 9] ''sha2'')) \<noteq>
     (checkConclusionSuccess, checkStatusCompleted)"
  unfolding aggregate_success_exact by (simp add: example_check_def)

text \<open>
  Property C20 (the leader's gate fails closed).  When the leader's aggregate over its own rows and the
  expected participants is a success, every expected participant has a check name under which a
  trusted app's run on exactly this commit completed with success.  A missing, unreadable, untrusted,
  unfinished or otherwise concluded run keeps the aggregate from passing.
\<close>

theorem leader_gate_fail_closed:
  assumes "computeAggregate (fst (normalizeStaleContributions
      (dbChecks @ fst (participantCheckOutcomes finder repo pr env headSHA expected retryPending)) headSHA)) =
    (checkConclusionSuccess, checkStatusCompleted)"
    and "t \<in> set expected"
  shows "et_CheckName t \<noteq> '''' \<and> (\<exists>run untrusted.
      finder repo headSHA (participantCheckName (et_CheckName t) env) = Inr (Some run, untrusted) \<and>
      cr_run_Status run = checkStatusCompleted \<and> cr_run_Conclusion run = checkConclusionSuccess)"
proof -
  let ?c = "synthesizeParticipantCheck (resolveParticipantOutcome finder repo env headSHA t) repo pr headSHA env retryPending"
  let ?ps = "fst (participantCheckOutcomes finder repo pr env headSHA expected retryPending)"
  have "?c \<in> set (fst (normalizeStaleContributions (dbChecks @ ?ps) headSHA))"
    using assms(2) by (auto simp: normalize_contributions participantCheckOutcomes_def Let_def image_iff)
  with assms(1) have "chk_Status ?c \<noteq> checkStatusInProgress \<and>
      chk_Conclusion ?c \<notin> {checkConclusionFailure, checkConclusionActionRequired}"
    unfolding computeAggregate_success by blast
  then show ?thesis by (elim conjE) (rule participant_row_passes)
qed

theorem leader_gate_fail_closed_witness:
  "et_CheckName \<lparr>et_Tenant = ''t1'', et_Paths = [], et_CheckName = ''SchemaBot T1''\<rparr> \<noteq> ''''"
  by (rule conjunct1, rule leader_gate_fail_closed [of "[]"
      "\<lambda>_ _ _. Inr (Some \<lparr>cr_run_ID = 1, cr_run_Name = ''n'', cr_run_Status = ''completed'', cr_run_Conclusion = ''success''\<rparr>, [])"
      "''org/app''" 7 "''staging''" "''sha1''"
      "[\<lparr>et_Tenant = ''t1'', et_Paths = [], et_CheckName = ''SchemaBot T1''\<rparr>]" True])
    (code_simp, simp)

text \<open>
  Further fact (the summary fits GitHub's limit).  The check run's summary never exceeds the limit of the
  API, however many rows and tenants there are and however long their names: the tables stop at their
  budget and say how many rows are left.
\<close>

theorem summary_within_limit:
  assumes "length cs < 10 ^ 20"
  shows "int (length (snd (aggregateSummary cs conclusion))) \<le> maxCheckRunTextLength"
proof -
  let ?p = "filter isParticipantCheck cs"
  let ?t = "renderParticipantSection ?p"
  let ?d = "renderDatabaseSection (filter (\<lambda>c. \<not> isParticipantCheck c) cs)
    (maxCheckRunTextLength - 1000 - int (length ?t))"
  have len: "length (filter P cs) < 10 ^ 20" for P
    by (rule le_less_trans [OF length_filter_le assms])
  have "int (length ?t) \<le> 64575" by (rule renderParticipantSection_length [OF len])
  moreover have "int (length ?d) \<le> max 120 (maxCheckRunTextLength - 1000 - int (length ?t)) + 44"
    by (rule renderDatabaseSection_length [OF len])
  moreover have "int (length (buildAggregateTable cs)) \<le> int (length ?d) + 1 + int (length ?t)"
    by (simp add: buildAggregateTable_def Let_def newline_def)
  ultimately show ?thesis by (simp add: aggregateSummary_def)
qed

theorem summary_within_limit_witness:
  "int (length (snd (aggregateSummary [example_check ''sha1'' ''completed'' ''success'' 9] ''success''))) \<le> 65530"
  by (rule summary_within_limit) simp

lemma latestApply_loop_spec:
  assumes "\<And>k a. latest k = Some a \<Longrightarrow> applyCheckKey a = k"
  shows "case latestApply_loop latest as k of
      None \<Rightarrow> latest k = None \<and> (\<forall>b\<in>set as. applyCheckKey b \<noteq> k)
    | Some a \<Rightarrow> (a \<in> set as \<or> latest k = Some a) \<and> applyCheckKey a = k \<and>
        (\<forall>b\<in>set as. applyCheckKey b = k \<longrightarrow> apply_ID b \<le> apply_ID a) \<and>
        (\<forall>b. latest k = Some b \<longrightarrow> apply_ID b \<le> apply_ID a)"
  using assms
proof (induction as arbitrary: latest)
  case Nil
  then show ?case by (auto split: option.split)
next
  case (Cons x xs)
  show ?case
  proof (cases "latest (applyCheckKey x) = None \<or> (\<exists>e. latest (applyCheckKey x) = Some e \<and> isApplyNewer x e)")
    case True
    then have "latestApply_loop latest (x # xs) = latestApply_loop (latest(applyCheckKey x \<mapsto> x)) xs"
      by (auto split: option.split)
    moreover note Cons.IH [of "latest(applyCheckKey x \<mapsto> x)"]
    ultimately show ?thesis
      using Cons.prems True by (fastforce simp: isApplyNewer_def split: option.splits if_splits)
  next
    case False
    then obtain e where e: "latest (applyCheckKey x) = Some e" "\<not> isApplyNewer x e" by auto
    then have "latestApply_loop latest (x # xs) = latestApply_loop latest xs" by simp
    with Cons.IH [of latest] Cons.prems e show ?thesis
      by (fastforce simp: isApplyNewer_def split: option.splits)
  qed
qed

text \<open>
  Further fact (the newest apply of a target).  The map that reconciliation uses holds, for every
  environment and database, an apply of the list with the greatest id for that key, and nothing for a
  key without applies.
\<close>

theorem latest_apply_exact:
  "case latestApplyByCheckKey as k of
      None \<Rightarrow> \<forall>b\<in>set as. applyCheckKey b \<noteq> k
    | Some a \<Rightarrow> a \<in> set as \<and> applyCheckKey a = k \<and>
        (\<forall>b\<in>set as. applyCheckKey b = k \<longrightarrow> apply_ID b \<le> apply_ID a)"
  using latestApply_loop_spec [of Map.empty k as] by (auto simp: latestApplyByCheckKey_def split: option.splits)

theorem latest_apply_exact_witness:
  "latestApplyByCheckKey [check_apply 3 ''failed'', check_apply 8 ''completed'', check_apply 5 ''failed'']
     (''staging'', ''mysql'', ''orders'') = Some (check_apply 8 ''completed'') \<and>
   apply_ID (check_apply 5 ''failed'') \<le> apply_ID (check_apply 8 ''completed'')"
proof
  let ?as = "[check_apply 3 ''failed'', check_apply 8 ''completed'', check_apply 5 ''failed'']"
  show *: "latestApplyByCheckKey ?as (''staging'', ''mysql'', ''orders'') = Some (check_apply 8 ''completed'')"
    by code_simp
  from latest_apply_exact [of ?as "(''staging'', ''mysql'', ''orders'')", unfolded * option.case]
  have "applyCheckKey (check_apply 5 ''failed'') = (''staging'', ''mysql'', ''orders'') \<longrightarrow>
      apply_ID (check_apply 5 ''failed'') \<le> apply_ID (check_apply 8 ''completed'')" by simp
  then show "apply_ID (check_apply 5 ''failed'') \<le> apply_ID (check_apply 8 ''completed'')"
    by (simp add: applyCheckKey_def check_apply_def zero_apply_def)
qed

end
