(* ===== verification/Check_Publisher.thy ===== *)
theory Check_Publisher
  imports Check_Aggregate
begin

text \<open>
  Publishing checks (\<^verbatim>\<open>pkg/webhook/check_publisher.go\<close>) and recording the outcome of an apply in the
  stored check (\<^verbatim>\<open>check_records.go\<close>).  The handlers run against the check store under interference;
  the GitHub client is a parameter: a record of the calls they make, with the answer of each.  Logs and
  metrics are left out.  A Go handler returns nothing; here it returns the check runs it published.
\<close>

section \<open>The GitHub client\<close>

record CheckRunOptions =
  opt_Name :: string
  opt_Status :: string
  opt_Conclusion :: string
  opt_Title :: string
  opt_Summary :: string

text \<open>\<open>FetchPullRequest\<close> gives the head commit of the pull request.\<close>

record InstallationClient =
  FetchPullRequest :: "string \<Rightarrow> int \<Rightarrow> err + string"
  UpdateCheckRun :: "string \<Rightarrow> int \<Rightarrow> CheckRunOptions \<Rightarrow> err + unit"
  CreateCheckRun :: "string \<Rightarrow> string \<Rightarrow> CheckRunOptions \<Rightarrow> err + int"

definition verifyHeadSHAStillCurrentForPR :: "InstallationClient \<Rightarrow> string \<Rightarrow> int \<Rightarrow> string \<Rightarrow> bool" where
  "verifyHeadSHAStillCurrentForPR client repo pr headSHA =
    (if headSHA = '''' then False
     else (case FetchPullRequest client repo pr of
             Inl e \<Rightarrow> False
           | Inr current \<Rightarrow> current = headSHA))"

text \<open>
  Update the run the stored aggregate names when it is for this commit, otherwise create one; the
  answer is the id of the run.
\<close>

definition publish_run ::
  "InstallationClient \<Rightarrow> string \<Rightarrow> string \<Rightarrow> Check option \<Rightarrow> CheckRunOptions \<Rightarrow> err + int" where
  "publish_run client repo headSHA existing opts =
    (case existing of
       Some ex \<Rightarrow>
         if chk_CheckRunID ex \<noteq> 0 \<and> chk_HeadSHA ex = headSHA then
           (case UpdateCheckRun client repo (chk_CheckRunID ex) opts of
              Inl e \<Rightarrow> Inl e
            | Inr _ \<Rightarrow> Inr (chk_CheckRunID ex))
         else CreateCheckRun client repo headSHA opts
     | None \<Rightarrow> CreateCheckRun client repo headSHA opts)"

definition aggregate_row :: "string \<Rightarrow> int \<Rightarrow> string \<Rightarrow> string \<Rightarrow> int \<Rightarrow> string \<Rightarrow> string \<Rightarrow> Check" where
  "aggregate_row repo pr headSHA environment checkRunID status conclusion =
    \<lparr>chk_ID = 0, chk_Repository = repo, chk_PullRequest = pr, chk_HeadSHA = headSHA,
     chk_Environment = environment, chk_DatabaseType = aggregateSentinel, chk_DatabaseName = aggregateSentinel,
     chk_CheckRunID = checkRunID, chk_ApplyID = 0, chk_HasChanges = (conclusion \<noteq> checkConclusionSuccess),
     chk_Status = status, chk_Conclusion = conclusion, chk_BlockingReason = '''', chk_ErrorMessage = '''',
     chk_ChangeSummary = '''', chk_CreatedAt = 0, chk_UpdatedAt = 0\<rparr>"

section \<open>The aggregate\<close>

abbreviation awaitingCurrentCommitTitle :: string where
  "awaitingCurrentCommitTitle \<equiv> ''Awaiting results for the latest commit''"

text \<open>The check run the fold of \<open>dbChecks\<close> asks for.\<close>

definition aggregate_options :: "string \<Rightarrow> string \<Rightarrow> Check list \<Rightarrow> CheckRunOptions" where
  "aggregate_options checkName headSHA dbChecks =
    (case normalizeStaleContributions dbChecks headSHA of
       (contributions, staleCount) \<Rightarrow>
         (case computeAggregate contributions of
            (conclusion, status) \<Rightarrow>
              (case aggregateSummary contributions conclusion of
                 (title, summary) \<Rightarrow>
                   \<lparr>opt_Name = checkName, opt_Status = status,
                    opt_Conclusion = (if status = checkStatusCompleted then conclusion else ''''),
                    opt_Title = (if staleCount > 0 \<and> status = checkStatusInProgress \<and>
                                    \<not> anyInProgressOnCommit dbChecks headSHA
                                 then awaitingCurrentCommitTitle else title),
                    opt_Summary = summary\<rparr>)))"

text \<open>A stored blocking reason means a guard failed the aggregate closed.\<close>

definition aggregate_blocked :: "Check option \<Rightarrow> bool" where
  "aggregate_blocked existing = (case existing of Some ex \<Rightarrow> chk_BlockingReason ex \<noteq> '''' | None \<Rightarrow> False)"

text \<open>Publish the run and, when that worked, store the aggregate; storing may fail, and is only logged then.\<close>

definition publish_and_store ::
  "(string \<Rightarrow> string) \<Rightarrow> InstallationClient \<Rightarrow> string \<Rightarrow> int \<Rightarrow> string \<Rightarrow> string \<Rightarrow> Check option \<Rightarrow>
   CheckRunOptions \<Rightarrow> string \<times> string \<Rightarrow> CheckRunOptions option prog" where
  "publish_and_store ci client repo pr headSHA environment existing opts agg =
    (case publish_run client repo headSHA existing opts of
       Inl e \<Rightarrow> State_Monad.return (Inr None)
     | Inr checkRunID \<Rightarrow>
         do {
           _ \<leftarrow> Check_Upsert ci (aggregate_row repo pr headSHA environment checkRunID (snd agg) (fst agg));
           State_Monad.return (Inr (Some opts))
         })"

definition upsertAggregateCheckRun ::
  "(string \<Rightarrow> string) \<Rightarrow> InstallationClient \<Rightarrow> string \<Rightarrow> int \<Rightarrow> string \<Rightarrow> Check list \<Rightarrow> string \<Rightarrow> string \<Rightarrow>
   CheckRunOptions option prog" where
  "upsertAggregateCheckRun ci client repo pr headSHA dbChecks checkName environment =
    do {
      g \<leftarrow> Check_Get ci repo pr environment aggregateSentinel aggregateSentinel;
      case g of
        Inl e \<Rightarrow> State_Monad.return (Inr None)
      | Inr existing \<Rightarrow>
          if aggregate_blocked existing then State_Monad.return (Inr None)
          else publish_and_store ci client repo pr headSHA environment existing
            (aggregate_options checkName headSHA dbChecks)
            (computeAggregate (fst (normalizeStaleContributions dbChecks headSHA)))
    }"

section \<open>Passing aggregates\<close>

text \<open>The aggregates this instance publishes: name and environment.\<close>

definition aggregateCheckTargetsForRepo :: "string \<Rightarrow> string list \<Rightarrow> (string \<times> string) list" where
  "aggregateCheckTargetsForRepo base allowedEnvironments =
    (if allowedEnvironments = [] then [(base, aggregateSentinel)]
     else map (\<lambda>env. (aggregateCheckNameForEnv base env, env)) allowedEnvironments)"

definition passing_options :: "string \<Rightarrow> CheckRunOptions" where
  "passing_options checkName = \<lparr>opt_Name = checkName, opt_Status = checkStatusCompleted,
     opt_Conclusion = checkConclusionSuccess, opt_Title = ''No managed schema changes'',
     opt_Summary = ''This PR does not contain schema changes managed by SchemaBot.''\<rparr>"

text \<open>The runs published so far, when the handler goes on to the next environment.\<close>

definition published_also ::
  "err + CheckRunOptions option \<Rightarrow> err + CheckRunOptions list \<Rightarrow> err + CheckRunOptions list" where
  "published_also p rest =
    (case p of
       Inr (Some opts) \<Rightarrow> (case rest of Inl e \<Rightarrow> Inl e | Inr published \<Rightarrow> Inr (opts # published))
     | _ \<Rightarrow> rest)"

definition already_passing :: "string \<Rightarrow> Check option \<Rightarrow> bool" where
  "already_passing headSHA existing =
    (case existing of
       Some ex \<Rightarrow> chk_HeadSHA ex = headSHA \<and> chk_Conclusion ex = checkConclusionSuccess
     | None \<Rightarrow> False)"

fun post_passing ::
  "(string \<Rightarrow> string) \<Rightarrow> InstallationClient \<Rightarrow> string \<Rightarrow> int \<Rightarrow> string \<Rightarrow> Check list \<Rightarrow> (string \<times> string) list \<Rightarrow>
   CheckRunOptions list prog" where
  "post_passing ci client repo pr headSHA storedChecks [] = State_Monad.return (Inr [])"
| "post_passing ci client repo pr headSHA storedChecks ((checkName, environment) # targets) =
    (if hasBlockingCheckForEnvironment storedChecks environment
     then post_passing ci client repo pr headSHA storedChecks targets
     else
       do {
         g \<leftarrow> Check_Get ci repo pr environment aggregateSentinel aggregateSentinel;
         case g of
           Inl e \<Rightarrow> post_passing ci client repo pr headSHA storedChecks targets
         | Inr existing \<Rightarrow>
             if already_passing headSHA existing
             then post_passing ci client repo pr headSHA storedChecks targets
             else
               do {
                 p \<leftarrow> publish_and_store ci client repo pr headSHA environment existing
                        (passing_options checkName) (checkConclusionSuccess, checkStatusCompleted);
                 rest \<leftarrow> post_passing ci client repo pr headSHA storedChecks targets;
                 State_Monad.return (published_also p rest)
               }
       })"

text \<open>\<open>checksEnabled\<close> is \<^verbatim>\<open>shouldPublishChecks\<close>, the configuration's answer for the repository.\<close>

definition postPassingAggregates ::
  "(string \<Rightarrow> string) \<Rightarrow> InstallationClient \<Rightarrow> bool \<Rightarrow> string \<Rightarrow> string list \<Rightarrow> string \<Rightarrow> int \<Rightarrow> string \<Rightarrow>
   CheckRunOptions list prog" where
  "postPassingAggregates ci client checksEnabled base allowedEnvironments repo pr headSHA =
    (if \<not> checksEnabled then State_Monad.return (Inr [])
     else if \<not> verifyHeadSHAStillCurrentForPR client repo pr headSHA then State_Monad.return (Inr [])
     else
       do {
         s \<leftarrow> Check_GetByPR ci repo pr;
         case s of
           Inl e \<Rightarrow> State_Monad.return (Inr [])
         | Inr storedChecks \<Rightarrow>
             post_passing ci client repo pr headSHA storedChecks
               (aggregateCheckTargetsForRepo base allowedEnvironments)
       })"

section \<open>Recording the outcome of an apply\<close>

definition apply_conclusion :: "Apply \<Rightarrow> Check \<Rightarrow> string" where
  "apply_conclusion a check =
    (if IsState (apply_State a) [Apply_Completed] \<and> checkBlockedByRemovedSchemaAfterApply check
     then checkConclusionActionRequired
     else if IsState (apply_State a) [Apply_Completed] then checkConclusionSuccess
     else checkConclusionFailure)"

definition outcome_check :: "Apply \<Rightarrow> Check \<Rightarrow> Check" where
  "outcome_check a check =
    (let conclusion = apply_conclusion a check;
         check' = check\<lparr>chk_Status := checkStatusCompleted, chk_Conclusion := conclusion,
           chk_HasChanges := (conclusion \<noteq> checkConclusionSuccess)\<rparr>
     in if conclusion = checkConclusionSuccess
        then check'\<lparr>chk_BlockingReason := '''', chk_ErrorMessage := ''''\<rparr> else check')"

definition rolled_back_check :: "Check \<Rightarrow> Check" where
  "rolled_back_check check = check\<lparr>chk_Status := checkStatusCompleted,
     chk_Conclusion := checkConclusionActionRequired, chk_HasChanges := True,
     chk_BlockingReason := blockingReason rollbackCompletedBlock,
     chk_ErrorMessage := message rollbackCompletedBlock\<rparr>"

definition updateCheckRecordForApplyResult ::
  "(string \<Rightarrow> string) \<Rightarrow> string \<Rightarrow> int \<Rightarrow> Apply \<Rightarrow> bool prog" where
  "updateCheckRecordForApplyResult ci repo pr a =
    do {
      g \<leftarrow> Check_Get ci repo pr (apply_Environment a) (apply_DatabaseType a) (apply_Database a);
      case g of
        Inl e \<Rightarrow> State_Monad.return (Inl (Wrapped ''look up check for apply result'' e))
      | Inr row \<Rightarrow>
          (case row of
             None \<Rightarrow> State_Monad.return (Inl (Errorf ''no stored check state found to update after apply''))
           | Some check \<Rightarrow>
               if IsState (apply_State a) [Apply_Stopped] then State_Monad.return (Inr False)
               else if isCompletedRollback a then
                 do {
                   u \<leftarrow> MarkActionRequiredForApply ci (rolled_back_check check) a;
                   case u of
                     Inl e \<Rightarrow> State_Monad.return (Inl (Wrapped ''mark stored check state action_required after rollback'' e))
                   | Inr updated \<Rightarrow> State_Monad.return (Inr updated)
                 }
               else
                 do {
                   u \<leftarrow> CompleteForApply ci (outcome_check a check) a;
                   case u of
                     Inl e \<Rightarrow> State_Monad.return (Inl (Wrapped ''update stored check state after apply'' e))
                   | Inr updated \<Rightarrow> State_Monad.return (Inr updated)
                 })
    }"


section \<open>Lemmas on the handlers\<close>

lemma aggregate_options_conclusion:
  "opt_Conclusion (aggregate_options checkName headSHA dbChecks) = checkConclusionSuccess \<longleftrightarrow>
    computeAggregate (fst (normalizeStaleContributions dbChecks headSHA)) =
      (checkConclusionSuccess, checkStatusCompleted)"
proof -
  obtain contributions n where n: "normalizeStaleContributions dbChecks headSHA = (contributions, n)" by fastforce
  obtain conclusion status where c: "computeAggregate contributions = (conclusion, status)" by fastforce
  have "status = checkStatusCompleted" if "conclusion = checkConclusionSuccess"
    using c that by (auto simp: computeAggregate_def split: if_splits)
  moreover have "opt_Conclusion (aggregate_options checkName headSHA dbChecks) =
      (if status = checkStatusCompleted then conclusion else '''')"
    by (simp add: aggregate_options_def n c split: prod.split)
  ultimately show ?thesis by (auto simp: n c)
qed

lemma Check_Get_reads:
  assumes "run_state (Check_Get ci repo pr environment dbType database) w = (Inr x, w')"
  shows "x = find (\<lambda>r. chk_key ci r = (ci repo, pr, ci environment, ci dbType, ci database))
    (checks (w_db (snd (next_turn w))))"
  using assms by (auto simp: Check_Get_def QueryContext_def split: prod.splits option.splits)

lemma publish_and_store_Some:
  "run_state (publish_and_store ci client repo pr headSHA environment existing opts agg) w = (Inr (Some p), w') \<Longrightarrow>
    p = opts"
  by (auto simp: publish_and_store_def split: sum.splits prod.splits)

lemma upsertAggregate_published:
  assumes "run_state (upsertAggregateCheckRun ci client repo pr headSHA dbChecks checkName environment) w =
      (Inr (Some opts), w')"
  shows "\<exists>existing w1. run_state (Check_Get ci repo pr environment aggregateSentinel aggregateSentinel) w =
      (Inr existing, w1) \<and> \<not> aggregate_blocked existing \<and> opts = aggregate_options checkName headSHA dbChecks"
  using assms unfolding upsertAggregateCheckRun_def
  by (auto simp del: Check_Get_def split: sum.splits prod.splits if_splits dest: publish_and_store_Some)

lemma published_also_mem:
  "published_also p rest = Inr ps \<Longrightarrow> x \<in> set ps \<Longrightarrow> p = Inr (Some x) \<or> (\<exists>qs. rest = Inr qs \<and> x \<in> set qs)"
  by (auto simp: published_also_def split: sum.splits option.splits)

lemma post_passing_unblocked:
  assumes "run_state (post_passing ci client repo pr headSHA stored targets) w = (Inr published, w')"
    and "p \<in> set published"
  shows "\<exists>name env. (name, env) \<in> set targets \<and> p = passing_options name \<and>
    \<not> hasBlockingCheckForEnvironment stored env"
  using assms
proof (induction targets arbitrary: w published w')
  case (Cons t ts)
  obtain name env where t: "t = (name, env)" by fastforce
  have ih: ?case if "run_state (post_passing ci client repo pr headSHA stored ts) w2 = (Inr ps, w3)" "p \<in> set ps"
    for w2 ps w3
    using Cons.IH [OF that] by auto
  show ?case
  proof (cases "hasBlockingCheckForEnvironment stored env")
    case True
    with Cons.prems(1) t have "run_state (post_passing ci client repo pr headSHA stored ts) w = (Inr published, w')"
      by simp
    from ih [OF this Cons.prems(2)] show ?thesis .
  next
    case False
    obtain g w1 where get: "run_state (Check_Get ci repo pr env aggregateSentinel aggregateSentinel) w = (g, w1)"
      by fastforce
    show ?thesis
    proof (cases "\<exists>e. g = Inl e \<or> (\<exists>ex. g = Inr ex \<and> already_passing headSHA ex)")
      case True
      with Cons.prems(1) t False get
      have "run_state (post_passing ci client repo pr headSHA stored ts) w1 = (Inr published, w')" by auto
      from ih [OF this Cons.prems(2)] show ?thesis .
    next
      case nf: False
      then obtain ex where g: "g = Inr ex" "\<not> already_passing headSHA ex" by (cases g) auto
      obtain q w2 where pub: "run_state (publish_and_store ci client repo pr headSHA env ex
          (passing_options name) (checkConclusionSuccess, checkStatusCompleted)) w1 = (q, w2)" by fastforce
      obtain rest w3 where post: "run_state (post_passing ci client repo pr headSHA stored ts) w2 = (rest, w3)"
        by fastforce
      have "published_also q rest = Inr published"
        using Cons.prems(1) by (simp add: t False get g pub post)
      from published_also_mem [OF this Cons.prems(2)] show ?thesis
      proof
        assume "q = Inr (Some p)"
        with pub have "p = passing_options name" by (auto dest: publish_and_store_Some)
        with False t show ?thesis by auto
      qed (use post ih in auto)
    qed
  qed
qed simp


text \<open>The writes of \<open>updateCheckRecordForApplyResult\<close>, without interference.\<close>

lemma run_wrapped_write:
  assumes "run_state (State_Monad.bind m (\<lambda>u. case u of Inl e \<Rightarrow> State_Monad.return (Inl (Wrapped msg e))
      | Inr x \<Rightarrow> State_Monad.return (Inr x))) w = (res, w')"
  obtains u where "run_state m w = (u, w')" and "res = Inr True \<longleftrightarrow> u = Inr True"
  using assms by (auto split: prod.splits sum.splits)

lemma outcome_check_simps [simp]:
  "chk_key ci (rolled_back_check check) = chk_key ci check"
  "chk_Status (rolled_back_check check) = checkStatusCompleted"
  "chk_Conclusion (rolled_back_check check) = checkConclusionActionRequired"
  "chk_key ci (outcome_check a check) = chk_key ci check"
  "chk_Status (outcome_check a check) = checkStatusCompleted"
  "chk_Conclusion (outcome_check a check) = apply_conclusion a check"
  by (simp_all add: outcome_check_def rolled_back_check_def Let_def chk_key_def)

lemma written_simps:
  "chk_Status (stamp_check d (set_owned_result check i r)) = chk_Status check"
  "chk_Conclusion (stamp_check d (set_owned_result check i r)) = chk_Conclusion check"
  "chk_ApplyID (stamp_check d (set_owned_result check i r)) = i"
  by (simp_all add: stamp_check_def set_owned_result_def set_result_def)


section \<open>Properties\<close>

text \<open>
  Property C37 (what a published success means).  Whatever the other sessions do, when the handler
  publishes an aggregate with conclusion success, no blocking reason was stored for the aggregate when
  it was read, and every contributing row is for the published commit, finished, and neither a failure
  nor action required.
\<close>

theorem published_success_sound:
  assumes "run_state (upsertAggregateCheckRun ci client repo pr headSHA dbChecks checkName environment) w =
      (Inr (Some opts), w')"
    and "opt_Conclusion opts = checkConclusionSuccess"
  shows "\<not> aggregate_blocked (find (\<lambda>r. chk_key ci r = (ci repo, pr, ci environment, ci aggregateSentinel,
        ci aggregateSentinel)) (checks (w_db (snd (next_turn w))))) \<and>
    (\<forall>c\<in>set dbChecks. chk_HeadSHA c = headSHA \<and> chk_Status c \<noteq> checkStatusInProgress \<and>
      chk_Conclusion c \<noteq> checkConclusionFailure \<and> chk_Conclusion c \<noteq> checkConclusionActionRequired)"
proof -
  from upsertAggregate_published [OF assms(1)] obtain existing w1 where
    get: "run_state (Check_Get ci repo pr environment aggregateSentinel aggregateSentinel) w = (Inr existing, w1)"
    and nb: "\<not> aggregate_blocked existing" and opts: "opts = aggregate_options checkName headSHA dbChecks" by blast
  from assms(2) have "computeAggregate (fst (normalizeStaleContributions dbChecks headSHA)) =
      (checkConclusionSuccess, checkStatusCompleted)"
    unfolding opts aggregate_options_conclusion .
  then show ?thesis
    using nb unfolding Check_Get_reads [OF get] aggregate_success_iff by blast
qed

definition example_client :: InstallationClient where
  "example_client = \<lparr>FetchPullRequest = (\<lambda>_ _. Inr ''sha1''), UpdateCheckRun = (\<lambda>_ _ _. Inr ()),
     CreateCheckRun = (\<lambda>_ _ _. Inr 11)\<rparr>"

theorem published_success_sound_witness:
  "\<not> aggregate_blocked (find (\<lambda>r. chk_key ToLower r = (ToLower ''org/app'', 7, ToLower ''staging'',
      ToLower aggregateSentinel, ToLower aggregateSentinel)) (checks (w_db (snd (next_turn (quiet empty_db))))))"
proof -
  let ?run = "run_state (upsertAggregateCheckRun ToLower example_client ''org/app'' 7 ''sha1''
      [example_check ''sha1'' ''completed'' ''success'' 9] ''SchemaBot (staging)'' ''staging'') (quiet empty_db)"
  let ?opts = "aggregate_options ''SchemaBot (staging)'' ''sha1'' [example_check ''sha1'' ''completed'' ''success'' 9]"
  have "fst ?run = Inr (Some ?opts)" by code_simp
  then have run: "?run = (Inr (Some ?opts), snd ?run)" by (simp only: prod_eq_iff fst_conv snd_conv)
  have "opt_Conclusion ?opts = checkConclusionSuccess" by code_simp
  from published_success_sound [OF run this] show ?thesis by (rule conjunct1)
qed

text \<open>
  Further fact (stored blocks stay).  When the stored aggregate carries a blocking reason, recomputing
  the aggregate publishes nothing and changes nothing.
\<close>

theorem aggregate_block_durable:
  assumes "find (\<lambda>r. chk_key ci r = (ci repo, pr, ci environment, ci aggregateSentinel, ci aggregateSentinel))
      (checks d) = Some ex"
    and "chk_BlockingReason ex \<noteq> ''''"
  shows "run_state (upsertAggregateCheckRun ci client repo pr headSHA dbChecks checkName environment) (quiet d) =
    (Inr None, quiet d)"
  using assms by (simp add: upsertAggregateCheckRun_def Check_Get_def aggregate_blocked_def)

theorem aggregate_block_durable_witness:
  "run_state (upsertAggregateCheckRun ToLower example_client ''org/app'' 7 ''sha1'' [] ''SchemaBot'' aggregateSentinel)
     (quiet (empty_db\<lparr>checks := [(example_check ''sha1'' ''completed'' ''failure'' 0)\<lparr>chk_BlockingReason := ''x'',
        chk_Environment := aggregateSentinel, chk_DatabaseType := aggregateSentinel, chk_DatabaseName := aggregateSentinel\<rparr>]\<rparr>)) =
   (Inr None, quiet (empty_db\<lparr>checks := [(example_check ''sha1'' ''completed'' ''failure'' 0)\<lparr>chk_BlockingReason := ''x'',
        chk_Environment := aggregateSentinel, chk_DatabaseType := aggregateSentinel, chk_DatabaseName := aggregateSentinel\<rparr>]\<rparr>))"
proof (rule aggregate_block_durable [where ex = "(example_check ''sha1'' ''completed'' ''failure'' 0)\<lparr>chk_BlockingReason := ''x'',
        chk_Environment := aggregateSentinel, chk_DatabaseType := aggregateSentinel, chk_DatabaseName := aggregateSentinel\<rparr>"])
qed (simp_all add: example_check_def chk_key_def)

text \<open>What a recorded outcome \<open>q\<close> of the apply owes to the row \<open>r\<close> it replaced.\<close>

definition outcome_ok :: "(string \<Rightarrow> string) \<Rightarrow> Apply \<Rightarrow> db \<Rightarrow> Check \<Rightarrow> Check \<Rightarrow> bool" where
  "outcome_ok ci a d r q \<longleftrightarrow>
    \<not> IsState (apply_State a) [Apply_Stopped] \<and> \<not> newer_apply ci (apply_ID a) d r \<and>
    chk_Status q = checkStatusCompleted \<and>
    (if isCompletedRollback a then chk_Conclusion q = checkConclusionActionRequired \<and> chk_ApplyID q = 0
     else apply_in_progress r \<and> chk_ApplyID r = apply_ID a \<and> chk_ApplyID q = apply_ID a \<and>
       (chk_Conclusion q = checkConclusionSuccess \<longleftrightarrow>
        IsState (apply_State a) [Apply_Completed] \<and> \<not> checkBlockedByRemovedSchemaAfterApply r))"

text \<open>
  Further fact (recording an apply's outcome).  Recording the outcome of an apply reports an update only
  when no newer apply of the target exists.  A completed rollback then leaves the row unowned with
  action required; any other outcome was written by the apply that owned the in-progress row, keeps
  its ownership, and is a success exactly when the apply completed and the schema change had not been
  removed from the pull request.  Without an update, and for a stopped apply, nothing changes.
\<close>

theorem apply_outcome_recorded:
  assumes "checks_unique ci d"
    and "k = (ci repo, pr, ci (apply_Environment a), ci (apply_DatabaseType a), ci (apply_Database a))"
    and "run_state (updateCheckRecordForApplyResult ci repo pr a) (quiet d) = (res, w)"
  shows "if res = Inr True
    then \<exists>r q. find (\<lambda>r. chk_key ci r = k) (checks d) = Some r \<and>
           find (\<lambda>r. chk_key ci r = k) (checks (w_db w)) = Some q \<and> outcome_ok ci a d r q
    else w_db w = d"
proof -
  have get: "run_state (Check_Get ci repo pr (apply_Environment a) (apply_DatabaseType a) (apply_Database a)) (quiet d) =
      (Inr (find (\<lambda>r. chk_key ci r = k) (checks d)), quiet d)"
    by (simp add: Check_Get_def assms(2))
  note run = assms(3) [unfolded updateCheckRecordForApplyResult_def run_state_bind get prod.case sum.case]
  show ?thesis
  proof (cases "find (\<lambda>r. chk_key ci r = k) (checks d)")
    case None
    with run show ?thesis by auto
  next
    case (Some r)
    have key: "chk_key ci r = k" using find_SomeD [OF Some] by simp
    note run = run [unfolded Some option.case]
    consider (stopped) "IsState (apply_State a) [Apply_Stopped]"
      | (rollback) "\<not> IsState (apply_State a) [Apply_Stopped]" "isCompletedRollback a"
      | (other) "\<not> IsState (apply_State a) [Apply_Stopped]" "\<not> isCompletedRollback a" by blast
    then show ?thesis
    proof cases
      case stopped
      with run show ?thesis by auto
    next
      case rollback
      from run [unfolded if_not_P [OF rollback(1)] if_P [OF rollback(2)]] obtain u where
        u: "run_state (MarkActionRequiredForApply ci (rolled_back_check r) a) (quiet d) = (u, w)"
        and res: "res = Inr True \<longleftrightarrow> u = Inr True" by (rule run_wrapped_write)
      note wr = rollback_write [OF assms(1) u, unfolded outcome_check_simps key Some]
      from wr res rollback Some show ?thesis by (auto simp: outcome_ok_def written_simps)
    next
      case other
      from run [unfolded if_not_P [OF other(1)] if_not_P [OF other(2)]] obtain u where
        u: "run_state (CompleteForApply ci (outcome_check a r) a) (quiet d) = (u, w)"
        and res: "res = Inr True \<longleftrightarrow> u = Inr True" by (rule run_wrapped_write)
      note wr = complete_write [OF assms(1) u, unfolded outcome_check_simps key Some]
      have "apply_conclusion a r = checkConclusionSuccess \<longleftrightarrow>
          IsState (apply_State a) [Apply_Completed] \<and> \<not> checkBlockedByRemovedSchemaAfterApply r"
        by (simp add: apply_conclusion_def)
      with wr res other Some show ?thesis by (auto simp: outcome_ok_def written_simps)
    qed
  qed
qed


theorem apply_outcome_recorded_witness:
  "\<exists>r q. find (\<lambda>r. chk_key ToLower r = (''org/app'', 7, ''staging'', ''mysql'', ''orders''))
      [example_check ''sha1'' ''in_progress'' '''' 9] = Some r \<and>
    outcome_ok ToLower (check_apply 9 ''completed'')
      (empty_db\<lparr>checks := [example_check ''sha1'' ''in_progress'' '''' 9], applies := [check_apply 9 ''completed'']\<rparr>) r q"
proof -
  let ?d = "empty_db\<lparr>checks := [example_check ''sha1'' ''in_progress'' '''' 9], applies := [check_apply 9 ''completed'']\<rparr>"
  let ?run = "run_state (updateCheckRecordForApplyResult ToLower ''org/app'' 7 (check_apply 9 ''completed'')) (quiet ?d)"
  have "fst ?run = Inr True" by code_simp
  then have run: "?run = (Inr True, snd ?run)" by (simp only: prod_eq_iff fst_conv snd_conv)
  have uniq: "checks_unique ToLower ?d" by (simp add: checks_unique_def)
  have key: "(''org/app'', 7 :: int, ''staging'', ''mysql'', ''orders'') = (ToLower ''org/app'', 7,
      ToLower (apply_Environment (check_apply 9 ''completed'')), ToLower (apply_DatabaseType (check_apply 9 ''completed'')),
      ToLower (apply_Database (check_apply 9 ''completed'')))" by code_simp
  have eq: "checks ?d = [example_check ''sha1'' ''in_progress'' '''' 9]" by simp
  note apply_outcome_recorded [OF uniq key run, unfolded if_P [OF refl] eq]
  then show ?thesis by blast
qed

end
