(* ===== verification/Stages.thy ===== *)
theory Stages
  imports Sql_Store
begin

text \<open>
  Handlers as sequences of stages: a stage over a \<open>world\<close> either stops its handler with a value, the
  early return of the source, or hands a value on.
\<close>

text \<open>A stage stops the command (\<open>Inl\<close>) or hands on to the next one.\<close>

definition and_then :: "(world, 's + 'a) state \<Rightarrow> ('a \<Rightarrow> (world, 's + 'b) state) \<Rightarrow> (world, 's + 'b) state" where
  "and_then p f = do { r \<leftarrow> p; case r of Inl stop \<Rightarrow> State_Monad.return (Inl stop) | Inr x \<Rightarrow> f x }"

definition proceed :: "'a \<Rightarrow> (world, 's + 'a) state" where
  "proceed x = State_Monad.return (Inr x)"

definition stop_with :: "'s \<Rightarrow> (world, 's + 'a) state" where
  "stop_with a = State_Monad.return (Inl a)"

lemma run_and_then:
  "run_state (and_then p f) w = (case run_state p w of (Inl a, w') \<Rightarrow> (Inl a, w') | (Inr x, w') \<Rightarrow> run_state (f x) w')"
  by (simp add: and_then_def split: prod.split sum.split)

lemma and_thenE:
  assumes "run_state (and_then p f) w = (Inr y, w')"
  obtains x w1 where "run_state p w = (Inr x, w1)" and "run_state (f x) w1 = (Inr y, w')"
  using assms by (auto simp: run_and_then split: prod.splits sum.splits)

lemma run_proceed [simp]: "run_state (proceed x) w = (Inr x, w)"
  by (simp add: proceed_def)

lemma run_stop_with [simp]: "run_state (stop_with a) w = (Inl a, w)"
  by (simp add: stop_with_def)

end
