(* ===== verification/Lock_Store.thy ===== *)
theory Lock_Store
  imports Sql_Store
begin

text \<open>
  The deployment locks of \<^verbatim>\<open>pkg/storage/mysqlstore/locks.go\<close>: one row per database and type, held
  by an owner, with the plan the owner has to confirm.  The user-supplied names are compared by
  SQL under the column's collation; \<open>ci\<close> is its key function (equal keys, equal strings), a
  parameter of the model, while Go compares owners byte by byte.
\<close>

section \<open>The lock store\<close>

definition lock_key :: "(string \<Rightarrow> string) \<Rightarrow> Lock \<Rightarrow> string \<times> string" where
  "lock_key ci l = (ci (lock_DatabaseName l), ci (lock_DatabaseType l))"

definition lock_row :: "(string \<Rightarrow> string) \<Rightarrow> string \<Rightarrow> string \<Rightarrow> Lock \<Rightarrow> bool" where
  "lock_row ci database dbType l \<longleftrightarrow> lock_key ci l = (ci database, ci dbType)"

definition Lock_Get :: "(string \<Rightarrow> string) \<Rightarrow> string \<Rightarrow> string \<Rightarrow> Lock option prog" where
  "Lock_Get ci database dbType = QueryContext (\<lambda>d. find (lock_row ci database dbType) (locks d))"

definition insert_lock :: "(string \<Rightarrow> string) \<Rightarrow> Lock \<Rightarrow> statement" where
  "insert_lock ci lock d =
    (if list_ex (\<lambda>l. lock_key ci l = lock_key ci lock) (locks d) then Inl duplicate_entry
     else Inr (d\<lparr>locks := locks d @
                  [lock\<lparr>lock_ID := locks_next d, lock_CreatedAt := now d, lock_UpdatedAt := now d\<rparr>],
                 locks_next := locks_next d + 1\<rparr>, locks_next d))"

definition update_locks :: "(Lock \<Rightarrow> bool) \<Rightarrow> (db \<Rightarrow> Lock \<Rightarrow> Lock) \<Rightarrow> statement" where
  "update_locks P f d =
    Inr (d\<lparr>locks := sql_update P (f d) (locks d)\<rparr>, rows_changed P (f d) (locks d))"

definition delete_locks :: "(Lock \<Rightarrow> bool) \<Rightarrow> statement" where
  "delete_locks P d =
    Inr (d\<lparr>locks := filter (\<lambda>l. \<not> P l) (locks d)\<rparr>, int (length (filter P (locks d))))"

definition refreshPendingPlanID :: "(string \<Rightarrow> string) \<Rightarrow> Lock \<Rightarrow> Lock \<Rightarrow> unit prog" where
  "refreshPendingPlanID ci lock existing =
    (if lock_PendingPlanID lock = '''' \<or> lock_PendingPlanID lock = lock_PendingPlanID existing
     then State_Monad.return (Inr ())
     else
       do {
         result \<leftarrow> ExecContext (update_locks
           (\<lambda>l. lock_row ci (lock_DatabaseName lock) (lock_DatabaseType lock) l \<and>
                ci (lock_Owner l) = ci (lock_Owner lock))
           (\<lambda>d l. l\<lparr>lock_PendingPlanID := lock_PendingPlanID lock, lock_UpdatedAt := now d\<rparr>));
         case result of
           Inl e \<Rightarrow> State_Monad.return (Inl (Wrapped ''refresh pending_plan_id'' e))
         | Inr rowsAffected \<Rightarrow>
             if rowsAffected > 0 then State_Monad.return (Inr ())
             else
               do {
                 r \<leftarrow> Lock_Get ci (lock_DatabaseName lock) (lock_DatabaseType lock);
                 case r of
                   Inl getErr \<Rightarrow>
                     State_Monad.return
                       (Inl (Wrapped ''read lock after pending_plan_id refresh affected no rows'' getErr))
                 | Inr current \<Rightarrow>
                     (case current of
                        None \<Rightarrow> State_Monad.return (Inl ErrLockNotFound)
                      | Some cur \<Rightarrow>
                          if lock_Owner cur = lock_Owner lock then State_Monad.return (Inr ())
                          else State_Monad.return (Inl ErrLockHeld))
               }
       })"

definition acquireOnce :: "(string \<Rightarrow> string) \<Rightarrow> Lock \<Rightarrow> unit prog" where
  "acquireOnce ci lock =
    do {
      r \<leftarrow> Lock_Get ci (lock_DatabaseName lock) (lock_DatabaseType lock);
      case r of
        Inl e \<Rightarrow> State_Monad.return (Inl (Wrapped ''read existing lock'' e))
      | Inr existing \<Rightarrow>
          (case existing of
             Some ex \<Rightarrow>
               if lock_Owner ex \<noteq> lock_Owner lock then State_Monad.return (Inl ErrLockHeld)
               else refreshPendingPlanID ci lock ex
           | None \<Rightarrow>
               do {
                 result \<leftarrow> ExecContext (insert_lock ci lock);
                 case result of
                   Inr _ \<Rightarrow> State_Monad.return (Inr ())
                 | Inl e \<Rightarrow>
                     if \<not> isDuplicateKeyError e
                     then State_Monad.return (Inl (Wrapped ''insert lock'' e))
                     else
                       do {
                         g \<leftarrow> Lock_Get ci (lock_DatabaseName lock) (lock_DatabaseType lock);
                         case g of
                           Inl getErr \<Rightarrow>
                             State_Monad.return (Inl (Wrapped ''read lock after insert race'' getErr))
                         | Inr winner \<Rightarrow>
                             (case winner of
                                None \<Rightarrow> State_Monad.return (Inl ErrLockHeld)
                              | Some wn \<Rightarrow>
                                  if lock_Owner wn \<noteq> lock_Owner lock
                                  then State_Monad.return (Inl ErrLockHeld)
                                  else refreshPendingPlanID ci lock wn)
                       }
               })
    }"

definition Acquire :: "(string \<Rightarrow> string) \<Rightarrow> Lock \<Rightarrow> unit prog" where
  "Acquire ci lock = withLockRetry ''acquire lock'' (acquireOnce ci lock)"

definition Release :: "(string \<Rightarrow> string) \<Rightarrow> string \<Rightarrow> string \<Rightarrow> string \<Rightarrow> unit prog" where
  "Release ci database dbType owner =
    do {
      result \<leftarrow> ExecContext (delete_locks
        (\<lambda>l. lock_row ci database dbType l \<and> ci (lock_Owner l) = ci owner));
      case result of
        Inl e \<Rightarrow> State_Monad.return (Inl e)
      | Inr rowsAffected \<Rightarrow>
          if rowsAffected = 0 then
            do {
              r \<leftarrow> Lock_Get ci database dbType;
              case r of
                Inl e \<Rightarrow> State_Monad.return (Inl e)
              | Inr existing \<Rightarrow>
                  (case existing of
                     None \<Rightarrow> State_Monad.return (Inl ErrLockNotFound)
                   | Some _ \<Rightarrow> State_Monad.return (Inl ErrLockNotOwned))
            }
          else State_Monad.return (Inr ())
    }"

definition ReleaseIfPendingPlanID ::
  "(string \<Rightarrow> string) \<Rightarrow> string \<Rightarrow> string \<Rightarrow> string \<Rightarrow> string \<Rightarrow> bool prog" where
  "ReleaseIfPendingPlanID ci database dbType owner pendingPlanID =
    do {
      result \<leftarrow> ExecContext (delete_locks
        (\<lambda>l. lock_row ci database dbType l \<and> ci (lock_Owner l) = ci owner \<and>
             ci (lock_PendingPlanID l) = ci pendingPlanID));
      case result of
        Inl e \<Rightarrow> State_Monad.return (Inl e)
      | Inr rowsAffected \<Rightarrow> State_Monad.return (Inr (rowsAffected > 0))
    }"

definition ForceRelease :: "(string \<Rightarrow> string) \<Rightarrow> string \<Rightarrow> string \<Rightarrow> unit prog" where
  "ForceRelease ci database dbType =
    do {
      result \<leftarrow> ExecContext (delete_locks (lock_row ci database dbType));
      case result of
        Inl e \<Rightarrow> State_Monad.return (Inl e)
      | Inr rowsAffected \<Rightarrow> State_Monad.return (checkRowsAffected rowsAffected ErrLockNotFound)
    }"

definition Lock_List :: "Lock list prog" where
  "Lock_List = QueryContext (\<lambda>d. sort_key (\<lambda>l. - lock_CreatedAt l) (locks d))"

definition Lock_Update :: "(string \<Rightarrow> string) \<Rightarrow> Lock \<Rightarrow> unit prog" where
  "Lock_Update ci lock =
    do {
      result \<leftarrow> ExecContext (update_locks
        (lock_row ci (lock_DatabaseName lock) (lock_DatabaseType lock))
        (\<lambda>d l. l\<lparr>lock_UpdatedAt := now d\<rparr>));
      case result of
        Inl e \<Rightarrow> State_Monad.return (Inl (Wrapped ''touch lock'' e))
      | Inr rowsAffected \<Rightarrow>
          if rowsAffected > 0 then State_Monad.return (Inr ())
          else
            do {
              r \<leftarrow> Lock_Get ci (lock_DatabaseName lock) (lock_DatabaseType lock);
              case r of
                Inl getErr \<Rightarrow>
                  State_Monad.return (Inl (Wrapped ''read lock after touch affected no rows'' getErr))
              | Inr current \<Rightarrow>
                  (case current of
                     None \<Rightarrow> State_Monad.return (Inl ErrLockNotFound)
                   | Some _ \<Rightarrow> State_Monad.return (Inr ()))
            }
    }"

definition Lock_GetByPR :: "(string \<Rightarrow> string) \<Rightarrow> string \<Rightarrow> int \<Rightarrow> Lock list prog" where
  "Lock_GetByPR ci repo pr =
    do {
      r \<leftarrow> QueryContext (\<lambda>d. filter
        (\<lambda>l. ci (lock_Repository l) = ci repo \<and> lock_PullRequest l = pr) (locks d));
      case r of
        Inl e \<Rightarrow> State_Monad.return (Inl (Wrapped ''query locks'' e))
      | Inr ls \<Rightarrow> State_Monad.return (Inr ls)
    }"

section \<open>The unique key\<close>

text \<open>
  The invariant the unique key enforces: at most one row per database and type.  Every statement of
  the store keeps it, so every store method does, under any interference that keeps it.
\<close>

definition locks_unique :: "(string \<Rightarrow> string) \<Rightarrow> db \<Rightarrow> bool" where
  "locks_unique ci d \<longleftrightarrow> distinct (map (lock_key ci) (locks d))"

lemma lock_key_update [simp]:
  "lock_key ci (l\<lparr>lock_ID := i\<rparr>) = lock_key ci l"
  "lock_key ci (l\<lparr>lock_CreatedAt := a\<rparr>) = lock_key ci l"
  "lock_key ci (l\<lparr>lock_PendingPlanID := p\<rparr>) = lock_key ci l"
  "lock_key ci (l\<lparr>lock_UpdatedAt := b\<rparr>) = lock_key ci l"
  by (simp_all add: lock_key_def)

lemma lock_row_key:
  "lock_row ci (lock_DatabaseName lock) (lock_DatabaseType lock) l \<longleftrightarrow>
    lock_key ci l = lock_key ci lock"
  by (simp add: lock_row_def lock_key_def)

lemma insert_lock_unique:
  "locks_unique ci d \<Longrightarrow> insert_lock ci lock d = Inr (d', n) \<Longrightarrow> locks_unique ci d'"
  by (auto simp: insert_lock_def locks_unique_def list_ex_iff split: if_splits) metis

lemma update_locks_unique:
  assumes "\<And>d l. lock_key ci (f d l) = lock_key ci l"
  shows "locks_unique ci d \<Longrightarrow> update_locks P f d = Inr (d', n) \<Longrightarrow> locks_unique ci d'"
  using assms by (auto simp: update_locks_def locks_unique_def map_key_sql_update)

lemma delete_locks_unique:
  "locks_unique ci d \<Longrightarrow> delete_locks P d = Inr (d', n) \<Longrightarrow> locks_unique ci d'"
  by (auto simp: delete_locks_def locks_unique_def distinct_map_filter)

section \<open>Acquiring under interference\<close>

definition owned :: "(string \<Rightarrow> string) \<Rightarrow> Lock \<Rightarrow> db \<Rightarrow> bool" where
  "owned ci lock d \<longleftrightarrow>
    (\<exists>l\<in>set (locks d). lock_key ci l = lock_key ci lock \<and> ci (lock_Owner l) = ci (lock_Owner lock))"

lemma ownedI_find:
  assumes "Some l = find (lock_row ci (lock_DatabaseName lock) (lock_DatabaseType lock)) (locks d)"
    and "lock_Owner l = lock_Owner lock"
  shows "owned ci lock d"
  using find_SomeD [OF assms(1) [symmetric]] assms(2) by (auto simp: owned_def lock_row_key)

lemma owned_insert_lock:
  "insert_lock ci lock d = Inr (d', n) \<Longrightarrow> owned ci lock d'"
  by (auto simp: insert_lock_def owned_def split: if_splits)

abbreviation refresh_statement :: "(string \<Rightarrow> string) \<Rightarrow> Lock \<Rightarrow> statement" where
  "refresh_statement ci lock \<equiv> update_locks
     (\<lambda>l. lock_row ci (lock_DatabaseName lock) (lock_DatabaseType lock) l \<and>
          ci (lock_Owner l) = ci (lock_Owner lock))
     (\<lambda>d l. l\<lparr>lock_PendingPlanID := lock_PendingPlanID lock, lock_UpdatedAt := now d\<rparr>)"

lemma owned_refresh:
  assumes "refresh_statement ci lock d = Inr (d', n)" and "n > 0"
  shows "owned ci lock d'"
proof -
  from assms obtain l where l: "l \<in> set (locks d)" "lock_key ci l = lock_key ci lock"
      "ci (lock_Owner l) = ci (lock_Owner lock)"
    by (auto simp: update_locks_def rows_changed_pos_iff lock_row_key)
  let ?l = "l\<lparr>lock_PendingPlanID := lock_PendingPlanID lock, lock_UpdatedAt := now d\<rparr>"
  from assms(1) l have "?l \<in> set (locks d')"
    by (auto simp: update_locks_def set_sql_update lock_row_key)
  with l show ?thesis by (auto simp: owned_def intro!: bexI [of _ ?l])
qed

lemma hoare_Lock_Get:
  assumes "\<And>w. P w \<Longrightarrow> winv (locks_unique ci) w"
  shows "hoare P (Lock_Get ci database dbType)
    (\<lambda>r w. winv (locks_unique ci) w \<and>
      (\<forall>x. r = Inr x \<longrightarrow> x = find (lock_row ci database dbType) (locks (w_db w))))"
  unfolding Lock_Get_def using assms by (rule hoare_query)

lemma hoare_refresh_update:
  assumes "\<And>w. P w \<Longrightarrow> winv (locks_unique ci) w"
  shows "hoare P (ExecContext (refresh_statement ci lock))
    (\<lambda>r w. winv (locks_unique ci) w \<and> (\<forall>n. r = Inr n \<and> n > 0 \<longrightarrow> owned ci lock (w_db w)))"
proof (rule hoare_conseq [OF hoare_exec [where P = P and I = "locks_unique ci"]])
  show "locks_unique ci d'"
    if "locks_unique ci d" "refresh_statement ci lock d = Inr (d', n)" for d d' n
    using that by (rule update_locks_unique [rotated]) simp
qed (auto dest: assms owned_refresh)

lemma hoare_insert_lock:
  assumes "\<And>w. P w \<Longrightarrow> winv (locks_unique ci) w"
  shows "hoare P (ExecContext (insert_lock ci lock))
    (\<lambda>r w. winv (locks_unique ci) w \<and> (\<forall>n. r = Inr n \<longrightarrow> owned ci lock (w_db w)))"
  by (rule hoare_conseq [OF hoare_exec [where P = P and I = "locks_unique ci"]])
    (auto dest: assms insert_lock_unique owned_insert_lock)

lemma hoare_refreshPendingPlanID:
  assumes "\<And>w. P w \<Longrightarrow> winv (locks_unique ci) w \<and> owned ci lock (w_db w)"
  shows "hoare P (refreshPendingPlanID ci lock existing)
    (\<lambda>r w. winv (locks_unique ci) w \<and> (\<forall>x. r = Inr x \<longrightarrow> owned ci lock (w_db w)))"
  unfolding refreshPendingPlanID_def
  by (intro hoare_branch hoare_bind [OF hoare_refresh_update] hoare_bind [OF hoare_Lock_Get])
    (auto dest: assms ownedI_find)

lemma hoare_acquireOnce:
  "hoare (winv (locks_unique ci)) (acquireOnce ci lock)
    (\<lambda>r w. winv (locks_unique ci) w \<and> (\<forall>x. r = Inr x \<longrightarrow> owned ci lock (w_db w)))"
  unfolding acquireOnce_def
  by (intro hoare_branch hoare_bind [OF hoare_insert_lock] hoare_bind [OF hoare_Lock_Get]
      hoare_refreshPendingPlanID) (auto dest: ownedI_find)

lemma hoare_Acquire:
  "hoare (winv (locks_unique ci)) (Acquire ci lock)
    (\<lambda>r w. winv (locks_unique ci) w \<and> (\<forall>x. r = Inr x \<longrightarrow> owned ci lock (w_db w)))"
  unfolding Acquire_def by (rule hoare_withLockRetry) (rule hoare_acquireOnce)

section \<open>What a lock promises\<close>

text \<open>
  The abstract lock table: per key, the owner and the plan it has to confirm.  Without
  interference the store's methods implement these operations.
\<close>

type_synonym lock_table = "string \<times> string \<Rightarrow> (string \<times> string) option"

definition held :: "(string \<Rightarrow> string) \<Rightarrow> db \<Rightarrow> lock_table" where
  "held ci d k = map_option (\<lambda>l. (lock_Owner l, lock_PendingPlanID l))
     (find (\<lambda>l. lock_key ci l = k) (locks d))"

definition acquire_spec ::
  "(string \<Rightarrow> string) \<Rightarrow> Lock \<Rightarrow> lock_table \<Rightarrow> (err + unit) \<times> lock_table" where
  "acquire_spec ci lock t =
    (let k = lock_key ci lock; p = lock_PendingPlanID lock in
     case t k of
       None \<Rightarrow> (Inr (), t(k \<mapsto> (lock_Owner lock, p)))
     | Some (owner, plan) \<Rightarrow>
         if owner \<noteq> lock_Owner lock then (Inl ErrLockHeld, t)
         else (Inr (), t(k \<mapsto> (owner, if p = '''' then plan else p))))"

definition release_spec ::
  "(string \<Rightarrow> string) \<Rightarrow> string \<times> string \<Rightarrow> string \<Rightarrow> lock_table \<Rightarrow> (err + unit) \<times> lock_table" where
  "release_spec ci k owner t =
    (case t k of
       None \<Rightarrow> (Inl ErrLockNotFound, t)
     | Some (own, plan) \<Rightarrow>
         if ci own = ci owner then (Inr (), t(k := None)) else (Inl ErrLockNotOwned, t))"

lemma acquire_spec_success:
  "acquire_spec ci lock t = (Inr x, t') \<Longrightarrow> \<exists>p. t' (lock_key ci lock) = Some (lock_Owner lock, p)"
  by (auto simp: acquire_spec_def Let_def split: option.splits if_splits)

lemma acquire_spec_other:
  assumes "t k = Some (own, p)" and "acquire_spec ci l t = (r, t')"
    and "lock_key ci l = k \<Longrightarrow> lock_Owner l \<noteq> own"
  shows "t' k = Some (own, p) \<and> (lock_key ci l = k \<longrightarrow> r = Inl ErrLockHeld)"
  using assms by (auto simp: acquire_spec_def Let_def split: option.splits if_splits)

lemma held_simps:
  "held ci d k = None \<longleftrightarrow> find (\<lambda>l. lock_key ci l = k) (locks d) = None"
  by (simp add: held_def)

lemma Lock_Get_quiet:
  "run_state (Lock_Get ci (lock_DatabaseName lock) (lock_DatabaseType lock)) (quiet d) =
    (Inr (find (\<lambda>l. lock_key ci l = lock_key ci lock) (locks d)), quiet d)"
  by (simp add: Lock_Get_def lock_row_key [abs_def])

lemma insert_lock_held:
  assumes "find (\<lambda>l. lock_key ci l = lock_key ci lock) (locks d) = None"
  obtains d' n where "insert_lock ci lock d = Inr (d', n)"
    and "held ci d' = (held ci d)(lock_key ci lock \<mapsto> (lock_Owner lock, lock_PendingPlanID lock))"
proof -
  let ?row = "lock\<lparr>lock_ID := locks_next d, lock_CreatedAt := now d, lock_UpdatedAt := now d\<rparr>"
  let ?d = "d\<lparr>locks := locks d @ [?row], locks_next := locks_next d + 1\<rparr>"
  have "insert_lock ci lock d = Inr (?d, locks_next d)"
    using assms by (auto simp: insert_lock_def list_ex_iff find_None_iff)
  moreover have "held ci ?d k =
      ((held ci d)(lock_key ci lock \<mapsto> (lock_Owner lock, lock_PendingPlanID lock))) k" for k
    using assms by (cases "k = lock_key ci lock")
      (auto simp: held_def find_append_single split: option.splits)
  ultimately show ?thesis by (intro that) auto
qed

lemma update_locks_held:
  assumes "\<And>d l. lock_key ci (f d l) = lock_key ci l" and "locks_unique ci d"
    and "update_locks P f d = Inr (d', n)"
  shows "held ci d' k = map_option (\<lambda>l. if P l then (lock_Owner (f d l), lock_PendingPlanID (f d l))
      else (lock_Owner l, lock_PendingPlanID l)) (find (\<lambda>l. lock_key ci l = k) (locks d))"
proof -
  from assms(3) have "locks d' = sql_update P (f d) (locks d)"
    by (auto simp: update_locks_def)
  with find_key_update [of "lock_key ci" "f d"] assms(1,2)
  have "find (\<lambda>l. lock_key ci l = k) (locks d') =
      map_option (\<lambda>l. if P l then f d l else l) (find (\<lambda>l. lock_key ci l = k) (locks d))"
    by (simp add: locks_unique_def)
  then show ?thesis
    by (simp add: held_def option.map_comp) (auto intro: option.map_cong)
qed

lemma delete_locks_held:
  assumes "locks_unique ci d" and "delete_locks P d = Inr (d', n)"
  shows "held ci d' k = (case find (\<lambda>l. lock_key ci l = k) (locks d) of
      Some l \<Rightarrow> if P l then None else Some (lock_Owner l, lock_PendingPlanID l) | None \<Rightarrow> None)"
proof -
  from assms(2) have "locks d' = filter (\<lambda>l. \<not> P l) (locks d)"
    by (auto simp: delete_locks_def)
  with find_key_filter [of "lock_key ci"] assms(1) show ?thesis
    by (auto simp: held_def locks_unique_def split: option.split)
qed

section \<open>The store implements it\<close>

definition acquire_on :: "(string \<Rightarrow> string) \<Rightarrow> Lock \<Rightarrow> db \<Rightarrow> (err + unit) \<times> db" where
  "acquire_on ci lock d = (case run_state (Acquire ci lock) (quiet d) of (r, w) \<Rightarrow> (r, w_db w))"

definition release_on ::
  "(string \<Rightarrow> string) \<Rightarrow> string \<times> string \<Rightarrow> string \<Rightarrow> db \<Rightarrow> (err + unit) \<times> db" where
  "release_on ci k owner d =
    (case run_state (Release ci (fst k) (snd k) owner) (quiet d) of (r, w) \<Rightarrow> (r, w_db w))"

lemma acquire_on_unique:
  assumes "locks_unique ci d" and "acquire_on ci lock d = (r, d')"
  shows "locks_unique ci d'"
  using hoareD [OF hoare_Acquire [of ci lock], of "quiet d"] assms
  by (auto simp: acquire_on_def winv_def alone_def split: prod.splits)

text \<open>What one attempt does without interference, on every branch.\<close>

lemma refresh_quiet:
  assumes "locks_unique ci d" and ex: "find (\<lambda>l. lock_key ci l = lock_key ci lock) (locks d) = Some ex"
    and "lock_Owner ex = lock_Owner lock"
  obtains d' where "run_state (refreshPendingPlanID ci lock ex) (quiet d) = (Inr (), quiet d')"
    and "held ci d' = (held ci d)(lock_key ci lock \<mapsto> (lock_Owner lock,
       if lock_PendingPlanID lock = '''' then lock_PendingPlanID ex else lock_PendingPlanID lock))"
proof (cases "lock_PendingPlanID lock = '''' \<or> lock_PendingPlanID lock = lock_PendingPlanID ex")
  case True
  then have "run_state (refreshPendingPlanID ci lock ex) (quiet d) = (Inr (), quiet d)"
    by (simp add: refreshPendingPlanID_def)
  moreover have "held ci d (lock_key ci lock) = Some (lock_Owner lock,
       if lock_PendingPlanID lock = '''' then lock_PendingPlanID ex else lock_PendingPlanID lock)"
    using True assms by (auto simp: held_def)
  ultimately show ?thesis by (intro that [of d]) auto
next
  case False
  obtain d' n where upd: "refresh_statement ci lock d = Inr (d', n)"
    by (simp add: update_locks_def)
  have "ex\<lparr>lock_PendingPlanID := lock_PendingPlanID lock, lock_UpdatedAt := now d\<rparr> \<noteq> ex"
  proof
    assume "ex\<lparr>lock_PendingPlanID := lock_PendingPlanID lock, lock_UpdatedAt := now d\<rparr> = ex"
    from arg_cong [OF this, of lock_PendingPlanID] False show False by simp
  qed
  then have "0 < n"
    using upd find_SomeD [OF ex] assms(3)
    by (auto simp: update_locks_def rows_changed_pos_iff lock_row_key intro!: bexI [of _ ex])
  then have "run_state (refreshPendingPlanID ci lock ex) (quiet d) = (Inr (), quiet d')"
    using False upd by (simp add: refreshPendingPlanID_def)
  moreover have "held ci d' = (held ci d)(lock_key ci lock \<mapsto> (lock_Owner lock,
       if lock_PendingPlanID lock = '''' then lock_PendingPlanID ex else lock_PendingPlanID lock))"
  proof
    fix k
    show "held ci d' k = ((held ci d)(lock_key ci lock \<mapsto> (lock_Owner lock,
       if lock_PendingPlanID lock = '''' then lock_PendingPlanID ex else lock_PendingPlanID lock))) k"
      using ex assms(3) False find_SomeD [of "\<lambda>l. lock_key ci l = k" "locks d"]
        update_locks_held [OF _ assms(1) upd, of k]
      by (cases "find (\<lambda>l. lock_key ci l = k) (locks d)")
        (auto simp: held_def lock_row_key)
  qed
  ultimately show ?thesis by (rule that)
qed

lemma acquireOnce_quiet:
  assumes "locks_unique ci d"
  obtains r d' where "run_state (acquireOnce ci lock) (quiet d) = (r, quiet d')"
    and "acquire_spec ci lock (held ci d) = (r, held ci d')"
    and "\<And>e. r = Inl e \<Longrightarrow> e = ErrLockHeld"
proof (cases "find (\<lambda>l. lock_key ci l = lock_key ci lock) (locks d)")
  case None
  from insert_lock_held [OF None] obtain d' n where ins: "insert_lock ci lock d = Inr (d', n)"
    and h: "held ci d' = (held ci d)(lock_key ci lock \<mapsto> (lock_Owner lock, lock_PendingPlanID lock))" .
  show ?thesis
    by (rule that [of "Inr ()" d'])
      (simp_all add: acquireOnce_def Lock_Get_quiet None ins h acquire_spec_def held_def)
next
  case (Some ex)
  show ?thesis
  proof (cases "lock_Owner ex = lock_Owner lock")
    case True
    from refresh_quiet [OF assms Some True] obtain d' where
      run: "run_state (refreshPendingPlanID ci lock ex) (quiet d) = (Inr (), quiet d')"
      and h: "held ci d' = (held ci d)(lock_key ci lock \<mapsto> (lock_Owner lock,
       if lock_PendingPlanID lock = '''' then lock_PendingPlanID ex else lock_PendingPlanID lock))" .
    show ?thesis
      by (rule that [of "Inr ()" d'])
        (use True in \<open>simp_all add: acquireOnce_def Lock_Get_quiet Some run h acquire_spec_def held_def\<close>)
  next
    case False
    show ?thesis
      by (rule that [of "Inl ErrLockHeld" d])
        (use False in \<open>simp_all add: acquireOnce_def Lock_Get_quiet Some acquire_spec_def held_def\<close>)
  qed
qed

lemma acquire_on_refines:
  assumes "locks_unique ci d" and "acquire_on ci lock d = (r, d')"
  shows "acquire_spec ci lock (held ci d) = (r, held ci d')"
proof -
  obtain r0 d0 where
    run: "run_state (acquireOnce ci lock) (quiet d) = (r0, quiet d0)"
    and spec: "acquire_spec ci lock (held ci d) = (r0, held ci d0)"
    and err: "\<And>e. r0 = Inl e \<Longrightarrow> e = ErrLockHeld"
    using acquireOnce_quiet [OF assms(1), of lock] by metis
  have "\<not> isRetryableLockError e" if "r0 = Inl e" for e
    using err [OF that] by (simp add: isRetryableLockError_def)
  with run have "run_state (Acquire ci lock) (quiet d) = (r0, quiet d0)"
    unfolding Acquire_def by (intro run_retry_first)
  with assms(2) spec show ?thesis by (simp add: acquire_on_def)
qed

lemma release_on_refines:
  assumes "locks_unique ci d" and "release_on ci k owner d = (r, d')"
  shows "release_spec ci (ci (fst k), ci (snd k)) owner (held ci d) = (r, held ci d') \<and>
    locks_unique ci d'"
proof -
  let ?key = "(ci (fst k), ci (snd k))"
  let ?P = "\<lambda>l. lock_row ci (fst k) (snd k) l \<and> ci (lock_Owner l) = ci owner"
  obtain d1 n where del: "delete_locks ?P d = Inr (d1, n)"
    and n: "n = int (length (filter ?P (locks d)))"
    by (simp add: delete_locks_def)
  note h = delete_locks_held [OF assms(1) del]
  have u: "locks_unique ci d1" by (rule delete_locks_unique [OF assms(1) del])
  have row: "lock_row ci (fst k) (snd k) = (\<lambda>l. lock_key ci l = ?key)"
    by (simp add: lock_row_def fun_eq_iff)
  show ?thesis
  proof (cases "find (\<lambda>l. lock_key ci l = ?key) (locks d)")
    case None
    then have "n = 0" by (auto simp: n row filter_empty_conv find_None_iff)
    moreover have "held ci d1 = held ci d"
    proof
      fix k'
      show "held ci d1 k' = held ci d k'"
        unfolding h using None
        by (auto simp: held_def row find_None_iff dest!: find_SomeD split: option.split)
    qed
    moreover have "find (\<lambda>l. lock_key ci l = ?key) (locks d1) = None"
      using None \<open>held ci d1 = held ci d\<close> by (metis held_simps)
    ultimately show ?thesis
      using assms(2) del None u
      by (simp add: release_on_def Release_def Lock_Get_def row release_spec_def held_def)
  next
    case (Some l)
    show ?thesis
    proof (cases "ci (lock_Owner l) = ci owner")
      case True
      then have "n \<noteq> 0"
        using find_SomeD [OF Some] by (auto simp: n row filter_empty_conv)
      moreover have "held ci d1 = (held ci d)(?key := None)"
      proof
        fix k'
        show "held ci d1 k' = ((held ci d)(?key := None)) k'"
          unfolding h using Some True
          by (auto simp: held_def row dest!: find_SomeD split: option.split)
      qed
      ultimately show ?thesis
        using assms(2) del Some True u
        by (simp add: release_on_def Release_def release_spec_def held_def)
    next
      case False
      have "n = 0"
        using False find_key_unique [OF _ Some] assms(1)
        by (auto simp: n row filter_empty_conv locks_unique_def)
      moreover have "held ci d1 = held ci d"
      proof
        fix k'
        show "held ci d1 k' = held ci d k'"
          unfolding h using Some False
          by (cases "k' = ?key") (auto simp: held_def row dest!: find_SomeD split: option.split)
      qed
      moreover have "find (\<lambda>l. lock_key ci l = ?key) (locks d1) \<noteq> None"
        using Some \<open>held ci d1 = held ci d\<close> by (metis held_simps option.distinct(1))
      ultimately show ?thesis
        using assms(2) del Some False u
        by (auto simp: release_on_def Release_def Lock_Get_def row release_spec_def held_def)
    qed
  qed
qed

section \<open>The interface the callers rely on\<close>

text \<open>
  A lock service: what acquiring and releasing promise about the table the service keeps.  The
  clients are the apply commands, which take the lock of a database for their pull request.
\<close>

locale lock_service =
  fixes acquire :: "Lock \<Rightarrow> 's \<Rightarrow> (err + unit) \<times> 's"
    and release :: "string \<times> string \<Rightarrow> string \<Rightarrow> 's \<Rightarrow> (err + unit) \<times> 's"
    and table :: "'s \<Rightarrow> lock_table"
    and inv :: "'s \<Rightarrow> bool"
    and ci :: "string \<Rightarrow> string"
  assumes acquire_inv: "inv s \<Longrightarrow> acquire lock s = (r, s') \<Longrightarrow> inv s'"
    and acquire_table: "inv s \<Longrightarrow> acquire lock s = (r, s') \<Longrightarrow>
      acquire_spec ci lock (table s) = (r, table s')"
    and release_inv: "inv s \<Longrightarrow> release k owner s = (r, s') \<Longrightarrow> inv s'"
    and release_table: "inv s \<Longrightarrow> release k owner s = (r, s') \<Longrightarrow>
      release_spec ci (ci (fst k), ci (snd k)) owner (table s) = (r, table s')"
begin

text \<open>A sequence of acquire attempts, with the results in order.\<close>

fun attempts :: "Lock list \<Rightarrow> 's \<Rightarrow> (err + unit) list \<times> 's" where
  "attempts [] s = ([], s)"
| "attempts (l # ls) s =
    (let (r, s1) = acquire l s; (rs, s2) = attempts ls s1 in (r # rs, s2))"

lemma acquire_success:
  assumes "inv s" and "acquire lock s = (Inr (), s')"
  shows "\<exists>p. table s' (lock_key ci lock) = Some (lock_Owner lock, p)"
  using acquire_table [OF assms] by (rule acquire_spec_success)

lemma attempts_keep_holder:
  assumes "inv s" and "table s k = Some (own, p)"
    and "\<And>l. l \<in> set ls \<Longrightarrow> lock_key ci l = k \<Longrightarrow> lock_Owner l \<noteq> own"
    and "attempts ls s = (rs, s')"
  shows "inv s' \<and> table s' k = Some (own, p) \<and>
    (\<forall>i<length ls. lock_key ci (ls ! i) = k \<longrightarrow> rs ! i = Inl ErrLockHeld)"
  using assms
proof (induction ls arbitrary: s rs)
  case (Cons l ls)
  obtain r s1 where one: "acquire l s = (r, s1)" by fastforce
  obtain rs1 where rest: "attempts ls s1 = (rs1, s')" "rs = r # rs1"
    using Cons.prems(4) one by (auto split: prod.splits)
  have "inv s1" using Cons.prems(1) one by (rule acquire_inv)
  moreover have "table s1 k = Some (own, p) \<and> (lock_key ci l = k \<longrightarrow> r = Inl ErrLockHeld)"
    using acquire_spec_other [OF Cons.prems(2) acquire_table [OF Cons.prems(1) one]] Cons.prems(3)
    by auto
  ultimately show ?case
    using Cons.IH [OF _ _ _ rest(1)] Cons.prems(3) rest(2) by (auto simp: nth_Cons split: nat.split)
qed simp

lemma exclusion:
  assumes "inv s" and "acquire lock s = (Inr (), s1)"
    and "\<And>l. l \<in> set ls \<Longrightarrow> lock_key ci l = lock_key ci lock \<Longrightarrow> lock_Owner l \<noteq> lock_Owner lock"
    and "attempts ls s1 = (rs, s')"
  shows "\<forall>i<length ls. lock_key ci (ls ! i) = lock_key ci lock \<longrightarrow> rs ! i = Inl ErrLockHeld"
proof -
  from acquire_success [OF assms(1,2)] obtain p
    where "table s1 (lock_key ci lock) = Some (lock_Owner lock, p)" ..
  from attempts_keep_holder [OF acquire_inv [OF assms(1,2)] this assms(3,4)] show ?thesis by blast
qed

end

interpretation lock_store: lock_service "acquire_on ci" "release_on ci" "held ci" "locks_unique ci" ci
  for ci
  by unfold_locales (auto dest: acquire_on_unique acquire_on_refines release_on_refines)

section \<open>Properties\<close>

definition example_lock :: "string \<Rightarrow> string \<Rightarrow> Lock" where
  "example_lock owner plan = \<lparr>lock_ID = 0, lock_DatabaseName = ''orders'', lock_DatabaseType = ''mysql'',
     lock_Repository = ''org/app'', lock_PullRequest = 7, lock_Owner = owner,
     lock_PendingPlanID = plan, lock_CreatedAt = 0, lock_UpdatedAt = 0\<rparr>"

text \<open>
  Property C33 (mutual exclusion under interference).  Whatever the other sessions do between the
  statements of \<^verbatim>\<open>Acquire\<close>, as long as they respect the unique key: when \<^verbatim>\<open>Acquire\<close> returns nil, the
  table holds exactly one row for the database and type, and its owner is the caller (up to the
  collation of the owner column).
\<close>

theorem acquire_success_owns:
  assumes "winv (locks_unique ci) w" and "run_state (Acquire ci lock) w = (Inr (), w')"
  shows "(\<exists>!l. l \<in> set (locks (w_db w')) \<and> lock_key ci l = lock_key ci lock) \<and>
    (\<exists>l\<in>set (locks (w_db w')). lock_key ci l = lock_key ci lock \<and>
      ci (lock_Owner l) = ci (lock_Owner lock))"
proof -
  from hoareD [OF hoare_Acquire assms]
  have "locks_unique ci (w_db w')" and "owned ci lock (w_db w')"
    by (auto simp: winv_def)
  then show ?thesis
    by (auto simp: owned_def locks_unique_def distinct_map inj_on_def)
qed

text \<open>The witness's other session takes and drops the lock between the two statements.\<close>

definition race_world :: world where
  "race_world = \<lparr>w_db = empty_db, w_undo = [],
     w_turns = [Turn id None,
       Turn (\<lambda>d. d\<lparr>locks := [(example_lock ''org/app#8'' '''')\<lparr>lock_DatabaseName := ''users''\<rparr>]\<rparr>) None]\<rparr>"

theorem acquire_success_owns_witness:
  "\<exists>!l. l \<in> set (locks (w_db (snd (run_state (Acquire ToLower (example_lock ''org/app#7'' ''p1'')) race_world)))) \<and>
     lock_key ToLower l = lock_key ToLower (example_lock ''org/app#7'' ''p1'')"
proof -
  have "winv (locks_unique ToLower) race_world"
    by (simp add: winv_def race_world_def empty_db_def locks_unique_def)
  moreover have "fst (run_state (Acquire ToLower (example_lock ''org/app#7'' ''p1'')) race_world) = Inr ()"
    by code_simp
  ultimately show ?thesis
    by (intro acquire_success_owns [THEN conjunct1]) (auto simp: prod_eq_iff)
qed

text \<open>
  Property C32 (refinement of the lock table).  Without interference \<^verbatim>\<open>Acquire\<close> and \<^verbatim>\<open>Release\<close> implement
  the abstract lock table on every branch: a free key is taken, a key held by another owner gives
  ErrLockHeld and changes nothing, a key held by the caller is kept and takes the new plan unless
  that is empty; a release removes a row whose owner equals the caller's under the collation and
  otherwise reports not found or not owned.  The comments of the interface (\<^verbatim>\<open>storage.go\<close>) say less: that an
  acquisition by the holder is a no-op, and that only the owner can release.
\<close>

theorem lock_store_refines:
  assumes "locks_unique ci d"
  shows "(acquire_on ci lock d = (r, d') \<longrightarrow>
      acquire_spec ci lock (held ci d) = (r, held ci d')) \<and>
    (release_on ci (database, dbType) owner d = (r, d') \<longrightarrow>
      release_spec ci (ci database, ci dbType) owner (held ci d) = (r, held ci d'))"
  using acquire_on_refines [OF assms] release_on_refines [OF assms, of "(database, dbType)"] by auto

theorem lock_store_refines_witness:
  "acquire_spec ToLower (example_lock ''org/app#7'' ''p1'') (held ToLower empty_db) =
    (fst (acquire_on ToLower (example_lock ''org/app#7'' ''p1'') empty_db),
     held ToLower (snd (acquire_on ToLower (example_lock ''org/app#7'' ''p1'') empty_db)))"
  by (rule lock_store_refines [THEN conjunct1, THEN mp]) (simp_all add: locks_unique_def empty_db_def)

text \<open>
  Further fact (exclusion over a sequence of attempts).  After one owner has acquired a lock, every
  later attempt on the same key by other owners fails with ErrLockHeld, in any order and mixed with
  attempts on other keys, until a release.
\<close>

theorem lock_exclusion:
  assumes "locks_unique ci d" and "acquire_on ci lock d = (Inr (), d1)"
    and "\<And>l. l \<in> set ls \<Longrightarrow> lock_key ci l = lock_key ci lock \<Longrightarrow> lock_Owner l \<noteq> lock_Owner lock"
    and "lock_store.attempts ci ls d1 = (rs, d')"
    and "i < length ls" and "lock_key ci (ls ! i) = lock_key ci lock"
  shows "rs ! i = Inl ErrLockHeld"
  using lock_store.exclusion [OF assms(1-4)] assms(5,6) by blast

theorem lock_exclusion_witness:
  "fst (lock_store.attempts ToLower [example_lock ''org/app#8'' ''p2'']
     (snd (acquire_on ToLower (example_lock ''org/app#7'' ''p1'') empty_db))) ! 0 = Inl ErrLockHeld"
proof (rule lock_exclusion)
  show "locks_unique ToLower empty_db" by (simp add: locks_unique_def empty_db_def)
  show "acquire_on ToLower (example_lock ''org/app#7'' ''p1'') empty_db =
      (Inr (), snd (acquire_on ToLower (example_lock ''org/app#7'' ''p1'') empty_db))"
    by code_simp
  show "lock_store.attempts ToLower [example_lock ''org/app#8'' ''p2'']
      (snd (acquire_on ToLower (example_lock ''org/app#7'' ''p1'') empty_db)) =
    (fst (lock_store.attempts ToLower [example_lock ''org/app#8'' ''p2'']
      (snd (acquire_on ToLower (example_lock ''org/app#7'' ''p1'') empty_db))),
     snd (lock_store.attempts ToLower [example_lock ''org/app#8'' ''p2'']
      (snd (acquire_on ToLower (example_lock ''org/app#7'' ''p1'') empty_db))))"
    by simp
qed (simp_all add: example_lock_def lock_key_def)

text \<open>
  Further fact (a conditional release keeps a replaced intent).  Under any interference, when
  \<^verbatim>\<open>ReleaseIfPendingPlanID\<close> returns without error it has removed exactly the rows with the given
  key, owner and pending plan: a lock whose plan was replaced meanwhile stays, and the result says
  whether anything was removed.
\<close>

theorem release_if_pending_plan_exact:
  assumes "run_state (ReleaseIfPendingPlanID ci database dbType owner plan) w = (Inr released, w')"
  shows "\<exists>d :: db. locks (w_db w') = filter (\<lambda>l. \<not> (lock_row ci database dbType l \<and>
        ci (lock_Owner l) = ci owner \<and> ci (lock_PendingPlanID l) = ci plan)) (locks d) \<and>
      (released \<longleftrightarrow> (\<exists>l\<in>set (locks d). lock_row ci database dbType l \<and>
        ci (lock_Owner l) = ci owner \<and> ci (lock_PendingPlanID l) = ci plan)) \<and>
      next_turn w = (None, w'\<lparr>w_db := d\<rparr>)"
  using assms
  by (auto simp: ReleaseIfPendingPlanID_def ExecContext_def delete_locks_def filter_empty_conv
      split: prod.splits option.splits intro!: exI [of _ "w_db (snd (next_turn w))"])

theorem release_if_pending_plan_exact_witness:
  "\<exists>d :: db. locks (w_db (snd (run_state (ReleaseIfPendingPlanID ToLower ''orders'' ''mysql'' ''org/app#7'' ''p1'')
          (quiet (empty_db\<lparr>locks := [example_lock ''org/app#7'' ''p2'']\<rparr>))))) =
      filter (\<lambda>l. \<not> (lock_row ToLower ''orders'' ''mysql'' l \<and>
        ToLower (lock_Owner l) = ToLower ''org/app#7'' \<and>
        ToLower (lock_PendingPlanID l) = ToLower ''p1'')) (locks d)"
proof -
  have "run_state (ReleaseIfPendingPlanID ToLower ''orders'' ''mysql'' ''org/app#7'' ''p1'')
      (quiet (empty_db\<lparr>locks := [example_lock ''org/app#7'' ''p2'']\<rparr>)) =
    (Inr False, snd (run_state (ReleaseIfPendingPlanID ToLower ''orders'' ''mysql'' ''org/app#7'' ''p1'')
      (quiet (empty_db\<lparr>locks := [example_lock ''org/app#7'' ''p2'']\<rparr>))))"
    unfolding prod_eq_iff by (intro conjI) (code_simp, simp)
  from release_if_pending_plan_exact [OF this] show ?thesis
    by (rule ex_forward) (erule conjunct1)
qed

text \<open>
  The owner is compared byte by byte when acquiring but under the collation when releasing: with a
  case-insensitive collation a caller whose name differs in case is refused the lock and can still
  release it.
\<close>

lemma owner_comparison_differs:
  "acquire_on ToLower (example_lock ''CLI:bob'' '''') (empty_db\<lparr>locks := [example_lock ''cli:bob'' '''']\<rparr>) =
     (Inl ErrLockHeld, empty_db\<lparr>locks := [example_lock ''cli:bob'' '''']\<rparr>)"
  "fst (release_on ToLower (''orders'', ''mysql'') ''CLI:bob''
     (empty_db\<lparr>locks := [example_lock ''cli:bob'' '''']\<rparr>)) = Inr ()"
  by code_simp+

end
