(* ===== verification/Source_Policy.thy ===== *)
theory Source_Policy
  imports Server_Config "HOL-Library.Sublist"
begin

text \<open>
  Source policy (\<^verbatim>\<open>pkg/api/source_policy.go\<close> and the schema directory hints of \<^verbatim>\<open>pkg/api/config.go\<close>):
  which repository and which directory of it may manage a database.  The policy compares cleaned
  paths as text; the theorems state what that means for the path's components.
\<close>

section \<open>Clean paths\<close>

text \<open>
  \<^verbatim>\<open>path.Clean\<close>: drop empty and \<open>.\<close> elements, let \<open>..\<close> remove the element before it, and keep it
  where there is none to remove.  The stack holds the elements of the result, innermost first.
\<close>

definition clean_step :: "bool \<Rightarrow> string \<Rightarrow> string list \<Rightarrow> string list" where
  "clean_step rooted part stack =
    (if part = '''' \<or> part = ''.'' then stack
     else if part = ''..''
     then (case stack of
             [] \<Rightarrow> if rooted then [] else [''..'']
           | part0 # rest \<Rightarrow> if part0 = ''..'' then ''..'' # stack else rest)
     else part # stack)"

definition clean_parts :: "bool \<Rightarrow> string \<Rightarrow> string list" where
  "clean_parts rooted p = rev (fold (clean_step rooted) (Split (CHR ''/'') p) [])"

fun join_path :: "string list \<Rightarrow> string" where
  "join_path [] = ''''"
| "join_path [part] = part"
| "join_path (part # parts) = part @ ''/'' @ join_path parts"

definition path_Clean :: "string \<Rightarrow> string" where
  "path_Clean p =
    (let rooted = HasPrefix p ''/''; parts = clean_parts rooted p in
     if rooted then ''/'' @ join_path parts
     else if parts = [] then ''.'' else join_path parts)"

section \<open>The policy\<close>

abbreviation SourcePolicyReasonUnknown :: string where "SourcePolicyReasonUnknown \<equiv> ''unknown''"
abbreviation SourcePolicyReasonMissingServerConfig :: string where
  "SourcePolicyReasonMissingServerConfig \<equiv> ''missing_server_config''"
abbreviation SourcePolicyReasonMissingDatabaseConfig :: string where
  "SourcePolicyReasonMissingDatabaseConfig \<equiv> ''missing_database_config''"
abbreviation SourcePolicyReasonMissingRepository :: string where
  "SourcePolicyReasonMissingRepository \<equiv> ''missing_repository''"
abbreviation SourcePolicyReasonMissingPullRequest :: string where
  "SourcePolicyReasonMissingPullRequest \<equiv> ''missing_pull_request''"
abbreviation SourcePolicyReasonMissingSchemaPath :: string where
  "SourcePolicyReasonMissingSchemaPath \<equiv> ''missing_schema_path''"
abbreviation SourcePolicyReasonUnauthorizedRepo :: string where
  "SourcePolicyReasonUnauthorizedRepo \<equiv> ''unauthorized_repo''"
abbreviation SourcePolicyReasonUnauthorizedSchemaDir :: string where
  "SourcePolicyReasonUnauthorizedSchemaDir \<equiv> ''unauthorized_schema_dir''"

fun sourcePolicyReason :: "err \<Rightarrow> string" where
  "sourcePolicyReason (SourcePolicyError reason message) = reason"
| "sourcePolicyReason (Wrapped m e) = sourcePolicyReason e"
| "sourcePolicyReason _ = SourcePolicyReasonUnknown"

record PlanSourcePolicyRequest =
  psr_Database :: string
  psr_Repository :: string
  psr_PullRequest :: int
  psr_SchemaPath :: string

definition normalizeSchemaPath :: "string \<Rightarrow> err + string" where
  "normalizeSchemaPath raw =
    (let v = TrimSpace raw in
     if v = '''' then Inl (Errorf ''path is empty'')
     else if v = ''*'' then Inr ''*''
     else if HasPrefix v ''/'' then Inl (Errorf ''path must be repo-relative'')
     else
       (let cleaned = path_Clean v in
        if cleaned = ''..'' \<or> HasPrefix cleaned ''../'' then Inl (Errorf ''path must not escape the repository'')
        else Inr cleaned))"

definition repoAllowed :: "string list \<Rightarrow> string \<Rightarrow> bool" where
  "repoAllowed allowedRepos repo =
    list_ex (\<lambda>allowed. TrimSpace allowed = ''*'' \<or> TrimSpace allowed = TrimSpace repo) allowedRepos"

definition databaseAllowsRepo :: "DatabaseConfig \<Rightarrow> string \<Rightarrow> bool" where
  "databaseAllowsRepo dbConfig repo \<longleftrightarrow> dbc_AllowedRepos dbConfig = [] \<or> repoAllowed (dbc_AllowedRepos dbConfig) repo"

fun dir_allows :: "string list \<Rightarrow> string \<Rightarrow> bool" where
  "dir_allows [] cleanSchemaPath = False"
| "dir_allows (allowedDir # dirs) cleanSchemaPath =
    (case normalizeSchemaPath allowedDir of
       Inl e \<Rightarrow> False
     | Inr cleanAllowedDir \<Rightarrow>
         if cleanAllowedDir = ''*'' then True
         else if cleanSchemaPath = cleanAllowedDir then True
         else if cleanAllowedDir \<noteq> ''.'' \<and> HasPrefix cleanSchemaPath (cleanAllowedDir @ ''/'') then True
         else dir_allows dirs cleanSchemaPath)"

definition schemaPathAllowed :: "string list \<Rightarrow> string \<Rightarrow> bool" where
  "schemaPathAllowed allowedDirs schemaPath =
    (case normalizeSchemaPath schemaPath of
       Inl e \<Rightarrow> False
     | Inr cleanSchemaPath \<Rightarrow> dir_allows allowedDirs cleanSchemaPath)"

definition hasSourcePolicy :: "DatabaseConfig \<Rightarrow> bool" where
  "hasSourcePolicy d \<longleftrightarrow> dbc_AllowedRepos d \<noteq> [] \<or> dbc_AllowedDirs d \<noteq> []"

definition AuthorizePlanSource :: "ServerConfig option \<Rightarrow> PlanSourcePolicyRequest \<Rightarrow> err option" where
  "AuthorizePlanSource config req =
    (case config of
       None \<Rightarrow> Some (SourcePolicyError SourcePolicyReasonMissingServerConfig
                 ''source policy could not be evaluated because server config is missing'')
     | Some c \<Rightarrow>
       (case Database c (psr_Database req) of
          None \<Rightarrow> Some (SourcePolicyError SourcePolicyReasonMissingDatabaseConfig
                    ''source policy could not be evaluated because database config is missing'')
        | Some dbConfig \<Rightarrow>
            if \<not> hasSourcePolicy dbConfig then None
            else if TrimSpace (psr_Repository req) = ''''
            then Some (SourcePolicyError SourcePolicyReasonMissingRepository ''the plan source repository is missing'')
            else if psr_PullRequest req \<le> 0
            then Some (SourcePolicyError SourcePolicyReasonMissingPullRequest ''the plan source pull request is missing'')
            else if TrimSpace (psr_SchemaPath req) = ''''
            then Some (SourcePolicyError SourcePolicyReasonMissingSchemaPath ''the plan source schema path is missing'')
            else if dbc_AllowedRepos dbConfig \<noteq> [] \<and> \<not> repoAllowed (dbc_AllowedRepos dbConfig) (psr_Repository req)
            then Some (SourcePolicyError SourcePolicyReasonUnauthorizedRepo ''repo is not authorized for database'')
            else if dbc_AllowedDirs dbConfig \<noteq> [] \<and> \<not> schemaPathAllowed (dbc_AllowedDirs dbConfig) (psr_SchemaPath req)
            then Some (SourcePolicyError SourcePolicyReasonUnauthorizedSchemaDir ''schema path is not authorized for database'')
            else None))"

definition RepoHasSchemaDirAllowlist :: "ServerConfig option \<Rightarrow> string \<Rightarrow> bool" where
  "RepoHasSchemaDirAllowlist config repo =
    (case config of
       None \<Rightarrow> False
     | Some c \<Rightarrow> list_ex (\<lambda>(_, d). dbc_AllowedDirs d \<noteq> [] \<and> databaseAllowsRepo d repo) (Databases c))"

text \<open>The first database in the order of the map that covers the path.\<close>

definition DatabaseForSchemaPath :: "ServerConfig option \<Rightarrow> string \<Rightarrow> string \<Rightarrow> string option" where
  "DatabaseForSchemaPath config repo schemaPath =
    (case config of
       None \<Rightarrow> None
     | Some c \<Rightarrow>
         map_option fst
           (List.find (\<lambda>(_, d). dbc_AllowedDirs d \<noteq> [] \<and> databaseAllowsRepo d repo \<and> schemaPathAllowed (dbc_AllowedDirs d) schemaPath)
             (Databases c)))"

definition SchemaPathAllowedForRepo :: "ServerConfig option \<Rightarrow> string \<Rightarrow> string \<Rightarrow> bool" where
  "SchemaPathAllowedForRepo config repo schemaPath =
    (case config of
       None \<Rightarrow> False
     | Some c \<Rightarrow>
         list_ex (\<lambda>(_, d). dbc_AllowedDirs d \<noteq> [] \<and> databaseAllowsRepo d repo \<and> schemaPathAllowed (dbc_AllowedDirs d) schemaPath)
           (Databases c))"

definition validateAllowedRepos :: "string list \<Rightarrow> err option" where
  "validateAllowedRepos repos = validate_unique
    (\<lambda>repo. if TrimSpace repo = '''' then Some (Errorf ''contains an empty value'')
            else if TrimSpace repo \<noteq> repo then Some (Errorf ''contains value with leading or trailing whitespace'')
            else None)
    TrimSpace (Errorf ''contains duplicate value'') {} repos"

definition validateDatabaseSourcePolicy :: "DatabaseConfig \<Rightarrow> err option" where
  "validateDatabaseSourcePolicy dbConfig =
    (case validateAllowedRepos (dbc_AllowedRepos dbConfig) of
       Some e \<Rightarrow> Some e
     | None \<Rightarrow> validate_unique
         (\<lambda>dir. case normalizeSchemaPath dir of Inl e \<Rightarrow> Some (Wrapped ''allowed_dirs contains invalid value'' e) | Inr _ \<Rightarrow> None)
         (\<lambda>dir. case normalizeSchemaPath dir of Inl _ \<Rightarrow> '''' | Inr normalized \<Rightarrow> normalized)
         (Errorf ''allowed_dirs contains duplicate value'') {} (dbc_AllowedDirs dbConfig))"

section \<open>Directory hints\<close>

text \<open>The directories of a list that a probe can cover, and whether they are all of it.\<close>

definition hint_dirs :: "string list \<Rightarrow> string list \<times> bool" where
  "hint_dirs dirs =
    (concat (map (\<lambda>dir. case normalizeSchemaPath dir of Inl _ \<Rightarrow> [] | Inr n \<Rightarrow> if n = ''*'' \<or> n = ''.'' then [] else [n]) dirs),
     list_all (\<lambda>dir. case normalizeSchemaPath dir of Inl _ \<Rightarrow> False | Inr n \<Rightarrow> n \<noteq> ''*'' \<and> n \<noteq> ''.'') dirs)"

definition SchemaDirHintsForDatabase :: "ServerConfig \<Rightarrow> string \<Rightarrow> string \<Rightarrow> string list \<times> bool" where
  "SchemaDirHintsForDatabase c repo database =
    (case map_of (Databases c) database of
       None \<Rightarrow> ([], True)
     | Some db \<Rightarrow>
         if dbc_AllowedRepos db \<noteq> [] \<and> \<not> repoAllowed (dbc_AllowedRepos db) repo then ([], True)
         else if dbc_AllowedDirs db = [] then ([], False)
         else (let (dirs, exhaustive) = hint_dirs (dbc_AllowedDirs db) in (sort (remdups dirs), exhaustive)))"

definition SchemaDirHintsForRepo :: "ServerConfig \<Rightarrow> string \<Rightarrow> string list \<times> bool" where
  "SchemaDirHintsForRepo c repo =
    (let dbs = filter (\<lambda>db. databaseAllowsRepo db repo) (map snd (Databases c)) in
     (sort (remdups (concat (map (\<lambda>db. fst (hint_dirs (dbc_AllowedDirs db))) dbs))),
      list_all (\<lambda>db. dbc_AllowedDirs db \<noteq> [] \<and> snd (hint_dirs (dbc_AllowedDirs db))) dbs))"

section \<open>What the comparison of texts decides\<close>

lemma Split_nonempty [simp]: "Split sep s \<noteq> []"
  by (induction s) (auto split: list.splits)

lemma Split_no_sep: "part \<in> set (Split sep s) \<Longrightarrow> sep \<notin> set part"
  by (induction s arbitrary: part) (auto split: if_splits list.splits)

lemma Split_single: "sep \<notin> set s \<Longrightarrow> Split sep s = [s]"
  by (induction s) auto

lemma Split_append: "Split sep (s @ sep # t) = Split sep s @ Split sep t"
  by (induction s) (auto split: list.splits)

definition proper :: "string list \<Rightarrow> bool" where
  "proper parts \<longleftrightarrow> (\<forall>part\<in>set parts. part \<noteq> '''' \<and> part \<noteq> ''.'' \<and> CHR ''/'' \<notin> set part)"

lemma Split_join_path: "proper parts \<Longrightarrow> parts \<noteq> [] \<Longrightarrow> Split (CHR ''/'') (join_path parts) = parts"
  by (induction parts rule: join_path.induct) (auto simp: proper_def Split_single Split_append)

lemma join_path_append: "xs \<noteq> [] \<Longrightarrow> ys \<noteq> [] \<Longrightarrow> join_path (xs @ ys) = join_path xs @ ''/'' @ join_path ys"
proof (induction xs rule: join_path.induct)
  case (2 part)
  then show ?case by (cases ys) auto
qed auto

lemma join_path_nonempty: "proper parts \<Longrightarrow> parts \<noteq> [] \<Longrightarrow> join_path parts \<noteq> ''''"
  by (induction parts rule: join_path.induct) (auto simp: proper_def)

lemma join_path_not_dot: "proper parts \<Longrightarrow> parts \<noteq> [] \<Longrightarrow> join_path parts \<noteq> ''.''"
  using Split_join_path[of parts] by (auto simp: proper_def)

lemma HasPrefix_iff: "HasPrefix s p \<longleftrightarrow> (\<exists>t. s = p @ t)"
  by (auto simp: HasPrefix_def) (metis append_take_drop_id)

lemma join_path_inject: "proper xs \<Longrightarrow> proper ys \<Longrightarrow> xs \<noteq> [] \<Longrightarrow> ys \<noteq> [] \<Longrightarrow> join_path xs = join_path ys \<longleftrightarrow> xs = ys"
  using Split_join_path by metis

text \<open>Being under a directory is having its components as a prefix.\<close>

lemma join_path_under:
  assumes "proper xs" "proper ys" "xs \<noteq> []" "ys \<noteq> []"
  shows "join_path ys = join_path xs \<or> HasPrefix (join_path ys) (join_path xs @ ''/'') \<longleftrightarrow> prefix xs ys"
proof
  assume "join_path ys = join_path xs \<or> HasPrefix (join_path ys) (join_path xs @ ''/'')"
  then show "prefix xs ys"
  proof
    assume "HasPrefix (join_path ys) (join_path xs @ ''/'')"
    then obtain t where "join_path ys = join_path xs @ CHR ''/'' # t" by (auto simp: HasPrefix_iff)
    then have "ys = xs @ Split (CHR ''/'') t" using assms by (metis Split_join_path Split_append)
    then show ?thesis by simp
  qed (use assms join_path_inject in auto)
next
  assume "prefix xs ys"
  then obtain zs where "ys = xs @ zs" by (auto simp: prefix_def)
  then show "join_path ys = join_path xs \<or> HasPrefix (join_path ys) (join_path xs @ ''/'')"
    using assms(3) by (cases "zs = []") (auto simp: HasPrefix_iff join_path_append)
qed

lemma clean_step_cases:
  obtains (keep) "clean_step rooted part stack = stack"
  | (push) "part \<noteq> ''''" "part \<noteq> ''.''" "part \<noteq> ''..''" "clean_step rooted part stack = part # stack"
  | (pop) part0 rest where "stack = part0 # rest" "part0 \<noteq> ''..''" "clean_step rooted part stack = rest"
  | (parent) "stack = [] \<or> hd stack = ''..''" "clean_step rooted part stack = ''..'' # stack"
  unfolding clean_step_def by (cases "part = '''' \<or> part = ''.''"; cases "part = ''..''"; cases rooted; cases stack) (auto split: if_splits)

lemma proper_step:
  assumes "proper stack" and "CHR ''/'' \<notin> set part" shows "proper (clean_step rooted part stack)"
proof (cases rule: clean_step_cases[of rooted part stack])
  case parent
  then show ?thesis using assms by (simp add: proper_def)
qed (use assms in \<open>simp_all add: proper_def\<close>)

lemma proper_fold:
  "proper stack \<Longrightarrow> \<forall>part\<in>set parts. CHR ''/'' \<notin> set part \<Longrightarrow> proper (fold (clean_step rooted) parts stack)"
  by (induction parts arbitrary: stack) (simp_all add: proper_step)

lemma proper_parts: "proper (clean_parts rooted p)"
  using proper_fold[of "[]" "Split (CHR ''/'') p" rooted] by (simp add: clean_parts_def proper_def Split_no_sep)

text \<open>A \<open>..\<close> that stays in a cleaned path stays at its front.\<close>

definition parents_last :: "string list \<Rightarrow> bool" where
  "parents_last stack \<longleftrightarrow> ''..'' \<in> set stack \<longrightarrow> last stack = ''..''"

lemma parents_step: "parents_last stack \<Longrightarrow> parents_last (clean_step rooted part stack)"
proof (cases rule: clean_step_cases[of rooted part stack])
  case parent
  assume "parents_last stack"
  with parent show ?thesis by (cases stack) (simp_all add: parents_last_def)
qed (auto simp only: parents_last_def list.set insert_iff last.simps empty_iff split: if_splits)

lemma parents_first: "''..'' \<in> set (clean_parts rooted p) \<Longrightarrow> hd (clean_parts rooted p) = ''..''"
proof -
  have "parents_last stack \<Longrightarrow> parents_last (fold (clean_step rooted) parts stack)" for parts stack
    by (induction parts arbitrary: stack) (simp_all add: parents_step)
  from this[of "[]" "Split (CHR ''/'') p"] show "''..'' \<in> set (clean_parts rooted p) \<Longrightarrow> hd (clean_parts rooted p) = ''..''"
    by (simp add: clean_parts_def parents_last_def hd_rev)
qed

text \<open>The components of a path of the repository, and that the path stays inside of it.\<close>

definition inside :: "string \<Rightarrow> string list" where
  "inside p = clean_parts False (TrimSpace p)"

definition confined :: "string \<Rightarrow> bool" where
  "confined p \<longleftrightarrow> TrimSpace p \<noteq> '''' \<and> \<not> HasPrefix (TrimSpace p) ''/'' \<and> ''..'' \<notin> set (inside p)"

definition shown :: "string list \<Rightarrow> string" where
  "shown parts = (if parts = [] then ''.'' else join_path parts)"

lemma proper_inside [simp]: "proper (inside p)"
  by (simp add: inside_def proper_parts)

lemma shown_inject: "proper xs \<Longrightarrow> proper ys \<Longrightarrow> shown xs = shown ys \<longleftrightarrow> xs = ys"
  using join_path_inject join_path_not_dot by (auto simp: shown_def) metis+

lemma escape_iff:
  "shown (inside p) = ''..'' \<or> HasPrefix (shown (inside p)) ''../'' \<longleftrightarrow> ''..'' \<in> set (inside p)"
proof (cases "inside p")
  case (Cons part parts)
  have dd: "proper [''..'']" by (simp add: proper_def)
  have "join_path (inside p) = join_path [''..''] \<or> HasPrefix (join_path (inside p)) (join_path [''..''] @ ''/'') \<longleftrightarrow> prefix [''..''] (inside p)"
    using dd Cons by (intro join_path_under proper_inside) simp_all
  moreover have "prefix [''..''] (inside p) \<longleftrightarrow> ''..'' \<in> set (inside p)"
    using parents_first[of False "TrimSpace p"] Cons by (auto simp: inside_def)
  ultimately show ?thesis using Cons by (simp add: shown_def)
qed (simp add: shown_def HasPrefix_def)

lemma clean_parts_star [simp]: "clean_parts False ''*'' = [''*'']"
  by (simp add: clean_parts_def clean_step_def)

lemma normalizeSchemaPath_exact: "normalizeSchemaPath p = Inr n \<longleftrightarrow> confined p \<and> n = shown (inside p)"
proof (cases "TrimSpace p = ''*''")
  case True
  then have "inside p = [''*'']" by (simp add: inside_def)
  with True show ?thesis by (auto simp: normalizeSchemaPath_def confined_def shown_def HasPrefix_def)
next
  case False
  have "path_Clean (TrimSpace p) = shown (inside p)" if "\<not> HasPrefix (TrimSpace p) ''/''"
    using that by (simp add: path_Clean_def shown_def inside_def Let_def)
  then show ?thesis using False escape_iff[of p] unfolding normalizeSchemaPath_def confined_def Let_def by auto
qed

section \<open>Authorization and hints\<close>

text \<open>The directory \<open>dir\<close> of a policy covers the path \<open>p\<close>, by components.\<close>

definition covers :: "string \<Rightarrow> string \<Rightarrow> bool" where
  "covers dir p \<longleftrightarrow> inside dir = [''*''] \<or> inside p = inside dir \<or> inside dir \<noteq> [] \<and> prefix (inside dir) (inside p)"

lemma shown_star: "shown (inside dir) = ''*'' \<longleftrightarrow> inside dir = [''*'']"
  using shown_inject[OF proper_inside, of "[''*'']" dir] by (simp add: shown_def proper_def)

lemma shown_dot: "shown (inside dir) = ''.'' \<longleftrightarrow> inside dir = []"
  using shown_inject[OF proper_inside, of "[]" dir] by (simp add: shown_def proper_def)

lemma under_iff:
  "shown (inside p) = shown (inside dir) \<or> shown (inside dir) \<noteq> ''.'' \<and> HasPrefix (shown (inside p)) (shown (inside dir) @ ''/'') \<longleftrightarrow>
    inside p = inside dir \<or> inside dir \<noteq> [] \<and> prefix (inside dir) (inside p)"
proof (cases "inside dir = [] \<or> inside p = []")
  case True
  then show ?thesis unfolding shown_dot shown_inject[OF proper_inside proper_inside]
    by (auto simp: HasPrefix_iff shown_def) (metis append_is_Nil_conv append_Cons list.sel(3) append_Nil join_path_nonempty proper_inside list.distinct(1) neq_Nil_conv)+
next
  case False
  then show ?thesis using join_path_under[of "inside dir" "inside p"] join_path_inject[of "inside p" "inside dir"]
    unfolding shown_dot shown_inject[OF proper_inside proper_inside] by (auto simp: shown_def)
qed

lemma dir_allows_sound: "dir_allows dirs (shown (inside p)) \<Longrightarrow> \<exists>dir\<in>set dirs. confined dir \<and> covers dir p"
proof (induction dirs)
  case (Cons dir dirs)
  show ?case
  proof (cases "normalizeSchemaPath dir")
    case (Inr n)
    then have "confined dir" and n: "n = shown (inside dir)" by (simp_all add: normalizeSchemaPath_exact)
    with Cons Inr show ?thesis using under_iff[of p dir] shown_star[of dir] by (auto simp: covers_def split: if_splits)
  qed (use Cons.prems in simp)
qed simp

lemma dir_allows_complete:
  "\<forall>dir\<in>set dirs. confined dir \<Longrightarrow> dir \<in> set dirs \<Longrightarrow> covers dir p \<Longrightarrow> dir_allows dirs (shown (inside p))"
proof (induction dirs)
  case (Cons dir0 dirs)
  then have "normalizeSchemaPath dir0 = Inr (shown (inside dir0))" by (simp add: normalizeSchemaPath_exact)
  with Cons show ?case using under_iff[of p dir0] shown_star[of dir0] by (auto simp: covers_def)
qed simp

lemma schemaPathAllowed_confined:
  assumes "\<forall>dir\<in>set dirs. confined dir"
  shows "schemaPathAllowed dirs p \<longleftrightarrow> confined p \<and> (\<exists>dir\<in>set dirs. covers dir p)"
proof (cases "normalizeSchemaPath p")
  case (Inl e)
  then show ?thesis using normalizeSchemaPath_exact[of p "shown (inside p)"] by (simp add: schemaPathAllowed_def)
next
  case (Inr n)
  then have "confined p" "n = shown (inside p)" by (simp_all add: normalizeSchemaPath_exact)
  with Inr show ?thesis
    using dir_allows_sound[of dirs p] dir_allows_complete[of dirs _ p] assms by (auto simp: schemaPathAllowed_def)
qed

lemma validate_unique_checked: "validate_unique check key dup seen xs = None \<Longrightarrow> x \<in> set xs \<Longrightarrow> check x = None"
  by (induction xs arbitrary: seen) (auto split: option.splits if_splits)

lemma validated_confined:
  assumes "validateDatabaseSourcePolicy d = None" and "dir \<in> set (dbc_AllowedDirs d)"
  shows "confined dir"
proof -
  have "\<exists>n. normalizeSchemaPath dir = Inr n"
    using assms unfolding validateDatabaseSourcePolicy_def
    by (auto dest: validate_unique_checked split: option.splits sum.splits)
  then show ?thesis by (auto simp: normalizeSchemaPath_exact)
qed

lemma schemaPathAllowed_exact:
  assumes "validateDatabaseSourcePolicy d = None"
  shows "schemaPathAllowed (dbc_AllowedDirs d) p \<longleftrightarrow> confined p \<and> (\<exists>dir\<in>set (dbc_AllowedDirs d). covers dir p)"
  using validated_confined[OF assms] by (intro schemaPathAllowed_confined) blast

text \<open>
  Property C18 (equivalence): under a validated configuration, source policy authorizes a plan exactly when the
  database is configured and either has no policy, or the plan names its repository, pull request
  and schema path, the repository is allowed, and the path stays inside the repository and lies, by
  components, in an allowed directory.
\<close>

theorem source_policy_exact:
  assumes "Database c (psr_Database req) = Some d" and "validateDatabaseSourcePolicy d = None"
  shows "AuthorizePlanSource (Some c) req = None \<longleftrightarrow>
    (dbc_AllowedRepos d = [] \<and> dbc_AllowedDirs d = [] \<or>
     TrimSpace (psr_Repository req) \<noteq> '''' \<and> 0 < psr_PullRequest req \<and> TrimSpace (psr_SchemaPath req) \<noteq> '''' \<and>
     databaseAllowsRepo d (psr_Repository req) \<and>
     (dbc_AllowedDirs d = [] \<or> confined (psr_SchemaPath req) \<and> (\<exists>dir\<in>set (dbc_AllowedDirs d). covers dir (psr_SchemaPath req))))"
  using assms(1) schemaPathAllowed_exact[OF assms(2), of "psr_SchemaPath req"]
  by (auto simp: AuthorizePlanSource_def hasSourcePolicy_def databaseAllowsRepo_def not_le)

theorem source_policy_exact_witness:
  "Database example_config ''orders'' = Some example_database \<and> validateDatabaseSourcePolicy example_database = None \<and>
   AuthorizePlanSource (Some example_config)
     \<lparr>psr_Database = ''orders'', psr_Repository = ''org/app'', psr_PullRequest = 7, psr_SchemaPath = ''./schema//orders/v1/''\<rparr> = None \<and>
   AuthorizePlanSource (Some example_config)
     \<lparr>psr_Database = ''orders'', psr_Repository = ''org/app'', psr_PullRequest = 7, psr_SchemaPath = ''schema/orders/../users''\<rparr> \<noteq> None"
proof -
  have db: "Database example_config ''orders'' = Some example_database" by code_simp
  have v: "validateDatabaseSourcePolicy example_database = None" by code_simp
  have "AuthorizePlanSource (Some example_config)
     \<lparr>psr_Database = ''orders'', psr_Repository = ''org/app'', psr_PullRequest = 7, psr_SchemaPath = ''./schema//orders/v1/''\<rparr> = None"
    by (subst source_policy_exact[where d = example_database]) (simp_all only: db v PlanSourcePolicyRequest.simps, code_simp)
  moreover have "AuthorizePlanSource (Some example_config)
     \<lparr>psr_Database = ''orders'', psr_Repository = ''org/app'', psr_PullRequest = 7, psr_SchemaPath = ''schema/orders/../users''\<rparr> \<noteq> None"
    by code_simp
  ultimately show ?thesis using db v by blast
qed

text \<open>Hints that claim to be exhaustive cover every path the policy would authorize.\<close>

theorem hints_exhaustive:
  assumes "Database c (psr_Database req) = Some d" and "AuthorizePlanSource (Some c) req = None"
    and "SchemaDirHintsForDatabase c (psr_Repository req) (psr_Database req) = (hints, True)"
  shows "\<exists>hint\<in>set hints. prefix (Split (CHR ''/'') hint) (inside (psr_SchemaPath req))"
proof -
  have look: "map_of (Databases c) (psr_Database req) = Some d" using assms(1) by (simp add: Database_def)
  with assms(3) have dirs: "dbc_AllowedDirs d \<noteq> []" "databaseAllowsRepo d (psr_Repository req)"
    using assms(1,2)
    by (auto simp: SchemaDirHintsForDatabase_def databaseAllowsRepo_def AuthorizePlanSource_def hasSourcePolicy_def split: if_splits)
  then have ok: "schemaPathAllowed (dbc_AllowedDirs d) (psr_SchemaPath req)"
    using assms(1,2) by (auto simp: AuthorizePlanSource_def hasSourcePolicy_def split: if_splits)
  then obtain n where "normalizeSchemaPath (psr_SchemaPath req) = Inr n" "dir_allows (dbc_AllowedDirs d) n"
    by (auto simp: schemaPathAllowed_def split: sum.splits)
  then have "dir_allows (dbc_AllowedDirs d) (shown (inside (psr_SchemaPath req)))" by (simp add: normalizeSchemaPath_exact)
  from dir_allows_sound[OF this] obtain dir where
    dir: "dir \<in> set (dbc_AllowedDirs d)" "confined dir" "covers dir (psr_SchemaPath req)" by blast
  have hints: "set hints = set (fst (hint_dirs (dbc_AllowedDirs d)))" and ex: "snd (hint_dirs (dbc_AllowedDirs d))"
    using assms(3) look dirs by (auto simp: SchemaDirHintsForDatabase_def databaseAllowsRepo_def split: if_splits prod.splits)
  have n: "normalizeSchemaPath dir = Inr (shown (inside dir))" using dir(2) by (simp add: normalizeSchemaPath_exact)
  have "case normalizeSchemaPath dir of Inl _ \<Rightarrow> False | Inr n \<Rightarrow> n \<noteq> ''*'' \<and> n \<noteq> ''.''"
    using ex dir(1) by (simp add: hint_dirs_def list_all_iff)
  then have plain: "shown (inside dir) \<noteq> ''*''" "shown (inside dir) \<noteq> ''.''" unfolding n by simp_all
  have "shown (inside dir) \<in> set hints"
    unfolding hints hint_dirs_def fst_conv set_concat set_map image_image
    using dir(1) by (intro UN_I[of dir]) (simp_all add: n plain)
  moreover have "Split (CHR ''/'') (shown (inside dir)) = inside dir"
    using plain(2) by (simp add: shown_dot) (simp add: shown_def Split_join_path)
  moreover have "prefix (inside dir) (inside (psr_SchemaPath req))"
    using dir(3) plain by (auto simp: covers_def shown_star)
  ultimately show ?thesis by (intro bexI[of _ "shown (inside dir)"]) simp_all
qed

end
