(* ===== verification/Apply_Options.thy ===== *)
theory Apply_Options
  imports Strconv
begin

text \<open>
  The options of an apply (\<^verbatim>\<open>pkg/storage/types.go\<close>): the string options of a request, the typed options, and
  their JSON.  A Go map of options is an association list; a missing key reads as the empty text.
\<close>

definition option_text :: "(string \<times> string) list \<Rightarrow> string \<Rightarrow> string" where
  "option_text options key = (case map_of options key of None \<Rightarrow> '''' | Some v \<Rightarrow> v)"

definition ApplyOptionsFromMap :: "(string \<times> string) list \<Rightarrow> ApplyOptions" where
  "ApplyOptionsFromMap options =
    \<lparr>AllowUnsafe = (option_text options ''allow_unsafe'' = ''true''),
     Branch = option_text options ''branch'',
     DeferCutover = (option_text options ''defer_cutover'' = ''true''),
     DeferDeploy = (option_text options ''defer_deploy'' = ''true''),
     SkipRevert = (option_text options ''skip_revert'' = ''true''),
     Volume = (let rawVolume = option_text options ''volume'' in
       if rawVolume \<noteq> ''''
       then (case Atoi rawVolume of Inl e \<Rightarrow> 0 | Inr volume \<Rightarrow> if 1 \<le> volume \<and> volume \<le> 11 then volume else 0)
       else 0),
     Target = option_text options ''target'',
     Rollback = (option_text options ''rollback'' = ''true'')\<rparr>"

definition Options_Map :: "ApplyOptions \<Rightarrow> (string \<times> string) list" where
  "Options_Map opts =
    (if AllowUnsafe opts then [(''allow_unsafe'', ''true'')] else []) @
    (if Branch opts \<noteq> '''' then [(''branch'', Branch opts)] else []) @
    (if DeferCutover opts then [(''defer_cutover'', ''true'')] else []) @
    (if DeferDeploy opts then [(''defer_deploy'', ''true'')] else []) @
    (if SkipRevert opts then [(''skip_revert'', ''true'')] else []) @
    (if 0 < Volume opts then [(''volume'', Itoa (Volume opts))] else []) @
    (if Target opts \<noteq> '''' then [(''target'', Target opts)] else []) @
    (if Rollback opts then [(''rollback'', ''true'')] else [])"

text \<open>\<^verbatim>\<open>json.Marshal\<close> of the options: the fields in order, empty ones omitted.\<close>

fun json_fields :: "(string \<times> string) list \<Rightarrow> string" where
  "json_fields [] = ''''"
| "json_fields [(k, v)] = json_string k @ '':'' @ v"
| "json_fields ((k, v) # kvs) = json_string k @ '':'' @ v @ '','' @ json_fields kvs"

definition MarshalApplyOptions :: "ApplyOptions \<Rightarrow> string" where
  "MarshalApplyOptions opts =
    ''{'' @ json_fields (
      (if AllowUnsafe opts then [(''allow_unsafe'', ''true'')] else []) @
      (if Branch opts \<noteq> '''' then [(''branch'', json_string (Branch opts))] else []) @
      (if DeferCutover opts then [(''defer_cutover'', ''true'')] else []) @
      (if DeferDeploy opts then [(''defer_deploy'', ''true'')] else []) @
      (if SkipRevert opts then [(''skip_revert'', ''true'')] else []) @
      (if Volume opts \<noteq> 0 then [(''volume'', Itoa (Volume opts))] else []) @
      (if Target opts \<noteq> '''' then [(''target'', json_string (Target opts))] else []) @
      (if Rollback opts then [(''rollback'', ''true'')] else [])) @ ''}''"

lemma Atoi_Itoa: "1 \<le> v \<Longrightarrow> v \<le> 11 \<Longrightarrow> Atoi (Itoa v) = Inr v"
  by (simp add: Atoi_def ParseInt_Itoa)

lemma Itoa_nonempty: "Itoa v \<noteq> ''''"
  using digits_ok by (simp add: Itoa_def)

text \<open>The string options of typed options read back as the same options.\<close>

theorem options_round_trip:
  assumes "0 \<le> Volume opts" and "Volume opts \<le> 11"
  shows "ApplyOptionsFromMap (Options_Map opts) = opts"
proof -
  have "option_text (Options_Map opts) ''volume'' = (if 0 < Volume opts then Itoa (Volume opts) else '''')"
    unfolding Options_Map_def by (simp add: option_text_def map_add_def)
  moreover have "option_text (Options_Map opts) ''branch'' = Branch opts"
    unfolding Options_Map_def by (simp add: option_text_def map_add_def)
  moreover have "option_text (Options_Map opts) ''target'' = Target opts"
    unfolding Options_Map_def by (simp add: option_text_def map_add_def)
  moreover have "option_text (Options_Map opts) ''allow_unsafe'' = (if AllowUnsafe opts then ''true'' else '''')"
    "option_text (Options_Map opts) ''defer_cutover'' = (if DeferCutover opts then ''true'' else '''')"
    "option_text (Options_Map opts) ''defer_deploy'' = (if DeferDeploy opts then ''true'' else '''')"
    "option_text (Options_Map opts) ''skip_revert'' = (if SkipRevert opts then ''true'' else '''')"
    "option_text (Options_Map opts) ''rollback'' = (if Rollback opts then ''true'' else '''')"
    unfolding Options_Map_def by (simp_all add: option_text_def map_add_def)
  ultimately show ?thesis
    using assms unfolding ApplyOptionsFromMap_def by (cases opts) (auto simp: Let_def Atoi_Itoa Itoa_nonempty)
qed

end
