(* ===== verification/Apply_Logs.thy ===== *)
theory Apply_Logs
  imports Sql_Store
begin

text \<open>
  The apply log (\<^verbatim>\<open>pkg/storage/mysqlstore/apply_logs.go\<close>): append-only entries of an apply.  An entry written
  under an apply lease is inserted by a statement that selects from the leased row, so a driver that
  lost its lease cannot append to the log of its successor.
\<close>

abbreviation LogSourceSchemaBot :: string where "LogSourceSchemaBot \<equiv> ''schemabot''"
abbreviation LogLevelInfo :: string where "LogLevelInfo \<equiv> ''info''"
abbreviation LogEventInfo :: string where "LogEventInfo \<equiv> ''info''"

definition log_row :: "ApplyLog \<Rightarrow> db \<Rightarrow> ApplyLog" where
  "log_row log d = log\<lparr>log_ID := apply_logs_next d,
     log_Source := (if log_Source log = '''' then LogSourceSchemaBot else log_Source log),
     log_Metadata := nullJSON (log_Metadata log), log_CreatedAt := now d\<rparr>"

definition insert_log :: "ApplyLog \<Rightarrow> statement" where
  "insert_log log d =
    Inr (d\<lparr>apply_logs := apply_logs d @ [log_row log d], apply_logs_next := apply_logs_next d + 1\<rparr>, apply_logs_next d)"

text \<open>\<^verbatim>\<open>INSERT ... SELECT ... FROM applies WHERE id = ? AND lease_token = ?\<close>; the number is the rows affected.\<close>

definition insert_log_leased :: "ApplyLease \<Rightarrow> ApplyLog \<Rightarrow> statement" where
  "insert_log_leased lease log d =
    (if lease_current lease d
     then Inr (d\<lparr>apply_logs := apply_logs d @ [log_row log d], apply_logs_next := apply_logs_next d + 1\<rparr>, 1)
     else Inr (d, 0))"

definition Append :: "ctx \<Rightarrow> ApplyLog \<Rightarrow> unit prog" where
  "Append c log =
    (case applyLeaseFromContext c (log_ApplyID log) of
       Inl e \<Rightarrow> State_Monad.return (Inl e)
     | Inr (Some lease) \<Rightarrow>
         do {
           r \<leftarrow> ExecContext (insert_log_leased lease log);
           case r of
             Inl e \<Rightarrow> State_Monad.return (Inl e)
           | Inr rows \<Rightarrow>
               if rows = 0
               then do {
                 k \<leftarrow> ensureApplyLeaseStillOwned lease;
                 case k of
                   Inl e \<Rightarrow> State_Monad.return (Inl e)
                 | Inr _ \<Rightarrow> State_Monad.return (Inl (Errorf ''append apply log matched no rows despite current lease''))
               }
               else State_Monad.return (Inr ())
         }
     | Inr None \<Rightarrow>
         do {
           r \<leftarrow> ExecContext (insert_log log);
           case r of Inl e \<Rightarrow> State_Monad.return (Inl e) | Inr _ \<Rightarrow> State_Monad.return (Inr ())
         })"

text \<open>Rows with the same \<^verbatim>\<open>created_at\<close> come in no specified order; the model keeps the order of insertion.\<close>

definition ApplyLog_GetByApply :: "int \<Rightarrow> ApplyLog list prog" where
  "ApplyLog_GetByApply applyID = QueryContext (\<lambda>d. sort_key log_CreatedAt (filter (\<lambda>l. log_ApplyID l = applyID) (apply_logs d)))"

definition GetRecentByApply :: "int \<Rightarrow> nat \<Rightarrow> ApplyLog list prog" where
  "GetRecentByApply applyID limit = QueryContext (\<lambda>d.
     rev (take limit (sort_key (\<lambda>l. - log_CreatedAt l) (sort_key (\<lambda>l. - log_ID l)
       (filter (\<lambda>l. log_ApplyID l = applyID) (apply_logs d))))))"

record ApplyLogFilter =
  lf_ApplyID :: int
  lf_TaskID :: "int option"
  lf_Level :: string
  lf_EventType :: string
  lf_Limit :: int

definition ApplyLog_List :: "(string \<Rightarrow> string) \<Rightarrow> ApplyLogFilter \<Rightarrow> ApplyLog list prog" where
  "ApplyLog_List ci f = QueryContext (\<lambda>d.
     take (nat (if lf_Limit f \<le> 0 then 100 else lf_Limit f)) (sort_key log_CreatedAt
       (filter (\<lambda>l. log_ApplyID l = lf_ApplyID f \<and>
          (lf_TaskID f \<noteq> None \<longrightarrow> log_TaskID l = lf_TaskID f) \<and>
          (lf_Level f \<noteq> '''' \<longrightarrow> ci (log_Level l) = ci (lf_Level f)) \<and>
          (lf_EventType f \<noteq> '''' \<longrightarrow> ci (log_EventType l) = ci (lf_EventType f))) (apply_logs d))))"

section \<open>The log of a displaced driver\<close>

lemma ensure_lease_alone:
  "\<not> lease_current lease d \<Longrightarrow> \<exists>e. run_state (ensureApplyLeaseStillOwned lease) (alone d us) = (Inl e, alone d us)"
  by (auto simp: ensureApplyLeaseStillOwned_def applyLeaseMatches_def)

text \<open>A driver whose lease is not the stored one appends nothing and gets an error.\<close>

theorem displaced_append:
  assumes "applyLeaseFromContext c (log_ApplyID log) = Inr (Some lease)" and "\<not> lease_current lease d"
  shows "\<exists>e. run_state (Append c log) (quiet d) = (Inl e, quiet d)"
  using assms ensure_lease_alone[OF assms(2), of "[]"] by (auto simp: Append_def insert_log_leased_def)

end
