(* ===== verification/Apply_Enqueue.thy ===== *)
theory Apply_Enqueue
  imports Apply_Store Plan_Store Lock_Store Source_Policy Apply_Options Apply_Logs "HOL-Library.Multiset"
begin

text \<open>
  Queueing an apply (\<^verbatim>\<open>pkg/api/plan_handlers.go\<close>): a stored plan becomes one apply row with an operation per
  deployment, or per deployment, shard and table of a sharded plan, and a task per table change.

  The uuid library is the parameter \<open>uuid\<close>, the n-th identifier drawn; opening a database connection
  or a gRPC connection are the parameters \<open>newLocal\<close> and \<open>newGRPC\<close>, with the error they give; the
  authenticated subject of the request is an option.  Logs, metrics and trace spans are left out.
\<close>

section \<open>Deployment clients\<close>

abbreviation DefaultDeployment :: string where "DefaultDeployment \<equiv> ''default''"

text \<open>\<open>None\<close> in the error position of \<open>Endpoint\<close> is the sentinel \<^verbatim>\<open>errTernDeploymentNotConfigured\<close>.\<close>

definition Endpoint :: "(string \<times> (string \<times> string) list) list \<Rightarrow> string \<Rightarrow> string \<Rightarrow> err option + string" where
  "Endpoint c deployment0 environment =
    (let deployment = (if deployment0 = '''' then DefaultDeployment else deployment0) in
     case map_of c deployment of
       None \<Rightarrow> Inl None
     | Some endpoints \<Rightarrow>
         (case map_of endpoints environment of
            None \<Rightarrow> Inl None
          | Some endpoint \<Rightarrow> if endpoint = '''' then Inl (Some (Errorf ''endpoint not configured'')) else Inr endpoint))"

text \<open>
  The clients, pending observers and operator state of \<^verbatim>\<open>Service\<close>.  A client is known by its key,
  an observer by a number.
\<close>

datatype clientRef = keyClient string | defaultClient

record Service =
  svc_ternClients :: "string list"
  svc_defaultTernClient :: bool
  svc_pendingObservers :: "((string \<times> string \<times> string) \<times> nat) list"
  svc_observers :: "(clientRef \<times> int \<times> nat) list"
  svc_running :: bool
  svc_wake :: bool

definition TernClient ::
  "(string \<Rightarrow> err option) \<Rightarrow> (string \<Rightarrow> err option) \<Rightarrow> ServerConfig \<Rightarrow> Service \<Rightarrow> string \<Rightarrow> string \<Rightarrow> (err + clientRef) \<times> Service" where
  "TernClient newLocal newGRPC config s deployment0 environment =
    (let deployment = (if deployment0 = '''' then DefaultDeployment else deployment0);
         key = deployment @ ''/'' @ environment in
     if key \<in> set (svc_ternClients s) then (Inr (keyClient key), s)
     else
       (case (case Database config deployment of
                None \<Rightarrow> None
              | Some dbConfig \<Rightarrow>
                  (case map_of (dbc_Environments dbConfig) environment of
                     None \<Rightarrow> None
                   | Some envConfig \<Rightarrow> if HasLocalDSN envConfig then Some envConfig else None)) of
          Some envConfig \<Rightarrow>
            (case newLocal key of
               Some e \<Rightarrow> (Inl e, s)
             | None \<Rightarrow> (Inr (keyClient key), s\<lparr>svc_ternClients := key # svc_ternClients s\<rparr>))
        | None \<Rightarrow>
            (case Endpoint (TernDeployments config) deployment environment of
               Inl None \<Rightarrow>
                 if svc_defaultTernClient s then (Inr defaultClient, s)
                 else if deployment = DefaultDeployment then (Inl (Errorf ''not found in server configuration''), s)
                 else (Inl (Errorf ''tern deployment not configured''), s)
             | Inl (Some e) \<Rightarrow> (Inl e, s)
             | Inr address \<Rightarrow>
                 (case newGRPC address of
                    Some e \<Rightarrow> (Inl (Wrapped ''create tern client'' e), s)
                  | None \<Rightarrow> (Inr (keyClient key), s\<lparr>svc_ternClients := key # svc_ternClients s\<rparr>)))))"

definition wakeOperator :: "Service \<Rightarrow> Service" where
  "wakeOperator s = (if svc_running s then s\<lparr>svc_wake := True\<rparr> else s)"

definition consumePendingObserver :: "Service \<Rightarrow> string \<times> string \<times> string \<Rightarrow> nat option \<times> Service" where
  "consumePendingObserver s key =
    (map_of (svc_pendingObservers s) key,
     s\<lparr>svc_pendingObservers := filter (\<lambda>kv. fst kv \<noteq> key) (svc_pendingObservers s)\<rparr>)"

section \<open>Operation groups\<close>

abbreviation applyOperationKeyMaxLen :: nat where "applyOperationKeyMaxLen \<equiv> 255"
abbreviation finalizerOperationKeySegment :: string where "finalizerOperationKeySegment \<equiv> ''group_finalizer''"

definition EngineForType :: "string \<Rightarrow> string" where
  "EngineForType dbType =
    (if dbType = ''vitess'' then ''planetscale'' else if dbType = ''strata'' then ''strata''
     else if dbType = ''postgres'' then ''postgres'' else ''spirit'')"

definition short_id :: "string \<Rightarrow> string" where
  "short_id u = take 16 (filter (\<lambda>ch. ch \<noteq> CHR ''-'') u)"

definition buildApplyTask :: "Plan \<Rightarrow> TableChange \<Rightarrow> string \<Rightarrow> ApplyOptions \<Rightarrow> string \<Rightarrow> int \<Rightarrow> string \<Rightarrow> Task" where
  "buildApplyTask plan ddlChange environment applyOpts shard nowT u =
    \<lparr>task_ID = 0, task_Identifier = ''task-'' @ short_id u, task_ApplyID = 0, task_ApplyOperationID = None,
     task_PlanID = plan_ID plan, task_Database = plan_Database plan, task_DatabaseType = plan_DatabaseType plan,
     task_Engine = EngineForType (plan_DatabaseType plan), task_Repository = plan_Repository plan,
     task_PullRequest = plan_PullRequest plan, task_Environment = environment, task_State = Task_Pending,
     task_ErrorMessage = '''', task_Options = MarshalApplyOptions applyOpts, task_Attempt = 0,
     task_Namespace = tc_Namespace ddlChange, task_TableName = tc_Table ddlChange, task_Shard = shard,
     task_DDL = tc_DDL ddlChange, task_DDLAction = tc_Operation ddlChange, task_RowsCopied = 0, task_RowsTotal = 0,
     task_ProgressPercent = 0, task_ETASeconds = 0, task_ChecksumRowsChecked = 0, task_ChecksumRowsTotal = 0,
     task_CutoverAttempts = 0, task_IsInstant = False, task_ReadyToComplete = False, task_EngineMigrationID = '''',
     task_CreatedAt = nowT, task_UpdatedAt = nowT, task_StartedAt = None, task_CompletedAt = None\<rparr>"

text \<open>The tasks of a list of changes, drawing identifiers from \<open>n\<close> on.\<close>

fun buildApplyTasks ::
  "(nat \<Rightarrow> string) \<Rightarrow> Plan \<Rightarrow> string \<Rightarrow> ApplyOptions \<Rightarrow> string \<Rightarrow> int \<Rightarrow> TableChange list \<Rightarrow> nat \<Rightarrow> Task list \<times> nat" where
  "buildApplyTasks uuid plan environment applyOpts shard nowT [] n = ([], n)"
| "buildApplyTasks uuid plan environment applyOpts shard nowT (c # cs) n =
    (let (ts, n') = buildApplyTasks uuid plan environment applyOpts shard nowT cs (Suc n) in
     (buildApplyTask plan c environment applyOpts shard nowT (uuid n) # ts, n'))"

definition newPendingApplyOperation :: "ExecutionTarget \<Rightarrow> string \<Rightarrow> string \<Rightarrow> string \<Rightarrow> int \<Rightarrow> ApplyOperation" where
  "newPendingApplyOperation tgt operationKey cutoverPolicy onFailure nowT =
    \<lparr>op_ID = 0, op_ApplyID = 0, op_Deployment = ExecutionTarget.Deployment tgt, op_OperationKey = operationKey,
     op_OperationKind = ApplyOperationKindWork, op_Target = ExecutionTarget.Target tgt, op_ExternalID = '''',
     op_ExternalOperationID = '''', op_State = Apply_Pending, op_ErrorMessage = '''', op_CutoverPolicy = cutoverPolicy,
     op_OnFailure = onFailure, op_Attempt = 0, op_StartedAt = None, op_CompletedAt = None, op_LeaseOwner = '''',
     op_LeaseToken = '''', op_LeaseAcquiredAt = None, op_EngineResumeContext = '''', op_EngineResumeMetadata = '''',
     op_CreatedAt = nowT, op_UpdatedAt = nowT\<rparr>"

definition finalizerOperationKey :: "string \<Rightarrow> string" where
  "finalizerOperationKey namespace = namespace @ ''/'' @ finalizerOperationKeySegment"

definition changing :: "ShardPlan \<Rightarrow> bool" where
  "changing shard \<longleftrightarrow> sp_Changes shard \<noteq> []"

text \<open>The map from namespaces to their changing shards, in the order the callers sort it.\<close>

definition changingShardsByNamespace :: "ShardPlan list \<Rightarrow> (string \<times> ShardPlan list) list" where
  "changingShardsByNamespace shards =
    map (\<lambda>namespace. (namespace, sort_key sp_Shard (filter (\<lambda>s. changing s \<and> sp_Namespace s = namespace) shards)))
      (sort (remdups (map sp_Namespace (filter changing shards))))"

definition validateOperationKeyPart :: "string \<Rightarrow> string \<Rightarrow> err option" where
  "validateOperationKeyPart label v =
    (if CHR ''/'' \<in> set v then Some (Errorf (''operation key '' @ label @ '' component contains reserved delimiter'')) else None)"

definition validateShardOperationKeyParts :: "string \<Rightarrow> string \<Rightarrow> string \<Rightarrow> err option" where
  "validateShardOperationKeyParts namespace shard table =
    (case validateOperationKeyPart ''namespace'' namespace of
       Some e \<Rightarrow> Some e
     | None \<Rightarrow>
       (case validateOperationKeyPart ''shard'' shard of
          Some e \<Rightarrow> Some e
        | None \<Rightarrow> validateOperationKeyPart ''table'' table))"

definition canBuildShardedOperationGroups :: "Plan \<Rightarrow> TableChange list \<Rightarrow> bool" where
  "canBuildShardedOperationGroups plan taskChanges =
    (if plan_Shards plan = [] \<or> taskChanges = [] then False
     else
       (let shardsByNamespace = changingShardsByNamespace (plan_Shards plan) in
        if shardsByNamespace = [] then False
        else list_all (\<lambda>c. tc_DDL c \<noteq> '''' \<and> tc_Table c \<noteq> '''' \<and>
               map_of shardsByNamespace (tc_Namespace c) \<notin> {None, Some []}) taskChanges))"

text \<open>
  The groups under construction: a work group with its key in the map \<^verbatim>\<open>groupsByTargetAndKey\<close>, a finalizer
  with none, in the order of creation; and the next identifier.
\<close>

type_synonym building = "(string option \<times> ApplyOperationWithTasks) list \<times> nat"

fun add_task :: "string \<Rightarrow> ApplyOperation \<Rightarrow> Task \<Rightarrow> (string option \<times> ApplyOperationWithTasks) list \<Rightarrow>
    (string option \<times> ApplyOperationWithTasks) list" where
  "add_task groupKey operation task [] =
    [(Some groupKey, \<lparr>grp_Operation = Some operation, grp_Tasks = [Some task], grp_AllowTaskless = False\<rparr>)]"
| "add_task groupKey operation task ((k, g) # groups) =
    (if k = Some groupKey then (k, g\<lparr>grp_Tasks := grp_Tasks g @ [Some task]\<rparr>) # groups
     else (k, g) # add_task groupKey operation task groups)"

record Build =
  b_uuid :: "nat \<Rightarrow> string"
  b_plan :: Plan
  b_environment :: string
  b_applyOpts :: ApplyOptions
  b_cutoverPolicy :: string
  b_onFailure :: string
  b_now :: int

definition add_change :: "Build \<Rightarrow> ExecutionTarget \<Rightarrow> string \<Rightarrow> ShardPlan \<Rightarrow> TableChange \<Rightarrow> building \<Rightarrow> err + building" where
  "add_change b tgt namespace shard ddlChange st =
    (if TrimSpace (tc_Table ddlChange) = '''' \<or> TrimSpace (tc_DDL ddlChange) = '''' \<or> TrimSpace (tc_Operation ddlChange) = ''''
     then Inl (Errorf ''namespace shard has a change with an empty table, DDL, or operation'')
     else if tc_Namespace ddlChange \<noteq> '''' \<and> tc_Namespace ddlChange \<noteq> namespace
     then Inl (Errorf ''change has mismatched namespace'')
     else
       (case validateShardOperationKeyParts namespace (sp_Shard shard) (tc_Table ddlChange) of
          Some e \<Rightarrow> Inl e
        | None \<Rightarrow>
            (let operationKey = ShardOperationKey namespace (sp_Shard shard) (tc_Table ddlChange) in
             if applyOperationKeyMaxLen < length operationKey
             then Inl (Errorf ''operation key exceeds 255 characters'')
             else
               (case st of (groups, n) \<Rightarrow>
                 Inr (add_task (ExecutionTarget.Deployment tgt @ [CHR 0x00] @ operationKey)
                        (newPendingApplyOperation tgt operationKey (b_cutoverPolicy b) (b_onFailure b) (b_now b))
                        (buildApplyTask (b_plan b) ddlChange (b_environment b) (b_applyOpts b) (sp_Shard shard) (b_now b) (b_uuid b n))
                        groups, Suc n)))))"

definition add_finalizer :: "Build \<Rightarrow> ExecutionTarget \<Rightarrow> string \<Rightarrow> building \<Rightarrow> err + building" where
  "add_finalizer b tgt namespace st =
    (case validateOperationKeyPart ''namespace'' namespace of
       Some e \<Rightarrow> Inl e
     | None \<Rightarrow>
         (let operationKey = finalizerOperationKey namespace in
          if applyOperationKeyMaxLen < length operationKey
          then Inl (Errorf ''operation key for namespace finalizer exceeds 255 characters'')
          else
            (case st of (groups, n) \<Rightarrow>
              Inr (groups @ [(None, \<lparr>grp_Operation = Some ((newPendingApplyOperation tgt operationKey (b_cutoverPolicy b) (b_onFailure b) (b_now b))
                       \<lparr>op_OperationKind := ApplyOperationKindGroupFinalizer\<rparr>), grp_Tasks = [], grp_AllowTaskless = False\<rparr>)], n))))"

text \<open>A loop whose body may return an error.\<close>

fun for_each :: "('a \<Rightarrow> 's \<Rightarrow> err + 's) \<Rightarrow> 'a list \<Rightarrow> 's \<Rightarrow> err + 's" where
  "for_each body [] s = Inr s"
| "for_each body (x # xs) s = (case body x s of Inl e \<Rightarrow> Inl e | Inr s' \<Rightarrow> for_each body xs s')"

definition build_target :: "Build \<Rightarrow> ExecutionTarget \<Rightarrow> building \<Rightarrow> err + building" where
  "build_target b tgt st =
    (case for_each (\<lambda>(namespace, shards). for_each (\<lambda>shard. for_each (add_change b tgt namespace shard) (sp_Changes shard)) shards)
            (changingShardsByNamespace (plan_Shards (b_plan b))) st of
       Inl e \<Rightarrow> Inl e
     | Inr st' \<Rightarrow> for_each (add_finalizer b tgt) (vschemaFinalizerNamespaces (b_plan b)) st')"

definition buildShardedApplyOperationGroups :: "Build \<Rightarrow> ExecutionTarget list \<Rightarrow> nat \<Rightarrow> err + ApplyOperationWithTasks list" where
  "buildShardedApplyOperationGroups b targets n =
    (case for_each (build_target b) targets ([], n) of
       Inl e \<Rightarrow> Inl e
     | Inr (groups, _) \<Rightarrow> Inr (map snd groups))"

fun plain_groups :: "Build \<Rightarrow> TableChange list \<Rightarrow> bool \<Rightarrow> ExecutionTarget list \<Rightarrow> nat \<Rightarrow> ApplyOperationWithTasks list" where
  "plain_groups b taskChanges allowTasklessWork [] n = []"
| "plain_groups b taskChanges allowTasklessWork (tgt # targets) n =
    (let (ts, n') = buildApplyTasks (b_uuid b) (b_plan b) (b_environment b) (b_applyOpts b) '''' (b_now b) taskChanges n in
     \<lparr>grp_Operation = Some (newPendingApplyOperation tgt '''' (b_cutoverPolicy b) (b_onFailure b) (b_now b)),
      grp_Tasks = map Some ts, grp_AllowTaskless = allowTasklessWork\<rparr> #
     plain_groups b taskChanges allowTasklessWork targets n')"

definition buildApplyOperationGroups ::
  "Build \<Rightarrow> TableChange list \<Rightarrow> ExecutionTarget list \<Rightarrow> nat \<Rightarrow> err + ApplyOperationWithTasks list \<times> bool" where
  "buildApplyOperationGroups b taskChanges targets n =
    (if canBuildShardedOperationGroups (b_plan b) taskChanges
     then (case buildShardedApplyOperationGroups b targets n of Inl e \<Rightarrow> Inl e | Inr groups \<Rightarrow> Inr (groups, True))
     else Inr (plain_groups b taskChanges
                 (length targets = 1 \<and> taskChanges = [] \<and> vschemaFinalizerNamespaces (b_plan b) \<noteq> []) targets n, False))"

section \<open>Queueing\<close>

record ApplyRequest =
  ar_PlanID :: string
  ar_Environment :: string
  ar_Options :: "(string \<times> string) list"
  ar_Caller :: string
  ar_InstallationID :: int
  ar_ExpectedLockOwner :: string
  ar_ExpectedPendingPlanID :: string

definition rejectUnsafeStoredPlanWithoutOptIn :: "Plan \<Rightarrow> ApplyOptions \<Rightarrow> err option" where
  "rejectUnsafeStoredPlanWithoutOptIn plan applyOpts =
    (if AllowUnsafe applyOpts then None
     else (case UnsafeDDLChanges plan of
             [] \<Rightarrow> None
           | change # _ \<Rightarrow> Some (Errorf (''stored plan contains unsafe change: '' @ UnsafeOptInReason change))))"

definition resolveCaller :: "string option \<Rightarrow> string \<Rightarrow> string" where
  "resolveCaller subject requestCaller = (case subject of Some s \<Rightarrow> s | None \<Rightarrow> requestCaller)"

definition apply_targets :: "ServerConfig \<Rightarrow> Plan \<Rightarrow> string \<Rightarrow> ExecutionTarget list" where
  "apply_targets config plan environment =
    (let own = [\<lparr>DatabaseType = plan_DatabaseType plan, Deployment = plan_Deployment plan, Target = plan_Target plan\<rparr>] in
     case ResolveDatabaseTargets (Some config) (plan_Database plan) environment of
       Inl e \<Rightarrow> own
     | Inr resolved \<Rightarrow> if 1 < length resolved then resolved else own)"

text \<open>The parameters of the environment: collation, lock name hash, identifiers, clock and caller.\<close>

record Host =
  h_ci :: "string \<Rightarrow> string"
  h_sha :: "string \<Rightarrow> string"
  h_uuid :: "nat \<Rightarrow> string"
  h_now :: int
  h_subject :: "string option"
  h_newLocal :: "string \<Rightarrow> err option"
  h_newGRPC :: "string \<Rightarrow> err option"

definition build_of :: "Host \<Rightarrow> ServerConfig \<Rightarrow> Plan \<Rightarrow> string \<Rightarrow> ApplyOptions \<Rightarrow> Build" where
  "build_of h config plan environment applyOpts =
    \<lparr>b_uuid = h_uuid h, b_plan = plan, b_environment = environment, b_applyOpts = applyOpts,
     b_cutoverPolicy = CutoverPolicyFor config (plan_Database plan) environment,
     b_onFailure = OnFailure config (plan_Database plan) environment, b_now = h_now h\<rparr>"

definition stored_apply :: "Host \<Rightarrow> Plan \<Rightarrow> ApplyRequest \<Rightarrow> ApplyOptions \<Rightarrow> string \<Rightarrow> int \<Rightarrow> string \<Rightarrow> Apply" where
  "stored_apply h plan req applyOpts applyIdentifier lockID deployment =
    zero_apply\<lparr>apply_Identifier := applyIdentifier, apply_LockID := lockID,
      apply_ExpectedLockOwner := ar_ExpectedLockOwner req, apply_ExpectedPendingPlanID := ar_ExpectedPendingPlanID req,
      apply_PlanID := plan_ID plan, apply_Database := plan_Database plan, apply_DatabaseType := plan_DatabaseType plan,
      apply_Repository := plan_Repository plan, apply_PullRequest := plan_PullRequest plan,
      apply_Environment := ar_Environment req, apply_Deployment := deployment,
      apply_Caller := resolveCaller (h_subject h) (ar_Caller req), apply_InstallationID := ar_InstallationID req,
      apply_Engine := EngineForType (plan_DatabaseType plan), apply_State := Apply_Pending, apply_Options := applyOpts,
      apply_CreatedAt := h_now h, apply_UpdatedAt := h_now h\<rparr>"

text \<open>The first identifier drawn is the apply's own; a failed log append is only logged.\<close>

definition createStoredApply ::
  "Host \<Rightarrow> ServerConfig \<Rightarrow> Plan \<Rightarrow> ApplyRequest \<Rightarrow> (string \<times> string) list \<Rightarrow> string \<Rightarrow> (Apply \<times> int) prog" where
  "createStoredApply h config plan req options applyIdentifier =
    (let applyOpts = ApplyOptionsFromMap options; targets = apply_targets config plan (ar_Environment req) in
     case rejectUnsafeStoredPlanWithoutOptIn plan applyOpts of
       Some e \<Rightarrow> State_Monad.return (Inl e)
     | None \<Rightarrow>
         or_fail ''lookup lock'' (Lock_Get (h_ci h) (plan_Database plan) (plan_DatabaseType plan)) (\<lambda>lock.
           let apply = stored_apply h plan req applyOpts applyIdentifier
                 (case lock of None \<Rightarrow> 0 | Some l \<Rightarrow> lock_ID l) (ExecutionTarget.Deployment (hd targets)) in
           case buildApplyOperationGroups (build_of h config plan (ar_Environment req) applyOpts) (FlatDDLChanges plan) targets 1 of
             Inl e \<Rightarrow> State_Monad.return (Inl e)
           | Inr (groups, shardedFanout) \<Rightarrow>
               or_fail ''store apply and tasks'' (CreateWithGroupedOperations (h_sha h) (h_ci h) apply (map Some groups)) (\<lambda>storedApplyID.
                 do {
                   _ \<leftarrow> Append Background \<lparr>log_ID = 0, log_ApplyID = storedApplyID, log_TaskID = None, log_Level = LogLevelInfo,
                          log_EventType = LogEventInfo, log_Source = LogSourceSchemaBot,
                          log_Message = ''Apply queued: '' @ applyIdentifier, log_OldState = '''', log_NewState = Apply_Pending,
                          log_Metadata = '''', log_CreatedAt = h_now h\<rparr>;
                   State_Monad.return (Inr (apply\<lparr>apply_ID := storedApplyID\<rparr>, storedApplyID))
                 })))"

definition enqueueApply ::
  "Host \<Rightarrow> ServerConfig \<Rightarrow> Plan \<Rightarrow> ApplyRequest \<Rightarrow> (string \<times> string) list \<Rightarrow> (string \<times> int) prog" where
  "enqueueApply h config plan req options =
    do {
      r \<leftarrow> createStoredApply h config plan req options (''apply-'' @ short_id (h_uuid h 0));
      case r of
        Inl e \<Rightarrow> State_Monad.return (Inl e)
      | Inr (apply, storedApplyID) \<Rightarrow> State_Monad.return (Inr (apply_Identifier apply, storedApplyID))
    }"

definition loadPlanForApply :: "(string \<Rightarrow> string) \<Rightarrow> ApplyRequest \<Rightarrow> Plan prog" where
  "loadPlanForApply ci req =
    or_fail ''get plan'' (Plan_Get ci (ar_PlanID req)) (\<lambda>p.
      State_Monad.return
        (case p of
           None \<Rightarrow> Inl (Errorf ''plan not found'')
         | Some plan \<Rightarrow>
             if plan_Environment plan \<noteq> ar_Environment req then Inl (Errorf ''plan was created for another environment'')
             else if plan_Deployment plan = '''' then Inl (Errorf ''plan is missing server-side routing metadata field deployment'')
             else if plan_Target plan = '''' then Inl (Errorf ''plan is missing server-side routing metadata field target'')
             else Inr plan))"

definition plan_source :: "Plan \<Rightarrow> PlanSourcePolicyRequest" where
  "plan_source plan = \<lparr>psr_Database = plan_Database plan, psr_Repository = plan_Repository plan,
     psr_PullRequest = plan_PullRequest plan, psr_SchemaPath = plan_SchemaPath plan\<rparr>"

definition authorizeStoredPlanSource :: "ServerConfig \<Rightarrow> Plan \<Rightarrow> err option" where
  "authorizeStoredPlanSource config plan =
    (if plan_SchemaPath plan = '''' then None
     else (case AuthorizePlanSource (Some config) (plan_source plan) of
             Some e \<Rightarrow> Some (Wrapped ''source policy for plan'' e)
           | None \<Rightarrow> None))"

definition set_option :: "string \<Rightarrow> string \<Rightarrow> (string \<times> string) list \<Rightarrow> (string \<times> string) list" where
  "set_option k v options = (k, v) # filter (\<lambda>kv. fst kv \<noteq> k) options"

text \<open>The observer is attached after the apply is stored and before the operator is woken.\<close>

definition attach_observer :: "Service \<Rightarrow> clientRef \<Rightarrow> string \<times> string \<times> string \<Rightarrow> int \<Rightarrow> Service" where
  "attach_observer s client key storedApplyID =
    (let (observer, s') = consumePendingObserver s key in
     case observer of
       None \<Rightarrow> s'
     | Some ob \<Rightarrow> s'\<lparr>svc_observers := (client, storedApplyID, ob) # svc_observers s'\<rparr>)"

definition queueValidatedApply ::
  "Host \<Rightarrow> ServerConfig \<Rightarrow> Service \<Rightarrow> Plan \<Rightarrow> ApplyRequest \<Rightarrow> (world, (err + string \<times> int) \<times> Service) state" where
  "queueValidatedApply h config s plan req =
    (case TernClient (h_newLocal h) (h_newGRPC h) config s (plan_Deployment plan) (ar_Environment req) of
       (Inl e, s') \<Rightarrow> State_Monad.return (Inl (Wrapped ''database'' e), s')
     | (Inr client, s') \<Rightarrow>
         do {
           r \<leftarrow> enqueueApply h config plan req (set_option ''target'' (plan_Target plan) (ar_Options req));
           State_Monad.return
             (case r of
                Inl e \<Rightarrow> (Inl e, s')
              | Inr (applyIdentifier, storedApplyID) \<Rightarrow>
                  (let s'' = attach_observer s' client (plan_Database plan, plan_Deployment plan, ar_Environment req) storedApplyID in
                   if storedApplyID \<le> 0 then (Inl (Errorf ''accepted apply missing stored apply id''), s'')
                   else (Inr (applyIdentifier, storedApplyID), wakeOperator s'')))
         })"

definition ExecuteApply ::
  "Host \<Rightarrow> ServerConfig \<Rightarrow> Service \<Rightarrow> ApplyRequest \<Rightarrow> (world, (err + string \<times> int) \<times> Service) state" where
  "ExecuteApply h config s req =
    do {
      r \<leftarrow> loadPlanForApply (h_ci h) req;
      case r of
        Inl e \<Rightarrow> State_Monad.return (Inl e, s)
      | Inr plan \<Rightarrow>
          (case authorizeStoredPlanSource config plan of
             Some e \<Rightarrow> State_Monad.return (Inl e, s)
           | None \<Rightarrow> queueValidatedApply h config s plan req)
    }"

definition EnqueueAuthorizedApply ::
  "Host \<Rightarrow> ServerConfig \<Rightarrow> Service \<Rightarrow> ApplyRequest \<Rightarrow> (world, (err + string \<times> int) \<times> Service) state" where
  "EnqueueAuthorizedApply h config s req =
    do {
      r \<leftarrow> loadPlanForApply (h_ci h) req;
      case r of
        Inl e \<Rightarrow> State_Monad.return (Inl e, s)
      | Inr plan \<Rightarrow> queueValidatedApply h config s plan req
    }"

text \<open>The status of the answer to \<^verbatim>\<open>POST /api/apply\<close>.\<close>

fun errors_As_SourcePolicy :: "err \<Rightarrow> bool" where
  "errors_As_SourcePolicy (SourcePolicyError reason message) = True"
| "errors_As_SourcePolicy (Wrapped m e) = errors_As_SourcePolicy e"
| "errors_As_SourcePolicy _ = False"

definition handleApply ::
  "Host \<Rightarrow> ServerConfig \<Rightarrow> Service \<Rightarrow> ApplyRequest \<Rightarrow> (world, int \<times> Service) state" where
  "handleApply h config s req =
    (if ar_PlanID req = '''' \<or> ar_Environment req = '''' then State_Monad.return (400, s)
     else
       do {
         (r, s') \<leftarrow> ExecuteApply h config s req;
         State_Monad.return
           (case r of
              Inl e \<Rightarrow> (if errors_Is e ErrActiveApplyExists then 409 else if errors_As_SourcePolicy e then 403 else 500, s')
            | Inr _ \<Rightarrow> (200, s'))
       })"

section \<open>The fan-out queues exactly the reviewed changes\<close>

lemma for_each_sum:
  fixes mu :: "'s \<Rightarrow> 'b multiset"
  assumes "\<And>x s s'. x \<in> set xs \<Longrightarrow> I s \<Longrightarrow> body x s = Inr s' \<Longrightarrow> I s' \<and> mu s' = mu s + m x"
  shows "I s \<Longrightarrow> for_each body xs s = Inr s' \<Longrightarrow> I s' \<and> mu s' = mu s + sum_list (map m xs)"
  using assms
proof (induction xs arbitrary: s)
  case (Cons x xs)
  then obtain s1 where s1: "body x s = Inr s1" "for_each body xs s1 = Inr s'" by (auto split: sum.splits)
  with Cons.prems(1) Cons.prems(3)[of x s s1] have "I s1 \<and> mu s1 = mu s + m x" by simp
  moreover from this have "I s' \<and> mu s' = mu s1 + sum_list (map m xs)"
    by (intro Cons.IH[OF _ s1(2)]) (use Cons.prems(3) in auto)
  ultimately show ?case by (simp add: add.assoc)
qed simp

text \<open>What a group queues: deployment, operation key, shard, namespace, table, DDL and action of every task.\<close>

type_synonym work = "string \<times> string \<times> string \<times> string \<times> string \<times> string \<times> string"

definition group_work :: "ApplyOperationWithTasks \<Rightarrow> work list" where
  "group_work g =
    (case grp_Operation g of
       None \<Rightarrow> []
     | Some op \<Rightarrow> concat (map (\<lambda>t. case t of None \<Rightarrow> []
         | Some task \<Rightarrow> [(op_Deployment op, op_OperationKey op, task_Shard task, task_Namespace task, task_TableName task, task_DDL task, task_DDLAction task)])
         (grp_Tasks g)))"

definition queued :: "ApplyOperationWithTasks list \<Rightarrow> work multiset" where
  "queued groups = mset (concat (map group_work groups))"

definition change_work :: "ExecutionTarget \<Rightarrow> ShardPlan \<Rightarrow> TableChange \<Rightarrow> work" where
  "change_work tgt shard c =
    (ExecutionTarget.Deployment tgt, ShardOperationKey (sp_Namespace shard) (sp_Shard shard) (tc_Table c),
     sp_Shard shard, tc_Namespace c, tc_Table c, tc_DDL c, tc_Operation c)"

definition reviewed :: "ExecutionTarget list \<Rightarrow> ShardPlan list \<Rightarrow> work multiset" where
  "reviewed targets shards =
    mset (concat (map (\<lambda>tgt. concat (map (\<lambda>shard. map (change_work tgt shard) (sp_Changes shard)) shards)) targets))"

definition keyed :: "(string option \<times> ApplyOperationWithTasks) list \<Rightarrow> bool" where
  "keyed groups \<longleftrightarrow> (\<forall>(k, g)\<in>set groups. case k of
     None \<Rightarrow> True
   | Some key \<Rightarrow> \<exists>op. grp_Operation g = Some op \<and> CHR 0x00 \<notin> set (op_Deployment op) \<and>
       key = op_Deployment op @ [CHR 0x00] @ op_OperationKey op)"

lemma sep_split: "sep \<notin> set xs \<Longrightarrow> sep \<notin> set ys \<Longrightarrow> xs @ sep # us = ys @ sep # vs \<longleftrightarrow> xs = ys \<and> us = vs"
proof (induction xs arbitrary: ys)
  case Nil
  then show ?case by (cases ys) auto
next
  case (Cons x xs)
  then show ?case by (cases ys) auto
qed

lemma add_task_work:
  assumes "keyed groups" and "CHR 0x00 \<notin> set (op_Deployment op)" and "key = op_Deployment op @ [CHR 0x00] @ op_OperationKey op"
  shows "keyed (add_task key op task groups) \<and>
    queued (map snd (add_task key op task groups)) = queued (map snd groups) +
      {#(op_Deployment op, op_OperationKey op, task_Shard task, task_Namespace task, task_TableName task, task_DDL task, task_DDLAction task)#}"
  using assms(1)
proof (induction groups)
  case Nil
  then show ?case using assms(2,3) by (simp add: keyed_def queued_def group_work_def)
next
  case (Cons kg groups)
  obtain k g where kg: "kg = (k, g)" by (cases kg)
  show ?case
  proof (cases "k = Some key")
    case True
    with Cons.prems kg obtain op' where "grp_Operation g = Some op'" "CHR 0x00 \<notin> set (op_Deployment op')"
      "key = op_Deployment op' @ [CHR 0x00] @ op_OperationKey op'" by (auto simp: keyed_def)
    moreover from this assms(2,3) have "op_Deployment op' = op_Deployment op" "op_OperationKey op' = op_OperationKey op"
      using sep_split[of "CHR 0x00" "op_Deployment op" "op_Deployment op'"] by simp_all
    ultimately show ?thesis using Cons.prems kg True by (auto simp: keyed_def queued_def group_work_def)
  next
    case False
    then show ?thesis using Cons kg by (auto simp: keyed_def queued_def)
  qed
qed

lemma add_change_groups:
  assumes "add_change b tgt namespace shard c st = Inr st'"
  shows "fst st' = add_task (ExecutionTarget.Deployment tgt @ [CHR 0x00] @ ShardOperationKey namespace (sp_Shard shard) (tc_Table c))
    (newPendingApplyOperation tgt (ShardOperationKey namespace (sp_Shard shard) (tc_Table c)) (b_cutoverPolicy b) (b_onFailure b) (b_now b))
    (buildApplyTask (b_plan b) c (b_environment b) (b_applyOpts b) (sp_Shard shard) (b_now b) (b_uuid b (snd st))) (fst st)"
  using assms by (auto simp: add_change_def Let_def split: if_splits option.splits prod.splits)

lemma add_change_work:
  assumes "keyed (fst st)" and "CHR 0x00 \<notin> set (ExecutionTarget.Deployment tgt)"
    and "add_change b tgt (sp_Namespace shard) shard c st = Inr st'"
  shows "keyed (fst st') \<and> queued (map snd (fst st')) = queued (map snd (fst st)) + {#change_work tgt shard c#}"
proof -
  let ?key = "ShardOperationKey (sp_Namespace shard) (sp_Shard shard) (tc_Table c)"
  let ?op = "newPendingApplyOperation tgt ?key (b_cutoverPolicy b) (b_onFailure b) (b_now b)"
  let ?task = "buildApplyTask (b_plan b) c (b_environment b) (b_applyOpts b) (sp_Shard shard) (b_now b) (b_uuid b (snd st))"
  have "fst st' = add_task (ExecutionTarget.Deployment tgt @ [CHR 0x00] @ ?key) ?op ?task (fst st)"
    using assms(3) by (rule add_change_groups)
  then show ?thesis
    using add_task_work[OF assms(1), of ?op "ExecutionTarget.Deployment tgt @ [CHR 0x00] @ ?key" ?task] assms(2)
    by (simp add: newPendingApplyOperation_def buildApplyTask_def change_work_def)
qed

lemma add_finalizer_work:
  assumes "keyed (fst st)" and "add_finalizer b tgt namespace st = Inr st'"
  shows "keyed (fst st') \<and> queued (map snd (fst st')) = queued (map snd (fst st)) + {#}"
  using assms by (auto simp: add_finalizer_def Let_def keyed_def queued_def group_work_def split: if_splits option.splits prod.splits)

lemma sum_list_map_mset:
  fixes f :: "'a \<Rightarrow> 'b multiset"
  shows "mset xs = mset ys \<Longrightarrow> sum_list (map f xs) = sum_list (map f ys)"
  by (metis mset_map sum_mset_sum_list)

lemma sum_by_key:
  fixes f :: "'a \<Rightarrow> 'b multiset"
  assumes "distinct ks"
  shows "sum_list (map (\<lambda>k. sum_list (map f (filter (\<lambda>x. P x \<and> key x = k) xs))) ks) =
    sum_list (map f (filter (\<lambda>x. P x \<and> key x \<in> set ks) xs))"
proof (induction xs)
  case Nil
  then show ?case by (simp add: sum_list_0)
next
  case (Cons x xs)
  have one: "sum_list (map (\<lambda>k. (if P x \<and> key x = k then f x else {#})) ks) = (if P x \<and> key x \<in> set ks then f x else {#})"
    using assms by (induction ks) auto
  have "sum_list (map (\<lambda>k. sum_list (map f (filter (\<lambda>y. P y \<and> key y = k) (x # xs)))) ks) =
      sum_list (map (\<lambda>k. (if P x \<and> key x = k then f x else {#}) + sum_list (map f (filter (\<lambda>y. P y \<and> key y = k) xs))) ks)"
    by (intro arg_cong[of _ _ sum_list] map_cong) auto
  also have "\<dots> = (if P x \<and> key x \<in> set ks then f x else {#}) + sum_list (map f (filter (\<lambda>y. P y \<and> key y \<in> set ks) xs))"
    by (simp only: sum_list_addf one Cons.IH)
  finally show ?case by simp
qed

lemma sum_changing_shards:
  fixes f :: "ShardPlan \<Rightarrow> 'b multiset"
  assumes "\<And>s. \<not> changing s \<Longrightarrow> f s = {#}"
  shows "sum_list (map (\<lambda>(namespace, ss). sum_list (map f ss)) (changingShardsByNamespace shards)) = sum_list (map f shards)"
proof -
  let ?ks = "sort (remdups (map sp_Namespace (filter changing shards)))"
  have "sum_list (map (\<lambda>(namespace, ss). sum_list (map f ss)) (changingShardsByNamespace shards)) =
      sum_list (map (\<lambda>k. sum_list (map f (filter (\<lambda>s. changing s \<and> sp_Namespace s = k) shards))) ?ks)"
    unfolding changingShardsByNamespace_def map_map
    by (intro arg_cong[of _ _ sum_list] map_cong) (auto intro: sum_list_map_mset)
  also have "\<dots> = sum_list (map f (filter (\<lambda>s. changing s \<and> sp_Namespace s \<in> set ?ks) shards))"
    by (rule sum_by_key) simp
  also have "filter (\<lambda>s. changing s \<and> sp_Namespace s \<in> set ?ks) shards = filter changing shards"
    by (rule filter_cong) auto
  also have "sum_list (map f (filter changing shards)) = sum_list (map f shards)"
    using assms by (induction shards) auto
  finally show ?thesis .
qed

lemma shard_namespace: "(namespace, ss) \<in> set (changingShardsByNamespace shards) \<Longrightarrow> s \<in> set ss \<Longrightarrow> sp_Namespace s = namespace"
  by (auto simp: changingShardsByNamespace_def)

lemma mset_concat_map: "mset (concat (map f xs)) = sum_list (map (\<lambda>x. mset (f x)) xs)"
  by (induction xs) auto

lemma sum_list_singletons: "sum_list (map (\<lambda>x. {#f x#}) xs) = mset (map f xs)"
  by (induction xs) auto

lemma build_target_work:
  assumes "keyed (fst st)" and "CHR 0x00 \<notin> set (ExecutionTarget.Deployment tgt)" and "build_target b tgt st = Inr st'"
  shows "keyed (fst st') \<and> queued (map snd (fst st')) = queued (map snd (fst st)) + reviewed [tgt] (plan_Shards (b_plan b))"
proof -
  let ?K = "\<lambda>st. keyed (fst st)" and ?Q = "\<lambda>st. queued (map snd (fst st))"
  let ?f = "\<lambda>shard. mset (map (change_work tgt shard) (sp_Changes shard))"
  obtain st1 where loop: "for_each (\<lambda>(namespace, shards). for_each (\<lambda>shard. for_each (add_change b tgt namespace shard) (sp_Changes shard)) shards)
      (changingShardsByNamespace (plan_Shards (b_plan b))) st = Inr st1"
    and fin: "for_each (add_finalizer b tgt) (vschemaFinalizerNamespaces (b_plan b)) st1 = Inr st'"
    using assms(3) by (auto simp: build_target_def split: sum.splits)
  have changes: "?K s' \<and> ?Q s' = ?Q s + ?f shard"
    if "?K s" "for_each (add_change b tgt (sp_Namespace shard) shard) (sp_Changes shard) s = Inr s'" for shard s s'
    using for_each_sum[where I = ?K and mu = ?Q and m = "\<lambda>c. {#change_work tgt shard c#}", OF _ that]
      add_change_work[OF _ assms(2)] by (simp add: sum_list_singletons)
  have shards: "?K s' \<and> ?Q s' = ?Q s + sum_list (map ?f ss)"
    if "?K s" "(namespace, ss) \<in> set (changingShardsByNamespace (plan_Shards (b_plan b)))"
      "for_each (\<lambda>shard. for_each (add_change b tgt namespace shard) (sp_Changes shard)) ss s = Inr s'" for namespace ss s s'
  proof (rule for_each_sum[where I = ?K and mu = ?Q, OF _ that(1,3)])
    fix shard s s'
    assume "shard \<in> set ss" "?K s" "for_each (add_change b tgt namespace shard) (sp_Changes shard) s = Inr s'"
    then show "?K s' \<and> ?Q s' = ?Q s + ?f shard" using changes[of s shard s'] shard_namespace[OF that(2)] by simp
  qed
  have "?K st1 \<and> ?Q st1 = ?Q st + sum_list (map (\<lambda>(namespace, ss). sum_list (map ?f ss)) (changingShardsByNamespace (plan_Shards (b_plan b))))"
    by (rule for_each_sum[where I = ?K and mu = ?Q, OF _ assms(1) loop]) (auto dest: shards)
  moreover have "sum_list (map (\<lambda>(namespace, ss). sum_list (map ?f ss)) (changingShardsByNamespace (plan_Shards (b_plan b)))) =
      reviewed [tgt] (plan_Shards (b_plan b))"
    by (subst sum_changing_shards) (simp_all add: changing_def reviewed_def mset_concat_map)
  moreover have "?K st' \<and> ?Q st' = ?Q st1 + sum_list (map (\<lambda>_. {#}) (vschemaFinalizerNamespaces (b_plan b)))" if "?K st1"
    by (rule for_each_sum[where I = ?K and mu = ?Q, OF _ that fin]) (rule add_finalizer_work)
  ultimately show ?thesis by (simp add: sum_list_0)
qed

definition plain_work :: "ExecutionTarget list \<Rightarrow> TableChange list \<Rightarrow> work multiset" where
  "plain_work targets cs =
    mset (concat (map (\<lambda>tgt. map (\<lambda>c. (ExecutionTarget.Deployment tgt, '''', '''', tc_Namespace c, tc_Table c, tc_DDL c, tc_Operation c)) cs) targets))"

lemma task_fields:
  fixes d k :: string
  shows "map (\<lambda>t. (d, k, task_Shard t, task_Namespace t, task_TableName t, task_DDL t, task_DDLAction t))
      (fst (buildApplyTasks uuid plan environment applyOpts shard nowT cs n)) =
    map (\<lambda>c. (d, k, shard, tc_Namespace c, tc_Table c, tc_DDL c, tc_Operation c)) cs"
  by (induction cs arbitrary: n) (simp_all add: case_prod_unfold Let_def buildApplyTask_def)

lemma plain_groups_work: "queued (plain_groups b cs taskless targets n) = plain_work targets cs"
proof (induction targets arbitrary: n)
  case (Cons tgt targets)
  then show ?case
    using task_fields[of "ExecutionTarget.Deployment tgt" "''''" "b_uuid b" "b_plan b" "b_environment b" "b_applyOpts b" "''''" "b_now b" cs n]
    by (simp add: queued_def plain_work_def group_work_def newPendingApplyOperation_def comp_def case_prod_unfold Let_def concat_map_singleton del: mset_map)
qed (simp add: queued_def plain_work_def)

lemma fan_out_work:
  assumes "buildApplyOperationGroups b cs targets n = Inr (groups, sharded)"
    and "list_all (\<lambda>tgt. CHR 0x00 \<notin> set (ExecutionTarget.Deployment tgt)) targets"
  shows "queued groups = (if sharded then reviewed targets (plan_Shards (b_plan b)) else plain_work targets cs)"
    and "sharded \<longleftrightarrow> canBuildShardedOperationGroups (b_plan b) cs"
proof -
  show sharded: "sharded \<longleftrightarrow> canBuildShardedOperationGroups (b_plan b) cs"
    using assms(1) by (auto simp: buildApplyOperationGroups_def split: sum.splits if_splits)
  show "queued groups = (if sharded then reviewed targets (plan_Shards (b_plan b)) else plain_work targets cs)"
  proof (cases "canBuildShardedOperationGroups (b_plan b) cs")
    case True
    with assms(1) obtain st where run: "for_each (build_target b) targets ([], n) = Inr st"
      and groups: "groups = map snd (fst st)" and sharded
      by (auto simp: buildApplyOperationGroups_def buildShardedApplyOperationGroups_def split: sum.splits prod.splits)
    have "keyed (fst st) \<and> queued (map snd (fst st)) = queued (map snd (fst ([] :: (string option \<times> ApplyOperationWithTasks) list, n))) +
        sum_list (map (\<lambda>tgt. reviewed [tgt] (plan_Shards (b_plan b))) targets)"
      by (rule for_each_sum[where I = "\<lambda>st. keyed (fst st)" and mu = "\<lambda>st. queued (map snd (fst st))", OF _ _ run])
        (use assms(2) build_target_work[of _ _ b] in \<open>auto simp: list_all_iff\<close>, simp add: keyed_def)
    then show ?thesis using \<open>sharded\<close> groups by (simp add: reviewed_def queued_def mset_concat_map)
  next
    case False
    then show ?thesis using assms(1) by (auto simp: buildApplyOperationGroups_def plain_groups_work)
  qed
qed

text \<open>
  Property C14 (functional).  The operations and tasks that are built from a plan queue exactly the reviewed
  changes: for a plan that is fanned out, every change of every shard once per deployment, under the
  operation of its shard and table; otherwise every table change once per deployment.  The DDL is the
  plan's.
\<close>

theorem fan_out_exact:
  assumes "buildApplyOperationGroups b cs targets n = Inr (groups, sharded)"
    and "list_all (\<lambda>tgt. CHR 0x00 \<notin> set (ExecutionTarget.Deployment tgt)) targets"
  shows "queued groups = (if sharded then reviewed targets (plan_Shards (b_plan b)) else plain_work targets cs)"
  using fan_out_work(1)[OF assms] .

definition example_change :: TableChange where
  "example_change = \<lparr>tc_Namespace = '''', tc_Table = ''users'', tc_DDL = ''ALTER TABLE users ADD COLUMN x INT'',
     tc_Operation = ''alter'', tc_IsUnsafe = False, tc_UnsafeReason = ''''\<rparr>"

definition sharded_plan :: Plan where
  "sharded_plan =
    \<lparr>plan_ID = 4, plan_Identifier = ''plan_4'', plan_Database = ''orders'', plan_DatabaseType = ''strata'',
     plan_Deployment = ''eu'', plan_Target = ''orders-eu'', plan_Repository = ''org/app'', plan_PullRequest = 7,
     plan_SchemaPath = ''schema/orders'', plan_Environment = ''production'', plan_SchemaFiles = [],
     plan_Namespaces = [(''main'', Some \<lparr>npd_Tables = [example_change], npd_Shards = [], npd_OriginalFiles = [],
        npd_OriginalFilesCaptured = True, npd_Artifacts = [(vSchemaArtifactName, ''{}'')]\<rparr>)],
     plan_Shards = [\<lparr>sp_Shard = ''80-'', sp_Namespace = ''main'', sp_Changes = [example_change]\<rparr>,
        \<lparr>sp_Shard = ''-80'', sp_Namespace = ''main'', sp_Changes = [example_change]\<rparr>],
     plan_HeadSHA = ''abc'', plan_CreatedAt = 100\<rparr>"

definition example_build :: Build where
  "example_build = \<lparr>b_uuid = (\<lambda>n. replicate n (CHR ''0'')), b_plan = sharded_plan, b_environment = ''production'',
     b_applyOpts = empty_options, b_cutoverPolicy = CutoverPolicyRolling, b_onFailure = OnFailureHalt, b_now = 100\<rparr>"

definition example_targets :: "ExecutionTarget list" where
  "example_targets = [\<lparr>DatabaseType = ''strata'', Deployment = ''eu'', Target = ''orders-eu''\<rparr>,
     \<lparr>DatabaseType = ''strata'', Deployment = ''us'', Target = ''orders-us''\<rparr>]"

definition example_groups :: "ApplyOperationWithTasks list" where
  "example_groups = (case buildApplyOperationGroups example_build (FlatDDLChanges sharded_plan) example_targets 1 of
     Inl e \<Rightarrow> [] | Inr (groups, _) \<Rightarrow> groups)"

theorem fan_out_exact_witness:
  "buildApplyOperationGroups example_build (FlatDDLChanges sharded_plan) example_targets 1 = Inr (example_groups, True) \<and>
   length example_groups = 6 \<and> queued example_groups = reviewed example_targets (plan_Shards sharded_plan)"
proof -
  have "\<not> isl (buildApplyOperationGroups example_build (FlatDDLChanges sharded_plan) example_targets 1) \<and>
      snd (projr (buildApplyOperationGroups example_build (FlatDDLChanges sharded_plan) example_targets 1))"
    by code_simp
  then have run: "buildApplyOperationGroups example_build (FlatDDLChanges sharded_plan) example_targets 1 = Inr (example_groups, True)"
    by (cases "buildApplyOperationGroups example_build (FlatDDLChanges sharded_plan) example_targets 1") (auto simp: example_groups_def)
  moreover have "queued example_groups = reviewed example_targets (plan_Shards sharded_plan)"
    using fan_out_exact[OF run] by (simp add: example_targets_def example_build_def)
  moreover have "length example_groups = 6" by code_simp
  ultimately show ?thesis by blast
qed

section \<open>What is queued was authorized\<close>

lemma for_each_inv:
  "(\<And>x s s'. x \<in> set xs \<Longrightarrow> I s \<Longrightarrow> body x s = Inr s' \<Longrightarrow> I s') \<Longrightarrow> I s \<Longrightarrow> for_each body xs s = Inr s' \<Longrightarrow> I s'"
  by (induction xs arbitrary: s) (auto split: sum.splits)

definition plan_change :: "Plan \<Rightarrow> TableChange \<Rightarrow> bool" where
  "plan_change plan c \<longleftrightarrow> c \<in> set (FlatDDLChanges plan) \<or> (\<exists>s\<in>set (plan_Shards plan). c \<in> set (sp_Changes s))"

definition task_of :: "TableChange \<Rightarrow> Task \<Rightarrow> bool" where
  "task_of c t \<longleftrightarrow> task_TableName t = tc_Table c \<and> task_DDL t = tc_DDL c \<and> task_DDLAction t = tc_Operation c"

definition from_plan :: "Plan \<Rightarrow> ApplyOperationWithTasks list \<Rightarrow> bool" where
  "from_plan plan groups \<longleftrightarrow> (\<forall>g\<in>set groups. \<forall>t. Some t \<in> set (grp_Tasks g) \<longrightarrow> (\<exists>c. plan_change plan c \<and> task_of c t))"

lemma from_plan_add_task:
  "from_plan plan (map snd groups) \<Longrightarrow> plan_change plan c \<Longrightarrow> task_of c task \<Longrightarrow>
    from_plan plan (map snd (add_task key op task groups))"
  by (induction key op task groups rule: add_task.induct) (auto simp: from_plan_def split: if_splits)

lemma task_of_build: "task_of c (buildApplyTask plan c environment applyOpts shard nowT u)"
  by (simp add: task_of_def buildApplyTask_def)

lemma from_plan_change:
  assumes "from_plan (b_plan b) (map snd (fst st))" and "plan_change (b_plan b) c" and "add_change b tgt namespace shard c st = Inr st'"
  shows "from_plan (b_plan b) (map snd (fst st'))"
  unfolding add_change_groups[OF assms(3)] using assms(1,2) task_of_build by (rule from_plan_add_task)

lemma from_plan_finalizer:
  "from_plan plan (map snd (fst st)) \<Longrightarrow> add_finalizer b tgt namespace st = Inr st' \<Longrightarrow> from_plan plan (map snd (fst st'))"
  by (auto simp: add_finalizer_def Let_def from_plan_def split: if_splits option.splits prod.splits)

lemma changing_from_plan: "(namespace, ss) \<in> set (changingShardsByNamespace shards) \<Longrightarrow> s \<in> set ss \<Longrightarrow> s \<in> set shards"
  by (auto simp: changingShardsByNamespace_def)

lemma from_plan_target:
  assumes "from_plan (b_plan b) (map snd (fst st))" and "build_target b tgt st = Inr st'"
  shows "from_plan (b_plan b) (map snd (fst st'))"
proof -
  let ?I = "\<lambda>st. from_plan (b_plan b) (map snd (fst st))"
  obtain st1 where loop: "for_each (\<lambda>(namespace, shards). for_each (\<lambda>shard. for_each (add_change b tgt namespace shard) (sp_Changes shard)) shards)
      (changingShardsByNamespace (plan_Shards (b_plan b))) st = Inr st1"
    and fin: "for_each (add_finalizer b tgt) (vschemaFinalizerNamespaces (b_plan b)) st1 = Inr st'"
    using assms(2) by (auto simp: build_target_def split: sum.splits)
  have "?I st1"
  proof (rule for_each_inv[where I = ?I, OF _ assms(1) loop], goal_cases)
    case (1 nss s s')
    obtain namespace ss where nss: "nss = (namespace, ss)" by (cases nss)
    from 1(3) have run: "for_each (\<lambda>shard. for_each (add_change b tgt namespace shard) (sp_Changes shard)) ss s = Inr s'" by (simp add: nss)
    show ?case
    proof (rule for_each_inv[where I = ?I, OF _ 1(2) run], goal_cases)
      case (1 shard s s')
      then have "shard \<in> set (plan_Shards (b_plan b))"
        using changing_from_plan \<open>nss \<in> set (changingShardsByNamespace (plan_Shards (b_plan b)))\<close> nss by blast
      then have "plan_change (b_plan b) c" if "c \<in> set (sp_Changes shard)" for c using that by (auto simp: plan_change_def)
      then show ?case by (intro for_each_inv[where I = ?I, OF _ 1(2,3)]) (blast intro: from_plan_change)
    qed
  qed
  then show ?thesis by (rule for_each_inv[where I = ?I, OF _ _ fin, rotated]) (blast intro: from_plan_finalizer)
qed

lemma task_of_builds: "t \<in> set (fst (buildApplyTasks uuid plan environment applyOpts shard nowT cs n)) \<Longrightarrow> \<exists>c\<in>set cs. task_of c t"
  by (induction cs arbitrary: n) (auto simp: case_prod_unfold Let_def task_of_build)

lemma from_plan_plain: "from_plan plan (plain_groups b (FlatDDLChanges plan) taskless targets n)"
proof (induction targets arbitrary: n)
  case (Cons tgt targets)
  then show ?case
    by (auto simp: from_plan_def case_prod_unfold Let_def plan_change_def dest: task_of_builds)
qed (simp add: from_plan_def)

lemma groups_from_plan:
  assumes "buildApplyOperationGroups b (FlatDDLChanges (b_plan b)) targets n = Inr (groups, sharded)"
  shows "from_plan (b_plan b) groups"
proof (cases "canBuildShardedOperationGroups (b_plan b) (FlatDDLChanges (b_plan b))")
  case True
  with assms obtain st where run: "for_each (build_target b) targets ([], n) = Inr st" and groups: "groups = map snd (fst st)"
    by (auto simp: buildApplyOperationGroups_def buildShardedApplyOperationGroups_def split: sum.splits prod.splits)
  have "from_plan (b_plan b) (map snd (fst st))"
    by (rule for_each_inv[where I = "\<lambda>st. from_plan (b_plan b) (map snd (fst st))", OF _ _ run])
      (blast intro: from_plan_target, simp add: from_plan_def)
  then show ?thesis by (simp add: groups)
next
  case False
  then show ?thesis using assms by (auto simp: buildApplyOperationGroups_def from_plan_plain)
qed

lemma with_namespace_unsafe [simp]: "RequiresUnsafeOptIn (with_namespace k c) = RequiresUnsafeOptIn c"
  by (simp add: RequiresUnsafeOptIn_def with_namespace_def)

lemma safe_plan_changes: "UnsafeDDLChanges plan = [] \<Longrightarrow> plan_change plan c \<Longrightarrow> \<not> RequiresUnsafeOptIn c"
  by (fastforce simp: UnsafeDDLChanges_def plan_change_def filter_empty_conv)

lemma createStoredApply_Inr:
  assumes "run_state (createStoredApply h config plan req options identifier) w = (Inr (a, i), w')"
  shows "rejectUnsafeStoredPlanWithoutOptIn plan (ApplyOptionsFromMap options) = None"
    and "\<exists>lockID w2 w3 groups sharded.
      buildApplyOperationGroups (build_of h config plan (ar_Environment req) (ApplyOptionsFromMap options)) (FlatDDLChanges plan)
        (apply_targets config plan (ar_Environment req)) 1 = Inr (groups, sharded) \<and>
      run_state (CreateWithGroupedOperations (h_sha h) (h_ci h)
        (stored_apply h plan req (ApplyOptionsFromMap options) identifier lockID
          (ExecutionTarget.Deployment (hd (apply_targets config plan (ar_Environment req))))) (map Some groups)) w2 = (Inr i, w3) \<and>
      apply_Identifier a = identifier"
proof -
  show unsafe: "rejectUnsafeStoredPlanWithoutOptIn plan (ApplyOptionsFromMap options) = None"
    using assms by (auto simp: createStoredApply_def Let_def split: option.splits)
  show "\<exists>lockID w2 w3 groups sharded.
      buildApplyOperationGroups (build_of h config plan (ar_Environment req) (ApplyOptionsFromMap options)) (FlatDDLChanges plan)
        (apply_targets config plan (ar_Environment req)) 1 = Inr (groups, sharded) \<and>
      run_state (CreateWithGroupedOperations (h_sha h) (h_ci h)
        (stored_apply h plan req (ApplyOptionsFromMap options) identifier lockID
          (ExecutionTarget.Deployment (hd (apply_targets config plan (ar_Environment req))))) (map Some groups)) w2 = (Inr i, w3) \<and>
      apply_Identifier a = identifier"
    using assms unsafe by (auto simp: createStoredApply_def Let_def run_or_fail stored_apply_def split: prod.splits sum.splits)
qed

lemma allow_unsafe_option:
  "AllowUnsafe (ApplyOptionsFromMap (set_option ''target'' tgt options)) \<longleftrightarrow> option_text options ''allow_unsafe'' = ''true''"
proof -
  have "map_of (filter (\<lambda>kv. fst kv \<noteq> ''target'') xs) ''allow_unsafe'' = map_of xs ''allow_unsafe''" for xs :: "(string \<times> string) list"
    by (induction xs) auto
  then show ?thesis by (simp add: ApplyOptionsFromMap_def option_text_def set_option_def)
qed

lemma queued_changes_safe:
  assumes "buildApplyOperationGroups (build_of h config plan environment opts) (FlatDDLChanges plan) targets n = Inr (groups, sharded)"
    and "rejectUnsafeStoredPlanWithoutOptIn plan opts = None" and "g \<in> set groups" and "Some t \<in> set (grp_Tasks g)"
  shows "\<exists>c. plan_change plan c \<and> task_of c t \<and> (AllowUnsafe opts \<or> \<not> RequiresUnsafeOptIn c)"
proof -
  have "from_plan plan groups" using groups_from_plan[of "build_of h config plan environment opts"] assms(1) by (simp add: build_of_def)
  then obtain c where "plan_change plan c" "task_of c t" using assms(3,4) by (auto simp: from_plan_def)
  moreover have "AllowUnsafe opts \<or> \<not> RequiresUnsafeOptIn c"
    using assms(2) safe_plan_changes[OF _ \<open>plan_change plan c\<close>]
    by (auto simp: rejectUnsafeStoredPlanWithoutOptIn_def split: if_splits list.splits)
  ultimately show ?thesis by blast
qed

text \<open>
  Property C11 (safety).  An apply that is queued comes from a stored plan of the requested environment with its
  routing, whose trusted source, if it records one, passed source policy; its rows are created from groups of operations
  with tasks that hold exactly the changes of that plan, once for every target deployment and, for a
  plan that is fanned out, for every shard (deployment names contain no NUL, which separates the keys
  of the groups); and unless the request opts in, no such change is unsafe.
\<close>

theorem queued_apply_authorized:
  assumes "run_state (ExecuteApply h config s req) w = ((Inr (identifier, i), s'), w')"
  shows "\<exists>plan w1 w2 w3 lockID groups.
    run_state (Plan_Get (h_ci h) (ar_PlanID req)) w = (Inr (Some plan), w1) \<and>
    plan_Environment plan = ar_Environment req \<and> plan_Deployment plan \<noteq> '''' \<and> plan_Target plan \<noteq> '''' \<and>
    (plan_SchemaPath plan = '''' \<or> AuthorizePlanSource (Some config) (plan_source plan) = None) \<and>
    run_state (CreateWithGroupedOperations (h_sha h) (h_ci h)
      (stored_apply h plan req (ApplyOptionsFromMap (set_option ''target'' (plan_Target plan) (ar_Options req)))
        identifier lockID (ExecutionTarget.Deployment (hd (apply_targets config plan (ar_Environment req)))))
      (map Some groups)) w2 = (Inr i, w3) \<and> 0 < i \<and>
    (list_all (\<lambda>tgt. CHR 0x00 \<notin> set (ExecutionTarget.Deployment tgt)) (apply_targets config plan (ar_Environment req)) \<longrightarrow>
      queued groups =
        (if canBuildShardedOperationGroups plan (FlatDDLChanges plan)
         then reviewed (apply_targets config plan (ar_Environment req)) (plan_Shards plan)
         else plain_work (apply_targets config plan (ar_Environment req)) (FlatDDLChanges plan))) \<and>
    (\<forall>g\<in>set groups. \<forall>t. Some t \<in> set (grp_Tasks g) \<longrightarrow> (\<exists>c. plan_change plan c \<and> task_of c t \<and>
       (option_text (ar_Options req) ''allow_unsafe'' = ''true'' \<or> \<not> RequiresUnsafeOptIn c)))"
proof -
  let ?opts = "\<lambda>plan. set_option ''target'' (plan_Target plan) (ar_Options req)"
  obtain plan w1 where load: "run_state (loadPlanForApply (h_ci h) req) w = (Inr plan, w1)"
    and src: "authorizeStoredPlanSource config plan = None"
    and q: "run_state (queueValidatedApply h config s plan req) w1 = ((Inr (identifier, i), s'), w')"
    using assms by (auto simp: ExecuteApply_def split: prod.splits sum.splits option.splits)
  obtain w4 where enq: "run_state (enqueueApply h config plan req (?opts plan)) w1 = (Inr (identifier, i), w4)" and "0 < i"
    using q by (auto simp: queueValidatedApply_def Let_def split: prod.splits sum.splits if_splits)
  obtain a w5 where create: "run_state (createStoredApply h config plan req (?opts plan) (''apply-'' @ short_id (h_uuid h 0))) w1 = (Inr (a, i), w5)"
    and ident: "apply_Identifier a = identifier"
    using enq by (auto simp: enqueueApply_def split: prod.splits sum.splits)
  from createStoredApply_Inr(2)[OF create] obtain lockID w2 w3 groups sharded where
    groups: "buildApplyOperationGroups (build_of h config plan (ar_Environment req) (ApplyOptionsFromMap (?opts plan))) (FlatDDLChanges plan)
      (apply_targets config plan (ar_Environment req)) 1 = Inr (groups, sharded)"
    and rows: "run_state (CreateWithGroupedOperations (h_sha h) (h_ci h)
      (stored_apply h plan req (ApplyOptionsFromMap (?opts plan)) identifier lockID
        (ExecutionTarget.Deployment (hd (apply_targets config plan (ar_Environment req))))) (map Some groups)) w2 = (Inr i, w3)"
    unfolding ident by metis
  have get: "run_state (Plan_Get (h_ci h) (ar_PlanID req)) w = (Inr (Some plan), w1)" "plan_Environment plan = ar_Environment req"
    "plan_Deployment plan \<noteq> ''''" "plan_Target plan \<noteq> ''''"
    using load by (auto simp: loadPlanForApply_def run_or_fail split: prod.splits sum.splits option.splits if_splits)
  have policy: "plan_SchemaPath plan = '''' \<or> AuthorizePlanSource (Some config) (plan_source plan) = None"
    using src by (auto simp: authorizeStoredPlanSource_def split: if_splits option.splits)
  have exact: "list_all (\<lambda>tgt. CHR 0x00 \<notin> set (ExecutionTarget.Deployment tgt)) (apply_targets config plan (ar_Environment req)) \<longrightarrow>
      queued groups =
        (if canBuildShardedOperationGroups plan (FlatDDLChanges plan)
         then reviewed (apply_targets config plan (ar_Environment req)) (plan_Shards plan)
         else plain_work (apply_targets config plan (ar_Environment req)) (FlatDDLChanges plan))"
    using fan_out_work[OF groups] by (simp add: build_of_def)
  show ?thesis
    using get policy rows \<open>0 < i\<close> exact queued_changes_safe[OF groups createStoredApply_Inr(1)[OF create]] unfolding allow_unsafe_option
    by (intro exI[of _ plan] exI[of _ w1] exI[of _ w2] exI[of _ w3] exI[of _ lockID] exI[of _ groups]) blast
qed

definition example_host :: Host where
  "example_host = \<lparr>h_ci = ToLower, h_sha = id, h_uuid = (\<lambda>n. digits n @ ''-0123-456789abcdef''), h_now = 100, h_subject = None,
     h_newLocal = (\<lambda>_. None), h_newGRPC = (\<lambda>_. None)\<rparr>"

definition example_service :: Service where
  "example_service = \<lparr>svc_ternClients = [], svc_defaultTernClient = False, svc_pendingObservers = [((''orders'', ''eu'', ''production''), 9)],
     svc_observers = [], svc_running = True, svc_wake = False\<rparr>"

definition example_apply_request :: ApplyRequest where
  "example_apply_request = \<lparr>ar_PlanID = ''plan_4'', ar_Environment = ''production'', ar_Options = [], ar_Caller = ''alice'',
     ar_InstallationID = 1, ar_ExpectedLockOwner = '''', ar_ExpectedPendingPlanID = ''''\<rparr>"

definition planned_db :: db where
  "planned_db = empty_db\<lparr>plans := [plan_row sharded_plan (empty_db\<lparr>plans_next := 4\<rparr>)], plans_next := 5\<rparr>"

theorem queued_apply_authorized_witness:
  "\<exists>plan w1 i. run_state (Plan_Get ToLower ''plan_4'') (quiet planned_db) = (Inr (Some plan), w1) \<and> plan_Environment plan = ''production'' \<and>
    (plan_SchemaPath plan = '''' \<or> AuthorizePlanSource (Some example_config) (plan_source plan) = None) \<and>
    fst (fst (run_state (ExecuteApply example_host example_config example_service example_apply_request) (quiet planned_db))) =
      Inr (''apply-00123456789abcde'', i) \<and> 0 < i"
proof -
  have fst_run: "fst (fst (run_state (ExecuteApply example_host example_config example_service example_apply_request) (quiet planned_db))) =
      Inr (''apply-00123456789abcde'', 1)"
    by code_simp
  then obtain s' w' where "run_state (ExecuteApply example_host example_config example_service example_apply_request) (quiet planned_db) =
      ((Inr (''apply-00123456789abcde'', 1), s'), w')"
    by (metis prod.collapse)
  from queued_apply_authorized[OF this] obtain plan w1 where
    "run_state (Plan_Get (h_ci example_host) (ar_PlanID example_apply_request)) (quiet planned_db) = (Inr (Some plan), w1)"
    "plan_Environment plan = ar_Environment example_apply_request"
    "plan_SchemaPath plan = '''' \<or> AuthorizePlanSource (Some example_config) (plan_source plan) = None"
    by blast
  then show ?thesis unfolding fst_run
    by (intro exI[of _ plan] exI[of _ w1] exI[of _ 1]) (simp add: example_host_def example_apply_request_def)
qed

end
