(* ===== verification/Plan_Execution.thy ===== *)
theory Plan_Execution
  imports Apply_Enqueue
begin

text \<open>
  Planning (\<^verbatim>\<open>pkg/api/plan_handlers.go\<close>, \<^verbatim>\<open>pkg/api/proto_helpers.go\<close>): a plan request is resolved to the primary deployment,
  checked against source policy, planned by the deployment's engine and stored; the answer of the engine
  is converted once for the reviewer and once for the stored plan.  The call of the engine is the
  parameter \<open>plan_rpc\<close>; \<open>unavailable\<close> classifies its errors.  Protobuf messages are records, a nil message
  is \<open>None\<close>.  The entries of a change's table list are never nil.
\<close>

section \<open>Messages\<close>

datatype ChangeType = CHANGE_TYPE_CREATE | CHANGE_TYPE_ALTER | CHANGE_TYPE_DROP | CHANGE_TYPE_VSCHEMA | CHANGE_TYPE_OTHER

record ProtoTableChange =
  ptc_TableName :: string
  ptc_Namespace :: string
  ptc_Ddl :: string
  ptc_ChangeType :: ChangeType
  ptc_IsUnsafe :: bool
  ptc_UnsafeReason :: string

record ProtoSchemaChange =
  psc_Namespace :: string
  psc_TableChanges :: "ProtoTableChange list"
  psc_Metadata :: "(string \<times> string) list"
  psc_OriginalFiles :: "(string \<times> string) list"
  psc_OriginalFilesCaptured :: bool

record ProtoShardPlan =
  psp_Namespace :: string
  psp_Shard :: string
  psp_Changes :: "ProtoTableChange option list"

record ProtoPlanResponse =
  ppr_PlanId :: string
  ppr_Changes :: "ProtoSchemaChange option list"
  ppr_Shards :: "ProtoShardPlan option list"
  ppr_Errors :: "string list"

type_synonym schema_files = "(string \<times> (string \<times> string) list option) list"

record PlanRequest =
  pr_Database :: string
  pr_Environment :: string
  pr_Type :: string
  pr_SchemaFiles :: schema_files
  pr_Repository :: string
  pr_PullRequest :: "int option"
  pr_HeadSHA :: "string option"
  pr_SchemaPath :: string
  pr_SourceTrusted :: bool

record ProtoPlanRequest =
  ppq_Database :: string
  ppq_Type :: string
  ppq_SchemaFiles :: schema_files
  ppq_Repository :: string
  ppq_PullRequest :: int
  ppq_Environment :: string
  ppq_Target :: string
  ppq_SchemaPath :: string
  ppq_HeadSha :: string

text \<open>The answer the reviewer sees.\<close>

record TableChangeResponse =
  tcr_TableName :: string
  tcr_Namespace :: string
  tcr_DDL :: string
  tcr_ChangeType :: string
  tcr_IsUnsafe :: bool
  tcr_UnsafeReason :: string

record SchemaChangeResponse =
  scr_Namespace :: string
  scr_TableChanges :: "TableChangeResponse list"
  scr_Metadata :: "(string \<times> string) list"

record ShardPlanResponse =
  spr_Namespace :: string
  spr_Shard :: string
  spr_Changes :: "TableChangeResponse list"

record PlanResponse =
  rsp_PlanID :: string
  rsp_Deployment :: string
  rsp_Changes :: "SchemaChangeResponse list"
  rsp_Shards :: "ShardPlanResponse list"
  rsp_Errors :: "string list"

section \<open>Conversions\<close>

fun protoChangeTypeToOperation :: "ChangeType \<Rightarrow> string" where
  "protoChangeTypeToOperation CHANGE_TYPE_CREATE = ''create''"
| "protoChangeTypeToOperation CHANGE_TYPE_ALTER = ''alter''"
| "protoChangeTypeToOperation CHANGE_TYPE_DROP = ''drop''"
| "protoChangeTypeToOperation CHANGE_TYPE_VSCHEMA = ''vschema_update''"
| "protoChangeTypeToOperation CHANGE_TYPE_OTHER = ''other''"

definition changeTypeToProto :: "string \<Rightarrow> ChangeType" where
  "changeTypeToProto op =
    (if EqualFold op ''vschema_update'' then CHANGE_TYPE_VSCHEMA
     else if ToLower op = ''create'' then CHANGE_TYPE_CREATE
     else if ToLower op = ''alter'' then CHANGE_TYPE_ALTER
     else if ToLower op = ''drop'' then CHANGE_TYPE_DROP
     else CHANGE_TYPE_OTHER)"

definition table_response :: "ProtoTableChange \<Rightarrow> TableChangeResponse" where
  "table_response t =
    \<lparr>tcr_TableName = ptc_TableName t, tcr_Namespace = ptc_Namespace t, tcr_DDL = ptc_Ddl t,
     tcr_ChangeType = protoChangeTypeToOperation (ptc_ChangeType t), tcr_IsUnsafe = ptc_IsUnsafe t,
     tcr_UnsafeReason = ptc_UnsafeReason t\<rparr>"

text \<open>A nil change has been rejected before; the lint results and the engine name are left out.\<close>

definition planResponseFromProto :: "ProtoPlanResponse \<Rightarrow> PlanResponse" where
  "planResponseFromProto resp =
    \<lparr>rsp_PlanID = ppr_PlanId resp, rsp_Deployment = '''',
     rsp_Changes = map (\<lambda>sc. \<lparr>scr_Namespace = psc_Namespace sc, scr_TableChanges = map table_response (psc_TableChanges sc),
        scr_Metadata = psc_Metadata sc\<rparr>) (List.map_filter id (ppr_Changes resp)),
     rsp_Shards = map (\<lambda>sp. \<lparr>spr_Namespace = psp_Namespace sp, spr_Shard = psp_Shard sp,
        spr_Changes = map table_response (List.map_filter id (psp_Changes sp))\<rparr>) (List.map_filter id (ppr_Shards resp)),
     rsp_Errors = ppr_Errors resp\<rparr>"

definition default_namespace :: "string \<Rightarrow> string" where
  "default_namespace ns = (if ns = '''' then ''default'' else ns)"

definition stored_change :: "ProtoTableChange \<Rightarrow> TableChange" where
  "stored_change t =
    \<lparr>tc_Namespace = '''', tc_Table = ptc_TableName t, tc_DDL = ptc_Ddl t,
     tc_Operation = protoChangeTypeToOperation (ptc_ChangeType t), tc_IsUnsafe = ptc_IsUnsafe t, tc_UnsafeReason = ptc_UnsafeReason t\<rparr>"

definition namespace_of_change :: "schema_files \<Rightarrow> ProtoSchemaChange \<Rightarrow> NamespacePlanData" where
  "namespace_of_change schemaFiles sc =
    \<lparr>npd_Tables = map stored_change (psc_TableChanges sc), npd_Shards = [], npd_OriginalFiles = psc_OriginalFiles sc,
     npd_OriginalFilesCaptured = psc_OriginalFilesCaptured sc,
     npd_Artifacts =
       (if option_text (psc_Metadata sc) ''vschema_changed'' = ''true''
        then (case map_of schemaFiles (default_namespace (psc_Namespace sc)) of
                Some (Some files) \<Rightarrow>
                  (let vschema = option_text files vSchemaArtifactName in
                   if vschema \<noteq> '''' then [(vSchemaArtifactName, vschema)] else [])
              | _ \<Rightarrow> [])
        else [])\<rparr>"

fun convert_changes ::
  "schema_files \<Rightarrow> ProtoSchemaChange option list \<Rightarrow> (string \<times> NamespacePlanData option) list \<Rightarrow>
    err + (string \<times> NamespacePlanData option) list" where
  "convert_changes schemaFiles [] result = Inr result"
| "convert_changes schemaFiles (None # scs) result = Inl (Errorf ''schema change is null'')"
| "convert_changes schemaFiles (Some sc # scs) result =
    (let ns = default_namespace (psc_Namespace sc) in
     if ns \<in> fst ` set result then Inl (Errorf ''duplicate schema change namespace'')
     else convert_changes schemaFiles scs (result @ [(ns, Some (namespace_of_change schemaFiles sc))]))"

definition protoChangesToNamespaces ::
  "ProtoSchemaChange option list \<Rightarrow> schema_files \<Rightarrow> err + (string \<times> NamespacePlanData option) list" where
  "protoChangesToNamespaces changes schemaFiles = convert_changes schemaFiles changes []"

fun convert_shard_changes :: "string \<Rightarrow> ProtoTableChange option list \<Rightarrow> err + TableChange list" where
  "convert_shard_changes namespace [] = Inr []"
| "convert_shard_changes namespace (None # chs) = Inl (Errorf ''shard plan change is null'')"
| "convert_shard_changes namespace (Some ch # chs) =
    (let table = TrimSpace (ptc_TableName ch); changeDDL = TrimSpace (ptc_Ddl ch); cn = TrimSpace (ptc_Namespace ch) in
     if table = '''' \<or> changeDDL = '''' then Inl (Errorf ''shard plan change has an empty table or DDL'')
     else if ptc_ChangeType ch \<notin> {CHANGE_TYPE_CREATE, CHANGE_TYPE_ALTER, CHANGE_TYPE_DROP}
     then Inl (Errorf ''shard plan change has unsupported change type'')
     else if cn \<noteq> '''' \<and> cn \<noteq> namespace then Inl (Errorf ''shard plan change namespace disagrees with shard namespace'')
     else
       (case convert_shard_changes namespace chs of
          Inl e \<Rightarrow> Inl e
        | Inr cs \<Rightarrow> Inr (\<lparr>tc_Namespace = namespace, tc_Table = table, tc_DDL = changeDDL,
              tc_Operation = protoChangeTypeToOperation (ptc_ChangeType ch), tc_IsUnsafe = ptc_IsUnsafe ch,
              tc_UnsafeReason = ptc_UnsafeReason ch\<rparr> # cs)))"

fun protoShardPlansToStorage :: "ProtoShardPlan option list \<Rightarrow> err + ShardPlan list" where
  "protoShardPlansToStorage [] = Inr []"
| "protoShardPlansToStorage (None # shards) = Inl (Errorf ''shard plan is null'')"
| "protoShardPlansToStorage (Some shard # shards) =
    (let shardName = TrimSpace (psp_Shard shard); namespace = default_namespace (psp_Namespace shard) in
     if shardName = '''' then Inl (Errorf ''shard plan has empty shard'')
     else
       (case convert_shard_changes namespace (psp_Changes shard) of
          Inl e \<Rightarrow> Inl e
        | Inr cs \<Rightarrow>
            (case protoShardPlansToStorage shards of
               Inl e \<Rightarrow> Inl e
             | Inr out \<Rightarrow> Inr (\<lparr>sp_Shard = shardName, sp_Namespace = namespace, sp_Changes = cs\<rparr> # out))))"

definition protoToSchemaFiles :: "schema_files \<Rightarrow> (string \<times> (string \<times> string) list) list" where
  "protoToSchemaFiles sf = map (\<lambda>(ns, files). (ns, case files of None \<Rightarrow> [] | Some fs \<Rightarrow> fs)) sf"

section \<open>Executing a plan\<close>

text \<open>The warning about empty namespaces is only logged.\<close>

definition validateSchemaFiles :: "schema_files \<Rightarrow> err option" where
  "validateSchemaFiles schemaFiles =
    (if schemaFiles = [] then Some (Errorf ''schema_files is required: must contain at least one namespace'')
     else if list_ex (\<lambda>(ns, sf). sf = None) schemaFiles then Some (Errorf ''schema_files namespace is null'')
     else None)"

record storedPlanRoute =
  route_DatabaseType :: string
  route_Deployment :: string
  route_Target :: string

text \<open>The conversion \<^verbatim>\<open>int32(n)\<close> of an \<^verbatim>\<open>int\<close>, which wraps.\<close>

definition int32 :: "int \<Rightarrow> int" where
  "int32 n = (n + 2 ^ 31) mod 2 ^ 32 - 2 ^ 31"

definition pr_int :: "PlanRequest \<Rightarrow> int" where
  "pr_int req = (case pr_PullRequest req of None \<Rightarrow> 0 | Some n \<Rightarrow> n)"

definition trustedSchemaPath :: "PlanRequest \<Rightarrow> string" where
  "trustedSchemaPath req = (if pr_SourceTrusted req then pr_SchemaPath req else '''')"

definition head_sha :: "PlanRequest \<Rightarrow> string" where
  "head_sha req = (case pr_HeadSHA req of None \<Rightarrow> '''' | Some sha \<Rightarrow> sha)"

definition stored_plan ::
  "int \<Rightarrow> PlanRequest \<Rightarrow> ProtoPlanResponse \<Rightarrow> storedPlanRoute \<Rightarrow> (string \<times> NamespacePlanData option) list \<Rightarrow> ShardPlan list \<Rightarrow> Plan" where
  "stored_plan nowT req resp route namespaces shards =
    \<lparr>plan_ID = 0, plan_Identifier = ppr_PlanId resp, plan_Database = pr_Database req, plan_DatabaseType = route_DatabaseType route,
     plan_Deployment = route_Deployment route, plan_Target = route_Target route, plan_Repository = pr_Repository req,
     plan_PullRequest = pr_int req, plan_SchemaPath = trustedSchemaPath req, plan_Environment = pr_Environment req,
     plan_SchemaFiles = protoToSchemaFiles (pr_SchemaFiles req), plan_Namespaces = namespaces, plan_Shards = shards,
     plan_HeadSHA = head_sha req, plan_CreatedAt = nowT\<rparr>"

definition storePlanResponse :: "Host \<Rightarrow> PlanRequest \<Rightarrow> ProtoPlanResponse \<Rightarrow> storedPlanRoute \<Rightarrow> unit prog" where
  "storePlanResponse h req resp route =
    (case protoChangesToNamespaces (ppr_Changes resp) (pr_SchemaFiles req) of
       Inl e \<Rightarrow> State_Monad.return (Inl (Wrapped ''convert plan namespaces'' e))
     | Inr namespaces \<Rightarrow>
       (case protoShardPlansToStorage (ppr_Shards resp) of
          Inl e \<Rightarrow> State_Monad.return (Inl (Wrapped ''convert plan shards'' e))
        | Inr shards \<Rightarrow>
            do {
              r \<leftarrow> Plan_Create (h_ci h) (stored_plan (h_now h) req resp route namespaces shards);
              case r of
                Inl e \<Rightarrow> State_Monad.return (if errors_Is e ErrPlanIDExists then Inr () else Inl (Wrapped ''store plan'' e))
              | Inr _ \<Rightarrow> State_Monad.return (Inr ())
            }))"

definition plan_request :: "PlanRequest \<Rightarrow> ExecutionTarget \<Rightarrow> ProtoPlanRequest" where
  "plan_request req resolved =
    \<lparr>ppq_Database = pr_Database req, ppq_Type = ExecutionTarget.DatabaseType resolved, ppq_SchemaFiles = pr_SchemaFiles req,
     ppq_Repository = pr_Repository req, ppq_PullRequest = pr_int req, ppq_Environment = pr_Environment req,
     ppq_Target = ExecutionTarget.Target resolved, ppq_SchemaPath = trustedSchemaPath req, ppq_HeadSha = head_sha req\<rparr>"

text \<open>The checks before the engine is called.\<close>

definition authorize_plan :: "ServerConfig \<Rightarrow> PlanRequest \<Rightarrow> err + ExecutionTarget" where
  "authorize_plan config req =
    (case validateSchemaFiles (pr_SchemaFiles req) of
       Some e \<Rightarrow> Inl e
     | None \<Rightarrow>
       (case ResolvePrimaryDatabaseTarget (Some config) (pr_Database req) (pr_Environment req) of
          Inl e \<Rightarrow> Inl (Wrapped ''resolve target'' e)
        | Inr resolved \<Rightarrow>
            if pr_Type req \<noteq> ExecutionTarget.DatabaseType resolved
            then Inl (Errorf ''database type does not match server config type'')
            else if \<not> pr_SourceTrusted req then Inr resolved
            else
              (case AuthorizePlanSource (Some config) \<lparr>psr_Database = pr_Database req, psr_Repository = pr_Repository req,
                      psr_PullRequest = pr_int req, psr_SchemaPath = trustedSchemaPath req\<rparr> of
                 Some e \<Rightarrow> Inl (Wrapped ''source policy'' e)
               | None \<Rightarrow> Inr resolved)))"

text \<open>
  \<open>rpc\<close> is the deployment client: whether it is remote, and its answer to a plan request.  Planning is a program,
  since the local client stores a plan of its own under the identifier it answers with, and
  \<^verbatim>\<open>storePlanResponse\<close> then keeps that one.
\<close>

record PlanRPC =
  rpc_IsRemote :: "clientRef \<Rightarrow> bool"
  rpc_Plan :: "clientRef \<Rightarrow> ProtoPlanRequest \<Rightarrow> ProtoPlanResponse prog"
  rpc_Unavailable :: "err \<Rightarrow> bool"

definition ExecutePlanProto ::
  "Host \<Rightarrow> PlanRPC \<Rightarrow> ServerConfig \<Rightarrow> Service \<Rightarrow> PlanRequest \<Rightarrow>
    (world, (err + ProtoPlanResponse \<times> PlanResponse) \<times> Service) state" where
  "ExecutePlanProto h rpc config s req =
    (case authorize_plan config req of
       Inl e \<Rightarrow> State_Monad.return (Inl e, s)
     | Inr resolved \<Rightarrow>
       (case TernClient (h_newLocal h) (h_newGRPC h) config s (ExecutionTarget.Deployment resolved) (pr_Environment req) of
          (Inl e, s') \<Rightarrow> State_Monad.return (Inl (Wrapped ''database'' e), s')
        | (Inr client, s') \<Rightarrow>
          do {
            answer \<leftarrow> rpc_Plan rpc client (plan_request req resolved);
            case answer of
              Inl e \<Rightarrow> State_Monad.return
                (Inl (if rpc_IsRemote rpc client \<and> rpc_Unavailable rpc e then Wrapped ''remote deployment unavailable'' e else e), s')
            | Inr resp \<Rightarrow>
                do {
                  r \<leftarrow> storePlanResponse h req resp \<lparr>route_DatabaseType = ExecutionTarget.DatabaseType resolved,
                         route_Deployment = ExecutionTarget.Deployment resolved, route_Target = ExecutionTarget.Target resolved\<rparr>;
                  State_Monad.return
                    (case r of
                       Inl e \<Rightarrow> Inl e
                     | Inr _ \<Rightarrow> Inr (resp, (planResponseFromProto resp)\<lparr>rsp_Deployment := ExecutionTarget.Deployment resolved\<rparr>), s')
                }
          }))"

definition ExecutePlan ::
  "Host \<Rightarrow> PlanRPC \<Rightarrow> ServerConfig \<Rightarrow> Service \<Rightarrow> PlanRequest \<Rightarrow> (world, (err + PlanResponse) \<times> Service) state" where
  "ExecutePlan h rpc config s req =
    do {
      (r, s') \<leftarrow> ExecutePlanProto h rpc config s req;
      State_Monad.return (case r of Inl e \<Rightarrow> Inl e | Inr (_, resp) \<Rightarrow> Inr resp, s')
    }"

definition handlePlan ::
  "Host \<Rightarrow> PlanRPC \<Rightarrow> ServerConfig \<Rightarrow> Service \<Rightarrow> PlanRequest \<Rightarrow> (world, int \<times> Service) state" where
  "handlePlan h rpc config s req =
    (if pr_Database req = '''' \<or> pr_Environment req = '''' \<or> pr_Type req \<notin> {''mysql'', ''vitess'', ''strata'', ''postgres''} \<or>
        validateSchemaFiles (pr_SchemaFiles req) \<noteq> None
     then State_Monad.return (400, s)
     else
       do {
         (r, s') \<leftarrow> ExecutePlan h rpc config s req;
         State_Monad.return (case r of Inl e \<Rightarrow> if errors_As_SourcePolicy e then 403 else 500 | Inr _ \<Rightarrow> 200, s')
       })"

section \<open>What is reviewed is what is stored\<close>

lemma map_filter_simps [simp]:
  "List.map_filter id [] = []" "List.map_filter id (None # xs) = List.map_filter id xs" "List.map_filter id (Some x # xs) = x # List.map_filter id xs"
  by (simp_all add: List.map_filter_def)

lemma convert_changes_out:
  "convert_changes sf scs out = Inr namespaces \<Longrightarrow>
    namespaces = out @ map (\<lambda>sc. (default_namespace (psc_Namespace sc), Some (namespace_of_change sf sc))) (List.map_filter id scs)"
  by (induction sf scs out rule: convert_changes.induct) (auto simp: Let_def split: if_splits)

text \<open>A change as the reviewer sees it, and as the plan stores it.\<close>

type_synonym shown_change = "string \<times> string \<times> string \<times> string \<times> bool \<times> string"

definition shown_changes :: "PlanResponse \<Rightarrow> shown_change list" where
  "shown_changes resp = concat (map (\<lambda>sc. map (\<lambda>t. (default_namespace (scr_Namespace sc), tcr_TableName t, tcr_DDL t, tcr_ChangeType t,
     tcr_IsUnsafe t, tcr_UnsafeReason t)) (scr_TableChanges sc)) (rsp_Changes resp))"

definition change_fields :: "TableChange \<Rightarrow> shown_change" where
  "change_fields c = (tc_Namespace c, tc_Table c, tc_DDL c, tc_Operation c, tc_IsUnsafe c, tc_UnsafeReason c)"

text \<open>A shard of the answer, trimmed as it is stored.\<close>

type_synonym shown_shard = "string \<times> string \<times> shown_change list"

definition shown_shards :: "PlanResponse \<Rightarrow> shown_shard list" where
  "shown_shards resp = map (\<lambda>sp. (default_namespace (spr_Namespace sp), TrimSpace (spr_Shard sp),
     map (\<lambda>t. (default_namespace (spr_Namespace sp), TrimSpace (tcr_TableName t), TrimSpace (tcr_DDL t), tcr_ChangeType t,
       tcr_IsUnsafe t, tcr_UnsafeReason t)) (spr_Changes sp))) (rsp_Shards resp)"

definition shard_fields :: "ShardPlan \<Rightarrow> shown_shard" where
  "shard_fields s = (sp_Namespace s, sp_Shard s, map change_fields (sp_Changes s))"

lemma default_namespace_nonempty [simp]: "default_namespace ns \<noteq> ''''"
  by (simp add: default_namespace_def)

lemma flat_changes_mset:
  "mset (FlatDDLChanges p) = mset (concat (map (\<lambda>(k, nsData). map (with_namespace k) (namespace_tables nsData)) (plan_Namespaces p)))"
  unfolding FlatDDLChanges_def mset_concat_map by (rule sum_list_map_mset) simp

lemma stored_changes_shown:
  assumes "protoChangesToNamespaces (ppr_Changes resp) sf = Inr (plan_Namespaces p)"
  shows "mset (map change_fields (FlatDDLChanges p)) = mset (shown_changes ((planResponseFromProto resp)\<lparr>rsp_Deployment := dep\<rparr>))"
proof -
  have ns: "plan_Namespaces p = map (\<lambda>sc. (default_namespace (psc_Namespace sc), Some (namespace_of_change sf sc))) (List.map_filter id (ppr_Changes resp))"
    using convert_changes_out[of sf "ppr_Changes resp" "[]"] assms by (simp add: protoChangesToNamespaces_def)
  have fields: "change_fields (with_namespace (default_namespace ns) (stored_change t)) =
      (default_namespace ns, ptc_TableName t, ptc_Ddl t, protoChangeTypeToOperation (ptc_ChangeType t), ptc_IsUnsafe t, ptc_UnsafeReason t)" for ns t
    by (simp add: change_fields_def with_namespace_def stored_change_def)
  have "map change_fields (concat (map (\<lambda>(k, nsData). map (with_namespace k) (namespace_tables nsData)) (plan_Namespaces p))) =
      shown_changes ((planResponseFromProto resp)\<lparr>rsp_Deployment := dep\<rparr>)"
    unfolding ns shown_changes_def planResponseFromProto_def
    by (simp add: map_concat comp_def namespace_tables_def namespace_of_change_def fields table_response_def)
  then show ?thesis by (metis flat_changes_mset mset_map)
qed

lemma shard_changes_shown:
  "convert_shard_changes namespace chs = Inr cs \<Longrightarrow>
    map change_fields cs = map (\<lambda>t. (namespace, TrimSpace (tcr_TableName t), TrimSpace (tcr_DDL t), tcr_ChangeType t, tcr_IsUnsafe t, tcr_UnsafeReason t))
      (map table_response (List.map_filter id chs))"
  by (induction namespace chs arbitrary: cs rule: convert_shard_changes.induct)
    (auto simp: Let_def change_fields_def table_response_def split: if_splits sum.splits)

lemma stored_shards_shown:
  "protoShardPlansToStorage shards = Inr out \<Longrightarrow>
    map shard_fields out = map (\<lambda>sp. (default_namespace (psp_Namespace sp), TrimSpace (psp_Shard sp),
      map (\<lambda>t. (default_namespace (psp_Namespace sp), TrimSpace (tcr_TableName t), TrimSpace (tcr_DDL t), tcr_ChangeType t, tcr_IsUnsafe t,
        tcr_UnsafeReason t)) (map table_response (List.map_filter id (psp_Changes sp))))) (List.map_filter id shards) \<and>
    (\<forall>s\<in>set out. sp_Namespace s \<noteq> '''')"
  by (induction shards arbitrary: out rule: protoShardPlansToStorage.induct)
    (auto simp: Let_def shard_fields_def shard_changes_shown simp del: map_map split: if_splits sum.splits)

lemma shards_read_mset:
  assumes "\<forall>s\<in>set (plan_Shards p). sp_Namespace s \<noteq> ''''" and "\<forall>(k, nsData)\<in>set (plan_Namespaces p). namespace_shards (k, nsData) = []"
  shows "mset (plan_Shards (scanPlanInto (plan_row p d))) = mset (plan_Shards p)"
proof -
  have id: "map stored_shard (plan_Shards p) = plan_Shards p"
    using assms(1) by (intro map_idI) (simp add: stored_shard_def planShardNamespace_def)
  have "concat (map namespace_shards (plan_Namespaces p)) = []" using assms(2) by auto
  moreover have "namespace_shards (kept_namespace p kv) = namespace_shards kv" if "plan_Shards p = []" for kv
    using that by (cases kv) (simp add: kept_namespace_def option.map_ident)
  ultimately have "mset (concat (map namespace_shards (namespacesWithShardPlans p))) = mset (map stored_shard (plan_Shards p))"
    using kept_no_shards[of p "plan_Namespaces p"]
    by (cases "plan_Shards p = []") (simp_all add: namespacesWithShardPlans_def namespace_shards_fold sortedShardPlans_def)
  then show ?thesis by (simp add: scanPlanInto_def plan_row_def shardPlansFromNamespaces_def sortedShardPlans_def id)
qed

lemma converted_no_shards:
  assumes "protoChangesToNamespaces scs sf = Inr namespaces"
  shows "\<forall>(k, nsData)\<in>set namespaces. namespace_shards (k, nsData) = []"
  using convert_changes_out[of sf scs "[]"] assms
  by (auto simp: protoChangesToNamespaces_def namespace_shards_def namespace_of_change_def)

lemma scan_keeps_changes: "FlatDDLChanges (scanPlanInto (plan_row p d)) = FlatDDLChanges p"
  by (simp only: FlatDDLChanges_tables) (simp add: scanPlanInto_def plan_row_def tables_stored)

lemma stored_plan_shown:
  assumes "protoChangesToNamespaces (ppr_Changes proto) (pr_SchemaFiles req) = Inr namespaces"
    and "protoShardPlansToStorage (ppr_Shards proto) = Inr shards"
  shows "mset (map change_fields (FlatDDLChanges (scanPlanInto (plan_row (stored_plan n req proto route namespaces shards) d)))) =
      mset (shown_changes ((planResponseFromProto proto)\<lparr>rsp_Deployment := dep\<rparr>))"
    and "mset (map shard_fields (plan_Shards (scanPlanInto (plan_row (stored_plan n req proto route namespaces shards) d)))) =
      mset (shown_shards ((planResponseFromProto proto)\<lparr>rsp_Deployment := dep\<rparr>))"
proof -
  let ?p = "stored_plan n req proto route namespaces shards"
  show "mset (map change_fields (FlatDDLChanges (scanPlanInto (plan_row ?p d)))) =
      mset (shown_changes ((planResponseFromProto proto)\<lparr>rsp_Deployment := dep\<rparr>))"
    unfolding scan_keeps_changes using assms(1) by (intro stored_changes_shown[of _ "pr_SchemaFiles req"]) (simp add: stored_plan_def)
  have "mset (plan_Shards (scanPlanInto (plan_row ?p d))) = mset shards"
    using shards_read_mset[of ?p d] stored_shards_shown[OF assms(2)] converted_no_shards[OF assms(1)] by (simp add: stored_plan_def)
  then have "mset (map shard_fields (plan_Shards (scanPlanInto (plan_row ?p d)))) = mset (map shard_fields shards)" by simp
  also have "map shard_fields shards = shown_shards ((planResponseFromProto proto)\<lparr>rsp_Deployment := dep\<rparr>)"
    using stored_shards_shown[OF assms(2)] by (simp add: shown_shards_def planResponseFromProto_def comp_def)
  finally show "mset (map shard_fields (plan_Shards (scanPlanInto (plan_row ?p d)))) =
      mset (shown_shards ((planResponseFromProto proto)\<lparr>rsp_Deployment := dep\<rparr>))" .
qed

text \<open>A client whose planning leaves the store, as \<^verbatim>\<open>GRPCClient.Plan\<close>.\<close>

definition plans_by_rpc :: "PlanRPC \<Rightarrow> bool" where
  "plans_by_rpc rpc \<longleftrightarrow> (\<forall>client q w. snd (run_state (rpc_Plan rpc client q) w) = w)"

lemma plans_by_rpcD: "plans_by_rpc rpc \<Longrightarrow> run_state (rpc_Plan rpc client q) w = (r, w1) \<Longrightarrow> w1 = w"
  unfolding plans_by_rpc_def by (metis snd_conv)

text \<open>
  Property C15 (equivalence).  What the reviewer is shown is what is stored, when the engine client itself stores
  nothing, as the remote one, whose planning is a single RPC: after a plan is executed, the plan that
  applies will load carries exactly the table changes and the shard changes of the answer, with their
  DDL and unsafe marks, under the deployment, environment and head commit they were planned for.
  (The local client stores a plan of its own under the same identifier, which is kept.)
\<close>

theorem reviewed_plan_is_stored:
  assumes "run_state (ExecutePlanProto h rpc config s req) (quiet d) = ((Inr (proto, resp), s'), w')"
    and "plans_by_rpc rpc"
    and "\<not> list_ex (\<lambda>p. h_ci h (plan_Identifier p) = h_ci h (rsp_PlanID resp)) (plans d)"
  shows "\<exists>p. run_state (Plan_Get (h_ci h) (rsp_PlanID resp)) w' = (Inr (Some p), w') \<and>
    mset (map change_fields (FlatDDLChanges p)) = mset (shown_changes resp) \<and>
    mset (map shard_fields (plan_Shards p)) = mset (shown_shards resp) \<and>
    plan_Database p = pr_Database req \<and> plan_Environment p = pr_Environment req \<and> plan_Deployment p = rsp_Deployment resp \<and>
    plan_HeadSHA p = head_sha req \<and> plan_SchemaPath p = trustedSchemaPath req"
proof -
  obtain resolved :: ExecutionTarget where store: "run_state (storePlanResponse h req proto \<lparr>route_DatabaseType = ExecutionTarget.DatabaseType resolved,
        route_Deployment = ExecutionTarget.Deployment resolved, route_Target = ExecutionTarget.Target resolved\<rparr>) (quiet d) = (Inr (), w')"
    and resp: "resp = (planResponseFromProto proto)\<lparr>rsp_Deployment := ExecutionTarget.Deployment resolved\<rparr>"
    using assms(1) by (auto simp: ExecutePlanProto_def split: sum.splits prod.splits dest!: plans_by_rpcD[OF assms(2)])
  let ?route = "\<lparr>route_DatabaseType = ExecutionTarget.DatabaseType resolved,
        route_Deployment = ExecutionTarget.Deployment resolved, route_Target = ExecutionTarget.Target resolved\<rparr>"
  obtain namespaces shards where conv: "protoChangesToNamespaces (ppr_Changes proto) (pr_SchemaFiles req) = Inr namespaces"
    "protoShardPlansToStorage (ppr_Shards proto) = Inr shards"
    using store by (auto simp: storePlanResponse_def split: sum.splits)
  let ?p = "stored_plan (h_now h) req proto ?route namespaces shards"
  have id: "plan_Identifier ?p = rsp_PlanID resp" by (simp add: resp planResponseFromProto_def stored_plan_def)
  have "\<not> list_ex (\<lambda>p. h_ci h (plan_Identifier p) = h_ci h (plan_Identifier ?p)) (plans d)" using assms(3) id by simp
  then have w': "w' = quiet (d\<lparr>plans := plans d @ [plan_row ?p d], plans_next := plans_next d + 1\<rparr>)"
    using store conv by (simp add: storePlanResponse_def Plan_Create_def insert_plan_def)
  have "find (\<lambda>p. h_ci h (plan_Identifier p) = h_ci h (rsp_PlanID resp)) (plans d) = None"
    using assms(3) by (auto simp: find_None_iff list_ex_iff)
  then have "run_state (Plan_Get (h_ci h) (rsp_PlanID resp)) w' = (Inr (Some (scanPlanInto (plan_row ?p d))), w')"
    using id by (simp add: Plan_Get_def w' find_append_single plan_row_def)
  then show ?thesis
    using stored_plan_shown[OF conv, of "h_now h" ?route d "ExecutionTarget.Deployment resolved"] unfolding resp
    by (intro exI[of _ "scanPlanInto (plan_row ?p d)"]) (simp add: scanPlanInto_def plan_row_def stored_plan_def)
qed

definition example_plan_request :: PlanRequest where
  "example_plan_request = \<lparr>pr_Database = ''orders'', pr_Environment = ''production'', pr_Type = ''mysql'',
     pr_SchemaFiles = [(''main'', Some [(''users.sql'', ''CREATE TABLE users (id INT)'')])], pr_Repository = ''org/app'',
     pr_PullRequest = Some 7, pr_HeadSHA = Some ''abc'', pr_SchemaPath = ''schema/orders'', pr_SourceTrusted = True\<rparr>"

definition example_proto_change :: ProtoTableChange where
  "example_proto_change = \<lparr>ptc_TableName = ''users '', ptc_Namespace = '''', ptc_Ddl = ''DROP TABLE users'',
     ptc_ChangeType = CHANGE_TYPE_DROP, ptc_IsUnsafe = True, ptc_UnsafeReason = ''drops data''\<rparr>"

definition example_proto :: ProtoPlanResponse where
  "example_proto = \<lparr>ppr_PlanId = ''plan_9'',
     ppr_Changes = [Some \<lparr>psc_Namespace = '''', psc_TableChanges = [example_proto_change], psc_Metadata = [], psc_OriginalFiles = [],
       psc_OriginalFilesCaptured = True\<rparr>],
     ppr_Shards = [Some \<lparr>psp_Namespace = '''', psp_Shard = '' -80'', psp_Changes = [Some example_proto_change]\<rparr>], ppr_Errors = []\<rparr>"

definition example_rpc :: PlanRPC where
  "example_rpc = \<lparr>rpc_IsRemote = (\<lambda>_. True), rpc_Plan = (\<lambda>_ _. State_Monad.return (Inr example_proto)), rpc_Unavailable = (\<lambda>_. False)\<rparr>"

theorem reviewed_plan_is_stored_witness:
  "\<exists>p resp w'. fst (fst (run_state (ExecutePlanProto example_host example_rpc example_config example_service example_plan_request) (quiet planned_db))) =
      Inr (example_proto, resp) \<and>
    run_state (Plan_Get ToLower ''plan_9'') w' = (Inr (Some p), w') \<and>
    mset (map change_fields (FlatDDLChanges p)) = mset (shown_changes resp) \<and>
    shown_changes resp = [(''default'', ''users '', ''DROP TABLE users'', ''drop'', True, ''drops data'')] \<and>
    mset (map shard_fields (plan_Shards p)) = mset (shown_shards resp)"
proof -
  let ?resp = "(planResponseFromProto example_proto)\<lparr>rsp_Deployment := ''us''\<rparr>"
  have run: "fst (fst (run_state (ExecutePlanProto example_host example_rpc example_config example_service example_plan_request) (quiet planned_db))) =
      Inr (example_proto, ?resp)"
    by code_simp
  then obtain s' w' where "run_state (ExecutePlanProto example_host example_rpc example_config example_service example_plan_request) (quiet planned_db) =
      ((Inr (example_proto, ?resp), s'), w')"
    by (metis prod.collapse)
  moreover have "plans_by_rpc example_rpc" by (simp add: plans_by_rpc_def example_rpc_def)
  moreover have "\<not> list_ex (\<lambda>p. h_ci example_host (plan_Identifier p) = h_ci example_host (rsp_PlanID ?resp)) (plans planned_db)"
    by code_simp
  ultimately have "\<exists>p. run_state (Plan_Get (h_ci example_host) (rsp_PlanID ?resp)) w' = (Inr (Some p), w') \<and>
      mset (map change_fields (FlatDDLChanges p)) = mset (shown_changes ?resp) \<and>
      mset (map shard_fields (plan_Shards p)) = mset (shown_shards ?resp)"
    using reviewed_plan_is_stored[of example_host example_rpc example_config example_service example_plan_request planned_db example_proto ?resp s' w']
    by blast
  moreover have "h_ci example_host = ToLower" "rsp_PlanID ?resp = ''plan_9''" by (simp_all add: example_host_def planResponseFromProto_def example_proto_def)
  moreover have "shown_changes ?resp = [(''default'', ''users '', ''DROP TABLE users'', ''drop'', True, ''drops data'')]" by code_simp
  ultimately show ?thesis using run by auto
qed

section \<open>Rollback plans\<close>

definition rollbackSourcePlanMatchesApply :: "Plan \<Rightarrow> Apply \<Rightarrow> bool" where
  "rollbackSourcePlanMatchesApply plan a \<longleftrightarrow>
    plan_Database plan = apply_Database a \<and> plan_DatabaseType plan = apply_DatabaseType a \<and> plan_Environment plan = apply_Environment a"

fun rollback_files :: "(string \<times> NamespacePlanData option) list \<Rightarrow> err + schema_files" where
  "rollback_files [] = Inr []"
| "rollback_files ((ns, None) # nss) = Inl (Errorf ''no original schema files available for rollback namespace'')"
| "rollback_files ((ns, Some nsData) # nss) =
    (if \<not> npd_OriginalFilesCaptured nsData then Inl (Errorf ''no original schema files available for rollback namespace'')
     else (case rollback_files nss of Inl e \<Rightarrow> Inl e | Inr files \<Rightarrow> Inr ((ns, Some (npd_OriginalFiles nsData)) # files)))"

definition rollbackSchemaFiles :: "Plan \<Rightarrow> err + schema_files" where
  "rollbackSchemaFiles plan =
    (case rollback_files (plan_Namespaces plan) of
       Inl e \<Rightarrow> Inl e
     | Inr files \<Rightarrow> if files = [] then Inl (Errorf ''no namespaces available for rollback'') else Inr files)"

definition storedDeploymentForApply :: "Apply option \<Rightarrow> err + string" where
  "storedDeploymentForApply a =
    (case a of
       None \<Rightarrow> Inl (Errorf ''apply is required'')
     | Some x \<Rightarrow> if apply_Deployment x = '''' then Inl (Errorf ''apply is missing stored deployment metadata'') else Inr (apply_Deployment x))"

text \<open>What a rollback of an apply plans, from the plan it applied.\<close>

definition rollback_request :: "Apply \<Rightarrow> Plan \<Rightarrow> err + PlanRequest \<times> storedPlanRoute" where
  "rollback_request a plan =
    (if \<not> rollbackSourcePlanMatchesApply plan a then Inl (Errorf ''source plan belongs to another target'')
     else
       (case rollbackSchemaFiles plan of
          Inl e \<Rightarrow> Inl e
        | Inr schemaFiles \<Rightarrow>
          (case storedDeploymentForApply (Some a) of
             Inl e \<Rightarrow> Inl e
           | Inr deployment \<Rightarrow>
               if plan_Target plan = '''' then Inl (Errorf ''plan is missing server-side routing metadata field target'')
               else Inr (\<lparr>pr_Database = apply_Database a, pr_Environment = apply_Environment a, pr_Type = apply_DatabaseType a,
                      pr_SchemaFiles = schemaFiles, pr_Repository = apply_Repository a, pr_PullRequest = Some (int32 (apply_PullRequest a)),
                      pr_HeadSHA = None, pr_SchemaPath = '''', pr_SourceTrusted = False\<rparr>,
                    \<lparr>route_DatabaseType = apply_DatabaseType a, route_Deployment = deployment, route_Target = plan_Target plan\<rparr>))))"

definition ExecuteRollbackPlanForApply ::
  "Host \<Rightarrow> PlanRPC \<Rightarrow> ServerConfig \<Rightarrow> Service \<Rightarrow> Apply option \<Rightarrow> (world, (err + PlanResponse) \<times> Service) state" where
  "ExecuteRollbackPlanForApply h rpc config s apply =
    (case apply of
       None \<Rightarrow> State_Monad.return (Inl (Errorf ''apply is required''), s)
     | Some a \<Rightarrow>
         if \<not> IsState (apply_State a) [Apply_Completed]
         then State_Monad.return (Inl (Errorf ''only completed applies can be rolled back''), s)
         else
           do {
             r \<leftarrow> Plan_GetByID (apply_PlanID a);
             case r of
               Inl e \<Rightarrow> State_Monad.return (Inl (Wrapped ''get rollback source plan'' e), s)
             | Inr None \<Rightarrow> State_Monad.return (Inl (Errorf ''plan not found for apply''), s)
             | Inr (Some plan) \<Rightarrow>
               (case rollback_request a plan of
                  Inl e \<Rightarrow> State_Monad.return (Inl e, s)
                | Inr (req, route) \<Rightarrow>
                  (case TernClient (h_newLocal h) (h_newGRPC h) config s (route_Deployment route) (apply_Environment a) of
                     (Inl e, s') \<Rightarrow> State_Monad.return (Inl (Wrapped ''database'' e), s')
                   | (Inr client, s') \<Rightarrow>
                     do {
                       answer \<leftarrow> rpc_Plan rpc client \<lparr>ppq_Database = pr_Database req, ppq_Type = pr_Type req, ppq_SchemaFiles = pr_SchemaFiles req,
                              ppq_Repository = pr_Repository req, ppq_PullRequest = pr_int req, ppq_Environment = pr_Environment req,
                              ppq_Target = route_Target route, ppq_SchemaPath = '''', ppq_HeadSha = ''''\<rparr>;
                       case answer of
                         Inl e \<Rightarrow> State_Monad.return (Inl e, s')
                       | Inr resp \<Rightarrow>
                           do {
                             st \<leftarrow> storePlanResponse h req resp route;
                             State_Monad.return (case st of Inl e \<Rightarrow> Inl e | Inr _ \<Rightarrow> Inr (planResponseFromProto resp), s')
                           }
                     }))
           })"

text \<open>A rollback plans exactly the files that were captured before the apply, for every namespace of its plan.\<close>

lemma rollback_files_exact:
  "rollback_files nss = Inr files \<Longrightarrow>
    list_all (\<lambda>(ns, d). \<exists>x. d = Some x \<and> npd_OriginalFilesCaptured x) nss \<and>
    files = map (\<lambda>(ns, d). (ns, map_option npd_OriginalFiles d)) nss"
  by (induction nss arbitrary: files rule: rollback_files.induct) (auto split: sum.splits if_splits)

theorem rollback_restores_captured:
  assumes "rollback_request a plan = Inr (req, route)"
  shows "HasOriginalFilesCapture (Some plan) \<and> rollbackSourcePlanMatchesApply plan a \<and>
    pr_SchemaFiles req = map (\<lambda>(ns, d). (ns, map_option npd_OriginalFiles d)) (plan_Namespaces plan) \<and>
    route_Deployment route = apply_Deployment a \<and> apply_Deployment a \<noteq> '''' \<and> validateSchemaFiles (pr_SchemaFiles req) = None"
proof -
  obtain files where f: "rollback_files (plan_Namespaces plan) = Inr files" "files \<noteq> []" "pr_SchemaFiles req = files"
    and rest: "rollbackSourcePlanMatchesApply plan a" "route_Deployment route = apply_Deployment a" "apply_Deployment a \<noteq> ''''"
    using assms by (auto simp: rollback_request_def rollbackSchemaFiles_def storedDeploymentForApply_def split: if_splits sum.splits)
  have ok: "list_all (\<lambda>(ns, d). \<exists>x. d = Some x \<and> npd_OriginalFilesCaptured x) (plan_Namespaces plan)"
    and files: "files = map (\<lambda>(ns, d). (ns, map_option npd_OriginalFiles d)) (plan_Namespaces plan)"
    using rollback_files_exact[OF f(1)] by simp_all
  then have "HasOriginalFilesCapture (Some plan)" using f(2) by (auto simp: HasOriginalFilesCapture_def list_all_iff split: option.splits)
  moreover have "validateSchemaFiles files = None"
    using f(2) ok by (auto simp: validateSchemaFiles_def list_ex_iff list_all_iff files)
  ultimately show ?thesis using rest f(3) files by simp
qed

end
