(* ===== verification/Regex.thy ===== *)
theory Regex
  imports Prelude
begin

text \<open>
  The part of Go's \<^verbatim>\<open>regexp\<close> that the command parser uses: leftmost-first matching with one capture group.
  A position is the character before it, the text after it and what the group has captured; the
  matches of an expression at a position are listed in the order of preference of a backtracking
  matcher, so the head of the list is the match the library reports.  Texts are ASCII.
\<close>

datatype regex =
    Cls "char \<Rightarrow> bool"
  | Eps
  | Seq regex regex
  | Alt regex regex
  | Star regex
  | Group regex
  | Bol | Eol | Bot | Eot | WordB

record pos =
  p_prev :: "char option"
  p_rest :: string
  p_cap :: "string option"

definition is_word :: "char option \<Rightarrow> bool" where
  "is_word ch \<longleftrightarrow> (case ch of None \<Rightarrow> False
     | Some x \<Rightarrow> x \<in> set lower_chars \<or> x \<in> set upper_chars \<or> x \<in> set ''0123456789_'')"

definition p_next :: "pos \<Rightarrow> char option" where
  "p_next p = (case p_rest p of [] \<Rightarrow> None | ch # _ \<Rightarrow> Some ch)"

text \<open>Greedy repetition: one more round is preferred to stopping; a round consumes text.\<close>

fun iterate :: "nat \<Rightarrow> (pos \<Rightarrow> pos list) \<Rightarrow> pos \<Rightarrow> pos list" where
  "iterate 0 f p = [p]"
| "iterate (Suc n) f p = concat (map (iterate n f) (filter (\<lambda>q. length (p_rest q) < length (p_rest p)) (f p))) @ [p]"

primrec matches :: "regex \<Rightarrow> pos \<Rightarrow> pos list" where
  "matches (Cls P) p =
    (case p_rest p of [] \<Rightarrow> [] | ch # rest \<Rightarrow> if P ch then [p\<lparr>p_prev := Some ch, p_rest := rest\<rparr>] else [])"
| "matches Eps p = [p]"
| "matches (Seq r s) p = concat (map (matches s) (matches r p))"
| "matches (Alt r s) p = matches r p @ matches s p"
| "matches (Star r) p = iterate (length (p_rest p)) (matches r) p"
| "matches (Group r) p =
    map (\<lambda>q. q\<lparr>p_cap := Some (take (length (p_rest p) - length (p_rest q)) (p_rest p))\<rparr>) (matches r p)"
| "matches Bol p = (if p_prev p = None \<or> p_prev p = Some (CHR 0x0A) then [p] else [])"
| "matches Eol p = (if p_rest p = [] \<or> p_next p = Some (CHR 0x0A) then [p] else [])"
| "matches Bot p = (if p_prev p = None then [p] else [])"
| "matches Eot p = (if p_rest p = [] then [p] else [])"
| "matches WordB p = (if is_word (p_prev p) \<noteq> is_word (p_next p) then [p] else [])"

text \<open>The leftmost match from a position on.\<close>

fun search :: "regex \<Rightarrow> char option \<Rightarrow> string \<Rightarrow> pos option" where
  "search r prev s =
    (case matches r \<lparr>p_prev = prev, p_rest = s, p_cap = None\<rparr> of
       q # _ \<Rightarrow> Some q
     | [] \<Rightarrow> (case s of [] \<Rightarrow> None | ch # rest \<Rightarrow> search r (Some ch) rest))"

declare search.simps [simp del]

definition MatchString :: "regex \<Rightarrow> string \<Rightarrow> bool" where
  "MatchString r s \<longleftrightarrow> search r None s \<noteq> None"

text \<open>\<^verbatim>\<open>FindStringSubmatch\<close>: \<open>None\<close> without a match, else the text of the group, empty when it took no part.\<close>

definition FindStringSubmatch :: "regex \<Rightarrow> string \<Rightarrow> string option" where
  "FindStringSubmatch r s =
    (case search r None s of
       None \<Rightarrow> None
     | Some q \<Rightarrow> Some (case p_cap q of None \<Rightarrow> '''' | Some t \<Rightarrow> t))"

section \<open>Building expressions\<close>

definition chr :: "char \<Rightarrow> regex" where
  "chr c = Cls (\<lambda>x. x = c)"

text \<open>\<^verbatim>\<open>(?i)\<close>: a literal text without regard to case.\<close>

primrec lit :: "string \<Rightarrow> regex" where
  "lit [] = Eps"
| "lit (c # cs) = Seq (Cls (\<lambda>x. to_lower_char x = to_lower_char c)) (lit cs)"

definition some_of :: "regex \<Rightarrow> regex" where
  "some_of r = Seq r (Star r)"

definition opt :: "regex \<Rightarrow> regex" where
  "opt r = Alt r Eps"

fun alts :: "regex list \<Rightarrow> regex" where
  "alts [] = Cls (\<lambda>_. False)"
| "alts [r] = r"
| "alts (r # rs) = Alt r (alts rs)"

definition blank :: "char \<Rightarrow> bool" where
  "blank x \<longleftrightarrow> x = CHR 0x20 \<or> x = CHR 0x09"

definition white :: "char \<Rightarrow> bool" where
  "white x \<longleftrightarrow> x \<in> {CHR 0x20, CHR 0x09, CHR 0x0A, CHR 0x0C, CHR 0x0D}"

definition alnum :: "char \<Rightarrow> bool" where
  "alnum x \<longleftrightarrow> x \<in> set lower_chars \<or> x \<in> set upper_chars \<or> x \<in> set ''0123456789''"

section \<open>What a match means\<close>

text \<open>A match consumes a prefix of the text and leaves the group alone unless it has one.\<close>

lemma iterate_suffix:
  assumes "\<And>p q. q \<in> set (f p) \<Longrightarrow> \<exists>w. p_rest p = w @ p_rest q"
  shows "q \<in> set (iterate n f p) \<Longrightarrow> \<exists>w. p_rest p = w @ p_rest q"
proof (induction n arbitrary: p)
  case (Suc n)
  then consider "q = p" | q' where "q' \<in> set (f p)" "q \<in> set (iterate n f q')" by auto
  then show ?case
  proof cases
    case 2
    with Suc.IH obtain w where "p_rest q' = w @ p_rest q" by blast
    moreover obtain v where "p_rest p = v @ p_rest q'" using assms[OF 2(1)] by blast
    ultimately show ?thesis by (metis append.assoc)
  qed simp
qed simp

lemma matches_suffix: "q \<in> set (matches r p) \<Longrightarrow> \<exists>w. p_rest p = w @ p_rest q"
proof (induction r arbitrary: p q)
  case (Cls P)
  then have "\<exists>ch. p_rest p = [ch] @ p_rest q" by (cases "p_rest p") (auto split: if_splits)
  then show ?case by blast
next
  case (Seq r s)
  then obtain q' where q': "q' \<in> set (matches r p)" "q \<in> set (matches s q')" by auto
  obtain v w where "p_rest p = v @ p_rest q'" "p_rest q' = w @ p_rest q" using Seq.IH(1)[OF q'(1)] Seq.IH(2)[OF q'(2)] by blast
  then have "p_rest p = (v @ w) @ p_rest q" by simp
  then show ?case by blast
next
  case (Star r)
  then show ?case using iterate_suffix[of "matches r" q] by auto
qed (auto split: list.splits if_splits)

text \<open>The preferred match of a repeated class takes all it can.\<close>

lemma iterate_class:
  "length (p_rest p) \<le> n \<Longrightarrow>
    \<exists>q qs. iterate n (matches (Cls P)) p = q # qs \<and> p_rest q = dropWhile P (p_rest p) \<and> p_cap q = p_cap p"
proof (induction n arbitrary: p)
  case (Suc n)
  show ?case
  proof (cases "p_rest p")
    case (Cons ch rest)
    show ?thesis
    proof (cases "P ch")
      case True
      then show ?thesis using Suc.IH[of "p\<lparr>p_prev := Some ch, p_rest := rest\<rparr>"] Suc.prems Cons by auto
    qed (use Cons in auto)
  qed auto
qed auto

lemma star_class_head:
  "\<exists>q qs. matches (Star (Cls P)) p = q # qs \<and> p_rest q = dropWhile P (p_rest p) \<and> p_cap q = p_cap p"
  using iterate_class[of p "length (p_rest p)" P] by simp

lemma concat_map_head:
  assumes "concat (map f xs) = y # ys"
  shows "\<exists>x\<in>set xs. \<exists>zs. f x = y # zs"
  using assms
proof (induction xs)
  case (Cons x xs)
  then show ?case by (cases "f x") auto
qed simp

lemma search_Some:
  "search r prev s = Some q \<Longrightarrow>
    \<exists>pre prev' s' qs. s = pre @ s' \<and> (pre = [] \<and> prev' = prev \<or> pre \<noteq> [] \<and> prev' = Some (last pre)) \<and>
      matches r \<lparr>p_prev = prev', p_rest = s', p_cap = None\<rparr> = q # qs"
proof (induction r prev s rule: search.induct)
  case (1 r prev s)
  show ?case
  proof (cases "matches r \<lparr>p_prev = prev, p_rest = s, p_cap = None\<rparr>")
    case Nil
    with "1.prems" obtain ch rest where s: "s = ch # rest" "search r (Some ch) rest = Some q"
      by (subst (asm) search.simps) (auto split: list.splits)
    from "1.IH"[OF Nil s] obtain pre prev' s' qs where "rest = pre @ s'"
      "pre = [] \<and> prev' = Some ch \<or> pre \<noteq> [] \<and> prev' = Some (last pre)" "matches r \<lparr>p_prev = prev', p_rest = s', p_cap = None\<rparr> = q # qs" by blast
    then show ?thesis using s(1) by (intro exI[of _ "ch # pre"]) auto
  next
    case (Cons q' qs)
    with "1.prems" have "q' = q" by (subst (asm) search.simps) simp
    with Cons show ?thesis by (intro exI[of _ "[]"]) auto
  qed
qed

section \<open>Languages\<close>

inductive_set reps :: "string set \<Rightarrow> string set" for L where
  reps_nil: "[] \<in> reps L"
| reps_more: "v \<in> L \<Longrightarrow> w \<in> reps L \<Longrightarrow> v @ w \<in> reps L"

primrec lang :: "regex \<Rightarrow> string set" where
  "lang (Cls P) = {[x] | x. P x}"
| "lang Eps = {[]}"
| "lang (Seq r s) = {v @ w | v w. v \<in> lang r \<and> w \<in> lang s}"
| "lang (Alt r s) = lang r \<union> lang s"
| "lang (Star r) = reps (lang r)"
| "lang (Group r) = lang r"
| "lang Bol = {[]}"
| "lang Eol = {[]}"
| "lang Bot = {[]}"
| "lang Eot = {[]}"
| "lang WordB = {[]}"

lemma iterate_reps:
  assumes "\<And>p q. q \<in> set (f p) \<Longrightarrow> \<exists>w\<in>L. p_rest p = w @ p_rest q"
  shows "q \<in> set (iterate n f p) \<Longrightarrow> \<exists>w\<in>reps L. p_rest p = w @ p_rest q"
proof (induction n arbitrary: p)
  case (Suc n)
  then consider "q = p" | q' where "q' \<in> set (f p)" "q \<in> set (iterate n f q')" by auto
  then show ?case
  proof cases
    case 2
    with Suc.IH obtain w where w: "w \<in> reps L" "p_rest q' = w @ p_rest q" by blast
    moreover obtain v where "v \<in> L" "p_rest p = v @ p_rest q'" using assms[OF 2(1)] by blast
    ultimately show ?thesis by (intro bexI[of _ "v @ w"]) (auto intro: reps_more)
  qed (auto intro: reps_nil)
qed (auto intro: reps_nil)

lemma matches_lang: "q \<in> set (matches r p) \<Longrightarrow> \<exists>w\<in>lang r. p_rest p = w @ p_rest q"
proof (induction r arbitrary: p q)
  case (Cls P)
  then show ?case by (cases "p_rest p") (auto split: if_splits)
next
  case (Seq r s)
  then obtain q' where q': "q' \<in> set (matches r p)" "q \<in> set (matches s q')" by auto
  obtain v w where "v \<in> lang r" "w \<in> lang s" "p_rest p = v @ p_rest q'" "p_rest q' = w @ p_rest q"
    using Seq.IH(1)[OF q'(1)] Seq.IH(2)[OF q'(2)] by blast
  then show ?case by (intro bexI[of _ "v @ w"]) auto
next
  case (Star r)
  then show ?case using iterate_reps[of "matches r" "lang r" q] by auto
next
  case (Alt r s)
  from Alt.prems consider "q \<in> set (matches r p)" | "q \<in> set (matches s p)" by auto
  then show ?case by cases (use Alt.IH in fastforce)+
qed (auto split: if_splits)

lemma lang_class_star: "reps (lang (Cls P)) = {w. list_all P w}"
proof
  show "reps (lang (Cls P)) \<subseteq> {w. list_all P w}"
  proof
    fix w assume "w \<in> reps (lang (Cls P))" then show "w \<in> {w. list_all P w}" by induction auto
  qed
  have "list_all P w \<Longrightarrow> w \<in> reps {[x] | x. P x}" for w
  proof (induction w)
    case (Cons x w)
    then have "[x] @ w \<in> reps {[x] | x. P x}" by (intro reps_more) auto
    then show ?case by simp
  qed (rule reps_nil)
  then show "{w. list_all P w} \<subseteq> reps (lang (Cls P))" by auto
qed

lemma lang_some_class: "lang (some_of (Cls P)) = {w. w \<noteq> [] \<and> list_all P w}"
proof -
  have "lang (some_of (Cls P)) = {v @ w | v w. v \<in> lang (Cls P) \<and> w \<in> {w. list_all P w}}"
    unfolding some_of_def lang.simps(3,5) lang_class_star ..
  also have "\<dots> = {w. w \<noteq> [] \<and> list_all P w}"
  proof (rule set_eqI)
    fix w show "w \<in> {v @ w | v w. v \<in> lang (Cls P) \<and> w \<in> {w. list_all P w}} \<longleftrightarrow> w \<in> {w. w \<noteq> [] \<and> list_all P w}"
      by (cases w) (auto intro: exI[of _ "[hd w]"] exI[of _ "tl w"])
  qed
  finally show ?thesis .
qed

lemma lang_lit: "w \<in> lang (lit s) \<Longrightarrow> ToLower w = ToLower s"
  by (induction s arbitrary: w) (auto simp: ToLower_def)

text \<open>An expression that ends at the end of the text, and a match of the whole text.\<close>

definition to_end :: "regex \<Rightarrow> bool" where
  "to_end r \<longleftrightarrow> (\<forall>p. \<forall>q\<in>set (matches r p). p_rest q = [])"

lemma to_end_Eot [simp]: "to_end Eot"
  by (simp add: to_end_def)

lemma to_end_Seq [simp]: "to_end s \<Longrightarrow> to_end (Seq r s)"
  by (auto simp: to_end_def)

lemma MatchString_whole:
  assumes "MatchString (Seq Bot r) s" and "to_end r"
  shows "s \<in> lang r"
proof -
  from assms(1) obtain q where "search (Seq Bot r) None s = Some q" by (auto simp: MatchString_def)
  from search_Some[OF this] obtain pre prev' s' qs where s: "s = pre @ s'" "pre = [] \<and> prev' = None \<or> pre \<noteq> [] \<and> prev' = Some (last pre)"
    and m: "matches (Seq Bot r) \<lparr>p_prev = prev', p_rest = s', p_cap = None\<rparr> = q # qs" by blast
  from m have "prev' = None" by (auto split: if_splits)
  with s m have "s' = s" and q: "q \<in> set (matches r \<lparr>p_prev = None, p_rest = s, p_cap = None\<rparr>)" by auto
  from matches_lang[OF q] obtain w where "w \<in> lang r" "s = w @ p_rest q" by auto
  moreover have "p_rest q = []" using assms(2) q by (auto simp: to_end_def)
  ultimately show ?thesis by simp
qed

end
