(* ===== verification/Webhook_Commands.thy ===== *)
theory Webhook_Commands
  imports Regex Strconv Server_Config
begin

text \<open>
  The parser of commands in pull request comments (\<^verbatim>\<open>pkg/webhook/commands.go\<close>), with its regular expressions.
  Texts are ASCII.
\<close>

section \<open>Commands\<close>

record CommandSpec =
  spec_Name :: string
  RequiresEnv :: bool
  HasApplyID :: bool
  SupportsDB :: bool
  SupportsAutoConfirm :: bool
  SupportsSkipRevert :: bool
  SupportsDeferCutover :: bool
  SupportsAllowUnsafe :: bool
  SupportsForce :: bool
  SupportsVolumeLevel :: bool

definition spec :: "string \<Rightarrow> CommandSpec" where
  "spec name = \<lparr>spec_Name = name, RequiresEnv = False, HasApplyID = False, SupportsDB = False, SupportsAutoConfirm = False,
     SupportsSkipRevert = False, SupportsDeferCutover = False, SupportsAllowUnsafe = False, SupportsForce = False,
     SupportsVolumeLevel = False\<rparr>"

definition commandSpecs :: "CommandSpec list" where
  "commandSpecs =
    [spec ''help'',
     (spec ''plan'')\<lparr>RequiresEnv := True, SupportsDB := True\<rparr>,
     (spec ''apply'')\<lparr>RequiresEnv := True, SupportsDB := True, SupportsSkipRevert := True, SupportsDeferCutover := True,
       SupportsAllowUnsafe := True, SupportsAutoConfirm := True\<rparr>,
     (spec ''apply-confirm'')\<lparr>RequiresEnv := True, SupportsDB := True, SupportsSkipRevert := True, SupportsDeferCutover := True,
       SupportsAllowUnsafe := True\<rparr>,
     (spec ''unlock'')\<lparr>SupportsDB := True, SupportsForce := True\<rparr>,
     (spec ''fix-lint'')\<lparr>SupportsDB := True\<rparr>,
     (spec ''stop'')\<lparr>RequiresEnv := True, HasApplyID := True\<rparr>,
     (spec ''cancel'')\<lparr>RequiresEnv := True, HasApplyID := True\<rparr>,
     (spec ''start'')\<lparr>RequiresEnv := True, HasApplyID := True\<rparr>,
     (spec ''release'')\<lparr>RequiresEnv := True, HasApplyID := True\<rparr>,
     (spec ''revert'')\<lparr>RequiresEnv := True, HasApplyID := True\<rparr>,
     (spec ''skip-revert'')\<lparr>RequiresEnv := True, HasApplyID := True\<rparr>,
     (spec ''cutover'')\<lparr>RequiresEnv := True, HasApplyID := True\<rparr>,
     (spec ''volume'')\<lparr>RequiresEnv := True, HasApplyID := True, SupportsVolumeLevel := True\<rparr>,
     (spec ''rollback'')\<lparr>RequiresEnv := True, HasApplyID := True\<rparr>,
     (spec ''rollback-confirm'')\<lparr>RequiresEnv := True, SupportsDeferCutover := True\<rparr>]"

definition specByName :: "string \<Rightarrow> CommandSpec option" where
  "specByName name = find (\<lambda>s. spec_Name s = name) commandSpecs"

definition commandSupportsDatabaseFlag :: "string \<Rightarrow> bool" where
  "commandSupportsDatabaseFlag actionName = (case specByName actionName of None \<Rightarrow> False | Some s \<Rightarrow> SupportsDB s)"

text \<open>Longer names first; names of the same length are never prefixes of one another.\<close>

definition commandNamePattern :: regex where
  "commandNamePattern = alts (map (\<lambda>s. lit (spec_Name s)) (rev (sort_key (\<lambda>s. length (spec_Name s)) commandSpecs)))"

section \<open>The expressions\<close>

definition upto3 :: regex where
  "upto3 = opt (Seq (Cls (\<lambda>x. x = CHR 0x20)) (opt (Seq (Cls (\<lambda>x. x = CHR 0x20)) (opt (Cls (\<lambda>x. x = CHR 0x20))))))"

definition commandRegex :: regex where
  "commandRegex = Seq Bol (Seq upto3 (Seq (lit ''schemabot'') (Seq (some_of (Cls blank)) (Seq (Group commandNamePattern) WordB))))"

definition mentionRegex :: regex where
  "mentionRegex = Seq Bol (Seq upto3 (Seq (lit ''schemabot'') (Alt (some_of (Cls blank)) Eol)))"

definition helpRegex :: regex where
  "helpRegex = Seq Bol (Seq upto3 (Seq (lit ''schemabot'') (Seq (some_of (Cls blank)) (Seq (lit ''help'') WordB))))"

definition hex_class :: "char \<Rightarrow> bool" where
  "hex_class x \<longleftrightarrow> to_lower_char x \<in> set ''abcdef0123456789''"

definition applyIDRegex :: regex where
  "applyIDRegex = Seq WordB (Seq (Group (Seq (lit ''apply'') (Seq (Cls (\<lambda>x. x = CHR ''_'' \<or> x = CHR ''-'')) (some_of (Cls hex_class))))) WordB)"

definition environmentRegex :: regex where
  "environmentRegex = Seq (lit ''-e'') (Seq (some_of (Cls white))
     (Group (Seq (Cls (\<lambda>x. x \<noteq> CHR ''-'' \<and> \<not> white x)) (Star (Cls (\<lambda>x. \<not> white x))))))"

definition env_start :: "char \<Rightarrow> bool" where
  "env_start x \<longleftrightarrow> x \<in> set lower_chars \<or> x \<in> set ''0123456789''"

definition env_char :: "char \<Rightarrow> bool" where
  "env_char x \<longleftrightarrow> env_start x \<or> x = CHR ''_''"

definition environmentNameRegex :: regex where
  "environmentNameRegex = Seq Bot (Seq (Cls env_start) (Seq (Star (Cls env_char))
     (Seq (Star (Seq (Cls (\<lambda>x. x = CHR ''-'')) (some_of (Cls env_char)))) Eot)))"

definition name_char :: "char \<Rightarrow> bool" where
  "name_char x \<longleftrightarrow> alnum x \<or> x = CHR ''_'' \<or> x = CHR ''-''"

definition databaseRegex :: regex where
  "databaseRegex = Seq (lit ''-d'') (Seq (some_of (Cls white)) (Group (some_of (Cls name_char))))"

definition tenantRegex :: regex where
  "tenantRegex = Seq Bot (Seq (Cls alnum) (Seq (Star (Cls name_char)) Eot))"

definition tenantFlagRegex :: regex where
  "tenantFlagRegex = Seq (Alt Bot (Cls white)) (Seq (Alt (lit ''--tenant'') (lit ''-t''))
     (opt (Seq (some_of (Cls blank)) (Group (some_of (Cls (\<lambda>x. \<not> white x)))))))"

definition flagRegex :: "string \<Rightarrow> regex" where
  "flagRegex flag = Seq (lit flag) WordB"

definition skipRevertRegex :: regex where "skipRevertRegex = flagRegex ''--skip-revert''"
definition deferCutoverRegex :: regex where "deferCutoverRegex = flagRegex ''--defer-cutover''"
definition allowUnsafeRegex :: regex where "allowUnsafeRegex = flagRegex ''--allow-unsafe''"
definition forceRegex :: regex where "forceRegex = flagRegex ''--force''"
definition autoConfirmRegex :: regex where "autoConfirmRegex = Alt (flagRegex ''--yes'') (flagRegex ''-y'')"

definition volumeFlagRegex :: regex where
  "volumeFlagRegex = Seq (Alt Bot (Cls white)) (Seq (Alt (lit ''--volume'') (lit ''-v''))
     (Seq (opt (Seq (some_of (Cls blank)) (Group (some_of (Cls (\<lambda>x. \<not> white x)))))) (Alt (Cls white) Eot)))"

section \<open>Parsing\<close>

record CommandResult =
  cmd_Action :: string
  cmd_ApplyID :: string
  cmd_Environment :: string
  cmd_Database :: string
  cmd_Tenant :: string
  cmd_TenantError :: bool
  cmd_SkipRevert :: bool
  cmd_DeferCutover :: bool
  cmd_AllowUnsafe :: bool
  cmd_Force :: bool
  cmd_AutoConfirm :: bool
  cmd_VolumeLevel :: int
  cmd_VolumeLevelError :: bool
  cmd_Found :: bool
  cmd_IsHelp :: bool
  cmd_IsMention :: bool
  cmd_MissingEnv :: bool
  cmd_EnvironmentError :: bool

definition no_command :: CommandResult where
  "no_command = \<lparr>cmd_Action = '''', cmd_ApplyID = '''', cmd_Environment = '''', cmd_Database = '''', cmd_Tenant = '''',
     cmd_TenantError = False, cmd_SkipRevert = False, cmd_DeferCutover = False, cmd_AllowUnsafe = False, cmd_Force = False,
     cmd_AutoConfirm = False, cmd_VolumeLevel = 0, cmd_VolumeLevelError = False, cmd_Found = False, cmd_IsHelp = False,
     cmd_IsMention = False, cmd_MissingEnv = False, cmd_EnvironmentError = False\<rparr>"

definition extractTenant :: "string \<Rightarrow> string \<times> bool" where
  "extractTenant body =
    (case FindStringSubmatch tenantFlagRegex body of
       None \<Rightarrow> ('''', False)
     | Some t \<Rightarrow> if t = '''' \<or> \<not> MatchString tenantRegex t then ('''', True) else (t, False))"

definition extractVolumeLevel :: "string \<Rightarrow> int \<times> bool" where
  "extractVolumeLevel body =
    (case FindStringSubmatch volumeFlagRegex body of
       None \<Rightarrow> (0, False)
     | Some v \<Rightarrow> if v = '''' then (0, True) else (case ParseInt 32 v of Inl e \<Rightarrow> (0, True) | Inr level \<Rightarrow> (level, False)))"

definition submatch :: "regex \<Rightarrow> string \<Rightarrow> string" where
  "submatch r s = (case FindStringSubmatch r s of None \<Rightarrow> '''' | Some t \<Rightarrow> t)"

definition env_of :: "string \<Rightarrow> string \<times> bool" where
  "env_of body =
    (case FindStringSubmatch environmentRegex body of
       None \<Rightarrow> ('''', False)
     | Some v \<Rightarrow> if MatchString environmentNameRegex (ToLower v) then (ToLower v, False) else ('''', True))"

definition applySpec :: "CommandSpec \<Rightarrow> string \<Rightarrow> string \<Rightarrow> bool \<Rightarrow> CommandResult" where
  "applySpec s body tenant tenantErr =
    (let (environment, environmentError) = env_of body;
         (level, levelError) = (if SupportsVolumeLevel s then extractVolumeLevel body else (0, False)) in
     no_command\<lparr>cmd_Action := spec_Name s, cmd_Tenant := tenant, cmd_TenantError := tenantErr, cmd_IsMention := True,
       cmd_ApplyID := (if HasApplyID s then submatch applyIDRegex body else ''''),
       cmd_Database := (if SupportsDB s then submatch databaseRegex body else ''''),
       cmd_SkipRevert := SupportsSkipRevert s \<and> MatchString skipRevertRegex body,
       cmd_DeferCutover := SupportsDeferCutover s \<and> MatchString deferCutoverRegex body,
       cmd_AllowUnsafe := SupportsAllowUnsafe s \<and> MatchString allowUnsafeRegex body,
       cmd_Force := SupportsForce s \<and> MatchString forceRegex body,
       cmd_AutoConfirm := SupportsAutoConfirm s \<and> MatchString autoConfirmRegex body,
       cmd_VolumeLevel := level, cmd_VolumeLevelError := levelError,
       cmd_Environment := environment, cmd_EnvironmentError := environmentError,
       cmd_Found := environmentError \<or> \<not> RequiresEnv s \<or> environment \<noteq> '''',
       cmd_MissingEnv := \<not> environmentError \<and> RequiresEnv s \<and> environment = ''''\<rparr>)"

text \<open>\<^verbatim>\<open>strings.Lines\<close>: every line with its newline.\<close>

fun Lines :: "string \<Rightarrow> string list" where
  "Lines [] = []"
| "Lines (ch # s) =
    (if ch = CHR 0x0A then [ch] # Lines s
     else (case Lines s of [] \<Rightarrow> [[ch]] | l # ls \<Rightarrow> (ch # l) # ls))"

definition TrimEOL :: "string \<Rightarrow> string" where
  "TrimEOL s = rev (dropWhile (\<lambda>x. x = CHR 0x0A \<or> x = CHR 0x0D) (rev s))"

definition isMarkdownFence :: "string \<Rightarrow> bool" where
  "isMarkdownFence line \<longleftrightarrow> HasPrefix line ''```'' \<or> HasPrefix line ''~~~''"

definition fence_line :: "string \<Rightarrow> bool" where
  "fence_line line \<longleftrightarrow> length (takeWhile (\<lambda>x. x = CHR 0x20) line) \<le> 3 \<and> isMarkdownFence (dropWhile (\<lambda>x. x = CHR 0x20) line)"

definition code_line :: "string \<Rightarrow> bool" where
  "code_line line \<longleftrightarrow> HasPrefix line ''    '' \<or> HasPrefix line [CHR 0x09]"

fun directive_lines :: "bool \<Rightarrow> string list \<Rightarrow> string list" where
  "directive_lines inFence [] = []"
| "directive_lines inFence (line # ls) =
    (if fence_line line then directive_lines (\<not> inFence) ls
     else if inFence \<or> code_line line then directive_lines inFence ls
     else line # directive_lines inFence ls)"

definition markdownDirectiveText :: "string \<Rightarrow> string" where
  "markdownDirectiveText body = concat (directive_lines False (Lines body))"

definition firstDirectiveLine :: "string \<Rightarrow> string option" where
  "firstDirectiveLine body = find (MatchString mentionRegex) (map TrimEOL (Lines body))"

definition parse_directive :: "string \<Rightarrow> CommandResult" where
  "parse_directive directive =
    (let (tenant, tenantErr) = extractTenant directive in
     if MatchString helpRegex directive
     then no_command\<lparr>cmd_Action := ''help'', cmd_Tenant := tenant, cmd_TenantError := tenantErr, cmd_IsHelp := True, cmd_IsMention := True\<rparr>
     else
       (case FindStringSubmatch commandRegex directive of
          None \<Rightarrow> no_command\<lparr>cmd_Tenant := tenant, cmd_TenantError := tenantErr, cmd_IsMention := True\<rparr>
        | Some name \<Rightarrow>
            (case specByName (ToLower name) of
               None \<Rightarrow> no_command\<lparr>cmd_Tenant := tenant, cmd_TenantError := tenantErr, cmd_IsMention := True\<rparr>
             | Some s \<Rightarrow> applySpec s directive tenant tenantErr)))"

definition ParseCommand :: "string \<Rightarrow> CommandResult" where
  "ParseCommand body =
    (case firstDirectiveLine (markdownDirectiveText body) of
       None \<Rightarrow> no_command
     | Some directive \<Rightarrow> parse_directive directive)"

definition HasAutoConfirmFlag :: "string \<Rightarrow> bool" where "HasAutoConfirmFlag body = MatchString autoConfirmRegex body"
definition HasDatabaseFlag :: "string \<Rightarrow> bool" where "HasDatabaseFlag body = MatchString databaseRegex body"
definition HasDeferCutoverFlag :: "string \<Rightarrow> bool" where "HasDeferCutoverFlag body = MatchString deferCutoverRegex body"

section \<open>The environment of a command\<close>

text \<open>A group of one character and then all that follow of a class.\<close>

lemma group_token:
  assumes "matches (Group (Seq (Cls A) (Star (Cls B)))) p = q # qs"
  shows "\<exists>ch rest. p_rest p = ch # rest \<and> A ch \<and> p_cap q = Some (ch # takeWhile B rest) \<and> p_rest q = dropWhile B rest"
proof (cases "p_rest p")
  case (Cons ch rest)
  show ?thesis
  proof (cases "A ch")
    case True
    let ?p = "p\<lparr>p_prev := Some ch, p_rest := rest\<rparr>"
    obtain q' qs' where star: "matches (Star (Cls B)) ?p = q' # qs'" "p_rest q' = dropWhile B rest"
      using star_class_head[of B ?p] by auto
    have "matches (Group (Seq (Cls A) (Star (Cls B)))) p =
        map (\<lambda>q. q\<lparr>p_cap := Some (take (length (p_rest p) - length (p_rest q)) (p_rest p))\<rparr>) (matches (Star (Cls B)) ?p)"
      using Cons True by (simp del: matches.simps(5))
    then have q: "q = q'\<lparr>p_cap := Some (take (length (p_rest p) - length (p_rest q')) (p_rest p))\<rparr>" using assms star(1) by simp
    have "length rest = length (takeWhile B rest) + length (dropWhile B rest)"
      using takeWhile_dropWhile_id[of B rest] by (metis length_append)
    then have "take (length (p_rest p) - length (p_rest q')) (p_rest p) = ch # takeWhile B rest"
      using Cons star(2) by (simp add: takeWhile_eq_take[symmetric] Suc_diff_le)
    then show ?thesis using Cons True q star(2) by simp
  qed (use assms Cons in simp)
qed (use assms in simp)

lemma environment_token:
  assumes "FindStringSubmatch environmentRegex body = Some tok"
  shows "\<exists>pre flag gap post. body = pre @ flag @ gap @ tok @ post \<and> ToLower flag = ''-e'' \<and> gap \<noteq> [] \<and> list_all white gap \<and>
    tok \<noteq> [] \<and> list_all (\<lambda>x. \<not> white x) tok \<and> (post = [] \<or> white (hd post))"
proof -
  from assms obtain q where "search environmentRegex None body = Some q" and tok: "tok = (case p_cap q of None \<Rightarrow> '''' | Some t \<Rightarrow> t)"
    by (auto simp: FindStringSubmatch_def split: option.splits)
  from search_Some[OF this(1)] obtain pre prev s qs where body: "body = pre @ s"
    and "matches environmentRegex \<lparr>p_prev = prev, p_rest = s, p_cap = None\<rparr> = q # qs" by blast
  then obtain p1 where p1: "p1 \<in> set (matches (lit ''-e'') \<lparr>p_prev = prev, p_rest = s, p_cap = None\<rparr>)"
    and "\<exists>zs. matches (Seq (some_of (Cls white)) (Group (Seq (Cls (\<lambda>x. x \<noteq> CHR ''-'' \<and> \<not> white x)) (Star (Cls (\<lambda>x. \<not> white x)))))) p1 = q # zs"
    unfolding environmentRegex_def matches.simps(3)[of "lit _"] by (blast dest: concat_map_head)
  then obtain p2 where p2: "p2 \<in> set (matches (some_of (Cls white)) p1)"
    and "\<exists>zs. matches (Group (Seq (Cls (\<lambda>x. x \<noteq> CHR ''-'' \<and> \<not> white x)) (Star (Cls (\<lambda>x. \<not> white x))))) p2 = q # zs"
    unfolding matches.simps(3)[of "some_of _"] by (blast dest: concat_map_head)
  with group_token obtain ch rest where p2r: "p_rest p2 = ch # rest" "\<not> white ch"
    and cap: "p_cap q = Some (ch # takeWhile (\<lambda>x. \<not> white x) rest)" by blast
  obtain flag where flag: "flag \<in> lang (lit ''-e'')" "s = flag @ p_rest p1" using matches_lang[OF p1] by auto
  then have low: "ToLower flag = ''-e''" using lang_lit[OF flag(1)] by (simp add: go_eval to_lower_char_def lower_chars_def upper_chars_def)
  obtain gap where gap: "gap \<noteq> []" "list_all white gap" "p_rest p1 = gap @ p_rest p2"
    using matches_lang[OF p2] unfolding lang_some_class by blast
  let ?post = "dropWhile (\<lambda>x. \<not> white x) rest"
  have tok': "tok = ch # takeWhile (\<lambda>x. \<not> white x) rest" using tok cap by simp
  have "p_rest p2 = tok @ ?post" using p2r tok' by simp
  moreover have "list_all (\<lambda>x. \<not> white x) tok" using p2r(2) tok' by (auto simp: list_all_iff dest: set_takeWhileD)
  moreover have "?post = [] \<or> white (hd ?post)" using hd_dropWhile[of "\<lambda>x. \<not> white x" rest] by blast
  ultimately show ?thesis using body flag(2) low gap tok'
    by (intro exI[of _ pre] exI[of _ flag] exI[of _ gap] exI[of _ ?post]) simp
qed

text \<open>The names the grammar of environments allows: words joined by single dashes.\<close>

definition env_name :: "string \<Rightarrow> bool" where
  "env_name s \<longleftrightarrow> (\<exists>x w ws. s = x # w @ concat (map (Cons (CHR ''-'')) ws) \<and> env_start x \<and> list_all env_char w \<and>
     list_all (\<lambda>v. v \<noteq> [] \<and> list_all env_char v) ws)"

lemma reps_words:
  "w \<in> reps (lang (Seq (Cls (\<lambda>x. x = CHR ''-'')) (some_of (Cls P)))) \<Longrightarrow>
    \<exists>ws. w = concat (map (Cons (CHR ''-'')) ws) \<and> list_all (\<lambda>v. v \<noteq> [] \<and> list_all P v) ws"
proof (induction rule: reps.induct)
  case reps_nil
  then show ?case by (intro exI[of _ "[]"]) simp
next
  case (reps_more v w)
  then obtain ws where ws: "w = concat (map (Cons (CHR ''-'')) ws)" "list_all (\<lambda>v. v \<noteq> [] \<and> list_all P v) ws" by blast
  from reps_more(1) obtain u where "v = CHR ''-'' # u" "u \<noteq> []" "list_all P u" unfolding lang.simps(3) lang_some_class by auto
  with ws show ?case by (intro exI[of _ "u # ws"]) simp
qed

lemma environment_name_sound: "MatchString environmentNameRegex s \<Longrightarrow> env_name s"
proof -
  assume "MatchString environmentNameRegex s"
  then have "s \<in> lang (Seq (Cls env_start) (Seq (Star (Cls env_char)) (Seq (Star (Seq (Cls (\<lambda>x. x = CHR ''-'')) (some_of (Cls env_char)))) Eot)))"
    unfolding environmentNameRegex_def by (rule MatchString_whole) simp
  then obtain x w ws where s: "s = x @ w @ ws" "x \<in> lang (Cls env_start)" "w \<in> reps (lang (Cls env_char))"
    "ws \<in> reps (lang (Seq (Cls (\<lambda>x. x = CHR ''-'')) (some_of (Cls env_char))))"
    unfolding lang.simps(3)[of _ "Seq _ _"] lang.simps(3)[of _ Eot] lang.simps(5,10) by auto
  from reps_words[OF s(4)] obtain vs where "ws = concat (map (Cons (CHR ''-'')) vs)" "list_all (\<lambda>v. v \<noteq> [] \<and> list_all env_char v) vs" by blast
  moreover obtain y where "x = [y]" "env_start y" using s(2) by auto
  ultimately show ?thesis using s(1,3) unfolding lang_class_star env_name_def
    by (intro exI[of _ y] exI[of _ w] exI[of _ vs]) simp
qed

lemma applySpec_environment: "cmd_Environment (applySpec s body tenant e) = fst (env_of body)"
  and applySpec_error: "cmd_EnvironmentError (applySpec s body tenant e) = snd (env_of body)"
  by (simp_all add: applySpec_def Let_def case_prod_unfold)

lemma parse_environment:
  assumes "cmd_Environment (ParseCommand body) = env" and "env \<noteq> ''''"
  shows "\<exists>line. firstDirectiveLine (markdownDirectiveText body) = Some line \<and> fst (env_of line) = env"
proof (cases "firstDirectiveLine (markdownDirectiveText body)")
  case None
  then show ?thesis using assms by (simp add: ParseCommand_def no_command_def)
next
  case (Some line)
  then have "cmd_Environment (parse_directive line) = env" using assms(1) by (simp add: ParseCommand_def)
  then show ?thesis using assms(2) Some
    by (auto simp: parse_directive_def no_command_def applySpec_environment split: prod.splits if_splits option.splits)
qed

text \<open>
  Further fact.  When a comment is read as a command for an environment, the environment is a whole word
  of the directive that follows the \<open>-e\<close> flag, without regard to case, and it is a well-formed name: a
  flag that is glued to the name is never split off, and nothing but the name is dropped.
\<close>

theorem environment_is_whole_word:
  assumes "cmd_Environment (ParseCommand body) = env" and "env \<noteq> ''''"
  shows "env_name env \<and> (\<exists>line pre flag gap tok post.
    firstDirectiveLine (markdownDirectiveText body) = Some line \<and> line = pre @ flag @ gap @ tok @ post \<and>
    ToLower flag = ''-e'' \<and> gap \<noteq> [] \<and> list_all white gap \<and> list_all (\<lambda>x. \<not> white x) tok \<and>
    (post = [] \<or> white (hd post)) \<and> env = ToLower tok)"
proof -
  obtain line where line: "firstDirectiveLine (markdownDirectiveText body) = Some line" "fst (env_of line) = env"
    using parse_environment[OF assms] by blast
  then obtain tok where tok: "FindStringSubmatch environmentRegex line = Some tok" "MatchString environmentNameRegex (ToLower tok)" "env = ToLower tok"
    using assms(2) by (auto simp: env_of_def split: option.splits if_splits)
  then show ?thesis using environment_name_sound[OF tok(2)] environment_token[OF tok(1)] line(1) by blast
qed

theorem environment_is_whole_word_witness:
  "env_name ''pre-prod_2'' \<and>
   cmd_Environment (ParseCommand ''notes'' ) = '''' \<and>
   cmd_Environment (ParseCommand ''  Schemabot apply -E Pre-Prod_2 -d orders'') = ''pre-prod_2''"
proof -
  have run: "cmd_Environment (ParseCommand ''  Schemabot apply -E Pre-Prod_2 -d orders'') = ''pre-prod_2''" by code_simp
  moreover have "cmd_Environment (ParseCommand ''notes'') = ''''" by code_simp
  ultimately show ?thesis using environment_is_whole_word[OF run] by simp
qed

section \<open>Flags\<close>

lemma specByName_mem: "specByName name = Some s \<Longrightarrow> s \<in> set commandSpecs"
  unfolding specByName_def by (rule conjunct1[OF find_SomeD])

lemma spec_flags:
  "list_all (\<lambda>s. (SupportsAutoConfirm s \<longrightarrow> spec_Name s = ''apply'') \<and> (SupportsForce s \<longrightarrow> spec_Name s = ''unlock'') \<and>
     (SupportsAllowUnsafe s \<longrightarrow> spec_Name s \<in> {''apply'', ''apply-confirm''})) commandSpecs"
  by code_simp

lemma parse_cases:
  assumes "P no_command" and "\<And>tenant e. P (no_command\<lparr>cmd_Tenant := tenant, cmd_TenantError := e, cmd_IsMention := True\<rparr>)"
    and "\<And>tenant e. P (no_command\<lparr>cmd_Action := ''help'', cmd_Tenant := tenant, cmd_TenantError := e, cmd_IsHelp := True, cmd_IsMention := True\<rparr>)"
    and "\<And>s line tenant e. s \<in> set commandSpecs \<Longrightarrow> P (applySpec s line tenant e)"
  shows "P (ParseCommand body)"
  unfolding ParseCommand_def parse_directive_def Let_def
  using assms by (auto dest: specByName_mem split: option.split prod.split)

text \<open>A flag counts only for the commands that declare it, and a command never runs with a missing or malformed environment.\<close>

theorem flags_need_support:
  "let r = ParseCommand body in
    (cmd_AutoConfirm r \<longrightarrow> cmd_Action r = ''apply'') \<and> (cmd_Force r \<longrightarrow> cmd_Action r = ''unlock'') \<and>
    (cmd_AllowUnsafe r \<longrightarrow> cmd_Action r \<in> {''apply'', ''apply-confirm''}) \<and>
    (cmd_EnvironmentError r \<longrightarrow> cmd_Environment r = '''' \<and> \<not> cmd_MissingEnv r) \<and> \<not> (cmd_Found r \<and> cmd_MissingEnv r)"
proof (rule parse_cases)
  fix s line tenant e
  assume s: "s \<in> set commandSpecs"
  have err: "snd (env_of line) \<Longrightarrow> fst (env_of line) = ''''" by (auto simp: env_of_def split: option.splits if_splits)
  have "(SupportsAutoConfirm s \<longrightarrow> spec_Name s = ''apply'') \<and> (SupportsForce s \<longrightarrow> spec_Name s = ''unlock'') \<and>
    (SupportsAllowUnsafe s \<longrightarrow> spec_Name s \<in> {''apply'', ''apply-confirm''})" using s spec_flags unfolding list_all_iff by blast
  then show "let r = applySpec s line tenant e in
    (cmd_AutoConfirm r \<longrightarrow> cmd_Action r = ''apply'') \<and> (cmd_Force r \<longrightarrow> cmd_Action r = ''unlock'') \<and>
    (cmd_AllowUnsafe r \<longrightarrow> cmd_Action r \<in> {''apply'', ''apply-confirm''}) \<and>
    (cmd_EnvironmentError r \<longrightarrow> cmd_Environment r = '''' \<and> \<not> cmd_MissingEnv r) \<and> \<not> (cmd_Found r \<and> cmd_MissingEnv r)"
    using err unfolding applySpec_def Let_def case_prod_unfold by (cases "snd (env_of line)") simp_all
qed (simp_all add: no_command_def)

section \<open>Code is never a command\<close>

text \<open>The lines of a comment outside of fenced and indented code, by the number of fences before them.\<close>

definition visible :: "string list \<Rightarrow> nat \<Rightarrow> bool" where
  "visible ls i \<longleftrightarrow> \<not> fence_line (ls ! i) \<and> \<not> code_line (ls ! i) \<and> even (length (filter fence_line (take i ls)))"

lemma directive_lines_visible:
  "directive_lines inFence ls = map ((!) ls) (filter (\<lambda>i. \<not> fence_line (ls ! i) \<and> \<not> code_line (ls ! i) \<and>
     (even (length (filter fence_line (take i ls))) \<longleftrightarrow> \<not> inFence)) [0..<length ls])"
proof (induction inFence ls rule: directive_lines.induct)
  case (2 inFence line ls)
  have shift: "map ((!) (line # ls)) (filter P (map Suc [0..<length ls])) = map ((!) ls) (filter (\<lambda>i. P (Suc i)) [0..<length ls])" for P
    by (simp add: filter_map comp_def)
  show ?case
    unfolding length_Cons upt_conv_Cons[OF zero_less_Suc] map_Suc_upt[symmetric]
    using 2 by (cases "fence_line line"; cases "inFence \<or> code_line line") (simp_all add: shift; metis (no_types, lifting))+
qed simp

text \<open>Lists of lines as \<^verbatim>\<open>strings.Lines\<close> gives them: only the last may lack its newline.\<close>

fun line_list :: "string list \<Rightarrow> bool" where
  "line_list [] \<longleftrightarrow> True"
| "line_list [l] \<longleftrightarrow> l \<noteq> [] \<and> CHR 0x0A \<notin> set (butlast l)"
| "line_list (l # ls) \<longleftrightarrow> l \<noteq> [] \<and> last l = CHR 0x0A \<and> CHR 0x0A \<notin> set (butlast l) \<and> line_list ls"

lemma line_list_Cons: "line_list (l # ls) \<longleftrightarrow> l \<noteq> [] \<and> CHR 0x0A \<notin> set (butlast l) \<and> (ls \<noteq> [] \<longrightarrow> last l = CHR 0x0A) \<and> line_list ls"
  by (cases ls) auto

lemma Lines_line: "CHR 0x0A \<notin> set w \<Longrightarrow> Lines (w @ CHR 0x0A # s) = (w @ [CHR 0x0A]) # Lines s"
  by (induction w) auto

lemma Lines_last: "CHR 0x0A \<notin> set w \<Longrightarrow> w \<noteq> [] \<Longrightarrow> Lines w = [w]"
proof (induction w)
  case (Cons ch w)
  then show ?case by (cases "w = []") auto
qed simp

lemma Lines_concat: "line_list ls \<Longrightarrow> Lines (concat ls) = ls"
proof (induction ls)
  case (Cons l ls)
  then have l: "l = butlast l @ [last l]" "CHR 0x0A \<notin> set (butlast l)" by (simp_all add: line_list_Cons)
  show ?case
  proof (cases "last l = CHR 0x0A")
    case True
    then have "concat (l # ls) = butlast l @ CHR 0x0A # concat ls" using l(1) by (metis append.assoc append_Cons append_Nil concat.simps(2))
    then show ?thesis using Lines_line[OF l(2), of "concat ls"] Cons l True by (metis line_list_Cons)
  next
    case False
    then have "ls = []" using Cons.prems by (auto simp: line_list_Cons)
    moreover have "set l = insert (last l) (set (butlast l))" by (subst l(1)) simp
    then have "CHR 0x0A \<notin> set l" using False l(2) by simp
    ultimately show ?thesis using Cons.prems Lines_last[of l] by (simp add: line_list_Cons)
  qed
qed simp

lemma line_list_Lines: "line_list (Lines s)"
proof (induction s)
  case (Cons ch s)
  then show ?case by (cases "Lines s") (auto simp: line_list_Cons split: if_splits)
qed simp

lemma line_list_directives: "line_list ls \<Longrightarrow> line_list (directive_lines inFence ls)"
proof (induction inFence ls rule: directive_lines.induct)
  case (2 inFence line ls)
  have "directive_lines inFence ls \<noteq> [] \<Longrightarrow> ls \<noteq> []" by auto
  then show ?case using 2 by (auto simp: line_list_Cons)
qed simp

text \<open>
  Further fact (equivalence).  A comment is read from its first visible line that addresses the bot: the loop over the
  text with its fence flag selects exactly the lines that are no fence, not indented as code, and have
  an even number of fences before them.
\<close>

theorem command_from_visible_line:
  "ParseCommand body =
    (let ls = Lines body in
     case find (MatchString mentionRegex) (map (\<lambda>i. TrimEOL (ls ! i)) (filter (visible ls) [0..<length ls])) of
       None \<Rightarrow> no_command
     | Some directive \<Rightarrow> parse_directive directive)"
proof -
  have "Lines (markdownDirectiveText body) = directive_lines False (Lines body)"
    unfolding markdownDirectiveText_def by (intro Lines_concat line_list_directives line_list_Lines)
  then have "firstDirectiveLine (markdownDirectiveText body) =
      find (MatchString mentionRegex) (map TrimEOL (map ((!) (Lines body)) (filter (visible (Lines body)) [0..<length (Lines body)])))"
    unfolding firstDirectiveLine_def directive_lines_visible[of False] visible_def by simp
  then show ?thesis by (simp add: ParseCommand_def Let_def comp_def)
qed

end

