(* ===== verification/Aggregate_Config.thy ===== *)
theory Aggregate_Config
  imports Source_Policy
begin

text \<open>
  The roles of a deployment in a shared aggregate check (\<^verbatim>\<open>pkg/api/aggregate_config.go\<close>) and the GitHub App of a
  repository (\<^verbatim>\<open>pkg/api/config.go\<close>): one leader folds the check runs of the participants a pull request
  touches, decided by the directories of its changed files.
\<close>

section \<open>Roles\<close>

abbreviation AggregateRoleLeader :: string where "AggregateRoleLeader \<equiv> ''leader''"
abbreviation AggregateRoleParticipant :: string where "AggregateRoleParticipant \<equiv> ''participant''"

definition isLeader :: "AggregateConfig option \<Rightarrow> bool" where
  "isLeader a = (case a of None \<Rightarrow> False | Some agg \<Rightarrow> agg_Role agg = AggregateRoleLeader)"

definition AggregateRoleForRepo :: "ServerConfig option \<Rightarrow> string \<Rightarrow> string" where
  "AggregateRoleForRepo config repo =
    (case config of
       None \<Rightarrow> ''''
     | Some c \<Rightarrow>
         (case map_of (Repos c) repo of
            None \<Rightarrow> ''''
          | Some rc \<Rightarrow> (case repo_Aggregate rc of None \<Rightarrow> '''' | Some agg \<Rightarrow> agg_Role agg)))"

definition IsAggregateLeaderForRepo :: "ServerConfig option \<Rightarrow> string \<Rightarrow> bool" where
  "IsAggregateLeaderForRepo config repo \<longleftrightarrow> AggregateRoleForRepo config repo = AggregateRoleLeader"

definition anyPathCovered :: "string list \<Rightarrow> string list \<Rightarrow> bool" where
  "anyPathCovered dirs changedFiles = list_ex (schemaPathAllowed dirs) changedFiles"

definition ExpectedParticipantChecksForPR :: "ServerConfig option \<Rightarrow> string \<Rightarrow> string list \<Rightarrow> ExpectedTenant list" where
  "ExpectedParticipantChecksForPR config repo changedFiles =
    (case config of
       None \<Rightarrow> []
     | Some c \<Rightarrow>
         (case map_of (Repos c) repo of
            None \<Rightarrow> []
          | Some rc \<Rightarrow>
              if \<not> isLeader (repo_Aggregate rc) then []
              else
                (case repo_Aggregate rc of
                   None \<Rightarrow> []
                 | Some agg \<Rightarrow> filter (\<lambda>t. anyPathCovered (et_Paths t) changedFiles) (agg_ExpectedTenants agg))))"

definition ExpectedTenantsForPR :: "ServerConfig option \<Rightarrow> string \<Rightarrow> string list \<Rightarrow> string list" where
  "ExpectedTenantsForPR config repo changedFiles = map et_Tenant (ExpectedParticipantChecksForPR config repo changedFiles)"

section \<open>Validation\<close>

fun validate_tenants :: "string \<Rightarrow> string list \<Rightarrow> ExpectedTenant list \<Rightarrow> err option" where
  "validate_tenants repo seen [] = None"
| "validate_tenants repo seen (t # ts) =
    (let name = TrimSpace (et_Tenant t) in
     if name = '''' then Some (Errorf ''aggregate.expected_tenants contains an entry with an empty tenant'')
     else if name \<in> set seen then Some (Errorf ''aggregate.expected_tenants contains duplicate tenant'')
     else if TrimSpace (et_CheckName t) = '''' then Some (Errorf ''check_name is required'')
     else if et_Paths t = [] then Some (Errorf ''paths is empty'')
     else if list_ex (\<lambda>p. isl (normalizeSchemaPath p)) (et_Paths t) then Some (Errorf ''paths contains invalid value'')
     else validate_tenants repo (name # seen) ts)"

definition validateAggregateConfig :: "string \<Rightarrow> AggregateConfig option \<Rightarrow> err option" where
  "validateAggregateConfig repo config =
    (case config of
       None \<Rightarrow> None
     | Some agg \<Rightarrow>
         if agg_Role agg = '''' then Some (Errorf ''aggregate.role is required'')
         else if agg_Role agg \<notin> {AggregateRoleLeader, AggregateRoleParticipant} then Some (Errorf ''aggregate.role is invalid'')
         else if agg_Role agg = AggregateRoleParticipant
         then (if agg_ExpectedTenants agg \<noteq> [] then Some (Errorf ''aggregate.expected_tenants must be empty'') else None)
         else if agg_ExpectedTenants agg = [] then Some (Errorf ''aggregate.expected_tenants is required'')
         else validate_tenants repo [] (agg_ExpectedTenants agg))"

lemma validate_tenants_paths:
  "validate_tenants repo seen ts = None \<Longrightarrow> t \<in> set ts \<Longrightarrow> et_Paths t \<noteq> [] \<and> (\<forall>p\<in>set (et_Paths t). confined p)"
proof (induction ts arbitrary: seen)
  case (Cons u ts)
  have "confined p" if "\<not> isl (normalizeSchemaPath p)" for p
    using that normalizeSchemaPath_exact[of p] by (cases "normalizeSchemaPath p") auto
  with Cons show ?case by (auto simp: Let_def list_ex_iff split: if_splits)
qed simp

text \<open>
  Further fact (the participants of a pull request).  For a leader whose configuration was validated, a tenant is
  expected to report exactly when one of the changed files stays inside the repository and lies, by
  components, in one of the tenant's directories.
\<close>

theorem expected_participants_exact:
  assumes "map_of (Repos c) repo = Some rc" and "repo_Aggregate rc = Some agg" and "agg_Role agg = AggregateRoleLeader"
    and "validateAggregateConfig repo (Some agg) = None"
  shows "t \<in> set (ExpectedParticipantChecksForPR (Some c) repo changedFiles) \<longleftrightarrow>
    t \<in> set (agg_ExpectedTenants agg) \<and>
    (\<exists>file\<in>set changedFiles. confined file \<and> (\<exists>dir\<in>set (et_Paths t). covers dir file))"
proof -
  have "\<forall>p\<in>set (et_Paths t). confined p" if "t \<in> set (agg_ExpectedTenants agg)"
    using assms(3,4) validate_tenants_paths[of repo "[]" _ t] that
    by (auto simp: validateAggregateConfig_def split: if_splits)
  then show ?thesis using assms(1-3) schemaPathAllowed_confined[of "et_Paths t"]
    by (auto simp: ExpectedParticipantChecksForPR_def isLeader_def anyPathCovered_def list_ex_iff)
qed

section \<open>The GitHub App of a repository\<close>

definition ResolveGitHubAppForRepo :: "ServerConfig option \<Rightarrow> string \<Rightarrow> err + string \<times> GitHubConfig" where
  "ResolveGitHubAppForRepo config repo =
    (case config of
       None \<Rightarrow> Inl (Errorf ''server config is nil'')
     | Some c \<Rightarrow>
         if Apps c \<noteq> [] then
           (case map_of (Repos c) repo of
              None \<Rightarrow> Inl (Errorf ''repository is not declared in the repos config'')
            | Some rc \<Rightarrow>
                if repo_GitHubApp rc = '''' then Inl (Errorf ''repository is missing github_app'')
                else
                  (case map_of (Apps c) (repo_GitHubApp rc) of
                     None \<Rightarrow> Inl (Errorf ''repository references unknown github_app'')
                   | Some appCfg \<Rightarrow> Inr (repo_GitHubApp rc, appCfg)))
         else if \<not> gh_Configured (GitHub c) then Inl (Errorf ''no GitHub App is configured'')
         else Inr (''default'', GitHub c))"

definition TrustedCheckAppSlugsForRepo :: "ServerConfig option \<Rightarrow> string \<Rightarrow> string list" where
  "TrustedCheckAppSlugsForRepo config repo =
    (case ResolveGitHubAppForRepo config repo of Inl e \<Rightarrow> [] | Inr (name, app) \<Rightarrow> gh_TrustedCheckAppSlugs app)"

end
