(* ===== verification/Webhook_Inbox.thy ===== *)
theory Webhook_Inbox
  imports Sql_Store
begin

text \<open>
  The durable webhook inbox: the event store (\<^verbatim>\<open>pkg/storage/mysqlstore/webhook_events.go\<close>) and what a
  driver does with a claimed delivery (\<^verbatim>\<open>pkg/webhook/durable_dispatch.go\<close>).  Drivers, deliveries and the
  reconciler form a state machine over the table and the claims that were handed out; its invariant
  says that no delivery is ever wedged.  A lease token is a fresh UUID; provider and delivery are
  compared under the collation \<open>ci\<close>, tokens are lower-case and compared as they are.  \<open>clock\<close> is the
  application's clock in seconds.
\<close>

section \<open>Statements\<close>

definition we_key :: "(string \<Rightarrow> string) \<Rightarrow> WebhookEvent \<Rightarrow> string \<times> string" where
  "we_key ci r = (ci (we_Provider r), ci (we_DeliveryID r))"

definition update_events :: "(db \<Rightarrow> WebhookEvent \<Rightarrow> bool) \<Rightarrow> (db \<Rightarrow> WebhookEvent \<Rightarrow> WebhookEvent) \<Rightarrow> statement" where
  "update_events P f d =
    Inr (d\<lparr>webhook_events := sql_update (P d) (f d) (webhook_events d)\<rparr>,
         rows_changed (P d) (f d) (webhook_events d))"

definition insert_event :: "(string \<Rightarrow> string) \<Rightarrow> WebhookEvent \<Rightarrow> statement" where
  "insert_event ci row d =
    (if list_ex (\<lambda>r. we_key ci r = we_key ci row) (webhook_events d) then Inl duplicate_entry
     else Inr (d\<lparr>webhook_events := webhook_events d @
                  [row\<lparr>we_ID := webhook_events_next d, we_CreatedAt := now d, we_UpdatedAt := now d\<rparr>],
                 webhook_events_next := webhook_events_next d + 1\<rparr>, webhook_events_next d))"

text \<open>\<^verbatim>\<open>lease_expires_at <= NOW(6)\<close>.\<close>

definition lease_expired :: "db \<Rightarrow> WebhookEvent \<Rightarrow> bool" where
  "lease_expired d r = (case we_LeaseExpiresAt r of None \<Rightarrow> False | Some t \<Rightarrow> t \<le> NOW6 d)"

definition clear_lease :: "WebhookEvent \<Rightarrow> WebhookEvent" where
  "clear_lease r = r\<lparr>we_LeaseOwner := '''', we_LeaseToken := None, we_LeaseExpiresAt := None, we_RetryAfter := None\<rparr>"

definition normal_provider :: "string \<Rightarrow> string" where
  "normal_provider provider = (if provider = '''' then WebhookProviderGitHub else provider)"

section \<open>Receiving a delivery\<close>

text \<open>The rows a redelivery reopens, and the row it makes of them.\<close>

definition reopenable :: "(string \<Rightarrow> string) \<Rightarrow> string \<Rightarrow> string \<Rightarrow> db \<Rightarrow> WebhookEvent \<Rightarrow> bool" where
  "reopenable ci provider deliveryID d r \<longleftrightarrow>
    we_key ci r = (ci provider, ci deliveryID) \<and>
    (we_State r \<in> {WebhookEventFailed, WebhookEventCompleted} \<or>
     (we_State r = WebhookEventProcessing \<and> lease_expired d r))"

definition reopen_event :: "string \<Rightarrow> int \<Rightarrow> db \<Rightarrow> WebhookEvent \<Rightarrow> WebhookEvent" where
  "reopen_event payload receivedAt d r = (clear_lease r)\<lparr>we_State := WebhookEventPending, we_Attempts := 0,
     we_Payload := payload, we_ReceivedAt := receivedAt, we_CompletedAt := None, we_StartedAt := None,
     we_UpdatedAt := now d\<rparr>"

definition reopenTerminalWebhookEvent ::
  "(string \<Rightarrow> string) \<Rightarrow> string \<Rightarrow> string \<Rightarrow> string \<Rightarrow> int \<Rightarrow> bool prog" where
  "reopenTerminalWebhookEvent ci provider deliveryID payload receivedAt =
    do {
      r \<leftarrow> ExecContext (update_events (reopenable ci provider deliveryID) (reopen_event payload receivedAt));
      case r of
        Inl e \<Rightarrow> State_Monad.return (Inl (Wrapped ''reopen webhook delivery for redelivery'' e))
      | Inr rows \<Rightarrow> State_Monad.return (Inr (rows > 0))
    }"

text \<open>The row that is inserted for an event; a zero receipt time means now.\<close>

definition new_event :: "int \<Rightarrow> WebhookEvent \<Rightarrow> WebhookEvent" where
  "new_event clock event = (clear_lease event)\<lparr>we_Provider := normal_provider (we_Provider event),
     we_Payload := nullJSON (we_Payload event), we_State := WebhookEventPending, we_LastError := '''',
     we_ReceivedAt := (if we_ReceivedAt event = 0 then clock else we_ReceivedAt event),
     we_StartedAt := None, we_CompletedAt := None\<rparr>"

definition Event_Create :: "(string \<Rightarrow> string) \<Rightarrow> int \<Rightarrow> WebhookEvent \<Rightarrow> bool prog" where
  "Event_Create ci clock event =
    (if we_DeliveryID event = '''' then State_Monad.return (Inl (Errorf ''webhook delivery ID is required''))
     else if we_Event event = '''' then State_Monad.return (Inl (Errorf ''webhook event type is required''))
     else if we_State event \<notin> {'''', WebhookEventPending}
     then State_Monad.return (Inl (Errorf ''create webhook event: new deliveries must be pending''))
     else
       do {
         r \<leftarrow> ExecContext (insert_event ci (new_event clock event));
         case r of
           Inl e \<Rightarrow>
             if isDuplicateKeyError e
             then reopenTerminalWebhookEvent ci (normal_provider (we_Provider event)) (we_DeliveryID event)
               (nullJSON (we_Payload event)) (we_ReceivedAt (new_event clock event))
             else State_Monad.return (Inl (Wrapped ''insert webhook event'' e))
         | Inr i \<Rightarrow> State_Monad.return (Inr True)
       })"

definition GetByDeliveryID :: "(string \<Rightarrow> string) \<Rightarrow> string \<Rightarrow> string \<Rightarrow> WebhookEvent option prog" where
  "GetByDeliveryID ci provider deliveryID = QueryContext (\<lambda>d.
     find (\<lambda>r. we_key ci r = (ci (normal_provider provider), ci deliveryID)) (webhook_events d))"

definition HasEventForHead :: "(string \<Rightarrow> string) \<Rightarrow> string \<Rightarrow> string \<Rightarrow> int \<Rightarrow> string \<Rightarrow> bool prog" where
  "HasEventForHead ci provider repository pullRequest headSHA =
    (if repository = '''' \<or> pullRequest = 0 \<or> headSHA = ''''
     then State_Monad.return (Inl (Errorf ''repository, pull request, and head SHA are required''))
     else QueryContext (\<lambda>d. list_ex (\<lambda>r. ci (we_Provider r) = ci (normal_provider provider) \<and>
       ci (we_Repository r) = ci repository \<and> we_PullRequest r = pullRequest \<and> ci (we_HeadSHA r) = ci headSHA)
       (webhook_events d)))"

section \<open>Claiming\<close>

definition webhookClaimable :: "db \<Rightarrow> WebhookEvent \<Rightarrow> bool" where
  "webhookClaimable d r \<longleftrightarrow>
    we_State r = WebhookEventPending \<or>
    (we_State r = WebhookEventFailedRetryable \<and>
     (case we_RetryAfter r of None \<Rightarrow> True | Some t \<Rightarrow> t \<le> now d) \<and> we_Attempts r < MaxWebhookEventAttempts) \<or>
    (we_State r = WebhookEventProcessing \<and> lease_expired d r \<and> we_Attempts r < MaxWebhookEventAttempts)"

text \<open>The first row by creation time, then id.\<close>

definition event_before :: "WebhookEvent \<Rightarrow> WebhookEvent \<Rightarrow> bool" where
  "event_before a b \<longleftrightarrow> we_CreatedAt a < we_CreatedAt b \<or> (we_CreatedAt a = we_CreatedAt b \<and> we_ID a \<le> we_ID b)"

fun first_event :: "WebhookEvent list \<Rightarrow> WebhookEvent option" where
  "first_event [] = None"
| "first_event (r # rs) =
    (case first_event rs of None \<Rightarrow> Some r | Some m \<Rightarrow> if event_before r m then Some r else Some m)"

definition claim_event :: "string \<Rightarrow> string \<Rightarrow> int \<Rightarrow> db \<Rightarrow> WebhookEvent \<Rightarrow> WebhookEvent" where
  "claim_event owner leaseToken leaseDuration d r = r\<lparr>we_State := WebhookEventProcessing,
     we_Attempts := we_Attempts r + 1, we_LeaseOwner := owner, we_LeaseToken := Some leaseToken,
     we_LeaseExpiresAt := Some (NOW6 d + leaseDuration), we_RetryAfter := None,
     we_StartedAt := COALESCE (we_StartedAt r) (now d), we_UpdatedAt := now d\<rparr>"

definition undo_update_event :: "int \<Rightarrow> db \<Rightarrow> db \<Rightarrow> db" where
  "undo_update_event i old d =
    d\<lparr>webhook_events := map (\<lambda>r. if we_ID r = i
        then (case find (\<lambda>q. we_ID q = i) (webhook_events old) of Some q \<Rightarrow> q | None \<Rightarrow> r)
        else r) (webhook_events d)\<rparr>"

text \<open>
  \<open>locked\<close> are the rows other transactions hold, which \<^verbatim>\<open>SKIP LOCKED\<close> passes over; \<open>leaseDuration\<close> is in
  microseconds.
\<close>

definition find_next_tx :: "(int \<Rightarrow> bool) \<Rightarrow> int \<Rightarrow> string \<Rightarrow> string \<Rightarrow> int \<Rightarrow> WebhookEvent option prog" where
  "find_next_tx locked clock owner leaseToken leaseDuration =
    do {
      q \<leftarrow> QueryContext (\<lambda>d. first_event (filter (\<lambda>r. webhookClaimable d r \<and> \<not> locked (we_ID r)) (webhook_events d)));
      case q of
        Inl e \<Rightarrow> State_Monad.return (Inl (Wrapped ''query next claimable webhook event'' e))
      | Inr None \<Rightarrow> State_Monad.return (Inr None)
      | Inr (Some event) \<Rightarrow>
          do {
            u \<leftarrow> tx_ExecContext (undo_update_event (we_ID event))
              (update_events (\<lambda>d r. we_ID r = we_ID event) (claim_event owner leaseToken leaseDuration));
            case u of
              Inl e \<Rightarrow> State_Monad.return (Inl (Wrapped ''claim webhook event'' e))
            | Inr _ \<Rightarrow>
                do {
                  c \<leftarrow> Commit;
                  case c of
                    Inl e \<Rightarrow> State_Monad.return (Inl (Wrapped ''commit claim webhook event'' e))
                  | Inr _ \<Rightarrow> State_Monad.return (Inr (Some (event\<lparr>we_State := WebhookEventProcessing,
                      we_Attempts := we_Attempts event + 1, we_LeaseOwner := owner, we_LeaseToken := Some leaseToken,
                      we_LeaseExpiresAt := Some (clock * 1000000 + leaseDuration), we_RetryAfter := None,
                      we_StartedAt := COALESCE (we_StartedAt event) clock, we_UpdatedAt := clock\<rparr>)))
                }
          }
    }"

definition FindNext :: "(int \<Rightarrow> bool) \<Rightarrow> int \<Rightarrow> string \<Rightarrow> string \<Rightarrow> int \<Rightarrow> WebhookEvent option prog" where
  "FindNext locked clock owner leaseToken leaseDuration =
    (if owner = '''' then State_Monad.return (Inl (Errorf ''webhook driver owner is required''))
     else if leaseDuration \<le> 0 then State_Monad.return (Inl (Errorf ''webhook lease duration must be positive''))
     else
       do {
         b \<leftarrow> BeginTx;
         case b of
           Inl e \<Rightarrow> State_Monad.return (Inl (Wrapped ''begin claim webhook event transaction'' e))
         | Inr _ \<Rightarrow> defer_rollback (find_next_tx locked clock owner leaseToken leaseDuration)
       })"

section \<open>Writing under a lease\<close>

definition checkWebhookEventLeaseResult :: "int \<Rightarrow> int \<Rightarrow> string \<Rightarrow> unit prog" where
  "checkWebhookEventLeaseResult rows i leaseToken =
    (if rows > 0 then State_Monad.return (Inr ())
     else
       do {
         q \<leftarrow> QueryContext (\<lambda>d. map_option we_LeaseToken (find (\<lambda>r. we_ID r = i) (webhook_events d)));
         case q of
           Inl e \<Rightarrow> State_Monad.return (Inl (Wrapped ''verify webhook event lease token'' e))
         | Inr None \<Rightarrow> State_Monad.return (Inl ErrWebhookEventNotFound)
         | Inr (Some currentToken) \<Rightarrow>
             if currentToken = Some leaseToken then State_Monad.return (Inr ())
             else State_Monad.return (Inl ErrWebhookEventLeaseLost)
       })"

text \<open>An UPDATE of the row with the given id and lease token, and what its row count means.\<close>

definition leased_write :: "string \<Rightarrow> int \<Rightarrow> string \<Rightarrow> (db \<Rightarrow> WebhookEvent \<Rightarrow> WebhookEvent) \<Rightarrow> unit prog" where
  "leased_write msg i leaseToken f =
    do {
      r \<leftarrow> ExecContext (update_events (\<lambda>d r. we_ID r = i \<and> we_LeaseToken r = Some leaseToken) f);
      case r of
        Inl e \<Rightarrow> State_Monad.return (Inl (Wrapped msg e))
      | Inr rows \<Rightarrow> checkWebhookEventLeaseResult rows i leaseToken
    }"

definition Event_Heartbeat :: "int \<Rightarrow> string \<Rightarrow> int \<Rightarrow> unit prog" where
  "Event_Heartbeat i leaseToken leaseDuration =
    (if leaseToken = '''' then State_Monad.return (Inl (Errorf ''webhook event lease token is required''))
     else if leaseDuration \<le> 0 then State_Monad.return (Inl (Errorf ''webhook lease duration must be positive''))
     else leased_write ''heartbeat webhook event'' i leaseToken
       (\<lambda>d r. r\<lparr>we_LeaseExpiresAt := Some (NOW6 d + leaseDuration), we_UpdatedAt := now d\<rparr>))"

definition Event_MarkCompleted :: "int \<Rightarrow> string \<Rightarrow> unit prog" where
  "Event_MarkCompleted i leaseToken = leased_write ''mark webhook event completed'' i leaseToken
     (\<lambda>d r. r\<lparr>we_State := WebhookEventCompleted, we_CompletedAt := COALESCE (we_CompletedAt r) (now d),
              we_UpdatedAt := now d\<rparr>)"

definition Event_MarkFailed :: "int \<Rightarrow> string \<Rightarrow> string \<Rightarrow> int option \<Rightarrow> unit prog" where
  "Event_MarkFailed i leaseToken errMsg retryAfter = leased_write ''mark webhook event failed'' i leaseToken
     (\<lambda>d r. r\<lparr>we_State := (if retryAfter \<noteq> None then WebhookEventFailedRetryable else WebhookEventFailed),
              we_LastError := errMsg, we_RetryAfter := retryAfter,
              we_CompletedAt := (if retryAfter = None then COALESCE (we_CompletedAt r) (now d) else we_CompletedAt r),
              we_UpdatedAt := now d\<rparr>)"

definition Event_Release :: "int \<Rightarrow> string \<Rightarrow> unit prog" where
  "Event_Release i leaseToken = leased_write ''release webhook event'' i leaseToken
     (\<lambda>d r. (clear_lease r)\<lparr>we_State := WebhookEventPending,
              we_StartedAt := (if we_Attempts r \<le> 1 then None else we_StartedAt r),
              we_Attempts := max (we_Attempts r - 1) 0, we_UpdatedAt := now d\<rparr>)"

definition stuck_processing :: "db \<Rightarrow> WebhookEvent \<Rightarrow> bool" where
  "stuck_processing d r \<longleftrightarrow>
    we_State r = WebhookEventProcessing \<and> lease_expired d r \<and> we_Attempts r \<ge> MaxWebhookEventAttempts"

definition TerminateStuckProcessing :: "string \<Rightarrow> int prog" where
  "TerminateStuckProcessing reason =
    do {
      r \<leftarrow> ExecContext (update_events stuck_processing
        (\<lambda>d r. (clear_lease r)\<lparr>we_State := WebhookEventFailed, we_LastError := reason,
           we_CompletedAt := COALESCE (we_CompletedAt r) (now d), we_UpdatedAt := now d\<rparr>));
      case r of
        Inl e \<Rightarrow> State_Monad.return (Inl (Wrapped ''terminate stuck processing webhook events'' e))
      | Inr rows \<Rightarrow> State_Monad.return (Inr rows)
    }"

section \<open>Finishing a claimed delivery\<close>

text \<open>
  The end of \<^verbatim>\<open>driveClaimedDurableWebhook\<close>: \<open>processErr\<close> is the error of processing with its retry flag,
  \<open>heartbeatErr\<close> whether the heartbeat lost the lease, \<open>cancelled\<close> whether the driver is shutting down, and
  \<open>due\<close> the time of a retry.  Errors of the write are logged only.
\<close>

definition finish_delivery ::
  "WebhookEvent \<Rightarrow> (string \<times> bool) option \<Rightarrow> bool \<Rightarrow> bool \<Rightarrow> int \<Rightarrow> unit prog" where
  "finish_delivery event processErr heartbeatErr cancelled due =
    (case we_LeaseToken event of
       None \<Rightarrow> State_Monad.return (Inr ())
     | Some token \<Rightarrow>
         (case processErr of
            Some (msg, retry) \<Rightarrow>
              if \<not> heartbeatErr \<and> cancelled then Event_Release (we_ID event) token
              else Event_MarkFailed (we_ID event) token msg
                (if retry \<and> we_Attempts event < MaxWebhookEventAttempts then Some due else None)
          | None \<Rightarrow>
              if heartbeatErr then State_Monad.return (Inr ())
              else Event_MarkCompleted (we_ID event) token))"


section \<open>The state machine\<close>

text \<open>The table with the deliveries that were handed out so far.\<close>

type_synonym inbox = "db \<times> WebhookEvent set"

text \<open>
  The steps: other sessions move the clock and touch other tables; a delivery arrives; a redelivery
  reopens a row (also on its own, since other steps may fall between the INSERT that fails and the
  UPDATE); a driver claims, with a token never used before; it extends its lease; it finishes; the
  reconciler sweeps.
\<close>

definition tokens :: "inbox \<Rightarrow> string set" where
  "tokens s = {t. \<exists>r\<in>set (webhook_events (fst s)) \<union> snd s. we_LeaseToken r = Some t}"

inductive inbox_step :: "(string \<Rightarrow> string) \<Rightarrow> inbox \<Rightarrow> inbox \<Rightarrow> bool" for ci where
  other: "NOW6 d \<le> NOW6 d' \<Longrightarrow> webhook_events d' = webhook_events d \<Longrightarrow>
    webhook_events_next d' = webhook_events_next d \<Longrightarrow> inbox_step ci (d, cs) (d', cs)"
| create: "run_state (Event_Create ci clock event) (quiet d) = (res, quiet d') \<Longrightarrow> we_Attempts event = 0 \<Longrightarrow>
    inbox_step ci (d, cs) (d', cs)"
| reopen: "run_state (reopenTerminalWebhookEvent ci provider deliveryID payload receivedAt) (quiet d) = (res, quiet d') \<Longrightarrow>
    inbox_step ci (d, cs) (d', cs)"
| claim: "run_state (FindNext locked clock owner token leaseDuration) (quiet d) = (Inr (Some event), quiet d') \<Longrightarrow>
    token \<notin> tokens (d, cs) \<Longrightarrow> inbox_step ci (d, cs) (d', insert event cs)"
| heartbeat: "event \<in> cs \<Longrightarrow> we_LeaseToken event = Some token \<Longrightarrow>
    run_state (Event_Heartbeat (we_ID event) token leaseDuration) (quiet d) = (res, quiet d') \<Longrightarrow>
    inbox_step ci (d, cs) (d', cs)"
| finish: "event \<in> cs \<Longrightarrow>
    run_state (finish_delivery event processErr heartbeatErr cancelled due) (quiet d) = (res, quiet d') \<Longrightarrow>
    inbox_step ci (d, cs) (d', cs)"
| sweep: "run_state (TerminateStuckProcessing reason) (quiet d) = (res', quiet d') \<Longrightarrow> inbox_step ci (d, cs) (d', cs)"

inductive inbox_reachable :: "(string \<Rightarrow> string) \<Rightarrow> inbox \<Rightarrow> bool" for ci where
  start: "webhook_events d = [] \<Longrightarrow> inbox_reachable ci (d, {})"
| step: "inbox_reachable ci s \<Longrightarrow> inbox_step ci s s' \<Longrightarrow> inbox_reachable ci s'"

definition event_ok :: "WebhookEvent \<Rightarrow> bool" where
  "event_ok r \<longleftrightarrow>
    we_State r \<in> set WebhookEventStatesAll \<and> 0 \<le> we_Attempts r \<and> we_Attempts r \<le> MaxWebhookEventAttempts \<and>
    (we_State r = WebhookEventPending \<longrightarrow> we_Attempts r < MaxWebhookEventAttempts) \<and>
    (we_State r = WebhookEventFailedRetryable \<longrightarrow> we_Attempts r < MaxWebhookEventAttempts) \<and>
    (we_State r = WebhookEventProcessing \<longrightarrow> we_LeaseToken r \<noteq> None \<and> we_LeaseExpiresAt r \<noteq> None)"

definition claims_ok :: "WebhookEvent list \<Rightarrow> WebhookEvent set \<Rightarrow> bool" where
  "claims_ok rs cs \<longleftrightarrow>
    inj_on we_LeaseToken cs \<and>
    (\<forall>ev\<in>cs. we_LeaseToken ev \<noteq> None \<and>
      (\<forall>r\<in>set rs. we_ID r = we_ID ev \<and> we_LeaseToken r = we_LeaseToken ev \<longrightarrow> we_Attempts r = we_Attempts ev))"

definition inbox_ok :: "(string \<Rightarrow> string) \<Rightarrow> inbox \<Rightarrow> bool" where
  "inbox_ok ci s =
    (case s of (d, cs) \<Rightarrow>
       distinct (map (we_key ci) (webhook_events d)) \<and> distinct (map we_ID (webhook_events d)) \<and>
       (\<forall>r\<in>set (webhook_events d). we_ID r < webhook_events_next d \<and> event_ok r) \<and>
       claims_ok (webhook_events d) cs)"

section \<open>Lemmas\<close>

lemma first_event_min:
  "first_event rs = Some r \<Longrightarrow> r \<in> set rs \<and> (\<forall>q\<in>set rs. event_before r q)"
proof (induction rs arbitrary: r)
  case (Cons a rs)
  show ?case
  proof (cases "first_event rs")
    case None
    then have "rs = []" by (cases rs) (auto split: option.splits if_splits)
    with Cons.prems show ?thesis by (simp add: event_before_def)
  next
    case (Some m)
    with Cons show ?thesis by (auto simp: event_before_def split: if_splits)
  qed
qed simp

lemma first_event_None: "first_event rs = None \<longleftrightarrow> rs = []"
  by (cases rs) (auto split: option.splits if_splits)

text \<open>An UPDATE that keeps keys, and keeps the attempts of every row whose lease it keeps.\<close>

lemma inbox_update:
  assumes "inbox_ok ci (d, cs)"
    and "\<And>r. r \<in> set (webhook_events d) \<Longrightarrow> P r \<Longrightarrow>
      event_ok (f r) \<and> we_key ci (f r) = we_key ci r \<and> we_ID (f r) = we_ID r \<and>
      (we_LeaseToken (f r) = None \<or> (we_LeaseToken (f r) = we_LeaseToken r \<and> we_Attempts (f r) = we_Attempts r))"
  shows "inbox_ok ci (d\<lparr>webhook_events := sql_update P f (webhook_events d)\<rparr>, cs)"
proof -
  let ?g = "\<lambda>r. if P r then f r else r"
  have rows: "sql_update P f (webhook_events d) = map ?g (webhook_events d)" by (simp add: sql_update_def)
  have keys: "map (we_key ci) (map ?g (webhook_events d)) = map (we_key ci) (webhook_events d)"
    and ids: "map we_ID (map ?g (webhook_events d)) = map we_ID (webhook_events d)"
    using assms(2) by (auto simp: map_eq_conv)
  have "claims_ok (map ?g (webhook_events d)) cs"
    using assms by (auto simp: claims_ok_def inbox_ok_def) (metis not_None_eq)+
  moreover have "\<forall>r\<in>set (map ?g (webhook_events d)). we_ID r < webhook_events_next d \<and> event_ok r"
    using assms by (auto simp: inbox_ok_def)
  ultimately show ?thesis
    using assms(1) by (simp add: inbox_ok_def rows keys ids del: map_map)
qed

lemma run_lease_result:
  "\<exists>res. run_state (checkWebhookEventLeaseResult rows i t) (quiet d) = (res, quiet d)"
  by (auto simp: checkWebhookEventLeaseResult_def split: option.splits)

lemma run_leased_write:
  "\<exists>res. run_state (leased_write msg i t f) (quiet d) = (res, quiet (d\<lparr>webhook_events :=
     sql_update (\<lambda>r. we_ID r = i \<and> we_LeaseToken r = Some t) (f d) (webhook_events d)\<rparr>))"
  using run_lease_result by (auto simp: leased_write_def update_events_def)

lemma run_find_next:
  assumes "owner \<noteq> ''''" and "0 < leaseDuration"
  shows "run_state (FindNext locked clock owner token leaseDuration) (quiet d) =
    (case first_event (filter (\<lambda>r. webhookClaimable d r \<and> \<not> locked (we_ID r)) (webhook_events d)) of
       None \<Rightarrow> (Inr None, quiet d)
     | Some event \<Rightarrow> (Inr (Some (event\<lparr>we_State := WebhookEventProcessing,
            we_Attempts := we_Attempts event + 1, we_LeaseOwner := owner, we_LeaseToken := Some token,
            we_LeaseExpiresAt := Some (clock * 1000000 + leaseDuration), we_RetryAfter := None,
            we_StartedAt := COALESCE (we_StartedAt event) clock, we_UpdatedAt := clock\<rparr>)),
          quiet (d\<lparr>webhook_events := sql_update (\<lambda>r. we_ID r = we_ID event) (claim_event owner token leaseDuration d)
            (webhook_events d)\<rparr>)))"
  using assms by (simp add: FindNext_def find_next_tx_def update_events_def split: option.split)

section \<open>The invariant\<close>

declare quiet_inject [simp]


lemma inbox_leased_write:
  assumes "inbox_ok ci (d, cs)" and "run_state (leased_write msg i t f) (quiet d) = (res, quiet d')"
    and "\<And>r. r \<in> set (webhook_events d) \<Longrightarrow> we_ID r = i \<Longrightarrow> we_LeaseToken r = Some t \<Longrightarrow>
      event_ok (f d r) \<and> we_key ci (f d r) = we_key ci r \<and> we_ID (f d r) = we_ID r \<and>
      (we_LeaseToken (f d r) = None \<or> (we_LeaseToken (f d r) = we_LeaseToken r \<and> we_Attempts (f d r) = we_Attempts r))"
  shows "inbox_ok ci (d', cs)"
proof -
  have "d' = d\<lparr>webhook_events :=
      sql_update (\<lambda>r. we_ID r = i \<and> we_LeaseToken r = Some t) (f d) (webhook_events d)\<rparr>"
    using run_leased_write[of msg i t f d] assms(2) by auto
  then show ?thesis
    using inbox_update[OF assms(1), of "\<lambda>r. we_ID r = i \<and> we_LeaseToken r = Some t" "f d"] assms(3) by simp
qed

lemma inbox_event_ok: "inbox_ok ci (d, cs) \<Longrightarrow> r \<in> set (webhook_events d) \<Longrightarrow> event_ok r"
  by (simp add: inbox_ok_def)

lemma heartbeat_ok:
  assumes "inbox_ok ci (d, cs)" and "run_state (Event_Heartbeat i t leaseDuration) (quiet d) = (res, quiet d')"
  shows "inbox_ok ci (d', cs)"
proof (cases "t = '''' \<or> leaseDuration \<le> 0")
  case True
  with assms show ?thesis by (auto simp: Event_Heartbeat_def split: if_splits)
next
  case False
  with assms(2) have "run_state (leased_write ''heartbeat webhook event'' i t
      (\<lambda>d r. r\<lparr>we_LeaseExpiresAt := Some (NOW6 d + leaseDuration), we_UpdatedAt := now d\<rparr>)) (quiet d) = (res, quiet d')"
    by (simp add: Event_Heartbeat_def)
  then show ?thesis
    by (rule inbox_leased_write[OF assms(1)]) (auto dest!: inbox_event_ok[OF assms(1)] simp: event_ok_def we_key_def)
qed

lemma release_ok:
  assumes "inbox_ok ci (d, cs)" and "run_state (Event_Release i t) (quiet d) = (res, quiet d')"
  shows "inbox_ok ci (d', cs)"
  by (rule inbox_leased_write[OF assms(1) assms(2)[unfolded Event_Release_def]])
    (auto dest!: inbox_event_ok[OF assms(1)]
      simp: event_ok_def we_key_def clear_lease_def WebhookEventStatesAll_def MaxWebhookEventAttempts_def)

lemma completed_ok:
  assumes "inbox_ok ci (d, cs)" and "run_state (Event_MarkCompleted i t) (quiet d) = (res, quiet d')"
  shows "inbox_ok ci (d', cs)"
  by (rule inbox_leased_write[OF assms(1) assms(2)[unfolded Event_MarkCompleted_def]])
    (auto dest!: inbox_event_ok[OF assms(1)] simp: event_ok_def we_key_def WebhookEventStatesAll_def)

text \<open>A retry is granted on the attempts of the claim, which the row still has.\<close>

lemma failed_ok:
  assumes "inbox_ok ci (d, cs)" and "event \<in> cs" and "we_LeaseToken event = Some t"
    and "retryAfter \<noteq> None \<Longrightarrow> we_Attempts event < MaxWebhookEventAttempts"
    and "run_state (Event_MarkFailed (we_ID event) t msg retryAfter) (quiet d) = (res, quiet d')"
  shows "inbox_ok ci (d', cs)"
proof (rule inbox_leased_write[OF assms(1) assms(5)[unfolded Event_MarkFailed_def]], goal_cases)
  case (1 r)
  have "we_Attempts r = we_Attempts event"
    using assms(1-3) 1 by (auto simp: inbox_ok_def claims_ok_def)
  with inbox_event_ok[OF assms(1) 1(1)] assms(4) show ?case
    by (cases retryAfter) (auto simp: event_ok_def we_key_def WebhookEventStatesAll_def)
qed

lemma finish_ok:
  assumes "inbox_ok ci (d, cs)" and "event \<in> cs"
    and "run_state (finish_delivery event processErr heartbeatErr cancelled due) (quiet d) = (res, quiet d')"
  shows "inbox_ok ci (d', cs)"
proof (cases "we_LeaseToken event")
  case None
  with assms show ?thesis by (simp add: finish_delivery_def)
next
  case (Some t)
  show ?thesis
  proof (cases processErr)
    case None
    with assms Some show ?thesis
      by (auto simp: finish_delivery_def split: if_splits dest: completed_ok)
  next
    case (Some e)
    obtain msg retry where e: "e = (msg, retry)" by (cases e)
    show ?thesis
    proof (cases "\<not> heartbeatErr \<and> cancelled")
      case True
      with assms Some e \<open>we_LeaseToken event = Some t\<close> show ?thesis
        by (auto simp: finish_delivery_def dest: release_ok)
    next
      case False
      with assms(3) Some e \<open>we_LeaseToken event = Some t\<close>
      have "run_state (Event_MarkFailed (we_ID event) t msg
          (if retry \<and> we_Attempts event < MaxWebhookEventAttempts then Some due else None)) (quiet d) = (res, quiet d')"
        by (simp only: finish_delivery_def option.case prod.case if_False)
      then show ?thesis
        by (rule failed_ok[OF assms(1,2) \<open>we_LeaseToken event = Some t\<close>, rotated]) (simp split: if_splits)
    qed
  qed
qed

lemma sweep_ok:
  assumes "inbox_ok ci (d, cs)" and "run_state (TerminateStuckProcessing reason) (quiet d) = (res, quiet d')"
  shows "inbox_ok ci (d', cs)"
proof -
  have "d' = d\<lparr>webhook_events := sql_update (stuck_processing d)
      (\<lambda>r. (clear_lease r)\<lparr>we_State := WebhookEventFailed, we_LastError := reason,
           we_CompletedAt := COALESCE (we_CompletedAt r) (now d), we_UpdatedAt := now d\<rparr>) (webhook_events d)\<rparr>"
    using assms(2) by (simp add: TerminateStuckProcessing_def update_events_def)
  then show ?thesis
    by (auto intro!: inbox_update[OF assms(1)] dest!: inbox_event_ok[OF assms(1)]
        simp: event_ok_def we_key_def clear_lease_def WebhookEventStatesAll_def)
qed

lemma run_reopen:
  "run_state (reopenTerminalWebhookEvent ci provider deliveryID payload receivedAt) (quiet d) =
    (Inr (rows_changed (reopenable ci provider deliveryID d) (reopen_event payload receivedAt d) (webhook_events d) > 0),
     quiet (d\<lparr>webhook_events :=
       sql_update (reopenable ci provider deliveryID d) (reopen_event payload receivedAt d) (webhook_events d)\<rparr>))"
  by (simp add: reopenTerminalWebhookEvent_def update_events_def)

lemma reopen_ok:
  assumes "inbox_ok ci (d, cs)"
    and "run_state (reopenTerminalWebhookEvent ci provider deliveryID payload receivedAt) (quiet d) = (res, quiet d')"
  shows "inbox_ok ci (d', cs)"
  using assms(2)[unfolded run_reopen]
  by (auto intro!: inbox_update[OF assms(1)] simp: event_ok_def we_key_def reopen_event_def clear_lease_def
      WebhookEventStatesAll_def MaxWebhookEventAttempts_def)

lemma run_create:
  assumes "we_DeliveryID event \<noteq> ''''" and "we_Event event \<noteq> ''''" and "we_State event \<in> {'''', WebhookEventPending}"
  shows "run_state (Event_Create ci clock event) (quiet d) =
    (if list_ex (\<lambda>r. we_key ci r = we_key ci (new_event clock event)) (webhook_events d)
     then run_state (reopenTerminalWebhookEvent ci (normal_provider (we_Provider event)) (we_DeliveryID event)
               (nullJSON (we_Payload event)) (we_ReceivedAt (new_event clock event))) (quiet d)
     else (Inr True, quiet (d\<lparr>webhook_events := webhook_events d @
         [(new_event clock event)\<lparr>we_ID := webhook_events_next d, we_CreatedAt := now d, we_UpdatedAt := now d\<rparr>],
         webhook_events_next := webhook_events_next d + 1\<rparr>)))"
  using assms by (simp add: Event_Create_def insert_event_def isDuplicateKeyError_def duplicate_entry_def)

lemma create_ok:
  assumes "inbox_ok ci (d, cs)" and "run_state (Event_Create ci clock event) (quiet d) = (res, quiet d')"
    and "we_Attempts event = 0"
  shows "inbox_ok ci (d', cs)"
proof (cases "we_DeliveryID event = '''' \<or> we_Event event = '''' \<or> we_State event \<notin> {'''', WebhookEventPending}")
  case True
  with assms show ?thesis by (auto simp: Event_Create_def split: if_splits)
next
  case False
  then have run: "we_DeliveryID event \<noteq> ''''" "we_Event event \<noteq> ''''" "we_State event \<in> {'''', WebhookEventPending}"
    by simp_all
  show ?thesis
  proof (cases "list_ex (\<lambda>r. we_key ci r = we_key ci (new_event clock event)) (webhook_events d)")
    case True
    with assms(2) show ?thesis unfolding run_create[OF run] by (simp add: reopen_ok[OF assms(1)])
  next
    case False
    then have fresh: "we_key ci (new_event clock event) \<notin> we_key ci ` set (webhook_events d)"
      by (auto simp: list_ex_iff)
    let ?row = "(new_event clock event)\<lparr>we_ID := webhook_events_next d, we_CreatedAt := now d, we_UpdatedAt := now d\<rparr>"
    have "we_key ci ?row = we_key ci (new_event clock event)" by (simp add: we_key_def)
    moreover have "event_ok ?row" "we_LeaseToken ?row = None"
      using assms(3) by (simp_all add: event_ok_def new_event_def clear_lease_def WebhookEventStatesAll_def MaxWebhookEventAttempts_def)
    moreover have "d' = d\<lparr>webhook_events := webhook_events d @ [?row], webhook_events_next := webhook_events_next d + 1\<rparr>"
      using assms(2) False unfolding run_create[OF run] by simp
    ultimately show ?thesis
      using assms(1) fresh by (auto simp: inbox_ok_def claims_ok_def)
  qed
qed


lemma claimable_attempts:
  "event_ok r \<Longrightarrow> webhookClaimable d r \<Longrightarrow> we_Attempts r < MaxWebhookEventAttempts"
  by (auto simp: webhookClaimable_def event_ok_def)

lemma find_next_claimed:
  assumes "run_state (FindNext locked clock owner token leaseDuration) (quiet d) = (Inr (Some event), quiet d')"
  obtains r where "r \<in> set (webhook_events d)" and "webhookClaimable d r" and "\<not> locked (we_ID r)"
    and "owner \<noteq> ''''" and "0 < leaseDuration"
    and "we_ID event = we_ID r" and "we_Attempts event = we_Attempts r + 1" and "we_LeaseToken event = Some token"
    and "d' = d\<lparr>webhook_events := sql_update (\<lambda>q. we_ID q = we_ID r) (claim_event owner token leaseDuration d) (webhook_events d)\<rparr>"
proof -
  have arg: "owner \<noteq> ''''" "0 < leaseDuration"
    using assms by (auto simp: FindNext_def split: if_splits)
  show ?thesis
  proof (cases "first_event (filter (\<lambda>r. webhookClaimable d r \<and> \<not> locked (we_ID r)) (webhook_events d))")
    case None
    with assms arg show ?thesis by (simp add: run_find_next)
  next
    case (Some r)
    with assms arg first_event_min[OF Some] that[of r] show ?thesis by (auto simp: run_find_next)
  qed
qed

lemma distinct_idD: "distinct (map f xs) \<Longrightarrow> x \<in> set xs \<Longrightarrow> y \<in> set xs \<Longrightarrow> f x = f y \<Longrightarrow> x = y"
  by (auto simp: distinct_map dest: inj_onD)

lemma claim_ok:
  assumes "inbox_ok ci (d, cs)" and "token \<notin> tokens (d, cs)"
    and "run_state (FindNext locked clock owner token leaseDuration) (quiet d) = (Inr (Some event), quiet d')"
  shows "inbox_ok ci (d', insert event cs)"
proof -
  obtain r where r: "r \<in> set (webhook_events d)" "webhookClaimable d r"
    and ev: "we_ID event = we_ID r" "we_Attempts event = we_Attempts r + 1" "we_LeaseToken event = Some token"
    and d': "d' = d\<lparr>webhook_events := sql_update (\<lambda>q. we_ID q = we_ID r) (claim_event owner token leaseDuration d) (webhook_events d)\<rparr>"
    by (rule find_next_claimed[OF assms(3)])
  let ?g = "\<lambda>q. if we_ID q = we_ID r then claim_event owner token leaseDuration d q else q"
  have rows: "webhook_events d' = map ?g (webhook_events d)" and next_id: "webhook_events_next d' = webhook_events_next d"
    by (simp_all add: d' sql_update_def)
  have same: "q = r" if "q \<in> set (webhook_events d)" "we_ID q = we_ID r" for q
    using distinct_idD[of we_ID "webhook_events d" q r] assms(1) r(1) that by (simp add: inbox_ok_def)
  have keys: "map (we_key ci) (map ?g (webhook_events d)) = map (we_key ci) (webhook_events d)"
    and ids: "map we_ID (map ?g (webhook_events d)) = map we_ID (webhook_events d)"
    by (auto simp: claim_event_def we_key_def)
  have "event_ok r" by (rule inbox_event_ok[OF assms(1) r(1)])
  with claimable_attempts[OF this r(2)] have "event_ok (claim_event owner token leaseDuration d r)"
    by (auto simp: event_ok_def claim_event_def WebhookEventStatesAll_def)
  then have "\<forall>q\<in>set (map ?g (webhook_events d)). we_ID q < webhook_events_next d \<and> event_ok q"
    using assms(1) same by (auto simp: inbox_ok_def claim_event_def)
  moreover have "claims_ok (map ?g (webhook_events d)) (insert event cs)"
    using assms(1,2) ev same by (fastforce simp: claims_ok_def inbox_ok_def tokens_def claim_event_def inj_on_def)
  ultimately show ?thesis
    using assms(1) by (simp only: inbox_ok_def rows keys ids next_id prod.case)
qed

lemma inbox_step_ok: "inbox_step ci s s' \<Longrightarrow> inbox_ok ci s \<Longrightarrow> inbox_ok ci s'"
proof (induction rule: inbox_step.induct)
  case (other d d' cs)
  then show ?case by (simp add: inbox_ok_def)
qed (rule create_ok reopen_ok claim_ok heartbeat_ok finish_ok sweep_ok; assumption)+

lemma inbox_reachable_ok: "inbox_reachable ci s \<Longrightarrow> inbox_ok ci s"
proof (induction rule: inbox_reachable.induct)
  case (start d)
  then show ?case by (simp add: inbox_ok_def claims_ok_def)
qed (rule inbox_step_ok)

text \<open>
  Property C25 (the inbox invariant). In every reachable state of the inbox, deliveries are
  unique by provider and delivery id, a delivery waiting to be claimed has attempts left, no delivery has
  more than the maximum of attempts, a delivery in processing has a lease that expires, and no two
  claims carry the same token.
\<close>

theorem inbox_invariant:
  assumes "inbox_reachable ci (d, cs)"
  shows "distinct (map (we_key ci) (webhook_events d)) \<and>
    (\<forall>r\<in>set (webhook_events d).
       we_State r \<in> set WebhookEventStatesAll \<and> we_Attempts r \<in> {0..MaxWebhookEventAttempts} \<and>
       (we_State r \<in> {WebhookEventPending, WebhookEventFailedRetryable} \<longrightarrow> we_Attempts r < MaxWebhookEventAttempts) \<and>
       (we_State r = WebhookEventProcessing \<longrightarrow> we_LeaseToken r \<noteq> None \<and> we_LeaseExpiresAt r \<noteq> None)) \<and>
    inj_on we_LeaseToken cs"
  using inbox_reachable_ok[OF assms] by (auto simp: inbox_ok_def event_ok_def claims_ok_def)

section \<open>Nothing is wedged\<close>

definition webhook_terminal :: "WebhookEvent \<Rightarrow> bool" where
  "webhook_terminal r \<longleftrightarrow> we_State r \<in> {WebhookEventCompleted, WebhookEventFailed}"

lemma webhook_live_or_stuck:
  assumes "event_ok r" and "\<not> webhook_terminal r"
  shows "\<exists>T. \<forall>d. T \<le> now d \<and> T \<le> NOW6 d \<longrightarrow> webhookClaimable d r \<or> stuck_processing d r"
proof -
  let ?T = "max (case we_RetryAfter r of None \<Rightarrow> 0 | Some t \<Rightarrow> t) (case we_LeaseExpiresAt r of None \<Rightarrow> 0 | Some t \<Rightarrow> t)"
  have "webhookClaimable d r \<or> stuck_processing d r" if "?T \<le> now d \<and> ?T \<le> NOW6 d" for d
    using assms that
    by (auto simp: event_ok_def webhook_terminal_def WebhookEventStatesAll_def webhookClaimable_def stuck_processing_def
        lease_expired_def split: option.splits)
  then show ?thesis by blast
qed

lemma eventually_all:
  fixes P :: "'a \<Rightarrow> db \<Rightarrow> bool"
  assumes "\<And>r. r \<in> set rs \<Longrightarrow> \<exists>T. \<forall>d. T \<le> now d \<and> T \<le> NOW6 d \<longrightarrow> P r d"
  shows "\<exists>T. \<forall>d. T \<le> now d \<and> T \<le> NOW6 d \<longrightarrow> (\<forall>r\<in>set rs. P r d)"
  using assms
proof (induction rs)
  case (Cons r rs)
  obtain T where "\<forall>d. T \<le> now d \<and> T \<le> NOW6 d \<longrightarrow> P r d" using Cons.prems[of r] by auto
  moreover obtain T' where "\<forall>d. T' \<le> now d \<and> T' \<le> NOW6 d \<longrightarrow> (\<forall>r\<in>set rs. P r d)"
    using Cons.IH Cons.prems by auto
  ultimately have "\<forall>d. max T T' \<le> now d \<and> max T T' \<le> NOW6 d \<longrightarrow> (\<forall>r\<in>set (r # rs). P r d)" by simp
  then show ?case by blast
qed simp


lemma sweep_terminates:
  assumes "\<forall>r\<in>set rs. \<not> webhook_terminal r \<longrightarrow> webhookClaimable d r \<or> stuck_processing d r" and "webhook_events d = rs"
    and "run_state (TerminateStuckProcessing reason) (quiet d) = (res, quiet d')"
  shows "\<forall>r\<in>set (webhook_events d'). webhook_terminal r \<or> webhookClaimable d' r"
proof -
  have d': "d' = d\<lparr>webhook_events := sql_update (stuck_processing d)
      (\<lambda>r. (clear_lease r)\<lparr>we_State := WebhookEventFailed, we_LastError := reason,
           we_CompletedAt := COALESCE (we_CompletedAt r) (now d), we_UpdatedAt := now d\<rparr>) (webhook_events d)\<rparr>"
    using assms(3) by (simp add: TerminateStuckProcessing_def update_events_def)
  then have "now d' = now d" "NOW6 d' = NOW6 d" by (simp_all add: NOW6_def)
  then have "webhookClaimable d' r = webhookClaimable d r" for r
    by (simp add: webhookClaimable_def lease_expired_def cong: option.case_cong)
  with assms show ?thesis
    by (auto simp: d' sql_update_def webhook_terminal_def clear_lease_def)
qed

text \<open>
  Property C26 (the inbox drains). From every reachable state, once enough time has passed, a sweep of
  the reconciler followed by a driver's request either hands a delivery to the driver or finds every
  delivery completed or failed: a driver that dies, on whatever attempt, wedges nothing.
\<close>

theorem inbox_drains:
  assumes "inbox_reachable ci (d, cs)" and "owner \<noteq> ''''" and "0 < leaseDuration"
  shows "\<exists>T. \<forall>d'. T \<le> now d' \<and> T \<le> NOW6 d' \<and> webhook_events d' = webhook_events d \<longrightarrow>
    (\<exists>rows d1. run_state (TerminateStuckProcessing reason) (quiet d') = (Inr rows, quiet d1) \<and>
      ((\<exists>event d2. run_state (FindNext (\<lambda>_. False) clock owner token leaseDuration) (quiet d1) = (Inr (Some event), quiet d2)) \<or>
       (\<forall>r\<in>set (webhook_events d1). webhook_terminal r)))"
proof -
  have "event_ok r" if "r \<in> set (webhook_events d)" for r
    using inbox_reachable_ok[OF assms(1)] that by (rule inbox_event_ok)
  then have "\<exists>T. \<forall>d'. T \<le> now d' \<and> T \<le> NOW6 d' \<longrightarrow>
      (\<forall>r\<in>set (webhook_events d). \<not> webhook_terminal r \<longrightarrow> webhookClaimable d' r \<or> stuck_processing d' r)"
    by (intro eventually_all) (use webhook_live_or_stuck in blast)
  then obtain T where T: "\<And>d'. T \<le> now d' \<Longrightarrow> T \<le> NOW6 d' \<Longrightarrow>
      \<forall>r\<in>set (webhook_events d). \<not> webhook_terminal r \<longrightarrow> webhookClaimable d' r \<or> stuck_processing d' r" by blast
  show ?thesis
  proof (rule exI[of _ T], intro allI impI, elim conjE)
    fix d'
    assume late: "T \<le> now d'" "T \<le> NOW6 d'" and rows: "webhook_events d' = webhook_events d"
    obtain n d1 where sweep: "run_state (TerminateStuckProcessing reason) (quiet d') = (Inr n, quiet d1)"
      by (simp add: TerminateStuckProcessing_def update_events_def)
    have all: "\<forall>r\<in>set (webhook_events d1). webhook_terminal r \<or> webhookClaimable d1 r"
      by (rule sweep_terminates[OF T[OF late] rows sweep])
    have "(\<exists>event d2. run_state (FindNext (\<lambda>_. False) clock owner token leaseDuration) (quiet d1) = (Inr (Some event), quiet d2)) \<or>
       (\<forall>r\<in>set (webhook_events d1). webhook_terminal r)"
    proof (cases "first_event (filter (\<lambda>r. webhookClaimable d1 r \<and> \<not> False) (webhook_events d1))")
      case None
      with all show ?thesis by (auto simp: first_event_None filter_empty_conv)
    next
      case (Some event)
      with assms(2,3) show ?thesis by (simp add: run_find_next)
    qed
    with sweep show "\<exists>rows d1. run_state (TerminateStuckProcessing reason) (quiet d') = (Inr rows, quiet d1) \<and>
      ((\<exists>event d2. run_state (FindNext (\<lambda>_. False) clock owner token leaseDuration) (quiet d1) = (Inr (Some event), quiet d2)) \<or>
       (\<forall>r\<in>set (webhook_events d1). webhook_terminal r))" by blast
  qed
qed


section \<open>Fencing\<close>

lemma find_event:
  assumes "distinct (map we_ID rs)" and "r \<in> set rs"
  shows "find (\<lambda>q. we_ID q = we_ID r) rs = Some r"
proof (cases "find (\<lambda>q. we_ID q = we_ID r) rs")
  case None
  with assms show ?thesis by (auto simp: find_None_iff_set)
next
  case (Some q)
  with find_SomeD[OF Some] distinct_idD[OF assms(1)] assms(2) show ?thesis by blast
qed

lemma leased_write_held:
  assumes "distinct (map we_ID (webhook_events d))" and "r \<in> set (webhook_events d)" and "we_LeaseToken r = Some t"
  shows "fst (run_state (leased_write msg (we_ID r) t f) (quiet d)) = Inr ()"
proof (cases "rows_changed (\<lambda>q. we_ID q = we_ID r \<and> we_LeaseToken q = Some t) (f d) (webhook_events d) = 0")
  case True
  with assms(3) find_event[OF assms(1,2)] show ?thesis
    by (simp add: leased_write_def update_events_def checkWebhookEventLeaseResult_def sql_update_zero)
next
  case False
  then have "0 < rows_changed (\<lambda>q. we_ID q = we_ID r \<and> we_LeaseToken q = Some t) (f d) (webhook_events d)"
    using rows_changed_nonneg[of _ "f d"] by (simp add: order_less_le)
  then show ?thesis
    by (simp add: leased_write_def update_events_def checkWebhookEventLeaseResult_def)
qed

lemma leased_write_stale:
  assumes "distinct (map we_ID (webhook_events d))" and "r \<in> set (webhook_events d)" and "we_LeaseToken r \<noteq> Some t"
  shows "run_state (leased_write msg (we_ID r) t f) (quiet d) = (Inl ErrWebhookEventLeaseLost, quiet d)"
proof -
  have "rows_changed (\<lambda>q. we_ID q = we_ID r \<and> we_LeaseToken q = Some t) (f d) (webhook_events d) = 0"
    using distinct_idD[OF assms(1)] assms(2,3) by (auto simp: rows_changed_zero_iff)
  with assms(3) find_event[OF assms(1,2)] show ?thesis
    by (simp add: leased_write_def update_events_def checkWebhookEventLeaseResult_def sql_update_zero)
qed

lemma finish_delivery_cases:
  assumes "we_LeaseToken ev = Some t" and "processErr \<noteq> None \<or> \<not> heartbeatErr"
  obtains msg f where "finish_delivery ev processErr heartbeatErr cancelled due = leased_write msg (we_ID ev) t f"
  using assms that
  by (cases processErr; cases "\<not> heartbeatErr \<and> cancelled")
    (auto simp: finish_delivery_def Event_Release_def Event_MarkFailed_def Event_MarkCompleted_def)

text \<open>
  Property C27 (one writer per delivery). Of the claims handed out for a delivery, the one whose
  token the row carries can record its outcome, and every other claim is fenced off: its write is
  refused as a lost lease and its heartbeat fails, and neither changes anything.
\<close>

theorem stale_claim_fenced:
  assumes "inbox_reachable ci (d, cs)" and "ev \<in> cs" and "old \<in> cs" and "old \<noteq> ev" and "we_ID old = we_ID ev"
    and "r \<in> set (webhook_events d)" and "we_ID r = we_ID ev" and "we_LeaseToken r = we_LeaseToken ev"
    and "processErr \<noteq> None \<or> \<not> heartbeatErr"
  shows "fst (run_state (finish_delivery ev processErr heartbeatErr cancelled due) (quiet d)) = Inr () \<and>
    run_state (finish_delivery old processErr heartbeatErr cancelled due) (quiet d) = (Inl ErrWebhookEventLeaseLost, quiet d) \<and>
    (\<exists>e. run_state (Event_Heartbeat (we_ID old) (the (we_LeaseToken old)) leaseDuration) (quiet d) = (Inl e, quiet d))"
proof -
  have ok: "inbox_ok ci (d, cs)" by (rule inbox_reachable_ok[OF assms(1)])
  then have ids: "distinct (map we_ID (webhook_events d))" by (simp add: inbox_ok_def)
  from ok have "inj_on we_LeaseToken cs" and "\<forall>ev\<in>cs. \<exists>t. we_LeaseToken ev = Some t"
    by (simp_all add: inbox_ok_def claims_ok_def)
  with assms(2-4) obtain t u where t: "we_LeaseToken ev = Some t" and u: "we_LeaseToken old = Some u" and "u \<noteq> t"
    by (metis inj_onD)
  have id: "we_ID old = we_ID r" "we_ID ev = we_ID r" using assms(5,7) by simp_all
  have row: "we_LeaseToken r = Some t" "we_LeaseToken r \<noteq> Some u" using assms(8) t \<open>u \<noteq> t\<close> by simp_all
  note stale = leased_write_stale[OF ids assms(6) row(2)]
  obtain msg f where "finish_delivery ev processErr heartbeatErr cancelled due = leased_write msg (we_ID ev) t f"
    by (rule finish_delivery_cases[OF t assms(9)])
  moreover obtain msg' f' where "finish_delivery old processErr heartbeatErr cancelled due = leased_write msg' (we_ID old) u f'"
    by (rule finish_delivery_cases[OF u assms(9)])
  ultimately show ?thesis
    using leased_write_held[OF ids assms(6) row(1)] stale by (simp add: id u Event_Heartbeat_def)
qed


section \<open>Redelivery\<close>

definition in_flight :: "db \<Rightarrow> WebhookEvent \<Rightarrow> bool" where
  "in_flight d r \<longleftrightarrow> we_State r \<in> {WebhookEventPending, WebhookEventFailedRetryable} \<or>
    (we_State r = WebhookEventProcessing \<and> \<not> lease_expired d r)"

lemma not_in_flight:
  "event_ok r \<Longrightarrow> \<not> in_flight d r \<longleftrightarrow>
    we_State r \<in> {WebhookEventFailed, WebhookEventCompleted} \<or> (we_State r = WebhookEventProcessing \<and> lease_expired d r)"
  by (auto simp: event_ok_def in_flight_def WebhookEventStatesAll_def)

text \<open>
  Further fact (redelivery). A delivery that is received again is ignored while its row is
  waiting, retryable or held by a live lease; otherwise (it completed, it failed, or its driver died)
  its row alone goes back to pending with all its attempts, the new payload and no lease.
\<close>

theorem redelivery_exact:
  assumes "inbox_reachable ci (d, cs)" and "r \<in> set (webhook_events d)"
    and "we_key ci r = (ci (normal_provider (we_Provider event)), ci (we_DeliveryID event))"
    and "we_DeliveryID event \<noteq> ''''" and "we_Event event \<noteq> ''''" and "we_State event \<in> {'''', WebhookEventPending}"
  shows "run_state (Event_Create ci clock event) (quiet d) =
    (if in_flight d r then (Inr False, quiet d)
     else (Inr True, quiet (d\<lparr>webhook_events := map (\<lambda>q. if q = r
            then reopen_event (nullJSON (we_Payload event)) (we_ReceivedAt (new_event clock event)) d r else q) (webhook_events d)\<rparr>)))"
proof -
  let ?P = "reopenable ci (normal_provider (we_Provider event)) (we_DeliveryID event) d"
  let ?f = "reopen_event (nullJSON (we_Payload event)) (we_ReceivedAt (new_event clock event)) d"
  have ok: "inbox_ok ci (d, cs)" by (rule inbox_reachable_ok[OF assms(1)])
  have only: "q = r" if "q \<in> set (webhook_events d)" "?P q" for q
    using ok that assms(2,3) by (auto simp: inbox_ok_def reopenable_def intro: distinct_idD[of "we_key ci"])
  have P: "?P r \<longleftrightarrow> \<not> in_flight d r"
    using not_in_flight[OF inbox_event_ok[OF ok assms(2)], of d] assms(3) by (simp add: reopenable_def)
  have change: "?f r \<noteq> r" if "?P r"
  proof
    assume "?f r = r"
    then have "we_State (?f r) = we_State r" by simp
    with that show False by (auto simp: reopenable_def reopen_event_def)
  qed
  have "list_ex (\<lambda>q. we_key ci q = we_key ci (new_event clock event)) (webhook_events d)"
    using assms(2,3) by (auto simp: list_ex_iff we_key_def new_event_def clear_lease_def)
  then have run: "run_state (Event_Create ci clock event) (quiet d) =
      (Inr (rows_changed ?P ?f (webhook_events d) > 0), quiet (d\<lparr>webhook_events := sql_update ?P ?f (webhook_events d)\<rparr>))"
    by (simp only: run_create[OF assms(4-6)] run_reopen if_True)
  show ?thesis
  proof (cases "in_flight d r")
    case True
    then have "rows_changed ?P ?f (webhook_events d) = 0"
      using only P by (auto simp: rows_changed_zero_iff)
    with True show ?thesis by (simp add: run sql_update_zero)
  next
    case False
    then have "0 < rows_changed ?P ?f (webhook_events d)"
      using P change assms(2) by (auto simp: rows_changed_pos_iff)
    moreover have "?P q \<longleftrightarrow> q = r" if "q \<in> set (webhook_events d)" for q
      using False only[OF that] P by blast
    then have "sql_update ?P ?f (webhook_events d) = map (\<lambda>q. if q = r then ?f r else q) (webhook_events d)"
      unfolding sql_update_def by (intro map_cong refl) simp
    ultimately show ?thesis using False by (simp add: run)
  qed
qed


section \<open>A run of the inbox\<close>

text \<open>A delivery arrives; driver a claims it and dies; its lease expires and driver b claims it.\<close>

definition ex_event :: WebhookEvent where
  "ex_event = \<lparr>we_ID = 0, we_Provider = WebhookProviderGitHub, we_DeliveryID = ''guid'', we_Event = ''pull_request'',
     we_Action = ''opened'', we_Repository = ''o/r'', we_PullRequest = 7, we_HeadSHA = ''abc'', we_TenantID = ''1'',
     we_Payload = ''{}'', we_State = WebhookEventPending, we_Attempts = 0, we_LeaseOwner = '''', we_LeaseToken = None,
     we_LeaseExpiresAt = None, we_RetryAfter = None, we_LastError = '''', we_ReceivedAt = 100, we_StartedAt = None,
     we_CompletedAt = None, we_CreatedAt = 0, we_UpdatedAt = 0\<rparr>"

definition ex_row :: WebhookEvent where
  "ex_row = ex_event\<lparr>we_ID := 1, we_CreatedAt := 100, we_UpdatedAt := 100\<rparr>"

definition ex_inbox :: "int \<Rightarrow> WebhookEvent \<Rightarrow> db" where
  "ex_inbox t r = empty_db\<lparr>now := t, webhook_events := [r], webhook_events_next := 2\<rparr>"

definition ex_claim :: "int \<Rightarrow> string \<Rightarrow> WebhookEvent \<Rightarrow> WebhookEvent" where
  "ex_claim t token r = claim_event ''driver'' token 30000000 (ex_inbox t r) r"

lemma ex_create: "run_state (Event_Create id 100 ex_event) (quiet empty_db) = (Inr True, quiet (ex_inbox 100 ex_row))"
  by (subst run_create)
    (simp_all add: ex_event_def ex_row_def ex_inbox_def empty_db_def new_event_def clear_lease_def normal_provider_def nullJSON_def)

lemma ex_find_next:
  assumes "webhookClaimable (ex_inbox t r) r"
  shows "run_state (FindNext (\<lambda>_. False) t ''driver'' token 30000000) (quiet (ex_inbox t r)) =
    (Inr (Some (ex_claim t token r)), quiet (ex_inbox t (ex_claim t token r)))"
  using assms by (simp add: run_find_next ex_claim_def claim_event_def ex_inbox_def sql_update_def NOW6_def empty_db_def)

definition ex_first :: WebhookEvent where "ex_first = ex_claim 100 ''t1'' ex_row"
definition ex_second :: WebhookEvent where "ex_second = ex_claim 200 ''t2'' ex_first"

lemmas ex_defs = ex_second_def ex_first_def ex_claim_def claim_event_def ex_row_def ex_event_def ex_inbox_def
  empty_db_def webhookClaimable_def lease_expired_def NOW6_def MaxWebhookEventAttempts_def

lemma ex_reachable:
  "inbox_reachable id (ex_inbox 200 ex_second, {ex_second, ex_first})"
proof -
  have "inbox_reachable id (empty_db, {})" by (rule inbox_reachable.start) (simp add: empty_db_def)
  then have "inbox_reachable id (ex_inbox 100 ex_row, {})"
    by (rule inbox_reachable.step) (rule inbox_step.create[OF ex_create], simp add: ex_event_def)
  then have "inbox_reachable id (ex_inbox 100 ex_first, {ex_first})"
    unfolding ex_first_def
    by (rule inbox_reachable.step) (rule inbox_step.claim[OF ex_find_next], simp_all add: ex_defs tokens_def)
  then have "inbox_reachable id (ex_inbox 200 ex_first, {ex_first})"
    by (rule inbox_reachable.step) (rule inbox_step.other, simp_all add: ex_inbox_def NOW6_def empty_db_def)
  then show ?thesis
    unfolding ex_second_def
    by (rule inbox_reachable.step) (rule inbox_step.claim[OF ex_find_next], simp_all add: ex_defs tokens_def)
qed


theorem inbox_invariant_witness:
  "distinct (map (we_key id) (webhook_events (ex_inbox 200 ex_second))) \<and> inj_on we_LeaseToken {ex_second, ex_first}"
  using inbox_invariant[OF ex_reachable] by blast

theorem inbox_drains_witness:
  "\<exists>t rows d1. run_state (TerminateStuckProcessing ''gone'') (quiet (ex_inbox t ex_second)) = (Inr rows, quiet d1) \<and>
      ((\<exists>event d2. run_state (FindNext (\<lambda>_. False) 300 ''c'' ''t3'' 30000000) (quiet d1) = (Inr (Some event), quiet d2)) \<or>
       list_all webhook_terminal (webhook_events d1))"
proof -
  obtain T where T: "\<And>d'. T \<le> now d' \<and> T \<le> NOW6 d' \<and> webhook_events d' = webhook_events (ex_inbox 200 ex_second) \<Longrightarrow>
    (\<exists>rows d1. run_state (TerminateStuckProcessing ''gone'') (quiet d') = (Inr rows, quiet d1) \<and>
      ((\<exists>event d2. run_state (FindNext (\<lambda>_. False) 300 ''c'' ''t3'' 30000000) (quiet d1) = (Inr (Some event), quiet d2)) \<or>
       (\<forall>r\<in>set (webhook_events d1). webhook_terminal r)))"
    using inbox_drains[OF ex_reachable, of "''c''" 30000000 "''gone''" 300 "''t3''"] by auto
  show ?thesis
    using T[of "ex_inbox (max T 0) ex_second"] unfolding list_all_iff by (force simp: ex_inbox_def NOW6_def empty_db_def)
qed

theorem stale_claim_fenced_witness:
  "fst (run_state (finish_delivery ex_second None False False 0) (quiet (ex_inbox 200 ex_second))) = Inr () \<and>
   run_state (finish_delivery ex_first None False False 0) (quiet (ex_inbox 200 ex_second)) =
     (Inl ErrWebhookEventLeaseLost, quiet (ex_inbox 200 ex_second)) \<and>
   (\<exists>e. run_state (Event_Heartbeat (we_ID ex_first) (the (we_LeaseToken ex_first)) 30000000) (quiet (ex_inbox 200 ex_second)) =
     (Inl e, quiet (ex_inbox 200 ex_second)))"
  by (rule stale_claim_fenced[OF ex_reachable, of ex_second ex_first ex_second None False False 0 30000000])
    (simp_all add: ex_defs)

theorem redelivery_exact_witness:
  "in_flight (ex_inbox 200 ex_second) ex_second \<and>
   run_state (Event_Create id 200 ex_event) (quiet (ex_inbox 200 ex_second)) = (Inr False, quiet (ex_inbox 200 ex_second))"
proof -
  have "in_flight (ex_inbox 200 ex_second) ex_second" by (simp add: in_flight_def ex_defs)
  moreover have "ex_second \<in> set (webhook_events (ex_inbox 200 ex_second))" by (simp add: ex_inbox_def)
  moreover have "we_key id ex_second = (id (normal_provider (we_Provider ex_event)), id (we_DeliveryID ex_event))"
    "we_DeliveryID ex_event \<noteq> ''''" "we_Event ex_event \<noteq> ''''" "we_State ex_event \<in> {'''', WebhookEventPending}"
    by (simp_all add: we_key_def ex_defs normal_provider_def)
  ultimately show ?thesis
    using redelivery_exact[OF ex_reachable, of ex_second ex_event 200] by simp
qed

end
