(* ===== verification/Webhook_Dispatch.thy ===== *)
theory Webhook_Dispatch
  imports Webhook_Inbox Server_Config
begin

text \<open>
  The durable webhook drivers (\<^verbatim>\<open>pkg/webhook/durable_dispatch.go\<close>): what happens to a pull request
  delivery between its receipt and its outcome, the drain loop of a driver, and the gauges of the
  inbox (\<^verbatim>\<open>InboxStats\<close>).  The JSON decoding of the payload, the start of the GitHub client and the
  auto-plan itself are parameters.
\<close>

section \<open>Gauges\<close>

record WebhookInboxStats =
  CountsByState :: "string \<Rightarrow> int"
  OldestClaimableAge :: int
  StuckProcessing :: int

text \<open>The age is in microseconds; the code carries it through a float of seconds.\<close>

definition InboxStats :: "WebhookInboxStats prog" where
  "InboxStats =
    do {
      counts \<leftarrow> QueryContext (\<lambda>d. \<lambda>state. int (length (filter (\<lambda>r. we_State r = state) (webhook_events d))));
      case counts of
        Inl e \<Rightarrow> State_Monad.return (Inl (Wrapped ''count webhook inbox rows by state'' e))
      | Inr byState \<Rightarrow>
          do {
            oldest \<leftarrow> QueryContext (\<lambda>d.
              case map we_ReceivedAt (filter (webhookClaimable d) (webhook_events d)) of
                [] \<Rightarrow> 0
              | t # ts \<Rightarrow> NOW6 d - fold min ts t * 1000000);
            case oldest of
              Inl e \<Rightarrow> State_Monad.return (Inl (Wrapped ''measure oldest claimable webhook inbox row'' e))
            | Inr age \<Rightarrow>
                do {
                  stuck \<leftarrow> QueryContext (\<lambda>d. int (length (filter (stuck_processing d) (webhook_events d))));
                  case stuck of
                    Inl e \<Rightarrow> State_Monad.return (Inl (Wrapped ''count stuck processing webhook inbox rows'' e))
                  | Inr n \<Rightarrow> State_Monad.return (Inr
                      \<lparr>CountsByState = byState, OldestClaimableAge = max age 0, StuckProcessing = n\<rparr>)
                }
          }
    }"

section \<open>Processing a delivery\<close>

definition isAutoPlannablePullRequestAction :: "string \<Rightarrow> bool" where
  "isAutoPlannablePullRequestAction action = (action \<in> {''opened'', ''synchronize'', ''reopened''})"

record pullRequestPayload =
  prp_Action :: string
  prp_Before :: string
  prp_Repository :: string
  prp_Number :: int
  prp_HeadSHA :: string
  prp_InstallationID :: int

text \<open>The installation of the payload, else the one the context carries.\<close>

definition effectiveInstallationID :: "int option \<Rightarrow> int \<Rightarrow> int" where
  "effectiveInstallationID ctx payloadID =
    (if payloadID \<noteq> 0 then payloadID else case ctx of Some i \<Rightarrow> i | None \<Rightarrow> 0)"

text \<open>
  The external parts of a run: decoding, the parsing of a decimal, the context's installation, the
  GitHub client, the auto-plan and whether the run was cancelled.  A result of processing is the
  error with its retry flag, or none.
\<close>

record plan_env =
  pe_decode :: "string \<Rightarrow> pullRequestPayload option"
  pe_ParseInt :: "string \<Rightarrow> int option"
  pe_installation :: "int option"
  pe_bootstrap :: "string \<Rightarrow> int \<Rightarrow> string option"
  pe_autoPlan :: "string \<Rightarrow> int \<Rightarrow> string \<Rightarrow> int \<Rightarrow> string option"
  pe_cancelled :: bool

definition processDurablePullRequest ::
  "ServerConfig option option \<Rightarrow> plan_env \<Rightarrow> WebhookEvent \<Rightarrow> (string \<times> bool) option" where
  "processDurablePullRequest service env event =
    (case pe_decode env (we_Payload event) of
       None \<Rightarrow> Some (''decode durable pull_request delivery'', False)
     | Some payload \<Rightarrow>
         if \<not> isAutoPlannablePullRequestAction (prp_Action payload) then None
         else
           let installationID = (case pe_ParseInt env (we_TenantID event) of
                 None \<Rightarrow> effectiveInstallationID (pe_installation env) (prp_InstallationID payload)
               | Some i \<Rightarrow> if i = 0 then effectiveInstallationID (pe_installation env) (prp_InstallationID payload) else i);
             repo = prp_Repository payload; pr = prp_Number payload; headSHA = prp_HeadSHA payload
           in
             if installationID = 0 then Some (''missing installation ID'', False)
             else if repo = '''' \<or> pr = 0 \<or> headSHA = '''' then Some (''missing repo, PR, or head SHA'', False)
             else if (case service of None \<Rightarrow> False | Some config \<Rightarrow> \<not> IsRepoAllowed config repo) then None
             else
               (case pe_bootstrap env repo installationID of
                  Some err \<Rightarrow> Some (''bootstrap durable auto-plan delivery: '' @ err, True)
                | None \<Rightarrow>
                    (case pe_autoPlan env repo pr headSHA installationID of
                       Some err \<Rightarrow> Some (''auto-plan for durable delivery: '' @ err, True)
                     | None \<Rightarrow>
                         if pe_cancelled env
                         then Some (''run cancelled during auto-plan dispatch'', True)
                         else None)))"

definition processDurableWebhookEvent ::
  "ServerConfig option option \<Rightarrow> plan_env \<Rightarrow> WebhookEvent \<Rightarrow> (string \<times> bool) option" where
  "processDurableWebhookEvent service env event =
    (if we_Provider event \<noteq> WebhookProviderGitHub then None
     else if we_Event event = ''pull_request'' then processDurablePullRequest service env event
     else None)"

text \<open>A panic of the processing is a retryable failure.\<close>

definition safeProcessDurableWebhookEvent ::
  "(WebhookEvent \<Rightarrow> string + (string \<times> bool) option) \<Rightarrow> WebhookEvent \<Rightarrow> (string \<times> bool) option" where
  "safeProcessDurableWebhookEvent process event =
    (case process event of
       Inl panic \<Rightarrow> Some (''panic processing durable webhook delivery: '' @ panic, True)
     | Inr result \<Rightarrow> result)"

definition enqueueDurablePullRequest ::
  "(string \<Rightarrow> string) \<Rightarrow> int \<Rightarrow> (int \<Rightarrow> string) \<Rightarrow> pullRequestPayload \<Rightarrow> string \<Rightarrow> string \<Rightarrow> int \<Rightarrow> bool prog" where
  "enqueueDurablePullRequest ci clock FormatInt payload body deliveryID installationID =
    (if deliveryID = '''' then State_Monad.return (Inl (Errorf ''missing GitHub delivery ID''))
     else
       do {
         r \<leftarrow> Event_Create ci clock
           \<lparr>we_ID = 0, we_Provider = WebhookProviderGitHub, we_DeliveryID = deliveryID, we_Event = ''pull_request'',
            we_Action = prp_Action payload, we_Repository = prp_Repository payload, we_PullRequest = prp_Number payload,
            we_HeadSHA = prp_HeadSHA payload, we_TenantID = FormatInt installationID, we_Payload = body, we_State = '''',
            we_Attempts = 0, we_LeaseOwner = '''', we_LeaseToken = None, we_LeaseExpiresAt = None, we_RetryAfter = None,
            we_LastError = '''', we_ReceivedAt = 0, we_StartedAt = None, we_CompletedAt = None, we_CreatedAt = 0,
            we_UpdatedAt = 0\<rparr>;
         case r of
           Inl e \<Rightarrow> State_Monad.return (Inl (Wrapped ''store durable pull_request delivery'' e))
         | Inr inserted \<Rightarrow> State_Monad.return (Inr inserted)
       })"

section \<open>Driving and draining\<close>

definition durableWebhookRetryDelay :: int where "durableWebhookRetryDelay = 60"

text \<open>
  What one iteration of a driver meets: whether it was stopped before it, the rows other
  transactions hold locked, the clock, the token of the claim, what processing does, whether the heartbeat lost the lease, and whether the driver was
  stopped by the time the run ended.
\<close>

record run_env =
  re_stopped :: bool
  re_locked :: "int \<Rightarrow> bool"
  re_clock :: int
  re_token :: string
  re_process :: "WebhookEvent \<Rightarrow> string + (string \<times> bool) option"
  re_heartbeatErr :: bool
  re_cancelled :: bool

definition driveNextDurableWebhook :: "string \<Rightarrow> int \<Rightarrow> run_env \<Rightarrow> (world, bool) state" where
  "driveNextDurableWebhook owner leaseDuration env =
    do {
      r \<leftarrow> FindNext (re_locked env) (re_clock env) owner (re_token env) leaseDuration;
      case r of
        Inl _ \<Rightarrow> State_Monad.return False
      | Inr None \<Rightarrow> State_Monad.return False
      | Inr (Some event) \<Rightarrow>
          do {
            _ \<leftarrow> finish_delivery event (safeProcessDurableWebhookEvent (re_process env) event) (re_heartbeatErr env)
              (re_cancelled env) (re_clock env + durableWebhookRetryDelay);
            State_Monad.return True
          }
    }"

text \<open>The drain loop; \<open>None\<close> when \<open>fuel\<close> iterations were not enough.\<close>

fun drainDurableWebhooks :: "nat \<Rightarrow> string \<Rightarrow> int \<Rightarrow> (nat \<Rightarrow> run_env) \<Rightarrow> nat \<Rightarrow> (world, unit option) state" where
  "drainDurableWebhooks 0 owner leaseDuration env n = State_Monad.return None"
| "drainDurableWebhooks (Suc fuel) owner leaseDuration env n =
    (if re_stopped (env n) then State_Monad.return (Some ())
     else
       do {
         claimed \<leftarrow> driveNextDurableWebhook owner leaseDuration (env n);
         if claimed then drainDurableWebhooks fuel owner leaseDuration env (Suc n)
         else State_Monad.return (Some ())
       })"

section \<open>The drain loop ends\<close>

text \<open>
  What a claim looks at that time does not change: the state and the attempts of a row.  A claim of a row
  consumes an attempt, or the first claim of a pending row; the budget counts what is left of both.
\<close>

type_synonym row_view = "int \<times> string \<times> int"

definition row_view :: "WebhookEvent \<Rightarrow> row_view" where
  "row_view r = (we_ID r, we_State r, we_Attempts r)"

definition views :: "db \<Rightarrow> row_view list" where
  "views d = map row_view (webhook_events d)"

definition left_of :: "row_view \<Rightarrow> nat" where
  "left_of v = (case v of (i, st, a) \<Rightarrow> nat (MaxWebhookEventAttempts - a) + (if st = WebhookEventPending then 1 else 0))"

definition budget :: "row_view list \<Rightarrow> nat" where
  "budget vs = sum_list (map left_of vs)"

definition claim_view :: "int \<Rightarrow> row_view \<Rightarrow> row_view" where
  "claim_view i v = (case v of (j, st, a) \<Rightarrow> if j = i then (j, WebhookEventProcessing, a + 1) else v)"

lemma claim_view_le: "left_of (claim_view i v) \<le> left_of v"
proof (cases v)
  case (fields j st a)
  have "nat (MaxWebhookEventAttempts - (a + 1)) \<le> nat (MaxWebhookEventAttempts - a)" by simp
  with fields show ?thesis by (simp add: claim_view_def left_of_def trans_le_add1)
qed

lemma claim_view_less: "st = WebhookEventPending \<or> a < MaxWebhookEventAttempts \<Longrightarrow> left_of (claim_view i (i, st, a)) < left_of (i, st, a)"
  by (auto simp: claim_view_def left_of_def)

lemma budget_map_le: "(\<And>v. v \<in> set vs \<Longrightarrow> left_of (g v) \<le> left_of v) \<Longrightarrow> budget (map g vs) \<le> budget vs"
  by (induction vs) (auto simp: budget_def add_mono)

lemma claim_budget:
  "(i, st, a) \<in> set vs \<Longrightarrow> st = WebhookEventPending \<or> a < MaxWebhookEventAttempts \<Longrightarrow> budget (map (claim_view i) vs) < budget vs"
proof (induction vs)
  case (Cons v vs)
  have tail: "budget (map (claim_view i) vs) \<le> budget vs" by (rule budget_map_le) (rule claim_view_le)
  show ?case
  proof (cases "v = (i, st, a)")
    case True
    with tail claim_view_less[OF Cons.prems(2), of i] show ?thesis by (simp add: budget_def)
  next
    case False
    with Cons claim_view_le[of i v] show ?thesis by (simp add: budget_def add_le_less_mono)
  qed
qed simp

text \<open>
  The other sessions leave the ids, states and attempts of the deliveries: time passes, heartbeats extend
  leases, and statements may fail, but nothing is delivered, claimed or swept by others.
\<close>

definition undisturbed :: "turn \<Rightarrow> bool" where
  "undisturbed t \<longleftrightarrow> (\<forall>d. views (turn_env t d) = views d)"

definition faulty :: "turn set \<Rightarrow> bool" where
  "faulty T \<longleftrightarrow> (\<exists>t\<in>T. turn_fault t \<noteq> None)"

definition calm :: "turn set \<Rightarrow> row_view list \<Rightarrow> world \<Rightarrow> bool" where
  "calm T vs w \<longleftrightarrow> views (w_db w) = vs \<and> set (w_turns w) \<subseteq> T \<and> (\<forall>t\<in>T. undisturbed t)"

lemma calm_undo [simp]: "calm T vs (w\<lparr>w_undo := u\<rparr>) = calm T vs w"
  by (simp add: calm_def)

lemma faulty_turn: "turn_fault t = Some e \<Longrightarrow> t \<in> T \<Longrightarrow> faulty T"
  by (force simp: faulty_def)

lemma calm_turn:
  assumes "calm T vs w" and "next_turn w = (e, w1)"
  shows "calm T vs w1 \<and> w_undo w1 = w_undo w \<and> (e \<noteq> None \<longrightarrow> faulty T)"
  using assms by (cases "w_turns w") (auto simp: next_turn_def calm_def undisturbed_def faulty_def)

text \<open>A result, or an error that a failed statement caused.\<close>

definition ok_or :: "bool \<Rightarrow> ('a \<Rightarrow> world \<Rightarrow> bool) \<Rightarrow> err + 'a \<Rightarrow> world \<Rightarrow> bool" where
  "ok_or F R r w \<longleftrightarrow> (case r of Inl e \<Rightarrow> F | Inr x \<Rightarrow> R x w)"

lemma ok_or_simps [simp]: "ok_or F R (Inl e) w = F" "ok_or F R (Inr x) w = R x w"
  by (simp_all add: ok_or_def)

lemma hoare_ok_bind:
  assumes "hoare P m (ok_or F R)" and "\<And>x. hoare (R x) (f x) (ok_or F Q)"
  shows "hoare P (State_Monad.bind m (\<lambda>r. case r of Inl e \<Rightarrow> State_Monad.return (Inl (g e)) | Inr x \<Rightarrow> f x)) (ok_or F Q)"
proof (rule hoare_bind[OF assms(1)])
  fix r
  show "hoare (ok_or F R r) (case r of Inl e \<Rightarrow> State_Monad.return (Inl (g e)) | Inr x \<Rightarrow> f x) (ok_or F Q)"
    using assms(2) by (cases r) (auto simp: hoare_def)
qed

abbreviation fresh_tx :: "turn set \<Rightarrow> row_view list \<Rightarrow> world \<Rightarrow> bool" where
  "fresh_tx T vs w \<equiv> calm T vs w \<and> w_undo w = []"

lemma calm_begin: "hoare (calm T vs) BeginTx (ok_or (faulty T) (\<lambda>_. fresh_tx T vs))"
  by (rule hoareI) (auto simp: BeginTx_def dest: calm_turn split: prod.splits option.splits)

lemma calm_look:
  "hoare (fresh_tx T vs) (QueryContext q) (ok_or (faulty T) (\<lambda>x w. fresh_tx T vs w \<and> x = q (w_db w)))"
  by (rule hoareI) (auto simp: QueryContext_def dest: calm_turn split: prod.splits option.splits)

lemma calm_commit: "hoare (calm T vs) Commit (ok_or (faulty T) (\<lambda>_. fresh_tx T vs))"
proof (rule hoareI)
  fix w r w' assume "calm T vs w" and "run_state Commit w = (r, w')"
  then show "ok_or (faulty T) (\<lambda>_. fresh_tx T vs) r w'"
    by (cases "w_turns w") (auto simp: Commit_def calm_def intro: faulty_turn split: option.splits)
qed

lemma claim_views: "views (d\<lparr>webhook_events := sql_update (\<lambda>r. we_ID r = i) (claim_event owner token l d') (webhook_events d)\<rparr>) =
    map (claim_view i) (views d)"
  by (simp add: views_def sql_update_def row_view_def claim_view_def claim_event_def comp_def)

lemma calm_claim:
  "hoare (calm T vs) (tx_ExecContext undo (update_events (\<lambda>d r. we_ID r = i) (claim_event owner token l)))
    (ok_or (faulty T) (\<lambda>_. calm T (map (claim_view i) vs)))"
proof (rule hoareI)
  fix w r w'
  assume w: "calm T vs w" and run: "run_state (tx_ExecContext undo (update_events (\<lambda>d r. we_ID r = i) (claim_event owner token l))) w = (r, w')"
  obtain e w1 where turn: "next_turn w = (e, w1)" by fastforce
  show "ok_or (faulty T) (\<lambda>_. calm T (map (claim_view i) vs)) r w'"
    using run calm_turn[OF w turn] claim_views[where d = "w_db w1" and d' = "w_db w1" and i = i and owner = owner and token = token and l = l]
    by (auto simp: tx_ExecContext_def turn update_events_def calm_def split: option.splits)
qed

lemma rollback_nothing: "w_undo w = [] \<Longrightarrow> rollbackTx w = w"
  by (cases w) (simp add: rollbackTx_def)

lemma calm_defer:
  assumes "hoare P p (ok_or F (\<lambda>x w. R x w \<and> w_undo w = []))"
  shows "hoare P (defer_rollback p) (ok_or F (\<lambda>x w. R x w \<and> w_undo w = []))"
proof (rule hoareI)
  fix w r w' assume "P w" and run: "run_state (defer_rollback p) w = (r, w')"
  obtain r1 w1 where "run_state p w = (r1, w1)" by fastforce
  with hoareD[OF assms \<open>P w\<close> this] run show "ok_or F (\<lambda>x w. R x w \<and> w_undo w = []) r w'"
    by (cases r1) (auto simp: rollback_nothing)
qed

lemma hoare_vacuous: "(\<And>w. \<not> P w) \<Longrightarrow> hoare P p Q"
  by (simp add: hoare_def)

text \<open>A claim finds nothing, when every claimable row is locked, or consumes from the budget.\<close>

definition found :: "turn set \<Rightarrow> row_view list \<Rightarrow> (int \<Rightarrow> bool) \<Rightarrow> WebhookEvent option \<Rightarrow> world \<Rightarrow> bool" where
  "found T vs locked x w \<longleftrightarrow>
    (case x of None \<Rightarrow> \<forall>r\<in>set (webhook_events (w_db w)). webhookClaimable (w_db w) r \<longrightarrow> locked (we_ID r)
             | Some event \<Rightarrow> \<exists>vs'. calm T vs' w \<and> budget vs' < budget vs)"

lemma calm_find_next:
  assumes "owner \<noteq> ''''" and "0 < leaseDuration"
  shows "hoare (calm T vs) (FindNext locked clock owner token leaseDuration) (ok_or (faulty T) (\<lambda>x w. found T vs locked x w \<and> w_undo w = []))"
proof -
  let ?Q = "ok_or (faulty T) (\<lambda>x w. found T vs locked x w \<and> w_undo w = [])"
  let ?q = "\<lambda>d. first_event (filter (\<lambda>r. webhookClaimable d r \<and> \<not> locked (we_ID r)) (webhook_events d))"
  have row: "(we_ID event, we_State event, we_Attempts event) \<in> set (views d) \<and>
      (we_State event = WebhookEventPending \<or> we_Attempts event < MaxWebhookEventAttempts)" if "Some event = ?q d" for event d
    using first_event_min[of "filter (\<lambda>r. webhookClaimable d r \<and> \<not> locked (we_ID r)) (webhook_events d)" event] that
    by (auto simp: views_def row_view_def image_iff webhookClaimable_def intro!: bexI[of _ event])
  have claim: "hoare (\<lambda>w. fresh_tx T vs w \<and> Some event = ?q (w_db w))
      (do { u \<leftarrow> tx_ExecContext (undo_update_event (we_ID event)) (update_events (\<lambda>d r. we_ID r = we_ID event) (claim_event owner token leaseDuration));
            case u of Inl e \<Rightarrow> State_Monad.return (Inl (Wrapped m1 e))
            | Inr _ \<Rightarrow> do { c \<leftarrow> Commit; case c of Inl e \<Rightarrow> State_Monad.return (Inl (Wrapped m2 e)) | Inr _ \<Rightarrow> State_Monad.return (Inr (Some (ev event))) } })
      ?Q" for event ev m1 m2
  proof (cases "(we_ID event, we_State event, we_Attempts event) \<in> set vs \<and>
      (we_State event = WebhookEventPending \<or> we_Attempts event < MaxWebhookEventAttempts)")
    case True
    then have less: "budget (map (claim_view (we_ID event)) vs) < budget vs" using claim_budget by blast
    have "hoare (calm T vs)
      (do { u \<leftarrow> tx_ExecContext (undo_update_event (we_ID event)) (update_events (\<lambda>d r. we_ID r = we_ID event) (claim_event owner token leaseDuration));
            case u of Inl e \<Rightarrow> State_Monad.return (Inl (Wrapped m1 e))
            | Inr _ \<Rightarrow> do { c \<leftarrow> Commit; case c of Inl e \<Rightarrow> State_Monad.return (Inl (Wrapped m2 e)) | Inr _ \<Rightarrow> State_Monad.return (Inr (Some (ev event))) } })
      ?Q"
      by (rule hoare_ok_bind[OF calm_claim], rule hoare_ok_bind[OF calm_commit], rule hoare_return) (use less in \<open>auto simp: found_def\<close>)
    then show ?thesis by (rule hoare_conseq) auto
  next
    case False
    have "\<not> (fresh_tx T vs w \<and> Some event = ?q (w_db w))" for w using False row[of event "w_db w"] by (auto simp: calm_def)
    then show ?thesis by (rule hoare_vacuous)
  qed
  have idle: "hoare (\<lambda>w. fresh_tx T vs w \<and> None = ?q (w_db w)) (State_Monad.return (Inr None)) ?Q"
    by (rule hoare_return) (auto simp: found_def first_event_None filter_empty_conv dest!: sym[of None])
  have tx: "hoare (fresh_tx T vs) (find_next_tx locked clock owner token leaseDuration) ?Q"
    unfolding find_next_tx_def
  proof (rule hoare_ok_bind[OF calm_look])
    fix x
    show "hoare (\<lambda>w. fresh_tx T vs w \<and> x = ?q (w_db w)) (case x of
        None \<Rightarrow> State_Monad.return (Inr None)
      | Some event \<Rightarrow> do { u \<leftarrow> tx_ExecContext (undo_update_event (we_ID event)) (update_events (\<lambda>d r. we_ID r = we_ID event) (claim_event owner token leaseDuration));
            case u of Inl e \<Rightarrow> State_Monad.return (Inl (Wrapped ''claim webhook event'' e))
            | Inr _ \<Rightarrow> do { c \<leftarrow> Commit; case c of Inl e \<Rightarrow> State_Monad.return (Inl (Wrapped ''commit claim webhook event'' e))
                | Inr _ \<Rightarrow> State_Monad.return (Inr (Some (event\<lparr>we_State := WebhookEventProcessing,
                      we_Attempts := we_Attempts event + 1, we_LeaseOwner := owner, we_LeaseToken := Some token,
                      we_LeaseExpiresAt := Some (clock * 1000000 + leaseDuration), we_RetryAfter := None,
                      we_StartedAt := COALESCE (we_StartedAt event) clock, we_UpdatedAt := clock\<rparr>))) } }) ?Q"
      using idle claim by (cases x) simp_all
  qed
  show ?thesis unfolding FindNext_def using assms
    by (simp del: split_paired_All) (rule hoare_ok_bind[OF calm_begin calm_defer[OF tx]])
qed

text \<open>Finishing a delivery consumes nothing, and gives nothing back unless the driver is being stopped.\<close>

definition kept :: "turn set \<Rightarrow> bool \<Rightarrow> row_view list \<Rightarrow> world \<Rightarrow> bool" where
  "kept T refund vs w \<longleftrightarrow> (\<exists>vs'. calm T vs' w \<and> (refund \<or> budget vs' \<le> budget vs))"

lemma calm_kept: "calm T vs w \<Longrightarrow> kept T refund vs w"
  by (auto simp: kept_def)

lemma calm_query: "hoare (kept T refund vs) (QueryContext q) (\<lambda>r. kept T refund vs)"
  by (rule hoareI) (auto simp: kept_def QueryContext_def dest: calm_turn split: prod.splits option.splits)

lemma calm_check: "hoare (kept T refund vs) (checkWebhookEventLeaseResult rows i t) (\<lambda>r. kept T refund vs)"
  unfolding checkWebhookEventLeaseResult_def
  by (intro hoare_if hoare_return hoare_bind[OF calm_query] hoare_sum hoare_option)

lemma calm_update:
  assumes "\<And>d r. refund \<or> left_of (row_view (f d r)) \<le> left_of (row_view r)"
  shows "hoare (calm T vs) (ExecContext (update_events P f)) (\<lambda>r. kept T refund vs)"
proof (rule hoareI)
  fix w r w'
  assume w: "calm T vs w" and run: "run_state (ExecContext (update_events P f)) w = (r, w')"
  obtain e w1 where turn: "next_turn w = (e, w1)" by fastforce
  note w1 = calm_turn[OF w turn]
  let ?d = "(w_db w1)\<lparr>webhook_events := sql_update (P (w_db w1)) (f (w_db w1)) (webhook_events (w_db w1))\<rparr>"
  have "refund \<or> budget (views ?d) \<le> budget (views (w_db w1))"
  proof (cases refund)
    case False
    then have "left_of (row_view (if P (w_db w1) q then f (w_db w1) q else q)) \<le> left_of (row_view q)" for q
      using assms[of "w_db w1" q] by simp
    then show ?thesis
      by (simp add: budget_def views_def sql_update_def comp_def sum_list_mono)
  qed simp
  with run w1 show "kept T refund vs w'"
    by (auto simp: ExecContext_def turn update_events_def kept_def calm_def split: option.splits)
qed

lemma calm_leased_write:
  assumes "\<And>d r. refund \<or> left_of (row_view (f d r)) \<le> left_of (row_view r)"
  shows "hoare (calm T vs) (leased_write msg i t f) (\<lambda>r. kept T refund vs)"
  unfolding leased_write_def
  by (intro hoare_bind[OF calm_update[OF assms]] hoare_sum hoare_return calm_check)

lemma calm_finish:
  "hoare (calm T vs) (finish_delivery event processErr heartbeatErr cancelled due) (\<lambda>r. kept T cancelled vs)"
  unfolding finish_delivery_def Event_Release_def Event_MarkFailed_def Event_MarkCompleted_def
  by (intro hoare_option hoare_return calm_kept)
    (auto split: prod.splits intro!: hoare_return calm_kept calm_leased_write
      simp: left_of_def row_view_def)

text \<open>One iteration: nothing is left to claim, a statement failed, or the budget shrinks unless the driver is being stopped.\<close>

lemma drive_consumes:
  assumes "owner \<noteq> ''''" and "0 < leaseDuration"
  shows "hoare (calm T vs) (driveNextDurableWebhook owner leaseDuration env)
    (\<lambda>claimed w. if claimed then \<exists>vs'. calm T vs' w \<and> (re_cancelled env \<or> budget vs' < budget vs)
      else faulty T \<or> (\<forall>r\<in>set (webhook_events (w_db w)). webhookClaimable (w_db w) r \<longrightarrow> re_locked env (we_ID r)))"
  (is "hoare _ _ ?Q")
  unfolding driveNextDurableWebhook_def
proof (rule hoare_bind[OF calm_find_next[OF assms]])
  fix r
  let ?R = "ok_or (faulty T) (\<lambda>x w. found T vs (re_locked env) x w \<and> w_undo w = []) r"
  let ?fin = "\<lambda>event. finish_delivery event (safeProcessDurableWebhookEvent (re_process env) event) (re_heartbeatErr env)
      (re_cancelled env) (re_clock env + durableWebhookRetryDelay)"
  have claimed: "hoare (found T vs (re_locked env) (Some event)) (do { _ \<leftarrow> ?fin event; State_Monad.return True }) ?Q" for event
  proof (rule hoareI)
    fix w x w'
    assume "found T vs (re_locked env) (Some event) w" and run: "run_state (do { _ \<leftarrow> ?fin event; State_Monad.return True }) w = (x, w')"
    then obtain vs' where calm: "calm T vs' w" and less: "budget vs' < budget vs" by (auto simp: found_def)
    obtain u w1 where fin: "run_state (?fin event) w = (u, w1)" by fastforce
    with run have "x" "w' = w1" by auto
    with hoareD[OF calm_finish calm fin] less show "?Q x w'" by (fastforce simp: kept_def)
  qed
  show "hoare ?R (case r of Inl _ \<Rightarrow> State_Monad.return False | Inr None \<Rightarrow> State_Monad.return False
      | Inr (Some event) \<Rightarrow> do { _ \<leftarrow> ?fin event; State_Monad.return True }) ?Q"
  proof (cases r)
    case (Inl e)
    then show ?thesis by (auto intro!: hoare_return)
  next
    case (Inr x)
    then show ?thesis
      by (cases x) (auto simp: found_def intro!: hoare_return hoare_conseq[OF claimed])
  qed
qed

lemma drain_ends:
  assumes stops: "\<And>n. re_cancelled (env n) \<Longrightarrow> re_stopped (env (Suc n))" and "owner \<noteq> ''''" and "0 < leaseDuration"
    and "calm T vs w" and "budget vs + 1 < fuel"
  shows "\<exists>w'. run_state (drainDurableWebhooks fuel owner leaseDuration env n) w = (Some (), w') \<and>
    ((\<exists>m. re_stopped (env m)) \<or> faulty T \<or>
     (\<exists>m. \<forall>r\<in>set (webhook_events (w_db w')). webhookClaimable (w_db w') r \<longrightarrow> re_locked (env m) (we_ID r)))"
  using assms(4,5)
proof (induction fuel arbitrary: n vs w)
  case (Suc fuel)
  then obtain fuel' where fuel: "fuel = Suc fuel'" by (cases fuel) auto
  obtain claimed w1 where drive: "run_state (driveNextDurableWebhook owner leaseDuration (env n)) w = (claimed, w1)" by fastforce
  note res = hoareD[OF drive_consumes[OF assms(2,3)] Suc.prems(1) drive]
  consider "re_stopped (env n)" | "\<not> re_stopped (env n)" "\<not> claimed" | "\<not> re_stopped (env n)" claimed "re_stopped (env (Suc n))"
    | "\<not> re_stopped (env n)" claimed "\<not> re_cancelled (env n)" using stops by blast
  then show ?case
  proof cases
    case 4
    with res obtain vs' where "calm T vs' w1" "budget vs' < budget vs" by auto
    with Suc.IH[of vs' w1 "Suc n"] Suc.prems(2) 4 drive show ?thesis by simp
  next
    case 3
    with drive show ?thesis unfolding fuel by auto
  qed (use drive res in auto)
qed simp

lemma budget_views:
  assumes "\<And>r. r \<in> set (webhook_events d) \<Longrightarrow> 0 \<le> we_Attempts r"
  shows "budget (views d) \<le> 6 * length (webhook_events d)"
proof -
  have "left_of (row_view r) \<le> 6" if "r \<in> set (webhook_events d)" for r
    using assms[OF that] by (auto simp: left_of_def row_view_def MaxWebhookEventAttempts_def)
  then have "sum_list (map (\<lambda>r. left_of (row_view r)) (webhook_events d)) \<le> sum_list (map (\<lambda>r. 6) (webhook_events d))"
    by (intro sum_list_mono)
  then show ?thesis by (simp add: budget_def views_def comp_def sum_list_triv)
qed

text \<open>
  Property C28 (the drain loop ends). However much time passes between the statements of a drain, so that
  leases expire and retries become due while it runs, and whichever statements fail: the loop ends
  within six iterations per row (the attempts of a delivery and its first claim) and two more, whatever
  processing does (succeed, fail, ask for a retry, panic, lose its lease), as long as the other sessions
  do not themselves deliver, claim or finish.  It ends because the driver was stopped, a statement
  failed, or every row that is still claimable was locked by another transaction.
\<close>

theorem drain_terminates:
  assumes "\<And>n. re_cancelled (env n) \<Longrightarrow> re_stopped (env (Suc n))" and "owner \<noteq> ''''" and "0 < leaseDuration"
    and "list_all undisturbed (w_turns w)" and "list_all (\<lambda>r. 0 \<le> we_Attempts r) (webhook_events (w_db w))"
  shows "\<exists>w'. run_state (drainDurableWebhooks (6 * length (webhook_events (w_db w)) + 2) owner leaseDuration env 0) w = (Some (), w') \<and>
    ((\<exists>m. re_stopped (env m)) \<or> (\<exists>t\<in>set (w_turns w). turn_fault t \<noteq> None) \<or>
     (\<exists>m. \<forall>r\<in>set (webhook_events (w_db w')). webhookClaimable (w_db w') r \<longrightarrow> re_locked (env m) (we_ID r)))"
proof -
  have "calm (set (w_turns w)) (views (w_db w)) w" using assms(4) by (simp add: calm_def list_all_iff)
  moreover have "budget (views (w_db w)) + 1 < 6 * length (webhook_events (w_db w)) + 2"
    using budget_views[of "w_db w"] assms(5) by (simp add: list_all_iff less_Suc_eq_le)
  ultimately show ?thesis unfolding faulty_def[symmetric] using assms(1-3) by (intro drain_ends)
qed

text \<open>A driver whose processing always panics, on a clock that moves past the retry delay at every statement.\<close>

definition ex_env :: "nat \<Rightarrow> run_env" where
  "ex_env n = \<lparr>re_stopped = False, re_locked = (\<lambda>_. False), re_clock = 100, re_token = ''t'',
     re_process = (\<lambda>_. Inl ''nil pointer''), re_heartbeatErr = False, re_cancelled = False\<rparr>"

definition ex_ticking :: world where
  "ex_ticking = \<lparr>w_db = ex_inbox 100 ex_row, w_undo = [], w_turns = replicate 60 (Turn (\<lambda>d. d\<lparr>now := now d + 100\<rparr>) None)\<rparr>"

theorem drain_terminates_witness:
  "\<exists>w'. run_state (drainDurableWebhooks 8 ''driver'' 30000000 ex_env 0) ex_ticking = (Some (), w') \<and>
    list_all (\<lambda>r. \<not> webhookClaimable (w_db w') r) (webhook_events (w_db w'))"
proof -
  have rows: "6 * length (webhook_events (w_db ex_ticking)) + 2 = 8" by (simp add: ex_ticking_def ex_inbox_def)
  have env: "\<not> re_stopped (ex_env n)" "\<not> re_cancelled (ex_env n)" "\<not> re_locked (ex_env n) i" for n i
    by (simp_all add: ex_env_def)
  have "list_all undisturbed (w_turns ex_ticking)"
    by (simp add: ex_ticking_def list_all_iff undisturbed_def views_def)
  moreover have "list_all (\<lambda>r. 0 \<le> we_Attempts r) (webhook_events (w_db ex_ticking))"
    by (simp add: ex_ticking_def ex_inbox_def ex_row_def ex_event_def)
  moreover have "\<forall>t\<in>set (w_turns ex_ticking). turn_fault t = None" by (simp add: ex_ticking_def)
  ultimately show ?thesis
    using drain_terminates[of ex_env "''driver''" 30000000 ex_ticking] env
    unfolding list_all_iff rows by (auto simp del: drainDurableWebhooks.simps)
qed

section \<open>Gauges and sweeps agree\<close>

text \<open>A sweep that turns every row with \<open>P\<close>, none of which had failed, into a failed row without \<open>P\<close>.\<close>

lemma sweep_counts:
  assumes "\<And>r. P r \<Longrightarrow> we_State r \<noteq> WebhookEventFailed" and "\<And>r. we_State (f r) = WebhookEventFailed"
    and "\<And>r. \<not> P (f r)"
  shows "rows_changed P f rs = int (length (filter P rs))" and "filter P (sql_update P f rs) = []"
    and "length (filter (\<lambda>r. we_State r = WebhookEventFailed) (sql_update P f rs)) =
      length (filter (\<lambda>r. we_State r = WebhookEventFailed) rs) + length (filter P rs)"
proof -
  have "f r \<noteq> r" if "P r" for r using assms(1)[OF that] assms(2)[of r] by metis
  then have "(P r \<and> f r \<noteq> r) = P r" for r by blast
  then show "rows_changed P f rs = int (length (filter P rs))" by (simp add: rows_changed_def)
  show "filter P (sql_update P f rs) = []" using assms(3) by (auto simp: sql_update_def filter_empty_conv)
  show "length (filter (\<lambda>r. we_State r = WebhookEventFailed) (sql_update P f rs)) =
      length (filter (\<lambda>r. we_State r = WebhookEventFailed) rs) + length (filter P rs)"
    using assms by (induction rs) (auto simp: sql_update_def)
qed

text \<open>
  Further fact (the stuck gauge). The number of stuck deliveries that the gauge reports is exactly
  the number that the next sweep fails, and after the sweep the gauge is zero.
\<close>

theorem stuck_gauge_exact:
  "\<exists>stats d' stats'. run_state InboxStats (quiet d) = (Inr stats, quiet d) \<and>
    run_state (TerminateStuckProcessing reason) (quiet d) = (Inr (StuckProcessing stats), quiet d') \<and>
    run_state InboxStats (quiet d') = (Inr stats', quiet d') \<and> StuckProcessing stats' = 0 \<and>
    CountsByState stats' WebhookEventFailed = CountsByState stats WebhookEventFailed + StuckProcessing stats"
proof -
  let ?f = "\<lambda>r. (clear_lease r)\<lparr>we_State := WebhookEventFailed, we_LastError := reason,
           we_CompletedAt := COALESCE (we_CompletedAt r) (now d), we_UpdatedAt := now d\<rparr>"
  let ?d = "d\<lparr>webhook_events := sql_update (stuck_processing d) ?f (webhook_events d)\<rparr>"
  have "stuck_processing ?d = stuck_processing d"
    by (rule ext) (simp add: stuck_processing_def lease_expired_def NOW6_def cong: option.case_cong)
  moreover note sweep_counts[of "stuck_processing d" ?f "webhook_events d"]
  moreover have "\<And>r. stuck_processing d r \<Longrightarrow> we_State r \<noteq> WebhookEventFailed" "\<And>r. \<not> stuck_processing d (?f r)"
    by (simp_all add: stuck_processing_def)
  ultimately show ?thesis
    by (simp add: InboxStats_def TerminateStuckProcessing_def update_events_def)
qed

end
