(* ===== verification/Comment_Dispatch.thy ===== *)
theory Comment_Dispatch
  imports Webhook_Commands Aggregate_Config Webhook_Dispatch "HOL-Library.AList"
begin

text \<open>
  The dispatch of a pull request comment (\<^verbatim>\<open>pkg/webhook/issue_comment.go\<close>) to the deployment that owns it, and the
  re-folds of the aggregate check a sibling's comment triggers (\<^verbatim>\<open>pkg/webhook/participant_nudge.go\<close>).  The same
  comment reaches every deployment of a repository; the dispatch decides which of them acts and which
  of them answers.

  The outcome of a delivery is its HTTP response with the effects in their order: reactions,
  comments and the handlers started in the background.  \<open>service\<close> is the configuration, \<open>None\<close> without a
  service.
\<close>

section \<open>Deliveries and outcomes\<close>

record commentUser =
  cu_Login :: string
  cu_Type :: string

record issueComment =
  ic_ID :: int
  ic_Body :: string
  ic_User :: "commentUser option"

text \<open>An issue is its number and whether it is a pull request.\<close>

record webhookPayload =
  wp_Action :: string
  wp_Issue :: "(int \<times> bool) option"
  wp_Comment :: "issueComment option"
  wp_Repository :: "string option"
  wp_Installation :: "int option"

datatype IssueComment =
    RenderHelpComment
  | RenderInvalidEnv string "string list"
  | RenderRollbackMissingArguments
  | RenderRollbackMissingEnv
  | RenderMissingEnv string
  | RenderRollbackMissingApplyID string
  | RenderInvalidCommand
  | RenderUnsupportedAutoConfirm string
  | RenderUnsupportedDatabaseFlag string
  | RenderCommandError string string

datatype effect = Eyes int | PostComment IssueComment | StartMultiEnvPlan CommandResult | StartCommand CommandResult | Refold | DelayedRefold

text \<open>The plan handler runs inside the request and writes the response itself.\<close>

record Outcome =
  oc_effects :: "effect list"
  oc_response :: "(int \<times> string) option"

definition writeJSON :: "effect list \<Rightarrow> string \<Rightarrow> Outcome" where
  "writeJSON effects message = \<lparr>oc_effects = effects, oc_response = Some (200, message)\<rparr>"

definition writeError :: "string \<Rightarrow> Outcome" where
  "writeError message = \<lparr>oc_effects = [], oc_response = Some (400, message)\<rparr>"

definition acknowledgeCommand :: "bool \<Rightarrow> int \<Rightarrow> effect list" where
  "acknowledgeCommand hasClients commentID = (if commentID \<le> 0 \<or> \<not> hasClients then [] else [Eyes commentID])"

section \<open>Which deployment acts\<close>

definition commandRequiresTenantTarget :: "CommandResult \<Rightarrow> bool" where
  "commandRequiresTenantTarget result \<longleftrightarrow> \<not> cmd_IsHelp result \<and> (cmd_Found result \<or> cmd_MissingEnv result)"

definition fansOutUnscopedCommand :: "ServerConfig option \<Rightarrow> string \<Rightarrow> bool" where
  "fansOutUnscopedCommand service repo =
    (case service of None \<Rightarrow> False | Some c \<Rightarrow> AggregateRoleForRepo (Some c) repo = AggregateRoleParticipant)"

definition actionFansOutUnscoped :: "string \<Rightarrow> bool" where
  "actionFansOutUnscoped a \<longleftrightarrow> a \<in> {''plan'', ''apply'', ''apply-confirm'', ''unlock''}"

definition unscopedCommandFansOut :: "CommandResult \<Rightarrow> bool" where
  "unscopedCommandFansOut result =
    (if \<not> actionFansOutUnscoped (cmd_Action result) then False
     else if cmd_Found result then True
     else cmd_MissingEnv result \<and> cmd_Action result = ''plan'')"

text \<open>A deployment stays silent on an unscoped command another one answers.\<close>

definition silent_unscoped :: "ServerConfig option \<Rightarrow> CommandResult \<Rightarrow> bool" where
  "silent_unscoped service result =
    (cmd_Tenant result = '''' \<and> (case service of None \<Rightarrow> False | Some c \<Rightarrow> \<not> ShouldRespondToUnscoped (Some c)))"

definition knownEnvironments :: "ServerConfig option \<Rightarrow> string list" where
  "knownEnvironments service = (case service of None \<Rightarrow> [] | Some c \<Rightarrow> KnownEnvironments (Some c))"

definition deploymentTenant :: "ServerConfig option \<Rightarrow> string" where
  "deploymentTenant service = (case service of None \<Rightarrow> '''' | Some c \<Rightarrow> Tenant c)"

text \<open>No aggregate role, or a command scoped to this deployment: acknowledged at dispatch.\<close>

definition acknowledged_at_dispatch :: "ServerConfig option \<Rightarrow> string \<Rightarrow> CommandResult \<Rightarrow> bool" where
  "acknowledged_at_dispatch service repo result =
    ((case service of None \<Rightarrow> True | Some c \<Rightarrow> AggregateRoleForRepo (Some c) repo = '''') \<or> cmd_Tenant result \<noteq> '''')"

section \<open>The dispatch\<close>

text \<open>The switch on the action of a complete command.\<close>

definition dispatchable :: "string list" where
  "dispatchable = [''apply'', ''apply-confirm'', ''unlock'', ''rollback'', ''rollback-confirm'', ''stop'', ''cancel'', ''start'', ''release'',
     ''cutover'', ''volume'', ''skip-revert'', ''revert'']"

definition start_command :: "effect list \<Rightarrow> CommandResult \<Rightarrow> Outcome" where
  "start_command acks result =
    (let a = cmd_Action result in
     if a = ''plan'' then \<lparr>oc_effects = acks @ [StartCommand result], oc_response = None\<rparr>
     else if a = ''help'' then writeJSON (acks @ [PostComment RenderHelpComment]) ''help posted''
     else if a \<in> set dispatchable then writeJSON (acks @ [StartCommand result]) (a @ '' started'')
     else writeJSON (acks @ [PostComment RenderInvalidCommand]) ''invalid command'')"

text \<open>A complete command: flags the command does not take are refused.\<close>

definition run_command :: "ServerConfig option \<Rightarrow> bool \<Rightarrow> int \<Rightarrow> string \<Rightarrow> int \<Rightarrow> string \<Rightarrow> CommandResult \<Rightarrow> Outcome" where
  "run_command service hasClients installationID repo commentID body result =
    (let a = cmd_Action result in
     if installationID = 0 then writeError ''missing installation ID in webhook payload''
     else if a \<noteq> ''apply'' \<and> HasAutoConfirmFlag body
     then writeJSON [PostComment (RenderUnsupportedAutoConfirm a)] ''unsupported flag''
     else if a = ''rollback'' \<and> HasDeferCutoverFlag body
     then writeJSON [PostComment (RenderCommandError ''rollback'' ''--defer-cutover belongs on rollback-confirm'')] ''unsupported flag''
     else if \<not> commandSupportsDatabaseFlag a \<and> HasDatabaseFlag body
     then writeJSON [PostComment (RenderUnsupportedDatabaseFlag a)] ''unsupported flag''
     else start_command (if acknowledged_at_dispatch service repo result then acknowledgeCommand hasClients commentID else []) result)"

text \<open>A command without its environment.\<close>

definition missing_environment :: "ServerConfig option \<Rightarrow> bool \<Rightarrow> string \<Rightarrow> int \<Rightarrow> CommandResult \<Rightarrow> Outcome" where
  "missing_environment service hasClients repo commentID result =
    (if cmd_Action result = ''plan'' then
       writeJSON ((if acknowledged_at_dispatch service repo result then acknowledgeCommand hasClients commentID else []) @
         [StartMultiEnvPlan result]) ''multi-env plan started''
     else if cmd_Action result = ''rollback'' then
       (if cmd_ApplyID result = '''' then writeJSON [PostComment RenderRollbackMissingArguments] ''missing rollback arguments''
        else writeJSON [PostComment RenderRollbackMissingEnv] ''missing environment flag'')
     else if cmd_Action result = ''rollback-confirm'' then writeJSON [PostComment RenderRollbackMissingEnv] ''missing environment flag''
     else writeJSON [PostComment (RenderMissingEnv (cmd_Action result))] ''missing environment flag'')"

text \<open>An environment this deployment does not own.\<close>

definition foreign_environment :: "ServerConfig option \<Rightarrow> bool \<Rightarrow> int \<Rightarrow> CommandResult \<Rightarrow> Outcome" where
  "foreign_environment service hasClients commentID result =
    (if \<not> (case service of None \<Rightarrow> False | Some c \<Rightarrow> IsEnvironmentKnown (Some c) (cmd_Environment result)) then
       (if silent_unscoped service result then writeJSON [] ''unscoped command skipped''
        else writeJSON (acknowledgeCommand hasClients commentID @
            [PostComment (RenderInvalidEnv (cmd_Action result) (knownEnvironments service))]) ''unknown environment'')
     else writeJSON [] ''environment handled by another instance'')"

text \<open>A command addressed to this deployment.\<close>

definition answer_command :: "ServerConfig option \<Rightarrow> bool \<Rightarrow> int \<Rightarrow> string \<Rightarrow> int \<Rightarrow> string \<Rightarrow> CommandResult \<Rightarrow> Outcome" where
  "answer_command service hasClients installationID repo commentID body result =
    (if cmd_IsHelp result then
       (if silent_unscoped service result then writeJSON [] ''unscoped command skipped''
        else writeJSON [PostComment RenderHelpComment] ''help posted'')
     else if cmd_EnvironmentError result then
       (if silent_unscoped service result then writeJSON [] ''unscoped command skipped''
        else writeJSON (acknowledgeCommand hasClients commentID @
            [PostComment (RenderInvalidEnv (cmd_Action result) (knownEnvironments service))]) ''invalid environment value'')
     else if cmd_MissingEnv result then missing_environment service hasClients repo commentID result
     else if cmd_Found result \<and> cmd_Environment result \<noteq> '''' \<and>
       (case service of None \<Rightarrow> False | Some c \<Rightarrow> \<not> IsEnvironmentAllowed (Some c) (cmd_Environment result))
     then foreign_environment service hasClients commentID result
     else if cmd_Found result \<and> cmd_Action result = ''rollback'' \<and> cmd_ApplyID result = ''''
     then writeJSON [PostComment (RenderRollbackMissingApplyID (deploymentTenant service))] ''missing apply ID''
     else if \<not> cmd_Found result then
       (if silent_unscoped service result then writeJSON [] ''unscoped command skipped''
        else writeJSON [PostComment RenderInvalidCommand] ''invalid command'')
     else run_command service hasClients installationID repo commentID body result)"

text \<open>A work command without \<open>-t\<close> on a deployment of one tenant: only a participant serves its own share of it.\<close>

definition needs_tenant_target :: "ServerConfig option \<Rightarrow> string \<Rightarrow> CommandResult \<Rightarrow> bool" where
  "needs_tenant_target service repo result =
    (cmd_Tenant result = '''' \<and> commandRequiresTenantTarget result \<and> deploymentTenant service \<noteq> '''' \<and>
     \<not> (fansOutUnscopedCommand service repo \<and> unscopedCommandFansOut result))"

definition dispatch_command :: "ServerConfig option \<Rightarrow> bool \<Rightarrow> int \<Rightarrow> string \<Rightarrow> int \<Rightarrow> string \<Rightarrow> Outcome" where
  "dispatch_command service hasClients installationID repo commentID body =
    (let result = ParseCommand body in
     if \<not> cmd_IsMention result then writeJSON [] ''no SchemaBot command found''
     else if (case service of None \<Rightarrow> False | Some c \<Rightarrow> \<not> IsRepoAllowed (Some c) repo) then writeJSON [] ''repository not registered''
     else if cmd_TenantError result then writeJSON [] ''invalid tenant flag''
     else if cmd_Tenant result \<noteq> '''' \<and> (case service of None \<Rightarrow> False | Some c \<Rightarrow> \<not> ShouldRespondToTenant (Some c) (cmd_Tenant result))
     then writeJSON [] ''tenant handled by another instance''
     else if needs_tenant_target service repo result then writeJSON [] ''tenant target required''
     else answer_command service hasClients installationID repo commentID body result)"

section \<open>Comments of sibling deployments\<close>

definition isTrustedParticipantBotLogin :: "ServerConfig option \<Rightarrow> string \<Rightarrow> string \<Rightarrow> bool" where
  "isTrustedParticipantBotLogin service repo login =
    (if \<not> HasPrefix (rev login) (rev ''[bot]'') then False
     else case service of
       None \<Rightarrow> False
     | Some c \<Rightarrow> take (length login - length ''[bot]'') login \<in> set (TrustedCheckAppSlugsForRepo (Some c) repo))"

definition participantCommentNudge :: "ServerConfig option \<Rightarrow> string \<Rightarrow> string \<Rightarrow> effect list option" where
  "participantCommentNudge service repo authorLogin =
    (if (case service of None \<Rightarrow> True | Some c \<Rightarrow> \<not> IsAggregateLeaderForRepo (Some c) repo) then None
     else if \<not> isTrustedParticipantBotLogin service repo authorLogin then None
     else Some [Refold, DelayedRefold])"

definition handleIssueComment :: "ServerConfig option \<Rightarrow> bool \<Rightarrow> int option \<Rightarrow> webhookPayload option \<Rightarrow> Outcome" where
  "handleIssueComment service hasClients contextInstallation decoded =
    (case decoded of
       None \<Rightarrow> writeError ''invalid webhook payload''
     | Some payload \<Rightarrow>
         (case (wp_Issue payload, wp_Comment payload, wp_Repository payload) of
            (Some (pr, True), Some comment, Some repo) \<Rightarrow>
              if wp_Action payload \<noteq> ''created'' then writeJSON [] ''event ignored (not a PR comment creation)''
              else
                let installationID = effectiveInstallationID contextInstallation
                      (case wp_Installation payload of None \<Rightarrow> 0 | Some i \<Rightarrow> i);
                    requestedBy = (case ic_User comment of None \<Rightarrow> '''' | Some u \<Rightarrow> cu_Login u) in
                if (case ic_User comment of None \<Rightarrow> False | Some u \<Rightarrow> cu_Type u = ''Bot'') then
                  (case participantCommentNudge service repo requestedBy of
                     Some effects \<Rightarrow> writeJSON effects ''participant comment triggered aggregate re-fold''
                   | None \<Rightarrow> writeJSON [] ''event ignored (comment from bot)'')
                else dispatch_command service hasClients installationID repo (ic_ID comment) (ic_Body comment)
          | _ \<Rightarrow> writeJSON [] ''event ignored (not a PR comment creation)''))"

section \<open>Scheduled re-folds\<close>

text \<open>The attempts per pull request, and the delays in seconds.\<close>

type_synonym attempts = "(string \<times> nat) list"

definition participantRefoldBackoff :: "int list" where
  "participantRefoldBackoff = [5, 15, 45]"

definition maxParticipantRefoldAttempts :: nat where
  "maxParticipantRefoldAttempts = length participantRefoldBackoff"

definition participantRefoldDelay :: "int \<Rightarrow> nat \<Rightarrow> int" where
  "participantRefoldDelay override attempt =
    (if override > 0 then override
     else if attempt \<ge> length participantRefoldBackoff then last participantRefoldBackoff
     else participantRefoldBackoff ! attempt)"

definition participantRefoldKey :: "string \<Rightarrow> int \<Rightarrow> string" where
  "participantRefoldKey repo pr = repo @ ''#'' @ Itoa pr"

definition attempts_of :: "attempts \<Rightarrow> string \<Rightarrow> nat" where
  "attempts_of m key = (case map_of m key of None \<Rightarrow> 0 | Some n \<Rightarrow> n)"

definition participantRefoldBudgetRemaining :: "attempts \<Rightarrow> string \<Rightarrow> int \<Rightarrow> bool" where
  "participantRefoldBudgetRemaining m repo pr \<longleftrightarrow> attempts_of m (participantRefoldKey repo pr) < maxParticipantRefoldAttempts"

text \<open>The delay of the re-fold that was armed, if one was.\<close>

definition scheduleParticipantRefold :: "int \<Rightarrow> string \<Rightarrow> int \<Rightarrow> attempts \<Rightarrow> attempts \<times> int option" where
  "scheduleParticipantRefold override repo pr m =
    (let key = participantRefoldKey repo pr; n = attempts_of m key in
     if n \<ge> maxParticipantRefoldAttempts then (m, None)
     else (AList.update key (n + 1) m, Some (participantRefoldDelay override n)))"

definition clearParticipantRefoldBudget :: "string \<Rightarrow> int \<Rightarrow> attempts \<Rightarrow> attempts" where
  "clearParticipantRefoldBudget repo pr m = AList.delete (participantRefoldKey repo pr) m"

definition scheduleLeaderRefoldIfConfigured :: "ServerConfig option \<Rightarrow> int \<Rightarrow> string \<Rightarrow> int \<Rightarrow> attempts \<Rightarrow> attempts \<times> int option" where
  "scheduleLeaderRefoldIfConfigured service override repo pr m =
    (if (case service of None \<Rightarrow> True | Some c \<Rightarrow> \<not> IsAggregateLeaderForRepo (Some c) repo) then (m, None)
     else scheduleParticipantRefold override repo pr m)"

text \<open>
  A pass reads the pull request (its head commit and whether it is closed) and folds it; the fold at a
  head is the parameter \<open>fold_at\<close>, which schedules through the functions above.
\<close>

definition refoldAggregateForPR ::
  "ServerConfig option \<Rightarrow> int \<Rightarrow> (err + unit) \<Rightarrow> (err + string \<times> bool) \<Rightarrow> (string \<Rightarrow> attempts \<Rightarrow> attempts \<times> int option) \<Rightarrow>
   string \<Rightarrow> int \<Rightarrow> attempts \<Rightarrow> attempts \<times> int option" where
  "refoldAggregateForPR service override client prInfo fold_at repo pr m =
    (case client of
       Inl e \<Rightarrow> scheduleLeaderRefoldIfConfigured service override repo pr m
     | Inr _ \<Rightarrow>
         (case prInfo of
            Inl e \<Rightarrow> scheduleLeaderRefoldIfConfigured service override repo pr m
          | Inr (headSHA, closed) \<Rightarrow>
              if closed then (clearParticipantRefoldBudget repo pr m, None) else fold_at headSHA m))"

section \<open>Routing of commands\<close>

lemma started_start_command:
  "StartCommand r \<in> set (oc_effects (start_command acks result)) \<Longrightarrow> StartCommand r \<notin> set acks \<Longrightarrow>
    r = result \<and> cmd_Action r \<in> insert ''plan'' (set dispatchable)"
  unfolding start_command_def by (simp add: Let_def writeJSON_def split: if_splits)

lemma acknowledge_starts_nothing: "StartCommand r \<notin> set (acknowledgeCommand hasClients commentID)"
  by (simp add: acknowledgeCommand_def)

lemma started_run_command:
  assumes "StartCommand r \<in> set (oc_effects (run_command service hasClients installationID repo commentID body result))"
  shows "r = result \<and> cmd_Action r \<in> insert ''plan'' (set dispatchable) \<and> installationID \<noteq> 0 \<and>
    (cmd_Action r = ''apply'' \<or> \<not> HasAutoConfirmFlag body)"
proof -
  let ?acks = "if acknowledged_at_dispatch service repo result then acknowledgeCommand hasClients commentID else []"
  have "StartCommand r \<in> set (oc_effects (start_command ?acks result))"
    and "installationID \<noteq> 0" "cmd_Action result = ''apply'' \<or> \<not> HasAutoConfirmFlag body"
    using assms by (auto simp: run_command_def Let_def writeJSON_def writeError_def split: if_splits)
  moreover have "StartCommand r \<notin> set ?acks" by (simp add: acknowledge_starts_nothing)
  ultimately show ?thesis using started_start_command[of r ?acks result] by blast
qed

lemma started_answer_command:
  assumes "StartCommand r \<in> set (oc_effects (answer_command service hasClients installationID repo commentID body result))"
  shows "StartCommand r \<in> set (oc_effects (run_command service hasClients installationID repo commentID body result)) \<and>
    \<not> cmd_IsHelp result \<and> \<not> cmd_EnvironmentError result \<and> \<not> cmd_MissingEnv result \<and> cmd_Found result \<and>
    (cmd_Environment result = '''' \<or> service = None \<or> IsEnvironmentAllowed service (cmd_Environment result))"
  using assms unfolding answer_command_def
  by (auto simp: writeJSON_def acknowledgeCommand_def missing_environment_def foreign_environment_def
      split: if_splits option.splits)

lemma started_dispatch:
  assumes "StartCommand r \<in> set (oc_effects (dispatch_command service hasClients installationID repo commentID body))"
  shows "StartCommand r \<in> set (oc_effects (answer_command service hasClients installationID repo commentID body (ParseCommand body))) \<and>
    \<not> cmd_TenantError (ParseCommand body) \<and> (service = None \<or> IsRepoAllowed service repo) \<and>
    (cmd_Tenant (ParseCommand body) = '''' \<or> service = None \<or> ShouldRespondToTenant service (cmd_Tenant (ParseCommand body))) \<and>
    \<not> needs_tenant_target service repo (ParseCommand body)"
  using assms unfolding dispatch_command_def Let_def
  by (auto simp: writeJSON_def split: if_splits option.splits)

lemma started_addressed:
  assumes "StartCommand r \<in> set (oc_effects (handleIssueComment (Some c) hasClients installation (Some payload)))"
  shows "\<exists>pr comment repo. wp_Issue payload = Some (pr, True) \<and> wp_Comment payload = Some comment \<and>
    wp_Repository payload = Some repo \<and> wp_Action payload = ''created'' \<and>
    (case ic_User comment of None \<Rightarrow> True | Some u \<Rightarrow> cu_Type u \<noteq> ''Bot'') \<and>
    IsRepoAllowed (Some c) repo \<and> r = ParseCommand (ic_Body comment) \<and> cmd_Found r \<and>
    (cmd_Environment r = '''' \<or> IsEnvironmentAllowed (Some c) (cmd_Environment r)) \<and>
    cmd_Action r \<in> insert ''plan'' (set dispatchable) \<and>
    (if cmd_Tenant r \<noteq> '''' then Tenant c = cmd_Tenant r
     else Tenant c = '''' \<or> AggregateRoleForRepo (Some c) repo = AggregateRoleParticipant \<and> actionFansOutUnscoped (cmd_Action r))"
proof -
  obtain pr comment repo where p: "wp_Issue payload = Some (pr, True)" "wp_Comment payload = Some comment"
      "wp_Repository payload = Some repo" "wp_Action payload = ''created''"
    and user: "case ic_User comment of None \<Rightarrow> True | Some u \<Rightarrow> cu_Type u \<noteq> ''Bot''"
    and d: "StartCommand r \<in> set (oc_effects (dispatch_command (Some c) hasClients
        (effectiveInstallationID installation (case wp_Installation payload of None \<Rightarrow> 0 | Some i \<Rightarrow> i)) repo (ic_ID comment) (ic_Body comment)))"
    using assms unfolding handleIssueComment_def
    by (auto simp: Let_def writeJSON_def participantCommentNudge_def split: option.splits prod.splits bool.splits if_splits)
  note d = started_dispatch[OF d]
  note a = started_answer_command[OF conjunct1[OF d]]
  note s = started_run_command[OF conjunct1[OF a]]
  have r: "r = ParseCommand (ic_Body comment)" using s by blast
  have t: "\<not> needs_tenant_target (Some c) repo r" "cmd_Tenant r = '''' \<or> ShouldRespondToTenant (Some c) (cmd_Tenant r)"
    and found: "cmd_Found r" "\<not> cmd_IsHelp r"
    using d a unfolding r by auto
  have "if cmd_Tenant r \<noteq> '''' then Tenant c = cmd_Tenant r
     else Tenant c = '''' \<or> AggregateRoleForRepo (Some c) repo = AggregateRoleParticipant \<and> actionFansOutUnscoped (cmd_Action r)"
    using t found by (auto simp: needs_tenant_target_def commandRequiresTenantTarget_def deploymentTenant_def ShouldRespondToTenant_def
        fansOutUnscopedCommand_def unscopedCommandFansOut_def split: if_splits)
  then show ?thesis using p user d a s found unfolding r by (intro exI[of _ pr] exI[of _ comment] exI[of _ repo]) auto
qed

text \<open>
  Property C17 (safety).  A command of a comment is started only by a deployment it addresses: the comment was created on a
  pull request of a registered repository by a person, the deployment owns the environment, and
  either the command names the deployment's tenant, or it names none and the deployment has no tenant
  or is a participant that serves its own share of a plan, an apply, its confirmation or an unlock.
\<close>

theorem command_started_only_if_addressed:
  assumes "StartCommand r \<in> set (oc_effects (handleIssueComment (Some c) hasClients installation (Some payload)))"
  shows "\<exists>pr comment repo. wp_Issue payload = Some (pr, True) \<and> wp_Comment payload = Some comment \<and>
    wp_Repository payload = Some repo \<and> wp_Action payload = ''created'' \<and>
    (case ic_User comment of None \<Rightarrow> True | Some u \<Rightarrow> cu_Type u \<noteq> ''Bot'') \<and>
    IsRepoAllowed (Some c) repo \<and> r = ParseCommand (ic_Body comment) \<and> cmd_Found r \<and>
    (cmd_Environment r = '''' \<or> IsEnvironmentAllowed (Some c) (cmd_Environment r)) \<and>
    cmd_Action r \<in> insert ''plan'' (set dispatchable) \<and>
    (if cmd_Tenant r \<noteq> '''' then Tenant c = cmd_Tenant r
     else Tenant c = '''' \<or> AggregateRoleForRepo (Some c) repo = AggregateRoleParticipant \<and> actionFansOutUnscoped (cmd_Action r))"
  using assms by (rule started_addressed)

definition example_payload :: "string \<Rightarrow> webhookPayload" where
  "example_payload body = \<lparr>wp_Action = ''created'', wp_Issue = Some (7, True),
     wp_Comment = Some \<lparr>ic_ID = 11, ic_Body = body, ic_User = Some \<lparr>cu_Login = ''carol'', cu_Type = ''User''\<rparr>\<rparr>,
     wp_Repository = Some ''org/app'', wp_Installation = Some 5\<rparr>"

theorem command_started_only_if_addressed_witness:
  "\<exists>r. StartCommand r \<in> set (oc_effects (handleIssueComment (Some (example_config\<lparr>Tenant := ''eu''\<rparr>)) True None
      (Some (example_payload ''schemabot stop apply-1f -e staging -t eu'')))) \<and>
    cmd_Action r = ''stop'' \<and> cmd_ApplyID r = ''apply-1f'' \<and> cmd_Tenant r = ''eu'' \<and>
    IsEnvironmentAllowed (Some (example_config\<lparr>Tenant := ''eu''\<rparr>)) (cmd_Environment r)"
proof -
  let ?c = "example_config\<lparr>Tenant := ''eu''\<rparr>"
  let ?payload = "example_payload ''schemabot stop apply-1f -e staging -t eu''"
  let ?r = "ParseCommand ''schemabot stop apply-1f -e staging -t eu''"
  have "StartCommand ?r \<in> set (oc_effects (handleIssueComment (Some ?c) True None (Some ?payload)))" by code_simp
  moreover from command_started_only_if_addressed[OF this]
  have "cmd_Environment ?r = '''' \<or> IsEnvironmentAllowed (Some ?c) (cmd_Environment ?r)" by blast
  moreover have "cmd_Environment ?r \<noteq> ''''" "cmd_Action ?r = ''stop''" "cmd_ApplyID ?r = ''apply-1f''" "cmd_Tenant ?r = ''eu''" by code_simp+
  ultimately show ?thesis by blast
qed

text \<open>
  Further fact (one owner).  Two deployments of different tenants never both start a command that targets a single
  apply: unlike plan, apply, its confirmation and unlock, such a command never fans out.
\<close>

corollary control_command_exclusive:
  assumes "StartCommand r \<in> set (oc_effects (handleIssueComment (Some c1) hasClients1 installation1 (Some payload)))"
    and "StartCommand r \<in> set (oc_effects (handleIssueComment (Some c2) hasClients2 installation2 (Some payload)))"
    and "\<not> actionFansOutUnscoped (cmd_Action r)"
  shows "Tenant c1 = Tenant c2"
proof -
  have t: "if cmd_Tenant r \<noteq> '''' then Tenant c = cmd_Tenant r else Tenant c = ''''"
    if "StartCommand r \<in> set (oc_effects (handleIssueComment (Some c) hasClients installation (Some payload)))" for c hasClients installation
    using started_addressed[OF that] assms(3) by (auto split: if_splits)
  show ?thesis using t[OF assms(1)] t[OF assms(2)] by (auto split: if_splits)
qed

text \<open>
  Further fact (functional).  The confirmation flag is searched for anywhere in the comment, also inside words.  A plan for a
  database whose name ends in \<open>-y\<close>, or next to prose that mentions such a flag, is refused as an
  unsupported flag, while the same comment for another database starts the plan.
\<close>

theorem database_name_read_as_flag:
  "oc_effects (handleIssueComment (Some example_config) True None (Some (example_payload ''schemabot plan -e staging -d orders-y''))) =
     [PostComment (RenderUnsupportedAutoConfirm ''plan'')] \<and>
   cmd_Database (ParseCommand ''schemabot plan -e staging -d orders-y'') = ''orders-y'' \<and>
   oc_effects (handleIssueComment (Some example_config) True None (Some (example_payload ''schemabot plan -e staging -d orders-x''))) =
     [Eyes 11, StartCommand (ParseCommand ''schemabot plan -e staging -d orders-x'')]"
  by (intro conjI; code_simp)

text \<open>Further fact: \<open>fix-lint\<close> is a command of the parser, but the dispatch answers it as an invalid command.\<close>

theorem fix_lint_invalid:
  "cmd_Found (ParseCommand ''schemabot fix-lint'') \<and>
   oc_response (handleIssueComment (Some example_config) True None (Some (example_payload ''schemabot fix-lint''))) =
     Some (200, ''invalid command'')"
  by (intro conjI; code_simp)

section \<open>The budget of re-folds\<close>

lemma Itoa_no_hash: "CHR ''#'' \<notin> set (Itoa i)"
proof -
  have "CHR ''#'' \<notin> set (digits n)" for n
    using digits_ok[of n] by (auto simp: list_all_iff is_digit_def)
  then show ?thesis by (simp add: Itoa_def)
qed

lemma Itoa_inject:
  assumes "Itoa i = Itoa j"
  shows "i = j"
proof -
  have inj: "m = n" if "digits m = digits n" for m n using digits_ok[of m] digits_ok[of n] unfolding that by (elim conjE) (rule trans[OF sym])
  have sign: "digits m \<noteq> CHR ''-'' # s" for m s using digits_ok[of m] is_digit_not_sign by (cases "digits m") auto
  consider "i < 0" "j < 0" | "i < 0" "\<not> j < 0" | "\<not> i < 0" "j < 0" | "\<not> i < 0" "\<not> j < 0" by blast
  then show ?thesis
  proof cases
    case 1
    then show ?thesis using assms inj[of "nat (- i)" "nat (- j)"] by (simp add: Itoa_def)
  next
    case 2
    then show ?thesis using assms sign[of "nat j" "digits (nat (- i))", symmetric] by (simp add: Itoa_def)
  next
    case 3
    then show ?thesis using assms sign[of "nat i" "digits (nat (- j))"] by (simp add: Itoa_def)
  next
    case 4
    then show ?thesis using assms inj[of "nat i" "nat j"] by (simp add: Itoa_def)
  qed
qed

text \<open>The keys of different pull requests differ.\<close>

lemma participantRefoldKey_inject:
  assumes "participantRefoldKey repo pr = participantRefoldKey repo' pr'"
  shows "repo = repo' \<and> pr = pr'"
proof -
  let ?k = "\<lambda>repo pr. rev (participantRefoldKey repo pr)"
  have "takeWhile (\<lambda>x. x \<noteq> CHR ''#'') (?k repo pr) = rev (Itoa pr)" for repo pr
    using Itoa_no_hash[of pr] by (auto simp: participantRefoldKey_def takeWhile_append)
  moreover have "dropWhile (\<lambda>x. x \<noteq> CHR ''#'') (?k repo pr) = CHR ''#'' # rev repo" for repo pr
    using Itoa_no_hash[of pr] by (auto simp: participantRefoldKey_def dropWhile_append)
  ultimately show ?thesis using assms Itoa_inject by (metis list.inject rev_is_rev_conv)
qed

text \<open>
  Further fact (bounds).  Without a fold that resolves every participant in between, passes that miss one arm at
  most three re-folds of a pull request, and do not touch the budget of another.
\<close>

fun missing_passes :: "int \<Rightarrow> string \<Rightarrow> int \<Rightarrow> nat \<Rightarrow> attempts \<Rightarrow> attempts \<times> int list" where
  "missing_passes override repo pr 0 m = (m, [])"
| "missing_passes override repo pr (Suc n) m =
    (case scheduleParticipantRefold override repo pr m of
       (m', delay) \<Rightarrow>
         (case missing_passes override repo pr n m' of
            (m'', delays) \<Rightarrow> (m'', (case delay of None \<Rightarrow> delays | Some t \<Rightarrow> t # delays))))"

lemma schedule_attempts:
  "attempts_of (fst (scheduleParticipantRefold override repo pr m)) key =
    (if key = participantRefoldKey repo pr \<and> participantRefoldBudgetRemaining m repo pr then Suc (attempts_of m key)
     else attempts_of m key)"
  by (auto simp: scheduleParticipantRefold_def participantRefoldBudgetRemaining_def Let_def attempts_of_def update_conv')

lemma schedule_armed:
  "snd (scheduleParticipantRefold override repo pr m) = None \<longleftrightarrow> \<not> participantRefoldBudgetRemaining m repo pr"
  by (simp add: scheduleParticipantRefold_def participantRefoldBudgetRemaining_def Let_def not_less)

theorem refolds_bounded:
  "length (snd (missing_passes override repo pr n m)) \<le> maxParticipantRefoldAttempts - attempts_of m (participantRefoldKey repo pr) \<and>
   ((repo', pr') \<noteq> (repo, pr) \<longrightarrow>
     attempts_of (fst (missing_passes override repo pr n m)) (participantRefoldKey repo' pr') =
     attempts_of m (participantRefoldKey repo' pr'))"
proof (induction n arbitrary: m)
  case (Suc n)
  obtain m' delay where s: "scheduleParticipantRefold override repo pr m = (m', delay)" by fastforce
  obtain m'' delays where p: "missing_passes override repo pr n m' = (m'', delays)" by fastforce
  have a: "attempts_of m' key = (if key = participantRefoldKey repo pr \<and> participantRefoldBudgetRemaining m repo pr then Suc (attempts_of m key)
     else attempts_of m key)" for key using schedule_attempts[of override repo pr m key] s by simp
  have d: "delay = None \<longleftrightarrow> \<not> participantRefoldBudgetRemaining m repo pr" using schedule_armed[of override repo pr m] s by simp
  have "(repo', pr') \<noteq> (repo, pr) \<Longrightarrow> participantRefoldKey repo' pr' \<noteq> participantRefoldKey repo pr"
    using participantRefoldKey_inject[of repo' pr' repo pr] by blast
  then show ?case using Suc.IH[of m'] s p a d
    by (auto simp: participantRefoldBudgetRemaining_def split: option.splits)
qed simp

end
