(* ===== verification/Passing_Checks.thy ===== *)
theory Passing_Checks
  imports Server_Config Check_Aggregate
begin

text \<open>
  Which check runs count (\<^verbatim>\<open>pkg/github/client.go\<close>) and the gate that holds an apply until the other
  checks of the pull request pass (\<^verbatim>\<open>pkg/webhook/apply_gating.go\<close>).  The GitHub service is a parameter:
  its answer to a listing is the list of pages, each an error or the rows of the page.  Retries of
  unavailable reads, the request collapsing of concurrent reads and logging are left out.
\<close>

section \<open>Trusted apps\<close>

text \<open>The slug of the client's own app, empty while unknown, and the trusted sibling apps.\<close>

record TrustedApps =
  appSlug :: string
  trustedCheckAppSlugs :: "string list"

definition isOwnAppSlug :: "TrustedApps \<Rightarrow> string \<Rightarrow> bool" where
  "isOwnAppSlug ic slug \<longleftrightarrow>
    (if slug = '''' then False
     else if appSlug ic = '''' then False
     else EqualFold slug (appSlug ic))"

definition isTrustedCheckAppSlug :: "TrustedApps \<Rightarrow> string \<Rightarrow> bool" where
  "isTrustedCheckAppSlug ic slug \<longleftrightarrow>
    (if slug = '''' then False
     else if isOwnAppSlug ic slug then True
     else list_ex (\<lambda>trusted. EqualFold slug trusted) (trustedCheckAppSlugs ic))"

section \<open>Finding a check run by name\<close>

text \<open>A check run as the service lists it.\<close>

record CheckRun =
  run_ID :: int
  run_Name :: string
  run_Status :: string
  run_Conclusion :: string
  run_AppSlug :: string

definition to_result :: "CheckRun \<Rightarrow> CheckRunResult" where
  "to_result run = \<lparr>cr_run_ID = run_ID run, cr_run_Name = run_Name run, cr_run_Status = run_Status run,
     cr_run_Conclusion = run_Conclusion run\<rparr>"

fun scan_runs ::
  "TrustedApps \<Rightarrow> CheckRunResult option \<times> string list \<Rightarrow> CheckRun list \<Rightarrow> CheckRunResult option \<times> string list" where
  "scan_runs ic (newest, untrustedApps) [] = (newest, untrustedApps)"
| "scan_runs ic (newest, untrustedApps) (run # runs) =
    (if \<not> isTrustedCheckAppSlug ic (run_AppSlug run) then
       scan_runs ic (newest, if run_AppSlug run \<in> set untrustedApps then untrustedApps
                             else untrustedApps @ [run_AppSlug run]) runs
     else
       scan_runs ic (case newest of
                       None \<Rightarrow> Some (to_result run)
                     | Some best \<Rightarrow> if run_ID run > cr_run_ID best then Some (to_result run) else newest,
                     untrustedApps) runs)"

fun scan_pages ::
  "TrustedApps \<Rightarrow> CheckRunResult option \<times> string list \<Rightarrow> (err + CheckRun list) list \<Rightarrow>
   err + CheckRunResult option \<times> string list" where
  "scan_pages ic acc [] = Inr acc"
| "scan_pages ic acc (Inl e # pages) = Inl (Wrapped ''list check runs by name'' e)"
| "scan_pages ic acc (Inr runs # pages) = scan_pages ic (scan_runs ic acc runs) pages"

text \<open>
  \<open>pages\<close> is what the service lists for a repository, a commit and a name.  The result has the shape the
  gates use: the newest run of a trusted app and the untrusted apps seen.
\<close>

definition FindCheckRunByName ::
  "TrustedApps \<Rightarrow> (string \<Rightarrow> string \<Rightarrow> string \<Rightarrow> (err + CheckRun list) list) \<Rightarrow> checkRunFinder" where
  "FindCheckRunByName ic pages repo headSHA checkName =
    (if appSlug ic = '''' \<and> trustedCheckAppSlugs ic = []
     then Inl (Errorf ''check run ownership cannot be verified'')
     else scan_pages ic (None, []) (pages repo headSHA checkName))"

section \<open>The checks of a pull request\<close>

record PRCheckStatus =
  pcs_Name :: string
  pcs_Status :: string
  pcs_Conclusion :: string
  pcs_AppSlug :: string
  pcs_IsSchemaBot :: bool

record CheckStatusRow =
  row_Name :: string
  row_Status :: string
  row_Conclusion :: string
  row_AppSlug :: string

definition mapLegacyStatusState :: "string \<Rightarrow> string \<times> string" where
  "mapLegacyStatusState st =
    (let up = ToUpper st in
     if up = ''PENDING'' \<or> up = ''EXPECTED'' then (''in_progress'', '''')
     else if up = ''SUCCESS'' then (''completed'', ''success'')
     else if up = ''FAILURE'' then (''completed'', ''failure'')
     else if up = ''ERROR'' then (''completed'', ''error'')
     else (''completed'', ToLower st))"

fun fetch_rows :: "('a \<Rightarrow> CheckStatusRow) \<Rightarrow> string \<Rightarrow> (err + 'a list) list \<Rightarrow> err + CheckStatusRow list" where
  "fetch_rows conv msg [] = Inr []"
| "fetch_rows conv msg (Inl e # pages) = Inl (Wrapped msg e)"
| "fetch_rows conv msg (Inr xs # pages) =
    (case fetch_rows conv msg pages of Inl e \<Rightarrow> Inl e | Inr out \<Rightarrow> Inr (map conv xs @ out))"

text \<open>Commit statuses are pairs of context and state.\<close>

definition fetchCommitStatusRows :: "(err + (string \<times> string) list) list \<Rightarrow> err + CheckStatusRow list" where
  "fetchCommitStatusRows = fetch_rows
    (\<lambda>(context, st). \<lparr>row_Name = context, row_Status = fst (mapLegacyStatusState st),
       row_Conclusion = snd (mapLegacyStatusState st), row_AppSlug = ''''\<rparr>) ''get combined commit status''"

definition fetchCheckRunRows :: "(err + CheckRun list) list \<Rightarrow> err + CheckStatusRow list" where
  "fetchCheckRunRows = fetch_rows
    (\<lambda>run. \<lparr>row_Name = run_Name run, row_Status = ToLower (run_Status run),
       row_Conclusion = ToLower (run_Conclusion run), row_AppSlug = run_AppSlug run\<rparr>) ''list check runs''"

definition checkRowsContainRequiredChecks :: "CheckStatusRow list \<Rightarrow> string list \<Rightarrow> bool" where
  "checkRowsContainRequiredChecks rows requiredChecks \<longleftrightarrow>
    list_all (\<lambda>required. required \<in> row_Name ` set rows) requiredChecks"

definition fetchPRCheckStatuses ::
  "(err + (string \<times> string) list) list \<Rightarrow> (err + CheckRun list) list \<Rightarrow> string list \<Rightarrow> err + CheckStatusRow list" where
  "fetchPRCheckStatuses statusPages runPages requiredChecks =
    (case fetchCommitStatusRows statusPages of
       Inl e \<Rightarrow> Inl e
     | Inr statusRows \<Rightarrow>
         if requiredChecks \<noteq> [] \<and> checkRowsContainRequiredChecks statusRows requiredChecks then Inr statusRows
         else (case fetchCheckRunRows runPages of
                 Inl e \<Rightarrow> Inl e
               | Inr checkRows \<Rightarrow> Inr (statusRows @ checkRows)))"

definition GetPRCheckStatuses ::
  "TrustedApps \<Rightarrow> (err + (string \<times> string) list) list \<Rightarrow> (err + CheckRun list) list \<Rightarrow> string list \<Rightarrow>
   err + PRCheckStatus list" where
  "GetPRCheckStatuses ic statusPages runPages requiredChecks =
    (case fetchPRCheckStatuses statusPages runPages requiredChecks of
       Inl e \<Rightarrow> Inl e
     | Inr rows \<Rightarrow> Inr (map (\<lambda>r. \<lparr>pcs_Name = row_Name r, pcs_Status = row_Status r,
         pcs_Conclusion = row_Conclusion r, pcs_AppSlug = row_AppSlug r,
         pcs_IsSchemaBot = isTrustedCheckAppSlug ic (row_AppSlug r)\<rparr>) rows))"

section \<open>The passing checks gate\<close>

record BlockingCheck =
  bc_Name :: string
  bc_State :: string

definition isPassingCheckConclusion :: "string \<Rightarrow> bool" where
  "isPassingCheckConclusion conclusion \<longleftrightarrow> conclusion \<in> {''success'', ''neutral'', ''skipped''}"

definition statusesContainRequiredCheck :: "PRCheckStatus list \<Rightarrow> ServerConfig option \<Rightarrow> bool" where
  "statusesContainRequiredCheck statuses config =
    (case config of
       None \<Rightarrow> False
     | Some c \<Rightarrow>
         if RequiredChecks c = [] then False
         else list_ex (\<lambda>s. \<not> pcs_IsSchemaBot s \<and> IsCheckRequired config (pcs_Name s)) statuses)"

text \<open>The statuses the two filters do not skip.\<close>

definition gate_statuses :: "PRCheckStatus list \<Rightarrow> ServerConfig option \<Rightarrow> PRCheckStatus list" where
  "gate_statuses statuses config =
    filter (\<lambda>s. \<not> pcs_IsSchemaBot s \<and>
      \<not> (statusesContainRequiredCheck statuses config \<and> \<not> IsCheckRequired config (pcs_Name s))) statuses"

definition filterNonPassingNonSchemaBotChecks ::
  "PRCheckStatus list \<Rightarrow> ServerConfig option \<Rightarrow> BlockingCheck list" where
  "filterNonPassingNonSchemaBotChecks statuses config =
    map (\<lambda>s. \<lparr>bc_Name = pcs_Name s, bc_State = pcs_Conclusion s\<rparr>)
      (filter (\<lambda>s. pcs_Status s = ''completed'' \<and> \<not> isPassingCheckConclusion (pcs_Conclusion s))
        (gate_statuses statuses config))"

definition filterInProgressNonSchemaBotChecks ::
  "PRCheckStatus list \<Rightarrow> ServerConfig option \<Rightarrow> BlockingCheck list" where
  "filterInProgressNonSchemaBotChecks statuses config =
    map (\<lambda>s. \<lparr>bc_Name = pcs_Name s, bc_State = pcs_Status s\<rparr>)
      (filter (\<lambda>s. pcs_Status s \<in> {''in_progress'', ''queued'', ''pending''}) (gate_statuses statuses config))"

definition missingRequiredChecks :: "PRCheckStatus list \<Rightarrow> ServerConfig option \<Rightarrow> BlockingCheck list" where
  "missingRequiredChecks statuses config =
    (case config of
       None \<Rightarrow> []
     | Some c \<Rightarrow> map (\<lambda>name. \<lparr>bc_Name = name, bc_State = ''not reported''\<rparr>)
         (filter (\<lambda>name. name \<notin> pcs_Name ` set statuses) (RequiredChecks c)))"

text \<open>The comment a gate posts when it blocks, with the data of the template.\<close>

datatype GateComment =
    RenderApplyBlockedByCheckStatusError string err
  | RenderApplyBlockedByNonPassingChecks string "BlockingCheck list"
  | RenderApplyBlockedByInProgressChecks string "BlockingCheck list" "BlockingCheck list"
  | RenderApplyBlockedByUnlistedEnvironment string "string list"
  | RenderApplyBlockedByPriorEnvCheckError string string err
  | RenderApplyBlockedByMissingPriorEnvCheck string
  | RenderApplyBlockedByUntrustedPriorEnvCheck string string "string list"
  | RenderApplyBlockedByPriorEnvInProgress string string string
  | RenderApplyBlockedByPriorEnv string string string string string

text \<open>
  \<open>fetch\<close> is the client's \<^verbatim>\<open>GetPRCheckStatuses\<close> for a repository, a commit and the required checks.  The
  result is the comment that blocks the apply, or \<open>None\<close> when it may proceed.  The handler reads the
  required checks of the configuration, so there is one.
\<close>

definition enforcePassingChecks ::
  "ServerConfig \<Rightarrow> (string \<Rightarrow> string \<Rightarrow> string list \<Rightarrow> err + PRCheckStatus list) \<Rightarrow> string \<Rightarrow> string \<Rightarrow> string \<Rightarrow>
   GateComment option" where
  "enforcePassingChecks c fetch repo headSHA environment =
    (let config = Some c in
     if \<not> ShouldRequirePassingChecks config then None
     else
       (case fetch repo headSHA (RequiredChecks c) of
          Inl e \<Rightarrow> Some (RenderApplyBlockedByCheckStatusError environment e)
        | Inr statuses \<Rightarrow>
            let notPassing = filterNonPassingNonSchemaBotChecks statuses config;
                inProgress = filterInProgressNonSchemaBotChecks statuses config;
                notReported = missingRequiredChecks statuses config in
            if notPassing \<noteq> [] then Some (RenderApplyBlockedByNonPassingChecks environment notPassing)
            else if inProgress \<noteq> [] \<or> notReported \<noteq> []
            then Some (RenderApplyBlockedByInProgressChecks environment inProgress notReported)
            else None))"

definition isAggregateCheckName :: "string \<Rightarrow> string \<Rightarrow> bool" where
  "isAggregateCheckName name aggregateBase \<longleftrightarrow>
    (if name = aggregateBase then True
     else HasPrefix name (aggregateBase @ '' ('') \<and> HasPrefix (rev name) '')'')"


section \<open>Lemmas\<close>

definition trusted_run :: "TrustedApps \<Rightarrow> CheckRun \<Rightarrow> bool" where
  "trusted_run ic run = isTrustedCheckAppSlug ic (run_AppSlug run)"

text \<open>What a scan with the accumulators \<open>newest\<close> and \<open>apps\<close> finds.\<close>

definition newest_spec :: "TrustedApps \<Rightarrow> CheckRunResult option \<Rightarrow> CheckRun list \<Rightarrow> CheckRunResult option \<Rightarrow> bool" where
  "newest_spec ic newest runs found =
    (case found of
       None \<Rightarrow> newest = None \<and> filter (trusted_run ic) runs = []
     | Some r \<Rightarrow>
         (newest = Some r \<or> (\<exists>run\<in>set runs. trusted_run ic run \<and> r = to_result run)) \<and>
         (\<forall>run\<in>set runs. trusted_run ic run \<longrightarrow> run_ID run \<le> cr_run_ID r) \<and>
         (\<forall>best. newest = Some best \<longrightarrow> cr_run_ID best \<le> cr_run_ID r))"

lemma cr_run_ID_to_result [simp]: "cr_run_ID (to_result run) = run_ID run"
  by (simp add: to_result_def)

lemma newest_step:
  assumes "trusted_run ic run"
    and "newest_spec ic (case newest of None \<Rightarrow> Some (to_result run)
           | Some best \<Rightarrow> if run_ID run > cr_run_ID best then Some (to_result run) else newest) runs found"
  shows "newest_spec ic newest (run # runs) found"
  using assms by (cases newest; cases found; cases "run_ID run > cr_run_ID (the newest)")
    (fastforce simp: newest_spec_def)+

lemma scan_runs_newest: "newest_spec ic newest runs (fst (scan_runs ic (newest, apps) runs))"
proof (induction runs arbitrary: newest apps)
  case Nil
  then show ?case by (simp add: newest_spec_def split: option.splits)
next
  case (Cons run runs)
  show ?case
  proof (cases "isTrustedCheckAppSlug ic (run_AppSlug run)")
    case True
    have "newest_spec ic newest (run # runs) (fst (scan_runs ic (case newest of None \<Rightarrow> Some (to_result run)
           | Some best \<Rightarrow> if run_ID run > cr_run_ID best then Some (to_result run) else newest, apps) runs))"
      by (rule newest_step) (use True in \<open>simp add: trusted_run_def\<close>, rule Cons.IH)
    with True show ?thesis by simp
  next
    case False
    have "newest_spec ic newest (run # runs) found" if "newest_spec ic newest runs found" for found
      using that False by (simp add: newest_spec_def trusted_run_def split: option.splits)
    from this [OF Cons.IH] show ?thesis by (simp only: scan_runs.simps if_P [OF False])
  qed
qed

lemma scan_runs_untrusted:
  "set (snd (scan_runs ic (newest, apps) runs)) =
    set apps \<union> run_AppSlug ` {run \<in> set runs. \<not> trusted_run ic run} \<and>
   (distinct apps \<longrightarrow> distinct (snd (scan_runs ic (newest, apps) runs)))"
proof (induction runs arbitrary: newest apps)
  case (Cons run runs)
  show ?case
  proof (cases "isTrustedCheckAppSlug ic (run_AppSlug run)")
    case True
    with Cons.IH show ?thesis by (auto simp: trusted_run_def)
  next
    case False
    let ?apps = "if run_AppSlug run \<in> set apps then apps else apps @ [run_AppSlug run]"
    have "scan_runs ic (newest, apps) (run # runs) = scan_runs ic (newest, ?apps) runs"
      by (simp only: scan_runs.simps if_P [OF False])
    moreover have "set ?apps = insert (run_AppSlug run) (set apps)" "distinct apps \<Longrightarrow> distinct ?apps" by auto
    moreover have "{r \<in> set (run # runs). \<not> trusted_run ic r} = insert run {r \<in> set runs. \<not> trusted_run ic r}"
      using False by (auto simp: trusted_run_def)
    ultimately show ?thesis using Cons.IH [of newest ?apps] by simp
  qed
qed simp

lemma scan_pages_runs:
  "scan_pages ic acc pages = Inr res \<longleftrightarrow>
    (\<forall>p\<in>set pages. \<not> isl p) \<and> res = scan_runs ic acc (concat (map projr pages))"
proof (induction ic acc pages rule: scan_pages.induct)
  case (3 ic acc runs pages)
  have "scan_runs ic (scan_runs ic acc runs) rs = scan_runs ic acc (runs @ rs)" for rs
    by (induction ic acc runs rule: scan_runs.induct) auto
  with 3 show ?case by simp
qed auto

section \<open>Properties\<close>

text \<open>
  Further fact (which run a gate sees).  A lookup by name that answers has read every page; it gives the
  run with the greatest id among the runs of trusted apps, none exactly when there is no such run, and
  the distinct untrusted apps with a run of that name.  When no app identity is known it is an error.
\<close>

theorem find_check_run_newest_trusted:
  assumes "FindCheckRunByName ic pages repo headSHA checkName = Inr (found, untrusted)"
    and "runs = concat (map projr (pages repo headSHA checkName))"
  shows "(\<forall>p\<in>set (pages repo headSHA checkName). \<not> isl p) \<and> (appSlug ic \<noteq> '''' \<or> trustedCheckAppSlugs ic \<noteq> []) \<and>
    newest_spec ic None runs found \<and> distinct untrusted \<and>
    set untrusted = run_AppSlug ` {run \<in> set runs. \<not> isTrustedCheckAppSlug ic (run_AppSlug run)}"
proof -
  from assms(1) have known: "\<not> (appSlug ic = '''' \<and> trustedCheckAppSlugs ic = [])"
    and scan: "scan_pages ic (None, []) (pages repo headSHA checkName) = Inr (found, untrusted)"
    by (auto simp: FindCheckRunByName_def split: if_splits)
  from scan have pages: "\<forall>p\<in>set (pages repo headSHA checkName). \<not> isl p"
    and res: "(found, untrusted) = scan_runs ic (None, []) runs"
    by (simp_all add: scan_pages_runs assms(2))
  from res have "found = fst (scan_runs ic (None, []) runs)" "untrusted = snd (scan_runs ic (None, []) runs)"
    by (metis fst_conv, metis snd_conv)
  with known pages scan_runs_newest [of ic None runs "[]"] scan_runs_untrusted [of ic None "[]" runs] show ?thesis
    by (simp add: trusted_run_def)
qed

definition example_apps :: TrustedApps where
  "example_apps = \<lparr>appSlug = ''schemabot'', trustedCheckAppSlugs = [''schemabot-eu'']\<rparr>"

definition example_run :: "int \<Rightarrow> string \<Rightarrow> string \<Rightarrow> string \<Rightarrow> CheckRun" where
  "example_run i st conclusion app =
    \<lparr>run_ID = i, run_Name = ''SchemaBot (staging)'', run_Status = st, run_Conclusion = conclusion, run_AppSlug = app\<rparr>"

definition example_pages :: "string \<Rightarrow> string \<Rightarrow> string \<Rightarrow> (err + CheckRun list) list" where
  "example_pages repo sha name =
    [Inr [example_run 9 ''completed'' ''success'' ''github-actions'', example_run 3 ''completed'' ''failure'' ''SchemaBot''],
     Inr [example_run 5 ''completed'' ''success'' ''schemabot-eu'']]"

theorem find_check_run_newest_trusted_witness:
  "newest_spec example_apps None (concat (map projr (example_pages ''org/app'' ''sha1'' ''SchemaBot (staging)'')))
     (Some (to_result (example_run 5 ''completed'' ''success'' ''schemabot-eu'')))"
proof -
  have "FindCheckRunByName example_apps example_pages ''org/app'' ''sha1'' ''SchemaBot (staging)'' =
      Inr (Some (to_result (example_run 5 ''completed'' ''success'' ''schemabot-eu'')), [''github-actions''])"
    by code_simp
  from find_check_run_newest_trusted [OF this refl] show ?thesis by blast
qed

text \<open>
  Property C24 (the passing checks gate, exactly).  With the gate enabled, an apply may proceed exactly
  when the statuses could be read, every configured required check was reported, and each check the
  gate considers (not from a trusted SchemaBot app, and only the required ones when one of them is
  present) neither completed with a conclusion other than success, neutral or skipped nor has one of the
  statuses in progress, queued or pending.  The page \<^verbatim>\<open>docs/configuration.md\<close> says instead that an absent
  configured check does not block.
\<close>

theorem passing_gate_exact:
  "enforcePassingChecks c fetch repo headSHA environment = None \<longleftrightarrow>
    (RequirePassingChecks c = Some False \<or>
     (\<exists>statuses. fetch repo headSHA (RequiredChecks c) = Inr statuses \<and>
        set (RequiredChecks c) \<subseteq> pcs_Name ` set statuses \<and>
        {s \<in> set statuses. \<not> pcs_IsSchemaBot s \<and>
           (pcs_Name s \<in> set (RequiredChecks c) \<or>
            (\<nexists>r. r \<in> set statuses \<and> \<not> pcs_IsSchemaBot r \<and> pcs_Name r \<in> set (RequiredChecks c))) \<and>
           (pcs_Status s = ''completed'' \<and> pcs_Conclusion s \<notin> {''success'', ''neutral'', ''skipped''} \<or>
            pcs_Status s \<in> {''in_progress'', ''queued'', ''pending''})} = {}))"
proof -
  have gate: "ShouldRequirePassingChecks (Some c) \<longleftrightarrow> RequirePassingChecks c \<noteq> Some False"
    by (auto simp: ShouldRequirePassingChecks_def default_true_def split: option.splits)
  have considered: "s \<in> set (gate_statuses statuses (Some c)) \<longleftrightarrow> s \<in> set statuses \<and> \<not> pcs_IsSchemaBot s \<and>
      (pcs_Name s \<in> set (RequiredChecks c) \<or>
       (\<nexists>r. r \<in> set statuses \<and> \<not> pcs_IsSchemaBot r \<and> pcs_Name r \<in> set (RequiredChecks c)))" for s statuses
    by (auto simp: gate_statuses_def statusesContainRequiredCheck_def IsCheckRequired_def list_ex_iff)
  have missing: "missingRequiredChecks statuses (Some c) = [] \<longleftrightarrow> set (RequiredChecks c) \<subseteq> pcs_Name ` set statuses"
    for statuses by (auto simp: missingRequiredChecks_def filter_empty_conv)
  have filters: "filterNonPassingNonSchemaBotChecks statuses (Some c) = [] \<and>
      filterInProgressNonSchemaBotChecks statuses (Some c) = [] \<longleftrightarrow>
      {s. s \<in> set (gate_statuses statuses (Some c)) \<and>
        (pcs_Status s = ''completed'' \<and> pcs_Conclusion s \<notin> {''success'', ''neutral'', ''skipped''} \<or>
         pcs_Status s \<in> {''in_progress'', ''queued'', ''pending''})} = {}" for statuses
    by (auto simp: filterNonPassingNonSchemaBotChecks_def filterInProgressNonSchemaBotChecks_def
          isPassingCheckConclusion_def filter_empty_conv)
  have "enforcePassingChecks c fetch repo headSHA environment = None \<longleftrightarrow>
    \<not> ShouldRequirePassingChecks (Some c) \<or> (\<exists>statuses. fetch repo headSHA (RequiredChecks c) = Inr statuses \<and>
      (filterNonPassingNonSchemaBotChecks statuses (Some c) = [] \<and>
       filterInProgressNonSchemaBotChecks statuses (Some c) = []) \<and> missingRequiredChecks statuses (Some c) = [])"
    by (auto simp: enforcePassingChecks_def Let_def split: sum.splits)
  then show ?thesis
    unfolding gate filters missing considered by (auto simp only: conj_assoc conj_commute)
qed


definition waiting_check :: PRCheckStatus where
  "waiting_check = \<lparr>pcs_Name = ''deploy-approval'', pcs_Status = ''waiting'', pcs_Conclusion = '''',
     pcs_AppSlug = ''github-actions'', pcs_IsSchemaBot = False\<rparr>"

theorem passing_gate_exact_witness:
  "enforcePassingChecks example_config (\<lambda>repo sha required. Inr [waiting_check]) ''org/app'' ''sha1'' ''production'' = None"
  unfolding passing_gate_exact by (simp add: waiting_check_def example_config_def)

end
