(* ===== verification/Promotion_Gate.thy ===== *)
theory Promotion_Gate
  imports Passing_Checks
begin

text \<open>
  The promotion gate (\<^verbatim>\<open>pkg/webhook/check_prior_env.go\<close>): an apply to an environment needs a passing check
  in every earlier environment of the server's promotion order.  Environments this instance owns are
  read from the check store, others from GitHub.  The gate runs under interference: a read and a wait
  take a turn each, so the other sessions may act and the context may be cancelled in between.  GitHub
  may answer differently at each attempt, so its answer is a function of the attempt.
\<close>

section \<open>The gate\<close>

definition scopedTargetMissingFromPromotionOrder :: "ServerConfig option \<Rightarrow> string \<Rightarrow> bool" where
  "scopedTargetMissingFromPromotionOrder config environment =
    (case config of
       None \<Rightarrow> False
     | Some c \<Rightarrow>
         if AllowedEnvironments c = [] then False
         else environment \<notin> set (PromotionEnvironmentOrder config))"

definition promotionGateEnvironments :: "ServerConfig option \<Rightarrow> string \<Rightarrow> string list \<Rightarrow> string list" where
  "promotionGateEnvironments config environment environments =
    (case config of
       None \<Rightarrow> environments
     | Some c \<Rightarrow>
         if AllowedEnvironments c \<noteq> [] \<and> environment \<in> set (PromotionEnvironmentOrder config)
         then PromotionEnvironmentOrder config
         else OrderedEnvironments config environments)"

definition defaultPriorEnvCheckMaxAttempts :: nat where
  "defaultPriorEnvCheckMaxAttempts = 4"

text \<open>The configured number of attempts, or the default when it is not positive.\<close>

definition priorEnvCheckMaxAttemptCount :: "int \<Rightarrow> nat" where
  "priorEnvCheckMaxAttemptCount configured =
    (if configured \<le> 0 then defaultPriorEnvCheckMaxAttempts else nat configured)"

definition shouldRetryStoredPriorEnvCheck :: "Check option \<Rightarrow> bool" where
  "shouldRetryStoredPriorEnvCheck check =
    (case check of None \<Rightarrow> True | Some c \<Rightarrow> chk_Status c = checkStatusInProgress)"

definition shouldRetryGitHubPriorEnvCheck :: "CheckRunResult option \<Rightarrow> bool" where
  "shouldRetryGitHubPriorEnvCheck check =
    (case check of
       None \<Rightarrow> True
     | Some r \<Rightarrow> cr_run_Status r = checkStatusQueued \<or> cr_run_Status r = checkStatusInProgress)"

text \<open>The loop \<^verbatim>\<open>for attempt := 1; attempt <= attempts; attempt++\<close> of \<^verbatim>\<open>waitForLocalPriorEnvCheck\<close>.\<close>

function wait_local_loop :: "Check option prog \<Rightarrow> nat \<Rightarrow> nat \<Rightarrow> Check option prog" where
  "wait_local_loop get attempts attempt =
    (if attempt > attempts then State_Monad.return (Inr None)
     else
       do {
         g \<leftarrow> get;
         case g of
           Inl e \<Rightarrow> State_Monad.return (Inl e)
         | Inr check \<Rightarrow>
             if \<not> shouldRetryStoredPriorEnvCheck check \<or> attempt = attempts
             then State_Monad.return (Inr check)
             else
               do {
                 s \<leftarrow> sleepBackoff;
                 case s of
                   Inl e \<Rightarrow> State_Monad.return (Inl e)
                 | Inr _ \<Rightarrow> wait_local_loop get attempts (Suc attempt)
               }
       })"
  by pat_completeness auto

termination
  by (relation "measure (\<lambda>(get, attempts, attempt). Suc attempts - attempt)") auto

declare wait_local_loop.simps [simp del]

definition waitForLocalPriorEnvCheck ::
  "(string \<Rightarrow> string) \<Rightarrow> nat \<Rightarrow> string \<Rightarrow> int \<Rightarrow> string \<Rightarrow> string \<Rightarrow> string \<Rightarrow> Check option prog" where
  "waitForLocalPriorEnvCheck ci attempts repo pr database dbType priorEnv =
    wait_local_loop (Check_Get ci repo pr priorEnv dbType database) attempts 1"

text \<open>Why the gate blocks after a check was found; the last arm of both switches.\<close>

definition blocked_by_result :: "string \<Rightarrow> string \<Rightarrow> string \<Rightarrow> string \<Rightarrow> GateComment" where
  "blocked_by_result database environment priorEnv conclusion =
    (if conclusion = checkConclusionFailure
     then RenderApplyBlockedByPriorEnv database environment priorEnv ''failed''
       (''Fix the issue and re-apply '' @ priorEnv)
     else RenderApplyBlockedByPriorEnv database environment priorEnv ''has pending changes''
       (''Apply '' @ priorEnv @ '' first''))"

text \<open>The result is the comment that blocks the apply, or \<open>None\<close>.\<close>

definition checkPriorEnvViaLocal ::
  "(string \<Rightarrow> string) \<Rightarrow> nat \<Rightarrow> string \<Rightarrow> int \<Rightarrow> string \<Rightarrow> string \<Rightarrow> string \<Rightarrow> string \<Rightarrow> GateComment option prog" where
  "checkPriorEnvViaLocal ci attempts repo pr database dbType environment priorEnv =
    do {
      r \<leftarrow> waitForLocalPriorEnvCheck ci attempts repo pr database dbType priorEnv;
      State_Monad.return (Inr (case r of
        Inl e \<Rightarrow> Some (RenderApplyBlockedByPriorEnvCheckError priorEnv ''read SchemaBot storage'' e)
      | Inr None \<Rightarrow> Some (RenderApplyBlockedByMissingPriorEnvCheck priorEnv)
      | Inr (Some check) \<Rightarrow>
          if chk_Conclusion check = checkConclusionSuccess then None
          else if chk_Status check = checkStatusInProgress
          then Some (RenderApplyBlockedByPriorEnvInProgress database environment priorEnv)
          else Some (blocked_by_result database environment priorEnv (chk_Conclusion check))))
    }"

text \<open>What the gate asks of GitHub: a client for the repository, the head commit, and runs by name.\<close>

record GateClient =
  gate_client :: "err + unit"
  gate_head :: "string \<Rightarrow> int \<Rightarrow> err + string"
  gate_find :: "nat \<Rightarrow> checkRunFinder"

function wait_github_loop ::
  "(nat \<Rightarrow> err + CheckRunResult option \<times> string list) \<Rightarrow> nat \<Rightarrow> nat \<Rightarrow> string list \<Rightarrow>
   (CheckRunResult option \<times> string list) prog" where
  "wait_github_loop lookup attempts attempt untrustedApps =
    (if attempt > attempts then State_Monad.return (Inr (None, untrustedApps))
     else
       (case lookup attempt of
          Inl e \<Rightarrow> State_Monad.return (Inl e)
        | Inr (checkResult, untrusted) \<Rightarrow>
            if \<not> shouldRetryGitHubPriorEnvCheck checkResult \<or> attempt = attempts
            then State_Monad.return (Inr (checkResult, untrusted))
            else
              do {
                s \<leftarrow> sleepBackoff;
                case s of
                  Inl e \<Rightarrow> State_Monad.return (Inl e)
                | Inr _ \<Rightarrow> wait_github_loop lookup attempts (Suc attempt) untrusted
              }))"
  by pat_completeness auto

termination
  by (relation "measure (\<lambda>(lookup, attempts, attempt, apps). Suc attempts - attempt)") auto

declare wait_github_loop.simps [simp del]

definition waitForGitHubPriorEnvCheck ::
  "GateClient \<Rightarrow> nat \<Rightarrow> string \<Rightarrow> string \<Rightarrow> string \<Rightarrow> (CheckRunResult option \<times> string list) prog" where
  "waitForGitHubPriorEnvCheck client attempts repo headSHA checkName =
    wait_github_loop (\<lambda>attempt. gate_find client attempt repo headSHA checkName) attempts 1 []"

text \<open>\<open>base\<close> is the aggregate check name of the repository.\<close>

definition checkPriorEnvViaGitHub ::
  "GateClient \<Rightarrow> nat \<Rightarrow> string \<Rightarrow> string \<Rightarrow> int \<Rightarrow> string \<Rightarrow> string \<Rightarrow> string \<Rightarrow> GateComment option prog" where
  "checkPriorEnvViaGitHub client attempts base repo pr database environment priorEnv =
    (case gate_client client of
       Inl e \<Rightarrow> State_Monad.return (Inr (Some (RenderApplyBlockedByPriorEnvCheckError priorEnv ''create GitHub client'' e)))
     | Inr _ \<Rightarrow>
       (case gate_head client repo pr of
          Inl e \<Rightarrow> State_Monad.return (Inr (Some (RenderApplyBlockedByPriorEnvCheckError priorEnv ''fetch PR details'' e)))
        | Inr headSHA \<Rightarrow>
            do {
              r \<leftarrow> waitForGitHubPriorEnvCheck client attempts repo headSHA (aggregateCheckNameForEnv base priorEnv);
              State_Monad.return (Inr (case r of
                Inl e \<Rightarrow> Some (RenderApplyBlockedByPriorEnvCheckError priorEnv ''query check runs'' e)
              | Inr (None, untrustedApps) \<Rightarrow>
                  if untrustedApps \<noteq> []
                  then Some (RenderApplyBlockedByUntrustedPriorEnvCheck priorEnv
                    (aggregateCheckNameForEnv base priorEnv) untrustedApps)
                  else Some (RenderApplyBlockedByMissingPriorEnvCheck priorEnv)
              | Inr (Some result, untrustedApps) \<Rightarrow>
                  if cr_run_Status result = checkStatusCompleted \<and> cr_run_Conclusion result = checkConclusionSuccess
                  then None
                  else if cr_run_Status result = checkStatusInProgress \<or> cr_run_Status result = checkStatusQueued
                  then Some (RenderApplyBlockedByPriorEnvInProgress database environment priorEnv)
                  else Some (blocked_by_result database environment priorEnv (cr_run_Conclusion result))))
            }))"

text \<open>The environments before the first occurrence of the target; none when the target is not listed.\<close>

definition prior_environments :: "string \<Rightarrow> string list \<Rightarrow> string list" where
  "prior_environments environment environments =
    (if environment \<in> set environments then takeWhile (\<lambda>env. env \<noteq> environment) environments else [])"

fun check_priors :: "(string \<Rightarrow> GateComment option prog) \<Rightarrow> string list \<Rightarrow> GateComment option prog" where
  "check_priors check [] = State_Monad.return (Inr None)"
| "check_priors check (priorEnv # rest) =
    do {
      r \<leftarrow> check priorEnv;
      case r of
        Inl e \<Rightarrow> State_Monad.return (Inl e)
      | Inr (Some comment) \<Rightarrow> State_Monad.return (Inr (Some comment))
      | Inr None \<Rightarrow> check_priors check rest
    }"

definition checkPriorEnvironments ::
  "(string \<Rightarrow> string) \<Rightarrow> ServerConfig option \<Rightarrow> GateClient \<Rightarrow> int \<Rightarrow> string \<Rightarrow> string \<Rightarrow> int \<Rightarrow> string \<Rightarrow> string \<Rightarrow> string \<Rightarrow>
   string list \<Rightarrow> GateComment option prog" where
  "checkPriorEnvironments ci config client maxAttempts base repo pr database dbType environment environments =
    (if scopedTargetMissingFromPromotionOrder config environment
     then State_Monad.return (Inr (Some (RenderApplyBlockedByUnlistedEnvironment environment
       (PromotionEnvironmentOrder config))))
     else
       check_priors
         (\<lambda>priorEnv.
            if IsEnvironmentAllowed config priorEnv
            then checkPriorEnvViaLocal ci (priorEnvCheckMaxAttemptCount maxAttempts) repo pr database dbType environment priorEnv
            else checkPriorEnvViaGitHub client (priorEnvCheckMaxAttemptCount maxAttempts) base repo pr database environment priorEnv)
         (prior_environments environment (promotionGateEnvironments config environment environments)))"


section \<open>Lemmas\<close>

lemma hoare_pair:
  assumes "\<And>x y. r = (x, y) \<Longrightarrow> hoare P (f x y) Q"
  shows "hoare P (case r of (x, y) \<Rightarrow> f x y) Q"
  using assms by (cases r) simp

text \<open>
  The two waiting loops: \<open>P a\<close> holds before attempt \<open>a\<close>, \<open>G a\<close> after its read, and \<open>Q\<close> at the end.
\<close>

lemma hoare_wait_local:
  assumes get: "\<And>a. a \<le> attempts \<Longrightarrow> hoare (P a) get (\<lambda>r w. G a w \<and> (\<forall>x. r = Inr x \<longrightarrow> R x))"
    and wait: "\<And>a. a < attempts \<Longrightarrow> hoare (G a) sleepBackoff (\<lambda>_ w. P (Suc a) w \<and> Q w)"
    and post: "\<And>a w. a \<le> attempts \<Longrightarrow> G a w \<Longrightarrow> Q w"
    and "attempt \<le> attempts"
  shows "hoare (P attempt) (wait_local_loop get attempts attempt)
    (\<lambda>r w. Q w \<and> (\<forall>c. r = Inr (Some c) \<longrightarrow> R (Some c)))"
  using \<open>attempt \<le> attempts\<close>
proof (induction "attempts - attempt" arbitrary: attempt)
  case 0
  then have eq: "attempt = attempts" by simp
  show ?case
    unfolding eq
    by (subst wait_local_loop.simps, intro hoare_if hoare_bind [OF get] hoare_sum hoare_return)
       (use post [of attempts] in auto)
next
  case (Suc n)
  let ?post = "\<lambda>r w. Q w \<and> (\<forall>c. r = Inr (Some c) \<longrightarrow> R (Some c))"
  from Suc have lt: "attempt < attempts" and IH: "hoare (P (Suc attempt)) (wait_local_loop get attempts (Suc attempt)) ?post"
    by simp_all
  have rest: "hoare (G attempt) (do { s \<leftarrow> sleepBackoff; case s of Inl e \<Rightarrow> State_Monad.return (Inl e)
              | Inr _ \<Rightarrow> wait_local_loop get attempts (Suc attempt) }) ?post"
    by (intro hoare_bind [OF wait [OF lt]] hoare_sum hoare_return hoare_conseq [OF IH]) simp_all
  show ?case
    by (subst wait_local_loop.simps, intro hoare_if hoare_bind [OF get] hoare_sum hoare_return hoare_conseq [OF rest])
       (use lt post [of attempt] in auto)
qed

lemma hoare_wait_github:
  assumes wait: "\<And>a. a < attempts \<Longrightarrow> hoare (P a) sleepBackoff (\<lambda>_ w. P (Suc a) w \<and> Q w)"
    and post: "\<And>a w. a \<le> attempts \<Longrightarrow> P a w \<Longrightarrow> Q w"
    and "attempt \<le> attempts"
  shows "hoare (P attempt) (wait_github_loop lookup attempts attempt apps)
    (\<lambda>r w. Q w \<and> (\<forall>c u. r = Inr (Some c, u) \<longrightarrow>
      (\<exists>a. attempt \<le> a \<and> a \<le> attempts \<and> lookup a = Inr (Some c, u))))"
  using \<open>attempt \<le> attempts\<close>
proof (induction "attempts - attempt" arbitrary: attempt apps)
  case 0
  then have eq: "attempt = attempts" by simp
  show ?case
    unfolding eq
    by (subst wait_github_loop.simps, intro hoare_if hoare_sum hoare_pair hoare_return)
       (use post [of attempts] in auto)
next
  case (Suc n)
  let ?post = "\<lambda>r w. Q w \<and> (\<forall>c u. r = Inr (Some c, u) \<longrightarrow>
      (\<exists>a. attempt \<le> a \<and> a \<le> attempts \<and> lookup a = Inr (Some c, u)))"
  from Suc have lt: "attempt < attempts" by simp
  have IH: "hoare (P (Suc attempt)) (wait_github_loop lookup attempts (Suc attempt) u) ?post" for u
    by (rule hoare_conseq [OF Suc.hyps(1)]) (use Suc.hyps(2) lt in \<open>auto, meson Suc_leD\<close>)
  have rest: "hoare (P attempt) (do { s \<leftarrow> sleepBackoff; case s of Inl e \<Rightarrow> State_Monad.return (Inl e)
              | Inr _ \<Rightarrow> wait_github_loop lookup attempts (Suc attempt) u }) ?post" for u
    by (intro hoare_bind [OF wait [OF lt]] hoare_sum hoare_return hoare_conseq [OF IH]) simp_all
  show ?case
    by (subst wait_github_loop.simps, intro hoare_if hoare_sum hoare_pair hoare_return hoare_conseq [OF rest])
       (use lt post [of attempt] in auto)
qed


lemma hoare_frame: "hoare P p Q \<Longrightarrow> hoare (\<lambda>w. P w \<and> A) p (\<lambda>r w. Q r w \<and> A)"
  by (auto simp: hoare_def split: prod.splits)

text \<open>A list of gates that each answer and keep \<open>P\<close>.\<close>

lemma hoare_check_priors:
  assumes "\<And>p. p \<in> set priors \<Longrightarrow> hoare P (check p) (\<lambda>r w. P w \<and> (\<exists>x. r = Inr x) \<and> (r = Inr None \<longrightarrow> R p))"
  shows "hoare P (check_priors check priors)
    (\<lambda>r w. P w \<and> (\<exists>x. r = Inr x) \<and> (r = Inr None \<longrightarrow> (\<forall>p\<in>set priors. R p)))"
  using assms
proof (induction priors)
  case (Cons p priors)
  have rest: "hoare P (check_priors check priors)
      (\<lambda>r w. P w \<and> (\<exists>x. r = Inr x) \<and> (r = Inr None \<longrightarrow> (\<forall>p\<in>set priors. R p)))"
    using Cons by simp
  show ?case
    unfolding check_priors.simps
  proof (rule hoare_bind [OF Cons.prems])
    fix r :: "err + GateComment option"
    show "hoare (\<lambda>w. P w \<and> (\<exists>x. r = Inr x) \<and> (r = Inr None \<longrightarrow> R p))
      (case r of Inl e \<Rightarrow> State_Monad.return (Inl e) | Inr None \<Rightarrow> check_priors check priors
       | Inr (Some comment) \<Rightarrow> State_Monad.return (Inr (Some comment)))
      (\<lambda>r w. P w \<and> (\<exists>x. r = Inr x) \<and> (r = Inr None \<longrightarrow> (\<forall>q\<in>set (p # priors). R q)))"
      by (intro hoare_sum hoare_option hoare_return hoare_conseq [OF hoare_frame [OF rest, of "R p"]]) auto
  qed simp
qed (simp add: hoare_return)

text \<open>What makes the gate accept a prior environment, from the check store and from GitHub.\<close>

definition local_verified ::
  "(string \<Rightarrow> string) \<Rightarrow> string \<Rightarrow> int \<Rightarrow> string \<Rightarrow> string \<Rightarrow> string \<Rightarrow> db \<Rightarrow> bool" where
  "local_verified ci repo pr database dbType priorEnv d \<longleftrightarrow>
    (\<exists>c. find (\<lambda>r. chk_key ci r = (ci repo, pr, ci priorEnv, ci dbType, ci database)) (checks d) = Some c \<and>
         chk_Conclusion c = checkConclusionSuccess)"

definition remote_passed :: "GateClient \<Rightarrow> nat \<Rightarrow> string \<Rightarrow> string \<Rightarrow> int \<Rightarrow> string \<Rightarrow> bool" where
  "remote_passed client attempt base repo pr priorEnv \<longleftrightarrow>
    (\<exists>sha result apps. gate_client client = Inr () \<and> gate_head client repo pr = Inr sha \<and>
      gate_find client attempt repo sha (aggregateCheckNameForEnv base priorEnv) = Inr (Some result, apps) \<and>
      cr_run_Status result = checkStatusCompleted \<and> cr_run_Conclusion result = checkConclusionSuccess)"

abbreviation sees :: "db set \<Rightarrow> world \<Rightarrow> bool" where
  "sees M w \<equiv> moments w \<subseteq> M"

lemma local_gate_sees:
  assumes "0 < attempts"
  shows "hoare (sees M) (checkPriorEnvViaLocal ci attempts repo pr database dbType environment priorEnv)
    (\<lambda>r w. sees M w \<and> (\<exists>x. r = Inr x) \<and>
       (r = Inr None \<longrightarrow> (\<exists>d\<in>M. local_verified ci repo pr database dbType priorEnv d)))"
proof -
  let ?q = "\<lambda>d. find (\<lambda>r. chk_key ci r = (ci repo, pr, ci priorEnv, ci dbType, ci database)) (checks d)"
  have wait: "hoare (sees M) (waitForLocalPriorEnvCheck ci attempts repo pr database dbType priorEnv)
      (\<lambda>r w. sees M w \<and> (\<forall>c. r = Inr (Some c) \<longrightarrow> Some c \<in> ?q ` M))"
    unfolding waitForLocalPriorEnvCheck_def Check_Get_def
    by (rule hoare_wait_local [where P = "\<lambda>_. sees M" and G = "\<lambda>_. sees M"])
       (use assms in \<open>auto intro: hoare_query_moment hoare_conseq [OF hoare_sleep_moment]\<close>)
  show ?thesis
    unfolding checkPriorEnvViaLocal_def
    by (rule hoare_bind [OF wait], rule hoare_return)
       (auto simp: local_verified_def split: sum.splits option.splits if_splits, metis)
qed

lemma github_gate_sees:
  assumes "0 < attempts"
  shows "hoare (sees M) (checkPriorEnvViaGitHub client attempts base repo pr database environment priorEnv)
    (\<lambda>r w. sees M w \<and> (\<exists>x. r = Inr x) \<and>
       (r = Inr None \<longrightarrow> (\<exists>a. 1 \<le> a \<and> a \<le> attempts \<and> remote_passed client a base repo pr priorEnv)))"
proof -
  have wait: "hoare (sees M) (waitForGitHubPriorEnvCheck client attempts repo sha name)
      (\<lambda>r w. sees M w \<and> (\<forall>c u. r = Inr (Some c, u) \<longrightarrow>
         (\<exists>a. 1 \<le> a \<and> a \<le> attempts \<and> gate_find client a repo sha name = Inr (Some c, u))))" for sha name
    unfolding waitForGitHubPriorEnvCheck_def
    by (rule hoare_wait_github [where P = "\<lambda>_. sees M"])
       (use assms in \<open>auto intro: hoare_conseq [OF hoare_sleep_moment]\<close>)
  show ?thesis
    unfolding checkPriorEnvViaGitHub_def
    by (intro hoare_sum hoare_return hoare_bind [OF wait])
       (auto simp: remote_passed_def split: sum.splits option.splits if_splits, blast+)
qed

lemma attempts_pos: "0 < priorEnvCheckMaxAttemptCount configured"
  by (simp add: priorEnvCheckMaxAttemptCount_def defaultPriorEnvCheckMaxAttempts_def)


text \<open>Without interference a loop ends with what is stored, or with the first run that does not ask for a retry.\<close>

lemma wait_local_quiet:
  "attempt \<le> attempts \<Longrightarrow> run_state (wait_local_loop (QueryContext q) attempts attempt) (quiet d) = (Inr (q d), quiet d)"
proof (induction "attempts - attempt" arbitrary: attempt)
  case 0
  then show ?case by (subst wait_local_loop.simps) simp
next
  case (Suc n)
  then have "run_state (wait_local_loop (QueryContext q) attempts (Suc attempt)) (quiet d) = (Inr (q d), quiet d)"
    by simp
  with Suc.prems show ?case by (subst wait_local_loop.simps) simp
qed

lemma wait_github_quiet:
  assumes "lookup a = Inr (Some c, u)" and "\<not> shouldRetryGitHubPriorEnvCheck (Some c)" and "a \<le> attempts"
    and "attempt \<le> a"
    and "\<And>b. attempt \<le> b \<Longrightarrow> b < a \<Longrightarrow> \<exists>r v. lookup b = Inr (r, v) \<and> shouldRetryGitHubPriorEnvCheck r"
  shows "run_state (wait_github_loop lookup attempts attempt apps) (quiet d) = (Inr (Some c, u), quiet d)"
  using assms(4,5)
proof (induction "a - attempt" arbitrary: attempt apps)
  case 0
  then have "attempt = a" by simp
  with assms(1-3) show ?case by (subst wait_github_loop.simps) simp
next
  case (Suc n)
  then have "attempt < a" by simp
  with Suc.prems(2) [of attempt] obtain r v where "lookup attempt = Inr (r, v)" "shouldRetryGitHubPriorEnvCheck r" by auto
  moreover have "run_state (wait_github_loop lookup attempts (Suc attempt) v) (quiet d) = (Inr (Some c, u), quiet d)"
    using Suc by simp
  ultimately show ?case
    using \<open>attempt < a\<close> assms(3) by (subst wait_github_loop.simps) simp
qed

definition remote_pending :: "GateClient \<Rightarrow> nat \<Rightarrow> string \<Rightarrow> string \<Rightarrow> int \<Rightarrow> string \<Rightarrow> bool" where
  "remote_pending client attempt base repo pr priorEnv \<longleftrightarrow>
    (\<exists>sha found apps. gate_head client repo pr = Inr sha \<and>
      gate_find client attempt repo sha (aggregateCheckNameForEnv base priorEnv) = Inr (found, apps) \<and>
      shouldRetryGitHubPriorEnvCheck found)"

lemma check_priors_quiet:
  "(\<And>p. p \<in> set priors \<Longrightarrow> run_state (check p) (quiet d) = (Inr None, quiet d)) \<Longrightarrow>
    run_state (check_priors check priors) (quiet d) = (Inr None, quiet d)"
  by (induction priors) simp_all

lemma check_priors_turns:
  assumes "\<And>p n. hoare (\<lambda>w. n \<le> length (w_turns w)) (check p) (\<lambda>r w. n \<le> length (w_turns w) + b)"
  shows "hoare (\<lambda>w. n \<le> length (w_turns w)) (check_priors check priors) (\<lambda>r w. n \<le> length (w_turns w) + b * length priors)"
proof (induction priors arbitrary: n)
  case (Cons p priors)
  have rest: "hoare (\<lambda>w. n - b \<le> length (w_turns w)) (check_priors check priors)
      (\<lambda>r w. n - b \<le> length (w_turns w) + b * length priors)" by (rule Cons.IH)
  show ?case
    unfolding check_priors.simps
    by (rule hoare_bind [OF assms], intro hoare_sum hoare_option hoare_return hoare_conseq [OF rest]) auto
qed (simp add: hoare_return)

lemma local_gate_turns:
  assumes "0 < attempts"
  shows "hoare (\<lambda>w. n \<le> length (w_turns w)) (checkPriorEnvViaLocal ci attempts repo pr database dbType environment priorEnv)
    (\<lambda>r w. n \<le> length (w_turns w) + (2 * attempts - 1))"
proof -
  let ?P = "\<lambda>a w. n + 2 \<le> length (w_turns w) + 2 * a" and ?G = "\<lambda>a w. n + 2 \<le> length (w_turns w) + Suc (2 * a)"
  have "hoare (?P 1) (waitForLocalPriorEnvCheck ci attempts repo pr database dbType priorEnv)
      (\<lambda>r w. n + 1 \<le> length (w_turns w) + 2 * attempts \<and> (\<forall>c. r = Inr (Some c) \<longrightarrow> True))"
    unfolding waitForLocalPriorEnvCheck_def Check_Get_def
  proof (rule hoare_wait_local [where P = ?P and G = ?G])
    show "hoare (?G a) sleepBackoff (\<lambda>_ w. ?P (Suc a) w \<and> n + 1 \<le> length (w_turns w) + 2 * attempts)"
      if "a < attempts" for a
      by (rule hoare_conseq [OF hoare_sleep_turns [of "n + 2" "Suc (2 * a)"]]) (use that in auto)
  qed (use assms in \<open>auto intro: hoare_conseq [OF hoare_query_turns]\<close>)
  then have wait: "hoare (\<lambda>w. n \<le> length (w_turns w)) (waitForLocalPriorEnvCheck ci attempts repo pr database dbType priorEnv)
      (\<lambda>r w. n \<le> length (w_turns w) + (2 * attempts - 1))"
    by (rule hoare_conseq) (use assms in auto)
  show ?thesis
    unfolding checkPriorEnvViaLocal_def by (rule hoare_bind [OF wait]) (rule hoare_return)
qed

lemma github_gate_turns:
  assumes "0 < attempts"
  shows "hoare (\<lambda>w. n \<le> length (w_turns w)) (checkPriorEnvViaGitHub client attempts base repo pr database environment priorEnv)
    (\<lambda>r w. n \<le> length (w_turns w) + (2 * attempts - 1))"
proof -
  let ?P = "\<lambda>a w. n + 1 \<le> length (w_turns w) + a"
  have "hoare (?P 1) (waitForGitHubPriorEnvCheck client attempts repo sha name)
      (\<lambda>r w. n + 1 \<le> length (w_turns w) + attempts \<and> (\<forall>c u. r = Inr (Some c, u) \<longrightarrow>
        (\<exists>a. 1 \<le> a \<and> a \<le> attempts \<and> gate_find client a repo sha name = Inr (Some c, u))))" for sha name
    unfolding waitForGitHubPriorEnvCheck_def
    by (rule hoare_wait_github [where P = ?P])
       (use assms in \<open>auto intro: hoare_conseq [OF hoare_sleep_turns]\<close>)
  then have wait: "hoare (\<lambda>w. n \<le> length (w_turns w)) (waitForGitHubPriorEnvCheck client attempts repo sha name)
      (\<lambda>r w. n \<le> length (w_turns w) + (2 * attempts - 1))" for sha name
    by (rule hoare_conseq) (use assms in auto)
  show ?thesis
    unfolding checkPriorEnvViaGitHub_def
    by (intro hoare_sum hoare_return hoare_bind [OF wait]) (use assms in auto)
qed

section \<open>Properties\<close>

text \<open>
  Property C21 (promotion order is enforced).  Whatever the other sessions and GitHub do meanwhile, the
  gate lets an apply through only if the target can be placed in the promotion order and every earlier
  environment was verified while it ran: an owned environment by a stored check with conclusion success
  at one of the moments the gate read, any other by a completed, successful run of a trusted app on the
  head commit.  The gate never fails: every error becomes a blocking comment.
\<close>

theorem promotion_gate_sound:
  assumes "run_state (checkPriorEnvironments ci config client maxAttempts base repo pr database dbType environment
      environments) w = (r, w')"
  shows "(\<exists>blocked. r = Inr blocked) \<and>
    (r = Inr None \<longrightarrow>
      \<not> scopedTargetMissingFromPromotionOrder config environment \<and>
      (\<forall>p\<in>set (prior_environments environment (promotionGateEnvironments config environment environments)).
        if IsEnvironmentAllowed config p
        then \<exists>d\<in>moments w. local_verified ci repo pr database dbType p d
        else \<exists>a. 1 \<le> a \<and> a \<le> priorEnvCheckMaxAttemptCount maxAttempts \<and> remote_passed client a base repo pr p))"
proof (cases "scopedTargetMissingFromPromotionOrder config environment")
  case True
  with assms show ?thesis by (auto simp: checkPriorEnvironments_def)
next
  case False
  let ?ok = "\<lambda>p. if IsEnvironmentAllowed config p
      then \<exists>d\<in>moments w. local_verified ci repo pr database dbType p d
      else \<exists>a. 1 \<le> a \<and> a \<le> priorEnvCheckMaxAttemptCount maxAttempts \<and> remote_passed client a base repo pr p"
  have "hoare (sees (moments w)) (checkPriorEnvironments ci config client maxAttempts base repo pr database dbType
      environment environments) (\<lambda>r w'. sees (moments w) w' \<and> (\<exists>x. r = Inr x) \<and> (r = Inr None \<longrightarrow>
        (\<forall>p\<in>set (prior_environments environment (promotionGateEnvironments config environment environments)). ?ok p)))"
    unfolding checkPriorEnvironments_def if_not_P [OF False]
  proof (rule hoare_check_priors)
    fix p
    show "hoare (sees (moments w))
       (if IsEnvironmentAllowed config p
        then checkPriorEnvViaLocal ci (priorEnvCheckMaxAttemptCount maxAttempts) repo pr database dbType environment p
        else checkPriorEnvViaGitHub client (priorEnvCheckMaxAttemptCount maxAttempts) base repo pr database environment p)
       (\<lambda>r w'. sees (moments w) w' \<and> (\<exists>x. r = Inr x) \<and> (r = Inr None \<longrightarrow> ?ok p))"
    proof (cases "IsEnvironmentAllowed config p")
      case True
      show ?thesis unfolding if_P [OF True] by (rule local_gate_sees) (rule attempts_pos)
    next
      case False
      show ?thesis unfolding if_not_P [OF False] by (rule github_gate_sees) (rule attempts_pos)
    qed
  qed
  from hoareD [OF this subset_refl assms] False show ?thesis by blast
qed


text \<open>A check that another session stores while the gate waits, and a run that GitHub shows at the second attempt.\<close>

definition landing_world :: world where
  "landing_world = \<lparr>w_db = empty_db, w_undo = [],
     w_turns = [Turn (\<lambda>d. d) None, Turn (\<lambda>d. d\<lparr>checks := [example_check ''sha1'' ''completed'' ''success'' 9]\<rparr>) None]\<rparr>"

definition landing_client :: GateClient where
  "landing_client = \<lparr>gate_client = Inr (), gate_head = (\<lambda>_ _. Inr ''sha1''),
     gate_find = (\<lambda>attempt. FindCheckRunByName example_apps (if attempt = 1 then (\<lambda>_ _ _. []) else example_pages))\<rparr>"

definition three_environments :: ServerConfig where
  "three_environments = example_config\<lparr>EnvironmentOrder := [''sandbox'', ''staging'', ''production''],
     AllowedEnvironments := [''staging'', ''production'']\<rparr>"

theorem promotion_gate_sound_witness:
  "(\<exists>d\<in>moments landing_world. local_verified ToLower ''org/app'' 7 ''orders'' ''mysql'' ''staging'' d) \<and>
   (\<exists>a. 1 \<le> a \<and> a \<le> priorEnvCheckMaxAttemptCount 0 \<and> remote_passed landing_client a ''SchemaBot'' ''org/app'' 7 ''sandbox'')"
proof -
  let ?run = "run_state (checkPriorEnvironments ToLower (Some three_environments) landing_client 0 ''SchemaBot''
      ''org/app'' 7 ''orders'' ''mysql'' ''production'' []) landing_world"
  have "fst ?run = Inr None" by code_simp
  then have run: "?run = (Inr None, snd ?run)" by (simp only: prod_eq_iff fst_conv snd_conv)
  have priors: "set (prior_environments ''production'' (promotionGateEnvironments (Some three_environments) ''production'' [])) =
      {''sandbox'', ''staging''}" by code_simp
  have owned: "\<not> IsEnvironmentAllowed (Some three_environments) ''sandbox''"
    "IsEnvironmentAllowed (Some three_environments) ''staging''" by code_simp+
  from promotion_gate_sound [OF run] have "\<forall>p\<in>{''sandbox'', ''staging''}.
        if IsEnvironmentAllowed (Some three_environments) p
        then \<exists>d\<in>moments landing_world. local_verified ToLower ''org/app'' 7 ''orders'' ''mysql'' p d
        else \<exists>a. 1 \<le> a \<and> a \<le> priorEnvCheckMaxAttemptCount 0 \<and> remote_passed landing_client a ''SchemaBot'' ''org/app'' 7 p"
    unfolding priors by blast
  with owned show ?thesis by (simp only: ball_simps if_True if_False simp_thms)
qed


text \<open>
  Further fact (a clean promotion gets through).  Without interference and with working reads, the gate
  lets the apply through when every earlier environment this instance owns has a stored check with
  conclusion success, and for every other one a completed, successful run shows up within the attempts,
  preceded only by answers that ask for a retry.
\<close>

theorem promotion_gate_live:
  assumes "\<not> scopedTargetMissingFromPromotionOrder config environment"
    and "\<And>p. p \<in> set (prior_environments environment (promotionGateEnvironments config environment environments)) \<Longrightarrow>
      IsEnvironmentAllowed config p \<Longrightarrow> local_verified ci repo pr database dbType p d"
    and "\<And>p. p \<in> set (prior_environments environment (promotionGateEnvironments config environment environments)) \<Longrightarrow>
      \<not> IsEnvironmentAllowed config p \<Longrightarrow>
      \<exists>a. 1 \<le> a \<and> a \<le> priorEnvCheckMaxAttemptCount maxAttempts \<and> remote_passed client a base repo pr p \<and>
          (\<forall>b. 1 \<le> b \<and> b < a \<longrightarrow> remote_pending client b base repo pr p)"
  shows "run_state (checkPriorEnvironments ci config client maxAttempts base repo pr database dbType environment
    environments) (quiet d) = (Inr None, quiet d)"
  unfolding checkPriorEnvironments_def if_not_P [OF assms(1)]
proof (rule check_priors_quiet)
  fix p assume p: "p \<in> set (prior_environments environment (promotionGateEnvironments config environment environments))"
  let ?n = "priorEnvCheckMaxAttemptCount maxAttempts"
  show "run_state (if IsEnvironmentAllowed config p
        then checkPriorEnvViaLocal ci ?n repo pr database dbType environment p
        else checkPriorEnvViaGitHub client ?n base repo pr database environment p) (quiet d) = (Inr None, quiet d)"
  proof (cases "IsEnvironmentAllowed config p")
    case True
    have "1 \<le> ?n" using attempts_pos [of maxAttempts] by simp
    from wait_local_quiet [OF this] assms(2) [OF p True] show ?thesis
      unfolding if_P [OF True]
      by (auto simp: checkPriorEnvViaLocal_def waitForLocalPriorEnvCheck_def Check_Get_def local_verified_def)
  next
    case False
    from assms(3) [OF p False] obtain a sha result apps where a: "1 \<le> a" "a \<le> ?n"
      and gh: "gate_client client = Inr ()" "gate_head client repo pr = Inr sha"
      and found: "gate_find client a repo sha (aggregateCheckNameForEnv base p) = Inr (Some result, apps)"
      and ok: "cr_run_Status result = checkStatusCompleted" "cr_run_Conclusion result = checkConclusionSuccess"
      and pending: "\<And>b. 1 \<le> b \<Longrightarrow> b < a \<Longrightarrow> remote_pending client b base repo pr p"
      unfolding remote_passed_def by blast
    have "run_state (waitForGitHubPriorEnvCheck client ?n repo sha (aggregateCheckNameForEnv base p)) (quiet d) =
        (Inr (Some result, apps), quiet d)"
      unfolding waitForGitHubPriorEnvCheck_def
    proof (rule wait_github_quiet [where a = a])
      show "\<exists>r v. gate_find client b repo sha (aggregateCheckNameForEnv base p) = Inr (r, v) \<and>
          shouldRetryGitHubPriorEnvCheck r" if "1 \<le> b" "b < a" for b
        using pending [OF that] gh(2) by (auto simp: remote_pending_def)
    qed (use a in \<open>simp_all add: found ok shouldRetryGitHubPriorEnvCheck_def\<close>)
    then show ?thesis
      unfolding if_not_P [OF False] by (simp add: checkPriorEnvViaGitHub_def gh ok)
  qed
qed

theorem promotion_gate_live_witness:
  "run_state (checkPriorEnvironments ToLower (Some three_environments) landing_client 0 ''SchemaBot''
      ''org/app'' 7 ''orders'' ''mysql'' ''production'' [])
     (quiet (empty_db\<lparr>checks := [example_check ''sha1'' ''completed'' ''success'' 9]\<rparr>)) =
   (Inr None, quiet (empty_db\<lparr>checks := [example_check ''sha1'' ''completed'' ''success'' 9]\<rparr>))"
proof (rule promotion_gate_live)
  let ?d = "empty_db\<lparr>checks := [example_check ''sha1'' ''completed'' ''success'' 9]\<rparr>"
  have priors: "set (prior_environments ''production'' (promotionGateEnvironments (Some three_environments) ''production'' [])) =
      {''sandbox'', ''staging''}" by code_simp
  show "\<not> scopedTargetMissingFromPromotionOrder (Some three_environments) ''production''" by code_simp
  show "local_verified ToLower ''org/app'' 7 ''orders'' ''mysql'' p ?d"
    if "p \<in> set (prior_environments ''production'' (promotionGateEnvironments (Some three_environments) ''production'' []))"
      and "IsEnvironmentAllowed (Some three_environments) p" for p
  proof -
    have "\<not> IsEnvironmentAllowed (Some three_environments) ''sandbox''" by code_simp
    with that have "p = ''staging''" unfolding priors by auto
    moreover have "find (\<lambda>r. chk_key ToLower r = (ToLower ''org/app'', 7, ToLower ''staging'', ToLower ''mysql'',
        ToLower ''orders'')) (checks ?d) = Some (example_check ''sha1'' ''completed'' ''success'' 9)" by code_simp
    moreover have "chk_Conclusion (example_check ''sha1'' ''completed'' ''success'' 9) = checkConclusionSuccess"
      by (simp add: example_check_def)
    ultimately show ?thesis unfolding local_verified_def by blast
  qed
  show "\<exists>a. 1 \<le> a \<and> a \<le> priorEnvCheckMaxAttemptCount 0 \<and> remote_passed landing_client a ''SchemaBot'' ''org/app'' 7 p \<and>
      (\<forall>b. 1 \<le> b \<and> b < a \<longrightarrow> remote_pending landing_client b ''SchemaBot'' ''org/app'' 7 p)"
    if "p \<in> set (prior_environments ''production'' (promotionGateEnvironments (Some three_environments) ''production'' []))"
      and "\<not> IsEnvironmentAllowed (Some three_environments) p" for p
  proof -
    have "IsEnvironmentAllowed (Some three_environments) ''staging''" by code_simp
    with that have p: "p = ''sandbox''" unfolding priors by auto
    let ?name = "aggregateCheckNameForEnv ''SchemaBot'' ''sandbox''"
    let ?r = "to_result (example_run 5 ''completed'' ''success'' ''schemabot-eu'')"
    have "gate_find landing_client 2 ''org/app'' ''sha1'' ?name = Inr (Some ?r, [''github-actions''])"
      and "gate_find landing_client 1 ''org/app'' ''sha1'' ?name = Inr (None, [])" by code_simp+
    moreover have "cr_run_Status ?r = checkStatusCompleted" "cr_run_Conclusion ?r = checkConclusionSuccess"
      by (simp_all add: to_result_def example_run_def)
    moreover have "gate_client landing_client = Inr ()" "gate_head landing_client ''org/app'' 7 = Inr ''sha1''"
      by (simp_all add: landing_client_def)
    ultimately have "remote_passed landing_client 2 ''SchemaBot'' ''org/app'' 7 p"
      "remote_pending landing_client 1 ''SchemaBot'' ''org/app'' 7 p"
      unfolding p remote_passed_def remote_pending_def shouldRetryGitHubPriorEnvCheck_def by auto
    moreover have "2 \<le> priorEnvCheckMaxAttemptCount 0" by code_simp
    moreover have "b = 1" if "1 \<le> b \<and> b < 2" for b :: nat using that by auto
    moreover have "(1 :: nat) \<le> 2" by simp
    ultimately show ?thesis by metis
  qed
qed

text \<open>
  Further fact (the gate ends).  The gate answers after at most \<open>2 n - 1\<close> reads and waits for each earlier
  environment, where \<open>n\<close> is the configured number of attempts, or four when that is not positive.
\<close>

theorem promotion_gate_bounded:
  assumes "run_state (checkPriorEnvironments ci config client maxAttempts base repo pr database dbType environment
      environments) w = (r, w')"
  shows "length (w_turns w) \<le> length (w_turns w') + (2 * priorEnvCheckMaxAttemptCount maxAttempts - 1) *
      length (prior_environments environment (promotionGateEnvironments config environment environments)) \<and>
    priorEnvCheckMaxAttemptCount maxAttempts = (if maxAttempts \<le> 0 then 4 else nat maxAttempts)"
proof (cases "scopedTargetMissingFromPromotionOrder config environment")
  case True
  with assms show ?thesis
    by (auto simp: checkPriorEnvironments_def priorEnvCheckMaxAttemptCount_def defaultPriorEnvCheckMaxAttempts_def)
next
  case False
  have "hoare (\<lambda>u. length (w_turns w) \<le> length (w_turns u))
      (checkPriorEnvironments ci config client maxAttempts base repo pr database dbType environment environments)
      (\<lambda>r u. length (w_turns w) \<le> length (w_turns u) + (2 * priorEnvCheckMaxAttemptCount maxAttempts - 1) *
        length (prior_environments environment (promotionGateEnvironments config environment environments)))"
    unfolding checkPriorEnvironments_def if_not_P [OF False]
    by (rule check_priors_turns) (intro hoare_if local_gate_turns github_gate_turns attempts_pos)
  from hoareD [OF this order_refl assms] show ?thesis
    by (simp add: priorEnvCheckMaxAttemptCount_def defaultPriorEnvCheckMaxAttempts_def)
qed

theorem promotion_gate_bounded_witness:
  "length (w_turns landing_world) \<le>
    length (w_turns (snd (run_state (checkPriorEnvironments ToLower (Some three_environments) landing_client 0 ''SchemaBot''
      ''org/app'' 7 ''orders'' ''mysql'' ''production'' []) landing_world))) +
    (2 * priorEnvCheckMaxAttemptCount 0 - 1) *
      length (prior_environments ''production'' (promotionGateEnvironments (Some three_environments) ''production'' []))"
  by (rule conjunct1 [OF promotion_gate_bounded [OF prod.collapse [symmetric]]])

end
