(* ===== verification/Review_Gate.thy ===== *)
theory Review_Gate
  imports Server_Config "HOL-Library.AList" "HOL-Library.Multiset"
begin

text \<open>
  Who may run a command and whose approval lets an apply proceed: \<^verbatim>\<open>pkg/webhook/actor_authorization.go\<close>,
  \<^verbatim>\<open>review_gate.go\<close> and the review helpers of \<^verbatim>\<open>pkg/github/reviews.go\<close>.  GitHub is a parameter, the
  answers of the calls the gates make.  The CODEOWNERS library is a parameter too: its rules, its path
  matching and the text of an owner.  The order in which Go ranges over a map of reviewers is a
  parameter \<open>order\<close>, a permutation.
\<close>

section \<open>GitHub\<close>

datatype OwnerType = UsernameOwner | TeamOwner | EmailOwner

record Owner =
  owner_Value :: string
  owner_Type :: OwnerType

record ReviewInfo =
  rev_User :: string
  rev_State :: string
  rev_SubmittedAt :: int

text \<open>
  \<open>FetchPR\<close> gives author and base branch.  \<open>FetchRuleset\<close> gives the owners of the CODEOWNERS rules, \<open>None\<close>
  without a file; \<open>MatchPath\<close> gives the owners of the rule for a path, \<open>None\<close> for Go's nil.
\<close>

record ReviewClient =
  FetchPR :: "string \<Rightarrow> int \<Rightarrow> err + string \<times> string"
  ListReviews :: "string \<Rightarrow> int \<Rightarrow> err + ReviewInfo list"
  ListTeamMembers :: "string \<Rightarrow> string \<Rightarrow> err + string list"
  FetchRuleset :: "string \<Rightarrow> string \<Rightarrow> err + Owner list list option"
  MatchPath :: "Owner list list \<Rightarrow> string \<Rightarrow> err + Owner list option"
  owner_String :: "Owner \<Rightarrow> string"

definition IsTeamMember :: "ReviewClient \<Rightarrow> string \<Rightarrow> string \<Rightarrow> string \<Rightarrow> err + bool" where
  "IsTeamMember client org slug login =
    (case ListTeamMembers client org slug of
       Inl e \<Rightarrow> Inl (Wrapped ''check team membership'' e)
     | Inr members \<Rightarrow> Inr (list_ex (\<lambda>member. EqualFold member login) members))"

abbreviation ReviewApproved :: string where "ReviewApproved \<equiv> ''APPROVED''"
abbreviation ReviewCommented :: string where "ReviewCommented \<equiv> ''COMMENTED''"

text \<open>The latest decisive review of each user, by lower-case login: state and time.\<close>

fun latest_reviews :: "(string \<times> string \<times> int) list \<Rightarrow> ReviewInfo list \<Rightarrow> (string \<times> string \<times> int) list" where
  "latest_reviews latest [] = latest"
| "latest_reviews latest (r # reviews) =
    (if rev_User r = '''' then latest_reviews latest reviews
     else if EqualFold (rev_State r) ReviewCommented then latest_reviews latest reviews
     else
       let key = ToLower (rev_User r) in
       case map_of latest key of
         None \<Rightarrow> latest_reviews (AList.update key (rev_State r, rev_SubmittedAt r) latest) reviews
       | Some cur \<Rightarrow>
           if \<not> rev_SubmittedAt r < snd cur
           then latest_reviews (AList.update key (rev_State r, rev_SubmittedAt r) latest) reviews
           else latest_reviews latest reviews)"

definition GetApprovedReviewers :: "ReviewInfo list \<Rightarrow> string list" where
  "GetApprovedReviewers reviews =
    map fst (filter (\<lambda>(user, st, t). EqualFold st ReviewApproved) (latest_reviews [] reviews))"

fun unique_owners :: "(Owner \<Rightarrow> string) \<Rightarrow> string set \<Rightarrow> Owner list \<Rightarrow> Owner list" where
  "unique_owners str seen [] = []"
| "unique_owners str seen (ow # owners) =
    (if ToLower (str ow) \<in> seen then unique_owners str seen owners
     else ow # unique_owners str (insert (ToLower (str ow)) seen) owners)"

definition OwnersFromRuleset :: "(Owner \<Rightarrow> string) \<Rightarrow> Owner list list \<Rightarrow> Owner list" where
  "OwnersFromRuleset str ruleset = unique_owners str {} (concat ruleset)"

definition IsTeamOwner :: "Owner \<Rightarrow> bool" where
  "IsTeamOwner ow \<longleftrightarrow> owner_Type ow = TeamOwner"

definition OwnerNames :: "(Owner \<Rightarrow> string) \<Rightarrow> Owner list \<Rightarrow> string list" where
  "OwnerNames str owners = map (\<lambda>ow. TrimPrefix (str ow) ''@'') owners"

text \<open>\<^verbatim>\<open>strings.SplitN(value, "/", 2)\<close>.\<close>

definition TeamParts :: "Owner \<Rightarrow> string \<times> string" where
  "TeamParts ow =
    (case dropWhile (\<lambda>c. c \<noteq> CHR ''/'') (owner_Value ow) of
       [] \<Rightarrow> (owner_Value ow, '''')
     | _ # slug \<Rightarrow> (takeWhile (\<lambda>c. c \<noteq> CHR ''/'') (owner_Value ow), slug))"

section \<open>Actor authorization\<close>

datatype ActorAuthReason =
    ActorAuthReasonDisabled | ActorAuthReasonAllowedAdminTeam | ActorAuthReasonAllowedAdminUser
  | ActorAuthReasonAllowedRepoAdminTeam | ActorAuthReasonAllowedRepoAdminUser
  | ActorAuthReasonAllowedOperatorTeam | ActorAuthReasonAllowedOperatorUser
  | ActorAuthReasonMissingActor | ActorAuthReasonMissingServerConfig | ActorAuthReasonMissingDatabaseConfig
  | ActorAuthReasonNoConfiguredPrincipal | ActorAuthReasonNotAuthorized | ActorAuthReasonGitHubError

record ActorAuthorizationResult =
  Allowed :: bool
  Reason :: ActorAuthReason
  MatchedPrincipal :: string

definition denied :: "ActorAuthReason \<Rightarrow> ActorAuthorizationResult" where
  "denied reason = \<lparr>Allowed = False, Reason = reason, MatchedPrincipal = ''''\<rparr>"

text \<open>The first team the actor is a member of.\<close>

fun actorInAnyTeam :: "ReviewClient \<Rightarrow> string list \<Rightarrow> string \<Rightarrow> err + string option" where
  "actorInAnyTeam client [] actor = Inr None"
| "actorInAnyTeam client (team # teams) actor =
    (case ParseGitHubTeamPrincipal team of
       Inl e \<Rightarrow> Inl (Wrapped ''invalid configured GitHub team'' e)
     | Inr (org, slug) \<Rightarrow>
         (case IsTeamMember client org slug actor of
            Inl e \<Rightarrow> Inl e
          | Inr member \<Rightarrow> if member then Inr (Some team) else actorInAnyTeam client teams actor))"

definition matchedUserPrincipal :: "string list \<Rightarrow> string \<Rightarrow> string option" where
  "matchedUserPrincipal allowedUsers actor = find (\<lambda>user. EqualFold user actor) allowedUsers"

text \<open>
  One tier of the policy: its teams, then its users.  \<open>client\<close> is \<open>None\<close> when the handler could not make
  one.  The answer is the outcome when this tier decides.
\<close>

definition authorize_tier ::
  "ReviewClient option \<Rightarrow> string \<Rightarrow> string list \<Rightarrow> string list \<Rightarrow> ActorAuthReason \<Rightarrow> ActorAuthReason \<Rightarrow>
   (ActorAuthorizationResult \<times> err option) option" where
  "authorize_tier client actor teams users teamReason userReason =
    (case (if teams = [] then Inr None
           else (case client of
                   None \<Rightarrow> Inl (Errorf ''github client is nil'')
                 | Some gh \<Rightarrow> actorInAnyTeam gh teams actor)) of
       Inl e \<Rightarrow> Some (denied ActorAuthReasonGitHubError, Some e)
     | Inr (Some who) \<Rightarrow>
         Some (\<lparr>Allowed = True, Reason = teamReason, MatchedPrincipal = who\<rparr>, None)
     | Inr None \<Rightarrow>
         (case matchedUserPrincipal users actor of
            Some who \<Rightarrow> Some (\<lparr>Allowed = True, Reason = userReason, MatchedPrincipal = who\<rparr>, None)
          | None \<Rightarrow> None))"

definition authorizeConfiguredDatabaseActor ::
  "ServerConfig option \<Rightarrow> ReviewClient option \<Rightarrow> string \<Rightarrow> string \<Rightarrow> string \<Rightarrow> ActorAuthorizationResult \<times> err option" where
  "authorizeConfiguredDatabaseActor config client actor repo database =
    (case config of
       None \<Rightarrow> (denied ActorAuthReasonMissingServerConfig, Some (Errorf ''server config is unavailable''))
     | Some c \<Rightarrow>
       if TrimSpace actor = '''' then (denied ActorAuthReasonMissingActor, None)
       else
         (case Database c database of
            None \<Rightarrow> (denied ActorAuthReasonMissingDatabaseConfig, None)
          | Some dbc \<Rightarrow>
            let auth = PRCommandAuthorization c; (repoAdminTeams, repoAdminUsers) = RepoAdmins c repo in
            if auth_AdminTeams auth = [] \<and> repoAdminTeams = [] \<and> dbc_OperatorTeams dbc = [] \<and>
               auth_AdminUsers auth = [] \<and> repoAdminUsers = [] \<and> dbc_OperatorUsers dbc = []
            then (denied ActorAuthReasonNoConfiguredPrincipal, None)
            else
              (case authorize_tier client actor (auth_AdminTeams auth) (auth_AdminUsers auth)
                      ActorAuthReasonAllowedAdminTeam ActorAuthReasonAllowedAdminUser of
                 Some out \<Rightarrow> out
               | None \<Rightarrow>
              (case authorize_tier client actor repoAdminTeams repoAdminUsers
                      ActorAuthReasonAllowedRepoAdminTeam ActorAuthReasonAllowedRepoAdminUser of
                 Some out \<Rightarrow> out
               | None \<Rightarrow>
              (case authorize_tier client actor (dbc_OperatorTeams dbc) (dbc_OperatorUsers dbc)
                      ActorAuthReasonAllowedOperatorTeam ActorAuthReasonAllowedOperatorUser of
                 Some out \<Rightarrow> out
               | None \<Rightarrow> (denied ActorAuthReasonNotAuthorized, None))))))"

text \<open>\<open>None\<close> stands for a handler without a service; a service has a configuration.\<close>

definition authorizePRCommandActor ::
  "ServerConfig option \<Rightarrow> ReviewClient option \<Rightarrow> string \<Rightarrow> string \<Rightarrow> string \<Rightarrow> ActorAuthorizationResult \<times> err option" where
  "authorizePRCommandActor config client actor repo database =
    (if config = None
     then (denied ActorAuthReasonMissingServerConfig, Some (Errorf ''server config is unavailable''))
     else if \<not> PRCommandAuthorizationEnabled config
     then (\<lparr>Allowed = True, Reason = ActorAuthReasonDisabled, MatchedPrincipal = ''''\<rparr>, None)
     else if TrimSpace actor = '''' then (denied ActorAuthReasonMissingActor, None)
     else authorizeConfiguredDatabaseActor config client actor repo database)"

datatype AuthComment =
    RenderPRCommandAuthorizationUnavailable string string
  | RenderPRCommandDatabaseNotConfigured string string
  | RenderPRCommandNotAuthorized string string "string list"

text \<open>The comment that blocks the command of the actor on the database, or \<open>None\<close>.\<close>

definition enforcePRCommandActorAuthorization ::
  "ServerConfig option \<Rightarrow> ReviewClient option \<Rightarrow> string \<Rightarrow> string \<Rightarrow> string \<Rightarrow> AuthComment option" where
  "enforcePRCommandActorAuthorization config client requestedBy repo database =
    (case authorizePRCommandActor config client requestedBy repo database of
       (result, Some e) \<Rightarrow> Some (RenderPRCommandAuthorizationUnavailable requestedBy database)
     | (result, None) \<Rightarrow>
         if \<not> Allowed result then
           (if Reason result = ActorAuthReasonMissingDatabaseConfig
            then Some (RenderPRCommandDatabaseNotConfigured requestedBy database)
            else Some (RenderPRCommandNotAuthorized requestedBy database (PRCommandAuthorizedPrincipals config repo database)))
         else None)"

section \<open>The review gate\<close>

record reviewGatePolicy =
  pol_AdminTeams :: "string list"
  pol_AdminUsers :: "string list"
  pol_RepoAdminTeams :: "string list"
  pol_RepoAdminUsers :: "string list"
  pol_OperatorTeams :: "string list"
  pol_OperatorUsers :: "string list"
  pol_CodeownerReviewers :: "string set"
  pol_RequiredReviewers :: "string list"

definition appendUniqueString :: "string list \<Rightarrow> string \<Rightarrow> string list" where
  "appendUniqueString vs v = (if list_ex (\<lambda>existing. EqualFold existing v) vs then vs else vs @ [v])"

text \<open>One tier of \<^verbatim>\<open>Matches\<close>: teams, then users.\<close>

definition match_tier :: "ReviewClient \<Rightarrow> string \<Rightarrow> string list \<Rightarrow> string list \<Rightarrow> err + string option" where
  "match_tier client reviewer teams users =
    (case (if teams = [] then Inr None else actorInAnyTeam client teams reviewer) of
       Inl e \<Rightarrow> Inl e
     | Inr (Some who) \<Rightarrow> Inr (Some who)
     | Inr None \<Rightarrow> Inr (matchedUserPrincipal users reviewer))"

definition policy_Matches :: "reviewGatePolicy \<Rightarrow> ReviewClient \<Rightarrow> string \<Rightarrow> err + string option" where
  "policy_Matches p client reviewer =
    (case match_tier client reviewer (pol_AdminTeams p) (pol_AdminUsers p) of
       Inl e \<Rightarrow> Inl e
     | Inr (Some who) \<Rightarrow> Inr (Some who)
     | Inr None \<Rightarrow>
     (case match_tier client reviewer (pol_RepoAdminTeams p) (pol_RepoAdminUsers p) of
        Inl e \<Rightarrow> Inl e
      | Inr (Some who) \<Rightarrow> Inr (Some who)
      | Inr None \<Rightarrow>
      (case match_tier client reviewer (pol_OperatorTeams p) (pol_OperatorUsers p) of
         Inl e \<Rightarrow> Inl e
       | Inr (Some who) \<Rightarrow> Inr (Some who)
       | Inr None \<Rightarrow>
           if ToLower reviewer \<in> pol_CodeownerReviewers p then Inr (Some ''CODEOWNERS'') else Inr None)))"

text \<open>\<^verbatim>\<open>strings.TrimSuffix(schemaPath, "/")\<close>.\<close>

definition TrimSuffix :: "string \<Rightarrow> string \<Rightarrow> string" where
  "TrimSuffix s suffix = rev (TrimPrefix (rev s) (rev suffix))"

definition matchReviewGateCodeowners :: "ReviewClient \<Rightarrow> string \<Rightarrow> string \<Rightarrow> string \<Rightarrow> err + Owner list" where
  "matchReviewGateCodeowners client repo baseRef schemaPath =
    (case FetchRuleset client repo baseRef of
       Inl e \<Rightarrow> Inl (Wrapped ''fetch CODEOWNERS'' e)
     | Inr None \<Rightarrow> Inr []
     | Inr (Some ruleset) \<Rightarrow>
         (case (if schemaPath \<noteq> '''' then MatchPath client ruleset (TrimSuffix schemaPath ''/'' @ ''/.schema'') else Inr None) of
            Inl e \<Rightarrow> Inl (Wrapped ''match CODEOWNERS'' e)
          | Inr (Some owners) \<Rightarrow> Inr owners
          | Inr None \<Rightarrow> Inr (OwnersFromRuleset (owner_String client) ruleset)))"

text \<open>The logins that CODEOWNERS names, in lower case; teams are expanded.\<close>

fun codeowner_logins :: "ReviewClient \<Rightarrow> Owner list \<Rightarrow> err + string set" where
  "codeowner_logins client [] = Inr {}"
| "codeowner_logins client (ow # owners) =
    (if IsTeamOwner ow then
       (case ListTeamMembers client (fst (TeamParts ow)) (snd (TeamParts ow)) of
          Inl e \<Rightarrow> Inl (Wrapped ''expand CODEOWNERS team'' e)
        | Inr members \<Rightarrow>
            (case codeowner_logins client owners of
               Inl e \<Rightarrow> Inl e
             | Inr logins \<Rightarrow> Inr (ToLower ` set members \<union> logins)))
     else
       (case codeowner_logins client owners of
          Inl e \<Rightarrow> Inl e
        | Inr logins \<Rightarrow> Inr (insert (ToLower (owner_Value ow)) logins)))"

definition loadReviewGatePolicy ::
  "ServerConfig option \<Rightarrow> ReviewClient \<Rightarrow> string \<Rightarrow> string \<Rightarrow> string \<Rightarrow> string \<Rightarrow> err + reviewGatePolicy" where
  "loadReviewGatePolicy config client repo baseRef database schemaPath =
    (case config of
       None \<Rightarrow> Inl (Errorf ''server config is unavailable'')
     | Some c \<Rightarrow>
       let rp = ReviewPolicy c; (repoAdminTeams, repoAdminUsers) = RepoAdmins c repo;
           required = fold (\<lambda>v vs. appendUniqueString vs v)
             (review_AdminTeams rp @ review_AdminUsers rp @ repoAdminTeams @ repoAdminUsers) [];
           policy = \<lparr>pol_AdminTeams = review_AdminTeams rp, pol_AdminUsers = review_AdminUsers rp,
             pol_RepoAdminTeams = repoAdminTeams, pol_RepoAdminUsers = repoAdminUsers, pol_OperatorTeams = [],
             pol_OperatorUsers = [], pol_CodeownerReviewers = {}, pol_RequiredReviewers = required\<rparr> in
       case (if ReviewPolicyIncludesDatabaseOperators config then
               (case Database c database of
                  None \<Rightarrow> Inl (Errorf ''database is not configured for review policy'')
                | Some dbc \<Rightarrow> Inr (policy\<lparr>pol_OperatorTeams := dbc_OperatorTeams dbc,
                    pol_OperatorUsers := dbc_OperatorUsers dbc,
                    pol_RequiredReviewers := fold (\<lambda>v vs. appendUniqueString vs v)
                      (dbc_OperatorTeams dbc @ dbc_OperatorUsers dbc) required\<rparr>))
             else Inr policy) of
         Inl e \<Rightarrow> Inl e
       | Inr policy \<Rightarrow>
           if \<not> review_IncludeCodeowners rp then Inr policy
           else
             (case matchReviewGateCodeowners client repo baseRef schemaPath of
                Inl e \<Rightarrow> Inl e
              | Inr owners \<Rightarrow>
                  (case codeowner_logins client owners of
                     Inl e \<Rightarrow> Inl e
                   | Inr logins \<Rightarrow> Inr (policy\<lparr>pol_CodeownerReviewers := logins,
                       pol_RequiredReviewers := fold (\<lambda>v vs. appendUniqueString vs v)
                         (OwnerNames (owner_String client) owners) (pol_RequiredReviewers policy)\<rparr>))))"

record ReviewGateResult =
  gate_Approved :: bool
  gate_RequiredReviewers :: "string list"
  gate_PRAuthor :: string

text \<open>The loop over the valid approvers: whether one of them matches.\<close>

fun any_matches :: "reviewGatePolicy \<Rightarrow> ReviewClient \<Rightarrow> string list \<Rightarrow> err + bool" where
  "any_matches policy client [] = Inr False"
| "any_matches policy client (reviewer # reviewers) =
    (case policy_Matches policy client reviewer of
       Inl e \<Rightarrow> Inl e
     | Inr (Some who) \<Rightarrow> Inr True
     | Inr None \<Rightarrow> any_matches policy client reviewers)"

definition checkReviewGate ::
  "(string list \<Rightarrow> string list) \<Rightarrow> ServerConfig option \<Rightarrow> ReviewClient \<Rightarrow> string \<Rightarrow> int \<Rightarrow> string \<Rightarrow> string \<Rightarrow>
   err + ReviewGateResult option" where
  "checkReviewGate order config client repo pr database schemaPath =
    (if \<not> ReviewPolicyEnabled config then Inr None
     else
       (case FetchPR client repo pr of
          Inl e \<Rightarrow> Inl (Wrapped ''fetch PR info'' e)
        | Inr (author, baseRef) \<Rightarrow>
       (case ListReviews client repo pr of
          Inl e \<Rightarrow> Inl (Wrapped ''fetch PR reviews'' e)
        | Inr reviews \<Rightarrow>
       (case loadReviewGatePolicy config client repo baseRef database schemaPath of
          Inl e \<Rightarrow> Inl e
        | Inr policy \<Rightarrow>
            if pol_RequiredReviewers policy = []
            then Inl (Errorf ''review policy has no configured reviewers for database'')
            else
              (case any_matches policy client
                      (filter (\<lambda>reviewer. \<not> EqualFold reviewer author) (order (GetApprovedReviewers reviews))) of
                 Inl e \<Rightarrow> Inl e
               | Inr approved \<Rightarrow> Inr (Some \<lparr>gate_Approved = approved,
                   gate_RequiredReviewers = pol_RequiredReviewers policy, gate_PRAuthor = author\<rparr>))))))"

datatype ReviewComment =
    ReviewCommandError err
  | RenderReviewRequired string "string list" string

definition enforceReviewGate ::
  "(string list \<Rightarrow> string list) \<Rightarrow> ServerConfig option \<Rightarrow> ReviewClient \<Rightarrow> string \<Rightarrow> int \<Rightarrow> string \<Rightarrow> string \<Rightarrow>
   ReviewComment option" where
  "enforceReviewGate order config client repo pr database schemaPath =
    (case checkReviewGate order config client repo pr database schemaPath of
       Inl e \<Rightarrow> Some (ReviewCommandError e)
     | Inr None \<Rightarrow> None
     | Inr (Some result) \<Rightarrow>
         if \<not> gate_Approved result
         then Some (RenderReviewRequired database (gate_RequiredReviewers result) (gate_PRAuthor result))
         else None)"


section \<open>Membership\<close>

definition in_team :: "ReviewClient \<Rightarrow> string \<Rightarrow> string \<Rightarrow> bool" where
  "in_team client actor team \<longleftrightarrow>
    (\<exists>org slug members. ParseGitHubTeamPrincipal team = Inr (org, slug) \<and>
      ListTeamMembers client org slug = Inr members \<and> (\<exists>m\<in>set members. EqualFold m actor))"

definition readable_team :: "ReviewClient \<Rightarrow> string \<Rightarrow> bool" where
  "readable_team client team \<longleftrightarrow>
    (\<exists>org slug members. ParseGitHubTeamPrincipal team = Inr (org, slug) \<and>
      ListTeamMembers client org slug = Inr members)"

text \<open>An actor matches a tier of teams and users.\<close>

definition entitled :: "ReviewClient \<Rightarrow> string \<Rightarrow> string list \<Rightarrow> string list \<Rightarrow> bool" where
  "entitled client actor teams users \<longleftrightarrow>
    (\<exists>team\<in>set teams. in_team client actor team) \<or> (\<exists>user\<in>set users. EqualFold user actor)"

lemma entitled_append:
  "entitled client actor (t1 @ t2) (u1 @ u2) \<longleftrightarrow> entitled client actor t1 u1 \<or> entitled client actor t2 u2"
  by (auto simp: entitled_def)

lemma IsTeamMember_True:
  "ParseGitHubTeamPrincipal team = Inr (org, slug) \<Longrightarrow>
    IsTeamMember client org slug actor = Inr True \<longleftrightarrow> in_team client actor team"
  by (auto simp: IsTeamMember_def in_team_def list_ex_iff split: sum.splits)

lemma actorInAnyTeam_cases:
  "case actorInAnyTeam client teams actor of
     Inl e \<Rightarrow> \<exists>team\<in>set teams. \<not> readable_team client team
   | Inr None \<Rightarrow> (\<forall>team\<in>set teams. \<not> in_team client actor team)
   | Inr (Some team) \<Rightarrow> team \<in> set teams \<and> in_team client actor team"
proof (induction teams)
  case (Cons team teams)
  show ?case
  proof (cases "ParseGitHubTeamPrincipal team")
    case (Inl e)
    then show ?thesis by (auto simp: readable_team_def)
  next
    case (Inr os)
    obtain org slug where os: "ParseGitHubTeamPrincipal team = Inr (org, slug)" using Inr by (cases os) simp
    show ?thesis
    proof (cases "ListTeamMembers client org slug")
      case (Inl e)
      with os show ?thesis by (auto simp: readable_team_def IsTeamMember_def)
    next
      case members: (Inr members)
      show ?thesis
      proof (cases "in_team client actor team")
        case True
        with os members IsTeamMember_True [OF os, of client actor] show ?thesis by simp
      next
        case False
        with os members have "actorInAnyTeam client (team # teams) actor = actorInAnyTeam client teams actor"
          by (auto simp: IsTeamMember_def in_team_def list_ex_iff)
        with Cons.IH False show ?thesis by (auto split: sum.splits option.splits)
      qed
    qed
  qed
qed simp

lemma matchedUserPrincipal_iff: "matchedUserPrincipal users actor \<noteq> None \<longleftrightarrow> (\<exists>user\<in>set users. EqualFold user actor)"
  by (auto simp: matchedUserPrincipal_def find_None_iff_set)

lemma match_tier_cases:
  "case match_tier client actor teams users of
     Inl e \<Rightarrow> \<exists>team\<in>set teams. \<not> readable_team client team
   | Inr None \<Rightarrow> \<not> entitled client actor teams users
   | Inr (Some who) \<Rightarrow> entitled client actor teams users"
  using actorInAnyTeam_cases [where client = client and teams = teams and actor = actor] matchedUserPrincipal_iff [of users actor]
  by (cases "actorInAnyTeam client teams actor"; cases "matchedUserPrincipal users actor")
     (auto simp: match_tier_def entitled_def split: option.splits)

lemma authorize_tier_cases:
  "case authorize_tier (Some gh) actor teams users tr ur of
     None \<Rightarrow> \<not> entitled gh actor teams users
   | Some (result, None) \<Rightarrow> Allowed result \<and> entitled gh actor teams users
   | Some (result, Some e) \<Rightarrow> \<not> Allowed result \<and> (\<exists>team\<in>set teams. \<not> readable_team gh team)"
  using actorInAnyTeam_cases [where client = gh and teams = teams and actor = actor] matchedUserPrincipal_iff [of users actor]
  by (cases "actorInAnyTeam gh teams actor"; cases "matchedUserPrincipal users actor")
     (auto simp: authorize_tier_def entitled_def denied_def split: option.splits)


text \<open>An outcome that lets the command through.\<close>

definition passes :: "ActorAuthorizationResult \<times> err option \<Rightarrow> bool" where
  "passes out \<longleftrightarrow> Allowed (fst out) \<and> snd out = None"

lemma passes_denied [simp]: "\<not> passes (denied reason, e)"
  by (simp add: passes_def denied_def)

text \<open>A tier that decides by itself, before the outcome \<open>rest\<close> of the later tiers.\<close>

definition decides :: "ActorAuthorizationResult \<times> err option \<Rightarrow> bool \<Rightarrow> bool \<Rightarrow> bool" where
  "decides out ok readable \<longleftrightarrow> (passes out \<longrightarrow> ok) \<and> (ok \<and> readable \<longrightarrow> passes out)"

lemma authorize_tier_then:
  assumes "decides rest later readable"
  shows "decides (case authorize_tier (Some gh) actor teams users tr ur of Some out \<Rightarrow> out | None \<Rightarrow> rest)
    (entitled gh actor teams users \<or> later) ((\<forall>team\<in>set teams. readable_team gh team) \<and> readable)"
proof (cases "authorize_tier (Some gh) actor teams users tr ur")
  case None
  with assms authorize_tier_cases [where gh = gh and actor = actor and teams = teams and users = users and tr = tr and ur = ur]
  show ?thesis by (simp add: decides_def)
next
  case (Some out)
  obtain res e where out: "out = (res, e)" by fastforce
  note tier = authorize_tier_cases [where gh = gh and actor = actor and teams = teams and users = users and tr = tr and ur = ur,
      unfolded Some option.case out prod.case]
  show ?thesis
    unfolding Some option.case out decides_def passes_def fst_conv snd_conv
    by (cases e) (use tier in auto)
qed

lemma authorize_configured_cases:
  fixes gh :: ReviewClient
  assumes "Database c database = Some dbc" and "RepoAdmins c repo = (rt, ru)" and "TrimSpace actor \<noteq> ''''"
  defines "auth \<equiv> PRCommandAuthorization c"
    and "out \<equiv> authorizeConfiguredDatabaseActor (Some c) (Some gh) actor repo database"
  defines "ok \<equiv> entitled gh actor (auth_AdminTeams auth) (auth_AdminUsers auth) \<or> entitled gh actor rt ru \<or>
      entitled gh actor (dbc_OperatorTeams dbc) (dbc_OperatorUsers dbc)"
  shows "decides out ok (\<forall>team\<in>set (auth_AdminTeams auth) \<union> set rt \<union> set (dbc_OperatorTeams dbc). readable_team gh team)"
proof -
  let ?none = "auth_AdminTeams auth = [] \<and> rt = [] \<and> dbc_OperatorTeams dbc = [] \<and>
      auth_AdminUsers auth = [] \<and> ru = [] \<and> dbc_OperatorUsers dbc = []"
  have "decides (denied ActorAuthReasonNotAuthorized, None) False True" by (simp add: decides_def)
  note tiers = authorize_tier_then [OF authorize_tier_then [OF authorize_tier_then [OF this]], unfolded simp_thms]
  show ?thesis
  proof (cases ?none)
    case True
    then have "\<not> ok" by (simp add: ok_def entitled_def)
    moreover from True have "out = (denied ActorAuthReasonNoConfiguredPrincipal, None)"
      unfolding out_def authorizeConfiguredDatabaseActor_def by (simp add: assms(1-3) Let_def auth_def)
    ultimately show ?thesis by (simp add: decides_def)
  next
    case False
    show ?thesis
      unfolding out_def ok_def authorizeConfiguredDatabaseActor_def option.case assms(1,2) Let_def prod.case
        if_not_P [OF assms(3)] auth_def [symmetric] if_not_P [OF False] ball_Un conj_assoc
      by (rule tiers)
  qed
qed

section \<open>Properties\<close>

text \<open>
  Property C23 (who may run a command).  With actor authorization enabled, a command is let through only
  for a named actor on a configured database who is a member of an admin, repository admin or operator
  team or is listed as such a user; and such an actor is let through whenever the configured teams can
  be read.
\<close>

theorem actor_gate_exact:
  assumes "teams = auth_AdminTeams (PRCommandAuthorization c) @ fst (RepoAdmins c repo) @
      (case Database c database of None \<Rightarrow> [] | Some dbc \<Rightarrow> dbc_OperatorTeams dbc)"
    and "users = auth_AdminUsers (PRCommandAuthorization c) @ snd (RepoAdmins c repo) @
      (case Database c database of None \<Rightarrow> [] | Some dbc \<Rightarrow> dbc_OperatorUsers dbc)"
    and "auth_Enabled (PRCommandAuthorization c)"
  shows "(enforcePRCommandActorAuthorization (Some c) (Some gh) actor repo database = None \<longrightarrow>
      TrimSpace actor \<noteq> '''' \<and> Database c database \<noteq> None \<and> entitled gh actor teams users) \<and>
    (TrimSpace actor \<noteq> '''' \<and> Database c database \<noteq> None \<and> entitled gh actor teams users \<and>
      (\<forall>team\<in>set teams. readable_team gh team) \<longrightarrow>
      enforcePRCommandActorAuthorization (Some c) (Some gh) actor repo database = None)"
proof (cases "TrimSpace actor = '''' \<or> Database c database = None")
  case True
  with assms(3) show ?thesis
    by (auto simp: enforcePRCommandActorAuthorization_def authorizePRCommandActor_def
        authorizeConfiguredDatabaseActor_def PRCommandAuthorizationEnabled_def denied_def)
next
  case False
  then obtain dbc where dbc: "Database c database = Some dbc" and actor: "TrimSpace actor \<noteq> ''''" by auto
  obtain rt ru where ra: "RepoAdmins c repo = (rt, ru)" by fastforce
  let ?auth = "PRCommandAuthorization c"
  have ent: "entitled gh actor teams users \<longleftrightarrow> entitled gh actor (auth_AdminTeams ?auth) (auth_AdminUsers ?auth) \<or>
      entitled gh actor rt ru \<or> entitled gh actor (dbc_OperatorTeams dbc) (dbc_OperatorUsers dbc)"
    unfolding assms(1,2) dbc ra by (simp add: entitled_append)
  have teams: "set teams = set (auth_AdminTeams ?auth) \<union> set rt \<union> set (dbc_OperatorTeams dbc)"
    unfolding assms(1) dbc ra by auto
  have "authorizePRCommandActor (Some c) (Some gh) actor repo database =
      authorizeConfiguredDatabaseActor (Some c) (Some gh) actor repo database"
    using assms(3) actor by (simp add: authorizePRCommandActor_def PRCommandAuthorizationEnabled_def)
  then have pass: "enforcePRCommandActorAuthorization (Some c) (Some gh) actor repo database = None \<longleftrightarrow>
      passes (authorizeConfiguredDatabaseActor (Some c) (Some gh) actor repo database)"
    by (simp add: enforcePRCommandActorAuthorization_def passes_def split: prod.splits option.splits)
  show ?thesis
    using authorize_configured_cases [OF dbc ra actor, of gh] actor dbc unfolding pass ent teams decides_def by blast
qed


definition example_review_client :: ReviewClient where
  "example_review_client = \<lparr>FetchPR = (\<lambda>_ _. Inr (''alice'', ''main'')),
     ListReviews = (\<lambda>_ _. Inr [\<lparr>rev_User = ''Dave'', rev_State = ''CHANGES_REQUESTED'', rev_SubmittedAt = 1\<rparr>,
       \<lparr>rev_User = ''dave'', rev_State = ''APPROVED'', rev_SubmittedAt = 2\<rparr>,
       \<lparr>rev_User = ''dave'', rev_State = ''COMMENTED'', rev_SubmittedAt = 3\<rparr>]),
     ListTeamMembers = (\<lambda>org slug. if org = ''org'' \<and> slug = ''dba'' then Inr [''Dave''] else Inl (Errorf ''404'')),
     FetchRuleset = (\<lambda>_ _. Inr None), MatchPath = (\<lambda>_ _. Inr None), owner_String = owner_Value\<rparr>"

theorem actor_gate_exact_witness:
  "enforcePRCommandActorAuthorization (Some example_config) (Some example_review_client) ''dave'' ''org/app'' ''orders'' = None"
proof -
  have cfg: "Database example_config ''orders'' = Some example_database" "RepoAdmins example_config ''org/app'' = ([], [])"
    "auth_AdminTeams (PRCommandAuthorization example_config) = []" "auth_Enabled (PRCommandAuthorization example_config)"
    by (simp_all add: Database_def RepoAdmins_def example_config_def)
  have team: "ParseGitHubTeamPrincipal ''org/dba'' = Inr (''org'', ''dba'')" by code_simp
  have "ListTeamMembers example_review_client ''org'' ''dba'' = Inr [''Dave'']" "EqualFold ''Dave'' ''dave''" by code_simp+
  with team have "in_team example_review_client ''dave'' ''org/dba''" "readable_team example_review_client ''org/dba''"
    by (auto simp: in_team_def readable_team_def)
  moreover have "TrimSpace ''dave'' \<noteq> ''''" by code_simp
  ultimately show ?thesis
    using actor_gate_exact [OF refl refl cfg(4), where gh = example_review_client and actor = "''dave''"
        and repo = "''org/app''" and database = "''orders''"]
    unfolding cfg by (simp add: entitled_def example_database_def)
qed

section \<open>Approvals\<close>

definition decisive :: "string \<Rightarrow> ReviewInfo \<Rightarrow> bool" where
  "decisive user r \<longleftrightarrow> rev_User r \<noteq> '''' \<and> \<not> EqualFold (rev_State r) ReviewCommented \<and> ToLower (rev_User r) = user"

text \<open>The review that decides: no later one, and no other one at the same time after it.\<close>

fun latest_of :: "(string \<times> int) option \<Rightarrow> ReviewInfo list \<Rightarrow> (string \<times> int) option" where
  "latest_of cur [] = cur"
| "latest_of cur (r # rs) =
    latest_of (if (case cur of None \<Rightarrow> True | Some c \<Rightarrow> snd c \<le> rev_SubmittedAt r)
               then Some (rev_State r, rev_SubmittedAt r) else cur) rs"

lemma latest_reviews_lookup:
  "map_of (latest_reviews latest reviews) user = latest_of (map_of latest user) (filter (decisive user) reviews)"
proof (induction reviews arbitrary: latest)
  case (Cons r reviews)
  show ?case
  proof (cases "rev_User r = '''' \<or> EqualFold (rev_State r) ReviewCommented")
    case True
    then show ?thesis by (auto simp: Cons.IH decisive_def)
  next
    case False
    then show ?thesis
      by (cases "map_of latest (ToLower (rev_User r))")
         (auto simp: Cons.IH decisive_def Let_def update_conv' not_less)
  qed
qed simp

lemma latest_reviews_distinct: "distinct (map fst latest) \<Longrightarrow> distinct (map fst (latest_reviews latest reviews))"
proof (induction reviews arbitrary: latest)
  case (Cons r reviews)
  then show ?case by (auto simp: Let_def distinct_update split: option.splits)
qed simp

lemma latest_of_append: "latest_of cur (xs @ ys) = latest_of (latest_of cur xs) ys"
  by (induction xs arbitrary: cur) simp_all

text \<open>The last one among the latest.\<close>

definition deciding :: "ReviewInfo list \<Rightarrow> ReviewInfo" where
  "deciding rs = last (filter (\<lambda>r. rev_SubmittedAt r = Max (rev_SubmittedAt ` set rs)) rs)"

lemma latest_of_deciding:
  "rs \<noteq> [] \<Longrightarrow> latest_of None rs = Some (rev_State (deciding rs), rev_SubmittedAt (deciding rs)) \<and>
    rev_SubmittedAt (deciding rs) = Max (rev_SubmittedAt ` set rs)"
proof (induction rs rule: rev_induct)
  case (snoc r rs)
  show ?case
  proof (cases "rs = []")
    case True
    then show ?thesis by (simp add: deciding_def)
  next
    case False
    note IH = snoc.IH [OF False]
    have max: "Max (rev_SubmittedAt ` set (rs @ [r])) = max (rev_SubmittedAt r) (Max (rev_SubmittedAt ` set rs))"
      using False by simp
    show ?thesis
    proof (cases "Max (rev_SubmittedAt ` set rs) \<le> rev_SubmittedAt r")
      case True
      then have "deciding (rs @ [r]) = r" unfolding deciding_def max by simp
      with True IH max show ?thesis by (simp add: latest_of_append del: set_append)
    next
      case below: False
      then have "deciding (rs @ [r]) = deciding rs" unfolding deciding_def max by simp
      with below IH max show ?thesis by (simp add: latest_of_append del: set_append)
    qed
  qed
qed simp

text \<open>
  Further fact (approvals).  A login counts as an approver exactly when it has a decisive review, that is
  one that is not a comment, and the last one among its latest decisive reviews is an approval.  Every
  approver is listed once.
\<close>

theorem approved_reviewers_exact:
  "(user \<in> set (GetApprovedReviewers reviews) \<longleftrightarrow>
     (let rs = filter (decisive user) reviews in
      rs \<noteq> [] \<and> EqualFold (rev_State (deciding rs)) ReviewApproved)) \<and>
   distinct (GetApprovedReviewers reviews)"
proof -
  let ?latest = "latest_reviews [] reviews" and ?rs = "filter (decisive user) reviews"
  have dist: "distinct (map fst ?latest)" by (rule latest_reviews_distinct) simp
  have lookup: "map_of ?latest user = (if ?rs = [] then None else Some (rev_State (deciding ?rs), rev_SubmittedAt (deciding ?rs)))"
    unfolding latest_reviews_lookup using latest_of_deciding [of ?rs] by simp
  have "user \<in> set (GetApprovedReviewers reviews) \<longleftrightarrow>
      (\<exists>st t. (user, st, t) \<in> set ?latest \<and> EqualFold st ReviewApproved)"
    by (force simp: GetApprovedReviewers_def)
  also have "\<dots> \<longleftrightarrow> (\<exists>st t. map_of ?latest user = Some (st, t) \<and> EqualFold st ReviewApproved)"
    using dist by (simp add: map_of_eq_Some_iff)
  also have "\<dots> \<longleftrightarrow> ?rs \<noteq> [] \<and> EqualFold (rev_State (deciding ?rs)) ReviewApproved"
    unfolding lookup by simp
  finally have "user \<in> set (GetApprovedReviewers reviews) \<longleftrightarrow>
      ?rs \<noteq> [] \<and> EqualFold (rev_State (deciding ?rs)) ReviewApproved" .
  moreover have "distinct (GetApprovedReviewers reviews)"
    unfolding GetApprovedReviewers_def by (rule distinct_map_filter) (rule dist)
  ultimately show ?thesis by (simp add: Let_def)
qed

section \<open>The gate\<close>

lemma policy_Matches_entitled:
  assumes "policy_Matches p client reviewer = Inr (Some who)"
  shows "entitled client reviewer (pol_AdminTeams p @ pol_RepoAdminTeams p @ pol_OperatorTeams p)
      (pol_AdminUsers p @ pol_RepoAdminUsers p @ pol_OperatorUsers p) \<or> ToLower reviewer \<in> pol_CodeownerReviewers p"
  using assms
    match_tier_cases [where client = client and actor = reviewer and teams = "pol_AdminTeams p" and users = "pol_AdminUsers p"]
    match_tier_cases [where client = client and actor = reviewer and teams = "pol_RepoAdminTeams p" and users = "pol_RepoAdminUsers p"]
    match_tier_cases [where client = client and actor = reviewer and teams = "pol_OperatorTeams p" and users = "pol_OperatorUsers p"]
  unfolding policy_Matches_def entitled_append by (simp split: sum.splits option.splits if_splits)

lemma any_matches_True:
  "any_matches p client reviewers = Inr True \<Longrightarrow>
    \<exists>reviewer\<in>set reviewers. \<exists>who. policy_Matches p client reviewer = Inr (Some who)"
  by (induction reviewers) (auto split: sum.splits option.splits)


definition is_codeowner :: "ReviewClient \<Rightarrow> string \<Rightarrow> string \<Rightarrow> string \<Rightarrow> string \<Rightarrow> bool" where
  "is_codeowner client repo baseRef schemaPath reviewer \<longleftrightarrow>
    (\<exists>owners logins. matchReviewGateCodeowners client repo baseRef schemaPath = Inr owners \<and>
      codeowner_logins client owners = Inr logins \<and> ToLower reviewer \<in> logins)"

text \<open>The operators that count as reviewers of a database.\<close>

definition review_operators :: "ServerConfig \<Rightarrow> string \<Rightarrow> string list \<times> string list" where
  "review_operators c database =
    (if ReviewPolicyIncludesDatabaseOperators (Some c)
     then (case Database c database of None \<Rightarrow> ([], []) | Some dbc \<Rightarrow> (dbc_OperatorTeams dbc, dbc_OperatorUsers dbc))
     else ([], []))"

lemma loadReviewGatePolicy_parts:
  assumes "loadReviewGatePolicy (Some c) client repo baseRef database schemaPath = Inr p"
  shows "pol_AdminTeams p = review_AdminTeams (ReviewPolicy c)" "pol_AdminUsers p = review_AdminUsers (ReviewPolicy c)"
    "(pol_RepoAdminTeams p, pol_RepoAdminUsers p) = RepoAdmins c repo"
    "(pol_OperatorTeams p, pol_OperatorUsers p) = review_operators c database"
    "ToLower reviewer \<in> pol_CodeownerReviewers p \<Longrightarrow>
      review_IncludeCodeowners (ReviewPolicy c) \<and> is_codeowner client repo baseRef schemaPath reviewer"
proof -
  obtain rt ru where ra: "RepoAdmins c repo = (rt, ru)" by fastforce
  note load = assms [unfolded loadReviewGatePolicy_def option.case ra Let_def prod.case]
  show "pol_AdminTeams p = review_AdminTeams (ReviewPolicy c)" "pol_AdminUsers p = review_AdminUsers (ReviewPolicy c)"
    "(pol_RepoAdminTeams p, pol_RepoAdminUsers p) = RepoAdmins c repo"
    using load unfolding ra by (auto split: sum.splits if_splits option.splits)
  show "(pol_OperatorTeams p, pol_OperatorUsers p) = review_operators c database"
    using load unfolding review_operators_def by (auto split: sum.splits if_splits option.splits)
  show "review_IncludeCodeowners (ReviewPolicy c) \<and> is_codeowner client repo baseRef schemaPath reviewer"
    if "ToLower reviewer \<in> pol_CodeownerReviewers p"
    using load that unfolding is_codeowner_def by (auto split: sum.splits if_splits option.splits)
qed

text \<open>
  Property C22 (the review gate).  With the review policy enabled an apply is let through only after an
  approval by someone other than the author of the pull request who belongs to the policy: an admin, an
  admin of the repository, an operator of the database when operators count, or a code owner of the
  schema path when code owners count.  Any failed lookup blocks.  The order in which the approvers are
  visited does not matter.
\<close>

theorem review_gate_sound:
  assumes "enforceReviewGate order (Some c) client repo pr database schemaPath = None"
    and "review_Enabled (ReviewPolicy c)" and "\<And>xs. mset (order xs) = mset xs"
  shows "\<exists>author baseRef reviews reviewer.
    FetchPR client repo pr = Inr (author, baseRef) \<and> ListReviews client repo pr = Inr reviews \<and>
    reviewer \<in> set (GetApprovedReviewers reviews) \<and> \<not> EqualFold reviewer author \<and>
    (entitled client reviewer
       (review_AdminTeams (ReviewPolicy c) @ fst (RepoAdmins c repo) @ fst (review_operators c database))
       (review_AdminUsers (ReviewPolicy c) @ snd (RepoAdmins c repo) @ snd (review_operators c database)) \<or>
     review_IncludeCodeowners (ReviewPolicy c) \<and> is_codeowner client repo baseRef schemaPath reviewer)"
proof -
  have enabled: "ReviewPolicyEnabled (Some c)" using assms(2) by (simp add: ReviewPolicyEnabled_def)
  from assms(1) obtain author baseRef reviews policy where
    pr: "FetchPR client repo pr = Inr (author, baseRef)" "ListReviews client repo pr = Inr reviews"
    and load: "loadReviewGatePolicy (Some c) client repo baseRef database schemaPath = Inr policy"
    and approved: "any_matches policy client (filter (\<lambda>reviewer. \<not> EqualFold reviewer author)
        (order (GetApprovedReviewers reviews))) = Inr True"
    unfolding enforceReviewGate_def checkReviewGate_def
    by (auto simp: enabled split: sum.splits if_splits option.splits)
  from any_matches_True [OF approved] obtain reviewer who where
    "reviewer \<in> set (order (GetApprovedReviewers reviews))" "\<not> EqualFold reviewer author"
    and matches: "policy_Matches policy client reviewer = Inr (Some who)" by auto
  moreover have "set (order xs) = set xs" for xs using assms(3) [of xs] by (rule mset_eq_setD)
  ultimately have "reviewer \<in> set (GetApprovedReviewers reviews)" "\<not> EqualFold reviewer author" by auto
  moreover have "entitled client reviewer
       (review_AdminTeams (ReviewPolicy c) @ fst (RepoAdmins c repo) @ fst (review_operators c database))
       (review_AdminUsers (ReviewPolicy c) @ snd (RepoAdmins c repo) @ snd (review_operators c database)) \<or>
     review_IncludeCodeowners (ReviewPolicy c) \<and> is_codeowner client repo baseRef schemaPath reviewer"
    using policy_Matches_entitled [OF matches] loadReviewGatePolicy_parts(5) [OF load]
    unfolding loadReviewGatePolicy_parts(1,2) [OF load] loadReviewGatePolicy_parts(3,4) [OF load, symmetric]
    by auto
  ultimately show ?thesis using pr by blast
qed

theorem review_gate_sound_witness:
  "\<exists>author baseRef reviews reviewer.
    FetchPR example_review_client ''org/app'' 7 = Inr (author, baseRef) \<and>
    ListReviews example_review_client ''org/app'' 7 = Inr reviews \<and>
    reviewer \<in> set (GetApprovedReviewers reviews) \<and> \<not> EqualFold reviewer author"
proof -
  have "enforceReviewGate rev (Some example_config) example_review_client ''org/app'' 7 ''orders'' ''schema/orders'' = None"
    by code_simp
  moreover have "review_Enabled (ReviewPolicy example_config)" by (simp add: example_config_def)
  moreover have "mset (rev xs) = mset xs" for xs :: "string list" by simp
  ultimately show ?thesis using review_gate_sound [of rev example_config] by blast
qed

end
