(* ===== verification/Apply_Gate.thy ===== *)
theory Apply_Gate
  imports Stages Plan_Execution Comment_Dispatch Promotion_Gate Review_Gate
begin

text \<open>
  The apply command (\<^verbatim>\<open>pkg/webhook/apply_handlers.go\<close>, \<^verbatim>\<open>apply_execute.go\<close>, \<^verbatim>\<open>plan_retry.go\<close>, \<^verbatim>\<open>schema_freshness.go\<close>,
  \<^verbatim>\<open>plan_freshness.go\<close>, \<^verbatim>\<open>apply_check_records.go\<close>): the gates in their order, the lock, the plan and the re-plan, the freshness
  checks around them, and the apply that is queued at the end; and its confirmation.

  A handler either stops before anything is queued, with its last answer, or queues an apply, and then
  reports how the follow-up went.  Comments posted on the way are left out.  What GitHub answers is the
  record \<open>ApplyClient\<close>: a read whose result may change during the command takes the number of the read.
  Discovery of the schema in the repository, the reconciliation of checks and the publication of the
  aggregate are programs of the record \<open>ApplyHost\<close>.
\<close>

section \<open>Stages\<close>

text \<open>A gate that is a pure function of what it read: a comment blocks.\<close>

definition gate :: "('c \<Rightarrow> 's) \<Rightarrow> 'c option \<Rightarrow> (world, 's + unit) state" where
  "gate f blocked = (case blocked of None \<Rightarrow> proceed () | Some comment \<Rightarrow> stop_with (f comment))"

lemma run_gate [simp]: "run_state (gate f blocked) w = (Inr (), w') \<longleftrightarrow> blocked = None \<and> w' = w"
  by (cases blocked) (auto simp: gate_def)

section \<open>What the command reads\<close>

record SchemaRequestResult =
  sr_Database :: string
  sr_Type :: string
  sr_HeadSHA :: string
  sr_SchemaPath :: string
  sr_SchemaLinkPath :: string
  sr_SchemaFiles :: schema_files
  sr_Environments :: "string list"

record PullRequestInfo =
  pi_HeadSHA :: string
  pi_BaseRef :: string

record ApplyClient =
  ac_FetchPullRequest :: "err + PullRequestInfo"
  ac_FetchPullRequestNoCache :: "nat \<Rightarrow> err + PullRequestInfo"
  ac_CheckStatuses :: "nat \<Rightarrow> string \<Rightarrow> string \<Rightarrow> string list \<Rightarrow> err + PRCheckStatus list"
  ac_SchemaPathsChangedSinceMergeBase :: "nat \<Rightarrow> string \<Rightarrow> string \<Rightarrow> string \<Rightarrow> string list \<Rightarrow> err + bool \<times> string"
  ac_review :: ReviewClient
  ac_gate :: GateClient

record ApplyHost =
  ah_host :: Host
  ah_config :: ServerConfig
  ah_bootstrap :: "err option"
  ah_handleNoManagedSchemaChanges :: "bool prog"
  ah_schema :: "err + SchemaRequestResult"
  ah_unowned :: "err \<Rightarrow> bool"
  ah_reconcileStaleChecks :: "unit prog"
  ah_recordPlan :: "PlanResponse \<Rightarrow> unit prog"
  ah_factory :: "err option"
  ah_observer :: nat
  ah_progress :: "Apply \<Rightarrow> unit prog"
  ah_refreshTerminal :: "Apply \<Rightarrow> unit prog"
  ah_updateAggregateCheck :: "string \<Rightarrow> unit prog"
  ah_order :: "string list \<Rightarrow> string list"
  ah_maxAttempts :: int
  ah_checkName :: string
  ah_rpc :: "nat \<Rightarrow> nat \<Rightarrow> PlanRPC"
  ah_cancelled :: "nat \<Rightarrow> nat \<Rightarrow> bool"

record ApplyCommand =
  cm_repo :: string
  cm_pr :: int
  cm_environment :: string
  cm_installationID :: int
  cm_requestedBy :: string
  cm_result :: CommandResult

datatype answer =
    Silent
  | CommandError string
  | NotAuthorized AuthComment
  | ReviewRequired ReviewComment
  | ChecksBlocked GateComment
  | PromotionBlocked GateComment
  | LockedBy Lock
  | ApplyInProgress Apply
  | StaleSchemaRejection string string
  | BaseSchemaRejection bool
  | StalePlanRejection string string
  | NoChanges
  | UnsafeChangesBlocked
  | ConfirmManually string
  | BelongsToRollback
  | NoLockHeld

datatype followup = Tracked | NotLoaded | CheckRefused err

type_synonym 'a stage = "(world, answer \<times> Service + 'a) state"

definition lockOwner :: "ApplyCommand \<Rightarrow> string" where
  "lockOwner cm = cm_repo cm @ ''#'' @ Itoa (cm_pr cm)"

definition formatGitHubCaller :: "string \<Rightarrow> string \<Rightarrow> int \<Rightarrow> string" where
  "formatGitHubCaller user repo pr = ''github:'' @ user @ ''@'' @ repo @ ''#'' @ Itoa pr"

section \<open>Discovery\<close>

definition attachServerEnvironments :: "ServerConfig \<Rightarrow> SchemaRequestResult \<Rightarrow> string \<Rightarrow> err + SchemaRequestResult" where
  "attachServerEnvironments config schema environment =
    (case DatabaseEnvironments (Some config) (sr_Database schema) of
       Inl e \<Rightarrow> Inl (Wrapped ''resolve configured environments'' e)
     | Inr environments \<Rightarrow>
         if environment \<noteq> '''' \<and> environment \<notin> set environments
         then Inl (Errorf ''environment is not configured on this server'')
         else Inr (schema\<lparr>sr_Environments := environments\<rparr>))"

definition silentOnUnscopedFanOut :: "ServerConfig \<Rightarrow> string \<Rightarrow> string \<Rightarrow> bool" where
  "silentOnUnscopedFanOut config repo tenant =
    (if tenant \<noteq> '''' then False else AggregateRoleForRepo (Some config) repo \<noteq> '''')"

definition skipUnownedUnscopedCommand :: "(err \<Rightarrow> bool) \<Rightarrow> ServerConfig \<Rightarrow> string \<Rightarrow> string \<Rightarrow> err \<Rightarrow> bool" where
  "skipUnownedUnscopedCommand unowned config repo tenant e =
    (if tenant \<noteq> '''' then False
     else if AggregateRoleForRepo (Some config) repo = '''' then False
     else unowned e)"

text \<open>The start of both handlers, to the schema with the environments of its database.\<close>

definition discover :: "ApplyHost \<Rightarrow> Service \<Rightarrow> ApplyCommand \<Rightarrow> SchemaRequestResult stage" where
  "discover ah s cm =
    (case ah_bootstrap ah of
       Some e \<Rightarrow> stop_with (Silent, s)
     | None \<Rightarrow>
         do {
           handled \<leftarrow> ah_handleNoManagedSchemaChanges ah;
           case handled of
             Inl e \<Rightarrow> stop_with (CommandError (Error_text e), s)
           | Inr True \<Rightarrow> stop_with (Silent, s)
           | Inr False \<Rightarrow>
               (case ah_schema ah of
                  Inl e \<Rightarrow>
                    if skipUnownedUnscopedCommand (ah_unowned ah) (ah_config ah) (cm_repo cm) (cmd_Tenant (cm_result cm)) e
                    then stop_with (Silent, s) else stop_with (CommandError (Error_text e), s)
                | Inr schema \<Rightarrow>
                    (case attachServerEnvironments (ah_config ah) schema (cm_environment cm) of
                       Inl e \<Rightarrow> stop_with (CommandError (Error_text e), s)
                     | Inr schema' \<Rightarrow> proceed schema'))
         })"

section \<open>Freshness\<close>

definition assertSchemaStillCurrent :: "SchemaRequestResult \<Rightarrow> string \<Rightarrow> answer option" where
  "assertSchemaStillCurrent schema freshHeadSHA =
    (if sr_HeadSHA schema = freshHeadSHA then None else Some (StaleSchemaRejection (sr_HeadSHA schema) freshHeadSHA))"

definition assertBaseSchemaStillCurrent ::
  "ServerConfig \<Rightarrow> (string \<Rightarrow> string \<Rightarrow> string \<Rightarrow> string list \<Rightarrow> err + bool \<times> string) \<Rightarrow> string \<Rightarrow> SchemaRequestResult \<Rightarrow>
   PullRequestInfo \<Rightarrow> answer option" where
  "assertBaseSchemaStillCurrent config changedSince repo schema prInfo =
    (if \<not> RequiresUpToDateWithBase (Some config) repo then None
     else
       let schemaPaths = sr_SchemaPath schema # (if sr_SchemaLinkPath schema \<noteq> '''' then [sr_SchemaLinkPath schema] else []) in
       case changedSince repo (pi_BaseRef prInfo) (pi_HeadSHA prInfo) schemaPaths of
         Inl e \<Rightarrow> Some (BaseSchemaRejection True)
       | Inr (changed, baseTipSHA) \<Rightarrow> if \<not> changed then None else Some (BaseSchemaRejection False))"

definition assertPlanStillCurrent :: "Plan option \<Rightarrow> string \<Rightarrow> answer option" where
  "assertPlanStillCurrent plan freshHeadSHA =
    (case plan of
       None \<Rightarrow> None
     | Some p \<Rightarrow>
         if plan_HeadSHA p = '''' then None
         else if plan_HeadSHA p = freshHeadSHA then None
         else Some (StalePlanRejection (plan_HeadSHA p) freshHeadSHA))"

definition confirmationPlanForLock :: "(string \<Rightarrow> string) \<Rightarrow> Lock \<Rightarrow> Plan option prog" where
  "confirmationPlanForLock ci lock =
    (if lock_PendingPlanID lock = '''' then State_Monad.return (Inr None) else Plan_Get ci (lock_PendingPlanID lock))"

text \<open>Errors and a changed intent are only logged.\<close>

definition releaseApplyLockIfIntentUnchanged :: "ApplyHost \<Rightarrow> ApplyCommand \<Rightarrow> SchemaRequestResult \<Rightarrow> string \<Rightarrow> (world, unit) state" where
  "releaseApplyLockIfIntentUnchanged ah cm schema expectedPendingPlanID =
    do {
      _ \<leftarrow> ReleaseIfPendingPlanID (h_ci (ah_host ah)) (sr_Database schema) (sr_Type schema) (lockOwner cm) expectedPendingPlanID;
      State_Monad.return ()
    }"

section \<open>Planning with retries\<close>

definition maxTransientPlanRetries :: nat where
  "maxTransientPlanRetries = 3"

fun errors_As_Unavailable :: "err \<Rightarrow> bool" where
  "errors_As_Unavailable (Wrapped m e) \<longleftrightarrow> m = ''remote deployment unavailable'' \<or> errors_As_Unavailable e"
| "errors_As_Unavailable _ \<longleftrightarrow> False"

definition isTransientRemotePlanError :: "(err \<Rightarrow> bool) \<Rightarrow> err \<Rightarrow> bool" where
  "isTransientRemotePlanError unavailable e = (if errors_As_Unavailable e then True else unavailable e)"

text \<open>The retries that are left, the number of the attempt, and the error of the first one.\<close>

fun plan_retry_loop ::
  "Host \<Rightarrow> (nat \<Rightarrow> PlanRPC) \<Rightarrow> (nat \<Rightarrow> bool) \<Rightarrow> ServerConfig \<Rightarrow> PlanRequest \<Rightarrow> nat \<Rightarrow> nat \<Rightarrow> err \<Rightarrow> Service \<Rightarrow>
   (world, (err + ProtoPlanResponse \<times> PlanResponse) \<times> Service) state" where
  "plan_retry_loop h rpc cancelled config req 0 attempt firstErr s = State_Monad.return (Inl firstErr, s)"
| "plan_retry_loop h rpc cancelled config req (Suc left) attempt firstErr s =
    (if cancelled attempt then State_Monad.return (Inl (Wrapped ''plan retry cancelled'' ContextDone), s)
     else
       do {
         (r, s') \<leftarrow> ExecutePlanProto h (rpc attempt) config s req;
         case r of
           Inr x \<Rightarrow> State_Monad.return (Inr x, s')
         | Inl e \<Rightarrow>
             if \<not> isTransientRemotePlanError (rpc_Unavailable (rpc attempt)) e then State_Monad.return (Inl e, s')
             else plan_retry_loop h rpc cancelled config req left (Suc attempt) firstErr s'
       })"

definition executePlanProtoWithTransientRetry ::
  "Host \<Rightarrow> (nat \<Rightarrow> PlanRPC) \<Rightarrow> (nat \<Rightarrow> bool) \<Rightarrow> ServerConfig \<Rightarrow> Service \<Rightarrow> PlanRequest \<Rightarrow>
   (world, (err + ProtoPlanResponse \<times> PlanResponse) \<times> Service) state" where
  "executePlanProtoWithTransientRetry h rpc cancelled config s req =
    do {
      (r, s') \<leftarrow> ExecutePlanProto h (rpc 0) config s req;
      case r of
        Inr x \<Rightarrow> State_Monad.return (Inr x, s')
      | Inl e \<Rightarrow>
          if \<not> isTransientRemotePlanError (rpc_Unavailable (rpc 0)) e then State_Monad.return (Inl e, s')
          else plan_retry_loop h rpc cancelled config req maxTransientPlanRetries 1 e s'
    }"

definition executePlanWithTransientRetry ::
  "Host \<Rightarrow> (nat \<Rightarrow> PlanRPC) \<Rightarrow> (nat \<Rightarrow> bool) \<Rightarrow> ServerConfig \<Rightarrow> Service \<Rightarrow> PlanRequest \<Rightarrow>
   (world, (err + PlanResponse) \<times> Service) state" where
  "executePlanWithTransientRetry h rpc cancelled config s req =
    do {
      (r, s') \<leftarrow> executePlanProtoWithTransientRetry h rpc cancelled config s req;
      State_Monad.return (case r of Inl e \<Rightarrow> Inl e | Inr (proto, resp) \<Rightarrow> Inr resp, s')
    }"

definition apply_plan_request :: "ApplyCommand \<Rightarrow> SchemaRequestResult \<Rightarrow> PlanRequest" where
  "apply_plan_request cm schema =
    \<lparr>pr_Database = sr_Database schema, pr_Environment = cm_environment cm, pr_Type = sr_Type schema,
     pr_SchemaFiles = sr_SchemaFiles schema, pr_Repository = cm_repo cm, pr_PullRequest = Some (int32 (cm_pr cm)),
     pr_HeadSHA = Some (sr_HeadSHA schema), pr_SchemaPath = sr_SchemaPath schema, pr_SourceTrusted = True\<rparr>"

text \<open>The \<open>n\<close>-th plan of the command.\<close>

definition plan_stage :: "ApplyHost \<Rightarrow> nat \<Rightarrow> Service \<Rightarrow> ApplyCommand \<Rightarrow> SchemaRequestResult \<Rightarrow> (PlanResponse \<times> Service) stage" where
  "plan_stage ah n s cm schema =
    do {
      (r, s') \<leftarrow> executePlanWithTransientRetry (ah_host ah) (ah_rpc ah n) (ah_cancelled ah n) (ah_config ah) s (apply_plan_request cm schema);
      case r of Inl e \<Rightarrow> stop_with (CommandError (Error_text e), s') | Inr planResp \<Rightarrow> proceed (planResp, s')
    }"

section \<open>Changes of a plan\<close>

definition FlatTables :: "PlanResponse \<Rightarrow> TableChangeResponse list" where
  "FlatTables r = concat (map scr_TableChanges (rsp_Changes r))"

definition UnsafeChange :: "TableChangeResponse \<Rightarrow> bool" where
  "UnsafeChange t = (if \<not> tcr_IsUnsafe t \<and> \<not> EqualFold (tcr_ChangeType t) ''drop'' then False else True)"

definition UnsafeChanges :: "PlanResponse \<Rightarrow> TableChangeResponse list" where
  "UnsafeChanges r = concat (map (\<lambda>sc. filter UnsafeChange (scr_TableChanges sc)) (rsp_Changes r))"

definition normalizePlanNamespace :: "string \<Rightarrow> string" where
  "normalizePlanNamespace namespace = (if namespace = '''' then ''default'' else namespace)"

text \<open>Namespace, table, operation and DDL of a change.\<close>

type_synonym planChangeIdentity = "string \<times> string \<times> string \<times> string"

text \<open>A Go map of counters, in which a missing key reads as zero.\<close>

definition counter :: "('k \<times> nat) list \<Rightarrow> 'k \<Rightarrow> nat" where
  "counter m k = (case map_of m k of None \<Rightarrow> 0 | Some n \<Rightarrow> n)"

definition tally :: "'k list \<Rightarrow> ('k \<times> nat) list" where
  "tally ks = fold (\<lambda>k m. AList.update k (Suc (counter m k)) m) ks []"

definition response_identities :: "PlanResponse \<Rightarrow> planChangeIdentity list" where
  "response_identities planResp =
    concat (map (\<lambda>sc. map (\<lambda>tc. (normalizePlanNamespace (scr_Namespace sc), tcr_TableName tc, ToLower (tcr_ChangeType tc), tcr_DDL tc))
      (scr_TableChanges sc)) (rsp_Changes planResp))"

definition responsePlanIdentities :: "PlanResponse \<Rightarrow> (planChangeIdentity \<times> nat) list" where
  "responsePlanIdentities planResp = tally (response_identities planResp)"

definition stored_identities :: "Plan \<Rightarrow> planChangeIdentity list" where
  "stored_identities storedPlan =
    map (\<lambda>tc. (normalizePlanNamespace (tc_Namespace tc), tc_Table tc, ToLower (tc_Operation tc), tc_DDL tc)) (FlatDDLChanges storedPlan)"

definition storedPlanIdentities :: "Plan \<Rightarrow> (planChangeIdentity \<times> nat) list" where
  "storedPlanIdentities storedPlan = tally (stored_identities storedPlan)"

definition ddlMatchesStoredPlan :: "PlanResponse \<Rightarrow> Plan \<Rightarrow> bool" where
  "ddlMatchesStoredPlan planResp storedPlan =
    (let newChanges = responsePlanIdentities planResp; storedChanges = storedPlanIdentities storedPlan in
     if length newChanges \<noteq> length storedChanges then False
     else list_all (\<lambda>(identity, count). counter storedChanges identity = count) newChanges)"

section \<open>Queueing\<close>

definition deploymentForDatabaseEnvironment :: "ServerConfig \<Rightarrow> string \<Rightarrow> string \<Rightarrow> string \<Rightarrow> err + string" where
  "deploymentForDatabaseEnvironment config database deployment environment =
    (if deployment \<noteq> '''' then Inr deployment
     else (case ResolvePrimaryDatabaseTarget (Some config) database environment of
             Inl e \<Rightarrow> Inl e
           | Inr resolved \<Rightarrow> Inr (ExecutionTarget.Deployment resolved)))"

definition SetPendingObserver :: "ServerConfig \<Rightarrow> string \<Rightarrow> string \<Rightarrow> string \<Rightarrow> nat option \<Rightarrow> Service \<Rightarrow> Service" where
  "SetPendingObserver config database deployment environment observer s =
    (case deploymentForDatabaseEnvironment config database deployment environment of
       Inl e \<Rightarrow> s
     | Inr dep \<Rightarrow>
         s\<lparr>svc_pendingObservers :=
           (case observer of
              None \<Rightarrow> AList.delete (database, dep, environment) (svc_pendingObservers s)
            | Some obs \<Rightarrow> AList.update (database, dep, environment) obs (svc_pendingObservers s))\<rparr>)"

text \<open>The stored check of the target becomes the apply's, unless it carries a drift block.\<close>

definition started_check :: "ApplyCommand \<Rightarrow> SchemaRequestResult \<Rightarrow> int \<Rightarrow> string \<Rightarrow> Check" where
  "started_check cm schema applyID headSHA =
    \<lparr>chk_ID = 0, chk_Repository = cm_repo cm, chk_PullRequest = cm_pr cm, chk_HeadSHA = headSHA,
     chk_Environment = cm_environment cm, chk_DatabaseType = sr_Type schema, chk_DatabaseName = sr_Database schema,
     chk_CheckRunID = 0, chk_ApplyID = applyID, chk_HasChanges = True, chk_Status = checkStatusInProgress,
     chk_Conclusion = '''', chk_BlockingReason = '''', chk_ErrorMessage = '''', chk_ChangeSummary = '''',
     chk_CreatedAt = 0, chk_UpdatedAt = 0\<rparr>"

definition claim_check :: "ApplyHost \<Rightarrow> Check \<Rightarrow> int \<Rightarrow> unit prog" where
  "claim_check ah check applyID =
    or_fail ''upsert stored check state for apply start'' (Check_Upsert (h_ci (ah_host ah)) check) (\<lambda>_.
    or_fail ''reload apply after check claim'' (Apply_Get applyID) (\<lambda>apply.
      case apply of
        None \<Rightarrow> State_Monad.return (Inl (Errorf ''apply missing after check claim''))
      | Some a \<Rightarrow>
          do {
            _ \<leftarrow> (if IsTerminalApplyState (apply_State a) then ah_refreshTerminal ah a else State_Monad.return (Inr ()));
            _ \<leftarrow> ah_updateAggregateCheck ah (chk_HeadSHA check);
            State_Monad.return (Inr ())
          }))"

definition updateCheckRecordForApplyStart :: "ApplyHost \<Rightarrow> ApplyClient \<Rightarrow> ApplyCommand \<Rightarrow> SchemaRequestResult \<Rightarrow> int \<Rightarrow> unit prog" where
  "updateCheckRecordForApplyStart ah client cm schema applyID =
    or_fail ''look up stored check state for apply start''
      (Check_Get (h_ci (ah_host ah)) (cm_repo cm) (cm_pr cm) (cm_environment cm) (sr_Type schema) (sr_Database schema)) (\<lambda>found.
      case found of
        Some check \<Rightarrow>
          if chk_BlockingReason check = ReviewTimeDeploymentDriftBlockingReason
          then State_Monad.return (Inl (Errorf ''apply start refused: review-time deployment drift block present''))
          else claim_check ah (check\<lparr>chk_ApplyID := applyID, chk_HasChanges := True, chk_Status := checkStatusInProgress,
                 chk_Conclusion := '''', chk_BlockingReason := '''', chk_ErrorMessage := ''''\<rparr>) applyID
      | None \<Rightarrow>
          (case ac_FetchPullRequest client of
             Inl e \<Rightarrow> State_Monad.return (Inl (Wrapped ''fetch PR for apply start check'' e))
           | Inr prInfo \<Rightarrow> claim_check ah (started_check cm schema applyID (pi_HeadSHA prInfo)) applyID))"

text \<open>What happens once the apply is queued.\<close>

definition follow_up :: "ApplyHost \<Rightarrow> ApplyClient \<Rightarrow> ApplyCommand \<Rightarrow> SchemaRequestResult \<Rightarrow> int \<Rightarrow> (world, followup) state" where
  "follow_up ah client cm schema applyID =
    do {
      r \<leftarrow> Apply_Get applyID;
      case r of
        Inl e \<Rightarrow> State_Monad.return NotLoaded
      | Inr None \<Rightarrow> State_Monad.return NotLoaded
      | Inr (Some apply) \<Rightarrow>
          do {
            _ \<leftarrow> ah_progress ah apply;
            u \<leftarrow> updateCheckRecordForApplyStart ah client cm schema applyID;
            State_Monad.return (case u of Inl e \<Rightarrow> CheckRefused e | Inr _ \<Rightarrow> Tracked)
          }
    }"

definition apply_options :: "CommandResult \<Rightarrow> (string \<times> string) list" where
  "apply_options result =
    (if cmd_DeferCutover result then [(''defer_cutover'', ''true'')] else []) @
    (if cmd_SkipRevert result then [(''skip_revert'', ''true'')] else []) @
    (if cmd_AllowUnsafe result then [(''allow_unsafe'', ''true'')] else [])"

definition apply_request :: "ApplyCommand \<Rightarrow> PlanResponse \<Rightarrow> string \<Rightarrow> ApplyRequest" where
  "apply_request cm planResp expectedPendingPlanID =
    \<lparr>ar_PlanID = rsp_PlanID planResp, ar_Environment = cm_environment cm, ar_Options = apply_options (cm_result cm),
     ar_Caller = formatGitHubCaller (cm_requestedBy cm) (cm_repo cm) (cm_pr cm), ar_InstallationID = cm_installationID cm,
     ar_ExpectedLockOwner = lockOwner cm, ar_ExpectedPendingPlanID = expectedPendingPlanID\<rparr>"

definition queue_apply ::
  "ApplyHost \<Rightarrow> ApplyClient \<Rightarrow> Service \<Rightarrow> ApplyCommand \<Rightarrow> SchemaRequestResult \<Rightarrow> PlanResponse \<Rightarrow> string \<Rightarrow>
   (int \<times> followup \<times> Service) stage" where
  "queue_apply ah client s cm schema planResp expectedPendingPlanID =
    (let observer = (\<lambda>obs. SetPendingObserver (ah_config ah) (sr_Database schema) '''' (cm_environment cm) obs) in
     do {
       (r, s') \<leftarrow> ExecuteApply (ah_host ah) (ah_config ah) (observer (Some (ah_observer ah)) s) (apply_request cm planResp expectedPendingPlanID);
       case r of
         Inl e \<Rightarrow> stop_with (CommandError (if errors_Is e ErrLockIntentChanged
             then ''The pending schema change changed while this command was running.'' else ''Failed to execute apply.''), observer None s')
       | Inr (identifier, applyID) \<Rightarrow>
           if applyID \<le> 0 then stop_with (CommandError ''SchemaBot did not receive a stored apply ID'', observer None s')
           else do { f \<leftarrow> follow_up ah client cm schema applyID; proceed (applyID, f, s') }
     })"

text \<open>The \<open>n\<close>-th look at the pull request, which has to show the discovered snapshot.\<close>

definition check_fresh :: "ApplyHost \<Rightarrow> ApplyClient \<Rightarrow> nat \<Rightarrow> ApplyCommand \<Rightarrow> SchemaRequestResult \<Rightarrow> answer + PullRequestInfo" where
  "check_fresh ah client n cm schema =
    (case ac_FetchPullRequestNoCache client n of
       Inl e \<Rightarrow> Inl (CommandError ''SchemaBot could not verify the current PR state.'')
     | Inr prInfo \<Rightarrow>
         (case assertSchemaStillCurrent schema (pi_HeadSHA prInfo) of
            Some a \<Rightarrow> Inl a
          | None \<Rightarrow>
              (case assertBaseSchemaStillCurrent (ah_config ah) (ac_SchemaPathsChangedSinceMergeBase client n) (cm_repo cm) schema prInfo of
                 Some a \<Rightarrow> Inl a
               | None \<Rightarrow> Inr prInfo)))"

definition executeApply ::
  "ApplyHost \<Rightarrow> ApplyClient \<Rightarrow> Service \<Rightarrow> ApplyCommand \<Rightarrow> SchemaRequestResult \<Rightarrow> Plan option \<Rightarrow> string \<Rightarrow>
   (int \<times> followup \<times> Service) stage" where
  "executeApply ah client s cm schema storedPlan expectedPendingPlanID =
    and_then (plan_stage ah 1 s cm schema) (\<lambda>(planResp, s').
      case check_fresh ah client 1 cm schema of
        Inl a \<Rightarrow> do { _ \<leftarrow> releaseApplyLockIfIntentUnchanged ah cm schema expectedPendingPlanID; stop_with (a, s') }
      | Inr prInfo \<Rightarrow>
          if FlatTables planResp = [] then
            do {
              _ \<leftarrow> releaseApplyLockIfIntentUnchanged ah cm schema expectedPendingPlanID;
              _ \<leftarrow> ah_recordPlan ah planResp;
              stop_with (NoChanges, s')
            }
          else if (case storedPlan of None \<Rightarrow> False | Some plan \<Rightarrow> \<not> ddlMatchesStoredPlan planResp plan)
          then stop_with (ConfirmManually ''Schema changes differ from auto-plan'', s')
          else if UnsafeChanges planResp \<noteq> [] \<and> \<not> cmd_AllowUnsafe (cm_result cm) then stop_with (UnsafeChangesBlocked, s')
          else (case ah_factory ah of
                  Some e \<Rightarrow> stop_with (Silent, s')
                | None \<Rightarrow> queue_apply ah client s' cm schema planResp expectedPendingPlanID))"

section \<open>The commands\<close>

definition actor_stage :: "ApplyHost \<Rightarrow> ApplyClient \<Rightarrow> Service \<Rightarrow> ApplyCommand \<Rightarrow> SchemaRequestResult \<Rightarrow> unit stage" where
  "actor_stage ah client s cm schema =
    gate (\<lambda>c. (NotAuthorized c, s))
      (enforcePRCommandActorAuthorization (Some (ah_config ah)) (Some (ac_review client)) (cm_requestedBy cm) (cm_repo cm) (sr_Database schema))"

definition review_stage :: "ApplyHost \<Rightarrow> ApplyClient \<Rightarrow> Service \<Rightarrow> ApplyCommand \<Rightarrow> SchemaRequestResult \<Rightarrow> unit stage" where
  "review_stage ah client s cm schema =
    gate (\<lambda>c. (ReviewRequired c, s))
      (enforceReviewGate (ah_order ah) (Some (ah_config ah)) (ac_review client) (cm_repo cm) (cm_pr cm) (sr_Database schema) (sr_SchemaPath schema))"

text \<open>The gate on the other checks of a commit; the statuses are the \<open>n\<close>-th ones read.\<close>

definition passing_checks :: "ApplyHost \<Rightarrow> ApplyClient \<Rightarrow> nat \<Rightarrow> ApplyCommand \<Rightarrow> string \<Rightarrow> GateComment option" where
  "passing_checks ah client n cm headSHA =
    enforcePassingChecks (ah_config ah) (ac_CheckStatuses client n) (cm_repo cm) headSHA (cm_environment cm)"

definition promotion_stage :: "ApplyHost \<Rightarrow> ApplyClient \<Rightarrow> Service \<Rightarrow> ApplyCommand \<Rightarrow> SchemaRequestResult \<Rightarrow> unit stage" where
  "promotion_stage ah client s cm schema =
    do {
      r \<leftarrow> checkPriorEnvironments (h_ci (ah_host ah)) (Some (ah_config ah)) (ac_gate client) (ah_maxAttempts ah) (ah_checkName ah)
        (cm_repo cm) (cm_pr cm) (sr_Database schema) (sr_Type schema) (cm_environment cm) (sr_Environments schema);
      case r of
        Inl e \<Rightarrow> stop_with (CommandError (Error_text e), s)
      | Inr blocked \<Rightarrow> gate (\<lambda>c. (PromotionBlocked c, s)) blocked
    }"

text \<open>The gates of an apply, in their order.\<close>

definition apply_gates :: "ApplyHost \<Rightarrow> ApplyClient \<Rightarrow> Service \<Rightarrow> ApplyCommand \<Rightarrow> SchemaRequestResult \<Rightarrow> unit stage" where
  "apply_gates ah client s cm schema =
    and_then (actor_stage ah client s cm schema) (\<lambda>_.
    do {
      rec \<leftarrow> ah_reconcileStaleChecks ah;
      case rec of
        Inl e \<Rightarrow> stop_with (CommandError (''Failed to reconcile stale status checks: '' @ Error_text e), s)
      | Inr _ \<Rightarrow>
          and_then (review_stage ah client s cm schema) (\<lambda>_.
            case ac_FetchPullRequest client of
              Inl e \<Rightarrow> stop_with (CommandError (''Failed to fetch PR info: '' @ Error_text e), s)
            | Inr prInfo \<Rightarrow>
                and_then (gate (\<lambda>c. (ChecksBlocked c, s)) (passing_checks ah client 0 cm (pi_HeadSHA prInfo))) (\<lambda>_.
                  promotion_stage ah client s cm schema))
    })"

text \<open>A lock of this pull request without an active apply is released; its errors are only logged.\<close>

definition clear_stale_lock :: "ApplyHost \<Rightarrow> Service \<Rightarrow> ApplyCommand \<Rightarrow> SchemaRequestResult \<Rightarrow> unit stage" where
  "clear_stale_lock ah s cm schema =
    do {
      r \<leftarrow> Lock_Get (h_ci (ah_host ah)) (sr_Database schema) (sr_Type schema);
      case r of
        Inl e \<Rightarrow> stop_with (CommandError (''Failed to check lock status: '' @ Error_text e), s)
      | Inr None \<Rightarrow> proceed ()
      | Inr (Some existingLock) \<Rightarrow>
          if lock_Owner existingLock \<noteq> lockOwner cm then stop_with (LockedBy existingLock, s)
          else
            do {
              as \<leftarrow> Apply_GetByPR (h_ci (ah_host ah)) (cm_repo cm) (cm_pr cm);
              case as of
                Inl e \<Rightarrow> stop_with (Silent, s)
              | Inr rows \<Rightarrow>
                  (case find (\<lambda>a. apply_Database a = sr_Database schema \<and> \<not> IsTerminalApplyState (apply_State a)) rows of
                     Some a \<Rightarrow> stop_with (ApplyInProgress a, s)
                   | None \<Rightarrow>
                       do {
                         _ \<leftarrow> Release (h_ci (ah_host ah)) (sr_Database schema) (sr_Type schema) (lockOwner cm);
                         proceed ()
                       })
            }
    }"

definition apply_lock :: "ApplyCommand \<Rightarrow> SchemaRequestResult \<Rightarrow> string \<Rightarrow> Lock" where
  "apply_lock cm schema planID =
    \<lparr>lock_ID = 0, lock_DatabaseName = sr_Database schema, lock_DatabaseType = sr_Type schema, lock_Repository = cm_repo cm,
     lock_PullRequest = cm_pr cm, lock_Owner = lockOwner cm, lock_PendingPlanID = planID, lock_CreatedAt = 0, lock_UpdatedAt = 0\<rparr>"

text \<open>The plan under the lock: the lock is pinned to it, the checks are looked at once more, and the plan is read back.\<close>

definition lock_plan ::
  "ApplyHost \<Rightarrow> ApplyClient \<Rightarrow> Service \<Rightarrow> ApplyCommand \<Rightarrow> SchemaRequestResult \<Rightarrow> string \<Rightarrow> PlanResponse \<Rightarrow> Plan stage" where
  "lock_plan ah client s cm schema headSHA planResp =
    do {
      r \<leftarrow> Acquire (h_ci (ah_host ah)) (apply_lock cm schema (rsp_PlanID planResp));
      case r of
        Inl e \<Rightarrow> stop_with (CommandError (''Failed to acquire lock: '' @ Error_text e), s)
      | Inr _ \<Rightarrow>
          (case passing_checks ah client 1 cm headSHA of
             Some c \<Rightarrow>
               do { _ \<leftarrow> releaseApplyLockIfIntentUnchanged ah cm schema (rsp_PlanID planResp); stop_with (ChecksBlocked c, s) }
           | None \<Rightarrow>
               do {
                 p \<leftarrow> Plan_Get (h_ci (ah_host ah)) (rsp_PlanID planResp);
                 _ \<leftarrow> ah_recordPlan ah planResp;
                 case p of
                   Inl e \<Rightarrow> stop_with (ConfirmManually ''Could not verify plan'', s)
                 | Inr None \<Rightarrow> stop_with (ConfirmManually ''Could not verify plan'', s)
                 | Inr (Some storedPlan) \<Rightarrow> proceed storedPlan
               })
    }"

definition handleApplyCommand ::
  "ApplyHost \<Rightarrow> ApplyClient \<Rightarrow> Service \<Rightarrow> ApplyCommand \<Rightarrow> (int \<times> followup \<times> Service) stage" where
  "handleApplyCommand ah client s cm =
    and_then (discover ah s cm) (\<lambda>schema.
    and_then (apply_gates ah client s cm schema) (\<lambda>_.
    and_then (clear_stale_lock ah s cm schema) (\<lambda>_.
      case check_fresh ah client 0 cm schema of
        Inl a \<Rightarrow> stop_with (a, s)
      | Inr prInfo \<Rightarrow>
          and_then (plan_stage ah 0 s cm schema) (\<lambda>(planResp, s').
            if FlatTables planResp = [] then stop_with (NoChanges, s')
            else if UnsafeChanges planResp \<noteq> [] \<and> \<not> cmd_AllowUnsafe (cm_result cm) then stop_with (UnsafeChangesBlocked, s')
            else
              and_then (lock_plan ah client s' cm schema (pi_HeadSHA prInfo) planResp) (\<lambda>storedPlan.
                executeApply ah client s' cm schema (Some storedPlan) (rsp_PlanID planResp))))))"

definition rollbackPendingPlanPrefix :: string where
  "rollbackPendingPlanPrefix = ''rollback:''"

text \<open>The lock that the confirmation finds, which has to be this pull request's and fresh.\<close>

definition confirm_lock ::
  "ApplyHost \<Rightarrow> ApplyClient \<Rightarrow> Service \<Rightarrow> ApplyCommand \<Rightarrow> SchemaRequestResult \<Rightarrow> PullRequestInfo \<Rightarrow> Lock stage" where
  "confirm_lock ah client s cm schema prInfo =
    (let release = (\<lambda>lock. if lock_Owner lock \<noteq> lockOwner cm then State_Monad.return ()
           else releaseApplyLockIfIntentUnchanged ah cm schema (lock_PendingPlanID lock)) in
     do {
       r \<leftarrow> Lock_Get (h_ci (ah_host ah)) (sr_Database schema) (sr_Type schema);
       case r of
         Inl e \<Rightarrow> stop_with (CommandError (''Failed to check lock status: '' @ Error_text e), s)
       | Inr None \<Rightarrow>
           if silentOnUnscopedFanOut (ah_config ah) (cm_repo cm) (cmd_Tenant (cm_result cm)) then stop_with (Silent, s)
           else stop_with (NoLockHeld, s)
       | Inr (Some existingLock) \<Rightarrow>
           if lock_Owner existingLock = lockOwner cm \<and> HasPrefix (lock_PendingPlanID existingLock) rollbackPendingPlanPrefix
           then stop_with (BelongsToRollback, s)
           else
             (case assertSchemaStillCurrent schema (pi_HeadSHA prInfo) of
                Some a \<Rightarrow> do { _ \<leftarrow> release existingLock; stop_with (a, s) }
              | None \<Rightarrow>
                  (case assertBaseSchemaStillCurrent (ah_config ah) (ac_SchemaPathsChangedSinceMergeBase client 0) (cm_repo cm) schema prInfo of
                     Some a \<Rightarrow> do { _ \<leftarrow> release existingLock; stop_with (a, s) }
                   | None \<Rightarrow>
                       if lock_Owner existingLock \<noteq> lockOwner cm then stop_with (LockedBy existingLock, s)
                       else proceed existingLock))
     })"

text \<open>The plan the lock is pinned to has to be of the current commit.\<close>

definition confirm_plan ::
  "ApplyHost \<Rightarrow> Service \<Rightarrow> ApplyCommand \<Rightarrow> SchemaRequestResult \<Rightarrow> PullRequestInfo \<Rightarrow> Lock \<Rightarrow> unit stage" where
  "confirm_plan ah s cm schema prInfo existingLock =
    do {
      p \<leftarrow> confirmationPlanForLock (h_ci (ah_host ah)) existingLock;
      case p of
        Inl e \<Rightarrow> stop_with (CommandError (''Failed to load confirmation plan: '' @ Error_text e), s)
      | Inr storedPlan \<Rightarrow>
          (case assertPlanStillCurrent storedPlan (pi_HeadSHA prInfo) of
             Some a \<Rightarrow>
               do { _ \<leftarrow> releaseApplyLockIfIntentUnchanged ah cm schema (lock_PendingPlanID existingLock); stop_with (a, s) }
           | None \<Rightarrow> proceed ())
    }"

definition handleApplyConfirmCommand ::
  "ApplyHost \<Rightarrow> ApplyClient \<Rightarrow> Service \<Rightarrow> ApplyCommand \<Rightarrow> (int \<times> followup \<times> Service) stage" where
  "handleApplyConfirmCommand ah client s cm =
    and_then (discover ah s cm) (\<lambda>schema.
    and_then (actor_stage ah client s cm schema) (\<lambda>_.
    and_then (review_stage ah client s cm schema) (\<lambda>_.
      case ac_FetchPullRequestNoCache client 0 of
        Inl e \<Rightarrow> stop_with (CommandError (''Failed to fetch PR info: '' @ Error_text e), s)
      | Inr prInfo \<Rightarrow>
          and_then (gate (\<lambda>c. (ChecksBlocked c, s)) (passing_checks ah client 0 cm (pi_HeadSHA prInfo))) (\<lambda>_.
          and_then (confirm_lock ah client s cm schema prInfo) (\<lambda>existingLock.
          and_then (confirm_plan ah s cm schema prInfo existingLock) (\<lambda>_.
            executeApply ah client s cm schema None (lock_PendingPlanID existingLock)))))))"

section \<open>The comparison with the reviewed plan\<close>

lemma counter_update: "counter (AList.update k n m) j = (if j = k then n else counter m j)"
  by (simp add: counter_def update_conv')

lemma counter_fold:
  "counter (fold (\<lambda>k m. AList.update k (Suc (counter m k)) m) ks m) j = counter m j + count (mset ks) j"
  by (induction ks arbitrary: m) (auto simp: counter_update)

lemma counter_tally: "counter (tally ks) j = count (mset ks) j"
  by (simp add: tally_def counter_fold) (simp add: counter_def)

lemma tally_keys: "distinct (map fst (tally ks)) \<and> fst ` set (tally ks) = set ks"
proof -
  have "distinct (map fst (fold (\<lambda>k m. AList.update k (Suc (counter m k)) m) ks m)) \<and>
      fst ` set (fold (\<lambda>k m. AList.update k (Suc (counter m k)) m) ks m) = fst ` set m \<union> set ks"
    if "distinct (map fst m)" for m :: "('a \<times> nat) list"
    using that
  proof (induction ks arbitrary: m)
    case (Cons k ks)
    have "distinct (map fst (AList.update k (Suc (counter m k)) m))" using Cons.prems by (rule distinct_update)
    from Cons.IH[OF this] show ?case by (auto simp: dom_update)
  qed simp
  from this[of "[]"] show ?thesis by (simp add: tally_def)
qed

lemma tally_entry: "(k, n) \<in> set (tally ks) \<longleftrightarrow> k \<in> set ks \<and> n = count (mset ks) k"
proof -
  have "map_of (tally ks) k = Some n \<longleftrightarrow> k \<in> set ks \<and> n = count (mset ks) k"
  proof (cases "map_of (tally ks) k")
    case None
    then have "k \<notin> set ks" using tally_keys[of ks] by (metis map_of_eq_None_iff)
    with None show ?thesis by simp
  next
    case (Some m)
    moreover from this have "k \<in> set ks" using tally_keys[of ks] by (metis image_eqI fst_conv map_of_SomeD)
    moreover have "m = count (mset ks) k" using Some counter_tally[of ks k] by (simp add: counter_def)
    ultimately show ?thesis by auto
  qed
  then show ?thesis using tally_keys[of ks] by (simp add: map_of_eq_Some_iff)
qed

lemma tally_length: "length (tally ks) = card (set ks)"
  using tally_keys[of ks] by (metis distinct_card length_map set_map)

lemma tallies_match:
  "length (tally xs) = length (tally ys) \<and> list_all (\<lambda>(k, n). counter (tally ys) k = n) (tally xs) \<longleftrightarrow> mset xs = mset ys"
proof
  assume l: "length (tally xs) = length (tally ys) \<and> list_all (\<lambda>(k, n). counter (tally ys) k = n) (tally xs)"
  then have c: "count (mset ys) k = count (mset xs) k" if "k \<in> set xs" for k
  proof -
    have "(k, count (mset xs) k) \<in> set (tally xs)" using that by (simp add: tally_entry)
    with l have "counter (tally ys) k = count (mset xs) k" by (fastforce simp: list_all_iff)
    then show ?thesis by (simp add: counter_tally)
  qed
  have sub: "set xs \<subseteq> set ys"
  proof
    fix k assume k: "k \<in> set xs"
    then have "0 < count (mset xs) k" by (simp add: count_mset_0_iff[symmetric])
    with c[OF k] show "k \<in> set ys" by (metis count_mset_0_iff less_irrefl)
  qed
  moreover have "card (set xs) = card (set ys)" using l by (simp add: tally_length)
  ultimately have "set xs = set ys" by (simp add: card_subset_eq)
  then show "mset xs = mset ys" using c by (intro multiset_eqI) (metis count_mset_0_iff)
next
  assume eq: "mset xs = mset ys"
  then have "set xs = set ys" by (rule mset_eq_setD)
  moreover have "counter (tally ys) k = n" if "(k, n) \<in> set (tally xs)" for k n
    using that eq by (simp add: tally_entry counter_tally)
  ultimately show "length (tally xs) = length (tally ys) \<and> list_all (\<lambda>(k, n). counter (tally ys) k = n) (tally xs)"
    by (auto simp: tally_length list_all_iff)
qed

lemma ddlMatchesStoredPlan_iff:
  "ddlMatchesStoredPlan planResp storedPlan \<longleftrightarrow> mset (response_identities planResp) = mset (stored_identities storedPlan)"
  using tallies_match[of "response_identities planResp" "stored_identities storedPlan"]
  by (auto simp: ddlMatchesStoredPlan_def Let_def responsePlanIdentities_def storedPlanIdentities_def)

text \<open>
  Further fact.  The re-plan matches the reviewed plan exactly when both describe the same changes, as multisets of
  namespace, table, operation and DDL: the comparison of the two counter maps, whose second is only
  looked up, misses neither a change that is gone nor one that is new.
\<close>

theorem replan_matches_exact:
  "ddlMatchesStoredPlan planResp storedPlan \<longleftrightarrow>
    mset (concat (map (\<lambda>sc. map (\<lambda>tc. (normalizePlanNamespace (scr_Namespace sc), tcr_TableName tc, ToLower (tcr_ChangeType tc), tcr_DDL tc))
        (scr_TableChanges sc)) (rsp_Changes planResp))) =
    mset (map (\<lambda>tc. (normalizePlanNamespace (tc_Namespace tc), tc_Table tc, ToLower (tc_Operation tc), tc_DDL tc))
        (FlatDDLChanges storedPlan))"
  unfolding ddlMatchesStoredPlan_iff response_identities_def stored_identities_def by (rule refl)

section \<open>What a queued apply went through\<close>

lemma gate_passed: "run_state (gate f blocked) w = (Inr x, w') \<Longrightarrow> blocked = None \<and> w' = w"
  by (cases blocked) (auto simp: gate_def)

lemma bind_sumE:
  assumes "run_state (do { r \<leftarrow> p; case r of Inl e \<Rightarrow> f e | Inr x \<Rightarrow> g x }) w = (y, w')"
    and "\<And>e w1. run_state (f e) w1 \<noteq> (y, w')"
  obtains x w1 where "run_state p w = (Inr x, w1)" and "run_state (g x) w1 = (y, w')"
  using assms by (auto split: prod.splits sum.splits)

lemma promotion_stageE:
  assumes "run_state (promotion_stage ah client s cm schema) w = (Inr x, w')"
  shows "run_state (checkPriorEnvironments (h_ci (ah_host ah)) (Some (ah_config ah)) (ac_gate client) (ah_maxAttempts ah) (ah_checkName ah)
        (cm_repo cm) (cm_pr cm) (sr_Database schema) (sr_Type schema) (cm_environment cm) (sr_Environments schema)) w = (Inr None, w')"
  using assms by (auto simp: promotion_stage_def split: prod.splits sum.splits dest!: gate_passed)

lemma apply_gatesE:
  assumes "run_state (apply_gates ah client s cm schema) w = (Inr x, w')"
  obtains w1 prInfo where
    "enforcePRCommandActorAuthorization (Some (ah_config ah)) (Some (ac_review client)) (cm_requestedBy cm) (cm_repo cm) (sr_Database schema) = None"
    "run_state (ah_reconcileStaleChecks ah) w = (Inr (), w1)"
    "enforceReviewGate (ah_order ah) (Some (ah_config ah)) (ac_review client) (cm_repo cm) (cm_pr cm) (sr_Database schema) (sr_SchemaPath schema) = None"
    "ac_FetchPullRequest client = Inr prInfo" "passing_checks ah client 0 cm (pi_HeadSHA prInfo) = None"
    "run_state (checkPriorEnvironments (h_ci (ah_host ah)) (Some (ah_config ah)) (ac_gate client) (ah_maxAttempts ah) (ah_checkName ah)
        (cm_repo cm) (cm_pr cm) (sr_Database schema) (sr_Type schema) (cm_environment cm) (sr_Environments schema)) w1 = (Inr None, w')"
  using assms unfolding apply_gates_def actor_stage_def review_stage_def
  by (auto elim!: and_thenE dest!: gate_passed promotion_stageE split: prod.splits sum.splits)

lemma check_fresh_Inr:
  assumes "check_fresh ah client n cm schema = Inr prInfo"
  shows "ac_FetchPullRequestNoCache client n = Inr prInfo \<and> pi_HeadSHA prInfo = sr_HeadSHA schema \<and>
    assertBaseSchemaStillCurrent (ah_config ah) (ac_SchemaPathsChangedSinceMergeBase client n) (cm_repo cm) schema prInfo = None"
  using assms by (auto simp: check_fresh_def assertSchemaStillCurrent_def split: sum.splits option.splits if_splits)

lemma lock_planE:
  assumes "run_state (lock_plan ah client s cm schema headSHA planResp) w = (Inr storedPlan, w')"
  obtains w1 w2 r where
    "run_state (Acquire (h_ci (ah_host ah)) (apply_lock cm schema (rsp_PlanID planResp))) w = (Inr (), w1)"
    "passing_checks ah client 1 cm headSHA = None"
    "run_state (Plan_Get (h_ci (ah_host ah)) (rsp_PlanID planResp)) w1 = (Inr (Some storedPlan), w2)"
    "run_state (ah_recordPlan ah planResp) w2 = (r, w')"
  using assms unfolding lock_plan_def
  by (auto split: prod.splits sum.splits option.splits)

lemma queue_applyE:
  assumes "run_state (queue_apply ah client s cm schema planResp pending) w = (Inr (applyID, f, s'), w')"
  obtains ident s2 w1 where
    "run_state (ExecuteApply (ah_host ah) (ah_config ah)
        (SetPendingObserver (ah_config ah) (sr_Database schema) '''' (cm_environment cm) (Some (ah_observer ah)) s)
        (apply_request cm planResp pending)) w = ((Inr (ident, applyID), s2), w1)"
  using assms unfolding queue_apply_def Let_def
  by (auto split: prod.splits sum.splits if_splits)

lemma executeApplyE:
  assumes "run_state (executeApply ah client s cm schema storedPlan pending) w = (Inr (applyID, f, s'), w')"
  obtains replan s2 w1 fresh ident s3 w2 where
    "run_state (plan_stage ah 1 s cm schema) w = (Inr (replan, s2), w1)"
    "check_fresh ah client 1 cm schema = Inr fresh" "FlatTables replan \<noteq> []"
    "storedPlan = None \<or> (\<exists>plan. storedPlan = Some plan \<and> ddlMatchesStoredPlan replan plan)"
    "UnsafeChanges replan = [] \<or> cmd_AllowUnsafe (cm_result cm)"
    "run_state (ExecuteApply (ah_host ah) (ah_config ah)
        (SetPendingObserver (ah_config ah) (sr_Database schema) '''' (cm_environment cm) (Some (ah_observer ah)) s2)
        (apply_request cm replan pending)) w1 = ((Inr (ident, applyID), s3), w2)"
proof -
  obtain replan s2 w1 where plan: "run_state (plan_stage ah 1 s cm schema) w = (Inr (replan, s2), w1)"
    and rest: "run_state (case check_fresh ah client 1 cm schema of
        Inl a \<Rightarrow> do { _ \<leftarrow> releaseApplyLockIfIntentUnchanged ah cm schema pending; stop_with (a, s2) }
      | Inr prInfo \<Rightarrow>
          if FlatTables replan = [] then
            do {
              _ \<leftarrow> releaseApplyLockIfIntentUnchanged ah cm schema pending;
              _ \<leftarrow> ah_recordPlan ah replan;
              stop_with (NoChanges, s2)
            }
          else if (case storedPlan of None \<Rightarrow> False | Some plan \<Rightarrow> \<not> ddlMatchesStoredPlan replan plan)
          then stop_with (ConfirmManually ''Schema changes differ from auto-plan'', s2)
          else if UnsafeChanges replan \<noteq> [] \<and> \<not> cmd_AllowUnsafe (cm_result cm) then stop_with (UnsafeChangesBlocked, s2)
          else (case ah_factory ah of
                  Some e \<Rightarrow> stop_with (Silent, s2)
                | None \<Rightarrow> queue_apply ah client s2 cm schema replan pending)) w1 = (Inr (applyID, f, s'), w')"
    using assms unfolding executeApply_def by (auto elim!: and_thenE)
  obtain fresh where fresh: "check_fresh ah client 1 cm schema = Inr fresh"
    using rest by (cases "check_fresh ah client 1 cm schema") (auto split: prod.splits)
  have "FlatTables replan \<noteq> []" "\<not> (case storedPlan of None \<Rightarrow> False | Some plan \<Rightarrow> \<not> ddlMatchesStoredPlan replan plan)"
    "\<not> (UnsafeChanges replan \<noteq> [] \<and> \<not> cmd_AllowUnsafe (cm_result cm))"
    "run_state (queue_apply ah client s2 cm schema replan pending) w1 = (Inr (applyID, f, s'), w')"
    using rest unfolding fresh by (auto split: prod.splits if_splits option.splits)
  then show ?thesis using that[OF plan fresh] by (elim queue_applyE) (auto split: option.splits)
qed


text \<open>What \<open>discover\<close> hands on.\<close>

lemma discoverE:
  assumes "run_state (discover ah s cm) w = (Inr schema, w')"
  obtains schema0 where
    "ah_bootstrap ah = None" "run_state (ah_handleNoManagedSchemaChanges ah) w = (Inr False, w')" "ah_schema ah = Inr schema0"
    "attachServerEnvironments (ah_config ah) schema0 (cm_environment cm) = Inr schema"
  using assms unfolding discover_def
  by (auto split: option.splits prod.splits sum.splits if_splits bool.splits)

lemma clear_stale_lockE:
  assumes "run_state (clear_stale_lock ah s cm schema) w = (Inr x, w')"
  obtains w1 where "run_state (Lock_Get (h_ci (ah_host ah)) (sr_Database schema) (sr_Type schema)) w = (Inr None, w1)" "w' = w1"
  | w1 w2 w3 existingLock rows r where
      "run_state (Lock_Get (h_ci (ah_host ah)) (sr_Database schema) (sr_Type schema)) w = (Inr (Some existingLock), w1)"
      "lock_Owner existingLock = lockOwner cm"
      "run_state (Apply_GetByPR (h_ci (ah_host ah)) (cm_repo cm) (cm_pr cm)) w1 = (Inr rows, w2)"
      "find (\<lambda>a. apply_Database a = sr_Database schema \<and> \<not> IsTerminalApplyState (apply_State a)) rows = None"
      "run_state (Release (h_ci (ah_host ah)) (sr_Database schema) (sr_Type schema) (lockOwner cm)) w2 = (r, w')"
proof -
  obtain r1 w1 where l: "run_state (Lock_Get (h_ci (ah_host ah)) (sr_Database schema) (sr_Type schema)) w = (r1, w1)" by fastforce
  show thesis
  proof (cases r1)
    case (Inr found)
    show thesis
    proof (cases found)
      case None
      show thesis using assms that(1) l unfolding clear_stale_lock_def Inr None by simp
    next
      case (Some existingLock)
      have "lock_Owner existingLock = lockOwner cm"
        using assms l unfolding clear_stale_lock_def Inr Some by (auto split: if_splits)
      then show thesis using assms l that(2)[of existingLock w1] unfolding clear_stale_lock_def Inr Some
        by (auto split: prod.splits sum.splits option.splits)
    qed
  qed (use assms l in \<open>simp add: clear_stale_lock_def\<close>)
qed

lemma handleApplyCommandE:
  assumes "run_state (handleApplyCommand ah client s cm) w = (Inr (applyID, f, s'), w')"
  obtains schema w1 w2 w3 fresh planResp s1 w4 storedPlan w5 where
    "run_state (discover ah s cm) w = (Inr schema, w1)"
    "run_state (apply_gates ah client s cm schema) w1 = (Inr (), w2)"
    "run_state (clear_stale_lock ah s cm schema) w2 = (Inr (), w3)"
    "check_fresh ah client 0 cm schema = Inr fresh"
    "run_state (plan_stage ah 0 s cm schema) w3 = (Inr (planResp, s1), w4)"
    "run_state (lock_plan ah client s1 cm schema (pi_HeadSHA fresh) planResp) w4 = (Inr storedPlan, w5)"
    "run_state (executeApply ah client s1 cm schema (Some storedPlan) (rsp_PlanID planResp)) w5 = (Inr (applyID, f, s'), w')"
proof -
  obtain schema w1 w2 w3 where d: "run_state (discover ah s cm) w = (Inr schema, w1)"
    and g: "run_state (apply_gates ah client s cm schema) w1 = (Inr (), w2)"
    and c: "run_state (clear_stale_lock ah s cm schema) w2 = (Inr (), w3)"
    and rest: "run_state (case check_fresh ah client 0 cm schema of
        Inl a \<Rightarrow> stop_with (a, s)
      | Inr prInfo \<Rightarrow>
          and_then (plan_stage ah 0 s cm schema) (\<lambda>(planResp, s').
            if FlatTables planResp = [] then stop_with (NoChanges, s')
            else if UnsafeChanges planResp \<noteq> [] \<and> \<not> cmd_AllowUnsafe (cm_result cm) then stop_with (UnsafeChangesBlocked, s')
            else
              and_then (lock_plan ah client s' cm schema (pi_HeadSHA prInfo) planResp) (\<lambda>storedPlan.
                executeApply ah client s' cm schema (Some storedPlan) (rsp_PlanID planResp)))) w3 = (Inr (applyID, f, s'), w')"
    using assms unfolding handleApplyCommand_def by (elim and_thenE) simp
  obtain fresh where fresh: "check_fresh ah client 0 cm schema = Inr fresh"
    using rest by (cases "check_fresh ah client 0 cm schema") auto
  obtain planResp s1 w4 where "run_state (plan_stage ah 0 s cm schema) w3 = (Inr (planResp, s1), w4)"
    and "run_state (and_then (lock_plan ah client s1 cm schema (pi_HeadSHA fresh) planResp) (\<lambda>storedPlan.
                executeApply ah client s1 cm schema (Some storedPlan) (rsp_PlanID planResp))) w4 = (Inr (applyID, f, s'), w')"
    using rest unfolding fresh by (auto elim!: and_thenE split: if_splits)
  then show thesis using that[OF d g c fresh] by (auto elim!: and_thenE)
qed


text \<open>
  Property C12 (safety).  An apply that the command queues passed every gate, in this order: the actor was authorized, stale checks
  were reconciled, the review gate and the gate on the other checks were open, the prior environments
  were verified, no other owner held the lock and no apply of this database was active under it; the
  pull request still showed the discovered snapshot, before the plan and again after the re-plan; the
  lock was taken and pinned to the plan, the checks were still passing at the fresh head, and the re-plan
  describes, as multisets, the changes of the stored plan, with no unsafe one unless the command allows
  them.  What is queued is the re-plan, under the condition that the lock still holds that intent.
\<close>

theorem apply_queued_only_through_gates:
  assumes "run_state (handleApplyCommand ah client s cm) w = (Inr (applyID, f, s'), w')"
  shows "\<exists>schema w1 w2 w3 w4 w5 w6 w7 w8 w9 w10 prInfo fresh fresh' planResp s1 storedPlan recorded replan s2 ident s3.
    run_state (discover ah s cm) w = (Inr schema, w1) \<and>
    enforcePRCommandActorAuthorization (Some (ah_config ah)) (Some (ac_review client)) (cm_requestedBy cm) (cm_repo cm) (sr_Database schema) = None \<and>
    run_state (ah_reconcileStaleChecks ah) w1 = (Inr (), w2) \<and>
    enforceReviewGate (ah_order ah) (Some (ah_config ah)) (ac_review client) (cm_repo cm) (cm_pr cm) (sr_Database schema) (sr_SchemaPath schema) = None \<and>
    ac_FetchPullRequest client = Inr prInfo \<and> passing_checks ah client 0 cm (pi_HeadSHA prInfo) = None \<and>
    run_state (checkPriorEnvironments (h_ci (ah_host ah)) (Some (ah_config ah)) (ac_gate client) (ah_maxAttempts ah) (ah_checkName ah)
        (cm_repo cm) (cm_pr cm) (sr_Database schema) (sr_Type schema) (cm_environment cm) (sr_Environments schema)) w2 = (Inr None, w3) \<and>
    run_state (clear_stale_lock ah s cm schema) w3 = (Inr (), w4) \<and>
    ac_FetchPullRequestNoCache client 0 = Inr fresh \<and> pi_HeadSHA fresh = sr_HeadSHA schema \<and>
    assertBaseSchemaStillCurrent (ah_config ah) (ac_SchemaPathsChangedSinceMergeBase client 0) (cm_repo cm) schema fresh = None \<and>
    run_state (plan_stage ah 0 s cm schema) w4 = (Inr (planResp, s1), w5) \<and>
    run_state (Acquire (h_ci (ah_host ah)) (apply_lock cm schema (rsp_PlanID planResp))) w5 = (Inr (), w6) \<and>
    passing_checks ah client 1 cm (sr_HeadSHA schema) = None \<and>
    run_state (Plan_Get (h_ci (ah_host ah)) (rsp_PlanID planResp)) w6 = (Inr (Some storedPlan), w7) \<and>
    run_state (ah_recordPlan ah planResp) w7 = (recorded, w8) \<and>
    run_state (plan_stage ah 1 s1 cm schema) w8 = (Inr (replan, s2), w9) \<and>
    ac_FetchPullRequestNoCache client 1 = Inr fresh' \<and> pi_HeadSHA fresh' = sr_HeadSHA schema \<and>
    assertBaseSchemaStillCurrent (ah_config ah) (ac_SchemaPathsChangedSinceMergeBase client 1) (cm_repo cm) schema fresh' = None \<and>
    FlatTables replan \<noteq> [] \<and> mset (response_identities replan) = mset (stored_identities storedPlan) \<and>
    (UnsafeChanges replan = [] \<or> cmd_AllowUnsafe (cm_result cm)) \<and>
    run_state (ExecuteApply (ah_host ah) (ah_config ah)
        (SetPendingObserver (ah_config ah) (sr_Database schema) '''' (cm_environment cm) (Some (ah_observer ah)) s2)
        (apply_request cm replan (rsp_PlanID planResp))) w9 = ((Inr (ident, applyID), s3), w10)"
proof -
  obtain schema w1 w3 w4 fresh planResp s1 w5 storedPlan w8 where
    d: "run_state (discover ah s cm) w = (Inr schema, w1)"
    and gates: "run_state (apply_gates ah client s cm schema) w1 = (Inr (), w3)"
    and stale: "run_state (clear_stale_lock ah s cm schema) w3 = (Inr (), w4)"
    and fresh: "check_fresh ah client 0 cm schema = Inr fresh"
    and plan: "run_state (plan_stage ah 0 s cm schema) w4 = (Inr (planResp, s1), w5)"
    and lock: "run_state (lock_plan ah client s1 cm schema (pi_HeadSHA fresh) planResp) w5 = (Inr storedPlan, w8)"
    and ex: "run_state (executeApply ah client s1 cm schema (Some storedPlan) (rsp_PlanID planResp)) w8 = (Inr (applyID, f, s'), w')"
    by (rule handleApplyCommandE[OF assms])
  note fresh' = check_fresh_Inr[OF fresh]
  obtain w2 prInfo where g: "enforcePRCommandActorAuthorization (Some (ah_config ah)) (Some (ac_review client)) (cm_requestedBy cm) (cm_repo cm) (sr_Database schema) = None"
    "run_state (ah_reconcileStaleChecks ah) w1 = (Inr (), w2)"
    "enforceReviewGate (ah_order ah) (Some (ah_config ah)) (ac_review client) (cm_repo cm) (cm_pr cm) (sr_Database schema) (sr_SchemaPath schema) = None"
    "ac_FetchPullRequest client = Inr prInfo" "passing_checks ah client 0 cm (pi_HeadSHA prInfo) = None"
    "run_state (checkPriorEnvironments (h_ci (ah_host ah)) (Some (ah_config ah)) (ac_gate client) (ah_maxAttempts ah) (ah_checkName ah)
        (cm_repo cm) (cm_pr cm) (sr_Database schema) (sr_Type schema) (cm_environment cm) (sr_Environments schema)) w2 = (Inr None, w3)"
    by (rule apply_gatesE[OF gates])
  obtain w6 w7 r where l: "run_state (Acquire (h_ci (ah_host ah)) (apply_lock cm schema (rsp_PlanID planResp))) w5 = (Inr (), w6)"
    "passing_checks ah client 1 cm (pi_HeadSHA fresh) = None"
    "run_state (Plan_Get (h_ci (ah_host ah)) (rsp_PlanID planResp)) w6 = (Inr (Some storedPlan), w7)"
    "run_state (ah_recordPlan ah planResp) w7 = (r, w8)"
    by (rule lock_planE[OF lock])
  obtain replan s2 w9 fresh2 ident s3 w10 where e: "run_state (plan_stage ah 1 s1 cm schema) w8 = (Inr (replan, s2), w9)"
    "check_fresh ah client 1 cm schema = Inr fresh2" "FlatTables replan \<noteq> []"
    "Some storedPlan = None \<or> (\<exists>plan. Some storedPlan = Some plan \<and> ddlMatchesStoredPlan replan plan)"
    "UnsafeChanges replan = [] \<or> cmd_AllowUnsafe (cm_result cm)"
    "run_state (ExecuteApply (ah_host ah) (ah_config ah)
        (SetPendingObserver (ah_config ah) (sr_Database schema) '''' (cm_environment cm) (Some (ah_observer ah)) s2)
        (apply_request cm replan (rsp_PlanID planResp))) w9 = ((Inr (ident, applyID), s3), w10)"
    by (rule executeApplyE[OF ex])
  have match: "mset (response_identities replan) = mset (stored_identities storedPlan)"
    using e(4) by (simp add: ddlMatchesStoredPlan_iff)
  have head: "passing_checks ah client 1 cm (sr_HeadSHA schema) = None" using l(2) fresh' by simp
  show ?thesis
    by (rule exI[of _ schema], rule exI[of _ w1], rule exI[of _ w2], rule exI[of _ w3], rule exI[of _ w4], rule exI[of _ w5],
        rule exI[of _ w6], rule exI[of _ w7], rule exI[of _ w8], rule exI[of _ w9], rule exI[of _ w10], rule exI[of _ prInfo],
        rule exI[of _ fresh], rule exI[of _ fresh2], rule exI[of _ planResp], rule exI[of _ s1], rule exI[of _ storedPlan],
        rule exI[of _ r], rule exI[of _ replan], rule exI[of _ s2], rule exI[of _ ident], rule exI[of _ s3])
      (intro conjI d g stale plan l(1,3,4) head match e(1,3,5,6) conjunct1[OF fresh'] conjunct1[OF conjunct2[OF fresh']]
        conjunct2[OF conjunct2[OF fresh']] check_fresh_Inr[OF e(2), THEN conjunct1]
        check_fresh_Inr[OF e(2), THEN conjunct2, THEN conjunct1] check_fresh_Inr[OF e(2), THEN conjunct2, THEN conjunct2])
qed

definition drop_plan :: "string \<Rightarrow> string \<Rightarrow> PlanRPC" where
  "drop_plan planID ddl = example_rpc\<lparr>rpc_Plan := (\<lambda>_ _. State_Monad.return (Inr (example_proto\<lparr>ppr_PlanId := planID,
     ppr_Changes := [Some \<lparr>psc_Namespace = '''', psc_TableChanges = [example_proto_change\<lparr>ptc_Ddl := ddl\<rparr>], psc_Metadata = [],
       psc_OriginalFiles = [], psc_OriginalFilesCaptured = True\<rparr>], ppr_Shards := []\<rparr>)))\<rparr>"

definition example_apply_host :: "(nat \<Rightarrow> nat \<Rightarrow> PlanRPC) \<Rightarrow> ApplyHost" where
  "example_apply_host rpc = \<lparr>ah_host = example_host, ah_config = example_config, ah_bootstrap = None,
     ah_handleNoManagedSchemaChanges = State_Monad.return (Inr False),
     ah_schema = Inr \<lparr>sr_Database = ''orders'', sr_Type = ''mysql'', sr_HeadSHA = ''abc'', sr_SchemaPath = ''schema/orders'',
       sr_SchemaLinkPath = '''', sr_SchemaFiles = pr_SchemaFiles example_plan_request, sr_Environments = []\<rparr>,
     ah_unowned = (\<lambda>_. False), ah_reconcileStaleChecks = State_Monad.return (Inr ()), ah_recordPlan = (\<lambda>_. State_Monad.return (Inr ())),
     ah_factory = None, ah_observer = 7, ah_progress = (\<lambda>_. State_Monad.return (Inr ())),
     ah_refreshTerminal = (\<lambda>_. State_Monad.return (Inr ())), ah_updateAggregateCheck = (\<lambda>_. State_Monad.return (Inr ())),
     ah_order = rev, ah_maxAttempts = 0, ah_checkName = ''SchemaBot'', ah_rpc = rpc, ah_cancelled = (\<lambda>_ _. False)\<rparr>"

definition example_pull_request :: PullRequestInfo where
  "example_pull_request = \<lparr>pi_HeadSHA = ''abc'', pi_BaseRef = ''main''\<rparr>"

definition example_apply_client :: ApplyClient where
  "example_apply_client = \<lparr>ac_FetchPullRequest = Inr example_pull_request, ac_FetchPullRequestNoCache = (\<lambda>_. Inr example_pull_request),
     ac_CheckStatuses = (\<lambda>_ _ _ _. Inr []), ac_SchemaPathsChangedSinceMergeBase = (\<lambda>_ _ _ _ _. Inr (False, ''base'')),
     ac_review = example_review_client, ac_gate = landing_client\<rparr>"

definition example_apply_command :: ApplyCommand where
  "example_apply_command = \<lparr>cm_repo = ''org/app'', cm_pr = 7, cm_environment = ''production'', cm_installationID = 1, cm_requestedBy = ''dave'',
     cm_result = no_command\<lparr>cmd_AllowUnsafe := True\<rparr>\<rparr>"

definition two_plans :: "nat \<Rightarrow> nat \<Rightarrow> PlanRPC" where
  "two_plans n attempt = drop_plan (''plan_'' @ digits (n + 9)) ''DROP TABLE users''"

theorem apply_queued_only_through_gates_witness:
  "let ah = example_apply_host two_plans; client = example_apply_client; cm = example_apply_command in
   (\<exists>s' w'. run_state (handleApplyCommand ah client example_service cm) (quiet planned_db) = (Inr (1, Tracked, s'), w')) \<and>
   (\<exists>schema w1 w6 w7 w8 w9 planResp s1 storedPlan replan s2.
    run_state (discover ah example_service cm) (quiet planned_db) = (Inr schema, w1) \<and>
    enforcePRCommandActorAuthorization (Some (ah_config ah)) (Some (ac_review client)) (cm_requestedBy cm) (cm_repo cm) (sr_Database schema) = None \<and>
    run_state (Plan_Get (h_ci (ah_host ah)) (rsp_PlanID (planResp :: PlanResponse))) w6 = (Inr (Some storedPlan), w7) \<and>
    run_state (plan_stage ah 1 s1 cm schema) w8 = (Inr (replan, s2), w9) \<and>
    FlatTables replan \<noteq> [] \<and> mset (response_identities replan) = mset (stored_identities storedPlan))"
proof -
  let ?run = "run_state (handleApplyCommand (example_apply_host two_plans) example_apply_client example_service example_apply_command) (quiet planned_db)"
  have "(case fst ?run of Inl _ \<Rightarrow> None | Inr (applyID, f, s') \<Rightarrow> Some (applyID, f)) = Some (1, Tracked)" by code_simp
  then obtain s' w' where run: "?run = (Inr (1, Tracked, s'), w')" by (cases "?run") (auto split: sum.splits)
  from apply_queued_only_through_gates[OF run] show ?thesis unfolding Let_def
    by (elim exE conjE, intro conjI exI) (rule run, assumption+)
qed


section \<open>What a confirmed apply went through\<close>

lemma confirm_lockE:
  assumes "run_state (confirm_lock ah client s cm schema prInfo) w = (Inr existingLock, w')"
  shows "run_state (Lock_Get (h_ci (ah_host ah)) (sr_Database schema) (sr_Type schema)) w = (Inr (Some existingLock), w') \<and>
    lock_Owner existingLock = lockOwner cm \<and> \<not> HasPrefix (lock_PendingPlanID existingLock) rollbackPendingPlanPrefix \<and>
    pi_HeadSHA prInfo = sr_HeadSHA schema \<and>
    assertBaseSchemaStillCurrent (ah_config ah) (ac_SchemaPathsChangedSinceMergeBase client 0) (cm_repo cm) schema prInfo = None"
proof -
  obtain r w1 where get: "run_state (Lock_Get (h_ci (ah_host ah)) (sr_Database schema) (sr_Type schema)) w = (r, w1)" by fastforce
  obtain lock where r: "r = Inr (Some lock)"
  proof (cases r)
    case (Inr found)
    then show thesis using assms get that by (cases found) (auto simp: confirm_lock_def Let_def split: if_splits)
  qed (use assms get in \<open>simp add: confirm_lock_def Let_def\<close>)
  show ?thesis using assms unfolding confirm_lock_def Let_def by (simp add: get r)
      (auto simp: get r assertSchemaStillCurrent_def split: if_splits option.splits prod.splits)
qed

lemma confirm_planE:
  assumes "run_state (confirm_plan ah s cm schema prInfo existingLock) w = (Inr x, w')"
  obtains storedPlan where
    "run_state (confirmationPlanForLock (h_ci (ah_host ah)) existingLock) w = (Inr storedPlan, w')"
    "assertPlanStillCurrent storedPlan (pi_HeadSHA prInfo) = None"
  using assms unfolding confirm_plan_def by (auto split: prod.splits sum.splits option.splits)

lemma handleApplyConfirmCommandE:
  assumes "run_state (handleApplyConfirmCommand ah client s cm) w = (Inr (applyID, f, s'), w')"
  obtains schema w1 prInfo existingLock w2 w3 where
    "run_state (discover ah s cm) w = (Inr schema, w1)"
    "enforcePRCommandActorAuthorization (Some (ah_config ah)) (Some (ac_review client)) (cm_requestedBy cm) (cm_repo cm) (sr_Database schema) = None"
    "enforceReviewGate (ah_order ah) (Some (ah_config ah)) (ac_review client) (cm_repo cm) (cm_pr cm) (sr_Database schema) (sr_SchemaPath schema) = None"
    "ac_FetchPullRequestNoCache client 0 = Inr prInfo" "passing_checks ah client 0 cm (pi_HeadSHA prInfo) = None"
    "run_state (confirm_lock ah client s cm schema prInfo) w1 = (Inr existingLock, w2)"
    "run_state (confirm_plan ah s cm schema prInfo existingLock) w2 = (Inr (), w3)"
    "run_state (executeApply ah client s cm schema None (lock_PendingPlanID existingLock)) w3 = (Inr (applyID, f, s'), w')"
proof -
  obtain schema w1 where d: "run_state (discover ah s cm) w = (Inr schema, w1)"
    and a: "enforcePRCommandActorAuthorization (Some (ah_config ah)) (Some (ac_review client)) (cm_requestedBy cm) (cm_repo cm) (sr_Database schema) = None"
    and v: "enforceReviewGate (ah_order ah) (Some (ah_config ah)) (ac_review client) (cm_repo cm) (cm_pr cm) (sr_Database schema) (sr_SchemaPath schema) = None"
    and rest: "run_state (case ac_FetchPullRequestNoCache client 0 of
        Inl e \<Rightarrow> stop_with (CommandError (''Failed to fetch PR info: '' @ Error_text e), s)
      | Inr prInfo \<Rightarrow>
          and_then (gate (\<lambda>c. (ChecksBlocked c, s)) (passing_checks ah client 0 cm (pi_HeadSHA prInfo))) (\<lambda>_.
          and_then (confirm_lock ah client s cm schema prInfo) (\<lambda>existingLock.
          and_then (confirm_plan ah s cm schema prInfo existingLock) (\<lambda>_.
            executeApply ah client s cm schema None (lock_PendingPlanID existingLock))))) w1 = (Inr (applyID, f, s'), w')"
    using assms unfolding handleApplyConfirmCommand_def actor_stage_def review_stage_def
    by (elim and_thenE) (drule gate_passed, drule gate_passed, simp)
  obtain prInfo where p: "ac_FetchPullRequestNoCache client 0 = Inr prInfo"
    using rest by (cases "ac_FetchPullRequestNoCache client 0") auto
  show thesis using rest that[OF d a v p] unfolding p by (auto elim!: and_thenE dest!: gate_passed)
qed

text \<open>
  Property C13 (safety).  A confirmation queues an apply only for the lock of this pull request: the actor was authorized, the
  review gate and the gate on the other checks were open at a head that is the discovered snapshot's,
  the schema of the base branch had not moved on, the lock of the database is owned by this pull
  request and not pending a rollback, and the plan it is pinned to is of that head, unless no plan is
  stored for it or the stored one records no commit.  After the re-plan the head and the base branch
  passed the same checks again, and the re-plan has no unsafe change unless the command allows them.
  What is queued is the re-plan, under the condition that the lock still holds the intent that was
  found.
\<close>

theorem confirm_queues_for_own_lock:
  assumes "run_state (handleApplyConfirmCommand ah client s cm) w = (Inr (applyID, f, s'), w')"
  shows "\<exists>schema w1 w2 w3 w4 w5 fresh fresh' existingLock storedPlan replan s2 ident s3.
    run_state (discover ah s cm) w = (Inr schema, w1) \<and>
    enforcePRCommandActorAuthorization (Some (ah_config ah)) (Some (ac_review client)) (cm_requestedBy cm) (cm_repo cm) (sr_Database schema) = None \<and>
    enforceReviewGate (ah_order ah) (Some (ah_config ah)) (ac_review client) (cm_repo cm) (cm_pr cm) (sr_Database schema) (sr_SchemaPath schema) = None \<and>
    ac_FetchPullRequestNoCache client 0 = Inr fresh \<and> pi_HeadSHA fresh = sr_HeadSHA schema \<and>
    assertBaseSchemaStillCurrent (ah_config ah) (ac_SchemaPathsChangedSinceMergeBase client 0) (cm_repo cm) schema fresh = None \<and>
    passing_checks ah client 0 cm (sr_HeadSHA schema) = None \<and>
    run_state (Lock_Get (h_ci (ah_host ah)) (sr_Database schema) (sr_Type schema)) w1 = (Inr (Some existingLock), w2) \<and>
    lock_Owner existingLock = lockOwner cm \<and> \<not> HasPrefix (lock_PendingPlanID existingLock) rollbackPendingPlanPrefix \<and>
    run_state (confirmationPlanForLock (h_ci (ah_host ah)) existingLock) w2 = (Inr storedPlan, w3) \<and>
    (\<forall>p. storedPlan = Some p \<longrightarrow> plan_HeadSHA p = '''' \<or> plan_HeadSHA p = sr_HeadSHA schema) \<and>
    run_state (plan_stage ah 1 s cm schema) w3 = (Inr (replan, s2), w4) \<and>
    ac_FetchPullRequestNoCache client 1 = Inr fresh' \<and> pi_HeadSHA fresh' = sr_HeadSHA schema \<and>
    assertBaseSchemaStillCurrent (ah_config ah) (ac_SchemaPathsChangedSinceMergeBase client 1) (cm_repo cm) schema fresh' = None \<and>
    FlatTables replan \<noteq> [] \<and> (UnsafeChanges replan = [] \<or> cmd_AllowUnsafe (cm_result cm)) \<and>
    run_state (ExecuteApply (ah_host ah) (ah_config ah)
        (SetPendingObserver (ah_config ah) (sr_Database schema) '''' (cm_environment cm) (Some (ah_observer ah)) s2)
        (apply_request cm replan (lock_PendingPlanID existingLock))) w4 = ((Inr (ident, applyID), s3), w5)"
proof -
  obtain schema w1 prInfo existingLock w2 w3 where
    d: "run_state (discover ah s cm) w = (Inr schema, w1)"
      "enforcePRCommandActorAuthorization (Some (ah_config ah)) (Some (ac_review client)) (cm_requestedBy cm) (cm_repo cm) (sr_Database schema) = None"
      "enforceReviewGate (ah_order ah) (Some (ah_config ah)) (ac_review client) (cm_repo cm) (cm_pr cm) (sr_Database schema) (sr_SchemaPath schema) = None"
      "ac_FetchPullRequestNoCache client 0 = Inr prInfo"
    and checks: "passing_checks ah client 0 cm (pi_HeadSHA prInfo) = None"
    and lock: "run_state (confirm_lock ah client s cm schema prInfo) w1 = (Inr existingLock, w2)"
    and plan: "run_state (confirm_plan ah s cm schema prInfo existingLock) w2 = (Inr (), w3)"
    and ex: "run_state (executeApply ah client s cm schema None (lock_PendingPlanID existingLock)) w3 = (Inr (applyID, f, s'), w')"
    by (rule handleApplyConfirmCommandE[OF assms])
  from confirm_lockE[OF lock] have l: "run_state (Lock_Get (h_ci (ah_host ah)) (sr_Database schema) (sr_Type schema)) w1 = (Inr (Some existingLock), w2)"
    "lock_Owner existingLock = lockOwner cm" "\<not> HasPrefix (lock_PendingPlanID existingLock) rollbackPendingPlanPrefix"
    "pi_HeadSHA prInfo = sr_HeadSHA schema"
    "assertBaseSchemaStillCurrent (ah_config ah) (ac_SchemaPathsChangedSinceMergeBase client 0) (cm_repo cm) schema prInfo = None" by simp_all
  obtain storedPlan where p: "run_state (confirmationPlanForLock (h_ci (ah_host ah)) existingLock) w2 = (Inr storedPlan, w3)"
    and current: "assertPlanStillCurrent storedPlan (pi_HeadSHA prInfo) = None"
    by (rule confirm_planE[OF plan])
  obtain replan s2 w4 fresh2 ident s3 w5 where e: "run_state (plan_stage ah 1 s cm schema) w3 = (Inr (replan, s2), w4)"
    "check_fresh ah client 1 cm schema = Inr fresh2" "FlatTables replan \<noteq> []"
    "(None :: Plan option) = None \<or> (\<exists>plan. None = Some plan \<and> ddlMatchesStoredPlan replan plan)"
    "UnsafeChanges replan = [] \<or> cmd_AllowUnsafe (cm_result cm)"
    "run_state (ExecuteApply (ah_host ah) (ah_config ah)
        (SetPendingObserver (ah_config ah) (sr_Database schema) '''' (cm_environment cm) (Some (ah_observer ah)) s2)
        (apply_request cm replan (lock_PendingPlanID existingLock))) w4 = ((Inr (ident, applyID), s3), w5)"
    by (rule executeApplyE[OF ex])
  have head: "\<forall>p. storedPlan = Some p \<longrightarrow> plan_HeadSHA p = '''' \<or> plan_HeadSHA p = sr_HeadSHA schema"
    using current l(4) by (auto simp: assertPlanStillCurrent_def split: option.splits if_splits)
  have fresh2: "ac_FetchPullRequestNoCache client 1 = Inr fresh2" "pi_HeadSHA fresh2 = sr_HeadSHA schema"
    "assertBaseSchemaStillCurrent (ah_config ah) (ac_SchemaPathsChangedSinceMergeBase client 1) (cm_repo cm) schema fresh2 = None"
    using check_fresh_Inr[OF e(2)] by simp_all
  have checks': "passing_checks ah client 0 cm (sr_HeadSHA schema) = None" using checks l(4) by simp
  show ?thesis
    by (rule exI[of _ schema], rule exI[of _ w1], rule exI[of _ w2], rule exI[of _ w3], rule exI[of _ w4], rule exI[of _ w5],
        rule exI[of _ prInfo], rule exI[of _ fresh2], rule exI[of _ existingLock], rule exI[of _ storedPlan], rule exI[of _ replan],
        rule exI[of _ s2], rule exI[of _ ident], rule exI[of _ s3]) (intro conjI d l checks' p head fresh2 e(1,3,5,6))
qed


text \<open>
  A confirmation for a lock that is pinned to \<open>sharded_plan\<close>, with a stored check that carries a
  deployment drift block.
\<close>

definition example_schema :: SchemaRequestResult where
  "example_schema = \<lparr>sr_Database = ''orders'', sr_Type = ''mysql'', sr_HeadSHA = ''abc'', sr_SchemaPath = '''', sr_SchemaLinkPath = '''',
     sr_SchemaFiles = [], sr_Environments = []\<rparr>"

definition confirmed_db :: db where
  "confirmed_db = planned_db\<lparr>
     locks := [(apply_lock example_apply_command example_schema ''plan_4'')\<lparr>lock_ID := 1\<rparr>], locks_next := 2,
     checks := [(started_check example_apply_command example_schema 0 ''abc'')\<lparr>chk_ID := 1, chk_Status := ''completed'',
       chk_Conclusion := ''failure'', chk_BlockingReason := ReviewTimeDeploymentDriftBlockingReason\<rparr>], checks_next := 2\<rparr>"

definition confirm_run :: "(answer \<times> Service + int \<times> followup \<times> Service) \<times> world" where
  "confirm_run = run_state (handleApplyConfirmCommand (example_apply_host two_plans) example_apply_client example_service example_apply_command)
     (quiet confirmed_db)"

text \<open>
  Further fact.  Neither the changes of the plan that was reviewed nor the drift block stops it: what is
  queued, and left pending, is the DDL of the re-plan, and the check is refused only afterwards.
\<close>

lemma confirm_queues_unreviewed_ddl:
  "map tc_DDL (FlatDDLChanges sharded_plan) = [''ALTER TABLE users ADD COLUMN x INT''] \<and>
   (case confirm_run of (r, w) \<Rightarrow>
     (case r of
        Inl _ \<Rightarrow> False
      | Inr (applyID, f, s') \<Rightarrow>
          applyID = 1 \<and> f = CheckRefused (Errorf ''apply start refused: review-time deployment drift block present'')) \<and>
     map (\<lambda>a. (apply_ID a, apply_State a)) (applies (w_db w)) = [(1, ''pending'')] \<and>
     map task_DDL (tasks (w_db w)) = [''DROP TABLE users'', ''DROP TABLE users''])"
  by code_simp

theorem confirm_queues_for_own_lock_witness:
  "let ah = example_apply_host two_plans; cm = example_apply_command in
   (\<exists>f s' w'. confirm_run = (Inr (1, f, s'), w')) \<and>
   (\<exists>schema w1 w2 existingLock.
     run_state (discover ah example_service cm) (quiet confirmed_db) = (Inr schema, w1) \<and>
     run_state (Lock_Get (h_ci (ah_host ah)) (sr_Database schema) (sr_Type schema)) w1 = (Inr (Some existingLock), w2) \<and>
     lock_Owner existingLock = lockOwner cm)"
proof -
  obtain f s' w' where run: "confirm_run = (Inr (1, f, s'), w')"
    using confirm_queues_unreviewed_ddl by (cases confirm_run) (auto split: sum.splits)
  from confirm_queues_for_own_lock[OF run[unfolded confirm_run_def]] run show ?thesis
    unfolding Let_def by (elim exE conjE, intro conjI exI) assumption+
qed

end
