(* ===== verification/Unlock_Command.thy ===== *)
theory Unlock_Command
  imports Review_Gate Webhook_Commands Apply_Store Lock_Store
begin

text \<open>
  The unlock command (\<^verbatim>\<open>pkg/webhook/apply_handlers.go\<close>, \<^verbatim>\<open>actor_authorization.go\<close>): the locks it selects, the
  authorization for every one of them, the refusal while an apply is active, and the release.
\<close>

section \<open>The command\<close>

datatype unlock_answer =
    UnlockFailed string
  | NoLocksFound
  | UnlockNotAuthorized AuthComment
  | CannotUnlock Lock Apply
  | Unlocked "Lock list"

fun force_matches :: "string \<Rightarrow> string \<Rightarrow> int \<Rightarrow> Lock list \<Rightarrow> err + Lock list" where
  "force_matches database repo pr [] = Inr []"
| "force_matches database repo pr (lock # rest) =
    (if lock_DatabaseName lock \<noteq> database then force_matches database repo pr rest
     else if lock_PullRequest lock \<noteq> 0 \<and> (lock_Repository lock \<noteq> repo \<or> lock_PullRequest lock \<noteq> pr)
     then Inl (Errorf ''lock is held by another pull request'')
     else (case force_matches database repo pr rest of Inl e \<Rightarrow> Inl e | Inr matching \<Rightarrow> Inr (lock # matching)))"

definition locksForUnlock :: "(string \<Rightarrow> string) \<Rightarrow> string \<Rightarrow> int \<Rightarrow> bool \<Rightarrow> string \<Rightarrow> Lock list prog" where
  "locksForUnlock ci repo pr force database =
    (if force then
       (if database = '''' then State_Monad.return (Inl (Errorf ''--force requires a database target''))
        else
          do {
            r \<leftarrow> Lock_List;
            State_Monad.return (case r of Inl e \<Rightarrow> Inl e | Inr rows \<Rightarrow> force_matches database repo pr rows)
          })
     else
       do {
         r \<leftarrow> Lock_GetByPR ci repo pr;
         State_Monad.return (case r of Inl e \<Rightarrow> Inl e
           | Inr rows \<Rightarrow> Inr (if database = '''' then rows else filter (\<lambda>lock. lock_DatabaseName lock = database) rows))
       })"

text \<open>The client for team lookups, needed only with authorization on; without one the command is blocked.\<close>

definition actorAuthorizationClient ::
  "ServerConfig \<Rightarrow> bool \<Rightarrow> err + ReviewClient \<Rightarrow> string \<Rightarrow> string \<Rightarrow> AuthComment + ReviewClient option" where
  "actorAuthorizationClient config hasClients client requestedBy database =
    (if \<not> PRCommandAuthorizationEnabled (Some config) \<or> \<not> hasClients then Inr None
     else (case client of
             Inl e \<Rightarrow> Inl (RenderPRCommandAuthorizationUnavailable requestedBy database)
           | Inr c \<Rightarrow> Inr (Some c)))"

fun unlock_authorized :: "ServerConfig \<Rightarrow> ReviewClient option \<Rightarrow> string \<Rightarrow> string \<Rightarrow> Lock list \<Rightarrow> AuthComment option" where
  "unlock_authorized config client requestedBy repo [] = None"
| "unlock_authorized config client requestedBy repo (lock # rest) =
    (case enforcePRCommandActorAuthorization (Some config) client requestedBy repo (lock_DatabaseName lock) of
       Some c \<Rightarrow> Some c
     | None \<Rightarrow> unlock_authorized config client requestedBy repo rest)"

fun unlock_active :: "(string \<Rightarrow> string) \<Rightarrow> Lock list \<Rightarrow> (world, unlock_answer option) state" where
  "unlock_active ci [] = State_Monad.return None"
| "unlock_active ci (lock # rest) =
    do {
      r \<leftarrow> Apply_GetByDatabase ci (lock_DatabaseName lock) (lock_DatabaseType lock) '''';
      case r of
        Inl e \<Rightarrow> State_Monad.return (Some (UnlockFailed ''Failed to verify active applies. No locks were released.''))
      | Inr rows \<Rightarrow>
          (case find (\<lambda>a. apply_Database a = lock_DatabaseName lock \<and> \<not> IsTerminalApplyState (apply_State a)) rows of
             Some a \<Rightarrow> State_Monad.return (Some (CannotUnlock lock a))
           | None \<Rightarrow> unlock_active ci rest)
    }"

fun release_all :: "(string \<Rightarrow> string) \<Rightarrow> bool \<Rightarrow> Lock list \<Rightarrow> (world, Lock list) state" where
  "release_all ci force [] = State_Monad.return []"
| "release_all ci force (lock # rest) =
    do {
      r \<leftarrow> (if force then ForceRelease ci (lock_DatabaseName lock) (lock_DatabaseType lock)
            else Release ci (lock_DatabaseName lock) (lock_DatabaseType lock) (lock_Owner lock));
      released \<leftarrow> release_all ci force rest;
      State_Monad.return (case r of Inl e \<Rightarrow> released | Inr _ \<Rightarrow> lock # released)
    }"

text \<open>The neutral check run it publishes for each released lock of a pull request is left out.\<close>

definition handleUnlockCommand ::
  "(string \<Rightarrow> string) \<Rightarrow> ServerConfig \<Rightarrow> bool \<Rightarrow> err + ReviewClient \<Rightarrow> (err + string) \<Rightarrow> string \<Rightarrow> int \<Rightarrow> string \<Rightarrow> CommandResult \<Rightarrow>
   (world, unlock_answer) state" where
  "handleUnlockCommand ci config hasClients client inferred repo pr requestedBy result =
    (case (if cmd_Force result \<and> cmd_Database result = '''' then inferred else Inr (cmd_Database result)) of
       Inl e \<Rightarrow> State_Monad.return (UnlockFailed ''Failed to infer database for force unlock'')
     | Inr database \<Rightarrow>
         do {
           r \<leftarrow> locksForUnlock ci repo pr (cmd_Force result) database;
           case r of
             Inl e \<Rightarrow> State_Monad.return (UnlockFailed ''Failed to look up locks'')
           | Inr [] \<Rightarrow> State_Monad.return NoLocksFound
           | Inr (lock # rest) \<Rightarrow>
               (case actorAuthorizationClient config hasClients client requestedBy (lock_DatabaseName lock) of
                  Inl c \<Rightarrow> State_Monad.return (UnlockNotAuthorized c)
                | Inr authClient \<Rightarrow>
                    (case unlock_authorized config authClient requestedBy repo (lock # rest) of
                       Some c \<Rightarrow> State_Monad.return (UnlockNotAuthorized c)
                     | None \<Rightarrow>
                         do {
                           blocked \<leftarrow> unlock_active ci (lock # rest);
                           case blocked of
                             Some a \<Rightarrow> State_Monad.return a
                           | None \<Rightarrow> do { released \<leftarrow> release_all ci (cmd_Force result) (lock # rest); State_Monad.return (Unlocked released) }
                         }))
         })"


section \<open>What an unlock releases\<close>

lemma force_matches_Inr:
  "force_matches database repo pr rows = Inr ls \<Longrightarrow>
    set ls \<subseteq> {l \<in> set rows. lock_DatabaseName l = database \<and>
      (lock_PullRequest l = 0 \<or> lock_Repository l = repo \<and> lock_PullRequest l = pr)}"
  by (induction rows arbitrary: ls) (auto split: if_splits sum.splits)

text \<open>The locks that the command may take: this pull request's, or with \<open>--force\<close> also one of no pull request.\<close>

definition unlockable :: "(string \<Rightarrow> string) \<Rightarrow> string \<Rightarrow> int \<Rightarrow> bool \<Rightarrow> string \<Rightarrow> Lock \<Rightarrow> bool" where
  "unlockable ci repo pr force database l \<longleftrightarrow>
    (if force then lock_DatabaseName l = database \<and> (lock_PullRequest l = 0 \<or> lock_Repository l = repo \<and> lock_PullRequest l = pr)
     else ci (lock_Repository l) = ci repo \<and> lock_PullRequest l = pr \<and> (database = '''' \<or> lock_DatabaseName l = database))"

lemma locksForUnlock_quiet:
  assumes "run_state (locksForUnlock ci repo pr force database) (quiet d) = (Inr ls, w')"
  shows "w' = quiet d \<and> set ls \<subseteq> {l \<in> set (locks d). unlockable ci repo pr force database l}"
proof (cases force)
  case True
  then have "force_matches database repo pr (sort_key (\<lambda>l. - lock_CreatedAt l) (locks d)) = Inr ls" "w' = quiet d"
    using assms by (auto simp: locksForUnlock_def Lock_List_def split: if_splits)
  with force_matches_Inr[OF this(1)] show ?thesis by (auto simp: unlockable_def True)
next
  case False
  then show ?thesis using assms
    by (auto simp: locksForUnlock_def Lock_GetByPR_def unlockable_def split: if_splits)
qed

text \<open>No apply of exactly the lock's database name, and of its type, is active.\<close>

definition idle :: "(string \<Rightarrow> string) \<Rightarrow> db \<Rightarrow> Lock \<Rightarrow> bool" where
  "idle ci d l \<longleftrightarrow> list_all (\<lambda>a. apply_Database a = lock_DatabaseName l \<longrightarrow>
    (lock_DatabaseType l = '''' \<or> ci (apply_DatabaseType a) = ci (lock_DatabaseType l)) \<longrightarrow> IsTerminalApplyState (apply_State a)) (applies d)"

lemma unlock_active_quiet:
  "run_state (unlock_active ci ls) (quiet d) = (None, w') \<Longrightarrow> w' = quiet d \<and> list_all (idle ci d) ls"
proof (induction ls)
  case (Cons l ls)
  let ?rows = "newest_applies (filter (\<lambda>a. ci (apply_Database a) = ci (lock_DatabaseName l) \<and>
    (lock_DatabaseType l \<noteq> '''' \<longrightarrow> ci (apply_DatabaseType a) = ci (lock_DatabaseType l))) (applies d))"
  have "find (\<lambda>a. apply_Database a = lock_DatabaseName l \<and> \<not> IsTerminalApplyState (apply_State a)) ?rows = None"
    and rest: "run_state (unlock_active ci ls) (quiet d) = (None, w')"
    using Cons.prems by (auto simp: Apply_GetByDatabase_def split: option.splits)
  then have "idle ci d l" by (auto simp: find_None_iff idle_def list_all_iff newest_applies_def)
  with Cons.IH[OF rest] show ?case by simp
qed simp

lemma unlock_active_state: "snd (run_state (unlock_active ci ls) (quiet d)) = quiet d"
  by (induction ls) (auto simp: Apply_GetByDatabase_def split: option.split)

lemma unlock_authorized_None:
  "unlock_authorized config client requestedBy repo ls = None \<Longrightarrow>
    list_all (\<lambda>l. enforcePRCommandActorAuthorization (Some config) client requestedBy repo (lock_DatabaseName l) = None) ls"
  by (induction ls) (auto split: option.splits)

definition release_one :: "(string \<Rightarrow> string) \<Rightarrow> bool \<Rightarrow> Lock \<Rightarrow> unit prog" where
  "release_one ci force k = (if force then ForceRelease ci (lock_DatabaseName k) (lock_DatabaseType k)
    else Release ci (lock_DatabaseName k) (lock_DatabaseType k) (lock_Owner k))"

lemma release_one_quiet:
  "\<exists>r P. run_state (release_one ci force k) (quiet d) = (r, quiet (d\<lparr>locks := filter (\<lambda>l. \<not> P l) (locks d)\<rparr>)) \<and>
    (\<forall>l. P l \<longrightarrow> lock_key ci l = lock_key ci k)"
proof (cases force)
  case True
  then show ?thesis
    by (intro exI[of _ "fst (run_state (release_one ci force k) (quiet d))"]
        exI[of _ "lock_row ci (lock_DatabaseName k) (lock_DatabaseType k)"])
      (simp add: release_one_def ForceRelease_def delete_locks_def lock_row_key)
next
  case False
  have "snd (run_state (Release ci (lock_DatabaseName k) (lock_DatabaseType k) (lock_Owner k)) (quiet d)) =
      quiet (d\<lparr>locks := filter (\<lambda>l. \<not> (lock_row ci (lock_DatabaseName k) (lock_DatabaseType k) l \<and> ci (lock_Owner l) = ci (lock_Owner k)))
        (locks d)\<rparr>)"
    by (simp add: Release_def Lock_Get_def delete_locks_def split: option.split)
  then show ?thesis using False
    by (intro exI[of _ "fst (run_state (release_one ci force k) (quiet d))"]
        exI[of _ "\<lambda>l. lock_row ci (lock_DatabaseName k) (lock_DatabaseType k) l \<and> ci (lock_Owner l) = ci (lock_Owner k)"])
      (simp add: release_one_def lock_row_key prod_eq_iff)
qed

lemma run_release_all_Cons:
  "run_state (release_all ci force (k # ls)) w =
    (let (r, w1) = run_state (release_one ci force k) w; (released, w2) = run_state (release_all ci force ls) w1
     in (case r of Inl e \<Rightarrow> released | Inr _ \<Rightarrow> k # released, w2))"
  by (simp add: release_one_def split: prod.split)

lemma release_all_quiet:
  "\<exists>released P. run_state (release_all ci force ls) (quiet d) = (released, quiet (d\<lparr>locks := filter (\<lambda>l. \<not> P l) (locks d)\<rparr>)) \<and>
    (\<forall>l. P l \<longrightarrow> (\<exists>k\<in>set ls. lock_key ci l = lock_key ci k)) \<and> set released \<subseteq> set ls"
proof (induction ls arbitrary: d)
  case Nil
  show ?case by (rule exI[of _ "[]"], rule exI[of _ "\<lambda>_. False"]) simp
next
  case (Cons k ls)
  obtain r P where one: "run_state (release_one ci force k) (quiet d) = (r, quiet (d\<lparr>locks := filter (\<lambda>l. \<not> P l) (locks d)\<rparr>))"
    and P: "\<forall>l. P l \<longrightarrow> lock_key ci l = lock_key ci k"
    using release_one_quiet by blast
  obtain released Q where rest: "run_state (release_all ci force ls) (quiet (d\<lparr>locks := filter (\<lambda>l. \<not> P l) (locks d)\<rparr>)) =
      (released, quiet (d\<lparr>locks := filter (\<lambda>l. \<not> P l \<and> \<not> Q l) (locks d)\<rparr>))"
    and Q: "\<forall>l. Q l \<longrightarrow> (\<exists>k\<in>set ls. lock_key ci l = lock_key ci k)" "set released \<subseteq> set ls"
    using Cons.IH[of "d\<lparr>locks := filter (\<lambda>l. \<not> P l) (locks d)\<rparr>"] by (auto simp: conj_commute)
  have "run_state (release_all ci force (k # ls)) (quiet d) =
      (case r of Inl e \<Rightarrow> released | Inr _ \<Rightarrow> k # released, quiet (d\<lparr>locks := filter (\<lambda>l. \<not> (P l \<or> Q l)) (locks d)\<rparr>))"
    by (simp only: run_release_all_Cons one rest Let_def case_prod_conv de_Morgan_disj)
  moreover have "\<forall>l. P l \<or> Q l \<longrightarrow> (\<exists>k'\<in>set (k # ls). lock_key ci l = lock_key ci k')"
    using P Q(1) by auto
  moreover have "set (case r of Inl e \<Rightarrow> released | Inr _ \<Rightarrow> k # released) \<subseteq> set (k # ls)" using Q(2) by (auto split: sum.split)
  ultimately show ?case
    by (intro exI[of _ "case r of Inl e \<Rightarrow> released | Inr _ \<Rightarrow> k # released"] exI[of _ "\<lambda>l. P l \<or> Q l"]) (intro conjI)
qed

lemma same_lock:
  assumes "locks_unique ci d" "l \<in> set (locks d)" "k \<in> set (locks d)" "lock_key ci l = lock_key ci k"
  shows "l = k"
  using assms unfolding locks_unique_def by (meson distinct_map inj_onD)

text \<open>A run of the command stops before anything is released, or releases.\<close>

lemma handleUnlockCommand_quiet:
  assumes "run_state (handleUnlockCommand ci config hasClients client inferred repo pr requestedBy result) (quiet d) = (ans, w')"
  obtains "w' = quiet d"
  | database ks authClient where
    "(if cmd_Force result \<and> cmd_Database result = '''' then inferred else Inr (cmd_Database result)) = Inr database"
    "set ks \<subseteq> {l \<in> set (locks d). unlockable ci repo pr (cmd_Force result) database l}"
    "actorAuthorizationClient config hasClients client requestedBy (lock_DatabaseName (hd ks)) = Inr authClient"
    "list_all (\<lambda>l. enforcePRCommandActorAuthorization (Some config) authClient requestedBy repo (lock_DatabaseName l) = None) ks"
    "list_all (idle ci d) ks"
    "w' = snd (run_state (release_all ci (cmd_Force result) ks) (quiet d))"
proof (cases "if cmd_Force result \<and> cmd_Database result = '''' then inferred else Inr (cmd_Database result)")
  case (Inl e)
  then show thesis using assms that(1) by (simp add: handleUnlockCommand_def)
next
  case (Inr database)
  obtain r w1 where l: "run_state (locksForUnlock ci repo pr (cmd_Force result) database) (quiet d) = (r, w1)" by fastforce
  have w1: "w1 = quiet d" using l
    by (auto simp: locksForUnlock_def Lock_List_def Lock_GetByPR_def split: if_splits)
  show thesis
  proof (cases "\<exists>k ks. r = Inr (k # ks)")
    case False
    then show thesis using assms that(1) Inr l w1
      by (cases r) (auto simp: handleUnlockCommand_def split: list.splits)
  next
    case True
    then obtain k ks where r: "r = Inr (k # ks)" by blast
    note sub = locksForUnlock_quiet[OF l[unfolded r], THEN conjunct2]
    have run: "run_state (case actorAuthorizationClient config hasClients client requestedBy (lock_DatabaseName k) of
                  Inl c \<Rightarrow> State_Monad.return (UnlockNotAuthorized c)
                | Inr authClient \<Rightarrow>
                    (case unlock_authorized config authClient requestedBy repo (k # ks) of
                       Some c \<Rightarrow> State_Monad.return (UnlockNotAuthorized c)
                     | None \<Rightarrow>
                         do {
                           blocked \<leftarrow> unlock_active ci (k # ks);
                           case blocked of
                             Some a \<Rightarrow> State_Monad.return a
                           | None \<Rightarrow> do { released \<leftarrow> release_all ci (cmd_Force result) (k # ks); State_Monad.return (Unlocked released) }
                         })) (quiet d) = (ans, w')"
      using assms unfolding handleUnlockCommand_def Inr by (simp only: run_state_bind sum.case l r w1 case_prod_conv list.case)
    show thesis
    proof (cases "actorAuthorizationClient config hasClients client requestedBy (lock_DatabaseName k)")
      case (Inl c)
      then show thesis using run that(1) by simp
    next
      case auth: (Inr authClient)
      show thesis
      proof (cases "unlock_authorized config authClient requestedBy repo (k # ks)")
        case None
        obtain blocked w2 where act: "run_state (unlock_active ci (k # ks)) (quiet d) = (blocked, w2)" by fastforce
        show thesis
        proof (cases blocked)
          case (Some a)
          then show thesis using run that(1) auth None act unlock_active_state[of ci "k # ks" d] by (simp del: unlock_active.simps)
        next
          case idle: None
          from unlock_active_quiet[OF act[unfolded idle]] have w2: "w2 = quiet d" and "list_all (idle ci d) (k # ks)" by simp_all
          moreover have "w' = snd (run_state (release_all ci (cmd_Force result) (k # ks)) (quiet d))"
            using run by (simp add: auth None act idle w2 split: prod.splits del: unlock_authorized.simps unlock_active.simps release_all.simps)
          ultimately show thesis
            using that(2)[OF Inr sub _ unlock_authorized_None[OF None]] auth by simp
        qed
      qed (use run that(1) auth in \<open>simp del: unlock_authorized.simps\<close>)
    qed
  qed
qed


text \<open>
  Property C34 (safety).  With no other session at work, unlock changes nothing but lock rows, and every lock row that is gone
  afterwards is one the command may take, of a database for which the actor is authorized, and idle: no
  apply of its database and type is active.
\<close>

theorem unlock_releases_only_idle_locks:
  assumes "run_state (handleUnlockCommand ci config hasClients client inferred repo pr requestedBy result) (quiet d) = (ans, w')"
    and "locks_unique ci d"
  shows "\<exists>ls. w' = quiet (d\<lparr>locks := ls\<rparr>) \<and> set ls \<subseteq> set (locks d) \<and>
    (\<forall>l\<in>set (locks d) - set ls. idle ci d l \<and>
      (\<exists>database. (if cmd_Force result \<and> cmd_Database result = '''' then inferred else Inr (cmd_Database result)) = Inr database \<and>
        unlockable ci repo pr (cmd_Force result) database l) \<and>
      (\<exists>name authClient. actorAuthorizationClient config hasClients client requestedBy name = Inr authClient \<and>
        enforcePRCommandActorAuthorization (Some config) authClient requestedBy repo (lock_DatabaseName l) = None))"
  using assms(1)
proof (cases rule: handleUnlockCommand_quiet)
  case 1
  then show ?thesis by (intro exI[of _ "locks d"]) simp
next
  case (2 database ks authClient)
  obtain released P where rel: "run_state (release_all ci (cmd_Force result) ks) (quiet d) =
      (released, quiet (d\<lparr>locks := filter (\<lambda>l. \<not> P l) (locks d)\<rparr>))"
    and P: "\<forall>l. P l \<longrightarrow> (\<exists>k\<in>set ks. lock_key ci l = lock_key ci k)"
    using release_all_quiet by blast
  have w': "w' = quiet (d\<lparr>locks := filter (\<lambda>l. \<not> P l) (locks d)\<rparr>)" using 2(6) by (simp add: rel)
  have taken: "l \<in> set ks" if l: "l \<in> set (locks d)" and gone: "P l" for l
  proof -
    obtain k where k: "k \<in> set ks" "lock_key ci l = lock_key ci k" using P gone by blast
    with 2(2) have "k \<in> set (locks d)" by blast
    with same_lock[OF assms(2) l _ k(2)] k(1) show ?thesis by simp
  qed
  have "idle ci d l" "unlockable ci repo pr (cmd_Force result) database l"
    "enforcePRCommandActorAuthorization (Some config) authClient requestedBy repo (lock_DatabaseName l) = None"
    if "l \<in> set ks" for l
    using that 2(2,4,5) by (auto simp: list_all_iff)
  note ok = this
  show ?thesis
  proof (intro exI conjI ballI)
    show "w' = quiet (d\<lparr>locks := filter (\<lambda>l. \<not> P l) (locks d)\<rparr>)" by (rule w')
    show "set (filter (\<lambda>l. \<not> P l) (locks d)) \<subseteq> set (locks d)" by (rule filter_is_subset)
    fix l assume "l \<in> set (locks d) - set (filter (\<lambda>l. \<not> P l) (locks d))"
    then have l: "l \<in> set ks" using taken by simp
    show "idle ci d l" "unlockable ci repo pr (cmd_Force result) database l"
      "enforcePRCommandActorAuthorization (Some config) authClient requestedBy repo (lock_DatabaseName l) = None"
      by (rule ok[OF l])+
  qed (rule 2(1,3))+
qed

definition held_lock :: "int \<Rightarrow> string \<Rightarrow> string \<Rightarrow> int \<Rightarrow> Lock" where
  "held_lock i database repo pr = \<lparr>lock_ID = i, lock_DatabaseName = database, lock_DatabaseType = ''mysql'', lock_Repository = repo,
     lock_PullRequest = pr, lock_Owner = ''owner'', lock_PendingPlanID = '''', lock_CreatedAt = 0, lock_UpdatedAt = 0\<rparr>"

definition unlock_db :: db where
  "unlock_db = empty_db\<lparr>locks := [held_lock 1 ''orders'' ''org/app'' 7, held_lock 2 ''users'' ''org/app'' 8]\<rparr>"

definition unlock_run :: "unlock_answer \<times> world" where
  "unlock_run = run_state (handleUnlockCommand ToLower example_config True (Inr example_review_client) (Inr ''orders'') ''org/app'' 7 ''dave'' no_command)
     (quiet unlock_db)"

theorem unlock_releases_only_idle_locks_witness:
  "\<exists>ls. snd unlock_run = quiet (unlock_db\<lparr>locks := ls\<rparr>) \<and> ls = [held_lock 2 ''users'' ''org/app'' 8] \<and>
    idle ToLower unlock_db (held_lock 1 ''orders'' ''org/app'' 7) \<and>
    (\<exists>authClient. enforcePRCommandActorAuthorization (Some example_config) authClient ''dave'' ''org/app'' ''orders'' = None)"
proof -
  have gone: "locks (w_db (snd unlock_run)) = [held_lock 2 ''users'' ''org/app'' 8]" by code_simp
  have unique: "locks_unique ToLower unlock_db" by code_simp
  obtain ans w' where run: "unlock_run = (ans, w')" by fastforce
  from unlock_releases_only_idle_locks[OF run[unfolded unlock_run_def] unique] obtain ls where
    ls: "w' = quiet (unlock_db\<lparr>locks := ls\<rparr>)"
    and gone': "\<forall>l\<in>set (locks unlock_db) - set ls. idle ToLower unlock_db l \<and>
      (\<exists>authClient. enforcePRCommandActorAuthorization (Some example_config) authClient ''dave'' ''org/app'' (lock_DatabaseName l) = None)"
    by blast
  have eq: "ls = [held_lock 2 ''users'' ''org/app'' 8]" using gone unfolding run ls by simp
  have "held_lock 1 ''orders'' ''org/app'' 7 \<in> set (locks unlock_db) - set ls"
    unfolding eq by (simp add: unlock_db_def held_lock_def)
  note free = bspec[OF gone' this]
  have name: "lock_DatabaseName (held_lock 1 ''orders'' ''org/app'' 7) = ''orders''" by (simp add: held_lock_def)
  have "idle ToLower unlock_db (held_lock 1 ''orders'' ''org/app'' 7)"
    "\<exists>authClient. enforcePRCommandActorAuthorization (Some example_config) authClient ''dave'' ''org/app'' ''orders'' = None"
    using free unfolding name by blast+
  then show ?thesis unfolding run snd_conv ls eq by (intro exI[of _ "[held_lock 2 ''users'' ''org/app'' 8]"]) simp
qed

end
