(* ===== verification/Control_Handlers.thy ===== *)
theory Control_Handlers
  imports Stages Plan_Execution Task_Progress Operator
begin

text \<open>
  The control operations of the API (\<^verbatim>\<open>pkg/api/control_handlers.go\<close>): cutover, stop, cancel, start, release,
  volume, revert and skip-revert, and which apply may be rolled back.  An operation records a durable
  control request for the driver that owns the apply; some also try the engine at once.

  An answer carries the HTTP status that the handler returns with it and whether the operator is woken.
  Error texts are kept without some of their arguments; metrics and server logs are left out, entries
  of the apply log are not.  Contexts of these handlers carry no lease.
\<close>

section \<open>Errors\<close>

text \<open>An error with a status, or any other one.\<close>

datatype control_err = controlOperationHTTPError nat string | Internal err

type_synonym 'a ctl = "(world, control_err + 'a) state"

definition controlHTTPErrorf :: "nat \<Rightarrow> string \<Rightarrow> control_err" where
  "controlHTTPErrorf status text = controlOperationHTTPError status text"

definition controlConflictf :: "string \<Rightarrow> control_err" where
  "controlConflictf text = controlOperationHTTPError 409 text"

definition controlOperationHTTPStatus :: "control_err \<Rightarrow> nat" where
  "controlOperationHTTPStatus e = (case e of controlOperationHTTPError status _ \<Rightarrow> status | Internal _ \<Rightarrow> 500)"

definition IsInternalControlError :: "control_err \<Rightarrow> bool" where
  "IsInternalControlError e \<longleftrightarrow> 500 \<le> controlOperationHTTPStatus e"

definition control_err_text :: "control_err \<Rightarrow> string" where
  "control_err_text e = (case e of controlOperationHTTPError _ text \<Rightarrow> text | Internal i \<Rightarrow> Error_text i)"

text \<open>A store call whose error is wrapped and returned.\<close>

definition or_internal :: "string \<Rightarrow> 'a prog \<Rightarrow> ('a \<Rightarrow> 'b ctl) \<Rightarrow> 'b ctl" where
  "or_internal msg p f = do { r \<leftarrow> p; case r of Inl e \<Rightarrow> stop_with (Internal (Wrapped msg e)) | Inr x \<Rightarrow> f x }"

section \<open>Parties\<close>

text \<open>
  The engine client of a deployment: its answers may come with effects on the store, as the local
  client's do.  \<open>Progress\<close> answers the state and the status of each table; \<open>Stop\<close> and \<open>Cancel\<close> answer whether
  the request was accepted and an error text, or nothing.
\<close>

record ControlClient =
  cc_IsRemote :: bool
  cc_Progress :: "string \<Rightarrow> string \<Rightarrow> (ternv1_State \<times> string list) prog"
  cc_Stop :: "string \<Rightarrow> string \<Rightarrow> (bool \<times> string) option prog"
  cc_Cancel :: "string \<Rightarrow> string \<Rightarrow> (bool \<times> string) option prog"
  cc_Revert :: "string \<Rightarrow> string \<Rightarrow> (bool \<times> string) prog"
  cc_SkipRevert :: "string \<Rightarrow> string \<Rightarrow> (bool \<times> string) prog"
  cc_Volume :: "string \<Rightarrow> string \<Rightarrow> int \<Rightarrow> (bool \<times> string \<times> int \<times> int) prog"

text \<open>\<open>ct_hasOptions\<close> says of a loaded apply whether its options column is set.\<close>

record ControlHost =
  ct_host :: Host
  ct_config :: ServerConfig
  ct_client :: "clientRef \<Rightarrow> ControlClient"
  ct_engine :: engine_strings
  ct_hasOptions :: "Apply \<Rightarrow> bool"

text \<open>The counts are of stopped, cancelled or started tasks, and zero in other answers.\<close>

record ControlAnswer =
  ca_Accepted :: bool
  ca_ErrorMessage :: string
  ca_Count :: int
  ca_SkippedCount :: int
  ca_Status :: string
  ca_HTTP :: nat
  ca_Wake :: bool

abbreviation ControlStatusAlreadyInProgress :: string where "ControlStatusAlreadyInProgress \<equiv> ''already_in_progress''"
abbreviation ControlStatusAlreadyRequested :: string where "ControlStatusAlreadyRequested \<equiv> ''already_requested''"
abbreviation startResponseStatusQueued :: string where "startResponseStatusQueued \<equiv> ''queued''"
abbreviation EnginePlanetScale :: string where "EnginePlanetScale \<equiv> ''planetscale''"
abbreviation MinVolume :: int where "MinVolume \<equiv> 1"
abbreviation MaxVolume :: int where "MaxVolume \<equiv> 11"

abbreviation accepted :: "string \<Rightarrow> nat \<Rightarrow> bool \<Rightarrow> ControlAnswer" where
  "accepted status http wake \<equiv> \<lparr>ca_Accepted = True, ca_ErrorMessage = '''', ca_Count = 0, ca_SkippedCount = 0, ca_Status = status,
     ca_HTTP = http, ca_Wake = wake\<rparr>"

definition controlOperationCaller :: "string \<Rightarrow> string" where
  "controlOperationCaller caller = (if caller = '''' then ''unknown'' else caller)"

text \<open>An entry of the apply log; an error is only logged.\<close>

definition control_log :: "Apply \<Rightarrow> string \<Rightarrow> string \<Rightarrow> string \<Rightarrow> ApplyLog" where
  "control_log a caller eventType message =
    \<lparr>log_ID = 0, log_ApplyID = apply_ID a, log_TaskID = None, log_Level = LogLevelInfo, log_EventType = eventType,
     log_Source = LogSourceSchemaBot, log_Message = message @ '' (caller: '' @ controlOperationCaller caller @ '')'', log_OldState = '''',
     log_NewState = '''', log_Metadata = '''', log_CreatedAt = 0\<rparr>"

definition logControlOperationForApply :: "Apply \<Rightarrow> string \<Rightarrow> string \<Rightarrow> string \<Rightarrow> (world, unit) state" where
  "logControlOperationForApply a caller eventType message =
    do { _ \<leftarrow> Append Background (control_log a caller eventType message); State_Monad.return () }"

abbreviation LogEventStopRequested :: string where "LogEventStopRequested \<equiv> ''stop_requested''"
abbreviation LogEventCancelRequested :: string where "LogEventCancelRequested \<equiv> ''cancel_requested''"
abbreviation LogEventStartRequested :: string where "LogEventStartRequested \<equiv> ''start_requested''"
abbreviation LogEventReleaseRequested :: string where "LogEventReleaseRequested \<equiv> ''release_requested''"
abbreviation LogEventVolumeRequested :: string where "LogEventVolumeRequested \<equiv> ''volume_requested''"
abbreviation LogEventCutoverTriggered :: string where "LogEventCutoverTriggered \<equiv> ''cutover_triggered''"
abbreviation LogEventSkipRevertTriggered :: string where "LogEventSkipRevertTriggered \<equiv> ''skip_revert_triggered''"
abbreviation LogEventRevertTriggered :: string where "LogEventRevertTriggered \<equiv> ''revert_triggered''"

section \<open>Metadata of a request\<close>

text \<open>\<^verbatim>\<open>json.Marshal\<close> of two counters, each omitted when zero.\<close>

definition marshal_counts :: "string \<Rightarrow> int \<Rightarrow> string \<Rightarrow> int \<Rightarrow> string" where
  "marshal_counts k1 n1 k2 n2 =
    ''{'' @ json_fields ((if n1 \<noteq> 0 then [(k1, Itoa n1)] else []) @ (if n2 \<noteq> 0 then [(k2, Itoa n2)] else [])) @ ''}''"

fun split_at :: "char \<Rightarrow> string \<Rightarrow> string list" where
  "split_at sep [] = [[]]"
| "split_at sep (x # xs) = (if x = sep then [] # split_at sep xs else (case split_at sep xs of [] \<Rightarrow> [[x]] | y # ys \<Rightarrow> (x # y) # ys))"

text \<open>
  \<^verbatim>\<open>json.Unmarshal\<close> of an object whose members are integers, with spaces anywhere, as a JSON column prints
  it; the keys that are written have none.
\<close>

definition unmarshal_member :: "string \<Rightarrow> err + string \<times> int" where
  "unmarshal_member m =
    (case split_at (CHR '':'') m of
       [k, v] \<Rightarrow>
         if 2 \<le> length k \<and> hd k = CHR 0x22 \<and> last k = CHR 0x22
         then (case ParseInt 64 v of Inl e \<Rightarrow> Inl e | Inr n \<Rightarrow> Inr (butlast (tl k), n))
         else Inl (Errorf ''invalid character'')
     | _ \<Rightarrow> Inl (Errorf ''invalid character''))"

fun unmarshal_members :: "string list \<Rightarrow> err + (string \<times> int) list" where
  "unmarshal_members [] = Inr []"
| "unmarshal_members (m # ms) =
    (case unmarshal_member m of
       Inl e \<Rightarrow> Inl e
     | Inr kv \<Rightarrow> (case unmarshal_members ms of Inl e \<Rightarrow> Inl e | Inr kvs \<Rightarrow> Inr (kv # kvs)))"

definition unmarshal_counts :: "string \<Rightarrow> err + (string \<times> int) list" where
  "unmarshal_counts text =
    (let t = filter (\<lambda>ch. ch \<noteq> CHR '' '') text in
     if t = ''{}'' \<or> t = ''null'' then Inr []
     else if 2 \<le> length t \<and> hd t = CHR ''{'' \<and> last t = CHR ''}'' then unmarshal_members (split_at (CHR '','') (butlast (tl t)))
     else Inl (Errorf ''invalid character''))"

definition count_of :: "(string \<times> int) list \<Rightarrow> string \<Rightarrow> int" where
  "count_of kvs k = (case map_of kvs k of None \<Rightarrow> 0 | Some n \<Rightarrow> n)"

definition decodeControlRequestMetadata :: "string \<Rightarrow> string \<Rightarrow> ApplyControlRequest \<Rightarrow> control_err + int \<times> int" where
  "decodeControlRequestMetadata k1 k2 req =
    (if cr_Metadata req = '''' then Inr (0, 0)
     else (case unmarshal_counts (cr_Metadata req) of
             Inl e \<Rightarrow> Inl (Internal (Wrapped ''decode control request metadata'' e))
           | Inr kvs \<Rightarrow> Inr (count_of kvs k1, count_of kvs k2)))"

section \<open>Creating and answering requests\<close>

definition new_request :: "Apply \<Rightarrow> string \<Rightarrow> string \<Rightarrow> string \<Rightarrow> ApplyControlRequest" where
  "new_request a op caller metadata =
    \<lparr>cr_ID = 0, cr_ApplyID = apply_ID a, cr_Operation = op, cr_Status = ControlRequestPending, cr_RequestedBy = caller,
     cr_ErrorMessage = '''', cr_Metadata = metadata, cr_CompletedAt = None, cr_CreatedAt = 0, cr_UpdatedAt = 0\<rparr>"

definition createControlRequest :: "Apply \<Rightarrow> string \<Rightarrow> string \<Rightarrow> string \<Rightarrow> (ApplyControlRequest option \<times> bool) ctl" where
  "createControlRequest a op caller metadata =
    or_internal ''record control request'' (RequestPending (new_request a op caller metadata)) proceed"

text \<open>Whether a status accepts, and the error text otherwise.\<close>

definition applyControlRequestStatus :: "ApplyControlRequest \<Rightarrow> bool \<times> string" where
  "applyControlRequestStatus req =
    (if cr_Status req = ControlRequestPending \<or> cr_Status req = ControlRequestCompleted then (True, '''')
     else if cr_Status req = ControlRequestFailed then (False, cr_ErrorMessage req)
     else (False, cr_Operation req @ '' control request has unknown status: '' @ cr_Status req))"

text \<open>
  \<^verbatim>\<open>stopResponseFromControlRequest\<close>, \<^verbatim>\<open>cancelResponseFromControlRequest\<close> and \<^verbatim>\<open>startResponseFromControlRequest\<close>, which
  differ in the names of the counters.
\<close>

definition response_from_request :: "string \<Rightarrow> string \<Rightarrow> ApplyControlRequest option \<Rightarrow> control_err + bool \<times> string \<times> int \<times> int" where
  "response_from_request k1 k2 controlReq =
    (case controlReq of
       None \<Rightarrow> Inr (False, '''', 0, 0)
     | Some req \<Rightarrow>
         (case decodeControlRequestMetadata k1 k2 req of
            Inl e \<Rightarrow> Inl e
          | Inr (n, skipped) \<Rightarrow> (case applyControlRequestStatus req of (ok, msg) \<Rightarrow> Inr (ok, msg, n, skipped))))"

definition pendingControlResponseIfPresent ::
  "Apply \<Rightarrow> string \<Rightarrow> string \<Rightarrow> string \<Rightarrow> ((bool \<times> string \<times> int \<times> int) option) ctl" where
  "pendingControlResponseIfPresent a op k1 k2 =
    or_internal ''load pending control request'' (GetPending (apply_ID a) op) (\<lambda>controlReq.
      case controlReq of
        None \<Rightarrow> proceed None
      | Some req \<Rightarrow> (case response_from_request k1 k2 (Some req) of Inl e \<Rightarrow> stop_with e | Inr resp \<Rightarrow> proceed (Some resp)))"

text \<open>A request with counters, and the answer with its status: \<open>fresh\<close> for a new one.\<close>

definition request_counts ::
  "Apply \<Rightarrow> string \<Rightarrow> string \<Rightarrow> string \<Rightarrow> string \<Rightarrow> string \<Rightarrow> int \<Rightarrow> int \<Rightarrow> ((bool \<times> string \<times> int \<times> int) \<times> string) ctl" where
  "request_counts a op caller k1 k2 fresh n skipped =
    and_then (createControlRequest a op caller (marshal_counts k1 n k2 skipped)) (\<lambda>(controlReq, alreadyPending).
      if alreadyPending then
        (case response_from_request k1 k2 controlReq of
           Inl e \<Rightarrow> stop_with e
         | Inr resp \<Rightarrow> proceed (resp, ControlStatusAlreadyRequested))
      else proceed ((True, '''', n, skipped), fresh))"

definition stopRequestCounts :: "Task list \<Rightarrow> int \<times> int" where
  "stopRequestCounts ts =
    (int (length (filter (\<lambda>t. \<not> IsTerminalTaskState (task_State t)) ts)), int (length (filter (\<lambda>t. IsTerminalTaskState (task_State t)) ts)))"

definition rejectControlIfStopPending :: "string \<Rightarrow> Apply \<Rightarrow> unit ctl" where
  "rejectControlIfStopPending opName a =
    (let reject = (\<lambda>op event req. do {
           _ \<leftarrow> logControlOperationForApply a (cr_RequestedBy req) event (''Pending '' @ op @ '' request blocked '' @ opName);
           stop_with (controlConflictf (''schema change has a pending '' @ op @ '' request'')) }) in
     or_internal ''load pending stop control request'' (GetPending (apply_ID a) ControlOperationStop) (\<lambda>r1.
       case r1 of
         Some req \<Rightarrow> reject ControlOperationStop LogEventStopRequested req
       | None \<Rightarrow>
           or_internal ''load pending cancel control request'' (GetPending (apply_ID a) ControlOperationCancel) (\<lambda>r2.
             case r2 of
               Some req \<Rightarrow> reject ControlOperationCancel LogEventCancelRequested req
             | None \<Rightarrow> proceed ())))"

definition applyHasMultipleOperations :: "Apply \<Rightarrow> bool prog" where
  "applyHasMultipleOperations a = or_fail ''list apply operations'' (ListByApply (apply_ID a)) (\<lambda>ops. State_Monad.return (Inr (1 < length ops)))"


section \<open>Cutover\<close>

datatype cutoverRequestReadiness =
    cutoverRequestNotReady | cutoverRequestReady | cutoverRequestAlreadyInProgress | cutoverRequestRecovering

definition task_readiness :: "Task list \<Rightarrow> cutoverRequestReadiness" where
  "task_readiness ts =
    (if list_ex (\<lambda>t. IsState (task_State t) [Task_CuttingOver]) ts then cutoverRequestAlreadyInProgress
     else if list_ex (\<lambda>t. IsState (task_State t) [Task_WaitingForCutover]) ts then cutoverRequestReady
     else cutoverRequestNotReady)"

text \<open>The function \<open>cutoverRequestReadiness\<close> of the source; a client may be missing.\<close>

definition cutover_readiness :: "ControlHost \<Rightarrow> ControlClient option \<Rightarrow> Apply \<Rightarrow> string \<Rightarrow> bool \<Rightarrow> cutoverRequestReadiness prog" where
  "cutover_readiness ch client a ternApplyID multiOp =
    (if IsState (apply_State a) [Apply_WaitingForCutover] then State_Monad.return (Inr cutoverRequestReady)
     else if IsState (apply_State a) [Apply_CuttingOver] then State_Monad.return (Inr cutoverRequestAlreadyInProgress)
     else if IsState (apply_State a) [Apply_Recovering] then State_Monad.return (Inr cutoverRequestRecovering)
     else
       (case (if \<not> multiOp \<and> ternApplyID \<noteq> '''' then (case client of Some c \<Rightarrow> if cc_IsRemote c then Some c else None | None \<Rightarrow> None) else None) of
          Some c \<Rightarrow>
            or_fail ''check remote apply before cutover'' (cc_Progress c ternApplyID (apply_Environment a)) (\<lambda>(st, tables).
              let remoteState = ProtoStateToStorage st in
              State_Monad.return (Inr
                (if IsState remoteState [Apply_WaitingForCutover] then cutoverRequestReady
                 else if IsState remoteState [Apply_Recovering] then cutoverRequestRecovering
                 else if IsState remoteState [Apply_CuttingOver] then cutoverRequestReady
                 else cutoverRequestNotReady)))
        | None \<Rightarrow>
            if \<not> IsRunningApplyState (apply_State a) then State_Monad.return (Inr cutoverRequestNotReady)
            else or_fail ''load tasks before cutover'' (GetByApplyID (h_ci (ct_host ch)) (apply_ID a)) (\<lambda>ts.
              State_Monad.return (Inr (task_readiness ts)))))"

definition executeCutoverForApply :: "ControlHost \<Rightarrow> ControlClient option \<Rightarrow> Apply \<Rightarrow> string \<Rightarrow> string \<Rightarrow> ControlAnswer ctl" where
  "executeCutoverForApply ch client a ternApplyID caller0 =
    (let caller = resolveCaller (h_subject (ct_host ch)) caller0 in
     or_internal ''load pending cutover control request'' (GetPending (apply_ID a) ControlOperationCutover) (\<lambda>controlReq.
       case controlReq of
         Some req \<Rightarrow>
           do {
             _ \<leftarrow> logControlOperationForApply a caller LogEventCutoverTriggered ''Cutover requested by user while cutover request already pending'';
             proceed (accepted '''' 202 True)
           }
       | None \<Rightarrow>
           or_internal ''check operation count before cutover'' (applyHasMultipleOperations a) (\<lambda>multiOp.
           or_internal ''check cutover readiness'' (cutover_readiness ch client a ternApplyID multiOp) (\<lambda>readiness.
             case readiness of
               cutoverRequestAlreadyInProgress \<Rightarrow>
                 do {
                   _ \<leftarrow> logControlOperationForApply a caller LogEventCutoverTriggered ''Cutover requested by user while cutover already in progress'';
                   proceed (accepted ControlStatusAlreadyInProgress 202 False)
                 }
             | cutoverRequestRecovering \<Rightarrow> stop_with (controlConflictf ''schema change is recovering after restart'')
             | cutoverRequestNotReady \<Rightarrow> stop_with (controlConflictf ''schema change is not waiting for cutover'')
             | cutoverRequestReady \<Rightarrow>
                 or_internal ''record cutover control request'' (RequestPending (new_request a ControlOperationCutover caller '''')) (\<lambda>(req, alreadyPending).
                   do {
                     _ \<leftarrow> logControlOperationForApply a caller LogEventCutoverTriggered (if alreadyPending
                       then ''Cutover requested by user while cutover request already pending'' else ''Cutover requested by user'');
                     proceed (accepted '''' (if alreadyPending then 202 else 200) True)
                   })))))"

section \<open>Stop\<close>

abbreviation stopped_count :: string where "stopped_count \<equiv> ''stopped_count''"
abbreviation cancelled_count :: string where "cancelled_count \<equiv> ''cancelled_count''"
abbreviation started_count :: string where "started_count \<equiv> ''started_count''"
abbreviation skipped_count :: string where "skipped_count \<equiv> ''skipped_count''"

definition queueStopForApplyOwner :: "ControlHost \<Rightarrow> Apply \<Rightarrow> string \<Rightarrow> ((bool \<times> string \<times> int \<times> int) \<times> string) ctl" where
  "queueStopForApplyOwner ch a caller =
    and_then (pendingControlResponseIfPresent a ControlOperationStop stopped_count skipped_count) (\<lambda>found.
      case found of
        Some resp \<Rightarrow> proceed (resp, ControlStatusAlreadyRequested)
      | None \<Rightarrow>
          if IsTerminalApplyState (apply_State a) then stop_with (controlConflictf ''schema change is already terminal'')
          else or_internal ''get tasks for apply'' (GetByApplyID (h_ci (ct_host ch)) (apply_ID a)) (\<lambda>ts.
            case stopRequestCounts ts of (n, skipped) \<Rightarrow>
              if n = 0 \<and> skipped = 0 then stop_with (controlConflictf ''no active schema change for apply'')
              else request_counts a ControlOperationStop caller stopped_count skipped_count '''' n skipped))"

definition stopRequestCompletedByApplyState :: "string \<Rightarrow> bool" where
  "stopRequestCompletedByApplyState applyState \<longleftrightarrow> IsState applyState [Apply_Stopped, Apply_Cancelled] \<or> IsTerminalApplyState applyState"

definition completeImmediateStopRequestIfStopped :: "Apply \<Rightarrow> bool prog" where
  "completeImmediateStopRequestIfStopped a =
    or_fail ''load apply after immediate stop'' (Apply_Get (apply_ID a)) (\<lambda>stored.
      case stored of
        None \<Rightarrow> State_Monad.return (Inl (Wrapped ''load apply after immediate stop'' ErrApplyNotFound))
      | Some s \<Rightarrow>
          if \<not> stopRequestCompletedByApplyState (apply_State s) then State_Monad.return (Inr False)
          else or_fail ''complete pending stop control request after immediate stop'' (CompletePending Background (apply_ID a) ControlOperationStop)
            (\<lambda>_. State_Monad.return (Inr True)))"

text \<open>The apply is stopped at once unless it has several operations; a failed count is taken as one.\<close>

definition tryImmediateStopAfterQueue :: "ControlClient option \<Rightarrow> Apply \<Rightarrow> string \<Rightarrow> string \<Rightarrow> string \<Rightarrow> (world, unit) state" where
  "tryImmediateStopAfterQueue client a ternApplyID environment caller =
    (let log = (\<lambda>message. logControlOperationForApply a caller LogEventStopRequested message) in
     do {
       m \<leftarrow> applyHasMultipleOperations a;
       if m = Inr True then log ''Stop queued; operator will stop each deployment of this multi-deployment apply''
       else
         (case client of
            None \<Rightarrow> State_Monad.return ()
          | Some c \<Rightarrow>
              do {
                _ \<leftarrow> (if cc_IsRemote c then log ''Stop request propagation to remote Tern durable queue started'' else State_Monad.return ());
                r \<leftarrow> cc_Stop c ternApplyID environment;
                case r of
                  Inl e \<Rightarrow> log ''Immediate stop attempt failed; durable stop request remains pending''
                | Inr None \<Rightarrow> log ''Immediate stop attempt returned no response; durable stop request remains pending''
                | Inr (Some (False, msg)) \<Rightarrow> log ''Immediate stop attempt was not accepted; durable stop request remains pending''
                | Inr (Some (True, msg)) \<Rightarrow>
                    do {
                      k \<leftarrow> completeImmediateStopRequestIfStopped a;
                      log (case k of
                             Inl e \<Rightarrow> ''Immediate stop accepted but durable stop request completion failed; durable stop request remains pending''
                           | Inr False \<Rightarrow> ''Immediate stop accepted; durable apply owner will reconcile final stop state''
                           | Inr True \<Rightarrow> ''Immediate stop accepted and durable stop request completed'')
                    }
              })
     })"

definition answer_counts :: "(bool \<times> string \<times> int \<times> int) \<Rightarrow> string \<Rightarrow> ControlAnswer" where
  "answer_counts resp status = (case resp of (ok, msg, n, skipped) \<Rightarrow>
     \<lparr>ca_Accepted = ok, ca_ErrorMessage = msg, ca_Count = n, ca_SkippedCount = skipped, ca_Status = status,
      ca_HTTP = (if status = ControlStatusAlreadyRequested then 202 else 200), ca_Wake = ok\<rparr>)"

definition executeStopForApply :: "ControlHost \<Rightarrow> ControlClient option \<Rightarrow> Apply \<Rightarrow> string \<Rightarrow> string \<Rightarrow> string \<Rightarrow> ControlAnswer ctl" where
  "executeStopForApply ch client a ternApplyID environment caller0 =
    (let caller = resolveCaller (h_subject (ct_host ch)) caller0 in
     if apply_Engine a = EnginePlanetScale
     then stop_with (controlHTTPErrorf 400 ''stop is not supported for this schema change; use cancel to permanently cancel it'')
     else
       and_then (queueStopForApplyOwner ch a caller) (\<lambda>(resp, status).
         if fst resp then
           do {
             _ \<leftarrow> logControlOperationForApply a caller LogEventStopRequested (if status = ControlStatusAlreadyRequested
               then ''Stop requested by user while stop request already pending'' else ''Stop requested by user'');
             _ \<leftarrow> (if status = ControlStatusAlreadyRequested then State_Monad.return ()
                   else tryImmediateStopAfterQueue client a ternApplyID environment caller);
             proceed (answer_counts resp status)
           }
         else proceed (answer_counts resp status)))"

section \<open>Cancel\<close>

definition queueCancelForApplyOwner :: "ControlHost \<Rightarrow> Apply \<Rightarrow> string \<Rightarrow> ((bool \<times> string \<times> int \<times> int) \<times> string) ctl" where
  "queueCancelForApplyOwner ch a caller =
    and_then (pendingControlResponseIfPresent a ControlOperationCancel cancelled_count skipped_count) (\<lambda>found.
      case found of
        Some resp \<Rightarrow> proceed (resp, ControlStatusAlreadyRequested)
      | None \<Rightarrow>
          or_internal ''get tasks for apply'' (GetByApplyID (h_ci (ct_host ch)) (apply_ID a)) (\<lambda>ts.
            case stopRequestCounts ts of (n, skipped) \<Rightarrow>
              if n = 0 \<and> skipped = 0 then stop_with (controlConflictf ''no active schema change for apply'')
              else request_counts a ControlOperationCancel caller cancelled_count skipped_count '''' n skipped))"

definition completeImmediateCancelRequestIfCancelled :: "Apply \<Rightarrow> bool prog" where
  "completeImmediateCancelRequestIfCancelled a =
    or_fail ''load apply after immediate cancel'' (Apply_Get (apply_ID a)) (\<lambda>stored.
      case stored of
        None \<Rightarrow> State_Monad.return (Inl (Wrapped ''load apply after immediate cancel'' ErrApplyNotFound))
      | Some s \<Rightarrow>
          if \<not> IsState (apply_State s) [Apply_Cancelled] then State_Monad.return (Inr False)
          else or_fail ''complete pending cancel control request after immediate cancel''
            (CompletePending Background (apply_ID a) ControlOperationCancel) (\<lambda>_. State_Monad.return (Inr True)))"

definition tryImmediateCancel :: "ControlClient option \<Rightarrow> Apply \<Rightarrow> (world, unit) state" where
  "tryImmediateCancel client a =
    do {
      m \<leftarrow> applyHasMultipleOperations a;
      if m = Inr True then State_Monad.return ()
      else
        (case client of
           None \<Rightarrow> State_Monad.return ()
         | Some c \<Rightarrow>
             do {
               r \<leftarrow> cc_Cancel c (if cc_IsRemote c then apply_ExternalID a else apply_Identifier a) (apply_Environment a);
               case r of
                 Inr (Some (True, msg)) \<Rightarrow> do { _ \<leftarrow> completeImmediateCancelRequestIfCancelled a; State_Monad.return () }
               | _ \<Rightarrow> State_Monad.return ()
             })
    }"

definition executeCancelForApply :: "ControlHost \<Rightarrow> ControlClient option \<Rightarrow> Apply \<Rightarrow> string \<Rightarrow> ControlAnswer ctl" where
  "executeCancelForApply ch client a caller0 =
    (let caller = resolveCaller (h_subject (ct_host ch)) caller0 in
     if IsTerminalApplyState (apply_State a) \<and> \<not> IsState (apply_State a) [Apply_Stopped]
     then stop_with (controlConflictf ''schema change is already terminal'')
     else
       and_then (queueCancelForApplyOwner ch a caller) (\<lambda>(resp, status).
         if fst resp then
           do {
             _ \<leftarrow> logControlOperationForApply a caller LogEventCancelRequested ''Cancel requested by user'';
             _ \<leftarrow> tryImmediateCancel client a;
             proceed (answer_counts resp status)
           }
         else proceed (answer_counts resp status)))"


section \<open>Start\<close>

definition storedApplyMayHaveStoppedTasksForStart :: "string \<Rightarrow> bool" where
  "storedApplyMayHaveStoppedTasksForStart st \<longleftrightarrow> IsState st [Apply_Stopped] \<or> IsRunningApplyState st"

definition isStartRequestAllowedState :: "string \<Rightarrow> bool" where
  "isStartRequestAllowedState st =
    IsState st [Apply_WaitingForDeploy, Apply_Pending, Apply_Running, Apply_RunningDegraded, Apply_Stopped]"

definition startNotAllowedForState :: "Apply \<Rightarrow> control_err" where
  "startNotAllowedForState a = controlConflictf
    (if IsState (apply_State a) [Apply_Pending] then ''schema change is pending and no start request is queued''
     else if IsRunningApplyState (apply_State a) then ''schema change is still running; stop it before starting it again''
     else if IsState (apply_State a) [Apply_WaitingForCutover] then ''schema change is waiting for cutover; use cutover instead of start''
     else if IsState (apply_State a) [Apply_CuttingOver] then ''schema change is cutting over; start is not allowed''
     else if IsState (apply_State a) [Apply_RevertWindow] then ''schema change is in revert window; use revert or skip-revert instead of start''
     else if IsState (apply_State a) [Apply_Paused] then ''schema change is paused after a failed deployment''
     else if IsState (apply_State a) [Apply_FailedRetryable] then ''schema change is waiting for operator retry; start is not allowed''
     else if IsState (apply_State a) [Apply_Failed] then ''schema change failed and cannot be started''
     else if IsState (apply_State a) [Apply_Completed] then ''schema change already completed and cannot be started''
     else if IsState (apply_State a) [Apply_Cancelled] then ''schema change was cancelled and cannot be started''
     else if IsState (apply_State a) [Apply_Reverted] then ''schema change was reverted and cannot be started''
     else if IsState (apply_State a) [Apply_PreparingBranch, Apply_ApplyingBranchChanges, Apply_ValidatingBranch,
            Apply_CreatingDeployRequest, Apply_ValidatingDeployRequest]
       then ''schema change is in setup state '' @ NormalizeState (apply_State a)
     else ''schema change is not stopped'')"

definition validateStartRequestState :: "Apply \<Rightarrow> control_err option" where
  "validateStartRequestState a =
    (if \<not> isStartRequestAllowedState (apply_State a) then Some (startNotAllowedForState a)
     else if DeferDeploy (apply_Options a) \<and> \<not> IsState (apply_State a) [Apply_WaitingForDeploy]
     then Some (controlConflictf ''schema change is not ready for deploy'')
     else None)"

text \<open>A stop that has already happened is settled before a start; the apply is the one the handler goes on with.\<close>

definition completeResolvedStopBeforeStart :: "ControlHost \<Rightarrow> ControlClient \<Rightarrow> Apply \<Rightarrow> Apply ctl" where
  "completeResolvedStopBeforeStart ch client a =
    or_internal ''load pending stop control request before start'' (GetPending (apply_ID a) ControlOperationStop) (\<lambda>controlReq.
      case controlReq of
        None \<Rightarrow> proceed a
      | Some req \<Rightarrow>
          if stopRequestCompletedByApplyState (apply_State a) then
            or_internal ''complete pending stop control request before start'' (CompletePending Background (apply_ID a) ControlOperationStop)
              (\<lambda>_. proceed a)
          else if \<not> cc_IsRemote client then proceed a
          else if apply_ExternalID a = '''' then proceed a
          else
            or_internal ''check remote apply before completing pending stop for start'' (cc_Progress client (apply_ExternalID a) (apply_Environment a))
              (\<lambda>(st, tables).
                if \<not> IsState (ProtoStateToStorage st) [Apply_Stopped] then proceed a
                else
                  let a' = a\<lparr>apply_State := Apply_Stopped, apply_CompletedAt := Some (h_now (ct_host ch)), apply_UpdatedAt := h_now (ct_host ch)\<rparr> in
                  or_internal ''sync remote stopped apply before start''
                    (Apply_Update (h_sha (ct_host ch)) (h_ci (ct_host ch)) Background a' (ct_hasOptions ch a')) (\<lambda>_.
                  or_internal ''complete pending remote stop control request before start''
                    (CompletePending Background (apply_ID a) ControlOperationStop) (\<lambda>_.
                    do {
                      _ \<leftarrow> logControlOperationForApply a' (if cr_RequestedBy req = '''' then ''unknown'' else cr_RequestedBy req)
                        LogEventStopRequested ''Pending remote stop request completed before start'';
                      proceed a'
                    }))))"

definition ensureStoredApplyStoppedForStartClaim :: "ControlHost \<Rightarrow> Apply \<Rightarrow> unit ctl" where
  "ensureStoredApplyStoppedForStartClaim ch a =
    (if \<not> IsRunningApplyState (apply_State a) then proceed ()
     else
       let a' = a\<lparr>apply_State := Apply_Stopped, apply_CompletedAt := None, apply_UpdatedAt := h_now (ct_host ch)\<rparr> in
       or_internal ''mark stored apply stopped before operator start''
         (Apply_Update (h_sha (ct_host ch)) (h_ci (ct_host ch)) Background a' (ct_hasOptions ch a')) proceed)"

definition persistStartRequestForOperator :: "Apply \<Rightarrow> string \<Rightarrow> int \<Rightarrow> int \<Rightarrow> ((bool \<times> string \<times> int \<times> int) \<times> string) ctl" where
  "persistStartRequestForOperator a caller n skipped =
    request_counts a ControlOperationStart caller started_count skipped_count startResponseStatusQueued n skipped"

definition queueStoppedApplyForOperator :: "ControlHost \<Rightarrow> Apply \<Rightarrow> string \<Rightarrow> ((bool \<times> string \<times> int \<times> int) \<times> string) ctl" where
  "queueStoppedApplyForOperator ch a caller =
    (if \<not> storedApplyMayHaveStoppedTasksForStart (apply_State a) then stop_with (startNotAllowedForState a)
     else or_internal ''get tasks for apply'' (GetByApplyID (h_ci (ct_host ch)) (apply_ID a)) (\<lambda>ts.
       let n = int (length (filter (\<lambda>t. IsState (task_State t) [Task_Stopped]) ts));
           skipped = int (length (filter (\<lambda>t. \<not> IsState (task_State t) [Task_Stopped] \<and> IsTerminalTaskState (task_State t)) ts)) in
       if n = 0 then
         (if IsState (apply_State a) [Apply_Stopped] then stop_with (controlConflictf ''no stopped tasks for apply'')
          else stop_with (startNotAllowedForState a))
       else and_then (ensureStoredApplyStoppedForStartClaim ch a) (\<lambda>_. persistStartRequestForOperator a caller n skipped)))"

definition remoteStoppedApplyStartCounts :: "engine_strings \<Rightarrow> string list \<Rightarrow> int \<times> int" where
  "remoteStoppedApplyStartCounts es tables =
    (let states = map (NormalizeTaskStatus es) tables in
     (int (length (filter (\<lambda>st. IsState st [Task_Stopped]) states)),
      int (length (filter (\<lambda>st. \<not> IsState st [Task_Stopped] \<and> IsTerminalTaskState st) states))))"

definition queueRemoteStoppedApplyForOperator ::
  "ControlHost \<Rightarrow> ControlClient \<Rightarrow> Apply \<Rightarrow> string \<Rightarrow> ((bool \<times> string \<times> int \<times> int) \<times> string) ctl" where
  "queueRemoteStoppedApplyForOperator ch client a caller =
    (if \<not> storedApplyMayHaveStoppedTasksForStart (apply_State a) then stop_with (startNotAllowedForState a)
     else or_internal ''check remote apply before start'' (cc_Progress client (apply_ExternalID a) (apply_Environment a)) (\<lambda>(st, tables).
       if \<not> IsState (ProtoStateToStorage st) [Apply_Stopped] then stop_with (controlConflictf ''schema change is not stopped'')
       else
         (case remoteStoppedApplyStartCounts (ct_engine ch) tables of (n, skipped) \<Rightarrow>
            and_then (ensureStoredApplyStoppedForStartClaim ch a) (\<lambda>_.
              persistStartRequestForOperator a caller (if n = 0 then 1 else n) skipped))))"

definition pendingStartResponseIfPresent :: "Apply \<Rightarrow> ((bool \<times> string \<times> int \<times> int) option) ctl" where
  "pendingStartResponseIfPresent a = pendingControlResponseIfPresent a ControlOperationStart started_count skipped_count"

text \<open>What a start records, by the state of the apply.\<close>

definition queue_start :: "ControlHost \<Rightarrow> ControlClient \<Rightarrow> Apply \<Rightarrow> string \<Rightarrow> ((bool \<times> string \<times> int \<times> int) \<times> string) ctl" where
  "queue_start ch client a caller =
    (if IsState (apply_State a) [Apply_WaitingForDeploy] then persistStartRequestForOperator a caller 1 0
     else if IsState (apply_State a) [Apply_Pending] then
       and_then (pendingStartResponseIfPresent a) (\<lambda>found.
         case found of
           None \<Rightarrow> stop_with (startNotAllowedForState a)
         | Some resp \<Rightarrow> proceed (resp, ControlStatusAlreadyRequested))
     else if storedApplyMayHaveStoppedTasksForStart (apply_State a) then
       and_then (pendingStartResponseIfPresent a) (\<lambda>found.
         case found of
           Some resp \<Rightarrow> proceed (resp, ControlStatusAlreadyRequested)
         | None \<Rightarrow>
             if cc_IsRemote client \<and> apply_ExternalID a \<noteq> '''' then queueRemoteStoppedApplyForOperator ch client a caller
             else queueStoppedApplyForOperator ch a caller)
     else stop_with (startNotAllowedForState a))"

definition executeStartForApply :: "ControlHost \<Rightarrow> ControlClient \<Rightarrow> Apply \<Rightarrow> string \<Rightarrow> ControlAnswer ctl" where
  "executeStartForApply ch client a caller0 =
    (let caller = resolveCaller (h_subject (ct_host ch)) caller0 in
     case validateStartRequestState a of
       Some e \<Rightarrow> stop_with e
     | None \<Rightarrow>
         and_then (completeResolvedStopBeforeStart ch client a) (\<lambda>a'.
         and_then (rejectControlIfStopPending ''start'' a') (\<lambda>_.
         and_then (queue_start ch client a' caller) (\<lambda>(resp, status).
           do {
             _ \<leftarrow> (if fst resp then logControlOperationForApply a' caller LogEventStartRequested ''Start requested by user''
                   else State_Monad.return ());
             proceed (answer_counts resp status)
           }))))"

section \<open>Release\<close>

definition validateReleaseRequestState :: "Apply \<Rightarrow> unit ctl" where
  "validateReleaseRequestState a =
    (if IsTerminalApplyState (apply_State a) then stop_with (controlConflictf ''schema change is already terminal'')
     else or_internal ''list apply_operations before release'' (ListByApply (apply_ID a)) (\<lambda>ops.
       if \<not> anyPauseOnFailure ops then stop_with (controlConflictf ''schema change has no on_failure=pause deployment to release'')
       else if \<not> IsState (apply_State a) [Apply_Paused] then stop_with (controlConflictf ''schema change is not paused'')
       else proceed ()))"

definition releaseAlreadyLatched :: "Apply \<Rightarrow> bool ctl" where
  "releaseAlreadyLatched a =
    or_internal ''load release latch'' (GetByOperation (apply_ID a) ControlOperationRelease) (\<lambda>existing. proceed (ReleasesPausedRollout existing))"

definition releaseControlRequestErrorMessage :: "ApplyControlRequest option \<Rightarrow> string" where
  "releaseControlRequestErrorMessage controlReq =
    (case controlReq of None \<Rightarrow> '''' | Some req \<Rightarrow> if cr_Status req = ControlRequestFailed then cr_ErrorMessage req else '''')"

definition acceptedReleaseResponse :: "Apply \<Rightarrow> string \<Rightarrow> string \<Rightarrow> string \<Rightarrow> nat \<Rightarrow> string \<Rightarrow> ControlAnswer ctl" where
  "acceptedReleaseResponse a caller logMessage errorMessage httpStatus status =
    do {
      _ \<leftarrow> logControlOperationForApply a caller LogEventReleaseRequested logMessage;
      proceed ((accepted status httpStatus True)\<lparr>ca_ErrorMessage := errorMessage\<rparr>)
    }"

definition executeReleaseForApply :: "ControlHost \<Rightarrow> Apply \<Rightarrow> string \<Rightarrow> ControlAnswer ctl" where
  "executeReleaseForApply ch a caller0 =
    (let caller = resolveCaller (h_subject (ct_host ch)) caller0; latchedMessage = ''Release requested by user while release was already latched'' in
     and_then (validateReleaseRequestState a) (\<lambda>_.
     and_then (rejectControlIfStopPending ''release'' a) (\<lambda>_.
     and_then (releaseAlreadyLatched a) (\<lambda>latched.
       if latched then acceptedReleaseResponse a caller latchedMessage '''' 202 ControlStatusAlreadyRequested
       else
         and_then (createControlRequest a ControlOperationRelease caller ''{}'') (\<lambda>(controlReq, alreadyLatched).
           acceptedReleaseResponse a caller (if alreadyLatched then latchedMessage else ''Release requested by user'')
             (releaseControlRequestErrorMessage controlReq) (if alreadyLatched then 202 else 200)
             (if alreadyLatched then ControlStatusAlreadyRequested else ''''))))))"


section \<open>Revert and skip-revert\<close>

text \<open>
  The two handlers have the same shape: \<open>op\<close> is recorded unless the opposite one is pending, then tried
  at once; what the engine answers settles the request.
\<close>

definition execute_window ::
  "ControlHost \<Rightarrow> string \<Rightarrow> string \<Rightarrow> string \<Rightarrow> string \<Rightarrow> (bool \<times> string) prog \<Rightarrow> unit prog \<Rightarrow> Apply \<Rightarrow> string \<Rightarrow> ControlAnswer ctl" where
  "execute_window ch op opposite event refused call onAccept a caller0 =
    (let caller = resolveCaller (h_subject (ct_host ch)) caller0 in
     if apply_Engine a \<noteq> EnginePlanetScale then stop_with (controlConflictf ''only supported for PlanetScale schema changes'')
     else if \<not> IsState (apply_State a) [Apply_RevertWindow] then stop_with (controlConflictf ''schema change is not in its revert window'')
     else
       or_internal ''check pending opposite control request'' (GetPending (apply_ID a) opposite) (\<lambda>contrary.
         if contrary \<noteq> None then stop_with (controlConflictf refused)
         else
           or_internal ''record control request'' (RequestPending (new_request a op caller '''')) (\<lambda>(req, alreadyPending).
             if alreadyPending then
               do {
                 _ \<leftarrow> logControlOperationForApply a caller event ''requested by user while request already pending'';
                 proceed (accepted ControlStatusAlreadyRequested 202 True)
               }
             else
               do {
                 _ \<leftarrow> logControlOperationForApply a caller event ''triggered by user'';
                 r \<leftarrow> call;
                 case r of
                   Inl e \<Rightarrow> proceed (accepted '''' 202 True)
                 | Inr (True, msg) \<Rightarrow>
                     do {
                       _ \<leftarrow> onAccept;
                       _ \<leftarrow> CompletePending Background (apply_ID a) op;
                       proceed ((accepted '''' 200 True)\<lparr>ca_ErrorMessage := msg\<rparr>)
                     }
                 | Inr (False, msg) \<Rightarrow>
                     do {
                       _ \<leftarrow> FailPending Background (apply_ID a) op msg;
                       proceed ((accepted '''' 200 True)\<lparr>ca_Accepted := False, ca_ErrorMessage := msg\<rparr>)
                     }
               })))"

definition executeRevertForApply :: "ControlHost \<Rightarrow> ControlClient \<Rightarrow> Apply \<Rightarrow> string \<Rightarrow> string \<Rightarrow> ControlAnswer ctl" where
  "executeRevertForApply ch client a ternApplyID caller =
    execute_window ch ControlOperationRevert ControlOperationSkipRevert LogEventRevertTriggered
      ''skip-revert is already pending for this schema change'' (cc_Revert client ternApplyID (apply_Environment a))
      (State_Monad.return (Inr ())) a caller"

definition executeSkipRevertForApply :: "ControlHost \<Rightarrow> ControlClient \<Rightarrow> Apply \<Rightarrow> string \<Rightarrow> string \<Rightarrow> ControlAnswer ctl" where
  "executeSkipRevertForApply ch client a ternApplyID caller =
    execute_window ch ControlOperationSkipRevert ControlOperationRevert LogEventSkipRevertTriggered
      ''revert is already pending for this schema change'' (cc_SkipRevert client ternApplyID (apply_Environment a))
      (SetRevertSkipped (apply_ID a) (h_now (ct_host ch))) a caller"

section \<open>Volume\<close>

definition executeVolumeForApply :: "ControlHost \<Rightarrow> ControlClient \<Rightarrow> Apply \<Rightarrow> string \<Rightarrow> string \<Rightarrow> int \<Rightarrow> (ControlAnswer \<times> int \<times> int) ctl" where
  "executeVolumeForApply ch client a ternApplyID caller volume =
    or_internal ''queue volume change'' (cc_Volume client ternApplyID (apply_Environment a) volume) (\<lambda>(ok, msg, previous, new).
      do {
        _ \<leftarrow> (if ok then logControlOperationForApply a (resolveCaller (h_subject (ct_host ch)) caller) LogEventVolumeRequested
                 (''Volume change to '' @ Itoa volume @ '' queued; the driver applies it at its next progress check'')
              else State_Monad.return ());
        proceed ((accepted '''' 200 False)\<lparr>ca_Accepted := ok, ca_ErrorMessage := msg\<rparr>, previous, new)
      })"

section \<open>Rollback sources\<close>

record RollbackSourceRequest =
  rs_ApplyIdentifier :: string
  rs_Environment :: string
  rs_Repository :: string
  rs_PullRequest :: int
  rs_RequirePullRequestScope :: bool

definition validateRollbackSourceScope :: "RollbackSourceRequest \<Rightarrow> Apply \<Rightarrow> control_err option" where
  "validateRollbackSourceScope req a =
    (if \<not> IsState (apply_State a) [Apply_Completed] then Some (controlConflictf ''rollback requires a completed apply'')
     else if apply_Environment a \<noteq> rs_Environment req then Some (controlHTTPErrorf 400 ''apply belongs to another environment'')
     else if rs_RequirePullRequestScope req \<and> rs_Repository req = '''' then Some (controlHTTPErrorf 400 ''repository is required'')
     else if rs_RequirePullRequestScope req \<and> rs_PullRequest req \<le> 0 then Some (controlHTTPErrorf 400 ''pull_request is required'')
     else if rs_Repository req \<noteq> '''' \<and> apply_Repository a \<noteq> rs_Repository req
     then Some (controlHTTPErrorf 400 ''apply belongs to another repository'')
     else if 0 < rs_PullRequest req \<and> apply_PullRequest a \<noteq> rs_PullRequest req
     then Some (controlHTTPErrorf 400 ''apply belongs to another PR'')
     else None)"

definition rollbackTaskMatchesPlannerScope :: "Task \<Rightarrow> string \<Rightarrow> string \<Rightarrow> bool" where
  "rollbackTaskMatchesPlannerScope t dbType environment \<longleftrightarrow>
    IsState (task_State t) [Task_Completed] \<and> task_DatabaseType t = dbType \<and> task_Environment t = environment"

definition rollbackTaskCompletedAfter :: "Task \<Rightarrow> Task \<Rightarrow> bool" where
  "rollbackTaskCompletedAfter candidate current =
    (case (task_CompletedAt candidate, task_CompletedAt current) of
       (Some x, Some y) \<Rightarrow> y < x
     | (Some x, None) \<Rightarrow> True
     | (None, Some y) \<Rightarrow> False
     | (None, None) \<Rightarrow> task_CreatedAt current < task_CreatedAt candidate)"

fun latest_task :: "string \<Rightarrow> string \<Rightarrow> Task option \<Rightarrow> Task list \<Rightarrow> Task option" where
  "latest_task dbType environment latest [] = latest"
| "latest_task dbType environment latest (t # ts) =
    latest_task dbType environment
      (if rollbackTaskMatchesPlannerScope t dbType environment \<and> latest = None then Some t
       else if rollbackTaskMatchesPlannerScope t dbType environment \<and>
           (case latest of None \<Rightarrow> False | Some l \<Rightarrow> rollbackTaskCompletedAfter t l) then Some t
       else latest) ts"

definition latestCompletedTaskForRollback :: "(string \<Rightarrow> string) \<Rightarrow> string \<Rightarrow> string \<Rightarrow> string \<Rightarrow> Task option prog" where
  "latestCompletedTaskForRollback ci database dbType environment =
    or_fail ''load completed schema change tasks'' (Task_GetByDatabase ci database)
      (\<lambda>ts. State_Monad.return (Inr (latest_task dbType environment None ts)))"

definition ValidateRollbackSourceApply :: "(string \<Rightarrow> string) \<Rightarrow> RollbackSourceRequest \<Rightarrow> (Apply \<times> Plan) ctl" where
  "ValidateRollbackSourceApply ci req =
    (if rs_ApplyIdentifier req = '''' then stop_with (controlHTTPErrorf 400 ''apply_id is required'')
     else if rs_Environment req = '''' then stop_with (controlHTTPErrorf 400 ''environment is required'')
     else or_internal ''load apply for rollback'' (GetByApplyIdentifier ci (rs_ApplyIdentifier req)) (\<lambda>found.
       case found of
         None \<Rightarrow> stop_with (controlHTTPErrorf 404 ''apply not found'')
       | Some a \<Rightarrow>
           (case validateRollbackSourceScope req a of
              Some e \<Rightarrow> stop_with e
            | None \<Rightarrow>
                or_internal ''load source plan for rollback apply'' (Plan_GetByID (apply_PlanID a)) (\<lambda>p.
                  case p of
                    None \<Rightarrow> stop_with (Internal (Errorf ''source plan not found for rollback apply''))
                  | Some plan \<Rightarrow>
                      if \<not> HasOriginalFilesCapture (Some plan)
                      then stop_with (controlConflictf ''apply cannot be rolled back safely'')
                      else
                        do {
                          l \<leftarrow> latestCompletedTaskForRollback ci (apply_Database a) (apply_DatabaseType a) (apply_Environment a);
                          case l of
                            Inl e \<Rightarrow> stop_with (Internal e)
                          | Inr None \<Rightarrow> stop_with (controlConflictf ''no completed schema change task found'')
                          | Inr (Some t) \<Rightarrow>
                              if task_ApplyID t \<noteq> apply_ID a
                              then stop_with (controlConflictf ''apply is not the schema change that the current rollback planner would select'')
                              else if task_PlanID t \<noteq> apply_PlanID a
                              then stop_with (Internal (Errorf ''latest schema change task points to another plan''))
                              else proceed (a, plan)
                        }))))"

section \<open>Finding the apply\<close>

definition ternApplyIDForStoredApply :: "Apply \<Rightarrow> string" where
  "ternApplyIDForStoredApply a = (if apply_ExternalID a \<noteq> '''' then apply_ExternalID a else apply_Identifier a)"

text \<open>\<open>Inl\<close> carries the service too, since a client may have been created.\<close>

definition controlTarget ::
  "ControlHost \<Rightarrow> Service \<Rightarrow> string \<Rightarrow> string \<Rightarrow> (world, control_err \<times> Service + ControlClient \<times> Apply \<times> string \<times> Service) state" where
  "controlTarget ch s applyIdentifier environment =
    (if applyIdentifier = '''' then stop_with (controlHTTPErrorf 400 ''apply_id is required'', s)
     else if environment = '''' then stop_with (controlHTTPErrorf 400 ''environment is required'', s)
     else
       do {
         r \<leftarrow> GetByApplyIdentifier (h_ci (ct_host ch)) applyIdentifier;
         case r of
           Inl e \<Rightarrow> stop_with (Internal (Wrapped ''failed to look up apply'' e), s)
         | Inr None \<Rightarrow> stop_with (controlHTTPErrorf 404 (''apply not found: '' @ applyIdentifier), s)
         | Inr (Some a) \<Rightarrow>
             if apply_Environment a \<noteq> environment then stop_with (controlHTTPErrorf 400 ''apply belongs to another environment'', s)
             else
               (case storedDeploymentForApply (Some a) of
                  Inl e \<Rightarrow> stop_with (Internal e, s)
                | Inr deployment \<Rightarrow>
                    (case TernClient (h_newLocal (ct_host ch)) (h_newGRPC (ct_host ch)) (ct_config ch) s deployment (apply_Environment a) of
                       (Inl e, s') \<Rightarrow> stop_with (controlHTTPErrorf 404 (Error_text e), s')
                     | (Inr ref, s') \<Rightarrow> proceed (ct_client ch ref, a, ternApplyIDForStoredApply a, s')))
       })"

text \<open>
  An operation on a found apply.  The answer comes with the service, in which the operator was woken
  when the answer says so.
\<close>

definition on_target ::
  "ControlHost \<Rightarrow> Service \<Rightarrow> string \<Rightarrow> string \<Rightarrow> (ControlClient \<Rightarrow> Apply \<Rightarrow> string \<Rightarrow> ControlAnswer ctl) \<Rightarrow>
   (world, (control_err + ControlAnswer) \<times> Service) state" where
  "on_target ch s applyIdentifier environment op =
    do {
      t \<leftarrow> controlTarget ch s applyIdentifier environment;
      case t of
        Inl (e, s') \<Rightarrow> State_Monad.return (Inl e, s')
      | Inr (client, a, ternApplyID, s') \<Rightarrow>
          do {
            r \<leftarrow> op client a ternApplyID;
            State_Monad.return (r, case r of Inl e \<Rightarrow> s' | Inr answer \<Rightarrow> if ca_Wake answer then wakeOperator s' else s')
          }
    }"

datatype control_command =
    Cutover | Stop | Cancel | Start | Release | Revert | SkipRevertWindow

definition execute_on :: "ControlHost \<Rightarrow> control_command \<Rightarrow> string \<Rightarrow> ControlClient \<Rightarrow> Apply \<Rightarrow> string \<Rightarrow> ControlAnswer ctl" where
  "execute_on ch cmd caller client a ternApplyID =
    (case cmd of
       Cutover \<Rightarrow> and_then (rejectControlIfStopPending ''cutover'' a) (\<lambda>_. executeCutoverForApply ch (Some client) a ternApplyID caller)
     | Stop \<Rightarrow> executeStopForApply ch (Some client) a ternApplyID (apply_Environment a) caller
     | Cancel \<Rightarrow> executeCancelForApply ch (Some client) a caller
     | Start \<Rightarrow> executeStartForApply ch client a caller
     | Release \<Rightarrow> executeReleaseForApply ch a caller
     | Revert \<Rightarrow> executeRevertForApply ch client a ternApplyID caller
     | SkipRevertWindow \<Rightarrow> executeSkipRevertForApply ch client a ternApplyID caller)"

text \<open>\<^verbatim>\<open>ExecuteCutover\<close> to \<^verbatim>\<open>ExecuteSkipRevert\<close>; the environment of a stop is the apply's, which was compared.\<close>

definition Execute :: "ControlHost \<Rightarrow> Service \<Rightarrow> control_command \<Rightarrow> string \<Rightarrow> string \<Rightarrow> string \<Rightarrow>
   (world, (control_err + ControlAnswer) \<times> Service) state" where
  "Execute ch s cmd applyIdentifier environment caller = on_target ch s applyIdentifier environment (execute_on ch cmd caller)"


definition ExecuteVolume :: "ControlHost \<Rightarrow> Service \<Rightarrow> string \<Rightarrow> string \<Rightarrow> string \<Rightarrow> int \<Rightarrow>
   (world, (control_err + ControlAnswer \<times> int \<times> int) \<times> Service) state" where
  "ExecuteVolume ch s applyIdentifier environment caller volume =
    (if volume < MinVolume \<or> MaxVolume < volume
     then State_Monad.return (Inl (controlHTTPErrorf 400 ''volume must be between 1 and 11''), s)
     else
       do {
         t \<leftarrow> controlTarget ch s applyIdentifier environment;
         case t of
           Inl (e, s') \<Rightarrow> State_Monad.return (Inl e, s')
         | Inr (client, a, ternApplyID, s') \<Rightarrow>
             do { r \<leftarrow> executeVolumeForApply ch client a ternApplyID caller volume; State_Monad.return (r, s') }
       })"

section \<open>HTTP\<close>

text \<open>A body that was decoded, or the status and text of the refusal; what is written.\<close>

type_synonym ControlRequest = "string \<times> string \<times> string"

datatype 'r written = WriteError nat string | WriteJSON nat 'r

definition opName :: "control_command \<Rightarrow> string" where
  "opName cmd = (case cmd of Cutover \<Rightarrow> ''cutover'' | Stop \<Rightarrow> ''stop'' | Cancel \<Rightarrow> ''cancel'' | Start \<Rightarrow> ''start'' | Release \<Rightarrow> ''release''
     | Revert \<Rightarrow> ''revert'' | SkipRevertWindow \<Rightarrow> ''skip-revert'')"

definition writeControlError :: "string \<Rightarrow> control_err \<Rightarrow> 'r written" where
  "writeControlError name e = WriteError (controlOperationHTTPStatus e)
    (name @ (if 500 \<le> controlOperationHTTPStatus e then '' failed: '' else '' rejected: '') @ control_err_text e)"

text \<open>\<^verbatim>\<open>decodeControlRequest\<close> looks the apply up as \<open>controlTarget\<close> does, and writes its errors without a prefix.\<close>

definition decodeControlRequest ::
  "ControlHost \<Rightarrow> Service \<Rightarrow> nat \<times> string + ControlRequest \<Rightarrow>
   (world, 'r written \<times> Service + ControlClient \<times> Apply \<times> string \<times> string \<times> Service) state" where
  "decodeControlRequest ch s body =
    (case body of
       Inl (status, text) \<Rightarrow> stop_with (WriteError status text, s)
     | Inr (applyID, environment, caller) \<Rightarrow>
         do {
           t \<leftarrow> controlTarget ch s applyID environment;
           case t of
             Inl (e, s') \<Rightarrow> stop_with (WriteError (controlOperationHTTPStatus e) (control_err_text e), s')
           | Inr (client, a, ternApplyID, s') \<Rightarrow> proceed (client, a, ternApplyID, caller, s')
         })"

text \<open>\<^verbatim>\<open>handleCutover\<close> to \<^verbatim>\<open>handleSkipRevert\<close>.\<close>

definition handle_control ::
  "ControlHost \<Rightarrow> Service \<Rightarrow> control_command \<Rightarrow> nat \<times> string + ControlRequest \<Rightarrow> (world, ControlAnswer written \<times> Service) state" where
  "handle_control ch s cmd body =
    do {
      t \<leftarrow> decodeControlRequest ch s body;
      case t of
        Inl out \<Rightarrow> State_Monad.return out
      | Inr (client, a, ternApplyID, caller, s') \<Rightarrow>
          do {
            r \<leftarrow> execute_on ch cmd caller client a ternApplyID;
            State_Monad.return (case r of
              Inl e \<Rightarrow> (writeControlError (opName cmd) e, s')
            | Inr answer \<Rightarrow> (WriteJSON (ca_HTTP answer) answer, if ca_Wake answer then wakeOperator s' else s'))
          }
    }"

definition handleVolume ::
  "ControlHost \<Rightarrow> Service \<Rightarrow> nat \<times> string + ControlRequest \<Rightarrow> int \<Rightarrow> (world, (ControlAnswer \<times> int \<times> int) written \<times> Service) state" where
  "handleVolume ch s body volume =
    do {
      t \<leftarrow> decodeControlRequest ch s body;
      case t of
        Inl out \<Rightarrow> State_Monad.return out
      | Inr (client, a, ternApplyID, caller, s') \<Rightarrow>
          if volume < MinVolume \<or> MaxVolume < volume then State_Monad.return (WriteError 400 ''volume must be between 1 and 11'', s')
          else
            do {
              r \<leftarrow> executeVolumeForApply ch client a ternApplyID caller volume;
              State_Monad.return (case r of Inl e \<Rightarrow> (writeControlError ''volume'' e, s') | Inr answer \<Rightarrow> (WriteJSON 200 answer, s'))
            }
    }"

text \<open>The response, with database, type and environment of the apply.\<close>

definition handleRollbackPlan ::
  "ControlHost \<Rightarrow> PlanRPC \<Rightarrow> Service \<Rightarrow> nat \<times> string + string \<times> string \<Rightarrow>
   (world, (PlanResponse \<times> string \<times> string \<times> string) written \<times> Service) state" where
  "handleRollbackPlan ch rpc s body =
    (case body of
       Inl (status, text) \<Rightarrow> State_Monad.return (WriteError status text, s)
     | Inr (applyID, environment) \<Rightarrow>
         if applyID = '''' then State_Monad.return (WriteError 400 ''apply_id is required'', s)
         else if environment = '''' then State_Monad.return (WriteError 400 ''environment is required'', s)
         else
           do {
             v \<leftarrow> ValidateRollbackSourceApply (h_ci (ct_host ch))
               \<lparr>rs_ApplyIdentifier = applyID, rs_Environment = environment, rs_Repository = '''', rs_PullRequest = 0, rs_RequirePullRequestScope = False\<rparr>;
             case v of
               Inl e \<Rightarrow> State_Monad.return (writeControlError ''rollback plan'' e, s)
             | Inr (a, plan) \<Rightarrow>
                 do {
                   (r, s') \<leftarrow> ExecuteRollbackPlanForApply (ct_host ch) rpc (ct_config ch) s (Some a);
                   State_Monad.return (case r of
                     Inl e \<Rightarrow> (writeControlError ''rollback plan'' (Internal e), s')
                   | Inr resp \<Rightarrow> (WriteJSON 200 (resp, apply_Database a, apply_DatabaseType a, apply_Environment a), s'))
                 }
           })"

end
