(* ===== verification/Control_Safety.thy ===== *)
theory Control_Safety
  imports Control_Handlers
begin

text \<open>
  What the control operations guarantee for stops and starts: an accepted stop is never lost, and an
  accepted start leaves no stop or cancel pending.  The statements are about commands without
  interleaved statements; the interleavings of the store itself are treated with the stores.
\<close>

section \<open>Programs in a quiet world\<close>

text \<open>From a store with \<open>P\<close> the program ends, in a store with \<open>Q\<close> for its result.\<close>

definition quietly :: "(db \<Rightarrow> bool) \<Rightarrow> (world, 'a) state \<Rightarrow> ('a \<Rightarrow> db \<Rightarrow> bool) \<Rightarrow> bool" where
  "quietly P p Q \<longleftrightarrow> (\<forall>d. P d \<longrightarrow> (\<exists>r d'. run_state p (quiet d) = (r, quiet d') \<and> Q r d'))"

named_theorems quiet_rules

lemma quietly_return [quiet_rules]: "(\<And>d. P d \<Longrightarrow> Q x d) \<Longrightarrow> quietly P (State_Monad.return x) Q"
  by (auto simp: quietly_def)

lemma quietly_proceed [quiet_rules]: "(\<And>d. P d \<Longrightarrow> Q (Inr x) d) \<Longrightarrow> quietly P (proceed x) Q"
  by (auto simp: quietly_def)

lemma quietly_stop [quiet_rules]: "(\<And>d. P d \<Longrightarrow> Q (Inl x) d) \<Longrightarrow> quietly P (stop_with x) Q"
  by (auto simp: quietly_def)

lemma quietly_bind:
  assumes "quietly P m R" and "\<And>x. quietly (R x) (f x) Q"
  shows "quietly P (State_Monad.bind m f) Q"
  unfolding quietly_def
proof (intro allI impI)
  fix d assume "P d"
  then obtain x d1 where "run_state m (quiet d) = (x, quiet d1)" "R x d1" using assms(1) by (auto simp: quietly_def)
  with assms(2)[of x] show "\<exists>r d'. run_state (State_Monad.bind m f) (quiet d) = (r, quiet d') \<and> Q r d'"
    by (auto simp: quietly_def)
qed

lemma quietly_or_internal:
  assumes "quietly P p R" and "\<And>x. quietly (R (Inr x)) (f x) Q" and "\<And>e d. R (Inl e) d \<Longrightarrow> Q (Inl (Internal (Wrapped msg e))) d"
  shows "quietly P (or_internal msg p f) Q"
  unfolding or_internal_def by (rule quietly_bind[OF assms(1)]) (auto split: sum.split intro!: quietly_stop assms(2,3))

lemma quietly_or_fail:
  assumes "quietly P p R" and "\<And>x. quietly (R (Inr x)) (f x) Q" and "\<And>e d. R (Inl e) d \<Longrightarrow> Q (Inl (Wrapped msg e)) d"
  shows "quietly P (or_fail msg p f) Q"
  unfolding or_fail_def by (rule quietly_bind[OF assms(1)]) (auto split: sum.split intro!: quietly_return assms(2,3))

lemma quietly_and_then:
  assumes "quietly P p R" and "\<And>x. quietly (R (Inr x)) (f x) Q" and "\<And>e d. R (Inl e) d \<Longrightarrow> Q (Inl e) d"
  shows "quietly P (and_then p f) Q"
  unfolding and_then_def by (rule quietly_bind[OF assms(1)]) (auto split: sum.split intro!: quietly_return assms(2,3))

lemma quietly_conseq:
  assumes "quietly P' p Q'" and "\<And>d. P d \<Longrightarrow> P' d" and "\<And>r d. Q' r d \<Longrightarrow> Q r d"
  shows "quietly P p Q"
  using assms unfolding quietly_def by meson

lemma quietly_run:
  assumes "quietly P p Q" and "P d" and "run_state p (quiet d) = (r, w)"
  shows "\<exists>d'. w = quiet d' \<and> Q r d'"
  using assms by (force simp: quietly_def)

text \<open>A read leaves the store; a program that leaves the requests keeps every condition on them.\<close>

lemma quietly_query:
  assumes "\<And>d. P d \<Longrightarrow> Q (Inr (q d)) d"
  shows "quietly P (QueryContext q) Q"
  using assms by (auto simp: quietly_def)

definition on_requests :: "(db \<Rightarrow> bool) \<Rightarrow> bool" where
  "on_requests P \<longleftrightarrow> (\<forall>d d'. P d \<longrightarrow> control_requests d' = control_requests d \<longrightarrow> control_requests_next d' = control_requests_next d \<longrightarrow> P d')"

lemma on_requestsI: "on_requests (\<lambda>d. cr_ok d \<and> F (status_on d))"
  by (simp add: on_requests_def cr_ok_def status_on_def[abs_def] request_at_def)

lemma quietly_log:
  assumes "on_requests P"
  shows "quietly P (logControlOperationForApply a caller event message) (\<lambda>_. P)"
  using assms
  by (auto simp: quietly_def on_requests_def logControlOperationForApply_def Append_def Background_def applyLeaseFromContext_def insert_log_def)

section \<open>Requests\<close>

abbreviation is_pending :: "db \<Rightarrow> Apply \<Rightarrow> string \<Rightarrow> bool" where
  "is_pending d a op \<equiv> status_on d (apply_ID a, op) = Some ControlRequestPending"

lemma pending_found:
  assumes "cr_ok d"
  shows "find (\<lambda>r. cr_row i op r \<and> cr_Status r = ControlRequestPending) (control_requests d) = None \<longleftrightarrow>
    status_on d (i, op) \<noteq> Some ControlRequestPending"
proof (cases "request_at d (i, op)")
  case None
  then have "status_on d (i, op) = None" by (simp add: status_on_def)
  with None show ?thesis by (auto simp: request_at_def cr_row_key find_None_iff)
next
  case (Some x)
  have x: "x \<in> set (control_requests d)" "cr_key x = (i, op)" using find_SomeD[OF Some[unfolded request_at_def]] by auto
  have inj: "inj_on cr_key (set (control_requests d))" using assms by (simp add: cr_ok_def distinct_map)
  have only: "\<forall>r\<in>set (control_requests d). cr_key r = (i, op) \<longrightarrow> r = x" using inj_onD[OF inj _ _ x(1)] x(2) by simp
  have "status_on d (i, op) = Some (cr_Status x)" by (simp add: status_on_def Some)
  with x only show ?thesis unfolding find_None_iff cr_row_key by fastforce
qed


lemma quietly_GetPending:
  assumes "\<And>d. P d \<Longrightarrow> cr_ok d"
  shows "quietly P (GetPending i op) (\<lambda>r d. P d \<and> (\<exists>x. r = Inr x \<and> (x = None \<longleftrightarrow> status_on d (i, op) \<noteq> Some ControlRequestPending)))"
  unfolding GetPending_def by (rule quietly_query) (simp add: assms pending_found)

lemma quietly_RequestPending:
  assumes "\<And>d. P d \<Longrightarrow> cr_ok d \<and> F (status_on d)"
  shows "quietly P (RequestPending (new_request a op caller metadata)) (\<lambda>r d'. cr_ok d' \<and> (\<exists>st row already. F st \<and> r = Inr (row, already) \<and>
      status_on d' = st((apply_ID a, op) \<mapsto> ControlRequestPending)))"
  unfolding quietly_def
proof (intro allI impI)
  fix d assume "P d"
  then have ok: "cr_ok d" "F (status_on d)" using assms by auto
  let ?q = "new_request a op caller metadata"
  obtain row d' where run: "run_state (requestPending ?q) (quiet d) = (Inr (Some row, request_at d (cr_key ?q) = Some row), quiet d')"
    "cr_ok d'" "request_at d' = (request_at d)(cr_key ?q \<mapsto> row)" "cr_Status row = ControlRequestPending"
    by (rule requestPending_quiet[OF ok(1) cr_key_def[of ?q]])
  have "status_on d' = (status_on d)((apply_ID a, op) \<mapsto> ControlRequestPending)"
    using run(3,4) by (auto simp: status_on_def new_request_def cr_key_def fun_eq_iff)
  with RequestPending_quiet[OF run(1)] run(2) ok(2)
  show "\<exists>r d'. run_state (RequestPending ?q) (quiet d) = (r, quiet d') \<and> cr_ok d' \<and> (\<exists>st row already. F st \<and> r = Inr (row, already) \<and>
      status_on d' = st((apply_ID a, op) \<mapsto> ControlRequestPending))"
    by blast
qed

lemma quietly_settle:
  assumes "\<And>d. P d \<Longrightarrow> cr_ok d \<and> F (status_on d)"
  shows "quietly P (CompletePending Background i op) (\<lambda>r d'. r = Inr () \<and> cr_ok d' \<and> (\<exists>st. F st \<and>
      status_on d' = (if st (i, op) = Some ControlRequestPending then st((i, op) \<mapsto> ControlRequestCompleted) else st)))"
    and "quietly P (FailPending Background i op msg) (\<lambda>r d'. r = Inr () \<and> cr_ok d' \<and> (\<exists>st. F st \<and>
      status_on d' = (if st (i, op) = Some ControlRequestPending then st((i, op) \<mapsto> ControlRequestFailed) else st)))"
proof -
  have step: "\<exists>d' n. settle_pending None i op f d = Inr (d', n) \<and> cr_ok d' \<and>
      status_on d' = (if status_on d (i, op) = Some ControlRequestPending then (status_on d)((i, op) \<mapsto> s) else status_on d)"
    if "cr_ok d" "\<And>r. cr_key (f r) = cr_key r" "\<And>r. cr_ID (f r) = cr_ID r" "\<And>r. cr_Status (f r) = s" for d f s
  proof -
    obtain d' n where set: "settle_pending None i op f d = Inr (d', n)" by (simp add: settle_pending_def update_cr_def)
    from settle_without_lease[OF that(1), of "(i, op)" f d' n] set that(2,3)
    have "cr_ok d'" "status_on d' = (if status_on d (i, op) = Some ControlRequestPending
        then (status_on d)((i, op) := map_option (\<lambda>r. cr_Status (f r)) (request_at d (i, op))) else status_on d)"
      by (simp_all only: status_on_def[abs_def] fst_conv snd_conv)
    with set that(4) show ?thesis by (auto simp: status_on_def)
  qed
  show "quietly P (CompletePending Background i op) (\<lambda>r d'. r = Inr () \<and> cr_ok d' \<and> (\<exists>st. F st \<and>
      status_on d' = (if st (i, op) = Some ControlRequestPending then st((i, op) \<mapsto> ControlRequestCompleted) else st)))"
    unfolding quietly_def
  proof (intro allI impI)
    fix d assume "P d"
    then have ok: "cr_ok d" "F (status_on d)" using assms by auto
    from step[OF ok(1), of "\<lambda>r. r\<lparr>cr_Status := ControlRequestCompleted\<rparr>" ControlRequestCompleted] ok(2)
    show "\<exists>r d'. run_state (CompletePending Background i op) (quiet d) = (r, quiet d') \<and> r = Inr () \<and> cr_ok d' \<and> (\<exists>st. F st \<and>
        status_on d' = (if st (i, op) = Some ControlRequestPending then st((i, op) \<mapsto> ControlRequestCompleted) else st))"
      by (force simp: CompletePending_def Background_def applyLeaseFromContext_def)
  qed
  show "quietly P (FailPending Background i op msg) (\<lambda>r d'. r = Inr () \<and> cr_ok d' \<and> (\<exists>st. F st \<and>
      status_on d' = (if st (i, op) = Some ControlRequestPending then st((i, op) \<mapsto> ControlRequestFailed) else st)))"
    unfolding quietly_def
  proof (intro allI impI)
    fix d assume "P d"
    then have ok: "cr_ok d" "F (status_on d)" using assms by auto
    from step[OF ok(1), of "\<lambda>r. r\<lparr>cr_Status := ControlRequestFailed, cr_ErrorMessage := msg\<rparr>" ControlRequestFailed] ok(2)
    show "\<exists>r d'. run_state (FailPending Background i op msg) (quiet d) = (r, quiet d') \<and> r = Inr () \<and> cr_ok d' \<and> (\<exists>st. F st \<and>
        status_on d' = (if st (i, op) = Some ControlRequestPending then st((i, op) \<mapsto> ControlRequestFailed) else st))"
      by (force simp: FailPending_def Background_def applyLeaseFromContext_def)
  qed
qed


lemma stopped_not_active: "isActiveApplyState Apply_Stopped = False"
  by code_simp

text \<open>Marking an apply stopped leaves the requests.\<close>

lemma quietly_mark_stopped:
  assumes "on_requests P" and "apply_State a = Apply_Stopped"
  shows "quietly P (Apply_Update sha ci Background a hasOptions) (\<lambda>_. P)"
proof -
  have "\<exists>r d'. run_state (Apply_Update sha ci Background a hasOptions) (quiet d) = (r, quiet d') \<and>
      control_requests d' = control_requests d \<and> control_requests_next d' = control_requests_next d" for d
    by (force simp: Apply_Update_def operation_lease_only_def Background_def applyLeaseFromContext_def assms(2) stopped_not_active
        update_on_target_def with_write_tx_def update_tx_def update_applies_def Let_def)
  then show ?thesis using assms(1) unfolding quietly_def on_requests_def by meson
qed


text \<open>A condition on the statuses of requests, in a well-formed table.\<close>

definition given :: "((int \<times> string \<Rightarrow> string option) \<Rightarrow> bool) \<Rightarrow> db \<Rightarrow> bool" where
  "given F d \<longleftrightarrow> cr_ok d \<and> F (status_on d)"

lemma given_on_requests: "on_requests (given F)"
  unfolding given_def[abs_def] by (rule on_requestsI)

lemmas quietly_log_given = quietly_log[OF given_on_requests]

lemma quietly_get_given:
  "quietly (given F) (GetPending i op) (\<lambda>r d. given F d \<and> (\<exists>x. r = Inr x \<and> (x = None \<longleftrightarrow> status_on d (i, op) \<noteq> Some ControlRequestPending)))"
  by (rule quietly_GetPending) (simp add: given_def)

definition requested :: "int \<Rightarrow> string \<Rightarrow> ((int \<times> string \<Rightarrow> string option) \<Rightarrow> bool) \<Rightarrow> (int \<times> string \<Rightarrow> string option) \<Rightarrow> bool" where
  "requested i op F st' \<longleftrightarrow> (\<exists>st. F st \<and> st' = st((i, op) \<mapsto> ControlRequestPending))"

lemma quietly_request_given:
  "quietly (given F) (RequestPending (new_request a op caller metadata))
    (\<lambda>r d. (\<exists>row already. r = Inr (row, already)) \<and> given (requested (apply_ID a) op F) d)"
  by (rule quietly_conseq[OF quietly_RequestPending[of "given F" F]]) (auto simp: given_def requested_def)

lemma quietly_response:
  "quietly (given F) (pendingControlResponseIfPresent a op k1 k2)
    (\<lambda>r d. given F d \<and> (\<forall>x. r = Inr (Some x) \<longrightarrow> is_pending d a op) \<and> (r = Inr None \<longrightarrow> \<not> is_pending d a op))"
  unfolding pendingControlResponseIfPresent_def
  by (rule quietly_or_internal[OF quietly_get_given]) (auto split: option.split sum.split intro!: quiet_rules)

lemma quietly_create: "quietly (given F) (createControlRequest a op caller metadata) (\<lambda>_. given (requested (apply_ID a) op F))"
  unfolding createControlRequest_def by (rule quietly_or_internal[OF quietly_request_given]) (auto intro!: quiet_rules)

lemma quietly_request_counts:
  "quietly (given F) (request_counts a op caller k1 k2 fresh n skipped) (\<lambda>_. given (requested (apply_ID a) op F))"
  unfolding request_counts_def
  by (rule quietly_and_then[OF quietly_create]) (auto split: sum.split intro!: quiet_rules)

lemma quietly_reject:
  "quietly (given F) (rejectControlIfStopPending name a)
    (\<lambda>r d. given F d \<and> (\<forall>x. r = Inr x \<longrightarrow> \<not> is_pending d a ControlOperationStop \<and> \<not> is_pending d a ControlOperationCancel))"
proof -
  have rejected: "quietly (given F) (do { _ \<leftarrow> logControlOperationForApply a who event msg; stop_with e }) (\<lambda>r d. given F d \<and> (\<forall>x. r \<noteq> Inr x))"
    for who event msg and e :: control_err
    by (rule quietly_bind[OF quietly_log_given]) (auto intro!: quiet_rules)
  show ?thesis
    unfolding rejectControlIfStopPending_def Let_def
    apply (rule quietly_or_internal[OF quietly_get_given])
    subgoal for r1
      apply (cases r1)
      subgoal
        apply simp
        apply (rule quietly_or_internal[OF quietly_conseq[OF quietly_get_given[of "\<lambda>st. F st \<and> st (apply_ID a, ControlOperationStop) \<noteq> Some ControlRequestPending"]],
              where R = "\<lambda>r d. given F d \<and> \<not> is_pending d a ControlOperationStop \<and> (\<exists>x. r = Inr x \<and> (x = None \<longleftrightarrow> \<not> is_pending d a ControlOperationCancel))"])
        apply (auto simp: given_def split: option.split intro!: quiet_rules quietly_conseq[OF rejected[unfolded given_def]])
        done
      subgoal by (auto intro!: quietly_conseq[OF rejected])
      done
    subgoal by (auto simp: given_def)
    done
qed


section \<open>Start\<close>

text \<open>Asking a remote engine for progress leaves the store.\<close>

definition reads_remotely :: "ControlClient \<Rightarrow> bool" where
  "reads_remotely c \<longleftrightarrow> (cc_IsRemote c \<longrightarrow> (\<forall>i e w. snd (run_state (cc_Progress c i e) w) = w))"

lemma quietly_progress:
  assumes "reads_remotely c" and "cc_IsRemote c"
  shows "quietly P (cc_Progress c i e) (\<lambda>_. P)"
proof -
  have "snd (run_state (cc_Progress c i e) w) = w" for w using assms by (simp add: reads_remotely_def)
  then show ?thesis unfolding quietly_def by (metis prod.collapse)
qed

text \<open>Neither a stop nor a cancel of the apply is pending.\<close>

definition unstopped :: "int \<Rightarrow> (int \<times> string \<Rightarrow> string option) \<Rightarrow> bool" where
  "unstopped i st \<longleftrightarrow> st (i, ControlOperationStop) \<noteq> Some ControlRequestPending \<and> st (i, ControlOperationCancel) \<noteq> Some ControlRequestPending"

definition started :: "int \<Rightarrow> ((bool \<times> string \<times> int \<times> int) \<times> string) \<Rightarrow> db \<Rightarrow> bool" where
  "started i out d \<longleftrightarrow> (fst (fst out) \<longrightarrow> status_on d (i, ControlOperationStart) = Some ControlRequestPending)"

definition start_post :: "int \<Rightarrow> control_err + ((bool \<times> string \<times> int \<times> int) \<times> string) \<Rightarrow> db \<Rightarrow> bool" where
  "start_post i r d \<longleftrightarrow> given (unstopped i) d \<and> (case r of Inl e \<Rightarrow> True | Inr out \<Rightarrow> started i out d)"

lemma start_post_simps [simp]:
  "start_post i (Inl e) d \<longleftrightarrow> given (unstopped i) d"
  "start_post i (Inr out) d \<longleftrightarrow> given (unstopped i) d \<and> started i out d"
  by (simp_all add: start_post_def)

lemma quietly_persist_start:
  "quietly (given (unstopped (apply_ID a))) (persistStartRequestForOperator a caller n skipped)
    (start_post (apply_ID a))"
  unfolding persistStartRequestForOperator_def
  by (rule quietly_conseq[OF quietly_request_counts[of "unstopped (apply_ID a)"]])
    (auto simp: start_post_def given_def requested_def unstopped_def started_def split: sum.split)

lemma quietly_mark_start:
  "quietly (given F) (ensureStoredApplyStoppedForStartClaim ch a) (\<lambda>_. given F)"
  unfolding ensureStoredApplyStoppedForStartClaim_def Let_def
  by (auto intro!: quiet_rules quietly_or_internal[OF quietly_mark_stopped[OF given_on_requests]])

lemma quietly_queue_stopped:
  "quietly (given (unstopped (apply_ID a))) (queueStoppedApplyForOperator ch a caller)
    (start_post (apply_ID a))"
proof -
  have read: "quietly (given F) (GetByApplyID ci i) (\<lambda>_. given F)" for F ci i
    unfolding GetByApplyID_def by (rule quietly_query)
  show ?thesis unfolding queueStoppedApplyForOperator_def Let_def
    by (auto intro!: quiet_rules quietly_or_internal[OF read] quietly_and_then[OF quietly_mark_start] quietly_persist_start)
qed

lemma quietly_queue_remote:
  assumes "reads_remotely client" and "cc_IsRemote client"
  shows "quietly (given (unstopped (apply_ID a))) (queueRemoteStoppedApplyForOperator ch client a caller)
    (start_post (apply_ID a))"
  unfolding queueRemoteStoppedApplyForOperator_def
  by (auto split: prod.split intro!: quiet_rules quietly_or_internal[OF quietly_progress[OF assms]] quietly_and_then[OF quietly_mark_start]
      quietly_persist_start)

lemma quietly_queue_start:
  assumes "reads_remotely client"
  shows "quietly (given (unstopped (apply_ID a))) (queue_start ch client a caller)
    (start_post (apply_ID a))"
proof -
  have found: "quietly (given (unstopped (apply_ID a))) (pendingStartResponseIfPresent a)
      (\<lambda>r d. given (unstopped (apply_ID a)) d \<and> (\<forall>x. r = Inr (Some x) \<longrightarrow> is_pending d a ControlOperationStart))"
    unfolding pendingStartResponseIfPresent_def by (rule quietly_conseq[OF quietly_response]) auto
  have pending: "quietly (given (unstopped (apply_ID a)))
      (and_then (pendingStartResponseIfPresent a) (\<lambda>x. case x of None \<Rightarrow> p | Some resp \<Rightarrow> proceed (resp, ControlStatusAlreadyRequested)))
      (start_post (apply_ID a))" if "quietly (given (unstopped (apply_ID a))) p (start_post (apply_ID a))" for p
    by (rule quietly_and_then[OF found])
      (auto simp: started_def split: option.split intro!: quiet_rules intro: quietly_conseq[OF that])
  show ?thesis unfolding queue_start_def
    by (auto intro!: quietly_persist_start pending quiet_rules quietly_queue_remote[OF assms] quietly_queue_stopped)
qed

lemma quietly_complete_stop:
  assumes "reads_remotely client"
  shows "quietly (given (\<lambda>_. True)) (completeResolvedStopBeforeStart ch client a)
    (\<lambda>r d. given (\<lambda>_. True) d \<and> (\<forall>a'. r = Inr a' \<longrightarrow> apply_ID a' = apply_ID a))"
proof -
  have settle: "quietly (given (\<lambda>_. True)) (CompletePending Background i op) (\<lambda>_. given (\<lambda>_. True))" for i op
    by (rule quietly_conseq[OF quietly_settle(1)[of "given (\<lambda>_. True)" "\<lambda>_. True"]]) (auto simp: given_def)
  have get: "quietly (given (\<lambda>_. True)) (GetPending i op) (\<lambda>_. given (\<lambda>_. True))" for i op
    by (rule quietly_conseq[OF quietly_get_given]) auto
  show ?thesis unfolding completeResolvedStopBeforeStart_def Let_def
    by (auto split: option.split intro!: quiet_rules quietly_or_internal[OF get] quietly_or_internal[OF settle]
        quietly_or_internal[OF quietly_progress[OF assms]] quietly_or_internal[OF quietly_mark_stopped[OF given_on_requests]]
        quietly_bind[OF quietly_log_given])
qed

definition start_done :: "Apply \<Rightarrow> control_err + ControlAnswer \<Rightarrow> db \<Rightarrow> bool" where
  "start_done a r d \<longleftrightarrow> cr_ok d \<and> (case r of Inl e \<Rightarrow> True | Inr ans \<Rightarrow> ca_Accepted ans \<longrightarrow>
     isStartRequestAllowedState (apply_State a) \<and> is_pending d a ControlOperationStart \<and>
     \<not> is_pending d a ControlOperationStop \<and> \<not> is_pending d a ControlOperationCancel)"

lemma quietly_start:
  assumes "reads_remotely client"
  shows "quietly cr_ok (executeStartForApply ch client a caller) (start_done a)"
proof (cases "validateStartRequestState a")
  case (Some e)
  then show ?thesis by (auto simp: executeStartForApply_def start_done_def intro!: quiet_rules)
next
  case None
  then have allowed: "isStartRequestAllowedState (apply_State a)" by (auto simp: validateStartRequestState_def split: if_splits)
  let ?F = "\<lambda>out st. unstopped (apply_ID a) st \<and> (fst (fst out) \<longrightarrow> st (apply_ID a, ControlOperationStart) = Some ControlRequestPending)"
  have log: "quietly (start_post (apply_ID a) (Inr out)) (if b then logControlOperationForApply x who event msg else State_Monad.return ())
      (\<lambda>_. start_post (apply_ID a) (Inr out))" for out b x who event msg
  proof -
    have "start_post (apply_ID a) (Inr out) = given (?F out)" by (auto simp: given_def started_def fun_eq_iff)
    then show ?thesis using quietly_log_given[of "?F out"] by (auto intro!: quiet_rules)
  qed
  have queue: "quietly (start_post (apply_ID a) (Inr out)) (do { _ \<leftarrow> (if b then logControlOperationForApply x who event msg else State_Monad.return ());
      proceed (answer_counts (fst out) (snd out)) }) (start_done a)" for out b x who event msg
    by (rule quietly_bind[OF log]) (auto simp: start_done_def answer_counts_def given_def unstopped_def started_def allowed split: prod.splits intro!: quiet_rules)
  have rejected: "quietly (\<lambda>d. given (\<lambda>_. True) d \<and> apply_ID a' = apply_ID a) (rejectControlIfStopPending name a')
      (\<lambda>r d. (case r of Inl e \<Rightarrow> cr_ok d | Inr x \<Rightarrow> given (unstopped (apply_ID a)) d \<and> apply_ID a' = apply_ID a))" for a' name
  proof (cases "apply_ID a' = apply_ID a")
    case True
    then show ?thesis by (intro quietly_conseq[OF quietly_reject[of "\<lambda>_. True"]]) (auto simp: given_def unstopped_def split: sum.splits)
  qed (simp add: quietly_def)
  have queued: "quietly (\<lambda>d. given (unstopped (apply_ID a)) d \<and> apply_ID a' = apply_ID a) (queue_start ch client a' who) (start_post (apply_ID a))" for a' who
  proof (cases "apply_ID a' = apply_ID a")
    case True
    show ?thesis by (rule quietly_conseq[OF quietly_queue_start[OF assms, of a' ch who]]) (simp_all add: True)
  qed (simp add: quietly_def)
  have complete: "quietly cr_ok (completeResolvedStopBeforeStart ch client a) (\<lambda>r d. given (\<lambda>_. True) d \<and> (\<forall>a'. r = Inr a' \<longrightarrow> apply_ID a' = apply_ID a))"
    by (rule quietly_conseq[OF quietly_complete_stop[OF assms]]) (simp add: given_def, assumption)
  show ?thesis unfolding executeStartForApply_def Let_def None option.case
  proof (rule quietly_and_then[OF complete])
    fix a'
    show "quietly (\<lambda>d. given (\<lambda>_. True) d \<and> (\<forall>a''. Inr a' = Inr a'' \<longrightarrow> apply_ID a'' = apply_ID a))
      (and_then (rejectControlIfStopPending ''start'' a') (\<lambda>_. and_then (queue_start ch client a' (resolveCaller (h_subject (ct_host ch)) caller)) (\<lambda>(resp, status).
         do { _ \<leftarrow> (if fst resp then logControlOperationForApply a' (resolveCaller (h_subject (ct_host ch)) caller) LogEventStartRequested ''Start requested by user''
                    else State_Monad.return ());
              proceed (answer_counts resp status) }))) (start_done a)"
    proof (rule quietly_conseq[OF quietly_and_then[OF rejected]])
      show "quietly (\<lambda>d. case Inr x of Inl e \<Rightarrow> cr_ok d | Inr x \<Rightarrow> given (unstopped (apply_ID a)) d \<and> apply_ID a' = apply_ID a)
        (and_then (queue_start ch client a' (resolveCaller (h_subject (ct_host ch)) caller)) (\<lambda>(resp, status).
         do { _ \<leftarrow> (if fst resp then logControlOperationForApply a' (resolveCaller (h_subject (ct_host ch)) caller) LogEventStartRequested ''Start requested by user''
                    else State_Monad.return ());
              proceed (answer_counts resp status) })) (start_done a)" for x :: unit
        unfolding sum.case
        by (rule quietly_and_then[OF queued]) (use queue in \<open>force simp: start_done_def given_def split: prod.split\<close>)+
    qed (auto simp: start_done_def)
  qed (auto simp: start_done_def given_def)
qed


section \<open>Stop\<close>

text \<open>
  The stop call of an engine client may change the store, but does not settle a stop request; the local
  client records one itself.
\<close>

definition stop_call_keeps :: "ControlClient \<Rightarrow> bool" where
  "stop_call_keeps c \<longleftrightarrow> (\<forall>i e d. cr_ok d \<longrightarrow> (\<exists>r d'. run_state (cc_Stop c i e) (quiet d) = (r, quiet d') \<and> cr_ok d' \<and>
     (\<forall>j. status_on d (j, ControlOperationStop) = Some ControlRequestPending \<longrightarrow> status_on d' (j, ControlOperationStop) = Some ControlRequestPending)))"

text \<open>The request waits for the apply's owner, or it was completed and the apply has stopped or ended.\<close>

definition stop_kept :: "Apply \<Rightarrow> db \<Rightarrow> bool" where
  "stop_kept a d \<longleftrightarrow> cr_ok d \<and> (is_pending d a ControlOperationStop \<or>
     status_on d (apply_ID a, ControlOperationStop) = Some ControlRequestCompleted \<and>
     (\<exists>s. find (\<lambda>x. apply_ID x = apply_ID a) (applies d) = Some s \<and> stopRequestCompletedByApplyState (apply_State s)))"

definition stop_pending :: "Apply \<Rightarrow> db \<Rightarrow> bool" where
  "stop_pending a d \<longleftrightarrow> cr_ok d \<and> is_pending d a ControlOperationStop"

lemma stop_pending_kept: "stop_pending a d \<Longrightarrow> stop_kept a d"
  by (simp add: stop_pending_def stop_kept_def)

lemma quietly_log_kept:
  "quietly (stop_kept a) (logControlOperationForApply x caller event message) (\<lambda>_. stop_kept a)"
  "quietly (stop_pending a) (logControlOperationForApply x caller event message) (\<lambda>_. stop_pending a)"
  by (auto simp: quietly_def logControlOperationForApply_def Append_def Background_def applyLeaseFromContext_def insert_log_def
      stop_kept_def stop_pending_def cr_ok_def status_on_def request_at_def)

lemma quietly_pending_log: "quietly (stop_pending a) (logControlOperationForApply x caller event message) (\<lambda>_. stop_kept a)"
  by (rule quietly_conseq[OF quietly_log_kept(2)]) (auto intro: stop_pending_kept)

lemma quietly_multi: "quietly P (applyHasMultipleOperations x) (\<lambda>_. P)"
  by (auto simp: quietly_def applyHasMultipleOperations_def ListByApply_def run_or_fail)

text \<open>A stop is completed only with the apply in such a state.\<close>

lemma quietly_complete_immediate: "quietly (stop_pending a) (completeImmediateStopRequestIfStopped a) (\<lambda>_. stop_kept a)"
  unfolding quietly_def
proof (intro allI impI)
  fix d assume p: "stop_pending a d"
  let ?found = "find (\<lambda>x. apply_ID x = apply_ID a) (applies d)"
  let ?goal = "\<exists>r d'. run_state (completeImmediateStopRequestIfStopped a) (quiet d) = (r, quiet d') \<and> stop_kept a d'"
  show ?goal
  proof (cases "\<exists>s. ?found = Some s \<and> stopRequestCompletedByApplyState (apply_State s)")
    case False
    then show ?goal using stop_pending_kept[OF p]
      by (cases ?found) (auto simp: completeImmediateStopRequestIfStopped_def run_or_fail Apply_Get_def)
  next
    case True
    then obtain s where s: "?found = Some s" "stopRequestCompletedByApplyState (apply_State s)" by blast
    obtain d' n where set: "settle_pending None (apply_ID a) ControlOperationStop (\<lambda>r. r\<lparr>cr_Status := ControlRequestCompleted\<rparr>) d = Inr (d', n)"
      by (simp add: settle_pending_def update_cr_def)
    then have run: "run_state (CompletePending Background (apply_ID a) ControlOperationStop) (quiet d) = (Inr (), quiet d')" and "applies d' = applies d"
      by (auto simp: CompletePending_def Background_def applyLeaseFromContext_def settle_pending_def update_cr_def)
    moreover have "cr_ok d' \<and> status_on d' (apply_ID a, ControlOperationStop) = Some ControlRequestCompleted"
      using quietly_run[OF quietly_settle(1)[of "stop_pending a" "\<lambda>st. st (apply_ID a, ControlOperationStop) = Some ControlRequestPending"] p run]
      by (auto simp: stop_pending_def quiet_inject)
    ultimately have "stop_kept a d'" using s by (simp add: stop_kept_def)
    then show ?goal using s run by (auto simp: completeImmediateStopRequestIfStopped_def run_or_fail Apply_Get_def)
  qed
qed

lemma quietly_immediate_stop:
  assumes "\<forall>c. client = Some c \<longrightarrow> stop_call_keeps c"
  shows "quietly (stop_pending a) (tryImmediateStopAfterQueue client a ternApplyID environment caller) (\<lambda>_. stop_kept a)"
proof (cases client)
  case None
  then show ?thesis unfolding tryImmediateStopAfterQueue_def Let_def
    by (intro quietly_bind[OF quietly_multi]) (auto intro!: quietly_pending_log quiet_rules intro: stop_pending_kept)
next
  case (Some c)
  have call: "quietly (stop_pending a) (cc_Stop c i e) (\<lambda>_. stop_pending a)" for i e
  proof -
    have "stop_call_keeps c" using assms Some by simp
    then show ?thesis unfolding quietly_def stop_call_keeps_def stop_pending_def by meson
  qed
  have log: "quietly (stop_pending a) (if b then logControlOperationForApply x who event msg else State_Monad.return ()) (\<lambda>_. stop_pending a)" for b x who event msg
    by (auto intro!: quietly_log_kept(2) quiet_rules)
  show ?thesis unfolding tryImmediateStopAfterQueue_def Let_def Some option.case
    by (intro quietly_bind[OF quietly_multi])
      (auto intro!: quietly_pending_log quietly_bind[OF log] quietly_bind[OF quietly_log_kept(2)] quietly_bind[OF call] quietly_bind[OF quietly_complete_immediate] quietly_log_kept(1)
        split: sum.split option.split bool.split)
qed

definition queued_or_ok :: "Apply \<Rightarrow> control_err + 'a \<Rightarrow> db \<Rightarrow> bool" where
  "queued_or_ok a r d \<longleftrightarrow> (case r of Inl e \<Rightarrow> cr_ok d | Inr out \<Rightarrow> stop_pending a d)"

lemma queued_or_ok_simps [simp]: "queued_or_ok a (Inl e) d = cr_ok d" "queued_or_ok a (Inr out) d = stop_pending a d"
  by (simp_all add: queued_or_ok_def)

lemma quietly_queue_stop: "quietly cr_ok (queueStopForApplyOwner ch a caller) (queued_or_ok a)"
proof -
  have found: "quietly cr_ok (pendingControlResponseIfPresent a op k1 k2) (\<lambda>r d. cr_ok d \<and> (\<forall>x. r = Inr (Some x) \<longrightarrow> is_pending d a op))" for op k1 k2
    by (rule quietly_conseq[OF quietly_response[of "\<lambda>_. True"]]) (auto simp: given_def)
  have read: "quietly cr_ok (GetByApplyID ci i) (\<lambda>_. cr_ok)" for ci i
    unfolding GetByApplyID_def by (rule quietly_query)
  have req: "quietly cr_ok (request_counts a ControlOperationStop who k1 k2 fresh n skipped) (queued_or_ok a)" for who k1 k2 fresh n skipped
    by (rule quietly_conseq[OF quietly_request_counts[of "\<lambda>_. True"]])
      (auto simp: given_def requested_def queued_or_ok_def stop_pending_def split: sum.split)
  show ?thesis unfolding queueStopForApplyOwner_def
    by (rule quietly_and_then[OF found])
      (auto simp: stop_pending_def split: option.split prod.split intro!: quiet_rules quietly_or_internal[OF read] req)
qed

definition stop_done :: "Apply \<Rightarrow> control_err + ControlAnswer \<Rightarrow> db \<Rightarrow> bool" where
  "stop_done a r d \<longleftrightarrow> cr_ok d \<and> (case r of Inl e \<Rightarrow> True | Inr ans \<Rightarrow> stop_kept a d)"

lemma quietly_execute_stop:
  assumes "\<forall>c. client = Some c \<longrightarrow> stop_call_keeps c"
  shows "quietly cr_ok (executeStopForApply ch client a ternApplyID environment caller) (stop_done a)"
proof -
  have kept: "stop_kept a d \<Longrightarrow> stop_done a (Inr ans) d" for ans d by (simp add: stop_done_def stop_kept_def)
  have immediate: "quietly (stop_pending a) (if b then State_Monad.return () else tryImmediateStopAfterQueue client a ternApplyID environment who)
      (\<lambda>_. stop_kept a)" for b who
    using quietly_immediate_stop[OF assms] by (auto intro!: quiet_rules intro: stop_pending_kept)
  have answer: "quietly (stop_pending a)
      (if b then do { _ \<leftarrow> logControlOperationForApply a who event msg;
                      _ \<leftarrow> (if b' then State_Monad.return () else tryImmediateStopAfterQueue client a ternApplyID environment who);
                      proceed ans }
       else proceed ans) (stop_done a)" for b b' who event msg ans
  proof (cases b)
    case True
    show ?thesis unfolding if_P[OF True]
      by (rule quietly_bind[OF quietly_log_kept(2)], rule quietly_bind[OF immediate], rule quietly_proceed) (rule kept)
  next
    case False
    then show ?thesis by (auto intro!: quietly_proceed kept stop_pending_kept)
  qed
  have after: "quietly (queued_or_ok a (Inr (x :: (bool \<times> string \<times> int \<times> int) \<times> string)))
      (if b then do { _ \<leftarrow> logControlOperationForApply a who event msg;
                      _ \<leftarrow> (if b' then State_Monad.return () else tryImmediateStopAfterQueue client a ternApplyID environment who);
                      proceed ans }
       else proceed ans) (stop_done a)" for x b b' who event msg ans
    by (rule quietly_conseq[OF answer]) (simp_all only: queued_or_ok_simps)
  show ?thesis
  proof (cases "apply_Engine a = EnginePlanetScale")
    case True
    show ?thesis unfolding executeStopForApply_def Let_def if_P[OF True] by (rule quietly_stop) (simp add: stop_done_def)
  next
    case False
    show ?thesis unfolding executeStopForApply_def Let_def if_not_P[OF False]
    proof (rule quietly_and_then[OF quietly_queue_stop])
      show "queued_or_ok a (Inl e :: control_err + (bool \<times> string \<times> int \<times> int) \<times> string) d \<Longrightarrow> stop_done a (Inl e) d" for e d
        by (simp add: stop_done_def)
    qed (unfold split_beta, rule after)
  qed
qed


section \<open>From the request to the apply\<close>

text \<open>The apply that a request names.\<close>

definition named_apply :: "ControlHost \<Rightarrow> db \<Rightarrow> string \<Rightarrow> string \<Rightarrow> Apply \<Rightarrow> bool" where
  "named_apply ch d applyIdentifier environment a \<longleftrightarrow>
    find (\<lambda>x. h_ci (ct_host ch) (apply_Identifier x) = h_ci (ct_host ch) applyIdentifier) (applies d) = Some a \<and> apply_Environment a = environment"

lemma controlTarget_quiet:
  "snd (run_state (controlTarget ch s i env) (quiet d)) = quiet d \<and>
    (case fst (run_state (controlTarget ch s i env) (quiet d)) of
       Inl out \<Rightarrow> True | Inr (client, a, tern, s') \<Rightarrow> named_apply ch d i env a \<and> (\<exists>ref. client = ct_client ch ref))"
proof -
  let ?found = "find (\<lambda>x. h_ci (ct_host ch) (apply_Identifier x) = h_ci (ct_host ch) i) (applies d)"
  have run: "run_state (GetByApplyIdentifier (h_ci (ct_host ch)) i) (quiet d) = (Inr ?found, quiet d)"
    by (simp add: GetByApplyIdentifier_def)
  show ?thesis
  proof (cases ?found)
    case None
    then show ?thesis by (simp add: controlTarget_def run)
  next
    case (Some a)
    obtain x b where made: "TernClient (h_newLocal (ct_host ch)) (h_newGRPC (ct_host ch)) (ct_config ch) s (apply_Deployment a) (apply_Environment a) = (x, b)"
      by fastforce
    show ?thesis by (cases x) (auto simp: controlTarget_def run Some made named_apply_def storedDeploymentForApply_def)
  qed
qed

lemma on_target_quiet:
  assumes "P d" and "\<And>ref a tern. quietly P (f (ct_client ch ref) a tern) (Q a)"
    and "run_state (on_target ch s i env f) (quiet d) = ((r, s'), w)"
  shows "\<exists>d'. w = quiet d' \<and> (d' = d \<and> (\<exists>e. r = Inl e) \<or> (\<exists>a. named_apply ch d i env a \<and> Q a r d'))"
proof -
  obtain t where run: "run_state (controlTarget ch s i env) (quiet d) = (t, quiet d)"
    using controlTarget_quiet[of ch s i env d] by (cases "run_state (controlTarget ch s i env) (quiet d)") simp
  note t = run controlTarget_quiet[of ch s i env d, THEN conjunct2, unfolded run fst_conv]
  show ?thesis
  proof (cases t)
    case (Inl out)
    then show ?thesis using assms(3) t by (cases out) (auto simp: on_target_def)
  next
    case (Inr out)
    obtain client a tern s1 where out: "out = (client, a, tern, s1)" by (cases out)
    then obtain ref where ref: "client = ct_client ch ref" "named_apply ch d i env a" using t(2) Inr by auto
    obtain r1 d' where r1: "run_state (f client a tern) (quiet d) = (r1, quiet d')" "Q a r1 d'"
      using assms(1,2) unfolding ref(1) quietly_def by blast
    have "r = r1 \<and> w = quiet d'" using assms(3) t Inr out r1(1) by (simp add: on_target_def)
    then show ?thesis using ref(2) r1(2) by auto
  qed
qed

section \<open>Properties\<close>

text \<open>A remote engine that has stopped, and accepts whatever is asked.\<close>

definition example_client :: ControlClient where
  "example_client = \<lparr>cc_IsRemote = True, cc_Progress = (\<lambda>_ _. State_Monad.return (Inr (STATE_STOPPED, [''stopped'']))),
     cc_Stop = (\<lambda>_ _. State_Monad.return (Inr (Some (True, '''')))), cc_Cancel = (\<lambda>_ _. State_Monad.return (Inr (Some (True, '''')))),
     cc_Revert = (\<lambda>_ _. State_Monad.return (Inl (Errorf ''connection lost''))), cc_SkipRevert = (\<lambda>_ _. State_Monad.return (Inr (True, ''''))),
     cc_Volume = (\<lambda>_ _ v. State_Monad.return (Inr (True, '''', 3, v)))\<rparr>"

definition example_control :: ControlHost where
  "example_control = \<lparr>ct_host = example_host, ct_config = example_config, ct_client = (\<lambda>_. example_client),
     ct_engine = documented_engine_strings, ct_hasOptions = (\<lambda>_. False)\<rparr>"

text \<open>An apply at a remote engine, with a stop requested.\<close>

definition stopping_db :: db where
  "stopping_db = empty_db\<lparr>applies := [example_apply\<lparr>apply_Deployment := ''eu'', apply_ExternalID := ''remote_1''\<rparr>],
     tasks := [example_task\<lparr>task_Environment := ''production'', task_Shard := ''''\<rparr>],
     control_requests := [(example_request ControlOperationStop ''alice'')\<lparr>cr_ID := 1, cr_Status := ControlRequestPending\<rparr>],
     control_requests_next := 2\<rparr>"

lemma stopping_db_ok: "cr_ok stopping_db"
  by (simp add: cr_ok_def stopping_db_def example_request_def cr_key_def)

lemma example_client_reads: "reads_remotely (ct_client example_control ref)"
  by (simp add: reads_remotely_def example_control_def example_client_def)

lemma example_client_stop: "stop_call_keeps (ct_client example_control ref)"
  by (auto simp: stop_call_keeps_def example_control_def example_client_def)

text \<open>
  Property C6 (an accepted start is not contradicted).  When a start command on the API is answered as
  accepted, the apply was in a state that may be started, its start request is pending for the
  operator, and neither a stop nor a cancel of it is pending: a stop that has taken effect was settled
  before, one that has not refuses the start.  Progress calls to a remote engine leave the store.
\<close>

theorem accepted_start_unblocked:
  assumes "cr_ok d" and "\<forall>ref. reads_remotely (ct_client ch ref)"
    and "run_state (Execute ch s Start applyIdentifier environment caller) (quiet d) = ((Inr ans, s'), w)" and "ca_Accepted ans"
  shows "\<exists>a d'. named_apply ch d applyIdentifier environment a \<and> w = quiet d' \<and> isStartRequestAllowedState (apply_State a) \<and>
    status_on d' (apply_ID a, ControlOperationStart) = Some ControlRequestPending \<and>
    status_on d' (apply_ID a, ControlOperationStop) \<noteq> Some ControlRequestPending \<and>
    status_on d' (apply_ID a, ControlOperationCancel) \<noteq> Some ControlRequestPending"
proof -
  have "quietly cr_ok (execute_on ch Start caller (ct_client ch ref) a tern) (start_done a)" for ref a tern
    using quietly_start assms(2) by (simp add: execute_on_def)
  from on_target_quiet[OF assms(1) this assms(3)[unfolded Execute_def]] assms(4) show ?thesis
    by (auto simp: start_done_def)
qed

theorem accepted_start_unblocked_witness:
  "\<exists>ans s' a d'. run_state (Execute example_control example_service Start ''apply_7'' ''production'' ''bob'') (quiet stopping_db) =
      ((Inr ans, s'), quiet d') \<and> ca_Accepted ans \<and> named_apply example_control stopping_db ''apply_7'' ''production'' a \<and>
    status_on stopping_db (7, ControlOperationStop) = Some ControlRequestPending \<and>
    status_on d' (apply_ID a, ControlOperationStart) = Some ControlRequestPending \<and>
    status_on d' (apply_ID a, ControlOperationStop) \<noteq> Some ControlRequestPending"
proof -
  let ?run = "run_state (Execute example_control example_service Start ''apply_7'' ''production'' ''bob'') (quiet stopping_db)"
  have ok: "(case fst (fst ?run) of Inl e \<Rightarrow> False | Inr ans \<Rightarrow> ca_Accepted ans)"
    and before: "status_on stopping_db (7, ControlOperationStop) = Some ControlRequestPending"
    by code_simp+
  obtain r s' w where run: "?run = ((r, s'), w)" by (metis prod.collapse)
  with ok obtain ans where r: "r = Inr ans" "ca_Accepted ans" by (cases r) auto
  show ?thesis
    using accepted_start_unblocked[OF stopping_db_ok _ run[unfolded r(1)] r(2)] example_client_reads before run r by blast
qed

text \<open>
  Property C5 (an accepted stop is never lost).  When a stop command on the API is answered without an error,
  then its request waits for the driver of the apply, or it was completed because the stored
  apply has stopped or ended: whether the engine was reached, refused or failed.  The stop
  call of the engine client settles no pending stop itself.
\<close>

theorem accepted_stop_never_lost:
  assumes "cr_ok d" and "\<forall>ref. stop_call_keeps (ct_client ch ref)"
    and "run_state (Execute ch s Stop applyIdentifier environment caller) (quiet d) = ((Inr ans, s'), w)"
  shows "\<exists>a d'. named_apply ch d applyIdentifier environment a \<and> w = quiet d' \<and>
    (status_on d' (apply_ID a, ControlOperationStop) = Some ControlRequestPending \<or>
     status_on d' (apply_ID a, ControlOperationStop) = Some ControlRequestCompleted \<and>
     (\<exists>stored. find (\<lambda>x. apply_ID x = apply_ID a) (applies d') = Some stored \<and> stopRequestCompletedByApplyState (apply_State stored)))"
proof -
  have "quietly cr_ok (execute_on ch Stop caller (ct_client ch ref) a tern) (stop_done a)" for ref a tern
    using quietly_execute_stop assms(2) by (simp add: execute_on_def)
  from on_target_quiet[OF assms(1) this assms(3)[unfolded Execute_def]] show ?thesis
    by (auto simp: stop_done_def stop_kept_def)
qed

theorem accepted_stop_never_lost_witness:
  "\<exists>ans s' a d'. run_state (Execute example_control example_service Stop ''apply_7'' ''production'' ''bob'')
      (quiet (stopping_db\<lparr>control_requests := []\<rparr>)) = ((Inr ans, s'), quiet d') \<and>
    named_apply example_control stopping_db ''apply_7'' ''production'' a \<and>
    status_on d' (apply_ID a, ControlOperationStop) = Some ControlRequestPending"
proof -
  let ?d = "stopping_db\<lparr>control_requests := []\<rparr>"
  let ?run = "run_state (Execute example_control example_service Stop ''apply_7'' ''production'' ''bob'') (quiet ?d)"
  have facts: "\<not> isl (fst (fst ?run))" "\<not> stopRequestCompletedByApplyState (apply_State (hd (applies (w_db (snd ?run)))))"
     "map apply_ID (applies (w_db (snd ?run))) = [7]" by code_simp+
  obtain r s' w where run: "?run = ((r, s'), w)" by (metis prod.collapse)
  with facts(1) obtain ans where r: "r = Inr ans" by (cases r) auto
  have "cr_ok ?d" by (simp add: cr_ok_def)
  from accepted_stop_never_lost[OF this _ run[unfolded r]] example_client_stop obtain a d' where
    a: "named_apply example_control ?d ''apply_7'' ''production'' a" "w = quiet d'"
      "status_on d' (apply_ID a, ControlOperationStop) = Some ControlRequestPending \<or>
       (\<exists>stored. find (\<lambda>x. apply_ID x = apply_ID a) (applies d') = Some stored \<and> stopRequestCompletedByApplyState (apply_State stored))" by blast
  obtain x where "applies d' = [x]" "\<not> stopRequestCompletedByApplyState (apply_State x)" using facts(2,3) run a(2) by auto
  with a(3) have "status_on d' (apply_ID a, ControlOperationStop) = Some ControlRequestPending" by (auto split: if_splits)
  with a(1,2) run r show ?thesis by (auto simp: named_apply_def)
qed

end
