(* ===== verification/Control_Intents.thy ===== *)
theory Control_Intents
  imports Control_Safety
begin

text \<open>
  Two further promises of the control operations: revert and skip-revert of an apply are never pending
  together, whatever commands follow each other, and a rollback is planned only from the latest
  completed change.
\<close>

section \<open>Contrary intents\<close>

definition uncontradicted :: "(int \<times> string \<Rightarrow> string option) \<Rightarrow> bool" where
  "uncontradicted st \<longleftrightarrow> (\<forall>i. \<not> (st (i, ControlOperationRevert) = Some ControlRequestPending \<and> st (i, ControlOperationSkipRevert) = Some ControlRequestPending))"

text \<open>A step that requests neither.\<close>

definition adds_no_intent :: "db \<Rightarrow> db \<Rightarrow> bool" where
  "adds_no_intent d d' \<longleftrightarrow> (\<forall>i op. op = ControlOperationRevert \<or> op = ControlOperationSkipRevert \<longrightarrow>
     status_on d' (i, op) = Some ControlRequestPending \<longrightarrow> status_on d (i, op) = Some ControlRequestPending)"

lemma adds_no_intent_uncontradicted: "adds_no_intent d d' \<Longrightarrow> uncontradicted (status_on d) \<Longrightarrow> uncontradicted (status_on d')"
  unfolding adds_no_intent_def uncontradicted_def by blast

text \<open>A call of an engine client in a quiet world.\<close>

definition harmless :: "'a prog \<Rightarrow> bool" where
  "harmless p \<longleftrightarrow> (\<forall>d. cr_ok d \<longrightarrow> (\<exists>r d'. run_state p (quiet d) = (r, quiet d') \<and> cr_ok d' \<and> adds_no_intent d d'))"

definition client_harmless :: "ControlClient \<Rightarrow> bool" where
  "client_harmless c \<longleftrightarrow> (\<forall>i e v. harmless (cc_Progress c i e) \<and> harmless (cc_Stop c i e) \<and> harmless (cc_Cancel c i e) \<and>
     harmless (cc_Revert c i e) \<and> harmless (cc_SkipRevert c i e) \<and> harmless (cc_Volume c i e v))"

definition kept :: "(world, 'a) state \<Rightarrow> bool" where
  "kept p \<longleftrightarrow> quietly (given uncontradicted) p (\<lambda>_. given uncontradicted)"

named_theorems kept_rules

lemma kept_return [kept_rules]: "kept (State_Monad.return x)" "kept (proceed y)" "kept (stop_with z)"
  by (auto simp: kept_def intro!: quiet_rules)

lemma kept_bind [kept_rules]: "kept m \<Longrightarrow> (\<And>x. kept (f x)) \<Longrightarrow> kept (State_Monad.bind m f)"
  unfolding kept_def by (rule quietly_bind)

lemma kept_and_then [kept_rules]: "kept m \<Longrightarrow> (\<And>x. kept (f x)) \<Longrightarrow> kept (and_then m f)"
  unfolding kept_def by (rule quietly_and_then)

lemma kept_or_internal [kept_rules]: "kept m \<Longrightarrow> (\<And>x. kept (f x)) \<Longrightarrow> kept (or_internal msg m f)"
  unfolding kept_def by (rule quietly_or_internal)

lemma kept_or_fail [kept_rules]: "kept m \<Longrightarrow> (\<And>x. kept (f x)) \<Longrightarrow> kept (or_fail msg m f)"
  unfolding kept_def by (rule quietly_or_fail)

text \<open>Case distinctions of the programs.\<close>

lemma kept_cases [kept_rules]:
  "kept p \<Longrightarrow> kept q \<Longrightarrow> kept (if b then p else q)"
  "kept p \<Longrightarrow> (\<And>x. kept (f x)) \<Longrightarrow> kept (case u of None \<Rightarrow> p | Some x \<Rightarrow> f x)"
  "(\<And>x. kept (g x)) \<Longrightarrow> (\<And>x. kept (f x)) \<Longrightarrow> kept (case v of Inl x \<Rightarrow> g x | Inr x \<Rightarrow> f x)"
  "(\<And>x y. kept (h x y)) \<Longrightarrow> kept (case w of (x, y) \<Rightarrow> h x y)"
  by (simp_all split: option.split sum.split prod.split)

lemma kept_bool [kept_rules]: "kept p \<Longrightarrow> kept q \<Longrightarrow> kept (case b of True \<Rightarrow> p | False \<Rightarrow> q)"
  by (simp split: bool.split)

lemma kept_readiness [kept_rules]: "kept p \<Longrightarrow> kept q \<Longrightarrow> kept r \<Longrightarrow> kept s \<Longrightarrow>
    kept (case b of cutoverRequestNotReady \<Rightarrow> p | cutoverRequestReady \<Rightarrow> q | cutoverRequestAlreadyInProgress \<Rightarrow> r | cutoverRequestRecovering \<Rightarrow> s)"
  by (simp split: cutoverRequestReadiness.split)

text \<open>The store.\<close>

lemma kept_query [kept_rules]: "kept (QueryContext q)"
  unfolding kept_def by (rule quietly_query)

lemma kept_log [kept_rules]: "kept (logControlOperationForApply a caller event message)"
  unfolding kept_def by (rule quietly_log_given)

lemma kept_reads [kept_rules]:
  "kept (GetPending i op)" "kept (GetByOperation i op)" "kept (GetByApplyID ci i)" "kept (ListByApply i)" "kept (Apply_Get i)"
  unfolding GetPending_def GetByOperation_def GetByApplyID_def ListByApply_def Apply_Get_def by (intro kept_rules)+

lemma settled_uncontradicted: "uncontradicted st \<Longrightarrow> s \<noteq> ControlRequestPending \<Longrightarrow> uncontradicted (st(k \<mapsto> s))"
  by (auto simp: uncontradicted_def)

lemma requested_uncontradicted:
  "uncontradicted st \<Longrightarrow> op \<noteq> ControlOperationRevert \<Longrightarrow> op \<noteq> ControlOperationSkipRevert \<Longrightarrow> uncontradicted (st((i, op) \<mapsto> s))"
  by (simp add: uncontradicted_def)

lemma kept_settle [kept_rules]: "kept (CompletePending Background i op)" "kept (FailPending Background i op msg)"
proof -
  show "kept (CompletePending Background i op)" unfolding kept_def
    by (rule quietly_conseq[OF quietly_settle(1)[of "given uncontradicted" uncontradicted]]) (auto simp: given_def intro!: settled_uncontradicted)
  show "kept (FailPending Background i op msg)" unfolding kept_def
    by (rule quietly_conseq[OF quietly_settle(2)[of "given uncontradicted" uncontradicted]]) (auto simp: given_def intro!: settled_uncontradicted)
qed

lemma kept_request:
  assumes "op \<noteq> ControlOperationRevert" and "op \<noteq> ControlOperationSkipRevert"
  shows "kept (RequestPending (new_request a op caller metadata))"
  unfolding kept_def
  by (rule quietly_conseq[OF quietly_request_given[of uncontradicted]]) (use assms in \<open>auto simp: given_def requested_def intro!: requested_uncontradicted\<close>)

lemma kept_mark [kept_rules]: "apply_State a = Apply_Stopped \<Longrightarrow> kept (Apply_Update sha ci Background a hasOptions)"
  unfolding kept_def by (rule quietly_mark_stopped[OF given_on_requests])

lemma kept_call: "harmless p \<Longrightarrow> kept p"
  unfolding kept_def quietly_def harmless_def given_def by (meson adds_no_intent_uncontradicted)


section \<open>Every handler\<close>

lemma kept_operations_read [kept_rules]: "kept (applyHasMultipleOperations a)"
  unfolding applyHasMultipleOperations_def by (intro kept_rules)

lemma kept_reject [kept_rules]: "kept (rejectControlIfStopPending name a)"
  unfolding rejectControlIfStopPending_def Let_def by (intro kept_rules)

lemma kept_found [kept_rules]: "kept (pendingControlResponseIfPresent a op k1 k2)"
  unfolding pendingControlResponseIfPresent_def by (intro kept_rules)

lemma kept_create: "op \<noteq> ControlOperationRevert \<Longrightarrow> op \<noteq> ControlOperationSkipRevert \<Longrightarrow> kept (createControlRequest a op caller metadata)"
  unfolding createControlRequest_def by (intro kept_rules kept_request)

lemma kept_counts:
  "op \<noteq> ControlOperationRevert \<Longrightarrow> op \<noteq> ControlOperationSkipRevert \<Longrightarrow> kept (request_counts a op caller k1 k2 fresh n skipped)"
  unfolding request_counts_def by (intro kept_rules kept_create)

lemma kept_requests [kept_rules]:
  "kept (request_counts a ControlOperationStop caller k1 k2 fresh n skipped)"
  "kept (request_counts a ControlOperationCancel caller k1 k2 fresh n skipped)"
  "kept (request_counts a ControlOperationStart caller k1 k2 fresh n skipped)"
  "kept (createControlRequest a ControlOperationRelease caller metadata)"
  "kept (RequestPending (new_request a ControlOperationCutover caller metadata))"
  by (intro kept_counts kept_create kept_request; simp)+

lemma kept_calls:
  assumes "client_harmless client"
  shows "kept (cc_Progress client i e)" "kept (cc_Stop client i e)" "kept (cc_Cancel client i e)"
    "kept (cc_Revert client i e)" "kept (cc_SkipRevert client i e)" "kept (cc_Volume client i e v)"
  using assms by (simp_all add: client_harmless_def kept_call)

lemma kept_readiness_read:
  assumes "client_harmless client"
  shows "kept (cutover_readiness ch (Some client) a tern multiOp)"
  unfolding cutover_readiness_def Let_def option.case
  by (cases "cc_IsRemote client"; cases multiOp; cases "tern = ''''"; simp only: if_True if_False option.case simp_thms;
      intro kept_rules kept_calls[OF assms])

lemma kept_cutover:
  assumes "client_harmless client"
  shows "kept (executeCutoverForApply ch (Some client) a tern caller)"
  unfolding executeCutoverForApply_def Let_def by (intro kept_rules kept_readiness_read[OF assms])

lemma kept_stop:
  assumes "client_harmless client"
  shows "kept (executeStopForApply ch (Some client) a tern environment caller)"
  unfolding executeStopForApply_def queueStopForApplyOwner_def tryImmediateStopAfterQueue_def completeImmediateStopRequestIfStopped_def Let_def option.case
  by (intro kept_rules kept_calls[OF assms])

lemma kept_cancel:
  assumes "client_harmless client"
  shows "kept (executeCancelForApply ch (Some client) a caller)"
  unfolding executeCancelForApply_def queueCancelForApplyOwner_def tryImmediateCancel_def completeImmediateCancelRequestIfCancelled_def Let_def option.case
  by (intro kept_rules kept_calls[OF assms])

lemma kept_start:
  assumes "client_harmless client"
  shows "kept (executeStartForApply ch client a caller)"
  unfolding executeStartForApply_def completeResolvedStopBeforeStart_def queue_start_def persistStartRequestForOperator_def
    queueRemoteStoppedApplyForOperator_def queueStoppedApplyForOperator_def ensureStoredApplyStoppedForStartClaim_def
    pendingStartResponseIfPresent_def Let_def
  by (intro kept_rules kept_calls[OF assms]; simp)

lemma kept_release: "kept (executeReleaseForApply ch a caller)"
  unfolding executeReleaseForApply_def validateReleaseRequestState_def releaseAlreadyLatched_def acceptedReleaseResponse_def Let_def
  by (intro kept_rules)

lemma kept_volume:
  assumes "client_harmless client"
  shows "kept (executeVolumeForApply ch client a tern caller volume)"
  unfolding executeVolumeForApply_def by (intro kept_rules kept_calls[OF assms])


text \<open>The two intents themselves check for the contrary one first.\<close>

lemma kept_window:
  assumes "(op, opposite) = (ControlOperationRevert, ControlOperationSkipRevert) \<or> (op, opposite) = (ControlOperationSkipRevert, ControlOperationRevert)"
    and "kept call" and "kept onAccept"
  shows "kept (execute_window ch op opposite event refused call onAccept a caller)"
proof -
  let ?free = "\<lambda>st. uncontradicted st \<and> st (apply_ID a, opposite) \<noteq> Some ControlRequestPending"
  have add: "uncontradicted (st((apply_ID a, op) \<mapsto> ControlRequestPending))" if "?free st" for st
    using assms(1) that by (auto simp: uncontradicted_def)
  have request: "quietly (given ?free) (RequestPending (new_request a op who '''')) (\<lambda>_. given uncontradicted)" for who
    by (rule quietly_conseq[OF quietly_request_given[of ?free]]) (auto simp: given_def requested_def intro!: add)
  have check: "quietly (given uncontradicted) (GetPending (apply_ID a) opposite)
      (\<lambda>r d. given uncontradicted d \<and> (r = Inr None \<longrightarrow> given ?free d))"
    by (rule quietly_conseq[OF quietly_get_given[of uncontradicted]]) (auto simp: given_def)
  have found: "quietly (\<lambda>d. given uncontradicted d \<and> (Inr contrary = Inr None \<longrightarrow> given ?free d)) (if contrary \<noteq> None then stop_with e else p) (\<lambda>_. given uncontradicted)"
    if "quietly (given ?free) p (\<lambda>_. given uncontradicted)" for contrary :: "ApplyControlRequest option" and e :: control_err and p :: "ControlAnswer ctl"
    using that by (cases contrary) (auto intro!: quiet_rules elim: quietly_conseq)
  show ?thesis unfolding execute_window_def Let_def
    apply (intro kept_cases(1) kept_return(3))
    unfolding kept_def
    apply (rule quietly_or_internal[OF check])
    apply (rule found)
    apply (rule quietly_or_internal[OF request])
    apply (unfold kept_def[symmetric])
    by (intro kept_rules assms(2,3) | simp)+
qed

lemma kept_skip [kept_rules]: "kept (SetRevertSkipped i time)"
  unfolding SetRevertSkipped_def
proof (intro kept_rules)
  show "kept (ExecContext (update_applies (\<lambda>d a. apply_ID a = i) (\<lambda>d a. a\<lparr>apply_RevertSkippedAt := Some time\<rparr>)))"
    using given_on_requests[of uncontradicted] unfolding kept_def quietly_def on_requests_def
    by (force simp: update_applies_def Let_def)
qed

lemma kept_execute:
  assumes "client_harmless client"
  shows "kept (execute_on ch cmd caller client a tern)"
  unfolding execute_on_def executeRevertForApply_def executeSkipRevertForApply_def
  by (cases cmd; simp only: control_command.case;
      intro kept_and_then kept_reject kept_cutover kept_stop kept_cancel kept_start kept_release kept_window kept_calls kept_return kept_skip assms; simp)


section \<open>Sequences of commands\<close>

text \<open>
  The stores that commands of the API lead to, and the drivers' steps between them, which settle
  requests and record neither intent.
\<close>

inductive commands_lead :: "ControlHost \<Rightarrow> db \<Rightarrow> db \<Rightarrow> bool" for ch where
  none: "commands_lead ch d d"
| command: "commands_lead ch d d1 \<Longrightarrow> run_state (Execute ch s cmd applyIdentifier environment caller) (quiet d1) = (out, quiet d2) \<Longrightarrow>
    commands_lead ch d d2"
| volume: "commands_lead ch d d1 \<Longrightarrow> run_state (ExecuteVolume ch s applyIdentifier environment caller v) (quiet d1) = (out', quiet d2) \<Longrightarrow>
    commands_lead ch d d2"
| driver: "commands_lead ch d d1 \<Longrightarrow> cr_ok d2 \<Longrightarrow> adds_no_intent d1 d2 \<Longrightarrow> commands_lead ch d d2"

lemma kept_run: "kept p \<Longrightarrow> given uncontradicted d \<Longrightarrow> run_state p (quiet d) = (r, quiet d') \<Longrightarrow> given uncontradicted d'"
  unfolding kept_def using quietly_run by (metis quiet_inject)

lemma kept_command:
  assumes "\<And>ref. client_harmless (ct_client ch ref)"
  shows "kept (Execute ch s cmd i env caller)"
  unfolding kept_def quietly_def
proof (intro allI impI)
  fix d assume d: "given uncontradicted d"
  have each: "quietly (given uncontradicted) (execute_on ch cmd caller (ct_client ch ref) a tern) (\<lambda>_. given uncontradicted)" for ref a tern
    using kept_execute[OF assms] by (simp add: kept_def)
  obtain r s' w where run: "run_state (Execute ch s cmd i env caller) (quiet d) = ((r, s'), w)" by (metis prod.collapse)
  from on_target_quiet[OF d each run[unfolded Execute_def]] obtain d' where "w = quiet d'" "given uncontradicted d'" using d by blast
  with run show "\<exists>r d'. run_state (Execute ch s cmd i env caller) (quiet d) = (r, quiet d') \<and> given uncontradicted d'" by blast
qed

lemma kept_volume_command:
  assumes "\<And>ref. client_harmless (ct_client ch ref)"
  shows "kept (ExecuteVolume ch s i env caller v)"
proof (cases "v < MinVolume \<or> MaxVolume < v")
  case True
  then show ?thesis unfolding ExecuteVolume_def if_P[OF True] by (intro kept_rules)
next
  case False
  let ?target = "\<lambda>t d. given uncontradicted d \<and> (case t of Inl out \<Rightarrow> True | Inr (client, a, tern, s') \<Rightarrow> \<exists>ref. client = ct_client ch ref)"
  have found: "quietly (given uncontradicted) (controlTarget ch s i env) ?target"
    unfolding quietly_def
  proof (intro allI impI)
    fix d assume d: "given uncontradicted d"
    obtain t where run: "run_state (controlTarget ch s i env) (quiet d) = (t, quiet d)"
      using controlTarget_quiet[of ch s i env d] by (cases "run_state (controlTarget ch s i env) (quiet d)") simp
    then have "?target t d" using controlTarget_quiet[of ch s i env d] d by (auto split: sum.split prod.split)
    with run show "\<exists>r d'. run_state (controlTarget ch s i env) (quiet d) = (r, quiet d') \<and> ?target r d'" by blast
  qed
  have adjust: "quietly (given uncontradicted) (do { r \<leftarrow> executeVolumeForApply ch (ct_client ch ref) a tern caller v; State_Monad.return (r, s') })
      (\<lambda>_. given uncontradicted)" for ref a tern and s' :: Service
    unfolding kept_def[symmetric] by (intro kept_rules kept_volume assms)
  have rest: "quietly (?target t) (case t of Inl (e, s') \<Rightarrow> State_Monad.return (Inl e, s')
      | Inr (client, a, tern, s') \<Rightarrow> do { r \<leftarrow> executeVolumeForApply ch client a tern caller v; State_Monad.return (r, s') }) (\<lambda>_. given uncontradicted)"
    for t :: "control_err \<times> Service + ControlClient \<times> Apply \<times> string \<times> Service"
  proof (cases t)
    case (Inl out)
    then show ?thesis by (cases out) (auto intro!: quiet_rules)
  next
    case (Inr out)
    obtain client a tern s' where out: "out = (client, a, tern, s')" by (cases out)
    show ?thesis
    proof (cases "\<exists>ref. client = ct_client ch ref")
      case True
      then obtain ref where ref: "client = ct_client ch ref" ..
      show ?thesis unfolding Inr out sum.case prod.case ref by (rule quietly_conseq[OF adjust]) simp_all
    qed (auto simp: Inr out quietly_def)
  qed
  show ?thesis unfolding ExecuteVolume_def if_not_P[OF False] kept_def by (rule quietly_bind[OF found rest])
qed

lemma commands_keep:
  assumes "commands_lead ch d d'" and "\<And>ref. client_harmless (ct_client ch ref)" and "given uncontradicted d"
  shows "given uncontradicted d'"
  using assms(1,3)
proof induction
  case (command d1 s cmd i env caller out d2)
  then show ?case using kept_run[OF kept_command[OF assms(2)]] by blast
next
  case (volume d1 s i env caller v out' d2)
  then show ?case using kept_run[OF kept_volume_command[OF assms(2)]] by blast
next
  case (driver d1 d2)
  then show ?case using adds_no_intent_uncontradicted by (auto simp: given_def)
qed


section \<open>The source of a rollback\<close>

lemma completed_after_trans: "rollbackTaskCompletedAfter x y \<Longrightarrow> rollbackTaskCompletedAfter y z \<Longrightarrow> rollbackTaskCompletedAfter x z"
  by (auto simp: rollbackTaskCompletedAfter_def split: option.splits)

lemma completed_after_irrefl: "\<not> rollbackTaskCompletedAfter x x"
  by (auto simp: rollbackTaskCompletedAfter_def split: option.splits)

lemma not_completed_after_trans: "\<not> rollbackTaskCompletedAfter x y \<Longrightarrow> \<not> rollbackTaskCompletedAfter y z \<Longrightarrow> \<not> rollbackTaskCompletedAfter x z"
  by (auto simp: rollbackTaskCompletedAfter_def split: option.splits)

lemma latest_task_maximal:
  assumes "latest_task dbType environment latest ts = Some t"
    and "\<And>l. latest = Some l \<Longrightarrow> rollbackTaskMatchesPlannerScope l dbType environment"
  shows "rollbackTaskMatchesPlannerScope t dbType environment \<and> (latest = Some t \<or> t \<in> set ts) \<and>
    (\<forall>x\<in>set ts. rollbackTaskMatchesPlannerScope x dbType environment \<longrightarrow> \<not> rollbackTaskCompletedAfter x t) \<and>
    (\<forall>l. latest = Some l \<longrightarrow> \<not> rollbackTaskCompletedAfter l t)"
  using assms
proof (induction dbType environment latest ts rule: latest_task.induct)
  case (1 dbType environment latest)
  then show ?case by (auto simp: completed_after_irrefl)
next
  case (2 dbType environment latest x ts)
  let ?m = "\<lambda>x. rollbackTaskMatchesPlannerScope x dbType environment"
  let ?next = "if ?m x \<and> latest = None then Some x
       else if ?m x \<and> (case latest of None \<Rightarrow> False | Some l \<Rightarrow> rollbackTaskCompletedAfter x l) then Some x else latest"
  have next_ok: "?m l" if "?next = Some l" for l using that 2(3) by (auto split: if_splits)
  have IH: "?m t \<and> (?next = Some t \<or> t \<in> set ts) \<and> (\<forall>y\<in>set ts. ?m y \<longrightarrow> \<not> rollbackTaskCompletedAfter y t) \<and>
      (\<forall>l. ?next = Some l \<longrightarrow> \<not> rollbackTaskCompletedAfter l t)"
    by (rule 2(1)[OF 2(2)[unfolded latest_task.simps] next_ok])
  show ?case
  proof (cases "?next = Some x")
    case True
    have "\<not> rollbackTaskCompletedAfter l t" if "latest = Some l" for l
      using IH True that completed_after_trans[of x l t] by (auto split: if_splits)
    then show ?thesis using IH True by auto
  next
    case False
    have "\<not> rollbackTaskCompletedAfter x t" if m: "?m x"
    proof -
      obtain l where l: "latest = Some l" "\<not> rollbackTaskCompletedAfter x l" using False m by (auto split: if_splits option.splits)
      then have "\<not> rollbackTaskCompletedAfter l t" using IH by simp
      with l(2) show ?thesis by (rule not_completed_after_trans)
    qed
    then show ?thesis using IH False by (auto split: if_splits)
  qed
qed


section \<open>Properties of intents and rollbacks\<close>

lemma harmless_return: "harmless (State_Monad.return r)"
  by (auto simp: harmless_def adds_no_intent_def)

lemma example_client_harmless: "client_harmless (ct_client example_control ref)"
  by (simp add: client_harmless_def example_control_def example_client_def harmless_return)

text \<open>An apply in its revert window.\<close>

definition window_db :: db where
  "window_db = empty_db\<lparr>applies := [example_apply\<lparr>apply_Deployment := ''eu'', apply_Engine := EnginePlanetScale, apply_State := Apply_RevertWindow\<rparr>]\<rparr>"

text \<open>
  Property C7 (revert and skip-revert exclude each other).  Whatever commands of the API follow each other, with steps
  of drivers between them, which request neither intent: when no apply had both a revert and a skip-revert pending before,
  none has afterwards.  Calls of the engine clients request neither either.
\<close>

theorem contrary_intents_excluded:
  assumes "commands_lead ch d d'" and "\<forall>ref. client_harmless (ct_client ch ref)" and "cr_ok d"
    and "\<forall>i. \<not> (status_on d (i, ControlOperationRevert) = Some ControlRequestPending \<and>
      status_on d (i, ControlOperationSkipRevert) = Some ControlRequestPending)"
  shows "cr_ok d' \<and> \<not> (status_on d' (i, ControlOperationRevert) = Some ControlRequestPending \<and>
      status_on d' (i, ControlOperationSkipRevert) = Some ControlRequestPending)"
proof -
  have "given uncontradicted d" using assms(3,4) by (simp add: given_def uncontradicted_def)
  from commands_keep[OF assms(1) spec[OF assms(2)] this] show ?thesis by (simp add: given_def uncontradicted_def)
qed

theorem contrary_intents_excluded_witness:
  "\<exists>d'. commands_lead example_control window_db d' \<and> status_on d' (7, ControlOperationRevert) = Some ControlRequestPending \<and>
    status_on d' (7, ControlOperationSkipRevert) \<noteq> Some ControlRequestPending"
proof -
  let ?revert = "run_state (Execute example_control example_service Revert ''apply_7'' ''production'' ''bob'') (quiet window_db)"
  let ?skip = "\<lambda>d. run_state (Execute example_control example_service SkipRevertWindow ''apply_7'' ''production'' ''eve'') (quiet d)"
  let ?d1 = "w_db (snd ?revert)"
  let ?d2 = "w_db (snd (?skip ?d1))"
  have quiet_run: "\<exists>out. run_state (Execute example_control example_service cmd i env who) (quiet d) = (out, quiet d') \<and> given uncontradicted d'"
    if "given uncontradicted d" "d' = w_db (snd (run_state (Execute example_control example_service cmd i env who) (quiet d)))" for cmd i env who d d'
    using kept_command[of example_control example_service cmd i env who, OF example_client_harmless] that
    by (fastforce simp: kept_def quietly_def)
  have start: "given uncontradicted window_db"
    by (simp add: given_def uncontradicted_def window_db_def cr_ok_def status_on_def request_at_def empty_db_def)
  obtain out1 where out1: "?revert = (out1, quiet ?d1)" "given uncontradicted ?d1" using quiet_run[OF start refl] by blast
  obtain out2 where out2: "?skip ?d1 = (out2, quiet ?d2)" using quiet_run[OF out1(2) refl] by blast
  have lead: "commands_lead example_control window_db ?d2"
    by (rule commands_lead.command[OF commands_lead.command[OF commands_lead.none out1(1)] out2])
  have pending: "status_on ?d2 (7, ControlOperationRevert) = Some ControlRequestPending" by code_simp
  have "cr_ok window_db" by (simp add: window_db_def cr_ok_def empty_db_def)
  from contrary_intents_excluded[OF lead _ this, of 7] example_client_harmless lead pending show ?thesis
    by (auto simp: window_db_def status_on_def request_at_def empty_db_def)
qed

text \<open>
  Property C16 (a rollback starts from the latest change).  When the source of a rollback is accepted, it is the
  apply that was named, completed, of the environment and, where these are required, of the repository and pull request;
  its plan captured the original files; and it has a completed task after which no task of the same
  database, type and environment completed, with that plan.
\<close>

theorem rollback_from_latest_change:
  assumes "run_state (ValidateRollbackSourceApply ci req) (quiet d) = (Inr (a, plan), w)"
  shows "w = quiet d \<and> find (\<lambda>x. ci (apply_Identifier x) = ci (rs_ApplyIdentifier req)) (applies d) = Some a \<and>
    IsState (apply_State a) [Apply_Completed] \<and> apply_Environment a = rs_Environment req \<and>
    (rs_RequirePullRequestScope req \<longrightarrow> apply_Repository a = rs_Repository req \<and> apply_PullRequest a = rs_PullRequest req) \<and>
    map_option scanPlanInto (find (\<lambda>p. plan_ID p = apply_PlanID a) (plans d)) = Some plan \<and> HasOriginalFilesCapture (Some plan) \<and>
    (\<exists>t\<in>set (tasks d). ci (task_Database t) = ci (apply_Database a) \<and>
       rollbackTaskMatchesPlannerScope t (apply_DatabaseType a) (apply_Environment a) \<and> task_ApplyID t = apply_ID a \<and> task_PlanID t = apply_PlanID a \<and>
       (\<forall>x\<in>set (tasks d). ci (task_Database x) = ci (apply_Database a) \<and>
          rollbackTaskMatchesPlannerScope x (apply_DatabaseType a) (apply_Environment a) \<longrightarrow> \<not> rollbackTaskCompletedAfter x t))"
proof -
  let ?tasks = "newest_first (sort_key (\<lambda>t. - task_ID t) (filter (\<lambda>t. ci (task_Database t) = ci (apply_Database a)) (tasks d)))"
  have run: "w = quiet d" "find (\<lambda>x. ci (apply_Identifier x) = ci (rs_ApplyIdentifier req)) (applies d) = Some a"
    "validateRollbackSourceScope req a = None" "map_option scanPlanInto (find (\<lambda>p. plan_ID p = apply_PlanID a) (plans d)) = Some plan"
    "HasOriginalFilesCapture (Some plan)"
    "\<exists>t. latest_task (apply_DatabaseType a) (apply_Environment a) None ?tasks = Some t \<and> task_ApplyID t = apply_ID a \<and> task_PlanID t = apply_PlanID a"
    using assms
    by (auto simp: ValidateRollbackSourceApply_def or_internal_def GetByApplyIdentifier_def Plan_GetByID_def latestCompletedTaskForRollback_def
        Task_GetByDatabase_def run_or_fail split: if_splits option.splits)
  obtain t where t: "latest_task (apply_DatabaseType a) (apply_Environment a) None ?tasks = Some t" "task_ApplyID t = apply_ID a" "task_PlanID t = apply_PlanID a"
    using run(6) by blast
  have members: "set ?tasks = {x \<in> set (tasks d). ci (task_Database x) = ci (apply_Database a)}" by (simp add: newest_first_def)
  have latest: "\<exists>t\<in>set (tasks d). ci (task_Database t) = ci (apply_Database a) \<and>
       rollbackTaskMatchesPlannerScope t (apply_DatabaseType a) (apply_Environment a) \<and> task_ApplyID t = apply_ID a \<and> task_PlanID t = apply_PlanID a \<and>
       (\<forall>x\<in>set (tasks d). ci (task_Database x) = ci (apply_Database a) \<and>
          rollbackTaskMatchesPlannerScope x (apply_DatabaseType a) (apply_Environment a) \<longrightarrow> \<not> rollbackTaskCompletedAfter x t)"
    using latest_task_maximal[OF t(1)] t(2,3) unfolding members by (intro bexI[of _ t]) auto
  have scope: "IsState (apply_State a) [Apply_Completed] \<and> apply_Environment a = rs_Environment req \<and>
    (rs_RequirePullRequestScope req \<longrightarrow> apply_Repository a = rs_Repository req \<and> apply_PullRequest a = rs_PullRequest req)"
    using run(3) by (auto simp: validateRollbackSourceScope_def split: if_splits)
  show ?thesis using run(1,2,4,5) scope latest by blast
qed

definition completed_db :: db where
  "completed_db = planned_db\<lparr>applies := [example_apply\<lparr>apply_PlanID := 4, apply_State := Apply_Completed\<rparr>],
     tasks := [example_task\<lparr>task_PlanID := 4, task_Environment := ''production'', task_State := Task_Completed, task_CompletedAt := Some 50\<rparr>,
       example_task\<lparr>task_ID := 2, task_ApplyID := 6, task_Environment := ''production'', task_State := Task_Completed, task_CompletedAt := Some 40\<rparr>]\<rparr>"

theorem rollback_from_latest_change_witness:
  "\<exists>a plan. run_state (ValidateRollbackSourceApply ToLower \<lparr>rs_ApplyIdentifier = ''apply_7'', rs_Environment = ''production'', rs_Repository = ''org/app'',
      rs_PullRequest = 1, rs_RequirePullRequestScope = True\<rparr>) (quiet completed_db) = (Inr (a, plan), quiet completed_db) \<and>
    IsState (apply_State a) [Apply_Completed] \<and> apply_Repository a = ''org/app'' \<and> HasOriginalFilesCapture (Some plan)"
proof -
  let ?req = "\<lparr>rs_ApplyIdentifier = ''apply_7'', rs_Environment = ''production'', rs_Repository = ''org/app'', rs_PullRequest = 1,
    rs_RequirePullRequestScope = True\<rparr>"
  let ?run = "run_state (ValidateRollbackSourceApply ToLower ?req) (quiet completed_db)"
  have "\<not> isl (fst ?run)" by code_simp
  then obtain a plan w where run: "?run = (Inr (a, plan), w)" by (cases ?run; cases "fst ?run") auto
  from rollback_from_latest_change[OF run] run show ?thesis by auto
qed

end
