(* ===== verification/Spec2Isabelle.thy ===== *)
theory Spec2Isabelle
  imports Task_Progress Operator Check_Publisher Apply_Gate Unlock_Command Control_Intents
begin

text \<open>
  Verification of the core of SchemaBot, a service that applies schema changes of databases from pull
  requests.

  \<^bold>\<open>The program.\<close>  A comment on a pull request reaches every deployment of SchemaBot as a webhook.  The webhook
  layer (\<^verbatim>\<open>pkg/webhook\<close>) stores the delivery in a durable inbox, parses the command, decides whether this
  deployment acts on it, and holds an apply behind gates: who may run it, who approved it, whether the
  other checks pass and whether the earlier environments are clean.  The API layer (\<^verbatim>\<open>pkg/api\<close>) plans a
  change with the engine of the primary deployment, stores the plan, and turns a stored plan into an
  apply with operations (one per deployment, or per deployment, shard and table) and tasks (one per
  table change).  The operator (\<^verbatim>\<open>pkg/api/operator.go\<close>) runs drivers that claim operations under leases, drive
  them through an engine and project the results onto the apply.  All state that coordinates the
  processes is in MySQL (\<^verbatim>\<open>pkg/storage/mysqlstore\<close>).  The state vocabulary is \<^verbatim>\<open>pkg/state\<close>.

  \<^bold>\<open>The theories\<close>, in the order they build on one another:
  \<^item> \<open>Prelude\<close>: the parts of Go's \<^verbatim>\<open>strings\<close> package the sources use, the collection \<open>go_eval\<close> and the
    generic lemmas.  \<open>Strconv\<close>: decimal conversions and JSON strings.  \<open>Regex\<close>: leftmost-first matching.
  \<^item> \<open>States\<close> (\<^verbatim>\<open>pkg/state\<close>): names, normalisation, metadata, and the derivation of an apply's state from its
    tasks and of a rollout's state from its operations.  \<open>Task_Progress\<close> (\<^verbatim>\<open>pkg/tern\<close>): engine reports as
    task states.
  \<^item> \<open>Storage_Types\<close> (\<^verbatim>\<open>pkg/storage\<close>): row types, errors, leases, contexts.  \<open>Sql_Store\<close>: the database, its
    statements and transactions, lock retries, lease checks, and a small program logic.
  \<^item> The stores of \<^verbatim>\<open>pkg/storage/mysqlstore\<close>: \<open>Lock_Store\<close>, \<open>Control_Requests\<close>, \<open>Apply_Operations\<close>,
    \<open>Operation_Claims\<close>, \<open>Task_Store\<close>, \<open>Apply_Store\<close>, \<open>Apply_Logs\<close>, \<open>Plan_Store\<close>, \<open>Comment_Store\<close>, \<open>Check_Store\<close>, \<open>Webhook_Inbox\<close>;
    \<open>Apply_Exclusion\<close> states what holds of them together.
  \<^item> \<open>Operator\<close> (\<^verbatim>\<open>operator.go\<close>): the tick of a driver.
  \<^item> \<open>Server_Config\<close>, \<open>Source_Policy\<close>, \<open>Aggregate_Config\<close> (\<^verbatim>\<open>config.go\<close>, \<^verbatim>\<open>source_policy.go\<close>, \<^verbatim>\<open>aggregate_config.go\<close>): routing
    and policy decisions from the configuration.
  \<^item> \<open>Apply_Options\<close>, \<open>Apply_Enqueue\<close>, \<open>Plan_Execution\<close> (\<^verbatim>\<open>plan_handlers.go\<close>, \<^verbatim>\<open>proto_helpers.go\<close>): planning and queueing.
  \<^item> \<open>Control_Handlers\<close> (\<^verbatim>\<open>control_handlers.go\<close>): cutover, stop, cancel, start, release, volume, revert, skip-revert and
    the source of a rollback.  \<open>Control_Safety\<close>: a logic of pre- and postconditions for programs without
    interference, and what stops and starts guarantee.  \<open>Control_Intents\<close>: contrary intents and rollbacks.
  \<^item> \<open>Webhook_Dispatch\<close> (\<^verbatim>\<open>durable_dispatch.go\<close>), \<open>Webhook_Commands\<close> (\<^verbatim>\<open>commands.go\<close>), \<open>Comment_Dispatch\<close>
    (\<^verbatim>\<open>issue_comment.go\<close>, \<^verbatim>\<open>participant_nudge.go\<close>): from a delivery to the handler that runs.
  \<^item> \<open>Review_Gate\<close>, \<open>Passing_Checks\<close>, \<open>Promotion_Gate\<close>: the gates of an apply.  \<open>Apply_Gate\<close> (\<^verbatim>\<open>apply_handlers.go\<close>,
    \<^verbatim>\<open>apply_execute.go\<close>, \<^verbatim>\<open>plan_retry.go\<close>, \<^verbatim>\<open>schema_freshness.go\<close>, \<^verbatim>\<open>plan_freshness.go\<close>, \<^verbatim>\<open>apply_check_records.go\<close>): the apply and
    apply-confirm commands, which compose the gates with the lock store, planning and queueing.
    \<open>Unlock_Command\<close>: the unlock command.  \<open>Stages\<close>: handlers as stages that may stop.  \<open>Check_Aggregate\<close>, \<open>Check_Publisher\<close>: the check run that blocks the merge.

  \<^bold>\<open>State and operations.\<close>  A row is a record, a table a list in insertion order with its next id, the
  database the record \<open>db\<close>.  A method of a store is a program \<open>'a prog\<close> in the state monad over a \<open>world\<close>;
  it keeps the name of the Go method, with the store's name in front where two stores share it.  A
  query and the statement of a write are definitions of their own, so that each clause can be read
  against the SQL.  Errors are values of \<open>err\<close>; a handler's comment or answer is a value.  A NULL text is
  the empty text and a NULL id is 0, except where the code tells them apart; JSON columns hold their
  decoded values.  Go maps whose iteration order does not matter are association lists.

  \<^bold>\<open>Concurrency and failure.\<close>  A \<open>world\<close> carries a script of turns.  Before each statement the other
  sessions act (any function on the database), and the statement may fail with any error, without
  effect.  Theorems about \<open>run_state p w\<close> for every \<open>w\<close> hold for every interleaving and every failure;
  \<open>quiet d\<close> is the world without interference.  Writes of a transaction are undone by a rollback.  Some
  theorems restrict the other sessions, as a named hypothesis: they respect the named lock of a target
  (\<open>respects_lock\<close>), or keep the invariant themselves.  An UPDATE reports the rows it changed, not those it
  matched, and evaluates its assignments from left to right.

  \<^bold>\<open>Parameters.\<close>  Code outside the repository, or reached only through it, is an argument: the collation \<open>ci\<close>
  of text columns (the key under which MySQL compares texts), the hash \<open>sha\<close> of a lock name, the GitHub
  client (pull requests, files, reviews, teams, CODEOWNERS, check runs), the engine behind a deployment
  (\<open>resume\<close>, \<open>plan_rpc\<close>, \<open>ControlClient\<close>), the drawing of uuids, opening connections, publishing a summary, auto-plan; for the
  apply commands also schema discovery and the reconciliation and publication of checks (\<open>ApplyHost\<close>).

  \<^bold>\<open>What is shown.\<close>
  \<^item> Rollouts: in every reachable state rolling work starts only after the earlier deployments settled
    and cutovers never overlap (rule induction over claims and driver writes); under any interference a
    pending operation starts only if it was claimable and no stop is pending when the claim takes
    effect; a displaced driver cannot write, report, log or settle; a retry consumes its budget.
  \<^item> Applies: at most one active apply per deployment, under any interference that respects the target
    lock; the projection writes exactly the state the operations derive and never revives a terminal
    apply.  A reopened rollout can break the exclusion; the run is evaluated in \<open>Operator\<close>.
  \<^item> Planning: what the reviewer saw is what is stored, for an engine client that stores nothing itself; what is queued is exactly the stored plan, from an
    authorized source, with unsafe changes only by opt-in.
  \<^item> Gates: each gate opens exactly, or only, under its documented condition, errors block, and the
    promotion gate answers within a bounded number of reads.
  \<^item> Commands: under any interference an apply is queued only through all gates, in order, for the
    discovered snapshot and with exactly the changes of the stored plan the lock is pinned to; a
    confirmation only for a lock of its pull request, though not only for the reviewed DDL; unlock
    releases only idle locks that the actor may release.
  \<^item> Control: an accepted stop waits for its driver or has taken effect, whatever the engine answered; an
    accepted start has no stop or cancel against it; revert and skip-revert are never pending together
    along any sequence of commands; a rollback starts only from the latest completed change.
  \<^item> The merge check: it passes exactly when every contribution is current, finished and passing; the
    leader's also needs a trusted successful run of every participant; a running apply's row is never
    overwritten by a plan.
  \<^item> Stores: the lock store refines an abstract lock table; plans, options and checks are read back as
    written; control requests settle only under the current lease.
  \<^item> Deliveries: the inbox keeps its invariant, nothing is wedged, a stale claim is fenced and the drain
    loop ends although retries become due and leases expire while it runs; a comment command is read from a visible line and runs only on the deployment it addresses.

  \<^bold>\<open>Interfaces.\<close>  \<open>lock_service\<close> (\<open>Lock_Store\<close>), \<open>control_intent\<close> (\<open>Control_Requests\<close>), \<open>row_guard\<close> (\<open>Check_Store\<close>) and
  \<open>apply_writer\<close> (\<open>Apply_Exclusion\<close>) are locales with the laws a client relies on; each is interpreted on the
  store's own definitions.

  \<^bold>\<open>Bounds.\<close>  Loops of the source are structural recursion over what bounds them: five attempts of a lock
  retry, the configured attempts of the promotion gate (2n - 1 reads), three re-folds.  The drain loop of
  the inbox takes fuel; six iterations per row and two more are enough, however much time passes
  meanwhile, which is proved.  A regular
  expression's repetition is bounded by the length of the text, since every round consumes a character.

  \<^bold>\<open>Not modelled.\<close>  The engines (\<^verbatim>\<open>pkg/engine\<close>, \<^verbatim>\<open>pkg/psclient\<close>) and the polling loops of
  \<^verbatim>\<open>pkg/tern\<close> drive external databases; DDL parsing, linting and diffing rest on third-party parsers;
  comment texts and the terminal interface are presentation; GitHub transport, secrets, TLS and serving
  are I/O.  The client of a local engine stores its own plan before it answers
  (\<^verbatim>\<open>LocalClient.Plan\<close>), which the handler then keeps; that store is behind the client and not modelled.  Of the modelled parts logs, metrics and trace spans are left out, as are the goroutines that
  start and stop drivers.  The comment front of the control commands (\<^verbatim>\<open>webhook/control.go\<close>,
  \<^verbatim>\<open>webhook/rollback.go\<close>) is not modelled; the API operations it calls are.
\<close>

end
